(* ===== verification/Prelude.thy ===== *)
theory Prelude
  imports Complex_Main
begin

text \<open>
  Shared vocabulary of the TG2Cloud development.

  \<^item> \<open>ustr\<close> is a Python \<open>str\<close>: the list of its code points. ASCII literals are written
    \<open>asc ''abc''\<close>; the fixed Chinese messages are code point lists in theory Messages.
  \<^item> \<open>dec\<close> is \<open>str(int)\<close>; \<open>undec\<close> reads it back.
  \<^item> \<open>starts_with\<close>, \<open>ends_with\<close>, \<open>contains\<close>, \<open>split_on\<close>, \<open>join_with\<close>, \<open>strip_set\<close>
    are the \<open>str\<close> methods the program uses.
  \<^item> \<open>utf8_len\<close> is \<open>len(s.encode("utf-8"))\<close>.
  \<^item> \<open>platform\<close> collects what the interpreter's data files decide: Unicode tables,
    the time zone database and the process environment.
  \<^item> the named collections \<open>row_simps\<close> and \<open>keep_rules\<close> gather the facts that
    carry the component proofs.
\<close>

named_theorems row_simps \<open>facts about looking up and updating rows of a table\<close>
named_theorems keep_rules \<open>facts that an operation keeps an invariant\<close>

section \<open>Text\<close>

type_synonym ustr = "nat list"

definition asc :: "string \<Rightarrow> ustr" where
  "asc s = map of_char s"

fun starts_with :: "ustr \<Rightarrow> ustr \<Rightarrow> bool" where
  "starts_with s [] = True"
| "starts_with [] (p # ps) = False"
| "starts_with (c # cs) (p # ps) = (c = p \<and> starts_with cs ps)"

definition ends_with :: "ustr \<Rightarrow> ustr \<Rightarrow> bool" where
  "ends_with s p = starts_with (rev s) (rev p)"

fun contains :: "ustr \<Rightarrow> ustr \<Rightarrow> bool" where
  "contains [] p = (p = [])"
| "contains (c # cs) p = (starts_with (c # cs) p \<or> contains cs p)"

definition lstrip_set :: "nat list \<Rightarrow> ustr \<Rightarrow> ustr" where
  "lstrip_set cs s = dropWhile (\<lambda>c. c \<in> set cs) s"

definition rstrip_set :: "nat list \<Rightarrow> ustr \<Rightarrow> ustr" where
  "rstrip_set cs s = rev (dropWhile (\<lambda>c. c \<in> set cs) (rev s))"

definition strip_set :: "nat list \<Rightarrow> ustr \<Rightarrow> ustr" where
  "strip_set cs s = rstrip_set cs (lstrip_set cs s)"

fun split_on :: "nat \<Rightarrow> ustr \<Rightarrow> ustr list" where
  "split_on d [] = [[]]"
| "split_on d (c # cs) =
     (if c = d then [] # split_on d cs
      else (case split_on d cs of [] \<Rightarrow> [[c]] | p # ps \<Rightarrow> (c # p) # ps))"

fun join_with :: "ustr \<Rightarrow> ustr list \<Rightarrow> ustr" where
  "join_with d [] = []"
| "join_with d [p] = p"
| "join_with d (p # q # ps) = p @ d @ join_with d (q # ps)"

lemma starts_with_iff: "starts_with s p \<longleftrightarrow> (\<exists>r. s = p @ r)"
  by (induction s p rule: starts_with.induct) auto

lemma starts_with_append [simp]: "starts_with (p @ r) p"
  by (auto simp: starts_with_iff)

lemma ends_with_iff: "ends_with s p \<longleftrightarrow> (\<exists>r. s = r @ p)"
proof -
  have "ends_with s p \<longleftrightarrow> (\<exists>r. rev s = rev p @ r)"
    by (simp add: ends_with_def starts_with_iff)
  also have "\<dots> \<longleftrightarrow> (\<exists>r. s = r @ p)"
    by (metis rev_append rev_rev_ident)
  finally show ?thesis .
qed

lemma contains_iff: "contains s p \<longleftrightarrow> (\<exists>a b. s = a @ p @ b)"
proof (induction s)
  case Nil
  then show ?case by auto
next
  case (Cons c cs)
  have "(\<exists>a b. c # cs = a @ p @ b) \<longleftrightarrow>
      (\<exists>b. c # cs = p @ b) \<or> (\<exists>a b. cs = a @ p @ b)"
    by (metis append_Cons append_Nil neq_Nil_conv list.inject)
  then show ?case using Cons by (simp add: starts_with_iff)
qed

lemma split_on_nonempty [simp]: "split_on d s \<noteq> []"
  by (induction s) (auto split: list.splits)

lemma split_on_parts: "p \<in> set (split_on d s) \<Longrightarrow> d \<notin> set p"
proof (induction s arbitrary: p)
  case Nil
  then show ?case by simp
next
  case (Cons c cs)
  show ?case
  proof (cases "c = d")
    case True
    with Cons show ?thesis by auto
  next
    case False
    obtain q qs where "split_on d cs = q # qs"
      by (cases "split_on d cs") auto
    with False Cons show ?thesis by auto
  qed
qed

lemma join_split: "join_with [d] (split_on d s) = s"
proof (induction s)
  case Nil
  then show ?case by simp
next
  case (Cons c cs)
  obtain q qs where "split_on d cs = q # qs"
    by (cases "split_on d cs") auto
  with Cons show ?case by (cases qs) auto
qed

lemma split_on_no_sep: "d \<notin> set s \<Longrightarrow> split_on d s = [s]"
  by (induction s) auto

lemma split_on_append: "d \<notin> set p \<Longrightarrow> split_on d (p @ d # s) = p # split_on d s"
  by (induction p) auto

lemma set_rstrip: "set (rstrip_set cs s) \<subseteq> set s"
  by (auto simp: rstrip_set_def dest: set_dropWhileD)

lemma set_strip: "set (strip_set cs s) \<subseteq> set s"
  using set_rstrip[of cs "lstrip_set cs s"]
  by (auto simp: strip_set_def lstrip_set_def dest: set_dropWhileD)

section \<open>Decimal numbers\<close>

fun dec_nat :: "nat \<Rightarrow> ustr" where
  "dec_nat n = (if n < 10 then [48 + n] else dec_nat (n div 10) @ [48 + n mod 10])"

declare dec_nat.simps [simp del]

definition dec :: "int \<Rightarrow> ustr" where
  "dec i = (if i < 0 then 45 # dec_nat (nat (- i)) else dec_nat (nat i))"

definition is_digit :: "nat \<Rightarrow> bool" where
  "is_digit c \<longleftrightarrow> 48 \<le> c \<and> c \<le> 57"

definition undec_nat :: "ustr \<Rightarrow> nat" where
  "undec_nat s = foldl (\<lambda>a c. 10 * a + (c - 48)) 0 s"

lemma dec_nat_nonempty [simp]: "dec_nat n \<noteq> []"
  by (subst dec_nat.simps) simp

lemma dec_nat_digits: "c \<in> set (dec_nat n) \<Longrightarrow> is_digit c"
proof (induction n rule: dec_nat.induct)
  case (1 n)
  show ?case
  proof (cases "n < 10")
    case True
    with "1.prems" show ?thesis by (subst (asm) dec_nat.simps) (auto simp: is_digit_def)
  next
    case False
    with "1.prems" consider "c \<in> set (dec_nat (n div 10))" | "c = 48 + n mod 10"
      by (subst (asm) dec_nat.simps) auto
    then show ?thesis
    proof cases
      case 1
      with "1.IH" False show ?thesis by simp
    next
      case 2
      have "n mod 10 < 10" by simp
      with 2 show ?thesis unfolding is_digit_def by linarith
    qed
  qed
qed

lemma dec_nat_all_digits: "list_all is_digit (dec_nat n)"
  using dec_nat_digits by (simp add: list_all_iff)

lemma undec_dec_nat: "undec_nat (dec_nat n) = n"
proof (induction n rule: dec_nat.induct)
  case (1 n)
  show ?case
  proof (cases "n < 10")
    case True
    then show ?thesis by (subst dec_nat.simps) (simp add: undec_nat_def)
  next
    case False
    with 1 have IH: "undec_nat (dec_nat (n div 10)) = n div 10" by simp
    from False have "undec_nat (dec_nat n) = 10 * undec_nat (dec_nat (n div 10)) + n mod 10"
      by (subst dec_nat.simps) (simp add: undec_nat_def)
    also have "\<dots> = n" unfolding IH by simp
    finally show ?thesis .
  qed
qed

lemma dec_nat_inj: "dec_nat m = dec_nat n \<longleftrightarrow> m = n"
  by (metis undec_dec_nat)

lemma dec_nat_head: "0 < n \<Longrightarrow> 49 \<le> hd (dec_nat n) \<and> hd (dec_nat n) \<le> 57"
proof (induction n rule: dec_nat.induct)
  case (1 n)
  show ?case
  proof (cases "n < 10")
    case True
    with "1.prems" show ?thesis by (subst (1 2) dec_nat.simps) auto
  next
    case False
    with 1 have "49 \<le> hd (dec_nat (n div 10)) \<and> hd (dec_nat (n div 10)) \<le> 57" by simp
    with False show ?thesis by (subst (1 2) dec_nat.simps) simp
  qed
qed

lemma dec_nat_length: "n < 10 ^ k \<Longrightarrow> 0 < k \<Longrightarrow> length (dec_nat n) \<le> k"
proof (induction k arbitrary: n)
  case 0
  then show ?case by simp
next
  case (Suc k)
  show ?case
  proof (cases "n < 10")
    case True
    then show ?thesis by (subst dec_nat.simps) simp
  next
    case False
    with Suc.prems have k: "0 < k" by (cases k) auto
    from Suc.prems have "n div 10 < 10 ^ k" by auto
    with Suc.IH k have "length (dec_nat (n div 10)) \<le> k" by blast
    with False show ?thesis by (subst dec_nat.simps) simp
  qed
qed

lemma dec_inj: "dec i = dec j \<longleftrightarrow> i = j"
proof
  assume eq: "dec i = dec j"
  have hd: "hd (dec_nat n) \<noteq> 45" for n
    using dec_nat_digits[of "hd (dec_nat n)" n] by (auto simp: is_digit_def)
  show "i = j"
  proof (cases "i < 0"; cases "j < 0")
    assume "i < 0" "j < 0"
    with eq show ?thesis by (simp add: dec_def dec_nat_inj)
  next
    assume "i < 0" "\<not> j < 0"
    with eq hd[of "nat j"] show ?thesis by (metis dec_def list.sel(1))
  next
    assume "\<not> i < 0" "j < 0"
    with eq hd[of "nat i"] show ?thesis by (metis dec_def list.sel(1))
  next
    assume "\<not> i < 0" "\<not> j < 0"
    with eq show ?thesis by (simp add: dec_def dec_nat_inj)
  qed
qed simp

section \<open>Encoded size\<close>

definition is_surrogate :: "nat \<Rightarrow> bool" where
  "is_surrogate c \<longleftrightarrow> 55296 \<le> c \<and> c \<le> 57343"

definition utf8_size :: "nat \<Rightarrow> nat" where
  "utf8_size c = (if c < 128 then 1 else if c < 2048 then 2 else if c < 65536 then 3 else 4)"

definition utf8_len :: "ustr \<Rightarrow> nat" where
  "utf8_len s = sum_list (map utf8_size s)"

lemma utf8_len_simps [simp]:
  "utf8_len [] = 0" "utf8_len (c # s) = utf8_size c + utf8_len s"
  "utf8_len (s @ t) = utf8_len s + utf8_len t"
  by (simp_all add: utf8_len_def)

lemma utf8_size_bounds: "1 \<le> utf8_size c \<and> utf8_size c \<le> 4"
  by (simp add: utf8_size_def)

lemma length_le_utf8: "length s \<le> utf8_len s"
proof (induction s)
  case (Cons c s)
  with utf8_size_bounds[of c] show ?case by simp
qed simp

section \<open>Results\<close>

text \<open>A raised exception is \<open>Inl\<close>, a returned value \<open>Inr\<close>.\<close>

definition bindE :: "'e + 'a \<Rightarrow> ('a \<Rightarrow> 'e + 'b) \<Rightarrow> 'e + 'b" where
  "bindE r f = (case r of Inl e \<Rightarrow> Inl e | Inr a \<Rightarrow> f a)"

lemma bindE_simps [simp]: "bindE (Inl e) f = Inl e" "bindE (Inr a) f = f a"
  by (simp_all add: bindE_def)

lemma bindE_Inr: "bindE r f = Inr b \<longleftrightarrow> (\<exists>a. r = Inr a \<and> f a = Inr b)"
  by (cases r) auto

lemma bindE_Inl: "bindE r f = Inl e \<longleftrightarrow> r = Inl e \<or> (\<exists>a. r = Inr a \<and> f a = Inl e)"
  by (cases r) auto

section \<open>Tables\<close>

text \<open>
  A database table is the list of its rows in row-id order. \<open>upd_where\<close> is an
  \<open>UPDATE ... WHERE\<close>, \<open>sum_where\<close> a \<open>COALESCE(SUM(...), 0)\<close>, \<open>take_last\<close> keeps the
  newest rows.
\<close>

definition upd_where :: "('r \<Rightarrow> bool) \<Rightarrow> ('r \<Rightarrow> 'r) \<Rightarrow> 'r list \<Rightarrow> 'r list" where
  "upd_where p f rows = map (\<lambda>r. if p r then f r else r) rows"

definition sum_where :: "('r \<Rightarrow> bool) \<Rightarrow> ('r \<Rightarrow> int) \<Rightarrow> 'r list \<Rightarrow> int" where
  "sum_where p f rows = sum_list (map f (filter p rows))"

definition count_where :: "('r \<Rightarrow> bool) \<Rightarrow> 'r list \<Rightarrow> nat" where
  "count_where p rows = length (filter p rows)"

lemma upd_where_Nil [simp]: "upd_where p f [] = []"
  by (simp add: upd_where_def)

lemma upd_where_Cons [simp]:
  "upd_where p f (r # rs) = (if p r then f r else r) # upd_where p f rs"
  by (simp add: upd_where_def)

lemma length_upd_where [simp]: "length (upd_where p f rows) = length rows"
  by (simp add: upd_where_def)

lemma map_upd_where:
  "(\<And>r. r \<in> set rows \<Longrightarrow> p r \<Longrightarrow> g (f r) = g r) \<Longrightarrow> map g (upd_where p f rows) = map g rows"
  by (induction rows) auto

lemma set_upd_where: "set (upd_where p f rows) = (\<lambda>r. if p r then f r else r) ` set rows"
  by (simp add: upd_where_def)

lemma sum_where_simps [simp]:
  "sum_where p f [] = 0"
  "sum_where p f (r # rs) = (if p r then f r + sum_where p f rs else sum_where p f rs)"
  "sum_where p f (xs @ ys) = sum_where p f xs + sum_where p f ys"
  by (simp_all add: sum_where_def)

lemma count_where_simps [simp]:
  "count_where p [] = 0"
  "count_where p (r # rs) = (if p r then Suc (count_where p rs) else count_where p rs)"
  "count_where p (xs @ ys) = count_where p xs + count_where p ys"
  by (simp_all add: count_where_def)

lemma sum_where_nonneg:
  "(\<And>r. r \<in> set rows \<Longrightarrow> p r \<Longrightarrow> 0 \<le> f r) \<Longrightarrow> 0 \<le> sum_where p f rows"
  by (induction rows) auto

lemma sum_where_cong:
  "(\<And>r. r \<in> set rows \<Longrightarrow> (p r \<longleftrightarrow> q r) \<and> (p r \<longrightarrow> f r = g r)) \<Longrightarrow>
     sum_where p f rows = sum_where q g rows"
  by (induction rows) auto

lemma count_where_cong:
  "(\<And>r. r \<in> set rows \<Longrightarrow> p r \<longleftrightarrow> q r) \<Longrightarrow> count_where p rows = count_where q rows"
  by (induction rows) auto

lemma count_where_mono:
  "(\<And>r. r \<in> set rows \<Longrightarrow> p r \<Longrightarrow> q r) \<Longrightarrow> count_where p rows \<le> count_where q rows"
  by (induction rows) auto

lemma count_where_filter_le: "count_where q (filter p rows) \<le> count_where q rows"
  by (induction rows) auto

lemma count_where_upd:
  "count_where q (upd_where p f rows) = count_where (\<lambda>r. q (if p r then f r else r)) rows"
  by (induction rows) auto

text \<open>The row with a given key in a table whose keys are distinct.\<close>

definition row_of :: "('r \<Rightarrow> 'k) \<Rightarrow> 'k \<Rightarrow> 'r list \<Rightarrow> 'r option" where
  "row_of key k rows = find (\<lambda>r. key r = k) rows"

lemma row_of_simps [simp]:
  "row_of key k [] = None"
  "row_of key k (r # rs) = (if key r = k then Some r else row_of key k rs)"
  by (simp_all add: row_of_def)

lemma find_in: "find q xs = Some x \<Longrightarrow> x \<in> set xs"
  by (induction xs) (auto split: if_splits)

lemma row_of_Some: "row_of key k rows = Some r \<Longrightarrow> r \<in> set rows \<and> key r = k"
  by (induction rows) (auto split: if_splits)

lemma row_of_None: "row_of key k rows = None \<longleftrightarrow> k \<notin> key ` set rows"
  by (induction rows) auto

lemma row_of_append:
  "row_of key k (xs @ ys) = (case row_of key k xs of None \<Rightarrow> row_of key k ys | Some r \<Rightarrow> Some r)"
  by (induction xs) auto

lemma row_of_unique:
  "distinct (map key rows) \<Longrightarrow> r \<in> set rows \<Longrightarrow> row_of key (key r) rows = Some r"
  by (induction rows) force+

lemma row_of_upd [row_simps]:
  assumes "\<And>r. key (f r) = key r"
  shows "row_of key k (upd_where (\<lambda>r. key r = j) f rows) =
    (if k = j then map_option f (row_of key k rows) else row_of key k rows)"
  using assms by (induction rows) auto

lemma count_where_upd_le:
  assumes "distinct (map key rows)"
  shows "count_where q (upd_where (\<lambda>r. key r = k) f rows)
    \<le> Suc (count_where (\<lambda>r. q r \<and> key r \<noteq> k) rows)"
  using assms
proof (induction rows)
  case (Cons r rs)
  show ?case
  proof (cases "key r = k")
    case True
    with Cons.prems have "\<forall>x \<in> set rs. key x \<noteq> k"
      by (metis distinct.simps(2) image_eqI list.simps(9) set_map)
    then have "upd_where (\<lambda>r. key r = k) f rs = rs"
      and "count_where (\<lambda>r. q r \<and> key r \<noteq> k) rs = count_where q rs"
      by (auto simp: upd_where_def intro!: map_idI count_where_cong)
    with True show ?thesis by simp
  next
    case False
    with Cons show ?thesis by auto
  qed
qed simp

lemma sum_where_upd:
  assumes "distinct (map key rows)" and "row_of key k rows = Some r" and "\<And>x. key (g x) = key x"
  shows "sum_where q f (upd_where (\<lambda>x. key x = k) g rows) =
    sum_where q f rows - (if q r then f r else 0) + (if q (g r) then f (g r) else 0)"
  using assms(1,2)
proof (induction rows)
  case (Cons x xs)
  show ?case
  proof (cases "key x = k")
    case True
    with Cons.prems have "\<forall>y \<in> set xs. key y \<noteq> k"
      by (metis distinct.simps(2) image_eqI list.simps(9) set_map)
    then have "upd_where (\<lambda>x. key x = k) g xs = xs"
      by (auto simp: upd_where_def intro!: map_idI)
    with True Cons.prems show ?thesis by auto
  next
    case False
    with Cons show ?thesis by auto
  qed
qed simp

section \<open>The interpreter's data\<close>

text \<open>General categories of the Unicode database that the program tests for.\<close>

datatype ucat = UCc | UCf | UCs | UCo | UCn | UM | USo | USk | UOther

text \<open>
  Everything the program obtains from data files rather than from code: the Unicode
  tables, the IANA time zone database and the process environment. It is a parameter
  of the operations that use it.
\<close>

record platform =
  nfc :: "ustr \<Rightarrow> ustr"
  nfkc :: "ustr \<Rightarrow> ustr"
  casefold :: "ustr \<Rightarrow> ustr"
  category :: "nat \<Rightarrow> ucat"
  wide :: "nat \<Rightarrow> bool"
  word_char :: "nat \<Rightarrow> bool"
  digit_char :: "nat \<Rightarrow> bool"
  alnum_char :: "nat \<Rightarrow> bool"
  space_char :: "nat \<Rightarrow> bool"
  lower :: "ustr \<Rightarrow> ustr"
  zone_known :: "ustr \<Rightarrow> bool"
  day_bounds :: "ustr \<Rightarrow> rat \<Rightarrow> rat \<times> rat"
  year_of :: "ustr \<Rightarrow> rat \<Rightarrow> ustr"
  month_of :: "ustr \<Rightarrow> rat \<Rightarrow> ustr"
  env_tz :: "ustr option"
  float_repr :: "rat \<Rightarrow> ustr"
  float_round :: "rat \<Rightarrow> rat"
  alpha_char :: "nat \<Rightarrow> bool"
  upper_char :: "nat \<Rightarrow> bool"
  digit_value :: "nat \<Rightarrow> nat"

text \<open>
  A platform for ASCII text in UTC, on which the witnesses evaluate the operations.
\<close>

definition ascii_lower :: "ustr \<Rightarrow> ustr" where
  "ascii_lower s = map (\<lambda>c. if 65 \<le> c \<and> c \<le> 90 then c + 32 else c) s"

definition ascii_platform :: platform where
  "ascii_platform = \<lparr>nfc = (\<lambda>s. s), nfkc = (\<lambda>s. s), casefold = ascii_lower,
     category = (\<lambda>c. if c < 32 \<or> (127 \<le> c \<and> c < 160) then UCc
                     else if is_surrogate c then UCs else UOther),
     wide = (\<lambda>c. 4352 \<le> c), word_char = (\<lambda>c. 256 \<le> c), digit_char = (\<lambda>c. False),
     alnum_char = (\<lambda>c. 256 \<le> c), space_char = (\<lambda>c. c = 32 \<or> (9 \<le> c \<and> c \<le> 13)),
     lower = ascii_lower, zone_known = (\<lambda>z. z = asc ''UTC''),
     day_bounds = (\<lambda>z t. (86400 * of_int \<lfloor>t / 86400\<rfloor>, 86400 * of_int \<lfloor>t / 86400\<rfloor> + 86400)),
     year_of = (\<lambda>z t. asc ''2024''), month_of = (\<lambda>z t. asc ''01''),
     env_tz = Some (asc ''UTC''), float_repr = (\<lambda>q. dec \<lfloor>q\<rfloor>),
     float_round = (\<lambda>q. q), alpha_char = (\<lambda>c. 256 \<le> c), upper_char = (\<lambda>c. False),
     digit_value = (\<lambda>c. c - 48)\<rparr>"

end
