(* ===== verification/States.thy ===== *)
theory States
  imports Prelude
begin

text \<open>
  \<open>src/tg2cloud/domain/states.py\<close>: the persisted states of a transfer task, the sets
  the scheduler and the budget use, and the table of legal state changes.
  The lemmas say what the table allows: which states are terminal, that every
  unfinished state can still be cancelled and re-queued, and that \<open>completed\<close> is only
  reached through \<open>cleanup_pending\<close>.
\<close>

datatype task_state =
    Queued | Reserved | Downloading | Streaming | Downloaded | WaitingUpload
  | Uploading | Verifying | Finalizing | CleanupPending | Completed | Confirmed
  | DownloadFailed | UploadFailedRetained | VerificationFailedRetained | Cancelled

instantiation task_state :: linorder
begin

fun state_rank :: "task_state \<Rightarrow> nat" where
  "state_rank Queued = 0"
| "state_rank Reserved = 1"
| "state_rank Downloading = 2"
| "state_rank Streaming = 3"
| "state_rank Downloaded = 4"
| "state_rank WaitingUpload = 5"
| "state_rank Uploading = 6"
| "state_rank Verifying = 7"
| "state_rank Finalizing = 8"
| "state_rank CleanupPending = 9"
| "state_rank Completed = 10"
| "state_rank Confirmed = 11"
| "state_rank DownloadFailed = 12"
| "state_rank UploadFailedRetained = 13"
| "state_rank VerificationFailedRetained = 14"
| "state_rank Cancelled = 15"

definition less_eq_task_state :: "task_state \<Rightarrow> task_state \<Rightarrow> bool" where
  "less_eq_task_state a b \<longleftrightarrow> state_rank a \<le> state_rank b"

definition less_task_state :: "task_state \<Rightarrow> task_state \<Rightarrow> bool" where
  "less_task_state a b \<longleftrightarrow> state_rank a < state_rank b"

lemma state_rank_inj: "state_rank a = state_rank b \<Longrightarrow> a = b"
  by (cases a; cases b) simp_all

instance
  by standard
    (auto simp: less_eq_task_state_def less_task_state_def intro: state_rank_inj)

end

definition all_states :: "task_state list" where
  "all_states = [Queued, Reserved, Downloading, Streaming, Downloaded, WaitingUpload,
     Uploading, Verifying, Finalizing, CleanupPending, Completed, Confirmed,
     DownloadFailed, UploadFailedRetained, VerificationFailedRetained, Cancelled]"

text \<open>The stored spelling of a state: the keys of \<open>STATE_LABELS\<close>.\<close>

fun state_name :: "task_state \<Rightarrow> ustr" where
  "state_name Queued = asc ''queued''"
| "state_name Reserved = asc ''reserved''"
| "state_name Downloading = asc ''downloading''"
| "state_name Streaming = asc ''streaming''"
| "state_name Downloaded = asc ''downloaded''"
| "state_name WaitingUpload = asc ''waiting_upload''"
| "state_name Uploading = asc ''uploading''"
| "state_name Verifying = asc ''verifying''"
| "state_name Finalizing = asc ''finalizing''"
| "state_name CleanupPending = asc ''cleanup_pending''"
| "state_name Completed = asc ''completed''"
| "state_name Confirmed = asc ''confirmed''"
| "state_name DownloadFailed = asc ''download_failed''"
| "state_name UploadFailedRetained = asc ''upload_failed_retained''"
| "state_name VerificationFailedRetained = asc ''verification_failed_retained''"
| "state_name Cancelled = asc ''cancelled''"

definition LOCAL_STATES :: "task_state list" where
  "LOCAL_STATES = [Reserved, Downloading, Downloaded, WaitingUpload, Uploading,
     Verifying, Finalizing, CleanupPending, UploadFailedRetained,
     VerificationFailedRetained]"

definition GROWING_STATES :: "task_state list" where
  "GROWING_STATES = [Reserved, Downloading]"

definition SCHEDULING_STATES :: "task_state list" where
  "SCHEDULING_STATES = [Queued, Reserved, Downloading, Streaming, Downloaded,
     WaitingUpload, CleanupPending, Uploading, Verifying, Finalizing]"

definition FAILED_STATES :: "task_state list" where
  "FAILED_STATES = [DownloadFailed, UploadFailedRetained, VerificationFailedRetained]"

fun LEGAL_TRANSITIONS :: "task_state \<Rightarrow> task_state list" where
  "LEGAL_TRANSITIONS Queued = [Reserved, Cancelled]"
| "LEGAL_TRANSITIONS Reserved =
     [Downloading, Streaming, Finalizing, CleanupPending, Queued, DownloadFailed, Cancelled]"
| "LEGAL_TRANSITIONS Downloading =
     [Downloaded, WaitingUpload, Queued, DownloadFailed, Cancelled]"
| "LEGAL_TRANSITIONS Downloaded =
     [Downloading, WaitingUpload, Queued, DownloadFailed, Cancelled]"
| "LEGAL_TRANSITIONS WaitingUpload =
     [Uploading, Finalizing, CleanupPending, Queued, UploadFailedRetained,
      VerificationFailedRetained, Cancelled]"
| "LEGAL_TRANSITIONS Uploading =
     [Verifying, Finalizing, CleanupPending, WaitingUpload, Queued,
      UploadFailedRetained, VerificationFailedRetained, Cancelled]"
| "LEGAL_TRANSITIONS Streaming =
     [Verifying, Finalizing, CleanupPending, Queued, DownloadFailed, Cancelled]"
| "LEGAL_TRANSITIONS Verifying =
     [Uploading, Streaming, Finalizing, CleanupPending, WaitingUpload, Queued,
      DownloadFailed, UploadFailedRetained, VerificationFailedRetained, Cancelled]"
| "LEGAL_TRANSITIONS Finalizing =
     [Uploading, Streaming, CleanupPending, WaitingUpload, Queued,
      DownloadFailed, UploadFailedRetained, VerificationFailedRetained, Cancelled]"
| "LEGAL_TRANSITIONS CleanupPending =
     [Completed, WaitingUpload, Queued, VerificationFailedRetained, Cancelled]"
| "LEGAL_TRANSITIONS DownloadFailed = [Queued, Cancelled]"
| "LEGAL_TRANSITIONS UploadFailedRetained = [WaitingUpload, Queued, Cancelled]"
| "LEGAL_TRANSITIONS VerificationFailedRetained = [WaitingUpload, Queued, Cancelled]"
| "LEGAL_TRANSITIONS Completed = [Confirmed]"
| "LEGAL_TRANSITIONS Confirmed = []"
| "LEGAL_TRANSITIONS Cancelled = [Queued, WaitingUpload]"

definition can_transition :: "task_state \<Rightarrow> task_state \<Rightarrow> bool" where
  "can_transition old_state new_state \<longleftrightarrow>
     old_state = new_state \<or> new_state \<in> set (LEGAL_TRANSITIONS old_state)"

lemma all_states_complete: "s \<in> set all_states"
  by (cases s) (simp_all add: all_states_def)

lemma can_transition_refl [simp]: "can_transition s s"
  by (simp add: can_transition_def)

lemma state_name_inj: "state_name a = state_name b \<longleftrightarrow> a = b"
  by (cases a; cases b) (simp_all add: asc_def)

lemma queued_edges: "can_transition Queued s \<longleftrightarrow> s \<in> {Queued, Reserved, Cancelled}"
  by (auto simp: can_transition_def)

lemma local_not_stream: "Streaming \<notin> set LOCAL_STATES" "Queued \<notin> set LOCAL_STATES"
  by (simp_all add: LOCAL_STATES_def)

lemma growing_local: "set GROWING_STATES \<subseteq> set LOCAL_STATES"
  by (simp add: GROWING_STATES_def LOCAL_STATES_def)

subsection \<open>Paths through the table\<close>

text \<open>A run of the table is a list of states, each reached from the one before.\<close>

fun legal_run :: "task_state \<Rightarrow> task_state list \<Rightarrow> bool" where
  "legal_run s [] = True"
| "legal_run s (t # ts) = (can_transition s t \<and> legal_run t ts)"

lemma into_completed: "can_transition s Completed \<Longrightarrow> s \<in> {CleanupPending, Completed}"
  by (cases s) (auto simp: can_transition_def)

lemma into_confirmed: "can_transition s Confirmed \<Longrightarrow> s \<in> {Completed, Confirmed}"
  by (cases s) (auto simp: can_transition_def)

lemma from_confirmed: "can_transition Confirmed t \<Longrightarrow> t = Confirmed"
  by (simp add: can_transition_def)

lemma from_completed: "can_transition Completed t \<Longrightarrow> t \<in> {Completed, Confirmed}"
  by (auto simp: can_transition_def)

lemma finished_run:
  "legal_run s ts \<Longrightarrow> s \<in> {Completed, Confirmed} \<Longrightarrow> set ts \<subseteq> {Completed, Confirmed}"
proof (induction ts arbitrary: s)
  case (Cons t ts)
  then have "t \<in> {Completed, Confirmed}"
    using from_completed from_confirmed by fastforce
  with Cons show ?case by auto
qed simp

text \<open>
  C28. A legal history never reaches completed without passing through
  cleanup_pending: whatever the sequence of persisted state changes, a task that starts
  unfinished and is later completed or confirmed has cleanup_pending (the state written
  only after the remote file was size-checked) among the states before it.
\<close>

theorem completed_only_after_cleanup:
  assumes "legal_run s ts" and "s \<notin> {Completed, Confirmed, CleanupPending}"
    and "Completed \<in> set ts \<or> Confirmed \<in> set ts"
  shows "CleanupPending \<in> set (takeWhile (\<lambda>t. t \<notin> {Completed, Confirmed}) ts)"
  using assms
proof (induction ts arbitrary: s)
  case (Cons t ts)
  from Cons.prems(1,2) have t: "t \<notin> {Completed, Confirmed}"
    using into_completed into_confirmed by fastforce
  show ?case
  proof (cases "t = CleanupPending")
    case False
    with t Cons show ?thesis by auto
  qed simp
qed simp

theorem completed_only_after_cleanup_witness:
  "CleanupPending \<in> set (takeWhile (\<lambda>t. t \<notin> {Completed, Confirmed})
     [Reserved, Streaming, Verifying, CleanupPending, Completed])"
  using completed_only_after_cleanup
    [of Queued "[Reserved, Streaming, Verifying, CleanupPending, Completed]"]
  by (simp add: can_transition_def)

text \<open>
  Every state that is not completed or confirmed can be cancelled or is cancelled, and
  from every state but those two a path leads back to queued.
\<close>

lemma cancellable: "s \<notin> {Completed, Confirmed} \<Longrightarrow> can_transition s Cancelled"
  by (cases s) (auto simp: can_transition_def)

lemma recoverable:
  "s \<notin> {Completed, Confirmed} \<Longrightarrow>
     can_transition s Queued \<or> (can_transition s Cancelled \<and> can_transition Cancelled Queued)"
  by (cases s) (auto simp: can_transition_def)

end
