(* ===== verification/Messages.thy ===== *)
theory Messages
  imports Prelude
begin

text \<open>
  The fixed Chinese messages that the program stores in task rows, compares, or raises,
  as the code points of the source strings. The comment on each gives its meaning.
\<close>

definition msg_authentication :: ustr where \<comment> \<open>WebDAV authentication failed (401)\<close>
  "msg_authentication =
    [87, 101, 98, 68, 65, 86, 32, 35748, 35777, 22833, 36133, 65288, 52, 48, 49, 65289,
     65307, 35831, 26680, 23545, 20973, 25454, 21518, 25163, 21160, 37325, 35797]"

definition msg_permission :: ustr where \<comment> \<open>WebDAV permission missing (403)\<close>
  "msg_permission =
    [87, 101, 98, 68, 65, 86, 32, 26435, 38480, 19981, 36275, 65288, 52, 48, 51, 65289,
     65307, 35831, 26680, 23545, 30446, 24405, 21644, 29992, 25143, 26435, 38480]"

definition msg_rate_limited :: ustr where \<comment> \<open>WebDAV request limited (429)\<close>
  "msg_rate_limited =
    [87, 101, 98, 68, 65, 86, 32, 35831, 27714, 21463, 38480, 65288, 52, 50, 57, 65289,
     65307, 26242, 20572, 33258, 21160, 37325, 35797, 65292, 31561, 24453, 26381, 21153,
     31471, 35299, 38500, 38480, 27969]"

definition msg_server :: ustr where \<comment> \<open>storage service error (5xx)\<close>
  "msg_server =
    [23384, 20648, 26381, 21153, 26242, 26102, 24322, 24120, 65288, 53, 120, 120, 65289,
     65307, 24050, 20445, 30041, 20219, 21153, 20449, 24687]"

definition msg_remote_conflict :: ustr where \<comment> \<open>remote file incomplete or uncertain\<close>
  "msg_remote_conflict =
    [36828, 31471, 25991, 20214, 19981, 23436, 25972, 25110, 32467, 26524, 19981, 30830,
     23450, 65307, 20445, 30041, 36828, 31471, 21644, 26412, 22320, 25991, 20214, 65292,
     35831, 26680, 23545, 21518, 36873, 25321, 25442, 21517, 37325, 20256]"

definition msg_local_missing :: ustr where \<comment> \<open>local file not accessible\<close>
  "msg_local_missing =
    [26412, 22320, 25991, 20214, 19981, 21487, 35775, 38382, 65307, 35831, 26816, 26597,
     30913, 30424, 21644, 25346, 36733, 29366, 24577]"

definition msg_network :: ustr where \<comment> \<open>connection or verification failed\<close>
  "msg_network =
    [20256, 36755, 36830, 25509, 25110, 39564, 35777, 22833, 36133, 65307, 24050, 20445,
     30041, 20219, 21153, 20449, 24687, 20379, 37325, 35797]"

definition msg_tmp_server :: ustr where \<comment> \<open>Telegram server error\<close>
  "msg_tmp_server =
    [84, 101, 108, 101, 103, 114, 97, 109, 32, 26381, 21153, 31471, 26242, 26102, 24322,
     24120, 65307, 24050, 20445, 30041, 20219, 21153, 20449, 24687, 20379, 26377, 38480,
     37325, 35797]"

definition msg_tmp_network :: ustr where \<comment> \<open>Telegram connection failed\<close>
  "msg_tmp_network =
    [84, 101, 108, 101, 103, 114, 97, 109, 32, 36830, 25509, 22833, 36133, 25110, 35831,
     27714, 36229, 26102, 65307, 24050, 20445, 30041, 20219, 21153, 20449, 24687, 20379,
     26377, 38480, 37325, 35797]"

definition default_zone :: ustr where \<comment> \<open>the default time zone\<close>
  "default_zone =
    [65, 115, 105, 97, 47, 83, 104, 97, 110, 103, 104, 97, 105]"

definition msg_features_shape :: ustr where \<comment> \<open>unsupported settings structure\<close>
  "msg_features_shape =
    [21487, 36873, 21151, 33021, 37197, 32622, 32467, 26500, 19981, 21463, 25903, 25345]"

definition msg_features_version :: ustr where \<comment> \<open>invalid version or classification\<close>
  "msg_features_version =
    [21487, 36873, 21151, 33021, 37197, 32622, 29256, 26412, 25110, 20998, 31867, 35268,
     21017, 26080, 25928]"

definition msg_features_revision :: ustr where \<comment> \<open>invalid revision\<close>
  "msg_features_revision =
    [21487, 36873, 21151, 33021, 37197, 32622, 20462, 35746, 21495, 26080, 25928]"

definition msg_features_switch :: ustr where \<comment> \<open>switch must be a boolean\<close>
  "msg_features_switch =
    [36890, 30693, 24320, 20851, 24517, 39035, 26159, 24067, 23572, 20540]"

definition msg_features_range :: ustr where \<comment> \<open>threshold out of range\<close>
  "msg_features_range =
    [36890, 30693, 38408, 20540, 36229, 20986, 25903, 25345, 33539, 22260]"

definition msg_features_zone :: ustr where \<comment> \<open>time zone not available\<close>
  "msg_features_zone =
    [26102, 21306, 19981, 21487, 29992, 65307, 35831, 26680, 23545, 31995, 32479, 32, 73,
     65, 78, 65, 32, 26102, 21306, 25968, 25454]"

definition msg_features_large :: ustr where \<comment> \<open>settings too large\<close>
  "msg_features_large =
    [21487, 36873, 21151, 33021, 37197, 32622, 36807, 22823]"

definition msg_features_unknown :: ustr where \<comment> \<open>unknown setting\<close>
  "msg_features_unknown =
    [26410, 30693, 21487, 36873, 21151, 33021, 37197, 32622]"

definition msg_features_changed :: ustr where \<comment> \<open>settings changed meanwhile\<close>
  "msg_features_changed =
    [37197, 32622, 24050, 21464, 21270, 65292, 35831, 21047, 26032, 21518, 37325, 35797]"

definition msg_user_id :: ustr where \<comment> \<open>not a Telegram user id\<close>
  "msg_user_id =
    [35831, 36755, 20837, 19968, 20010, 26377, 25928, 30340, 32, 84, 101, 108, 101, 103,
     114, 97, 109, 32, 29992, 25143, 32, 73, 68]"

definition msg_users_shape :: ustr where \<comment> \<open>unsupported family record\<close>
  "msg_users_shape =
    [23478, 24237, 25480, 26435, 35760, 24405, 19981, 21463, 25903, 25345, 25110, 31649,
     29702, 21592, 24050, 21464, 21270, 65307, 35831, 20154, 24037, 26680, 23545, 65292,
     19981, 33258, 21160, 25509, 31649]"

definition msg_users_member :: ustr where \<comment> \<open>invalid member record\<close>
  "msg_users_member =
    [23478, 24237, 29992, 25143, 35760, 24405, 26080, 25928, 65307, 19981, 24320, 25918,
     39069, 22806, 25480, 26435]"

definition msg_users_event :: ustr where \<comment> \<open>invalid audit record\<close>
  "msg_users_event =
    [23478, 24237, 25480, 26435, 23457, 35745, 35760, 24405, 26080, 25928]"

definition msg_users_large :: ustr where \<comment> \<open>family record too large\<close>
  "msg_users_large =
    [23478, 24237, 25480, 26435, 35760, 24405, 36807, 22823]"

definition msg_users_action :: ustr where \<comment> \<open>unknown action\<close>
  "msg_users_action =
    [26410, 30693, 29992, 25143, 31649, 29702, 25805, 20316]"

definition msg_users_admin :: ustr where \<comment> \<open>the administrator is not a member\<close>
  "msg_users_admin =
    [23433, 35013, 26102, 30340, 31649, 29702, 21592, 19981, 33021, 36890, 36807, 23478,
     24237, 25104, 21592, 33756, 21333, 31227, 38500, 25110, 21464, 26356, 35282, 33394]"

definition msg_users_changed :: ustr where \<comment> \<open>record changed meanwhile\<close>
  "msg_users_changed =
    [30830, 35748, 26399, 38388, 25480, 26435, 35760, 24405, 24050, 21464, 21270, 65292,
     35831, 21047, 26032, 21518, 37325, 35797]"

definition msg_users_full :: ustr where \<comment> \<open>member exists or limit reached\<close>
  "msg_users_full =
    [29992, 25143, 24050, 23384, 22312, 25110, 36798, 21040, 23478, 24237, 25104, 21592,
     25968, 37327, 38480, 21046]"

definition msg_users_missing :: ustr where \<comment> \<open>no such member\<close>
  "msg_users_missing =
    [26410, 25214, 21040, 24050, 30331, 35760, 30340, 23478, 24237, 25104, 21592]"

definition default_member_name :: ustr where \<comment> \<open>default display name of a member\<close>
  "default_member_name =
    [23478, 24237, 25104, 21592]"

definition msg_quota_daily :: ustr where \<comment> \<open>daily quota exhausted\<close>
  "msg_quota_daily =
    [20170, 26085, 36716, 23384, 39069, 24230, 19981, 36275, 65288, 21547, 26410, 23436,
     25104, 20219, 21153, 39044, 30041, 65289, 65307, 35831, 26597, 30475, 32, 47, 113, 117,
     111, 116, 97, 32, 25110, 32852, 31995, 31649, 29702, 21592]"

definition msg_quota_queued :: ustr where \<comment> \<open>queue limit reached\<close>
  "msg_quota_queued =
    [20010, 20154, 25490, 38431, 25968, 37327, 36798, 21040, 19978, 38480, 65307, 35831,
     31561, 24453, 20219, 21153, 22788, 29702, 25110, 21462, 28040, 33258, 24049, 30340,
     25490, 38431, 20219, 21153]"

definition msg_quota_fields :: ustr where \<comment> \<open>invalid quota fields\<close>
  "msg_quota_fields =
    [37197, 39069, 37197, 32622, 23383, 27573, 26080, 25928]"

definition msg_quota_values :: ustr where \<comment> \<open>invalid quota values\<close>
  "msg_quota_values =
    [37197, 39069, 20540, 26080, 25928, 65307, 48, 32, 34920, 31034, 19981, 38480, 21046]"

definition msg_control_admin :: ustr where \<comment> \<open>wrong administrator\<close>
  "msg_control_admin =
    [31649, 29702, 21592, 36523, 20221, 19981, 21305, 37197]"

definition msg_control_action :: ustr where \<comment> \<open>unknown operation\<close>
  "msg_control_action =
    [26410, 30693, 25805, 20316]"

definition msg_control_member :: ustr where \<comment> \<open>not a registered member\<close>
  "msg_control_member =
    [21482, 33021, 31649, 29702, 24050, 30331, 35760, 30340, 23478, 24237, 25104, 21592,
     37197, 39069, 65307, 31649, 29702, 21592, 19981, 21463, 26412, 33756, 21333, 38480,
     21046]"

definition msg_control_changed :: ustr where \<comment> \<open>grants changed\<close>
  "msg_control_changed =
    [25480, 26435, 24050, 21464, 21270, 65292, 35831, 21047, 26032]"

definition msg_control_quota_changed :: ustr where \<comment> \<open>quota changed\<close>
  "msg_control_quota_changed =
    [37197, 39069, 24050, 21464, 21270, 65292, 35831, 21047, 26032]"

definition lbl_video :: ustr where \<comment> \<open>media type: video\<close>
  "lbl_video =
    [35270, 39057]"

definition lbl_image :: ustr where \<comment> \<open>media type: image\<close>
  "lbl_image =
    [22270, 29255]"

definition lbl_audio :: ustr where \<comment> \<open>media type: audio\<close>
  "lbl_audio =
    [38899, 39057]"

definition lbl_document :: ustr where \<comment> \<open>media type: document\<close>
  "lbl_document =
    [25991, 26723]"

definition lbl_archive :: ustr where \<comment> \<open>media type: archive\<close>
  "lbl_archive =
    [21387, 32553, 21253]"

definition lbl_other :: ustr where \<comment> \<open>media type: other file\<close>
  "lbl_other =
    [20854, 20182, 25991, 20214]"

definition msg_directory :: ustr where \<comment> \<open>not a safe managed relative path\<close>
  "msg_directory =
    [20998, 31867, 30446, 24405, 19981, 26159, 23433, 20840, 30340, 21463, 31649, 30456,
     23545, 36335, 24452]"

definition msg_mode :: ustr where \<comment> \<open>unknown classification rule\<close>
  "msg_mode =
    [26410, 30693, 20998, 31867, 35268, 21017]"

definition msg_scope :: ustr where \<comment> \<open>base directory changed after acceptance\<close>
  "msg_scope =
    [20219, 21153, 25509, 25910, 21518, 32, 87, 101, 98, 68, 65, 86, 32, 22522, 30784,
     30446, 24405, 21457, 29983, 21464, 21270, 65307, 20572, 27490, 33258, 21160, 19978,
     20256, 65292, 35831, 26680, 23545, 37197, 32622]"

definition emoji_symbols :: ustr where \<comment> \<open>symbols with emoji presentation\<close>
  "emoji_symbols =
    [169, 174, 8482, 8596, 8597, 8598, 8599, 8600, 8601, 8617, 8618, 8986, 8987, 9000, 9167,
     9193, 9194, 9195, 9196, 9197, 9198, 9199, 9200, 9201, 9202, 9203, 9208, 9209, 9210,
     9642, 9643, 9654, 9664, 9723, 9724, 9725, 9726, 10548, 10549, 11013, 11014, 11015,
     11035, 11036, 11088, 11093, 12336, 12349, 12951, 12953]"

definition lbl_source_dash :: ustr where \<comment> \<open>source-\<close>
  "lbl_source_dash =
    [26469, 28304, 45]"

definition lbl_source :: ustr where \<comment> \<open>source\<close>
  "lbl_source =
    [26469, 28304]"

definition msg_source_folder :: ustr where \<comment> \<open>source folder not prepared or base changed\<close>
  "msg_source_folder =
    [30417, 21548, 30446, 24405, 26410, 20934, 22791, 22909, 25110, 32, 66, 111, 116, 32,
     20445, 23384, 26681, 30446, 24405, 24050, 21464, 21270, 65307, 35831, 26680, 23545,
     26469, 28304, 20445, 23384, 30446, 24405]"

definition msg_corrected_name :: ustr where \<comment> \<open>not a plain file name\<close>
  "msg_corrected_name =
    [35831, 36755, 20837, 19981, 21547, 36335, 24452, 21644, 25511, 21046, 23383, 31526,
     30340, 25991, 20214, 21517]"

definition msg_state_changed :: ustr where \<comment> \<open>task state changed\<close>
  "msg_state_changed =
    [20219, 21153, 29366, 24577, 24050, 32463, 25913, 21464]"

definition msg_wait_slot :: ustr where \<comment> \<open>waiting for a member slot\<close>
  "msg_wait_slot =
    [31561, 24453, 20010, 20154, 24182, 21457, 39069, 24230]"

definition msg_wait_stream_disk :: ustr where \<comment> \<open>waiting for disk before streaming\<close>
  "msg_wait_stream_disk =
    [31561, 24453, 30495, 23454, 30913, 30424, 31354, 38388, 24674, 22797, 21518, 20351,
     29992, 27969, 24335, 27169, 24335]"

definition msg_stream_requested :: ustr where \<comment> \<open>streaming as requested\<close>
  "msg_stream_requested =
    [24050, 25353, 29992, 25143, 36873, 25321, 20351, 29992, 27969, 24335, 27169, 24335]"

definition msg_stream_oversize :: ustr where \<comment> \<open>file exceeds budget, streaming\<close>
  "msg_stream_oversize =
    [21333, 25991, 20214, 36229, 36807, 26412, 22320, 39044, 31639, 65292, 24050, 20999,
     25442, 27969, 24335, 27169, 24335]"

definition msg_wait_budget :: ustr where \<comment> \<open>waiting for local budget\<close>
  "msg_wait_budget =
    [31561, 24453, 26412, 22320, 20020, 26102, 31354, 38388, 39069, 24230]"

definition msg_wait_disk_1 :: ustr where \<comment> \<open>waiting for disk, still to free\<close>
  "msg_wait_disk_1 =
    [31561, 24453, 30495, 23454, 30913, 30424, 31354, 38388, 65288, 33267, 23569, 36824,
     38656, 37322, 25918, 32]"

definition msg_wait_disk_2 :: ustr where \<comment> \<open>GB; use /stream\<close>
  "msg_wait_disk_2 =
    [71, 66, 65307, 21487, 29992, 32, 47, 115, 116, 114, 101, 97, 109, 32, 35]"

definition msg_wait_disk_3 :: ustr where \<comment> \<open>to stream instead\<close>
  "msg_wait_disk_3 =
    [32, 25913, 20026, 27969, 24335, 65289]"

definition msg_requeued :: ustr where \<comment> \<open>recovery confirmed by the user\<close>
  "msg_requeued =
    [29992, 25143, 30830, 35748, 24674, 22797, 65307, 31561, 24453, 36164, 28304, 19982,
     30446, 30340, 31471, 23601, 32490]"

definition msg_deferred :: ustr where \<comment> \<open>download rate limited, cooling down\<close>
  "msg_deferred =
    [84, 101, 108, 101, 103, 114, 97, 109, 32, 19979, 36733, 38480, 27969, 65292, 31561,
     24453, 20919, 21364, 21518, 26377, 38480, 24674, 22797]"

definition msg_unknown_state :: ustr where \<comment> \<open>unknown task state\<close>
  "msg_unknown_state =
    [26410, 30693, 20219, 21153, 29366, 24577]"

definition msg_read_identity :: ustr where \<comment> \<open>invalid read identity\<close>
  "msg_read_identity =
    [35835, 21462, 36523, 20221, 26080, 25928]"

definition msg_limit :: ustr where \<comment> \<open>limit and offset out of range\<close>
  "msg_limit =
    [108, 105, 109, 105, 116, 32, 24517, 39035, 22823, 20110, 32, 48, 65292, 111, 102, 102,
     115, 101, 116, 32, 19981, 33021, 23567, 20110, 32, 48]"

definition msg_state_field :: ustr where \<comment> \<open>state must be given by new_state\<close>
  "msg_state_field =
    [29366, 24577, 24517, 39035, 36890, 36807, 32, 110, 101, 119, 95, 115, 116, 97, 116,
     101, 32, 21442, 25968, 25351, 23450]"

definition msg_task_hash :: ustr where \<comment> \<open>task number\<close>
  "msg_task_hash =
    [20219, 21153, 32, 35]"

definition msg_not_exist :: ustr where \<comment> \<open>does not exist\<close>
  "msg_not_exist =
    [32, 19981, 23384, 22312]"

definition msg_illegal :: ustr where \<comment> \<open>illegal transition\<close>
  "msg_illegal =
    [38750, 27861, 20219, 21153, 29366, 24577, 36801, 31227, 65306]"

definition msg_raced :: ustr where \<comment> \<open>state changed during transition\<close>
  "msg_raced =
    [20219, 21153, 29366, 24577, 22312, 36801, 31227, 26399, 38388, 21457, 29983, 21464,
     21270]"

definition msg_stream_chosen :: ustr where \<comment> \<open>user chose streaming\<close>
  "msg_stream_chosen =
    [29992, 25143, 24050, 36873, 25321, 27969, 24335, 27169, 24335, 65307, 31561, 24453,
     36164, 28304, 21644, 30446, 30340, 31471, 23601, 32490]"

definition msg_rec_stream :: ustr where \<comment> \<open>stream requeued after restart\<close>
  "msg_rec_stream =
    [27969, 24335, 20219, 21153, 22312, 26381, 21153, 37325, 21551, 21518, 33258, 21160,
     37325, 26032, 25490, 38431]"

definition msg_rec_upload :: ustr where \<comment> \<open>upload resumed after restart\<close>
  "msg_rec_upload =
    [26381, 21153, 37325, 21551, 21518, 24674, 22797, 19978, 20256]"

definition msg_rec_found :: ustr where \<comment> \<open>unregistered complete file found\<close>
  "msg_rec_found =
    [24050, 24674, 22797, 19979, 36733, 23436, 25104, 20294, 26410, 30331, 35760, 30340,
     26412, 22320, 25991, 20214]"

definition msg_rec_lost :: ustr where \<comment> \<open>retained file is gone, requeued\<close>
  "msg_rec_lost =
    [20445, 30041, 35760, 24405, 23545, 24212, 30340, 26412, 22320, 25991, 20214, 24050,
     19981, 23384, 22312, 65292, 33258, 21160, 37325, 26032, 25490, 38431]"

definition msg_rec_part :: ustr where \<comment> \<open>partial file could not be removed\<close>
  "msg_rec_part =
    [37325, 21551, 21518, 26080, 27861, 28165, 29702, 19981, 23436, 25972, 25991, 20214]"

definition msg_rec_queued :: ustr where \<comment> \<open>incomplete file, requeued\<close>
  "msg_rec_queued =
    [26412, 22320, 25991, 20214, 19981, 23436, 25972, 25110, 19981, 23384, 22312, 65292,
     26381, 21153, 37325, 21551, 21518, 37325, 26032, 25490, 38431]"

definition msg_hold_wait :: ustr where \<comment> \<open>stopped; choose a recovery\<close>
  "msg_hold_wait =
    [24050, 20572, 27490, 33258, 21160, 37325, 35797, 65307, 35831, 26597, 30475, 20219,
     21153, 35814, 24773, 36873, 25321, 24674, 22797, 25805, 20316]"

definition msg_temp_left :: ustr where \<comment> \<open>staging object still there\<close>
  "msg_temp_left =
    [25913, 21517, 21518, 20020, 26102, 25991, 20214, 20173, 23384, 22312, 65307, 20445,
     30041, 26412, 22320, 21103, 26412, 31561, 24453, 23433, 20840, 28165, 29702]"

definition msg_verified :: ustr where \<comment> \<open>verified, removing the local copy\<close>
  "msg_verified =
    [36828, 31471, 25991, 20214, 24050, 26657, 39564, 65292, 27491, 22312, 28165, 29702, 32,
     86, 80, 83, 32, 26412, 22320, 21103, 26412]"

definition msg_unlink_failed :: ustr where \<comment> \<open>received, local file not removable\<close>
  "msg_unlink_failed =
    [36828, 31471, 24050, 25509, 25910, 65292, 20294, 32, 86, 80, 83, 32, 26412, 22320,
     25991, 20214, 26242, 26102, 26080, 27861, 28165, 29702, 65306]"

definition msg_unlink_wait :: ustr where \<comment> \<open>received, waiting to remove the local copy\<close>
  "msg_unlink_wait =
    [36828, 31471, 24050, 25509, 25910, 65307, 31561, 24453, 33258, 21160, 37325, 35797,
     28165, 29702, 32, 86, 80, 83, 32, 26412, 22320, 21103, 26412]"

definition msg_scope_error :: ustr where \<comment> \<open>base directory changed, file kept\<close>
  "msg_scope_error =
    [20219, 21153, 25509, 25910, 21518, 32, 87, 101, 98, 68, 65, 86, 32, 22522, 30784,
     30446, 24405, 21464, 21270, 65307, 20445, 30041, 25991, 20214, 24182, 20572, 27490,
     33258, 21160, 24674, 22797, 65292, 35831, 26680, 23545, 37197, 32622]"

definition msg_scope_wait :: ustr where \<comment> \<open>check the target directory\<close>
  "msg_scope_wait =
    [38656, 35201, 20154, 24037, 26680, 23545, 21407, 20219, 21153, 30446, 26631, 30446,
     24405]"

definition msg_check_failed :: ustr where \<comment> \<open>checking the received file failed\<close>
  "msg_check_failed =
    [26816, 26597, 24050, 25509, 25910, 30340, 36828, 31471, 25991, 20214, 22833, 36133,
     65306]"

definition msg_wait_dest_1 :: ustr where \<comment> \<open>waiting for\<close>
  "msg_wait_dest_1 =
    [31561, 24453, 32]"

definition msg_wait_dest_2 :: ustr where \<comment> \<open>to continue the cleanup\<close>
  "msg_wait_dest_2 =
    [32, 24674, 22797, 21518, 32487, 32493, 26412, 22320, 28165, 29702]"

definition msg_stream_unconfirmed :: ustr where \<comment> \<open>remote file of a stream not confirmed\<close>
  "msg_stream_unconfirmed =
    [27969, 24335, 20219, 21153, 30340, 36828, 31471, 25991, 20214, 26080, 27861, 30830,
     35748, 65292, 24050, 33258, 21160, 37325, 26032, 25490, 38431]"

definition msg_both_lost :: ustr where \<comment> \<open>neither copy confirmed\<close>
  "msg_both_lost =
    [36828, 31471, 27491, 24335, 25991, 20214, 21644, 32, 86, 80, 83, 32, 26412, 22320,
     21103, 26412, 37117, 26080, 27861, 30830, 35748, 65292, 24050, 20572, 27490, 33258,
     21160, 25805, 20316]"

definition msg_remote_gone :: ustr where \<comment> \<open>remote file missing, uploading again\<close>
  "msg_remote_gone =
    [36828, 31471, 27491, 24335, 25991, 20214, 19981, 23384, 22312, 65292, 20445, 30041,
     26412, 22320, 21103, 26412, 24182, 37325, 26032, 19978, 20256]"

definition msg_local_gone :: ustr where \<comment> \<open>recorded local file missing\<close>
  "msg_local_gone =
    [25968, 25454, 24211, 35760, 24405, 30340, 26412, 22320, 23436, 25972, 25991, 20214,
     19981, 23384, 22312]"

definition msg_local_gone_wait :: ustr where \<comment> \<open>local file missing, requeued\<close>
  "msg_local_gone_wait =
    [26412, 22320, 25991, 20214, 19981, 23384, 22312, 65292, 24050, 33258, 21160, 37325,
     26032, 25490, 38431, 19979, 36733]"

definition msg_local_size :: ustr where \<comment> \<open>local file has the wrong size\<close>
  "msg_local_size =
    [26412, 22320, 25991, 20214, 22823, 23567, 38169, 35823, 65306]"

definition msg_not_removable :: ustr where \<comment> \<open>and cannot be removed\<close>
  "msg_not_removable =
    [65307, 19988, 26080, 27861, 28165, 29702, 65306]"

definition msg_local_size_wait :: ustr where \<comment> \<open>local file incomplete, requeued\<close>
  "msg_local_size_wait =
    [26412, 22320, 25991, 20214, 19981, 23436, 25972, 65292, 24050, 33258, 21160, 37325,
     26032, 25490, 38431, 19979, 36733]"

definition msg_remote_size :: ustr where \<comment> \<open>remote size wrong\<close>
  "msg_remote_size =
    [36828, 31471, 22823, 23567, 38169, 35823, 65306]"

definition msg_move_wait :: ustr where \<comment> \<open>result of MOVE not confirmed\<close>
  "msg_move_wait =
    [79, 112, 101, 110, 76, 105, 115, 116, 32, 25913, 21517, 32467, 26524, 26410, 30830,
     35748, 65307, 20445, 30041, 26412, 22320, 21644, 36828, 31471, 25991, 20214]"

definition msg_upload_used_up :: ustr where \<comment> \<open>upload retries used up\<close>
  "msg_upload_used_up =
    [19978, 20256, 37325, 35797, 27425, 25968, 24050, 32463, 29992, 23436, 65307, 26412,
     22320, 23436, 25972, 25991, 20214, 24050, 20445, 30041]"

definition msg_final_exists :: ustr where \<comment> \<open>reserved final path exists\<close>
  "msg_final_exists =
    [39044, 30041, 27491, 24335, 36335, 24452, 24050, 32463, 23384, 22312, 65307, 20445,
     30041, 25968, 25454, 65292, 31561, 24453, 22797, 26680]"

definition msg_move_unchecked :: ustr where \<comment> \<open>MOVE result cannot be checked\<close>
  "msg_move_unchecked =
    [77, 79, 86, 69, 95, 85, 78, 67, 69, 82, 84, 65, 73, 78, 58, 32, 79, 112, 101, 110, 76,
     105, 115, 116, 32, 25913, 21517, 21518, 30340, 30446, 26631, 25991, 20214, 26242,
     26102, 26080, 27861, 22797, 39564, 65307]"

definition msg_move_kept :: ustr where \<comment> \<open>stopped, files kept\<close>
  "msg_move_kept =
    [24050, 20572, 27490, 33258, 21160, 37325, 35797, 24182, 20445, 30041, 25991, 20214,
     20379, 26680, 23545, 12290]"

definition msg_move_size :: ustr where \<comment> \<open>MOVE target has the wrong size\<close>
  "msg_move_size =
    [77, 79, 86, 69, 95, 85, 78, 67, 69, 82, 84, 65, 73, 78, 58, 32, 79, 112, 101, 110, 76,
     105, 115, 116, 32, 25913, 21517, 21518, 30340, 30446, 26631, 25991, 20214, 22823,
     23567, 19981, 31526, 65307]"

definition msg_stream_move_size :: ustr where \<comment> \<open>size wrong after rename\<close>
  "msg_stream_move_size =
    [27969, 24335, 25913, 21517, 21518, 36828, 31471, 22823, 23567, 38169, 35823, 65306]"

definition msg_no_media :: ustr where \<comment> \<open>message or file gone\<close>
  "msg_no_media =
    [84, 101, 108, 101, 103, 114, 97, 109, 32, 28040, 24687, 25110, 25991, 20214, 24050,
     32463, 19981, 21487, 35775, 38382]"

definition msg_stream_read :: ustr where \<comment> \<open>stream read the wrong size\<close>
  "msg_stream_read =
    [27969, 24335, 35835, 21462, 22823, 23567, 38169, 35823, 65306]"

definition msg_stream_remote :: ustr where \<comment> \<open>stream wrote the wrong size\<close>
  "msg_stream_remote =
    [27969, 24335, 36828, 31471, 22823, 23567, 38169, 35823, 65306]"

definition msg_stream_move_wait :: ustr where \<comment> \<open>MOVE of a stream not confirmed\<close>
  "msg_stream_move_wait =
    [79, 112, 101, 110, 76, 105, 115, 116, 32, 25913, 21517, 32467, 26524, 26410, 30830,
     35748, 65307, 20572, 27490, 33258, 21160, 37325, 35797, 24182, 20445, 30041, 36828,
     31471, 29616, 22330]"

definition msg_stream_used_up :: ustr where \<comment> \<open>stream retries used up\<close>
  "msg_stream_used_up =
    [27969, 24335, 20256, 36755, 37325, 35797, 27425, 25968, 24050, 32463, 29992, 23436]"

definition msg_semicolon :: ustr where \<comment> \<open>separator\<close>
  "msg_semicolon =
    [65307]"

definition msg_use_retry :: ustr where \<comment> \<open>use retry\<close>
  "msg_use_retry =
    [65307, 20351, 29992, 32, 47, 114, 101, 116, 114, 121, 32, 21487, 37325, 26032, 24320,
     22987]"

definition msg_stream_paused :: ustr where \<comment> \<open>stream paused and requeued\<close>
  "msg_stream_paused =
    [27969, 24335, 20219, 21153, 24050, 26242, 20572, 24182, 33258, 21160, 37325, 26032,
     25490, 38431]"

definition msg_ol_final_exists :: ustr where \<comment> \<open>reserved OpenList path exists\<close>
  "msg_ol_final_exists =
    [39044, 30041, 30340, 32, 79, 112, 101, 110, 76, 105, 115, 116, 32, 26368, 32456, 36335,
     24452, 24050, 32463, 23384, 22312, 65307, 20445, 30041, 25991, 20214, 24182, 31561,
     24453, 22797, 26680]"

definition msg_scope_review :: ustr where \<comment> \<open>base directory changed\<close>
  "msg_scope_review =
    [87, 101, 98, 68, 65, 86, 32, 22522, 30784, 30446, 24405, 21464, 21270, 65292, 38656,
     20154, 24037, 26680, 23545]"

definition msg_final_size :: ustr where \<comment> \<open>recorded final file has the wrong size\<close>
  "msg_final_size =
    [35760, 24405, 30340, 27491, 24335, 25991, 20214, 22823, 23567, 19981, 31526, 65307,
     20572, 27490, 35206, 30422, 24182, 20445, 30041, 26412, 22320, 25968, 25454]"

definition msg_legacy_temp :: ustr where \<comment> \<open>legacy OpenList staging object\<close>
  "msg_legacy_temp =
    [26816, 27979, 21040, 26087, 29256, 32, 79, 112, 101, 110, 76, 105, 115, 116, 32, 20020,
     26102, 25991, 20214, 65307, 19981, 20250, 33258, 21160, 25913, 21517, 25110, 35206,
     30422, 65292, 35831, 20808, 20154, 24037, 26680, 23545]"

definition msg_temp_partial :: ustr where \<comment> \<open>staging object incomplete\<close>
  "msg_temp_partial =
    [36828, 31471, 20020, 26102, 25991, 20214, 19981, 23436, 25972, 65307, 20445, 30041,
     29616, 22330, 65292, 35831, 30830, 35748, 25442, 21517, 37325, 20256]"

definition msg_no_file :: ustr where \<comment> \<open>no file was downloaded\<close>
  "msg_no_file =
    [84, 101, 108, 101, 116, 104, 111, 110, 32, 27809, 26377, 29983, 25104, 19979, 36733,
     25991, 20214]"

definition msg_download_size :: ustr where \<comment> \<open>downloaded size wrong\<close>
  "msg_download_size =
    [26412, 22320, 22823, 23567, 38169, 35823, 65306]"

definition msg_download_used_up :: ustr where \<comment> \<open>download retries used up\<close>
  "msg_download_used_up =
    [19979, 36733, 37325, 35797, 27425, 25968, 24050, 32463, 29992, 23436]"

definition msg_probe_timeout :: ustr where \<comment> \<open>probe timed out\<close>
  "msg_probe_timeout =
    [30446, 24405, 25506, 27979, 36229, 26102]"

definition msg_probe_failed :: ustr where \<comment> \<open>probe failed\<close>
  "msg_probe_failed =
    [30446, 24405, 25506, 27979, 24322, 24120, 65292, 35831, 26597, 30475, 26412, 26426,
     26368, 36817, 26085, 24535]"

definition msg_rule_list :: ustr where \<comment> \<open>list of bounded texts\<close>
  "msg_rule_list =
    [35268, 21017, 21015, 34920, 24212, 21253, 21547, 26377, 30028, 38750, 31354, 25991,
     26412]"

definition msg_rule_field :: ustr where \<comment> \<open>unknown rule field\<close>
  "msg_rule_field =
    [26410, 30693, 31579, 36873, 35268, 21017, 23383, 27573]"

definition msg_rule_long :: ustr where \<comment> \<open>rules too long\<close>
  "msg_rule_long =
    [35268, 21017, 24635, 38271, 24230, 19981, 33021, 36229, 36807, 32, 56, 49, 57, 50, 32,
     23383, 31526]"

definition msg_rule_scope :: ustr where \<comment> \<open>invalid scope\<close>
  "msg_rule_scope =
    [21305, 37197, 33539, 22260, 25110, 20840, 37096, 38468, 20214, 30830, 35748, 26080,
     25928]"

definition msg_rule_size :: ustr where \<comment> \<open>invalid size\<close>
  "msg_rule_size =
    [22823, 23567, 24517, 39035, 26159, 26377, 25928, 23383, 33410, 25968]"

definition msg_rule_minmax :: ustr where \<comment> \<open>minimum above maximum\<close>
  "msg_rule_minmax =
    [26368, 23567, 22823, 23567, 19981, 33021, 36229, 36807, 26368, 22823, 22823, 23567]"

definition msg_rule_exclude :: ustr where \<comment> \<open>invalid exclude scope\<close>
  "msg_rule_exclude =
    [25490, 38500, 35789, 21305, 37197, 33539, 22260, 26080, 25928]"

definition msg_rule_groups :: ustr where \<comment> \<open>too many groups\<close>
  "msg_rule_groups =
    [26368, 22810, 20801, 35768, 32, 56, 32, 20010, 32, 79, 82, 32, 35268, 21017, 32452]"

definition msg_rule_group :: ustr where \<comment> \<open>invalid group field\<close>
  "msg_rule_group =
    [21253, 21547, 32452, 23383, 27573, 26080, 25928]"

definition msg_rule_type :: ustr where \<comment> \<open>invalid type or mode\<close>
  "msg_rule_type =
    [31867, 22411, 25110, 21305, 37197, 26041, 24335, 26080, 25928]"

definition msg_rule_glob :: ustr where \<comment> \<open>only star and question mark\<close>
  "msg_rule_glob =
    [36890, 37197, 31526, 20165, 25903, 25345, 32, 42, 32, 21644, 32, 63]"

definition msg_rule_ext :: ustr where \<comment> \<open>invalid extension\<close>
  "msg_rule_ext =
    [25193, 23637, 21517, 26080, 25928]"

definition msg_rule_empty :: ustr where \<comment> \<open>empty group\<close>
  "msg_rule_empty =
    [21253, 21547, 32452, 19981, 33021, 20026, 31354]"

definition msg_rule_all :: ustr where \<comment> \<open>empty rules match nothing\<close>
  "msg_rule_all =
    [31354, 35268, 21017, 19981, 20250, 21305, 37197, 20840, 37096, 38468, 20214, 65307,
     35831, 26126, 30830, 35774, 32622, 32, 97, 108, 108, 95, 97, 116, 116, 97, 99, 104,
     109, 101, 110, 116, 115, 61, 116, 114, 117, 101]"

definition msg_no_access :: ustr where \<comment> \<open>no access to source\<close>
  "msg_no_access =
    [26469, 28304, 35835, 21462, 26435, 38480, 26410, 36890, 36807]"

definition msg_no_attachment :: ustr where \<comment> \<open>no attachment\<close>
  "msg_no_attachment =
    [26080, 38468, 20214]"

definition msg_no_size :: ustr where \<comment> \<open>size unknown\<close>
  "msg_no_size =
    [26080, 27861, 30830, 35748, 25991, 20214, 22823, 23567]"

definition msg_excluded :: ustr where \<comment> \<open>excluded word\<close>
  "msg_excluded =
    [25490, 38500, 20851, 38190, 35789, 21629, 20013]"

definition msg_wrong_size :: ustr where \<comment> \<open>wrong size\<close>
  "msg_wrong_size =
    [22823, 23567, 19981, 31526]"

definition msg_group_hit :: ustr where \<comment> \<open>a group matched\<close>
  "msg_group_hit =
    [21253, 21547, 35268, 21017, 32452, 21629, 20013]"

definition msg_all_hit :: ustr where \<comment> \<open>all attachments chosen\<close>
  "msg_all_hit =
    [24050, 26126, 30830, 36873, 25321, 20840, 37096, 38468, 20214]"

definition msg_no_hit :: ustr where \<comment> \<open>nothing matched\<close>
  "msg_no_hit =
    [31867, 22411, 12289, 21517, 31216, 25110, 20851, 38190, 35789, 19981, 31526]"

definition msg_size_actual :: ustr where \<comment> \<open>wrong size: actual\<close>
  "msg_size_actual =
    [22823, 23567, 19981, 31526, 65306, 23454, 38469, 32]"

definition msg_size_bytes :: ustr where \<comment> \<open>bytes\<close>
  "msg_size_bytes =
    [32, 23383, 33410, 65289]"

definition msg_size_open :: ustr where \<comment> \<open>MB (\<close>
  "msg_size_open =
    [32, 77, 66, 65288]"

definition msg_size_need :: ustr where \<comment> \<open>required\<close>
  "msg_size_need =
    [65292, 35201, 27714]"

definition msg_size_min :: ustr where \<comment> \<open>at least\<close>
  "msg_size_min =
    [33267, 23569, 32]"

definition msg_size_max :: ustr where \<comment> \<open>at most\<close>
  "msg_size_max =
    [26368, 22810, 32]"

definition msg_word_in :: ustr where \<comment> \<open>excluded word hit:\<close>
  "msg_word_in =
    [25490, 38500, 20851, 38190, 35789, 21629, 20013, 65306]"

definition lbl_file_name :: ustr where \<comment> \<open>file name\<close>
  "lbl_file_name =
    [25991, 20214, 21517]"

definition lbl_caption :: ustr where \<comment> \<open>caption\<close>
  "lbl_caption =
    [35828, 26126]"

definition msg_word_open :: ustr where \<comment> \<open>contains\<close>
  "msg_word_open =
    [20013, 21253, 21547, 8220]"

definition msg_word_close :: ustr where \<comment> \<open>closing quote\<close>
  "msg_word_close =
    [8221]"

definition msg_hint_type :: ustr where \<comment> \<open>actual type\<close>
  "msg_hint_type =
    [65307, 23454, 38469, 31867, 22411, 65306]"

definition msg_hint_suffix :: ustr where \<comment> \<open>suffix\<close>
  "msg_hint_suffix =
    [65292, 21518, 32512, 65306]"

definition msg_hint_none :: ustr where \<comment> \<open>none\<close>
  "msg_hint_none =
    [26080]"

definition msg_hint_check :: ustr where \<comment> \<open>check the groups\<close>
  "msg_hint_check =
    [65307, 35831, 26680, 23545, 26465, 20214, 32452, 30340, 31867, 22411, 12289, 21518,
     32512, 12289, 25991, 20214, 21517, 21644, 20851, 38190, 35789]"

definition msg_disk_paused :: ustr where \<comment> \<open>disk at its margin, queued again\<close>
  "msg_disk_paused =
    [30913, 30424, 35302, 21450, 23433, 20840, 32447, 65292, 24050, 33258, 21160, 26242,
     20572, 24182, 37325, 26032, 25490, 38431]"

definition msg_wait_listener :: ustr where \<comment> \<open>waiting for the listening account\<close>
  "msg_wait_listener =
    [31561, 24453, 30417, 21548, 36134, 21495, 25480, 26435, 12289, 36830, 25509, 25110,
     20919, 21364, 32467, 26463, 65307, 25163, 21160, 20219, 21153, 32487, 32493, 35843,
     24230]"

definition msg_wait_backoff :: ustr where \<comment> \<open>listener downloads are throttled\<close>
  "msg_wait_backoff =
    [30417, 21548, 19979, 36733, 38480, 36895, 65292, 31561, 24453, 24182, 21457, 21517,
     39069, 24674, 22797, 65307, 25163, 21160, 20219, 21153, 32487, 32493, 35843, 24230]"

definition msg_wait_window :: ustr where \<comment> \<open>stream waits for the upload window\<close>
  "msg_wait_window =
    [27969, 24335, 20219, 21153, 31561, 24453, 20849, 20139, 19978, 20256, 31383, 21475]"

definition msg_wait_member :: ustr where \<comment> \<open>waiting for the personal slot\<close>
  "msg_wait_member =
    [31561, 24453, 20010, 20154, 24182, 21457, 39069, 24230]"

definition msg_filesystem :: ustr where \<comment> \<open>a file system is at its margin\<close>
  "msg_filesystem =
    [26242, 23384, 47, 25968, 25454, 24211, 47, 26085, 24535, 47, 37197, 32622, 25152,
     22312, 25991, 20214, 31995, 32479, 35302, 21450, 23433, 20840, 32447, 65307, 26242,
     20572, 26032, 19979, 36733]"

definition msg_cancelling :: ustr where \<comment> \<open>cancellation pending\<close>
  "msg_cancelling =
    [21462, 28040, 28165, 29702, 24453, 23436, 25104, 65307, 22833, 36133, 21518, 21487,
     20877, 27425, 32, 47, 99, 97, 110, 99, 101, 108, 32, 25110, 25163, 21160, 32, 47, 114,
     101, 116, 114, 121]"

definition msg_still_there :: ustr where \<comment> \<open>still there after removal\<close>
  "msg_still_there =
    [36828, 31471, 25991, 20214, 21024, 38500, 21518, 20173, 28982, 23384, 22312]"

definition msg_scan_incomplete :: ustr where \<comment> \<open>incomplete scan\<close>
  "msg_scan_incomplete =
    [25195, 25551, 26410, 23436, 25104, 65307, 31105, 27490, 29983, 25104, 25110, 25191,
     34892, 28165, 29702, 35745, 21010]"

definition msg_no_right :: ustr where \<comment> \<open>no right\<close>
  "msg_no_right =
    [26080, 26435, 25805, 20316]"

definition msg_members_only :: ustr where \<comment> \<open>authorised users only\<close>
  "msg_members_only =
    [27492, 25805, 20316, 20165, 38480, 24050, 25480, 26435, 29992, 25143]"

definition msg_preference :: ustr where \<comment> \<open>unknown preference\<close>
  "msg_preference =
    [26410, 30693, 36716, 23384, 35774, 32622]"

definition msg_preference_bool :: ustr where \<comment> \<open>confirmation must be a boolean\<close>
  "msg_preference_bool =
    [30830, 35748, 27169, 24335, 24212, 20026, 24067, 23572, 20540]"

definition msg_pick_alias :: ustr where \<comment> \<open>pick an authorised alias\<close>
  "msg_pick_alias =
    [35831, 36873, 25321, 31649, 29702, 21592, 25480, 26435, 30340, 30446, 24405, 21035,
     21517]"

definition msg_alias_unknown :: ustr where \<comment> \<open>alias unknown or not authorised\<close>
  "msg_alias_unknown =
    [30446, 24405, 21035, 21517, 19981, 23384, 22312, 25110, 26410, 25480, 26435]"

definition msg_alias :: ustr where \<comment> \<open>invalid alias\<close>
  "msg_alias =
    [30446, 24405, 21035, 21517, 26080, 25928]"

definition msg_alias_owners :: ustr where \<comment> \<open>invalid owners\<close>
  "msg_alias_owners =
    [30446, 24405, 25480, 26435, 29992, 25143, 26080, 25928]"

definition msg_alias_full :: ustr where \<comment> \<open>too many aliases\<close>
  "msg_alias_full =
    [30446, 24405, 21035, 21517, 24050, 36798, 19978, 38480]"

definition msg_no_source :: ustr where \<comment> \<open>no such source\<close>
  "msg_no_source =
    [26469, 28304, 19981, 23384, 22312]"

definition msg_sources_full :: ustr where \<comment> \<open>at most 32 sources\<close>
  "msg_sources_full =
    [30417, 21548, 26469, 28304, 26368, 22810, 32, 51, 50, 32, 20010]"

definition msg_source_known :: ustr where \<comment> \<open>source already registered\<close>
  "msg_source_known =
    [26469, 28304, 24050, 32463, 30331, 35760, 65307, 35831, 22312, 21407, 26469, 28304,
     20013, 20462, 25913, 25110, 24674, 22797]"

definition msg_source_config :: ustr where \<comment> \<open>unknown source configuration\<close>
  "msg_source_config =
    [26410, 30693, 26469, 28304, 37197, 32622]"

definition msg_source_mode :: ustr where \<comment> \<open>unknown directory mode\<close>
  "msg_source_mode =
    [26410, 30693, 26469, 28304, 30446, 24405, 27169, 24335]"

definition msg_source_name :: ustr where \<comment> \<open>folder too long or not one component\<close>
  "msg_source_name =
    [26469, 28304, 30446, 24405, 21517, 31216, 36807, 38271, 25110, 19981, 26159, 21333,
     32423, 30446, 24405]"

definition msg_source_base :: ustr where \<comment> \<open>invalid base\<close>
  "msg_source_base =
    [26469, 28304, 20445, 23384, 26681, 30446, 24405, 26080, 25928]"

definition msg_source_binding :: ustr where \<comment> \<open>incomplete binding\<close>
  "msg_source_binding =
    [26469, 28304, 30446, 24405, 32465, 23450, 19981, 23436, 25972]"

definition msg_profile_directory :: ustr where \<comment> \<open>directory of the profile not authorised\<close>
  "msg_profile_directory =
    [21629, 21517, 26041, 26696, 30446, 24405, 26410, 25480, 26435]"

definition msg_confirmation :: ustr where \<comment> \<open>invalid confirmation mode\<close>
  "msg_confirmation =
    [30830, 35748, 27169, 24335, 26080, 25928]"

definition msg_source_changed :: ustr where \<comment> \<open>source changed meanwhile\<close>
  "msg_source_changed =
    [26469, 28304, 24050, 21464, 21270, 65292, 35831, 21047, 26032]"

definition msg_source_bound :: ustr where \<comment> \<open>a bound folder cannot change\<close>
  "msg_source_bound =
    [24050, 32465, 23450, 30340, 26469, 28304, 30446, 24405, 19981, 21487, 25913, 21517,
     25110, 25913, 25442, 26681, 30446, 24405]"

definition msg_source_switch :: ustr where \<comment> \<open>switching needs the current base\<close>
  "msg_source_switch =
    [20999, 25442, 26469, 28304, 30446, 24405, 38656, 35201, 26680, 23545, 24403, 21069, 32,
     66, 111, 116, 32, 20445, 23384, 26681, 30446, 24405]"

definition msg_cursor :: ustr where \<comment> \<open>invalid cursor\<close>
  "msg_cursor =
    [25509, 25910, 36827, 24230, 26080, 25928]"

definition msg_source_identity :: ustr where \<comment> \<open>source or identity changed\<close>
  "msg_source_identity =
    [30417, 21548, 26469, 28304, 25110, 35835, 21462, 36523, 20221, 24050, 21464, 21270]"

definition msg_manual_identity :: ustr where \<comment> \<open>manual plans use the identity of the bot\<close>
  "msg_manual_identity =
    [25163, 21160, 20219, 21153, 19981, 24471, 20511, 29992, 30417, 21548, 36523, 20221]"

definition msg_pending_full :: ustr where \<comment> \<open>too many pending plans\<close>
  "msg_pending_full =
    [24453, 30830, 35748, 24050, 36798, 32, 50, 48, 48, 32, 39033, 65307, 35831, 20808,
     22788, 29702]"

definition msg_plan_directory :: ustr where \<comment> \<open>directory no longer authorised\<close>
  "msg_plan_directory =
    [35745, 21010, 30446, 24405, 24050, 19981, 22312, 25480, 26435, 33539, 22260]"

definition msg_no_plan :: ustr where \<comment> \<open>no such plan\<close>
  "msg_no_plan =
    [27809, 26377, 25214, 21040, 36825, 20010, 35745, 21010]"

definition msg_plan_stale :: ustr where \<comment> \<open>plan handled, expired or changed\<close>
  "msg_plan_stale =
    [35745, 21010, 24050, 22788, 29702, 12289, 36807, 26399, 25110, 21464, 21270, 65292,
     35831, 21047, 26032]"

definition msg_plan_changed :: ustr where \<comment> \<open>plan changed or expired\<close>
  "msg_plan_changed =
    [35745, 21010, 24050, 21464, 21270, 25110, 36807, 26399]"

definition msg_plan_source_deleted :: ustr where \<comment> \<open>source deleted\<close>
  "msg_plan_source_deleted =
    [26469, 28304, 24050, 21024, 38500, 65292, 19981, 20877, 25552, 20132, 24453, 30830,
     35748, 35745, 21010]"

definition msg_plan_no_source :: ustr where \<comment> \<open>source folder without a source\<close>
  "msg_plan_no_source =
    [26469, 28304, 30446, 24405, 32570, 23569, 30417, 21548, 36523, 20221]"

definition msg_plan_binding :: ustr where \<comment> \<open>folder does not match the source\<close>
  "msg_plan_binding =
    [35745, 21010, 30340, 26469, 28304, 30446, 24405, 32465, 23450, 19981, 21305, 37197]"

definition msg_grant_revoked :: ustr where \<comment> \<open>directory grant revoked\<close>
  "msg_grant_revoked =
    [30446, 24405, 25480, 26435, 24050, 25764, 38144]"

definition msg_feedback_source :: ustr where \<comment> \<open>correction is not about a source\<close>
  "msg_feedback_source =
    [27492, 20462, 27491, 19981, 33021, 33258, 21160, 27010, 25324, 20026, 26469, 28304,
     35268, 21017]"

definition msg_feedback_prefix :: ustr where \<comment> \<open>no fixed prefix\<close>
  "msg_feedback_prefix =
    [26080, 27861, 27010, 25324, 22266, 23450, 21069, 32512, 65307, 26412, 27425, 20462,
     25913, 20445, 25345, 29420, 31435]"

definition st_paused :: ustr where \<comment> \<open>status: paused\<close>
  "st_paused =
    [26242, 20572]"

definition st_deleted :: ustr where \<comment> \<open>status: deleted\<close>
  "st_deleted =
    [24050, 21024, 38500]"

definition st_waiting :: ustr where \<comment> \<open>status: waiting for a check\<close>
  "st_waiting =
    [31561, 24453, 26816, 26597]"

definition res_waiting :: ustr where \<comment> \<open>result: waiting for approval\<close>
  "res_waiting =
    [31561, 24453, 23457, 25209]"

definition res_queued :: ustr where \<comment> \<open>result: queued\<close>
  "res_queued =
    [24050, 20837, 38431]"

definition res_duplicate :: ustr where \<comment> \<open>result: duplicate\<close>
  "res_duplicate =
    [37325, 22797, 25991, 20214, 65288, 27839, 29992, 21407, 20219, 21153, 65289]"

definition op_once :: ustr where \<comment> \<open>correction for this plan only\<close>
  "op_once =
    [20165, 26412, 27425]"

definition op_prefix :: ustr where \<comment> \<open>correction saved as a prefix rule\<close>
  "op_prefix =
    [26126, 30830, 20445, 23384, 20026, 26469, 28304, 21069, 32512, 35268, 21017]"

definition suffix_source :: ustr where \<comment> \<open>-source\<close>
  "suffix_source =
    [45, 26469, 28304]"

definition msg_profile_object :: ustr where \<comment> \<open>the profile is an object\<close>
  "msg_profile_object =
    [21629, 21517, 37197, 32622, 24517, 39035, 26159, 32, 74, 83, 79, 78, 32, 23545, 35937]"

definition msg_profile_unknown :: ustr where \<comment> \<open>unknown naming profile\<close>
  "msg_profile_unknown =
    [26410, 30693, 21629, 21517, 37197, 32622]"

definition msg_profile_mode :: ustr where \<comment> \<open>unknown naming mode\<close>
  "msg_profile_mode =
    [21629, 21517, 27169, 24335, 24212, 20026, 32, 99, 111, 109, 112, 97, 116, 105, 98, 108,
     101, 12289, 99, 97, 112, 116, 105, 111, 110, 32, 25110, 32, 116, 101, 109, 112, 108,
     97, 116, 101]"

definition msg_profile_text :: ustr where \<comment> \<open>invalid template or label\<close>
  "msg_profile_text =
    [21629, 21517, 27169, 26495, 25110, 26631, 31614, 26080, 25928]"

definition msg_profile_fields :: ustr where \<comment> \<open>unsupported field\<close>
  "msg_profile_fields =
    [27169, 26495, 21482, 33021, 20351, 29992, 24050, 25903, 25345, 23383, 27573]"

definition msg_profile_lists :: ustr where \<comment> \<open>invalid clean-up list\<close>
  "msg_profile_lists =
    [28165, 29702, 35268, 21017, 38271, 24230, 26080, 25928]"

end
