(* ===== verification/Errors.thy ===== *)
theory Errors
  imports Messages
begin

text \<open>
  \<open>src/tg2cloud/domain/errors.py\<close> and \<open>domain/models.py\<close>: the exceptions of the program,
  the classification of a failure from its text, the redacted message that is stored, and
  the test whether a task must be reviewed by its owner.

  The regular expressions are written out: \<open>\b401\b\<close> is \<open>search_word\<close>, the literal
  alternatives with \<open>re.IGNORECASE\<close> are \<open>search_ci\<close>, which also accepts the four
  non-ASCII letters that Python folds into ASCII.
\<close>

section \<open>Exceptions\<close>

datatype tmp_kind = TServer | TNetwork

text \<open>
  One constructor per exception class. \<open>exc_text\<close> is \<open>str(error)\<close>.
  \<open>CancelledError\<close> is a \<open>BaseException\<close>: the \<open>except Exception\<close> handlers do not see it.
\<close>

datatype exc =
    ValueError ustr
  | QuotaExceeded ustr
  | PlanningError ustr
  | RuntimeError ustr
  | KeyError ustr
  | TypeError ustr
  | OverflowError ustr
  | IntegrityError ustr
  | PermissionError ustr
  | OSError ustr
  | FileNotFoundError ustr
  | TimeoutError
  | NotImplementedError
  | CancelledError
  | RcloneError ustr
  | MoveUncertainError ustr
  | RemoteReviewRequired ustr
  | SourceTemporaryError tmp_kind
  | ListenerReadError ustr
  | ListenerRateLimited ustr int

fun tmp_message :: "tmp_kind \<Rightarrow> ustr" where
  "tmp_message TServer = msg_tmp_server"
| "tmp_message TNetwork = msg_tmp_network"

fun exc_text :: "exc \<Rightarrow> ustr" where
  "exc_text (ValueError t) = t"
| "exc_text (QuotaExceeded t) = t"
| "exc_text (PlanningError t) = t"
| "exc_text (RuntimeError t) = t"
| "exc_text (KeyError t) = t"
| "exc_text (TypeError t) = t"
| "exc_text (OverflowError t) = t"
| "exc_text (IntegrityError t) = t"
| "exc_text (PermissionError t) = t"
| "exc_text (OSError t) = t"
| "exc_text (FileNotFoundError t) = t"
| "exc_text TimeoutError = []"
| "exc_text NotImplementedError = []"
| "exc_text CancelledError = []"
| "exc_text (RcloneError t) = t"
| "exc_text (MoveUncertainError t) = t"
| "exc_text (RemoteReviewRequired t) = t"
| "exc_text (SourceTemporaryError k) = tmp_message k"
| "exc_text (ListenerReadError t) = t"
| "exc_text (ListenerRateLimited t n) = t"

section \<open>Searching a message\<close>

text \<open>\<open>ci_char c x\<close>: the lower-case ASCII pattern letter \<open>c\<close> matches \<open>x\<close> under IGNORECASE.\<close>

definition ci_char :: "nat \<Rightarrow> nat \<Rightarrow> bool" where
  "ci_char c x \<longleftrightarrow> x = c \<or> (97 \<le> c \<and> c \<le> 122 \<and>
     (x + 32 = c \<or> (c = 105 \<and> (x = 304 \<or> x = 305)) \<or> (c = 115 \<and> x = 383) \<or> (c = 107 \<and> x = 8490)))"

fun ci_prefix :: "ustr \<Rightarrow> ustr \<Rightarrow> bool" where
  "ci_prefix s [] = True"
| "ci_prefix [] (p # ps) = False"
| "ci_prefix (x # xs) (p # ps) = (ci_char p x \<and> ci_prefix xs ps)"

fun search_ci :: "ustr \<Rightarrow> ustr \<Rightarrow> bool" where
  "search_ci p [] = (p = [])"
| "search_ci p (x # xs) = (ci_prefix (x # xs) p \<or> search_ci p xs)"

definition is_word :: "platform \<Rightarrow> nat \<Rightarrow> bool" where
  "is_word P c \<longleftrightarrow> (if c < 128 then (48 \<le> c \<and> c \<le> 57) \<or> (65 \<le> c \<and> c \<le> 90)
     \<or> (97 \<le> c \<and> c \<le> 122) \<or> c = 95 else word_char P c)"

definition is_udigit :: "platform \<Rightarrow> nat \<Rightarrow> bool" where
  "is_udigit P c \<longleftrightarrow> (if c < 128 then is_digit c else digit_char P c)"

text \<open>\<open>\b\<close> between the character before a position and the one after it.\<close>

definition word_edge :: "platform \<Rightarrow> nat option \<Rightarrow> nat option \<Rightarrow> bool" where
  "word_edge P a b \<longleftrightarrow>
     (case a of None \<Rightarrow> False | Some x \<Rightarrow> is_word P x) \<noteq>
     (case b of None \<Rightarrow> False | Some x \<Rightarrow> is_word P x)"

definition opt_hd :: "'a list \<Rightarrow> 'a option" where
  "opt_hd xs = (case xs of [] \<Rightarrow> None | x # _ \<Rightarrow> Some x)"

text \<open>\<open>search_word P [p, q, r] prev s\<close>: \<open>re.search\<close> of \<open>\bpqr\b\<close>, \<open>prev\<close> being the
  character before \<open>s\<close>.\<close>

fun search_word :: "platform \<Rightarrow> (nat \<Rightarrow> bool) list \<Rightarrow> nat option \<Rightarrow> ustr \<Rightarrow> bool" where
  "search_word P [p, q, r] prev (x # y # z # rest) =
     ((word_edge P prev (Some x) \<and> p x \<and> q y \<and> r z \<and> word_edge P (Some z) (opt_hd rest))
      \<or> search_word P [p, q, r] (Some x) (y # z # rest))"
| "search_word P ps prev s = False"

definition code3 :: "nat \<Rightarrow> nat \<Rightarrow> nat \<Rightarrow> (nat \<Rightarrow> bool) list" where
  "code3 a b c = [\<lambda>x. x = a, \<lambda>x. x = b, \<lambda>x. x = c]"

section \<open>Classification\<close>

datatype fkind = Authentication | Permission | RateLimited | Server | RemoteConflict
  | LocalMissing | Network | SourceAccess

definition review_prefixed :: "ustr \<Rightarrow> bool" where
  "review_prefixed t \<longleftrightarrow> starts_with t (asc ''REMOTE_REVIEW:'') \<or> starts_with t (asc ''MOVE_UNCERTAIN:'')"

text \<open>The pattern loop of \<open>failure_kind\<close>: the first pattern that is found decides.\<close>

definition pattern_kind :: "platform \<Rightarrow> ustr \<Rightarrow> fkind option" where
  "pattern_kind P t =
    (if search_word P (code3 52 48 49) None t \<or> search_ci (asc ''unauthorized'') t
       then Some Authentication
     else if search_word P (code3 52 48 51) None t \<or> search_ci (asc ''forbidden'') t
       then Some Permission
     else if search_word P (code3 52 50 57) None t \<or> search_ci (asc ''too many requests'') t
       then Some RateLimited
     else if search_word P [\<lambda>x. x = 53, is_udigit P, is_udigit P] None t
       then Some Server
     else if search_word P (code3 52 48 57) None t \<or> search_word P (code3 52 49 50) None t
          \<or> search_ci (asc ''immutable'') t \<or> search_ci (asc ''already exists'') t
       then Some RemoteConflict
     else None)"

definition is_review_error :: "exc \<Rightarrow> bool" where
  "is_review_error e = (case e of RemoteReviewRequired t \<Rightarrow> True | _ \<Rightarrow> False)"

definition is_missing_file :: "exc \<Rightarrow> bool" where
  "is_missing_file e = (case e of FileNotFoundError t \<Rightarrow> True | _ \<Rightarrow> False)"

definition temporary_source :: "exc \<Rightarrow> tmp_kind option" where
  "temporary_source e = (case e of SourceTemporaryError k \<Rightarrow> Some k | _ \<Rightarrow> None)"

fun tmp_failure :: "tmp_kind \<Rightarrow> fkind" where
  "tmp_failure TServer = Server"
| "tmp_failure TNetwork = Network"

definition failure_kind :: "platform \<Rightarrow> exc \<Rightarrow> fkind" where
  "failure_kind P e = (case temporary_source e of
     Some k \<Rightarrow> tmp_failure k
   | None \<Rightarrow>
     (if is_review_error e \<or> review_prefixed (exc_text e) then RemoteConflict
      else case pattern_kind P (exc_text e) of
        Some k \<Rightarrow> k
      | None \<Rightarrow> if is_missing_file e then LocalMissing else Network))"

fun failure_message :: "fkind \<Rightarrow> ustr" where
  "failure_message Authentication = msg_authentication"
| "failure_message Permission = msg_permission"
| "failure_message RateLimited = msg_rate_limited"
| "failure_message Server = msg_server"
| "failure_message RemoteConflict = msg_remote_conflict"
| "failure_message LocalMissing = msg_local_missing"
| "failure_message Network = msg_network"
| "failure_message SourceAccess = []"

definition safe_failure :: "platform \<Rightarrow> exc \<Rightarrow> ustr" where
  "safe_failure P e = (case temporary_source e of
     Some k \<Rightarrow> tmp_message k
   | None \<Rightarrow>
     (if failure_kind P e = RemoteConflict then asc ''REMOTE_REVIEW: '' else [])
       @ failure_message (failure_kind P e))"

text \<open>\<open>needs_review(task)\<close>, on the two columns it reads.\<close>

definition needs_review_of :: "fkind option \<Rightarrow> ustr option \<Rightarrow> bool" where
  "needs_review_of kind err \<longleftrightarrow> kind = Some RemoteConflict \<or>
     review_prefixed (case err of None \<Rightarrow> [] | Some t \<Rightarrow> t)"

section \<open>Lemmas\<close>

lemma pattern_kind_range:
  "pattern_kind P t = Some k \<Longrightarrow>
     k \<in> {Authentication, Permission, RateLimited, Server, RemoteConflict}"
  by (auto simp: pattern_kind_def split: if_splits)

lemma failure_kind_not_source: "failure_kind P e \<noteq> SourceAccess"
proof (cases "temporary_source e")
  case (Some k)
  then show ?thesis by (cases k) (simp_all add: failure_kind_def)
next
  case None
  then show ?thesis
    using pattern_kind_range[of P "exc_text e"]
    by (auto simp: failure_kind_def split: option.splits)
qed

lemma review_prefix_marks: "review_prefixed (asc ''REMOTE_REVIEW: '' @ t)"
  by (simp add: review_prefixed_def asc_def)

lemma failure_kind_tmp: "temporary_source e = Some k \<Longrightarrow> failure_kind P e \<in> {Server, Network}"
  by (cases k) (simp_all add: failure_kind_def)

text \<open>A conflict is stored with the marker that \<open>needs_review\<close> looks for.\<close>

lemma safe_failure_review:
  assumes "failure_kind P e = RemoteConflict"
  shows "review_prefixed (safe_failure P e)"
proof (cases "temporary_source e")
  case (Some k)
  with failure_kind_tmp[OF Some, of P] assms show ?thesis by simp
next
  case None
  with assms show ?thesis by (simp add: safe_failure_def review_prefix_marks)
qed

definition safe_messages :: "ustr list" where
  "safe_messages = [msg_tmp_server, msg_tmp_network, msg_authentication, msg_permission,
     msg_rate_limited, msg_server, asc ''REMOTE_REVIEW: '' @ msg_remote_conflict,
     msg_local_missing, msg_network]"

lemma failure_message_safe:
  "k \<noteq> SourceAccess \<Longrightarrow>
     (if k = RemoteConflict then asc ''REMOTE_REVIEW: '' else []) @ failure_message k
       \<in> set safe_messages"
  by (cases k) (simp_all add: safe_messages_def)

lemma review_prefixed_messages:
  "k \<noteq> RemoteConflict \<Longrightarrow> \<not> review_prefixed (failure_message k)"
  "\<not> review_prefixed (tmp_message t)"
  by (cases k; simp add: review_prefixed_def asc_def msg_authentication_def msg_permission_def
      msg_rate_limited_def msg_server_def msg_local_missing_def msg_network_def)
    (cases t; simp add: review_prefixed_def asc_def msg_tmp_server_def msg_tmp_network_def)

text \<open>
  What is stored or sent about a failure never carries text of the exception:
  \<open>safe_failure\<close> always returns one of nine fixed messages, whatever the exception (with
  its URL, token or file name) was, and it carries the review marker, which stops automatic
  recovery, exactly for the failures classified as a remote conflict.
\<close>

theorem safe_failure_fixed:
  "safe_failure P e \<in> set safe_messages \<and>
   needs_review_of None (Some (safe_failure P e)) = (failure_kind P e = RemoteConflict)"
proof (cases "temporary_source e")
  case (Some k)
  have "safe_failure P e = tmp_message k" using Some by (simp add: safe_failure_def)
  moreover have "failure_kind P e \<noteq> RemoteConflict"
    using failure_kind_tmp[OF Some, of P] by auto
  ultimately show ?thesis
    by (cases k) (simp_all add: safe_messages_def needs_review_of_def review_prefixed_messages
        flip: tmp_message.simps)
next
  case None
  then have "safe_failure P e \<in> set safe_messages"
    using failure_message_safe[OF failure_kind_not_source[of P e]]
    by (simp add: safe_failure_def)
  moreover have "review_prefixed (safe_failure P e) = (failure_kind P e = RemoteConflict)"
    using None review_prefixed_messages(1) safe_failure_review[of P e]
    by (auto simp: safe_failure_def)
  ultimately show ?thesis by (simp add: needs_review_of_def)
qed

subsection \<open>Numbers quoted in a message\<close>

lemma is_word_digit: "is_digit c \<Longrightarrow> is_word P c"
  by (auto simp: is_digit_def is_word_def)

lemma search_word_infix:
  assumes "\<not> is_word P x" "\<not> is_word P y" "is_digit p" "is_digit q" "is_digit r"
  shows "search_word P (code3 p q r) prev (u @ x # p # q # r # y # v)"
proof (induction u arbitrary: prev)
  case Nil
  from assms show ?case
    by (simp add: code3_def word_edge_def opt_hd_def is_word_digit)
next
  case (Cons c u)
  obtain d e w where w: "u @ x # p # q # r # y # v = d # e # w"
    by (cases u; cases "tl u") auto
  from Cons[of "Some c"] show ?case by (simp add: code3_def w)
qed

text \<open>
  The classification looks for an HTTP status as a free-standing number anywhere in the
  error text, so a text that merely quotes the staging object or the local file of task 401,
  for example an rclone message about a dropped connection, is classified as an
  authentication failure (which the upload handler does not retry).
\<close>

theorem task_number_taken_for_status:
  assumes "t = u @ asc ''-401-'' @ v" and "\<not> review_prefixed t"
  shows "failure_kind P (RcloneError t) = Authentication"
proof -
  have "search_word P (code3 52 48 49) None t"
    using search_word_infix[of P 45 45 52 48 49 None u v] assms(1)
    by (simp add: asc_def is_word_def is_digit_def)
  with assms(2) show ?thesis
    by (simp add: failure_kind_def temporary_source_def is_review_error_def pattern_kind_def)
qed

theorem task_number_taken_for_status_witness:
  "failure_kind ascii_platform (RcloneError (asc ''ERROR : .uploading-401-film.mp4: connection reset''))
     = Authentication"
  by (rule task_number_taken_for_status
      [of _ "asc ''ERROR : .uploading''" "asc ''film.mp4: connection reset''"])
    (simp_all add: asc_def review_prefixed_def)

end
