(* ===== verification/Json.thy ===== *)
theory Json
  imports Prelude
begin

text \<open>
  The values \<open>json.loads\<close> returns and \<open>json.dumps\<close> accepts, as the settings records use
  them: dictionary access, the type tests of the validators, and the text \<open>json.dumps\<close>
  writes with its default \<open>ensure_ascii=True\<close> (its length decides whether a stored record
  can be read back).
\<close>

text \<open>A parsed JSON value; objects keep the order of their members. A finite float is its exact value;
  \<open>JInf\<close> holds whether the infinity is negative.\<close>

datatype json = JNull | JBool bool | JInt int | JFloat rat | JNan | JInf bool | JStr ustr
  | JArr "json list" | JObj "(ustr \<times> json) list"

fun as_obj :: "json \<Rightarrow> (ustr \<times> json) list option" where
  "as_obj (JObj ms) = Some ms"
| "as_obj j = None"

fun as_arr :: "json \<Rightarrow> json list option" where
  "as_arr (JArr js) = Some js"
| "as_arr j = None"

fun as_str :: "json \<Rightarrow> ustr option" where
  "as_str (JStr s) = Some s"
| "as_str j = None"

fun as_int :: "json \<Rightarrow> int option" where
  "as_int (JInt i) = Some i"
| "as_int j = None"

fun as_bool :: "json \<Rightarrow> bool option" where
  "as_bool (JBool b) = Some b"
| "as_bool j = None"

text \<open>Testing membership in a \<open>set\<close> or \<open>dict\<close> raises TypeError for lists and dicts.\<close>

fun hashable :: "json \<Rightarrow> bool" where
  "hashable (JArr js) = False"
| "hashable (JObj ms) = False"
| "hashable j = True"

text \<open>\<open>dict.get(key)\<close>: \<open>None\<close> where the key is missing; \<open>jget\<close> is for a present key.\<close>

definition jfind :: "json \<Rightarrow> ustr \<Rightarrow> json option" where
  "jfind j k = (case as_obj j of None \<Rightarrow> None | Some ms \<Rightarrow> map_of ms k)"

definition jget :: "json \<Rightarrow> ustr \<Rightarrow> json" where
  "jget j k = (case jfind j k of None \<Rightarrow> JNull | Some v \<Rightarrow> v)"

text \<open>\<open>d[key] = value\<close> keeps the position of an existing key.\<close>

fun put_member :: "ustr \<Rightarrow> json \<Rightarrow> (ustr \<times> json) list \<Rightarrow> (ustr \<times> json) list" where
  "put_member k v [] = [(k, v)]"
| "put_member k v ((l, w) # ms) = (if l = k then (k, v) # ms else (l, w) # put_member k v ms)"

definition update_members :: "(ustr \<times> json) list \<Rightarrow> (ustr \<times> json) list \<Rightarrow> (ustr \<times> json) list" where
  "update_members ms us = fold (\<lambda>(k, v). put_member k v) us ms"

definition keys_of :: "(ustr \<times> json) list \<Rightarrow> ustr set" where
  "keys_of ms = fst ` set ms"

definition same_keys :: "(ustr \<times> json) list \<Rightarrow> ustr list \<Rightarrow> bool" where
  "same_keys ms ks \<longleftrightarrow> (\<forall>m \<in> set ms. fst m \<in> set ks) \<and> (\<forall>k \<in> set ks. k \<in> fst ` set ms)"

definition int_in :: "json \<Rightarrow> int \<Rightarrow> int \<Rightarrow> bool" where
  "int_in j low high = (case as_int j of None \<Rightarrow> False | Some i \<Rightarrow> low \<le> i \<and> i \<le> high)"

text \<open>\<open>bool(value)\<close>.\<close>

fun json_true :: "json \<Rightarrow> bool" where
  "json_true JNull = False"
| "json_true (JBool b) = b"
| "json_true (JInt i) = (i \<noteq> 0)"
| "json_true (JFloat q) = (q \<noteq> 0)"
| "json_true JNan = True"
| "json_true (JInf negative) = True"
| "json_true (JStr s) = (s \<noteq> [])"
| "json_true (JArr js) = (js \<noteq> [])"
| "json_true (JObj ms) = (ms \<noteq> [])"

section \<open>Serialisation\<close>

definition hex_digit :: "nat \<Rightarrow> nat" where
  "hex_digit n = (if n < 10 then 48 + n else 87 + n)"

definition u_escape :: "nat \<Rightarrow> ustr" where
  "u_escape c = [92, 117] @ map hex_digit
     [c div 4096 mod 16, c div 256 mod 16, c div 16 mod 16, c mod 16]"

definition escape_char :: "nat \<Rightarrow> ustr" where
  "escape_char c =
    (if c = 34 then [92, 34] else if c = 92 then [92, 92]
     else if c = 10 then [92, 110] else if c = 13 then [92, 114]
     else if c = 9 then [92, 116] else if c = 12 then [92, 102]
     else if c = 8 then [92, 98]
     else if 32 \<le> c \<and> c \<le> 126 then [c]
     else if c < 65536 then u_escape c
     else u_escape (55296 + (c - 65536) div 1024) @ u_escape (56320 + (c - 65536) mod 1024))"

definition quote_str :: "ustr \<Rightarrow> ustr" where
  "quote_str s = [34] @ concat (map escape_char s) @ [34]"

fun dumps :: "platform \<Rightarrow> json \<Rightarrow> ustr" where
  "dumps P JNull = asc ''null''"
| "dumps P (JBool b) = (if b then asc ''true'' else asc ''false'')"
| "dumps P (JInt i) = dec i"
| "dumps P (JFloat q) = float_repr P q"
| "dumps P JNan = asc ''NaN''"
| "dumps P (JInf negative) = (if negative then asc ''-Infinity'' else asc ''Infinity'')"
| "dumps P (JStr s) = quote_str s"
| "dumps P (JArr js) = [91] @ join_with (asc '', '') (map (dumps P) js) @ [93]"
| "dumps P (JObj ms) = [123] @ join_with (asc '', '')
     (map (\<lambda>(k, v). quote_str k @ asc '': '' @ dumps P v) ms) @ [125]"

section \<open>Lemmas\<close>

lemma map_of_put [simp]: "map_of (put_member k v ms) = (map_of ms)(k \<mapsto> v)"
  by (induction ms) (auto simp: fun_eq_iff)

lemma keys_put [simp]: "fst ` set (put_member k v ms) = insert k (fst ` set ms)"
  by (induction k v ms rule: put_member.induct) auto

lemma keys_update: "fst ` set (update_members ms us) = fst ` set ms \<union> fst ` set us"
  unfolding update_members_def
proof (induction us arbitrary: ms)
  case (Cons u us)
  obtain k v where u: "u = (k, v)" by (cases u)
  have "fst ` set (fold (\<lambda>(k, v). put_member k v) (u # us) ms)
      = fst ` set (put_member k v ms) \<union> fst ` set us"
    using Cons[of "put_member k v ms"] by (simp add: u)
  also have "\<dots> = fst ` set ms \<union> fst ` set (u # us)"
    by (simp only: keys_put) (simp add: u)
  finally show ?case .
qed simp

lemma same_keys_iff: "same_keys ms ks \<longleftrightarrow> fst ` set ms = set ks"
  by (auto simp: same_keys_def)

lemma length_join: "length (join_with d ps) \<le> sum_list (map length ps) + length d * length ps"
  by (induction d ps rule: join_with.induct) auto

lemma length_escape_char: "length (escape_char c) \<le> 12"
  by (simp add: escape_char_def u_escape_def asc_def)

lemma length_quote_str: "length (quote_str s) \<le> 2 + 12 * length s"
proof -
  have "length (concat (map escape_char s)) \<le> 12 * length s"
  proof (induction s)
    case (Cons c s)
    with length_escape_char[of c] show ?case by simp
  qed simp
  then show ?thesis by (simp add: quote_str_def)
qed

lemma as_obj_Some: "as_obj j = Some ms \<longleftrightarrow> j = JObj ms"
  by (cases j) auto

lemma as_int_Some: "as_int j = Some i \<longleftrightarrow> j = JInt i"
  by (cases j) auto

lemma as_arr_Some: "as_arr j = Some xs \<longleftrightarrow> j = JArr xs"
  by (cases j) auto

end
