(* ===== verification/Store.thy ===== *)
theory Store
  imports States Errors Json
begin

text \<open>
  The database of the service: the tables of \<open>persistence/sqlite.py\<close>,
  \<open>persistence/migrations.py\<close> and \<open>persistence/plans.py\<close> as one record, the SQL statements
  the operations are built from, and the two triggers of the schema.

  A table is the list of its rows in row-id order. \<open>upd_task\<close> is an \<open>UPDATE tasks\<close> that does
  not mention the state column, \<open>upd_state\<close> one that does: the triggers \<open>quota_state\<close> and
  \<open>task_state_event\<close> (\<open>AFTER UPDATE OF state\<close>) run for the second kind only, also when the
  state keeps its value. \<open>wf_db\<close> states the schema constraints (keys, uniqueness, foreign
  keys, checks); the lemmas show that every statement keeps them.

  Clock readings are exact rationals, and each operation takes one reading \<open>now\<close> for all
  its calls of \<open>time.time()\<close>, which the code makes under one lock.
\<close>

section \<open>Rows\<close>

datatype transfer_mode = LocalMode | StreamMode

datatype verification = BySize | ByHash

record task =
  t_id :: int
  t_chat_id :: int
  t_message_id :: int
  t_sender_id :: int
  t_media_key :: "ustr option"
  t_file_name :: ustr
  t_file_size :: int
  t_transfer_mode :: transfer_mode
  t_state :: task_state
  t_local_path :: "ustr option"
  t_remote_path :: "ustr option"
  t_downloaded_bytes :: int
  t_uploaded_bytes :: int
  t_download_retries :: int
  t_upload_retries :: int
  t_error :: "ustr option"
  t_wait_reason :: "ustr option"
  t_created_at :: rat
  t_updated_at :: rat
  t_next_retry_at :: rat
  t_remote_temp_path :: "ustr option"
  t_remote_final_path :: "ustr option"
  t_cancel_requested :: bool
  t_failure_kind :: "fkind option"
  t_verification_method :: "verification option"
  t_verified_at :: "rat option"
  t_original_file_name :: "ustr option"
  t_target_directory :: ustr
  t_target_base :: "ustr option"
  t_read_identity :: ustr
  t_source_id :: "int option"

definition needs_review :: "task \<Rightarrow> bool" where
  "needs_review t = needs_review_of (t_failure_kind t) (t_error t)"

text \<open>\<open>task_events\<close>, \<open>quota_ledger\<close>, \<open>member_quotas\<close>, \<open>task_recoveries\<close>, \<open>listener_sources\<close>.\<close>

record event_row =
  e_task :: int
  e_old :: "task_state option"
  e_new :: task_state
  e_at :: rat

record ledger_row =
  l_task :: int
  l_user :: int
  l_bytes :: int
  l_charged :: "rat option"
  l_released :: bool

record quota_limits =
  daily_bytes :: int
  max_queued :: int
  max_active :: int

datatype recovery_op = OpRestart | OpRename | OpRetry

record recovery_row =
  r_id :: int
  r_task :: int
  r_at :: rat
  r_operation :: recovery_op
  r_previous :: task

record source_row =
  s_id :: int
  s_account :: int
  s_chat :: int
  s_title :: ustr
  s_config :: json
  s_revision :: int
  s_enabled :: bool
  s_deleted :: bool
  s_cursor :: int
  s_status :: ustr
  s_next_retry :: rat
  s_polled_at :: rat
  s_gap :: bool

text \<open>A row of \<open>service_meta\<close> that holds JSON: the length of the stored text and its parse
  (\<open>None\<close> where \<open>json.loads\<close> raises). The row \<open>paused\<close> holds plain text and is kept apart.\<close>

type_synonym meta_value = "nat \<times> json option"

record taskdb =
  d_tasks :: "task list"
  d_seq :: int
  d_events :: "event_row list"
  d_ledger :: "ledger_row list"
  d_slots :: "int list"
  d_quotas :: "int \<Rightarrow> quota_limits option"
  d_recoveries :: "recovery_row list"
  d_retained :: "(ustr \<times> int) list"
  d_paused :: "ustr option"
  d_meta :: "ustr \<Rightarrow> meta_value option"
  d_sources :: "source_row list"

definition empty_db :: taskdb where
  "empty_db = \<lparr>d_tasks = [], d_seq = 0, d_events = [], d_ledger = [], d_slots = [],
     d_quotas = (\<lambda>_. None), d_recoveries = [], d_retained = [], d_paused = None,
     d_meta = (\<lambda>_. None), d_sources = []\<rparr>"

section \<open>Triggers\<close>

definition ACTIVE :: "task_state list" where
  "ACTIVE = [Reserved, Downloading, Streaming, Uploading, Verifying, Finalizing]"

definition CHARGED_STATES :: "task_state list" where
  "CHARGED_STATES = [CleanupPending, Completed, Confirmed]"

definition charge_row :: "task \<Rightarrow> ledger_row \<Rightarrow> ledger_row" where
  "charge_row new l =
    (if t_state new \<in> set CHARGED_STATES \<and> t_verification_method new \<noteq> None
        \<and> t_verified_at new \<noteq> None
     then l\<lparr>l_charged := (case l_charged l of None \<Rightarrow> Some (t_updated_at new) | Some c \<Rightarrow> Some c)\<rparr>
     else l)"

definition release_row :: "task \<Rightarrow> ledger_row \<Rightarrow> ledger_row" where
  "release_row new l =
    (if l_charged l = None then l\<lparr>l_released := (t_state new = Cancelled)\<rparr> else l)"

definition quota_state :: "task \<Rightarrow> taskdb \<Rightarrow> taskdb" where
  "quota_state new d = d\<lparr>
     d_ledger := upd_where (\<lambda>l. l_task l = t_id new) (\<lambda>l. release_row new (charge_row new l)) (d_ledger d),
     d_slots := (if t_state new \<in> set ACTIVE then d_slots d
                 else filter (\<lambda>i. i \<noteq> t_id new) (d_slots d))\<rparr>"

definition task_state_event :: "task \<Rightarrow> task \<Rightarrow> taskdb \<Rightarrow> taskdb" where
  "task_state_event old new d =
    (if t_state old = t_state new then d
     else d\<lparr>d_events := d_events d @
       [\<lparr>e_task = t_id new, e_old = Some (t_state old), e_new = t_state new,
         e_at = t_updated_at new\<rparr>]\<rparr>)"

section \<open>Statements\<close>

definition get_task :: "taskdb \<Rightarrow> int \<Rightarrow> task option" where
  "get_task d i = row_of t_id i (d_tasks d)"

definition upd_task :: "int \<Rightarrow> (task \<Rightarrow> task) \<Rightarrow> taskdb \<Rightarrow> taskdb" where
  "upd_task i f d = d\<lparr>d_tasks := upd_where (\<lambda>t. t_id t = i) f (d_tasks d)\<rparr>"

definition upd_state :: "int \<Rightarrow> (task \<Rightarrow> task) \<Rightarrow> taskdb \<Rightarrow> taskdb" where
  "upd_state i f d =
    (case get_task d i of
       None \<Rightarrow> d
     | Some old \<Rightarrow> task_state_event old (f old) (quota_state (f old) (upd_task i f d)))"

section \<open>Schema constraints\<close>

definition unique_message :: "task list \<Rightarrow> bool" where
  "unique_message ts \<longleftrightarrow> distinct (map (\<lambda>t. (t_chat_id t, t_message_id t)) ts)"

definition unique_media :: "task list \<Rightarrow> bool" where
  "unique_media ts \<longleftrightarrow> distinct (map (\<lambda>t. (t_sender_id t, t_media_key t))
     (filter (\<lambda>t. t_media_key t \<noteq> None) ts))"

definition wf_tasks :: "taskdb \<Rightarrow> bool" where
  "wf_tasks d \<longleftrightarrow> sorted_wrt (<) (map t_id (d_tasks d))
     \<and> (\<forall>t \<in> set (d_tasks d). 0 < t_id t \<and> t_id t \<le> d_seq d \<and> 0 \<le> t_file_size t)
     \<and> 0 \<le> d_seq d \<and> unique_message (d_tasks d) \<and> unique_media (d_tasks d)"

definition wf_refs :: "taskdb \<Rightarrow> bool" where
  "wf_refs d \<longleftrightarrow> distinct (map l_task (d_ledger d)) \<and> distinct (d_slots d)
     \<and> distinct (map fst (d_retained d))
     \<and> l_task ` set (d_ledger d) \<subseteq> t_id ` set (d_tasks d)
     \<and> set (d_slots d) \<subseteq> t_id ` set (d_tasks d)
     \<and> e_task ` set (d_events d) \<subseteq> t_id ` set (d_tasks d)
     \<and> r_task ` set (d_recoveries d) \<subseteq> t_id ` set (d_tasks d)
     \<and> snd ` set (d_retained d) \<subseteq> t_id ` set (d_tasks d)"

definition wf_db :: "taskdb \<Rightarrow> bool" where
  "wf_db d \<longleftrightarrow> wf_tasks d \<and> wf_refs d"

text \<open>An assignment that leaves the key columns and the checked columns alone.\<close>

definition keyed :: "(task \<Rightarrow> task) \<Rightarrow> bool" where
  "keyed f \<longleftrightarrow> (\<forall>t. t_id (f t) = t_id t \<and> t_chat_id (f t) = t_chat_id t
     \<and> t_message_id (f t) = t_message_id t \<and> t_sender_id (f t) = t_sender_id t
     \<and> t_media_key (f t) = t_media_key t \<and> t_file_size (f t) = t_file_size t)"

lemma keyed_id: "keyed f \<Longrightarrow> t_id (f t) = t_id t"
  by (simp add: keyed_def)

section \<open>Lemmas\<close>

lemma wf_distinct: "wf_db d \<Longrightarrow> distinct (map t_id (d_tasks d))"
  using strict_sorted_imp_sorted strict_sorted_iff
  by (auto simp: wf_db_def wf_tasks_def strict_sorted_iff)

lemma get_task_Some: "get_task d i = Some t \<Longrightarrow> t \<in> set (d_tasks d) \<and> t_id t = i"
  by (auto simp: get_task_def dest: row_of_Some)

lemma get_task_in: "wf_db d \<Longrightarrow> t \<in> set (d_tasks d) \<Longrightarrow> get_task d (t_id t) = Some t"
  by (simp add: get_task_def row_of_unique wf_distinct)

lemma upd_task_fields [simp]:
  "d_seq (upd_task i f d) = d_seq d" "d_events (upd_task i f d) = d_events d"
  "d_ledger (upd_task i f d) = d_ledger d" "d_slots (upd_task i f d) = d_slots d"
  "d_quotas (upd_task i f d) = d_quotas d" "d_recoveries (upd_task i f d) = d_recoveries d"
  "d_retained (upd_task i f d) = d_retained d" "d_paused (upd_task i f d) = d_paused d"
  "d_meta (upd_task i f d) = d_meta d" "d_sources (upd_task i f d) = d_sources d"
  "d_tasks (upd_task i f d) = upd_where (\<lambda>t. t_id t = i) f (d_tasks d)"
  by (simp_all add: upd_task_def)

lemma quota_state_fields [simp]:
  "d_tasks (quota_state n d) = d_tasks d" "d_seq (quota_state n d) = d_seq d"
  "d_events (quota_state n d) = d_events d" "d_quotas (quota_state n d) = d_quotas d"
  "d_recoveries (quota_state n d) = d_recoveries d" "d_retained (quota_state n d) = d_retained d"
  "d_paused (quota_state n d) = d_paused d" "d_meta (quota_state n d) = d_meta d"
  "d_sources (quota_state n d) = d_sources d"
  by (simp_all add: quota_state_def)

lemma task_state_event_fields [simp]:
  "d_tasks (task_state_event a b d) = d_tasks d" "d_seq (task_state_event a b d) = d_seq d"
  "d_ledger (task_state_event a b d) = d_ledger d" "d_slots (task_state_event a b d) = d_slots d"
  "d_quotas (task_state_event a b d) = d_quotas d"
  "d_recoveries (task_state_event a b d) = d_recoveries d"
  "d_retained (task_state_event a b d) = d_retained d"
  "d_paused (task_state_event a b d) = d_paused d" "d_meta (task_state_event a b d) = d_meta d"
  "d_sources (task_state_event a b d) = d_sources d"
  by (simp_all add: task_state_event_def)

lemma upd_state_fields [simp]:
  "d_seq (upd_state i f d) = d_seq d"
  "d_quotas (upd_state i f d) = d_quotas d" "d_recoveries (upd_state i f d) = d_recoveries d"
  "d_retained (upd_state i f d) = d_retained d" "d_paused (upd_state i f d) = d_paused d"
  "d_meta (upd_state i f d) = d_meta d" "d_sources (upd_state i f d) = d_sources d"
  by (simp_all add: upd_state_def split: option.splits)

lemma upd_where_absent:
  "row_of key k rows = None \<Longrightarrow> upd_where (\<lambda>r. key r = k) f rows = rows"
  by (induction rows) (auto split: if_splits)

lemma upd_state_tasks [simp]:
  "d_tasks (upd_state i f d) = upd_where (\<lambda>t. t_id t = i) f (d_tasks d)"
  by (simp add: upd_state_def get_task_def upd_where_absent split: option.splits)

lemma get_upd_task [row_simps]:
  "keyed f \<Longrightarrow> get_task (upd_task i f d) j =
     (if j = i then map_option f (get_task d j) else get_task d j)"
  by (simp add: get_task_def row_of_upd keyed_id)

lemma get_upd_state [row_simps]:
  "keyed f \<Longrightarrow> get_task (upd_state i f d) j =
     (if j = i then map_option f (get_task d j) else get_task d j)"
  by (simp add: get_task_def row_of_upd keyed_id)

lemma upd_ids: "keyed f \<Longrightarrow> map t_id (upd_where p f ts) = map t_id ts"
  by (rule map_upd_where) (simp add: keyed_id)

lemma upd_id_set: "keyed f \<Longrightarrow> t_id ` set (upd_where p f ts) = t_id ` set ts"
  using upd_ids[of f p ts] by (metis set_map)

lemma upd_unique:
  assumes "keyed f"
  shows "unique_message (upd_where p f ts) = unique_message ts"
    and "unique_media (upd_where p f ts) = unique_media ts"
proof -
  have "map (\<lambda>t. (t_chat_id t, t_message_id t)) (upd_where p f ts)
      = map (\<lambda>t. (t_chat_id t, t_message_id t)) ts"
    using assms by (intro map_upd_where) (simp add: keyed_def)
  then show "unique_message (upd_where p f ts) = unique_message ts"
    by (simp add: unique_message_def)
  have "map (\<lambda>t. (t_sender_id t, t_media_key t)) (filter (\<lambda>t. t_media_key t \<noteq> None) (upd_where p f ts))
      = map (\<lambda>t. (t_sender_id t, t_media_key t)) (filter (\<lambda>t. t_media_key t \<noteq> None) ts)"
    using assms by (induction ts) (auto simp: keyed_def)
  then show "unique_media (upd_where p f ts) = unique_media ts"
    by (simp add: unique_media_def)
qed

lemma wf_tasks_upd:
  assumes "wf_tasks d" "keyed f" "d_tasks d' = upd_where p f (d_tasks d)" "d_seq d' = d_seq d"
  shows "wf_tasks d'"
  using assms by (auto simp: wf_tasks_def upd_ids upd_unique set_upd_where keyed_def)

lemma wf_upd_task [keep_rules]: "wf_db d \<Longrightarrow> keyed f \<Longrightarrow> wf_db (upd_task i f d)"
  using wf_tasks_upd[of d f "upd_task i f d" "\<lambda>t. t_id t = i"]
  by (simp add: wf_db_def wf_refs_def upd_id_set)

lemma charge_release_task [simp]:
  "l_task (release_row n (charge_row n l)) = l_task l"
  "l_user (release_row n (charge_row n l)) = l_user l"
  "l_bytes (release_row n (charge_row n l)) = l_bytes l"
  by (simp_all add: release_row_def charge_row_def)

lemma ledger_tasks_quota_state [simp]:
  "map l_task (d_ledger (quota_state n d)) = map l_task (d_ledger d)"
  by (simp add: quota_state_def map_upd_where)

lemma ids_upd_where: "(\<And>t. t_id (f t) = t_id t) \<Longrightarrow> t_id ` set (upd_where p f ts) = t_id ` set ts"
  using map_upd_where[of ts p t_id f] by (metis set_map)

lemma wf_refs_upd_state:
  assumes "wf_refs d" "\<And>t. t_id (f t) = t_id t"
  shows "wf_refs (upd_state i f d)"
proof (cases "get_task d i")
  case None
  with assms(1) show ?thesis by (simp add: upd_state_def)
next
  case (Some old)
  let ?d = "upd_state i f d"
  have led: "map l_task (d_ledger ?d) = map l_task (d_ledger d)"
    by (simp add: upd_state_def Some)
  then have ledset: "l_task ` set (d_ledger ?d) = l_task ` set (d_ledger d)"
    by (metis set_map)
  have slots: "distinct (d_slots d) \<Longrightarrow> distinct (d_slots ?d)" "set (d_slots ?d) \<subseteq> set (d_slots d)"
    by (auto simp: upd_state_def Some quota_state_def)
  have ids: "t_id ` set (d_tasks ?d) = t_id ` set (d_tasks d)"
    using assms(2) by (simp add: ids_upd_where)
  have ev: "e_task ` set (d_events ?d) \<subseteq> e_task ` set (d_events d) \<union> {i}"
    using Some assms(2) get_task_Some[OF Some]
    by (auto simp: upd_state_def task_state_event_def)
  have "i \<in> t_id ` set (d_tasks d)"
    using get_task_Some[OF Some] by auto
  then show ?thesis
    using assms(1) led ledset slots ids ev unfolding wf_refs_def
    by (auto 0 3)
qed

lemma wf_upd_state [keep_rules]:
  assumes "wf_db d" "keyed f"
  shows "wf_db (upd_state i f d)"
  using assms wf_tasks_upd[of d f "upd_state i f d" "\<lambda>t. t_id t = i"]
    wf_refs_upd_state[of d f i] by (simp add: wf_db_def keyed_id)

text \<open>An assignment that may also change the message number.\<close>

lemma wf_upd_message:
  assumes "wf_db d"
    and f: "\<And>t. t_id (f t) = t_id t \<and> t_sender_id (f t) = t_sender_id t
      \<and> t_media_key (f t) = t_media_key t \<and> t_file_size (f t) = t_file_size t"
    and "unique_message (upd_where (\<lambda>t. t_id t = i) f (d_tasks d))"
  shows "wf_db (upd_state i f d)"
proof -
  let ?ts = "upd_where (\<lambda>t. t_id t = i) f (d_tasks d)"
  have "map t_id ?ts = map t_id (d_tasks d)" using f by (intro map_upd_where) simp
  moreover have "unique_media ?ts = unique_media (d_tasks d)"
  proof -
    have "map (\<lambda>t. (t_sender_id t, t_media_key t)) (filter (\<lambda>t. t_media_key t \<noteq> None) (upd_where p f ts))
        = map (\<lambda>t. (t_sender_id t, t_media_key t)) (filter (\<lambda>t. t_media_key t \<noteq> None) ts)" for p ts
      using f by (induction ts) auto
    then show ?thesis by (simp add: unique_media_def)
  qed
  ultimately have "wf_tasks (upd_state i f d)"
    using assms by (auto simp: wf_tasks_def wf_db_def set_upd_where)
  then show ?thesis using assms(1) f wf_refs_upd_state[of d f i] by (simp add: wf_db_def)
qed

lemma wf_empty_db: "wf_db empty_db"
  by (simp add: wf_db_def wf_tasks_def wf_refs_def empty_db_def unique_message_def unique_media_def)

end
