(* ===== verification/Settings.thy ===== *)
theory Settings
  imports Store
begin

text \<open>
  The two settings records kept as JSON in \<open>service_meta\<close>:
  \<open>src/tg2cloud/persistence/features.py\<close> (optional features) and \<open>persistence/users.py\<close>
  (family grants). Each has a validator that accepts or raises, a reader that checks the
  stored size, and a compare-and-set change guarded by the record's revision.

  A member list of validated grants never contains the administrator or a duplicate, and
  a rejected change leaves the database as it was.
\<close>

section \<open>Optional features\<close>

definition FEATURES_KEY :: ustr where
  "FEATURES_KEY = asc ''optional-features.v1''"

definition MODES :: "ustr list" where
  "MODES = [asc ''off'', asc ''type'', asc ''year'', asc ''month'', asc ''type_month'']"

definition feature_defaults :: "platform \<Rightarrow> (ustr \<times> json) list" where
  "feature_defaults P =
    [(asc ''schema'', JInt 1), (asc ''revision'', JStr (asc ''initial'')),
     (asc ''classification'', JStr (asc ''off'')),
     (asc ''timezone'', JStr (case env_tz P of None \<Rightarrow> default_zone | Some z \<Rightarrow> z)),
     (asc ''notifications'', JBool False), (asc ''recovery_notifications'', JBool True),
     (asc ''cooldown_seconds'', JInt 1800), (asc ''disk_threshold_bytes'', JInt 0),
     (asc ''sustained_seconds'', JInt 300), (asc ''blocked_seconds'', JInt 1800)]"

definition feature_keys :: "ustr list" where
  "feature_keys = [asc ''schema'', asc ''revision'', asc ''classification'', asc ''timezone'',
     asc ''notifications'', asc ''recovery_notifications'', asc ''cooldown_seconds'',
     asc ''disk_threshold_bytes'', asc ''sustained_seconds'', asc ''blocked_seconds'']"

definition str_in :: "json \<Rightarrow> ustr list \<Rightarrow> bool" where
  "str_in j ss = (case as_str j of None \<Rightarrow> False | Some s \<Rightarrow> s \<in> set ss)"

definition zone_ok :: "platform \<Rightarrow> json \<Rightarrow> bool" where
  "zone_ok P j = (case as_str j of None \<Rightarrow> False | Some z \<Rightarrow> z = asc ''UTC'' \<or> zone_known P z)"

definition features_validate :: "platform \<Rightarrow> json \<Rightarrow> exc + json" where
  "features_validate P value =
    (case as_obj value of
       None \<Rightarrow> Inl (ValueError msg_features_shape)
     | Some ms \<Rightarrow>
        let v = jget value in
        if \<not> same_keys ms feature_keys then Inl (ValueError msg_features_shape)
        else if as_int (v (asc ''schema'')) \<noteq> Some 1 then Inl (ValueError msg_features_version)
        else if \<not> hashable (v (asc ''classification'')) then Inl (TypeError [])
        else if \<not> str_in (v (asc ''classification'')) MODES then Inl (ValueError msg_features_version)
        else if (case as_str (v (asc ''revision'')) of None \<Rightarrow> True | Some r \<Rightarrow> 64 < length r)
          then Inl (ValueError msg_features_revision)
        else if as_bool (v (asc ''notifications'')) = None
            \<or> as_bool (v (asc ''recovery_notifications'')) = None
          then Inl (ValueError msg_features_switch)
        else if \<not> (int_in (v (asc ''cooldown_seconds'')) 60 86400
            \<and> int_in (v (asc ''sustained_seconds'')) 30 86400
            \<and> int_in (v (asc ''blocked_seconds'')) 60 604800
            \<and> int_in (v (asc ''disk_threshold_bytes'')) 0 (2 ^ 60))
          then Inl (ValueError msg_features_range)
        else if \<not> zone_ok P (v (asc ''timezone'')) then Inl (ValueError msg_features_zone)
        else Inr value)"

text \<open>Reading a JSON row: the size bound first, then \<open>json.loads\<close>, whose ValueError carries a
  text that is not modelled.\<close>

definition read_meta :: "taskdb \<Rightarrow> ustr \<Rightarrow> nat \<Rightarrow> ustr \<Rightarrow> json \<Rightarrow> (json \<Rightarrow> exc + json) \<Rightarrow> exc + json" where
  "read_meta d key bound too_large dflt check =
    (case d_meta d key of
       None \<Rightarrow> Inr dflt
     | Some (n, parsed) \<Rightarrow>
        if bound < n then Inl (ValueError too_large)
        else (case parsed of None \<Rightarrow> Inl (ValueError []) | Some j \<Rightarrow> check j))"

definition write_meta :: "platform \<Rightarrow> ustr \<Rightarrow> json \<Rightarrow> taskdb \<Rightarrow> taskdb" where
  "write_meta P key j d = d\<lparr>d_meta := (d_meta d)(key \<mapsto> (length (dumps P j), Some j))\<rparr>"

definition features_read :: "platform \<Rightarrow> taskdb \<Rightarrow> exc + json" where
  "features_read P d = read_meta d FEATURES_KEY 4096 msg_features_large
     (JObj (feature_defaults P)) (features_validate P)"

definition features_change ::
  "platform \<Rightarrow> ustr \<Rightarrow> json \<Rightarrow> json \<Rightarrow> taskdb \<Rightarrow> exc + (json \<times> taskdb)" where
  "features_change P token revision updates d =
    (case as_obj updates of
       None \<Rightarrow> Inl (ValueError msg_features_unknown)
     | Some us \<Rightarrow>
        if \<exists>u \<in> set us. fst u \<notin> set feature_keys \<or> fst u \<in> {asc ''schema'', asc ''revision''}
        then Inl (ValueError msg_features_unknown)
        else bindE (features_read P d) (\<lambda>value.
          if jget value (asc ''revision'') \<noteq> revision then Inl (ValueError msg_features_changed)
          else
            let ms = update_members (the (as_obj value)) us;
                value' = JObj (put_member (asc ''revision'') (JStr token) ms)
            in bindE (features_validate P value')
                 (\<lambda>v. Inr (v, write_meta P FEATURES_KEY v d))))"

text \<open>\<open>feature_settings()["timezone"]\<close>.\<close>

definition zone_name :: "json \<Rightarrow> ustr" where
  "zone_name prefs = (case as_str (jget prefs (asc ''timezone'')) of None \<Rightarrow> [] | Some z \<Rightarrow> z)"

section \<open>Family grants\<close>

definition USERS_KEY :: ustr where
  "USERS_KEY = asc ''family-users.v1''"

definition MAX_MEMBERS :: nat where
  "MAX_MEMBERS = 32"

text \<open>\<open>re.fullmatch(r"[1-9][0-9]{0,14}", s)\<close>.\<close>

definition id_text :: "ustr \<Rightarrow> bool" where
  "id_text s \<longleftrightarrow> s \<noteq> [] \<and> hd s \<noteq> 48 \<and> list_all is_digit s \<and> length s \<le> 15"

definition user_id :: "json \<Rightarrow> exc + int" where
  "user_id value = (case value of
     JInt i \<Rightarrow> if id_text (dec i) then Inr i else Inl (ValueError msg_user_id)
   | JStr s \<Rightarrow> if id_text s then Inr (int (undec_nat s)) else Inl (ValueError msg_user_id)
   | _ \<Rightarrow> Inl (ValueError msg_user_id))"

definition name_ok :: "json \<Rightarrow> bool" where
  "name_ok j = (case as_str j of None \<Rightarrow> False
     | Some s \<Rightarrow> 1 \<le> length s \<and> length s \<le> 40 \<and> list_all (\<lambda>c. 32 \<le> c \<and> c \<noteq> 127) s)"

definition hex32 :: "ustr \<Rightarrow> bool" where
  "hex32 s \<longleftrightarrow> length s = 32 \<and> list_all (\<lambda>c. is_digit c \<or> (97 \<le> c \<and> c \<le> 102)) s"

definition ACTIONS :: "ustr list" where
  "ACTIONS = [asc ''add'', asc ''enable'', asc ''disable'', asc ''remove'']"

text \<open>The loop over the members, with the set of identities already seen.\<close>

fun check_members :: "int list \<Rightarrow> json list \<Rightarrow> exc + unit" where
  "check_members seen [] = Inr ()"
| "check_members seen (m # ms) =
    (case as_obj m of
       None \<Rightarrow> Inl (ValueError msg_users_member)
     | Some fs \<Rightarrow>
        if \<not> same_keys fs [asc ''id'', asc ''name'', asc ''enabled'']
          \<or> as_bool (jget m (asc ''enabled'')) = None \<or> as_int (jget m (asc ''id'')) = None
        then Inl (ValueError msg_users_member)
        else bindE (user_id (jget m (asc ''id''))) (\<lambda>i.
          if i \<in> set seen \<or> \<not> name_ok (jget m (asc ''name''))
          then Inl (ValueError msg_users_member)
          else check_members (i # seen) ms))"

fun check_events :: "int \<Rightarrow> json list \<Rightarrow> exc + unit" where
  "check_events admin [] = Inr ()"
| "check_events admin (e # es) =
    (case as_obj e of
       None \<Rightarrow> Inl (ValueError msg_users_event)
     | Some fs \<Rightarrow>
        if \<not> same_keys fs [asc ''id'', asc ''action'', asc ''at'']
          \<or> as_int (jget e (asc ''id'')) = None
        then Inl (ValueError msg_users_event)
        else bindE (user_id (jget e (asc ''id''))) (\<lambda>i.
          if i = admin then Inl (ValueError msg_users_event)
          else if \<not> hashable (jget e (asc ''action'')) then Inl (TypeError [])
          else if \<not> str_in (jget e (asc ''action'')) ACTIONS
            \<or> (case as_int (jget e (asc ''at'')) of None \<Rightarrow> True | Some t \<Rightarrow> t < 0)
          then Inl (ValueError msg_users_event)
          else check_events admin es))"

definition users_validate :: "int \<Rightarrow> json \<Rightarrow> exc + json" where
  "users_validate admin item =
    (case as_obj item of
       None \<Rightarrow> Inl (ValueError msg_users_shape)
     | Some fs \<Rightarrow>
        let v = jget item in
        if \<not> same_keys fs [asc ''schema'', asc ''admin_id'', asc ''revision'', asc ''users'', asc ''events'']
          \<or> as_int (v (asc ''schema'')) \<noteq> Some 1 \<or> as_int (v (asc ''admin_id'')) \<noteq> Some admin
          \<or> (case as_str (v (asc ''revision'')) of None \<Rightarrow> True
               | Some r \<Rightarrow> \<not> (hex32 r \<or> r = asc ''initial''))
          \<or> (case as_arr (v (asc ''users'')) of None \<Rightarrow> True | Some us \<Rightarrow> MAX_MEMBERS < length us)
          \<or> (case as_arr (v (asc ''events'')) of None \<Rightarrow> True | Some es \<Rightarrow> 100 < length es)
        then Inl (ValueError msg_users_shape)
        else bindE (check_members [admin] (the (as_arr (v (asc ''users''))))) (\<lambda>_.
          bindE (check_events admin (the (as_arr (v (asc ''events''))))) (\<lambda>_. Inr item)))"

definition users_record :: "int \<Rightarrow> ustr \<Rightarrow> json list \<Rightarrow> json list \<Rightarrow> json" where
  "users_record admin rv us es = JObj [(asc ''schema'', JInt 1), (asc ''admin_id'', JInt admin),
     (asc ''revision'', JStr rv), (asc ''users'', JArr us), (asc ''events'', JArr es)]"

definition users_read :: "int \<Rightarrow> taskdb \<Rightarrow> exc + json" where
  "users_read admin d = read_meta d USERS_KEY 32768 msg_users_large
     (users_record admin (asc ''initial'') [] []) (users_validate admin)"

definition member_json :: "int \<Rightarrow> json \<Rightarrow> bool \<Rightarrow> json" where
  "member_json i name on =
     JObj [(asc ''id'', JInt i), (asc ''name'', name), (asc ''enabled'', JBool on)]"

definition member_id :: "json \<Rightarrow> json" where
  "member_id m = jget m (asc ''id'')"

definition set_enabled :: "bool \<Rightarrow> json \<Rightarrow> json" where
  "set_enabled on m = (case as_obj m of None \<Rightarrow> m
     | Some fs \<Rightarrow> JObj (put_member (asc ''enabled'') (JBool on) fs))"

fun change_first :: "('a \<Rightarrow> bool) \<Rightarrow> ('a \<Rightarrow> 'a) \<Rightarrow> 'a list \<Rightarrow> 'a list" where
  "change_first p f [] = []"
| "change_first p f (x # xs) = (if p x then f x # xs else x # change_first p f xs)"

text \<open>The member list after the action; the errors of the \<open>if\<close> chain.\<close>

definition apply_action :: "ustr \<Rightarrow> int \<Rightarrow> json \<Rightarrow> json list \<Rightarrow> exc + json list" where
  "apply_action action i name us =
    (let member = find (\<lambda>m. member_id m = JInt i) us in
     if action = asc ''add'' then
       (if member \<noteq> None \<or> MAX_MEMBERS \<le> length us then Inl (ValueError msg_users_full)
        else Inr (us @ [member_json i name True]))
     else (case member of
         None \<Rightarrow> Inl (ValueError msg_users_missing)
       | Some m \<Rightarrow>
          if action = asc ''remove'' then Inr (remove1 m us)
          else Inr (change_first (\<lambda>x. member_id x = JInt i)
                      (set_enabled (action = asc ''enable'')) us)))"

text \<open>\<open>item["events"][-99:]\<close>.\<close>

definition last_99 :: "'a list \<Rightarrow> 'a list" where
  "last_99 xs = drop (length xs - 99) xs"

definition users_change ::
  "platform \<Rightarrow> ustr \<Rightarrow> rat \<Rightarrow> int \<Rightarrow> json \<Rightarrow> taskdb \<Rightarrow> exc + (json \<times> taskdb)" where
  "users_change P token now admin request d =
    (let action = jget request (asc ''action'') in
     if \<not> hashable action then Inl (TypeError [])
     else if \<not> str_in action ACTIONS then Inl (ValueError msg_users_action)
     else bindE (user_id (jget request (asc ''id''))) (\<lambda>i.
       if i = admin then Inl (ValueError msg_users_admin)
       else bindE (users_read admin d) (\<lambda>item.
         if jget request (asc ''revision'') \<noteq> jget item (asc ''revision'')
         then Inl (ValueError msg_users_changed)
         else
           let act = the (as_str action);
               name = (case jfind request (asc ''name'') of
                         None \<Rightarrow> JStr default_member_name | Some n \<Rightarrow> n);
               us = the (as_arr (jget item (asc ''users'')));
               es = the (as_arr (jget item (asc ''events'')))
           in bindE (apply_action act i name us) (\<lambda>us'.
              let ev = JObj [(asc ''id'', JInt i), (asc ''action'', JStr act), (asc ''at'', JInt \<lfloor>now\<rfloor>)];
                  item' = JObj (put_member (asc ''events'') (JArr (last_99 es @ [ev]))
                     (put_member (asc ''revision'') (JStr token)
                       (put_member (asc ''users'') (JArr us') (the (as_obj item)))))
              in bindE (users_validate admin item') (\<lambda>v. Inr (v, write_meta P USERS_KEY v d))))))"

text \<open>Whether a user may use the bot: \<open>_authorized\<close> in \<open>telegram/handlers.py\<close>.\<close>

definition member_enabled :: "json \<Rightarrow> int \<Rightarrow> bool" where
  "member_enabled item i = (case as_arr (jget item (asc ''users'')) of None \<Rightarrow> False
     | Some us \<Rightarrow> list_ex (\<lambda>m. member_id m = JInt i \<and> jget m (asc ''enabled'') = JBool True) us)"

definition authorized :: "int \<Rightarrow> taskdb \<Rightarrow> int option \<Rightarrow> bool" where
  "authorized admin d sender = (case sender of
     None \<Rightarrow> False
   | Some i \<Rightarrow> i = admin \<or> (0 < i \<and> (case users_read admin d of
         Inl e \<Rightarrow> False | Inr item \<Rightarrow> member_enabled item i)))"

section \<open>Lemmas\<close>

lemma jget_put: "jget (JObj (put_member k v ms)) k' = (if k' = k then v else jget (JObj ms) k')"
  by (simp add: jget_def jfind_def)

lemma read_write_meta:
  assumes "length (dumps P j) \<le> bound"
  shows "read_meta (write_meta P key j d) key bound e dflt check = check j"
  using assms by (simp add: read_meta_def write_meta_def)

lemma user_id_int: "user_id (JInt i) = Inr k \<Longrightarrow> k = i \<and> 0 < i"
  by (auto simp: user_id_def id_text_def dec_def is_digit_def split: if_splits)
    (metis dec_nat.simps is_digit_def less_numeral_extra(3) list.sel(1) nat_0
      add.right_neutral not_less_iff_gr_or_eq zero_less_numeral)

lemma users_validate_same: "users_validate admin j = Inr v \<Longrightarrow> v = j"
  by (auto simp: users_validate_def Let_def bindE_Inr split: option.splits if_splits)

lemma features_validate_same: "features_validate P j = Inr v \<Longrightarrow> v = j"
  by (auto simp: features_validate_def Let_def split: option.splits if_splits)

text \<open>A list of members that passes the loop has distinct positive identities, none seen before.\<close>

lemma check_members_ids:
  "check_members seen ms = Inr () \<Longrightarrow>
    \<exists>ids. map member_id ms = map JInt ids \<and> distinct ids \<and> set ids \<inter> set seen = {}
      \<and> (\<forall>i \<in> set ids. 0 < i) \<and> (\<forall>m \<in> set ms. as_obj m \<noteq> None)"
proof (induction ms arbitrary: seen)
  case (Cons m ms)
  from Cons.prems obtain fs i where m: "as_obj m = Some fs" "as_int (jget m (asc ''id'')) = Some i"
    by (auto split: option.splits if_splits)
  obtain k where k: "user_id (jget m (asc ''id'')) = Inr k" "k \<notin> set seen"
      "check_members (k # seen) ms = Inr ()"
    using Cons.prems m by (auto simp: bindE_Inr split: if_splits)
  from m k have ki: "k = i" "0 < i" using user_id_int by (auto simp: as_int_Some)
  obtain ids where ids: "map member_id ms = map JInt ids" "distinct ids"
      "set ids \<inter> set (k # seen) = {}" "\<forall>i \<in> set ids. 0 < i" "\<forall>m \<in> set ms. as_obj m \<noteq> None"
    using Cons.IH[OF k(3)] by blast
  have "member_id m = JInt i" using m(2) by (simp add: member_id_def as_int_Some)
  then show ?case using ids m(1) k(2) ki
    by (intro exI[of _ "i # ids"]) auto
qed simp

lemma users_validate_ids:
  assumes "users_validate admin j = Inr v"
  obtains us ids where "jget j (asc ''users'') = JArr us" "map member_id us = map JInt ids"
    "distinct ids" "admin \<notin> set ids" "\<forall>i \<in> set ids. 0 < i" "\<forall>m \<in> set us. as_obj m \<noteq> None"
proof -
  from assms obtain us where us: "as_arr (jget j (asc ''users'')) = Some us"
    "check_members [admin] us = Inr ()"
    by (auto simp: users_validate_def Let_def bindE_Inr split: option.splits if_splits)
  from check_members_ids[OF us(2)] us(1) show ?thesis
    by (auto simp: as_arr_Some intro: that)
qed

text \<open>The first member found, and the list around it.\<close>

lemma find_split:
  assumes "find p us = Some m"
  obtains xs ys where "us = xs @ m # ys" "\<forall>x \<in> set xs. \<not> p x" "p m"
    "change_first p f us = xs @ f m # ys" "remove1 m us = xs @ ys"
  using assms
proof (induction us arbitrary: thesis)
  case (Cons x us)
  show ?case
  proof (cases "p x")
    case True
    with Cons.prems show ?thesis by (intro Cons.prems(1)[of "[]" us]) auto
  next
    case False
    with Cons.prems(2) have "find p us = Some m" by simp
    then obtain xs ys where "us = xs @ m # ys" "\<forall>x \<in> set xs. \<not> p x" "p m"
      "change_first p f us = xs @ f m # ys" "remove1 m us = xs @ ys"
      using Cons.IH by blast
    with False show ?thesis by (intro Cons.prems(1)[of "x # xs" ys]) auto
  qed
qed simp

definition enabled_in :: "json list \<Rightarrow> int \<Rightarrow> bool" where
  "enabled_in us i = list_ex (\<lambda>m. member_id m = JInt i \<and> jget m (asc ''enabled'') = JBool True) us"

lemma enabled_in_simps [simp]:
  "enabled_in [] i = False"
  "enabled_in (m # us) i =
     ((member_id m = JInt i \<and> jget m (asc ''enabled'') = JBool True) \<or> enabled_in us i)"
  "enabled_in (us @ vs) i = (enabled_in us i \<or> enabled_in vs i)"
  by (simp_all add: enabled_in_def)

lemma enabled_in_absent: "JInt i \<notin> member_id ` set us \<Longrightarrow> \<not> enabled_in us i"
  by (induction us) auto

lemma member_json_get:
  "member_id (member_json i name on) = JInt i"
  "jget (member_json i name on) (asc ''enabled'') = JBool on"
  by (simp_all add: member_json_def member_id_def jget_def jfind_def asc_def)

lemma set_enabled_get:
  assumes "as_obj m \<noteq> None"
  shows "member_id (set_enabled on m) = member_id m"
    and "jget (set_enabled on m) (asc ''enabled'') = JBool on"
proof -
  from assms obtain fs where "m = JObj fs" by (auto simp: as_obj_Some)
  then show "member_id (set_enabled on m) = member_id m"
    and "jget (set_enabled on m) (asc ''enabled'') = JBool on"
    by (simp_all add: set_enabled_def member_id_def jget_put) (simp add: asc_def)
qed

lemma apply_action_enabled:
  assumes ap: "apply_action act i name us = Inr us'" and act: "act \<in> set ACTIONS"
    and ids: "map member_id us = map JInt ids" "distinct ids" "\<forall>m \<in> set us. as_obj m \<noteq> None"
  shows "enabled_in us' j =
    (if j = i then act \<in> {asc ''add'', asc ''enable''} else enabled_in us j)"
proof (cases "act = asc ''add''")
  case True
  with ap have us': "us' = us @ [member_json i name True]"
    by (auto simp: apply_action_def Let_def split: if_splits)
  with True show ?thesis by (simp add: member_json_get)
next
  case False
  with ap obtain m where m: "find (\<lambda>m. member_id m = JInt i) us = Some m"
    and us': "us' = (if act = asc ''remove'' then remove1 m us
        else change_first (\<lambda>x. member_id x = JInt i) (set_enabled (act = asc ''enable'')) us)"
    by (auto simp: apply_action_def Let_def split: option.splits if_splits)
  obtain xs ys where sp: "us = xs @ m # ys" "member_id m = JInt i"
    "change_first (\<lambda>x. member_id x = JInt i) (set_enabled (act = asc ''enable'')) us
      = xs @ set_enabled (act = asc ''enable'') m # ys"
    "remove1 m us = xs @ ys"
    by (rule find_split[OF m, where f = "set_enabled (act = asc ''enable'')"]) auto
  have "distinct (map member_id us)"
    using ids(1,2) by (simp add: distinct_map inj_on_def)
  then have "JInt i \<notin> member_id ` set xs" "JInt i \<notin> member_id ` set ys"
    using sp(1,2) by (auto simp: image_iff)
  then have no: "\<not> enabled_in xs i" "\<not> enabled_in ys i"
    by (simp_all add: enabled_in_absent)
  have obj: "as_obj m \<noteq> None" using ids(3) sp(1) by simp
  have "act \<in> {asc ''remove'', asc ''enable'', asc ''disable''}"
    using act False by (auto simp: ACTIONS_def)
  then show ?thesis
    using us' sp no set_enabled_get[OF obj, of "act = asc ''enable''"] False
    by (auto simp: asc_def split: if_splits)
qed

text \<open>What a successful read returns: an array of members with distinct identities.\<close>

lemma users_read_ids:
  assumes "users_read admin d = Inr item"
  obtains us ids where "jget item (asc ''users'') = JArr us" "map member_id us = map JInt ids"
    "distinct ids" "admin \<notin> set ids" "\<forall>i \<in> set ids. 0 < i" "\<forall>m \<in> set us. as_obj m \<noteq> None"
proof (cases "d_meta d USERS_KEY")
  case None
  with assms have "item = users_record admin (asc ''initial'') [] []"
    by (simp add: users_read_def read_meta_def)
  then have "jget item (asc ''users'') = JArr []"
    by (simp add: users_record_def jget_def jfind_def asc_def)
  then show ?thesis by (rule that[where ids = "[]"]) simp_all
next
  case (Some r)
  with assms obtain j where "users_validate admin j = Inr item"
    by (auto simp: users_read_def read_meta_def split: prod.splits if_splits option.splits)
  with users_validate_same[OF this] show ?thesis
    using users_validate_ids[of admin j item] that by metis
qed

lemma users_change_parts:
  assumes "users_change P token now admin request d = Inr (v, d')"
  obtains act i item us us' name where
    "jget request (asc ''action'') = JStr act" "act \<in> set ACTIONS"
    "user_id (jget request (asc ''id'')) = Inr i" "i \<noteq> admin"
    "users_read admin d = Inr item" "jget request (asc ''revision'') = jget item (asc ''revision'')"
    "jget item (asc ''users'') = JArr us" "apply_action act i name us = Inr us'"
    "jget v (asc ''users'') = JArr us'" "jget v (asc ''revision'') = JStr token"
    "users_validate admin v = Inr v" "d' = write_meta P USERS_KEY v d"
proof -
  from assms obtain act where act: "jget request (asc ''action'') = JStr act" "act \<in> set ACTIONS"
    by (cases "jget request (asc ''action'')")
      (auto simp: users_change_def Let_def str_in_def split: if_splits)
  with assms obtain i where i: "user_id (jget request (asc ''id'')) = Inr i" "i \<noteq> admin"
    by (auto simp: users_change_def Let_def str_in_def bindE_Inr split: if_splits)
  with act assms obtain item where item: "users_read admin d = Inr item"
      "jget request (asc ''revision'') = jget item (asc ''revision'')"
    by (auto simp: users_change_def Let_def str_in_def bindE_Inr split: if_splits)
  obtain us where us: "jget item (asc ''users'') = JArr us"
    using users_read_ids[OF item(1)] by metis
  let ?name = "case jfind request (asc ''name'') of None \<Rightarrow> JStr default_member_name | Some n \<Rightarrow> n"
  from act i item us assms obtain us' ms ev where
    ap: "apply_action act i ?name us = Inr us'" and
    v: "users_validate admin (JObj (put_member (asc ''events'') ev
       (put_member (asc ''revision'') (JStr token) (put_member (asc ''users'') (JArr us') ms)))) = Inr v"
    and d': "d' = write_meta P USERS_KEY v d"
    by (auto simp: users_change_def Let_def str_in_def bindE_Inr split: if_splits)
  from users_validate_same[OF v] have v_eq: "v = JObj (put_member (asc ''events'') ev
       (put_member (asc ''revision'') (JStr token) (put_member (asc ''users'') (JArr us') ms)))" .
  have "jget v (asc ''users'') = JArr us'" "jget v (asc ''revision'') = JStr token"
    unfolding v_eq by (simp_all add: jget_put asc_def)
  with act i item us ap d' v v_eq show ?thesis using that by metis
qed

lemma member_enabled_in:
  "jget item (asc ''users'') = JArr us \<Longrightarrow> member_enabled item i = enabled_in us i"
  by (simp add: member_enabled_def enabled_in_def)

end
