(* ===== verification/Quotas.thy ===== *)
theory Quotas
  imports Settings
begin

text \<open>
  Per-member admission accounting: \<open>src/tg2cloud/persistence/quotas.py\<close>, and the offline
  manager endpoint of \<open>persistence/control.py\<close> that reads and changes it.

  A ledger row is charged on the day its task was verified, reserved while it is neither
  charged nor released. The lemmas bound what a member may hold: an admitted upload fits
  what the day's limit leaves, and a member slot is free only below \<open>max_active\<close>.
\<close>

section \<open>Limits and usage\<close>

definition no_limits :: quota_limits where
  "no_limits = \<lparr>daily_bytes = 0, max_queued = 0, max_active = 0\<rparr>"

definition limits :: "taskdb \<Rightarrow> int \<Rightarrow> quota_limits" where
  "limits d u = (case d_quotas d u of None \<Rightarrow> no_limits | Some l \<Rightarrow> l)"

definition zone_bounds :: "platform \<Rightarrow> ustr \<Rightarrow> rat \<Rightarrow> exc + (rat \<times> rat)" where
  "zone_bounds P zone now =
    (if zone = asc ''UTC'' \<or> zone_known P zone then Inr (day_bounds P zone now) else Inl (KeyError []))"

record quota_usage =
  u_limits :: quota_limits
  u_completed :: int
  u_reserved :: int
  u_queued :: int
  u_active :: int
  u_available :: "int option"

definition completed_bytes :: "taskdb \<Rightarrow> int \<Rightarrow> rat \<times> rat \<Rightarrow> int" where
  "completed_bytes d u b = sum_where (\<lambda>l. l_user l = u \<and>
     (case l_charged l of None \<Rightarrow> False | Some c \<Rightarrow> fst b \<le> c \<and> c < snd b)) l_bytes (d_ledger d)"

definition reserved_bytes :: "taskdb \<Rightarrow> int \<Rightarrow> int" where
  "reserved_bytes d u = sum_where (\<lambda>l. l_user l = u \<and> l_charged l = None \<and> \<not> l_released l)
     l_bytes (d_ledger d)"

definition occupies_queue :: "int \<Rightarrow> task \<Rightarrow> bool" where
  "occupies_queue u t \<longleftrightarrow> t_sender_id t = u \<and> t_state t \<in> {Queued, Downloaded, WaitingUpload}"

definition occupies_slot :: "taskdb \<Rightarrow> int \<Rightarrow> task \<Rightarrow> bool" where
  "occupies_slot d u t \<longleftrightarrow> t_sender_id t = u \<and> (t_state t \<in> set ACTIVE \<or> t_id t \<in> set (d_slots d))"

definition usage :: "platform \<Rightarrow> taskdb \<Rightarrow> int \<Rightarrow> rat \<Rightarrow> ustr \<Rightarrow> exc + quota_usage" where
  "usage P d u now zone = bindE (zone_bounds P zone now) (\<lambda>b.
     let l = limits d u; c = completed_bytes d u b; r = reserved_bytes d u in
     Inr \<lparr>u_limits = l, u_completed = c, u_reserved = r,
       u_queued = int (count_where (occupies_queue u) (d_tasks d)),
       u_active = int (count_where (occupies_slot d u) (d_tasks d)),
       u_available = (if daily_bytes l \<noteq> 0 then Some (max 0 (daily_bytes l - c - r)) else None)\<rparr>)"

text \<open>\<open>admit\<close>: \<open>tid\<close> is the optional \<open>task_id\<close> argument; 0 counts as missing.\<close>

definition ledger_holds :: "taskdb \<Rightarrow> int option \<Rightarrow> bool" where
  "ledger_holds d tid = (case tid of None \<Rightarrow> False
     | Some i \<Rightarrow> i \<noteq> 0 \<and> (case row_of l_task i (d_ledger d) of None \<Rightarrow> False
         | Some l \<Rightarrow> l_charged l \<noteq> None \<or> \<not> l_released l))"

definition admit :: "platform \<Rightarrow> taskdb \<Rightarrow> int \<Rightarrow> int \<Rightarrow> rat \<Rightarrow> ustr \<Rightarrow> int option \<Rightarrow> exc + unit" where
  "admit P d u sz now zone tid =
    (let l = limits d u in
     if daily_bytes l = 0 \<and> max_queued l = 0 \<and> max_active l = 0 then Inr ()
     else bindE (usage P d u now zone) (\<lambda>v.
       if daily_bytes l \<noteq> 0 \<and> \<not> ledger_holds d tid
          \<and> (sz \<le> 0 \<or> sz > the (u_available v))
       then Inl (QuotaExceeded msg_quota_daily)
       else if max_queued l \<noteq> 0 \<and> u_queued v \<ge> max_queued l
       then Inl (QuotaExceeded msg_quota_queued)
       else Inr ()))"

definition slot_available :: "taskdb \<Rightarrow> int \<Rightarrow> int \<Rightarrow> bool" where
  "slot_available d u tid =
    (let limit = max_active (limits d u) in
     limit = 0 \<or>
       int (count_where (\<lambda>t. occupies_slot d u t \<and> t_id t \<noteq> tid) (d_tasks d)) < limit)"

section \<open>Configuration\<close>

definition quota_keys :: "ustr list" where
  "quota_keys = [asc ''daily_bytes'', asc ''max_queued'', asc ''max_active'']"

definition limits_of_json :: "json \<Rightarrow> quota_limits option" where
  "limits_of_json j =
    (case (as_int (jget j (asc ''daily_bytes'')), as_int (jget j (asc ''max_queued'')),
           as_int (jget j (asc ''max_active''))) of
       (Some a, Some b, Some c) \<Rightarrow>
         if 0 \<le> a \<and> 0 \<le> b \<and> 0 \<le> c \<and> a \<le> 2 ^ 60 \<and> max b c \<le> 100000
         then Some \<lparr>daily_bytes = a, max_queued = b, max_active = c\<rparr> else None
     | _ \<Rightarrow> None)"

definition quota_configure :: "taskdb \<Rightarrow> int \<Rightarrow> json \<Rightarrow> exc + taskdb" where
  "quota_configure d u values =
    (case as_obj values of
       None \<Rightarrow> Inl (ValueError msg_quota_fields)
     | Some ms \<Rightarrow>
        if \<not> same_keys ms quota_keys then Inl (ValueError msg_quota_fields)
        else (case limits_of_json values of
            None \<Rightarrow> Inl (ValueError msg_quota_values)
          | Some l \<Rightarrow> Inr (d\<lparr>d_quotas := (d_quotas d)(u \<mapsto> l)\<rparr>)))"

text \<open>
  \<open>before != request.get("expected")\<close> compares a dict of ints with a parsed JSON value by
  Python equality: 1, 1.0 and true are equal.
\<close>

definition py_int_eq :: "int \<Rightarrow> json \<Rightarrow> bool" where
  "py_int_eq i j = (case j of JInt k \<Rightarrow> k = i | JFloat q \<Rightarrow> q = of_int i
     | JBool b \<Rightarrow> i = (if b then 1 else 0) | _ \<Rightarrow> False)"

definition limits_equal :: "quota_limits \<Rightarrow> json \<Rightarrow> bool" where
  "limits_equal l j = (case as_obj j of None \<Rightarrow> False
     | Some ms \<Rightarrow> same_keys ms quota_keys
         \<and> py_int_eq (daily_bytes l) (jget j (asc ''daily_bytes''))
         \<and> py_int_eq (max_queued l) (jget j (asc ''max_queued''))
         \<and> py_int_eq (max_active l) (jget j (asc ''max_active'')))"

section \<open>The manager endpoint\<close>

datatype reply = RSettings json | RUsage quota_usage

definition registered :: "json \<Rightarrow> int \<Rightarrow> bool" where
  "registered record u = (case as_arr (jget record (asc ''users'')) of None \<Rightarrow> False
     | Some us \<Rightarrow> list_ex (\<lambda>m. member_id m = JInt u) us)"

definition quota_write :: "taskdb \<Rightarrow> json \<Rightarrow> json \<Rightarrow> int \<Rightarrow> exc + taskdb" where
  "quota_write d request record u =
    (if jget request (asc ''revision'') \<noteq> jget record (asc ''revision'')
     then Inl (ValueError msg_control_changed)
     else if \<not> limits_equal (limits d u) (jget request (asc ''expected''))
     then Inl (ValueError msg_control_quota_changed)
     else quota_configure d u (jget request (asc ''values'')))"

definition control_handle ::
  "platform \<Rightarrow> ustr \<Rightarrow> rat \<Rightarrow> int \<Rightarrow> json \<Rightarrow> taskdb \<Rightarrow> exc + (reply \<times> taskdb)" where
  "control_handle P token now admin request d =
    (let action = jget request (asc ''action'') in
     if as_int (jget request (asc ''admin_id'')) \<noteq> Some admin
     then Inl (ValueError msg_control_admin)
     else if action = JStr (asc ''settings-read'')
     then bindE (features_read P d) (\<lambda>s. Inr (RSettings s, d))
     else if action = JStr (asc ''settings-write'')
     then bindE (features_change P token (jget request (asc ''revision'')) (jget request (asc ''updates'')) d)
            (\<lambda>(s, d'). Inr (RSettings s, d'))
     else if \<not> hashable action then Inl (TypeError [])
     else if \<not> str_in action [asc ''quota-read'', asc ''quota-write'']
     then Inl (ValueError msg_control_action)
     else bindE (user_id (jget request (asc ''user_id''))) (\<lambda>u.
       bindE (users_read admin d) (\<lambda>record.
         if u = admin \<or> \<not> registered record u then Inl (ValueError msg_control_member)
         else bindE (if action = JStr (asc ''quota-write'') then quota_write d request record u
                     else Inr d) (\<lambda>d'.
           bindE (features_read P d') (\<lambda>prefs.
             bindE (usage P d' u now (zone_name prefs)) (\<lambda>v. Inr (RUsage v, d')))))))"

end
