(* ===== verification/Classification.thy ===== *)
theory Classification
  imports Settings
begin

text \<open>
  Managed sub-directories: \<open>src/tg2cloud/domain/classification.py\<close> and
  \<open>domain/source_directories.py\<close>.

  A stored directory is a relative path whose components are never empty, a dot or two
  dots. The lemmas show that such a path cannot leave the base directory, and that a folder
  name made for a source can always be extended by a media type.
  \<open>year_of\<close> and \<open>month_of\<close> are \<open>strftime\<close> of \<open>%Y\<close> and \<open>%m\<close>: digit strings, so that
  \<open>PurePosixPath\<close> joins the parts with a slash and changes nothing.
\<close>

section \<open>Media types\<close>

definition EXTENSIONS :: "(ustr \<times> ustr list) list" where
  "EXTENSIONS = [
     (lbl_video, [asc ''.mp4'', asc ''.mkv'', asc ''.mov'', asc ''.avi'', asc ''.webm'',
        asc ''.m4v'', asc ''.ts'', asc ''.flv'']),
     (lbl_image, [asc ''.jpg'', asc ''.jpeg'', asc ''.png'', asc ''.gif'', asc ''.webp'',
        asc ''.heic'', asc ''.avif'', asc ''.bmp'']),
     (lbl_audio, [asc ''.mp3'', asc ''.flac'', asc ''.m4a'', asc ''.wav'', asc ''.ogg'',
        asc ''.opus'', asc ''.aac'']),
     (lbl_document, [asc ''.pdf'', asc ''.txt'', asc ''.md'', asc ''.doc'', asc ''.docx'',
        asc ''.xls'', asc ''.xlsx'', asc ''.ppt'', asc ''.pptx'', asc ''.epub'', asc ''.csv'']),
     (lbl_archive, [asc ''.zip'', asc ''.rar'', asc ''.7z'', asc ''.gz'', asc ''.bz2'',
        asc ''.xz'', asc ''.tar'', asc ''.zst''])]"

definition media_type :: "platform \<Rightarrow> ustr \<Rightarrow> ustr \<Rightarrow> ustr \<Rightarrow> ustr" where
  "media_type P kind mime ext =
    (if kind \<in> {lbl_video, lbl_image, lbl_audio} then kind
     else if starts_with mime (asc ''video/'') then lbl_video
     else if starts_with mime (asc ''image/'') then lbl_image
     else if starts_with mime (asc ''audio/'') then lbl_audio
     else if mime \<in> {asc ''application/pdf'', asc ''text/plain'', asc ''application/epub+zip''}
     then lbl_document
     else if mime \<in> {asc ''application/zip'', asc ''application/x-7z-compressed'',
        asc ''application/vnd.rar'', asc ''application/gzip''}
     then lbl_archive
     else (case find (\<lambda>(label, exts). lower P ext \<in> set exts) EXTENSIONS of
         Some (label, exts) \<Rightarrow> label
       | None \<Rightarrow> lbl_other))"

section \<open>Safe directories\<close>

definition DOT :: ustr where "DOT = [46]"
definition DOTDOT :: ustr where "DOTDOT = [46, 46]"

text \<open>Encoding a surrogate raises UnicodeEncodeError, a ValueError, before the other tests.\<close>

definition safe_directory :: "platform \<Rightarrow> ustr \<Rightarrow> exc + ustr" where
  "safe_directory P path =
    (if nfc P path \<noteq> path then Inl (ValueError msg_directory)
     else if list_ex is_surrogate path then Inl (ValueError [])
     else if 128 < utf8_len path
        \<or> 92 \<in> set path \<or> 58 \<in> set path \<or> 37 \<in> set path \<or> starts_with path [47]
        \<or> list_ex (\<lambda>c. c < 32 \<or> c = 127) path
        \<or> (path \<noteq> [] \<and> list_ex (\<lambda>p. p \<in> {[], DOT, DOTDOT}) (split_on 47 path))
     then Inl (ValueError msg_directory)
     else Inr path)"

definition directory :: "platform \<Rightarrow> json \<Rightarrow> rat \<Rightarrow> ustr \<Rightarrow> ustr \<Rightarrow> ustr \<Rightarrow> exc + ustr" where
  "directory P preferences created_at kind mime ext =
    (case jfind preferences (asc ''classification'') of
       None \<Rightarrow> Inl (KeyError (asc ''classification''))
     | Some mode \<Rightarrow>
        if \<not> hashable mode then Inl (TypeError [])
        else if \<not> str_in mode MODES then Inl (ValueError msg_mode)
        else let m = the (as_str mode) in
          if m = asc ''off'' then Inr []
          else
            let types = (if m \<in> {asc ''type'', asc ''type_month''}
                         then [media_type P kind mime ext] else []) in
            if m \<in> {asc ''year'', asc ''month'', asc ''type_month''} then
              (case jfind preferences (asc ''timezone'') of
                 None \<Rightarrow> Inl (KeyError (asc ''timezone''))
               | Some zone \<Rightarrow>
                  if \<not> zone_ok P zone then Inl (KeyError [])
                  else let z = the (as_str zone);
                           parts = types @ [year_of P z created_at]
                             @ (if m \<noteq> asc ''year'' then [month_of P z created_at] else [])
                       in safe_directory P (join_with [47] parts))
            else safe_directory P (join_with [47] types))"

text \<open>\<open>check_scope\<close>: \<open>target\<close> is \<open>settings.cd2_target\<close>.\<close>

definition check_scope :: "platform \<Rightarrow> task \<Rightarrow> ustr \<Rightarrow> exc + unit" where
  "check_scope P t target = bindE (safe_directory P (t_target_directory t)) (\<lambda>_.
     case t_target_base t of
       None \<Rightarrow> Inr ()
     | Some base \<Rightarrow> if base \<noteq> target then Inl (ValueError msg_scope) else Inr ())"

section \<open>Source folders\<close>

definition MAX_COLUMNS :: nat where "MAX_COLUMNS = 60"
definition MAX_BYTES :: nat where "MAX_BYTES = 112"

definition columns :: "platform \<Rightarrow> ustr \<Rightarrow> nat" where
  "columns P s = sum_list (map (\<lambda>c. if category P c = UM then 0 else if wide P c then 2 else 1) s)"

text \<open>\<open>re.sub(r"[0-9#*]\ufe0f?\u20e3", "", text)\<close>: key-cap sequences.\<close>

fun drop_keycaps :: "ustr \<Rightarrow> ustr" where
  "drop_keycaps [] = []"
| "drop_keycaps (c # s) =
    (if is_digit c \<or> c = 35 \<or> c = 42 then
       (case s of
          x # y # r \<Rightarrow> if x = 8419 then drop_keycaps (y # r)
                       else if x = 65039 \<and> y = 8419 then drop_keycaps r
                       else c # drop_keycaps s
        | [x] \<Rightarrow> if x = 8419 then [] else c # drop_keycaps s
        | [] \<Rightarrow> [c])
     else c # drop_keycaps s)"

definition dropped_char :: "platform \<Rightarrow> nat \<Rightarrow> bool" where
  "dropped_char P c \<longleftrightarrow> (126976 \<le> c \<and> c \<le> 129791) \<or> (9728 \<le> c \<and> c \<le> 10175)
     \<or> (65024 \<le> c \<and> c \<le> 65039) \<or> (917504 \<le> c \<and> c \<le> 917999)
     \<or> c \<in> set emoji_symbols \<or> category P c \<in> {UCf, UCs, UCo, UCn}"

definition clean_char :: "platform \<Rightarrow> nat \<Rightarrow> nat" where
  "clean_char P c = (if space_char P c \<or> category P c = UCc
     \<or> c \<in> {47, 92, 58, 37, 60, 62, 124, 34, 42, 63} then 32 else c)"

text \<open>\<open>str.split()\<close>.\<close>

fun words_acc :: "platform \<Rightarrow> ustr \<Rightarrow> ustr \<Rightarrow> ustr list" where
  "words_acc P w [] = (if w = [] then [] else [w])"
| "words_acc P w (c # s) =
    (if space_char P c then (if w = [] then words_acc P [] s else w # words_acc P [] s)
     else words_acc P (w @ [c]) s)"

definition folder_text :: "platform \<Rightarrow> ustr \<Rightarrow> int \<Rightarrow> ustr" where
  "folder_text P title chat =
    (let cleaned = map (clean_char P) (filter (\<lambda>c. \<not> dropped_char P c) (drop_keycaps (nfc P title)));
         t = strip_set [32, 46] (join_with [32] (words_acc P [] cleaned))
     in if t = [] then lbl_source_dash @ dec \<bar>chat\<bar> else t)"

text \<open>Combining marks stay with the character before them; leading marks are dropped.\<close>

fun clusters :: "platform \<Rightarrow> ustr list \<Rightarrow> ustr \<Rightarrow> ustr list" where
  "clusters P acc [] = acc"
| "clusters P acc (c # s) =
    (if category P c = UM then
       (if acc = [] then clusters P [] s else clusters P (butlast acc @ [last acc @ [c]]) s)
     else clusters P (acc @ [[c]]) s)"

fun fit_clusters :: "platform \<Rightarrow> ustr \<Rightarrow> ustr \<Rightarrow> ustr list \<Rightarrow> ustr" where
  "fit_clusters P suffix r [] = r"
| "fit_clusters P suffix r (k # ks) =
    (if MAX_COLUMNS < columns P (r @ k @ suffix) \<or> MAX_BYTES < utf8_len (r @ k @ suffix) then r
     else fit_clusters P suffix (r @ k) ks)"

definition folder_name :: "platform \<Rightarrow> ustr \<Rightarrow> int \<Rightarrow> ustr \<Rightarrow> exc + ustr" where
  "folder_name P title chat suffix =
    (let r = fit_clusters P suffix [] (clusters P [] (folder_text P title chat));
         s = rstrip_set [32, 46] r
     in safe_directory P ((if s = [] then lbl_source else s) @ suffix))"

text \<open>
  \<open>media_directory\<close>: \<open>config\<close> is the stored JSON object, whose \<open>source_folder\<close> is a
  string or null, \<open>base\<close> the current target.
\<close>

definition jget_or :: "json \<Rightarrow> ustr \<Rightarrow> json \<Rightarrow> json" where
  "jget_or j k dflt = (case jfind j k of None \<Rightarrow> dflt | Some v \<Rightarrow> v)"

definition media_directory ::
  "platform \<Rightarrow> json \<Rightarrow> ustr \<Rightarrow> ustr \<Rightarrow> ustr \<Rightarrow> json \<Rightarrow> exc + ustr option" where
  "media_directory P config kind mime ext base =
    (if jget_or config (asc ''directory_mode'') (JStr (asc ''legacy'')) \<noteq> JStr (asc ''source_type'')
     then Inr None
     else (case jget_or config (asc ''source_folder'') (JStr []) of
         JStr folder \<Rightarrow>
           if folder = [] \<or> jget config (asc ''source_base'') \<noteq> base
           then Inl (ValueError msg_source_folder)
           else bindE (safe_directory P (folder @ [47] @ media_type P kind mime ext)) (\<lambda>p. Inr (Some p))
       | JNull \<Rightarrow> Inl (ValueError msg_source_folder)
       | _ \<Rightarrow> Inl (TypeError [])))"

section \<open>Lemmas\<close>

lemma no_control: "list_ex (\<lambda>c. c < 32 \<or> c = 127) p \<longleftrightarrow> \<not> list_all (\<lambda>c. 32 \<le> c \<and> c \<noteq> 127) p" for p :: ustr
  by (induction p) auto

lemma safe_directory_Inr: "safe_directory P p = Inr q \<longleftrightarrow>
   q = p \<and> nfc P p = p \<and> \<not> list_ex is_surrogate p \<and> utf8_len p \<le> 128
   \<and> 92 \<notin> set p \<and> 58 \<notin> set p \<and> 37 \<notin> set p \<and> \<not> starts_with p [47]
   \<and> list_all (\<lambda>c. 32 \<le> c \<and> c \<noteq> 127) p
   \<and> (p = [] \<or> (\<forall>x \<in> set (split_on 47 p). x \<notin> {[], DOT, DOTDOT}))"
  by (simp add: safe_directory_def no_control not_less) (auto simp: list_ex_iff)

text \<open>Walking a path component by component from a directory, as a server resolves it.\<close>

fun walk :: "ustr list \<Rightarrow> ustr list \<Rightarrow> ustr list" where
  "walk dir [] = dir"
| "walk dir (p # ps) =
    (if p \<in> {[], DOT} then walk dir ps
     else if p = DOTDOT then walk (butlast dir) ps
     else walk (dir @ [p]) ps)"

lemma walk_safe: "(\<forall>p \<in> set ps. p \<notin> {[], DOT, DOTDOT}) \<Longrightarrow> walk dir ps = dir @ ps"
  by (induction ps arbitrary: dir) auto

lemma split_on_join: "split_on d (a @ d # b) = split_on d a @ split_on d b"
proof (induction a)
  case (Cons c a)
  then show ?case by (cases "split_on d a") auto
qed simp

lemma columns_append [simp]: "columns P (a @ b) = columns P a + columns P b"
  by (simp add: columns_def)

lemma columns_le: "columns P s \<le> 2 * length s"
  by (induction s) (auto simp: columns_def)

lemma utf8_len_rstrip: "utf8_len (rstrip_set cs s) \<le> utf8_len s"
proof -
  have "s = rev (dropWhile (\<lambda>c. c \<in> set cs) (rev s)) @ rev (takeWhile (\<lambda>c. c \<in> set cs) (rev s))"
    by (metis rev_append rev_rev_ident takeWhile_dropWhile_id)
  then show ?thesis by (metis le_add1 rstrip_set_def utf8_len_simps(3))
qed

lemma columns_rstrip: "columns P (rstrip_set cs s) \<le> columns P s"
proof -
  have "s = rev (dropWhile (\<lambda>c. c \<in> set cs) (rev s)) @ rev (takeWhile (\<lambda>c. c \<in> set cs) (rev s))"
    by (metis rev_append rev_rev_ident takeWhile_dropWhile_id)
  then show ?thesis by (metis le_add1 rstrip_set_def columns_append)
qed

lemma fit_clusters_bound:
  assumes "r = [] \<or> columns P (r @ sfx) \<le> MAX_COLUMNS \<and> utf8_len (r @ sfx) \<le> MAX_BYTES"
  shows "fit_clusters P sfx r ks = [] \<or> columns P (fit_clusters P sfx r ks @ sfx) \<le> MAX_COLUMNS
     \<and> utf8_len (fit_clusters P sfx r ks @ sfx) \<le> MAX_BYTES"
  using assms by (induction P sfx r ks rule: fit_clusters.induct) (auto simp: not_less)

lemma folder_name_bound:
  assumes "folder_name P title chat sfx = Inr f" "utf8_len sfx \<le> 106" "columns P sfx \<le> 56"
  shows "f \<noteq> [] \<and> utf8_len f \<le> 112 \<and> columns P f \<le> 60"
proof -
  let ?r = "fit_clusters P sfx [] (clusters P [] (folder_text P title chat))"
  let ?s = "rstrip_set [32, 46] ?r"
  have f: "f = (if ?s = [] then lbl_source else ?s) @ sfx"
    using assms(1) by (simp add: folder_name_def safe_directory_Inr Let_def)
  show ?thesis
  proof (cases "?s = []")
    case True
    moreover have "length lbl_source = 2" "utf8_len lbl_source = 6"
      by (simp_all add: lbl_source_def utf8_size_def)
    ultimately show ?thesis using f assms(2,3) columns_le[of P lbl_source] by auto
  next
    case False
    then have "?r \<noteq> []" by (auto simp: rstrip_set_def)
    with fit_clusters_bound[of "[]" P sfx "clusters P [] (folder_text P title chat)"]
    have "columns P (?r @ sfx) \<le> 60 \<and> utf8_len (?r @ sfx) \<le> 112"
      by (simp add: MAX_COLUMNS_def MAX_BYTES_def)
    with False f utf8_len_rstrip[of "[32, 46]" ?r] columns_rstrip[of P "[32, 46]" ?r]
    show ?thesis by auto
  qed
qed

definition media_labels :: "ustr list" where
  "media_labels = [lbl_video, lbl_image, lbl_audio, lbl_document, lbl_archive, lbl_other]"

lemma media_type_label: "media_type P kind mime ext \<in> set media_labels"
proof -
  have "fst ` set EXTENSIONS \<subseteq> set media_labels"
    by (simp add: EXTENSIONS_def media_labels_def)
  then have "find q EXTENSIONS = Some (label, exts) \<Longrightarrow> label \<in> set media_labels" for q label exts
    using find_in[of q EXTENSIONS] by (metis fst_conv image_subset_iff)
  moreover have L: "lbl_video \<in> set media_labels" "lbl_image \<in> set media_labels"
    "lbl_audio \<in> set media_labels" "lbl_document \<in> set media_labels"
    "lbl_archive \<in> set media_labels" "lbl_other \<in> set media_labels"
    by (simp_all add: media_labels_def)
  ultimately have "(case find q EXTENSIONS of Some (label, exts) \<Rightarrow> label | None \<Rightarrow> lbl_other)
      \<in> set media_labels" for q
    by (simp split: option.splits prod.splits)
  moreover have "kind \<in> {lbl_video, lbl_image, lbl_audio} \<Longrightarrow> kind \<in> set media_labels"
    using L by blast
  ultimately show ?thesis unfolding media_type_def using L by presburger
qed

lemma media_label_clean:
  assumes "l \<in> set media_labels"
  shows "utf8_len l \<le> 12 \<and> l \<noteq> [] \<and> list_all (\<lambda>c. 19968 \<le> c \<and> c < 55296) l"
  using assms
  by (auto simp: media_labels_def lbl_video_def lbl_image_def lbl_audio_def lbl_document_def
      lbl_archive_def lbl_other_def utf8_size_def)

lemma walk_confined:
  assumes "safe_directory P path = Inr d"
  shows "walk dir (split_on 47 d) = dir @ (if d = [] then [] else split_on 47 d)"
  using assms by (auto simp: safe_directory_Inr walk_safe DOT_def)

text \<open>
  A managed sub-directory can never lead outside the directory it is joined to: every
  path that \<open>safe_directory\<close> accepts is resolved, component by component and from
  whatever base, to the base extended by exactly the components of the path.
\<close>

theorem managed_path_confined:
  assumes "safe_directory P path = Inr d"
  shows "walk dir (split_on 47 d) = dir @ (if d = [] then [] else split_on 47 d)"
  using assms by (rule walk_confined)

theorem managed_path_confined_witness:
  "walk [asc ''115''] (split_on 47 (asc ''films/2024'')) = [asc ''115'', asc ''films'', asc ''2024'']"
  using managed_path_confined[of ascii_platform "asc ''films/2024''" "asc ''films/2024''" "[asc ''115'']"]
  by (simp add: safe_directory_Inr ascii_platform_def asc_def is_surrogate_def DOT_def DOTDOT_def
      utf8_size_def)

text \<open>
  A folder name made for a source always leaves room for the media type: whatever file
  arrives later, \<open>media_directory\<close> on the stored configuration gives the folder followed by
  one of six labels and raises nothing. NFC is assumed to be unaffected by a slash
  followed by a label, none of whose characters composes with anything.
\<close>

theorem source_folder_usable:
  assumes folder: "folder_name P title chat sfx = Inr f"
    and sfx: "utf8_len sfx \<le> 106" "columns P sfx \<le> 56"
    and nfc: "\<And>a l. nfc P a = a \<Longrightarrow> l \<in> set media_labels \<Longrightarrow> nfc P (a @ 47 # l) = a @ 47 # l"
    and config: "jfind config (asc ''directory_mode'') = Some (JStr (asc ''source_type''))"
      "jfind config (asc ''source_folder'') = Some (JStr f)" "jget config (asc ''source_base'') = base"
  shows "media_directory P config kind mime ext base
     = Inr (Some (f @ 47 # media_type P kind mime ext))"
proof -
  let ?l = "media_type P kind mime ext"
  note l = media_label_clean[OF media_type_label[of P kind mime ext]]
  obtain g where "safe_directory P g = Inr f"
    using folder by (auto simp: folder_name_def Let_def)
  then have ok: "safe_directory P f = Inr f" by (auto simp: safe_directory_Inr)
  have b: "f \<noteq> []" "utf8_len f \<le> 112" using folder_name_bound[OF folder sfx] by auto
  have no: "c \<notin> set ?l" if "c < 19968" for c using l that by (auto simp: list_all_iff)
  have part: "split_on 47 ?l = [?l]" using no by (simp add: split_on_no_sep)
  have "?l \<notin> {[], DOT, DOTDOT}" using l no[of 46] by (auto simp: DOT_def DOTDOT_def)
  moreover have "\<not> starts_with (f @ 47 # ?l) [47]"
    using ok b(1) by (cases f) (auto simp: safe_directory_Inr)
  moreover have "\<not> list_ex is_surrogate ?l" "list_all (\<lambda>c. 32 \<le> c \<and> c \<noteq> 127) ?l"
    using l by (auto simp: list_ex_iff list_all_iff is_surrogate_def)
  ultimately have "safe_directory P (f @ 47 # ?l) = Inr (f @ 47 # ?l)"
    using ok b l no nfc[OF _ media_type_label[of P kind mime ext]] part
    by (auto simp: safe_directory_Inr split_on_join is_surrogate_def utf8_size_def)
  with config b show ?thesis by (simp add: media_directory_def jget_or_def)
qed

theorem source_folder_usable_witness:
  "media_directory ascii_platform (JObj [(asc ''directory_mode'', JStr (asc ''source_type'')),
       (asc ''source_folder'', JStr (asc ''My show'')), (asc ''source_base'', JStr (asc ''r:x''))])
     [] (asc ''video/mp4'') [] (JStr (asc ''r:x'')) = Inr (Some (asc ''My show/'' @ lbl_video))"
proof -
  have f: "folder_name ascii_platform (asc ''My: show'') 5 [] = Inr (asc ''My show'')"
    by (simp add: folder_name_def folder_text_def asc_def ascii_platform_def dropped_char_def
        clean_char_def emoji_symbols_def is_digit_def strip_set_def lstrip_set_def rstrip_set_def
        columns_def utf8_size_def MAX_COLUMNS_def MAX_BYTES_def safe_directory_Inr is_surrogate_def
        DOT_def DOTDOT_def)
  have t: "media_type ascii_platform [] (asc ''video/mp4'') [] = lbl_video"
    by (simp add: media_type_def asc_def lbl_video_def lbl_image_def lbl_audio_def)
  let ?c = "JObj [(asc ''directory_mode'', JStr (asc ''source_type'')),
    (asc ''source_folder'', JStr (asc ''My show'')), (asc ''source_base'', JStr (asc ''r:x''))]"
  have c: "jfind ?c (asc ''directory_mode'') = Some (JStr (asc ''source_type''))"
    "jfind ?c (asc ''source_folder'') = Some (JStr (asc ''My show''))"
    "jget ?c (asc ''source_base'') = JStr (asc ''r:x'')"
    by (simp_all add: jfind_def jget_def asc_def)
  have n: "nfc ascii_platform a = a" for a by (simp add: ascii_platform_def)
  have "media_directory ascii_platform ?c [] (asc ''video/mp4'') [] (JStr (asc ''r:x''))
      = Inr (Some (asc ''My show'' @ 47 # media_type ascii_platform [] (asc ''video/mp4'') []))"
    by (rule source_folder_usable[OF f _ _ n c]) (simp_all add: columns_def)
  moreover have "asc ''My show/'' = asc ''My show'' @ [47]" by (simp add: asc_def)
  ultimately show ?thesis by (simp add: t)
qed

end
