(* ===== verification/Naming.thy ===== *)
theory Naming
  imports Errors Classification
begin

text \<open>
  File names: the deterministic part of \<open>src/tg2cloud/domain/naming.py\<close>
  (\<open>truncate_utf8\<close>, \<open>safe_file_name\<close>, \<open>video_extension\<close>, \<open>_title_path_separators\<close>,
  \<open>album_file_name\<close>) and \<open>corrected_name\<close> of \<open>domain/planning.py\<close>, with the parts of
  \<open>pathlib\<close> they use as CPython 3.10 to 3.13 defines them.

  The heuristics that choose a title from a caption are in theory Titles. Whatever they choose,
  \<open>safe_file_name\<close> bounds it: the lemmas show that its result is harmless, one path component
  of at most 180 bytes without reserved characters.
\<close>

section \<open>Paths\<close>

text \<open>\<open>Path(s).name\<close>: the last component that is neither empty nor a dot.\<close>

definition path_name :: "ustr \<Rightarrow> ustr" where
  "path_name s =
    (let ps = filter (\<lambda>p. p \<noteq> [] \<and> p \<noteq> DOT) (split_on 47 s)
     in if ps = [] then [] else last ps)"

text \<open>\<open>str.rpartition(".")\<close> on a name: the text before the last dot, and the text from it.\<close>

definition before_dot :: "ustr \<Rightarrow> ustr" where
  "before_dot s = rev (tl (dropWhile (\<lambda>c. c \<noteq> 46) (rev s)))"

definition from_dot :: "ustr \<Rightarrow> ustr" where
  "from_dot s = 46 # rev (takeWhile (\<lambda>c. c \<noteq> 46) (rev s))"

text \<open>\<open>suffix\<close> and \<open>stem\<close>: \<open>0 < i < len(name) - 1\<close> for the position of the last dot.\<close>

definition has_suffix :: "ustr \<Rightarrow> bool" where
  "has_suffix name \<longleftrightarrow> 46 \<in> set name \<and> before_dot name \<noteq> [] \<and> last name \<noteq> 46"

definition path_suffix :: "ustr \<Rightarrow> ustr" where
  "path_suffix s = (let n = path_name s in if has_suffix n then from_dot n else [])"

definition path_stem :: "ustr \<Rightarrow> ustr" where
  "path_stem s = (let n = path_name s in if has_suffix n then before_dot n else n)"

section \<open>Bounded names\<close>

text \<open>
  Encoding replaces surrogates by a question mark; cutting the bytes and decoding with
  \<open>errors="ignore"\<close> drops a character that was cut in the middle.
\<close>

fun take_bytes :: "nat \<Rightarrow> ustr \<Rightarrow> ustr" where
  "take_bytes n [] = []"
| "take_bytes n (c # s) = (if utf8_size c \<le> n then c # take_bytes (n - utf8_size c) s else [])"

definition truncate_utf8 :: "ustr \<Rightarrow> nat \<Rightarrow> ustr" where
  "truncate_utf8 value max_bytes =
    (let v = map (\<lambda>c. if is_surrogate c then 63 else c) value in
     if utf8_len v \<le> max_bytes then v else take_bytes max_bytes v)"

definition forbidden :: "nat \<Rightarrow> bool" where
  "forbidden c \<longleftrightarrow> c < 32 \<or> c = 127 \<or> c \<in> {60, 62, 58, 34, 47, 92, 124, 63, 42}"

text \<open>\<open>re.sub(r'[...]+', "_", s)\<close>: a run of forbidden characters becomes one underscore.\<close>

fun squeeze :: "bool \<Rightarrow> ustr \<Rightarrow> ustr" where
  "squeeze run [] = []"
| "squeeze run (c # s) =
    (if forbidden c then (if run then squeeze True s else 95 # squeeze True s)
     else c # squeeze False s)"

definition kept_char :: "platform \<Rightarrow> nat \<Rightarrow> bool" where
  "kept_char P c \<longleftrightarrow> category P c \<notin> {UCf, UCs} \<and> (c < 128 \<or> category P c \<noteq> UCc)"

definition clean_name :: "platform \<Rightarrow> ustr \<Rightarrow> ustr" where
  "clean_name P value =
     strip_set [32, 46] (squeeze False (path_name (filter (kept_char P) (nfc P value))))"

definition safe_file_name :: "platform \<Rightarrow> ustr \<Rightarrow> ustr \<Rightarrow> ustr" where
  "safe_file_name P name fallback =
    (let candidate = (if clean_name P name \<noteq> [] then clean_name P name
                      else if clean_name P fallback \<noteq> [] then clean_name P fallback
                      else asc ''file'');
         suffix = truncate_utf8 (path_suffix candidate) 24;
         stem = truncate_utf8 (path_stem candidate) (max 1 (180 - utf8_len suffix))
     in (if stem = [] then asc ''file'' else stem) @ suffix)"

section \<open>Media names\<close>

definition VIDEO_EXTENSIONS :: "ustr list" where
  "VIDEO_EXTENSIONS = [asc ''.mp4'', asc ''.mkv'', asc ''.avi'', asc ''.mov'', asc ''.webm'',
     asc ''.m4v'', asc ''.ts'', asc ''.flv'', asc ''.wmv'', asc ''.mpeg'', asc ''.mpg'',
     asc ''.mts'', asc ''.m2ts'', asc ''.3gp'', asc ''.3g2'', asc ''.ogv'', asc ''.vob'',
     asc ''.hevc'', asc ''.h264'', asc ''.h265'']"

text \<open>\<open>re.fullmatch(r"\.[A-Za-z\d]{1,12}", s)\<close>; the digit class is Unicode.\<close>

definition ext_char :: "platform \<Rightarrow> nat \<Rightarrow> bool" where
  "ext_char P c \<longleftrightarrow> (65 \<le> c \<and> c \<le> 90) \<or> (97 \<le> c \<and> c \<le> 122) \<or> is_udigit P c"

definition plain_extension :: "platform \<Rightarrow> ustr \<Rightarrow> bool" where
  "plain_extension P s \<longleftrightarrow> (case s of [] \<Rightarrow> False
     | c # r \<Rightarrow> c = 46 \<and> 1 \<le> length r \<and> length r \<le> 12 \<and> list_all (ext_char P) r)"

definition video_extension :: "platform \<Rightarrow> ustr \<Rightarrow> ustr \<Rightarrow> ustr \<Rightarrow> ustr" where
  "video_extension P name detected fallback =
    (let original = path_suffix name in
     if casefold P original \<in> set VIDEO_EXTENSIONS then original
     else if casefold P detected \<in> set VIDEO_EXTENSIONS then detected
     else if original \<noteq> [] then original
     else if plain_extension P fallback then fallback else asc ''.bin'')"

fun split_slashes :: "ustr \<Rightarrow> ustr list" where
  "split_slashes [] = [[]]"
| "split_slashes (c # cs) =
     (if c = 47 \<or> c = 92 then [] # split_slashes cs
      else (case split_slashes cs of [] \<Rightarrow> [[c]] | p # ps \<Rightarrow> (c # p) # ps))"

text \<open>\<open>str.strip()\<close> without an argument.\<close>

definition strip_space :: "platform \<Rightarrow> ustr \<Rightarrow> ustr" where
  "strip_space P s = rev (dropWhile (space_char P) (rev (dropWhile (space_char P) s)))"

definition title_path_separators :: "platform \<Rightarrow> ustr \<Rightarrow> ustr" where
  "title_path_separators P title =
    (if list_ex (\<lambda>p. strip_space P p \<in> {DOT, DOTDOT}) (split_slashes title)
        \<or> ends_with title [47] \<or> ends_with title [92]
     then title
     else strip_set [95, 32] (map (\<lambda>c. if c = 47 \<or> c = 92 then 95 else c) title))"

text \<open>\<open>f"{number:02d}"\<close>, and \<open>album_file_name\<close> on a title without its caption suffix.\<close>

definition dec02 :: "nat \<Rightarrow> ustr" where
  "dec02 n = (if n < 10 then 48 # dec_nat n else dec_nat n)"

definition album_file_name ::
  "platform \<Rightarrow> (ustr \<Rightarrow> ustr) \<Rightarrow> ustr \<Rightarrow> ustr \<Rightarrow> nat option \<Rightarrow> ustr \<Rightarrow> ustr" where
  "album_file_name P drop_caption_suffix title kind number extension =
    (let e = truncate_utf8 extension 24;
         ext = (if plain_extension P e then e else asc ''.bin'');
         tail = (case number of None \<Rightarrow> ext | Some n \<Rightarrow> 45 # kind @ dec02 n @ ext);
         clean = safe_file_name P (title_path_separators P (drop_caption_suffix title)) (asc ''media'')
     in rstrip_set [32, 46] (truncate_utf8 clean (180 - utf8_len tail)) @ tail)"

text \<open>\<open>corrected_name\<close>: a name typed by the user replaces the stem, never the suffix.\<close>

definition corrected_name :: "platform \<Rightarrow> ustr \<Rightarrow> ustr \<Rightarrow> exc + ustr" where
  "corrected_name P value current =
    (if strip_space P value = [] \<or> 1024 < length value \<or> list_ex (\<lambda>c. c < 32) value
        \<or> 47 \<in> set value \<or> 92 \<in> set value
     then Inl (PlanningError msg_corrected_name)
     else
       let suffix = path_suffix current;
           stem = strip_space P value;
           stem' = (if ends_with (lower P stem) (lower P suffix) \<and> suffix \<noteq> []
                    then take (length stem - length suffix) stem else stem)
       in Inr (safe_file_name P (stem' @ suffix) current))"

section \<open>Lemmas\<close>

lemma utf8_len_take_bytes: "utf8_len (take_bytes n s) \<le> n"
  by (induction n s rule: take_bytes.induct) auto

lemma take_bytes_prefix: "\<exists>r. s = take_bytes n s @ r"
  by (induction n s rule: take_bytes.induct) auto

lemma truncate_bound: "utf8_len (truncate_utf8 s n) \<le> n"
  by (simp add: truncate_utf8_def Let_def utf8_len_take_bytes)

lemma truncate_set:
  assumes "\<not> list_ex is_surrogate s"
  shows "\<exists>r. s = truncate_utf8 s n @ r"
proof -
  have "map (\<lambda>c. if is_surrogate c then 63 else c) s = s"
    using assms by (induction s) auto
  then show ?thesis using take_bytes_prefix[of s n] by (simp add: truncate_utf8_def Let_def)
qed

lemma truncate_same: "\<not> list_ex is_surrogate s \<Longrightarrow> utf8_len s \<le> n \<Longrightarrow> truncate_utf8 s n = s"
proof -
  assume a: "\<not> list_ex is_surrogate s" "utf8_len s \<le> n"
  have "map (\<lambda>c. if is_surrogate c then 63 else c) s = s"
    using a(1) by (induction s) auto
  with a(2) show ?thesis by (simp add: truncate_utf8_def Let_def)
qed

lemma truncate_nonempty:
  assumes "s \<noteq> []" "4 \<le> n"
  shows "truncate_utf8 s n \<noteq> []"
proof -
  obtain c t where s: "s = c # t" using assms(1) by (cases s) auto
  show ?thesis using utf8_size_bounds[of "if is_surrogate c then 63 else c"] assms(2)
    by (simp add: s truncate_utf8_def Let_def)
qed

lemma squeeze_clean: "c \<in> set (squeeze run s) \<Longrightarrow> \<not> forbidden c"
  by (induction run s rule: squeeze.induct) (auto simp: forbidden_def split: if_splits)

lemma squeeze_surrogate: "c \<in> set (squeeze run s) \<Longrightarrow> c = 95 \<or> c \<in> set s"
  by (induction run s rule: squeeze.induct) (auto split: if_splits)

lemma squeeze_same: "\<not> list_ex forbidden s \<Longrightarrow> squeeze run s = s"
  by (induction s arbitrary: run) auto

lemma path_name_set: "c \<in> set (path_name s) \<Longrightarrow> c \<in> set s"
proof -
  have join: "set p \<subseteq> set s" if "p \<in> set (split_on 47 s)" for p
    using that
  proof (induction s arbitrary: p)
    case (Cons c s)
    obtain q qs where q: "split_on 47 s = q # qs" by (cases "split_on 47 s") auto
    with Cons have "set q \<subseteq> set s" "\<And>x. x \<in> set qs \<Longrightarrow> set x \<subseteq> set s" by auto
    with q Cons.prems show ?case by (auto split: if_splits)
  qed simp
  assume c: "c \<in> set (path_name s)"
  let ?ps = "filter (\<lambda>p. p \<noteq> [] \<and> p \<noteq> DOT) (split_on 47 s)"
  have "?ps \<noteq> []" "path_name s = last ?ps" using c by (auto simp: path_name_def Let_def split: if_splits)
  then have "path_name s \<in> set ?ps" by (metis last_in_set)
  then have "path_name s \<in> set (split_on 47 s)" by auto
  with c join show ?thesis by blast
qed

lemma path_name_plain: "47 \<notin> set s \<Longrightarrow> s \<noteq> [] \<Longrightarrow> s \<noteq> DOT \<Longrightarrow> path_name s = s"
  by (simp add: path_name_def split_on_no_sep Let_def)

lemma strip_ends:
  assumes "strip_set cs s \<noteq> []"
  shows "hd (strip_set cs s) \<notin> set cs \<and> last (strip_set cs s) \<notin> set cs"
proof -
  define t where "t = dropWhile (\<lambda>c. c \<in> set cs) s"
  have st: "strip_set cs s = rev (dropWhile (\<lambda>c. c \<in> set cs) (rev t))"
    by (simp add: strip_set_def rstrip_set_def lstrip_set_def t_def)
  let ?u = "dropWhile (\<lambda>c. c \<in> set cs) (rev t)"
  have ne: "?u \<noteq> []" using assms st by simp
  then have l: "hd ?u \<notin> set cs" by (metis hd_dropWhile dropWhile_eq_Nil_conv)
  have tne: "t \<noteq> []" using ne by auto
  then have "hd t \<notin> set cs" unfolding t_def by (metis hd_dropWhile dropWhile_eq_Nil_conv)
  moreover obtain v where "rev t = v @ ?u" by (metis takeWhile_dropWhile_id)
  then have "last ?u = hd t" using ne tne by (metis hd_rev last_appendR rev_rev_ident last_rev)
  ultimately show ?thesis using l ne st by (simp add: last_rev hd_rev)
qed

lemma strip_same: "s \<noteq> [] \<Longrightarrow> hd s \<notin> set cs \<Longrightarrow> last s \<notin> set cs \<Longrightarrow> strip_set cs s = s"
proof -
  assume s: "s \<noteq> []" "hd s \<notin> set cs" "last s \<notin> set cs"
  then have "lstrip_set cs s = s" by (cases s) (auto simp: lstrip_set_def)
  moreover have "dropWhile (\<lambda>c. c \<in> set cs) (rev s) = rev s"
    using s by (cases s rule: rev_cases) auto
  ultimately show ?thesis by (simp add: strip_set_def rstrip_set_def)
qed

lemma dot_split: "46 \<in> set s \<Longrightarrow> before_dot s @ from_dot s = s"
proof -
  assume a: "46 \<in> set s"
  let ?t = "takeWhile (\<lambda>c. c \<noteq> 46) (rev s)" and ?d = "dropWhile (\<lambda>c. c \<noteq> 46) (rev s)"
  have "?d \<noteq> []" using a by (auto simp: dropWhile_eq_Nil_conv)
  then have "hd ?d = 46" by (metis (mono_tags) hd_dropWhile)
  then have d: "?d = 46 # tl ?d" using \<open>?d \<noteq> []\<close> by (metis list.collapse)
  have "s = rev (?t @ ?d)" by simp
  also have "\<dots> = rev (?t @ 46 # tl ?d)" using d by simp
  also have "\<dots> = before_dot s @ from_dot s" by (simp add: before_dot_def from_dot_def)
  finally show ?thesis by simp
qed

lemma stem_suffix:
  assumes "47 \<notin> set s" "s \<noteq> []" "s \<noteq> DOT"
  shows "path_stem s @ path_suffix s = s" "path_stem s \<noteq> []"
  using assms dot_split[of s]
  by (auto simp: path_stem_def path_suffix_def path_name_plain Let_def has_suffix_def)

text \<open>What the cleanup guarantees of the candidate name.\<close>

definition plain_name :: "ustr \<Rightarrow> bool" where
  "plain_name s \<longleftrightarrow> s \<noteq> [] \<and> list_all (\<lambda>c. \<not> forbidden c \<and> \<not> is_surrogate c) s
     \<and> hd s \<notin> {32, 46} \<and> last s \<notin> {32, 46}"

lemma plain_name_path: "plain_name s \<Longrightarrow> 47 \<notin> set s \<and> s \<noteq> [] \<and> s \<noteq> DOT"
proof -
  assume a: "plain_name s"
  have "forbidden 47" by (simp add: forbidden_def)
  with a have "47 \<notin> set s" by (auto simp: plain_name_def list_all_iff)
  moreover have "s \<noteq> DOT" using a by (auto simp: plain_name_def DOT_def)
  ultimately show ?thesis using a by (simp add: plain_name_def)
qed

lemma clean_name_plain:
  assumes "\<And>c. is_surrogate c \<Longrightarrow> category P c = UCs" and "clean_name P v \<noteq> []"
  shows "plain_name (clean_name P v)"
proof -
  let ?s = "squeeze False (path_name (filter (kept_char P) (nfc P v)))"
  have "\<not> forbidden c \<and> \<not> is_surrogate c" if "c \<in> set (clean_name P v)" for c
  proof -
    have c: "c \<in> set ?s" using that set_strip unfolding clean_name_def by blast
    then have "c = 95 \<or> c \<in> set (filter (kept_char P) (nfc P v))"
      using squeeze_surrogate path_name_set by blast
    then have "\<not> is_surrogate c"
      using assms(1) by (auto simp: kept_char_def is_surrogate_def)
    with squeeze_clean[OF c] show ?thesis by simp
  qed
  with assms(2) strip_ends[of "[32, 46]" ?s] show ?thesis
    by (auto simp: plain_name_def list_all_iff clean_name_def)
qed

lemma plain_file: "plain_name (asc ''file'')"
  by (simp add: plain_name_def asc_def forbidden_def is_surrogate_def)

lemma safe_file_name_candidate:
  assumes "\<And>c. is_surrogate c \<Longrightarrow> category P c = UCs"
  obtains cand where "plain_name cand"
    "safe_file_name P name fallback =
       (let suffix = truncate_utf8 (path_suffix cand) 24;
            stem = truncate_utf8 (path_stem cand) (max 1 (180 - utf8_len suffix))
        in (if stem = [] then asc ''file'' else stem) @ suffix)"
    "clean_name P name \<noteq> [] \<Longrightarrow> cand = clean_name P name"
proof -
  let ?c = "if clean_name P name \<noteq> [] then clean_name P name
      else if clean_name P fallback \<noteq> [] then clean_name P fallback else asc ''file''"
  have "plain_name ?c"
    using clean_name_plain[OF assms] plain_file by simp
  then show ?thesis using that[of ?c] by (simp add: safe_file_name_def Let_def)
qed

lemma bounded_name:
  assumes "plain_name cand"
  shows "let suffix = truncate_utf8 (path_suffix cand) 24;
             stem = truncate_utf8 (path_stem cand) (max 1 (180 - utf8_len suffix));
             r = (if stem = [] then asc ''file'' else stem) @ suffix
         in r \<noteq> [] \<and> utf8_len r \<le> 180 \<and> list_all (\<lambda>c. \<not> forbidden c \<and> \<not> is_surrogate c) r
            \<and> hd r \<noteq> 46"
proof -
  define sfx where "sfx = truncate_utf8 (path_suffix cand) 24"
  define stem where "stem = truncate_utf8 (path_stem cand) (max 1 (180 - utf8_len sfx))"
  note pp = plain_name_path[OF assms]
  have sp: "path_stem cand @ path_suffix cand = cand" "path_stem cand \<noteq> []"
    using stem_suffix[of cand] pp by auto
  have b: "utf8_len sfx \<le> 24" using truncate_bound by (simp add: sfx_def)
  then have "stem \<noteq> []" unfolding stem_def by (intro truncate_nonempty sp(2)) simp
  have "utf8_len stem \<le> 180 - utf8_len sfx"
    using truncate_bound[of "path_stem cand" "max 1 (180 - utf8_len sfx)"] b
    by (simp add: stem_def max_def split: if_splits)
  with b have len: "utf8_len (stem @ sfx) \<le> 180" by simp
  have ok: "list_all (\<lambda>c. \<not> forbidden c \<and> \<not> is_surrogate c) (path_stem cand @ path_suffix cand)"
    using assms sp by (simp add: plain_name_def)
  then have nos: "\<not> list_ex is_surrogate (path_stem cand)" "\<not> list_ex is_surrogate (path_suffix cand)"
    by (auto simp: list_all_iff list_ex_iff)
  obtain a where a: "path_stem cand = stem @ a"
    using truncate_set[OF nos(1)] stem_def by blast
  obtain c where c: "path_suffix cand = sfx @ c"
    using truncate_set[OF nos(2)] sfx_def by blast
  have "list_all (\<lambda>c. \<not> forbidden c \<and> \<not> is_surrogate c) (stem @ sfx)"
    using ok a c by simp
  moreover have "hd (stem @ sfx) = hd cand" using \<open>stem \<noteq> []\<close> a sp by (metis append_assoc hd_append2)
  moreover have "hd cand \<noteq> 46" using assms by (simp add: plain_name_def)
  ultimately show ?thesis using len \<open>stem \<noteq> []\<close>
    unfolding sfx_def[symmetric] stem_def[symmetric] Let_def by simp
qed

text \<open>What makes a file name harmless wherever it is stored.\<close>

definition harmless :: "ustr \<Rightarrow> bool" where
  "harmless r \<longleftrightarrow> r \<noteq> [] \<and> utf8_len r \<le> 180 \<and> list_all (\<lambda>c. \<not> forbidden c \<and> \<not> is_surrogate c) r
     \<and> r \<notin> {DOT, DOTDOT} \<and> split_on 47 r = [r]"

lemma safe_file_name_harmless:
  assumes "\<And>c. is_surrogate c \<Longrightarrow> category P c = UCs"
  shows "harmless (safe_file_name P name fallback)"
proof -
  obtain cand where cand: "plain_name cand" "safe_file_name P name fallback =
       (let suffix = truncate_utf8 (path_suffix cand) 24;
            stem = truncate_utf8 (path_stem cand) (max 1 (180 - utf8_len suffix))
        in (if stem = [] then asc ''file'' else stem) @ suffix)"
    using safe_file_name_candidate[OF assms] by metis
  let ?r = "safe_file_name P name fallback"
  have r: "?r \<noteq> []" "utf8_len ?r \<le> 180" "hd ?r \<noteq> 46"
    "list_all (\<lambda>c. \<not> forbidden c \<and> \<not> is_surrogate c) ?r"
    using bounded_name[OF cand(1)] unfolding cand(2) by (simp_all add: Let_def)
  then have "47 \<notin> set ?r" by (auto simp: list_all_iff forbidden_def)
  with r show ?thesis by (auto simp: harmless_def DOT_def DOTDOT_def split_on_no_sep)
qed

text \<open>A well-formed name that fits is returned as it is, so cleaning twice changes nothing.\<close>

lemma safe_file_name_keeps:
  assumes sur: "\<And>c. is_surrogate c \<Longrightarrow> category P c = UCs"
    and n: "plain_name name" "nfc P name = name" "list_all (kept_char P) name"
    and len: "utf8_len name \<le> 180" "utf8_len (path_suffix name) \<le> 24"
  shows "safe_file_name P name fallback = name"
proof -
  note pp = plain_name_path[OF n(1)]
  have "filter (kept_char P) name = name" using n(3) by (simp add: list_all_iff)
  moreover have "squeeze False name = name"
    using n(1) by (intro squeeze_same) (auto simp: plain_name_def list_all_iff list_ex_iff)
  moreover have "strip_set [32, 46] name = name"
    using n(1) by (intro strip_same) (auto simp: plain_name_def)
  ultimately have c: "clean_name P name = name"
    using n(2) pp by (simp add: clean_name_def path_name_plain)
  have sp: "path_stem name @ path_suffix name = name" "path_stem name \<noteq> []"
    using stem_suffix[of name] pp by auto
  then have tot: "utf8_len (path_stem name) + utf8_len (path_suffix name) = utf8_len name"
    by (metis utf8_len_simps(3))
  have nos: "\<not> list_ex is_surrogate (path_stem name)" "\<not> list_ex is_surrogate (path_suffix name)"
    using n(1) sp by (auto simp: plain_name_def list_all_iff list_ex_iff) (metis UnCI set_append)+
  show ?thesis using c pp sp tot len truncate_same[OF nos(1)] truncate_same[OF nos(2)]
    by (simp add: safe_file_name_def Let_def max_def)
qed

end
