(* ===== verification/TaskDB.thy ===== *)
theory TaskDB
  imports Quotas Naming
begin

text \<open>
  The operations of \<open>TaskDB\<close> in \<open>src/tg2cloud/persistence/sqlite.py\<close>, except \<open>recover\<close>.

  Each is a function of the database: queries return a value, changes return the new
  database, and where the code raises, \<open>Inl\<close> the exception; the code runs every change in
  one \<open>BEGIN IMMEDIATE\<close> transaction, so that an exception leaves the database as it was.
  \<open>now\<close> is the clock reading of the operation.
\<close>

section \<open>Small operations\<close>

definition is_paused :: "taskdb \<Rightarrow> bool" where
  "is_paused d \<longleftrightarrow> d_paused d = Some (asc ''1'')"

definition set_paused :: "bool \<Rightarrow> taskdb \<Rightarrow> taskdb" where
  "set_paused paused d = d\<lparr>d_paused := Some (if paused then asc ''1'' else asc ''0'')\<rparr>"

definition feature_zone :: "platform \<Rightarrow> taskdb \<Rightarrow> exc + ustr" where
  "feature_zone P d = bindE (features_read P d) (\<lambda>prefs. Inr (zone_name prefs))"

definition quota_usage_of :: "platform \<Rightarrow> taskdb \<Rightarrow> int \<Rightarrow> rat \<Rightarrow> exc + quota_usage" where
  "quota_usage_of P d u now = bindE (feature_zone P d) (usage P d u now)"

definition admit_upload :: "int \<Rightarrow> taskdb \<Rightarrow> bool \<times> taskdb" where
  "admit_upload i d =
    (case get_task d i of
       None \<Rightarrow> (False, d)
     | Some t \<Rightarrow>
        if t_cancel_requested t \<or> t_state t \<notin> {Downloaded, WaitingUpload, CleanupPending}
        then (False, d)
        else if t_state t = CleanupPending then (True, d)
        else if \<not> slot_available d (t_sender_id t) i then (False, d)
        else (True, if i \<in> set (d_slots d) then d else d\<lparr>d_slots := d_slots d @ [i]\<rparr>))"

definition protected_remote :: "taskdb \<Rightarrow> ustr \<Rightarrow> bool" where
  "protected_remote d path \<longleftrightarrow> path \<in> fst ` set (d_retained d)"

definition remote_claimed :: "taskdb \<Rightarrow> ustr \<Rightarrow> int \<Rightarrow> bool" where
  "remote_claimed d path i \<longleftrightarrow> protected_remote d path
     \<or> list_ex (\<lambda>t. t_remote_final_path t = Some path \<and> t_id t \<noteq> i \<and> t_state t \<noteq> Cancelled) (d_tasks d)"

text \<open>\<open>SELECT MAX(id) FROM task_recoveries WHERE task_id=?\<close>; 0 stands for NULL.\<close>

definition last_recovery :: "taskdb \<Rightarrow> int \<Rightarrow> int" where
  "last_recovery d i = foldr (\<lambda>r m. if r_task r = i then max (r_id r) m else m) (d_recoveries d) 0"

definition staging_name :: "taskdb \<Rightarrow> int \<Rightarrow> ustr \<Rightarrow> ustr" where
  "staging_name d i safe_name =
    (let recovery = last_recovery d i;
         attempt = (if recovery \<noteq> 0 then asc ''r'' @ dec recovery @ asc ''-'' else [])
     in asc ''.uploading-'' @ dec i @ asc ''-'' @ attempt @ safe_name)"

definition events :: "taskdb \<Rightarrow> int \<Rightarrow> nat \<Rightarrow> event_row list" where
  "events d i limit = take limit (rev (filter (\<lambda>e. e_task e = i) (d_events d)))"

definition has_message :: "taskdb \<Rightarrow> int \<Rightarrow> int \<Rightarrow> bool" where
  "has_message d chat message \<longleftrightarrow>
     list_ex (\<lambda>t. t_chat_id t = chat \<and> t_message_id t = message) (d_tasks d)"

section \<open>Queries\<close>

definition list_states ::
  "taskdb \<Rightarrow> rat \<Rightarrow> task_state list \<Rightarrow> nat \<Rightarrow> bool \<Rightarrow> int \<Rightarrow> int option \<Rightarrow> task list" where
  "list_states d now states limit ready_only after_id sender =
    (if states = [] then []
     else take limit (filter (\<lambda>t. t_state t \<in> set states
        \<and> (case sender of None \<Rightarrow> True | Some s \<Rightarrow> t_sender_id t = s)
        \<and> (0 < after_id \<longrightarrow> after_id < t_id t)
        \<and> (ready_only \<longrightarrow> t_next_retry_at t \<le> now \<and> \<not> t_cancel_requested t)) (d_tasks d)))"

definition list_recent :: "taskdb \<Rightarrow> int \<Rightarrow> int \<Rightarrow> int option \<Rightarrow> exc + task list" where
  "list_recent d limit offset sender =
    (if limit \<le> 0 \<or> offset < 0 then Inl (ValueError msg_limit)
     else Inr (take (nat limit) (drop (nat offset)
       (rev (filter (\<lambda>t. sender = None \<or> sender = Some (t_sender_id t)) (d_tasks d))))))"

definition search :: "taskdb \<Rightarrow> int \<Rightarrow> ustr \<Rightarrow> ustr \<Rightarrow> int \<Rightarrow> int \<Rightarrow> exc + task list" where
  "search d sender query state after_id limit =
    (if state \<noteq> [] \<and> state \<notin> set (map state_name all_states) \<and> state \<noteq> asc ''failed''
     then Inl (ValueError msg_unknown_state)
     else
       let states = (if state = asc ''failed'' then map state_name FAILED_STATES else [state])
       in Inr (take (nat (max 1 (min limit 50))) (rev (filter (\<lambda>t. t_sender_id t = sender
            \<and> (state = [] \<or> state_name (t_state t) \<in> set states)
            \<and> (query = [] \<or> contains (ascii_lower (t_file_name t)) (ascii_lower query))
            \<and> (after_id = 0 \<or> t_id t < after_id)) (d_tasks d)))))"

definition counts ::
  "taskdb \<Rightarrow> int option \<Rightarrow> task_state list option \<Rightarrow> (task_state \<times> nat) list" where
  "counts d sender states =
    (let wanted = (\<lambda>t. (sender = None \<or> sender = Some (t_sender_id t))
        \<and> (case states of None \<Rightarrow> True | Some ss \<Rightarrow> t_state t \<in> set ss))
     in filter (\<lambda>p. snd p \<noteq> 0)
          (map (\<lambda>s. (s, count_where (\<lambda>t. t_state t = s \<and> wanted t) (d_tasks d))) all_states))"

definition count_states :: "taskdb \<Rightarrow> task_state list \<Rightarrow> nat" where
  "count_states d states = count_where (\<lambda>t. t_state t \<in> set states) (d_tasks d)"

text \<open>\<open>start\<close> is the beginning of the local calendar week of \<open>now\<close>, from the C library.\<close>

definition weekly_failed_count :: "taskdb \<Rightarrow> rat \<Rightarrow> rat \<Rightarrow> int option \<Rightarrow> nat" where
  "weekly_failed_count d start now sender =
    count_where (\<lambda>t. t_state t \<in> set FAILED_STATES
      \<and> (list_ex (\<lambda>e. e_task e = t_id t \<and> e_new e \<in> set FAILED_STATES \<and> start \<le> e_at e \<and> e_at e \<le> now) (d_events d)
         \<or> (start \<le> t_updated_at t \<and> t_updated_at t \<le> now
            \<and> \<not> list_ex (\<lambda>e. e_task e = t_id t \<and> e_new e \<in> set FAILED_STATES) (d_events d)))
      \<and> (sender = None \<or> sender = Some (t_sender_id t))) (d_tasks d)"

definition on_local_disk :: "task \<Rightarrow> bool" where
  "on_local_disk t \<longleftrightarrow> t_state t \<in> set LOCAL_STATES \<and> t_transfer_mode t \<noteq> StreamMode"

definition used_local_bytes :: "taskdb \<Rightarrow> int" where
  "used_local_bytes d = sum_where on_local_disk t_file_size (d_tasks d)"

definition pending_growth :: "taskdb \<Rightarrow> int" where
  "pending_growth d =
    sum_where (\<lambda>t. t_state t \<in> set GROWING_STATES \<and> t_transfer_mode t \<noteq> StreamMode)
      (\<lambda>t. if t_downloaded_bytes t < t_file_size t then t_file_size t - t_downloaded_bytes t else 0)
      (d_tasks d)"

section \<open>Field updates and transitions\<close>

text \<open>
  The keyword arguments of \<open>update\<close> and \<open>transition\<close>: one constructor per allowed field, so
  that the test for unknown asg and for unknown transfer modes is the type.
\<close>

datatype assign =
    AState task_state | AFailureKind "fkind option" | AVerification "verification option"
  | AVerifiedAt "rat option" | AMode transfer_mode | ALocal "ustr option" | ARemote "ustr option"
  | ATemp "ustr option" | AFinal "ustr option" | ACancel bool | ADownloaded int | AUploaded int
  | ADownloadRetries int | AUploadRetries int | AError "ustr option" | AWait "ustr option"
  | ANextRetry rat

fun assign_field :: "assign \<Rightarrow> task \<Rightarrow> task" where
  "assign_field (AState s) t = t\<lparr>t_state := s\<rparr>"
| "assign_field (AFailureKind k) t = t\<lparr>t_failure_kind := k\<rparr>"
| "assign_field (AVerification v) t = t\<lparr>t_verification_method := v\<rparr>"
| "assign_field (AVerifiedAt a) t = t\<lparr>t_verified_at := a\<rparr>"
| "assign_field (AMode m) t = t\<lparr>t_transfer_mode := m\<rparr>"
| "assign_field (ALocal p) t = t\<lparr>t_local_path := p\<rparr>"
| "assign_field (ARemote p) t = t\<lparr>t_remote_path := p\<rparr>"
| "assign_field (ATemp p) t = t\<lparr>t_remote_temp_path := p\<rparr>"
| "assign_field (AFinal p) t = t\<lparr>t_remote_final_path := p\<rparr>"
| "assign_field (ACancel b) t = t\<lparr>t_cancel_requested := b\<rparr>"
| "assign_field (ADownloaded n) t = t\<lparr>t_downloaded_bytes := n\<rparr>"
| "assign_field (AUploaded n) t = t\<lparr>t_uploaded_bytes := n\<rparr>"
| "assign_field (ADownloadRetries n) t = t\<lparr>t_download_retries := n\<rparr>"
| "assign_field (AUploadRetries n) t = t\<lparr>t_upload_retries := n\<rparr>"
| "assign_field (AError e) t = t\<lparr>t_error := e\<rparr>"
| "assign_field (AWait w) t = t\<lparr>t_wait_reason := w\<rparr>"
| "assign_field (ANextRetry r) t = t\<lparr>t_next_retry_at := r\<rparr>"

definition assign_all :: "assign list \<Rightarrow> rat \<Rightarrow> task \<Rightarrow> task" where
  "assign_all asg now t = (fold assign_field asg t)\<lparr>t_updated_at := now\<rparr>"

definition sets_state :: "assign \<Rightarrow> bool" where
  "sets_state a = (case a of AState s \<Rightarrow> True | _ \<Rightarrow> False)"

definition update :: "int \<Rightarrow> assign list \<Rightarrow> rat \<Rightarrow> taskdb \<Rightarrow> taskdb" where
  "update i asg now d =
    (if list_ex sets_state asg then upd_state i (assign_all asg now) d
     else upd_task i (assign_all asg now) d)"

definition transition ::
  "int \<Rightarrow> task_state \<Rightarrow> assign list \<Rightarrow> rat \<Rightarrow> taskdb \<Rightarrow> exc + taskdb" where
  "transition i new_state asg now d =
    (if list_ex sets_state asg then Inl (ValueError msg_state_field)
     else (case get_task d i of
         None \<Rightarrow> Inl (KeyError (msg_task_hash @ dec i @ msg_not_exist))
       | Some t \<Rightarrow>
          if \<not> can_transition (t_state t) new_state
          then Inl (ValueError (msg_illegal @ state_name (t_state t) @ asc '' -> '' @ state_name new_state))
          else Inr (upd_state i (assign_all (AState new_state # asg) now) d)))"

definition set_wait_reason ::
  "int \<Rightarrow> ustr \<Rightarrow> task_state list \<Rightarrow> rat \<Rightarrow> taskdb \<Rightarrow> bool \<times> taskdb" where
  "set_wait_reason i reason states now d =
    (case get_task d i of
       None \<Rightarrow> (False, d)
     | Some t \<Rightarrow>
        if t_state t \<notin> set states \<or> t_cancel_requested t \<or> t_wait_reason t = Some reason
        then (False, d)
        else (True, upd_task i (\<lambda>t. t\<lparr>t_wait_reason := Some reason, t_updated_at := now\<rparr>) d))"

section \<open>Admission\<close>

text \<open>
  \<open>f"{shortfall / 1024**3:.2f}"\<close>: the quotient is exact for less than \<open>2 ^ 53\<close> bytes, and the
  two decimals are rounded to the nearest, halves to even.
\<close>

definition gb_text :: "int \<Rightarrow> ustr" where
  "gb_text shortfall =
    (let n = shortfall * 100 div 2 ^ 30; r = shortfall * 100 mod 2 ^ 30;
         m = (if 2 ^ 30 < 2 * r \<or> (2 * r = 2 ^ 30 \<and> odd n) then n + 1 else n)
     in dec (m div 100) @ [46] @ dec02 (nat (m mod 100)))"

definition disk_reason :: "int \<Rightarrow> int \<Rightarrow> ustr" where
  "disk_reason shortfall i =
     msg_wait_disk_1 @ gb_text shortfall @ msg_wait_disk_2 @ dec i @ msg_wait_disk_3"

definition grant :: "transfer_mode \<Rightarrow> rat \<Rightarrow> task \<Rightarrow> task" where
  "grant mode now t = t\<lparr>t_state := Reserved, t_transfer_mode := mode, t_wait_reason := None,
     t_error := None, t_failure_kind := None, t_next_retry_at := 0, t_updated_at := now\<rparr>"

definition reserve ::
  "int \<Rightarrow> int \<Rightarrow> int \<Rightarrow> int \<Rightarrow> rat \<Rightarrow> taskdb \<Rightarrow> (bool \<times> ustr) \<times> taskdb" where
  "reserve i budget free minimum now d =
    (let wait = (\<lambda>reason. ((False, reason), snd (set_wait_reason i reason [Queued] now d))) in
     case get_task d i of
       None \<Rightarrow> ((False, msg_state_changed), d)
     | Some t \<Rightarrow>
        if t_state t \<noteq> Queued \<or> t_cancel_requested t \<or> now < t_next_retry_at t
        then ((False, msg_state_changed), d)
        else if \<not> slot_available d (t_sender_id t) i then wait msg_wait_slot
        else
          let used = used_local_bytes d; growth = pending_growth d; sz = t_file_size t;
              requested_stream = (t_transfer_mode t = StreamMode) in
          if requested_stream \<or> budget < sz then
            (if free \<le> minimum then wait msg_wait_stream_disk
             else ((True, if requested_stream then msg_stream_requested else msg_stream_oversize),
                   upd_state i (grant StreamMode now) d))
          else if budget < used + sz then wait msg_wait_budget
          else if free - growth - sz < minimum
          then wait (disk_reason (minimum + growth + sz - free) i)
          else ((True, []), upd_state i (grant LocalMode now) d))"

section \<open>New tasks\<close>

text \<open>The arguments of \<open>create_task\<close>; \<open>options\<close> is \<open>classification_options\<close>.\<close>

record intake =
  n_chat :: int
  n_message :: int
  n_sender :: int
  n_media_key :: "ustr option"
  n_name :: ustr
  n_size :: int
  n_original :: "ustr option"
  n_kind :: ustr
  n_mime :: ustr
  n_ext :: ustr
  n_base :: "ustr option"
  n_options :: "json option"
  n_override :: "ustr option"
  n_identity :: ustr
  n_source :: "int option"

definition BOT :: ustr where "BOT = asc ''bot''"

definition new_task :: "intake \<Rightarrow> ustr \<Rightarrow> int \<Rightarrow> rat \<Rightarrow> task" where
  "new_task n dir i now = \<lparr>t_id = i, t_chat_id = n_chat n, t_message_id = n_message n,
     t_sender_id = n_sender n, t_media_key = n_media_key n, t_file_name = n_name n,
     t_file_size = n_size n, t_transfer_mode = LocalMode, t_state = Queued, t_local_path = None,
     t_remote_path = None, t_downloaded_bytes = 0, t_uploaded_bytes = 0, t_download_retries = 0,
     t_upload_retries = 0, t_error = None, t_wait_reason = None, t_created_at = now,
     t_updated_at = now, t_next_retry_at = 0, t_remote_temp_path = None,
     t_remote_final_path = None, t_cancel_requested = False, t_failure_kind = None,
     t_verification_method = None, t_verified_at = None, t_original_file_name = n_original n,
     t_target_directory = dir, t_target_base = n_base n, t_read_identity = n_identity n,
     t_source_id = n_source n\<rparr>"

text \<open>
  The duplicate test. Where one row has the message and another one the media, SQL leaves
  open which of the two is returned; the model takes the older one.
\<close>

definition duplicate_of :: "intake \<Rightarrow> task \<Rightarrow> bool" where
  "duplicate_of n t \<longleftrightarrow> (t_chat_id t = n_chat n \<and> t_message_id t = n_message n)
     \<or> (n_media_key n \<noteq> None \<and> t_sender_id t = n_sender n \<and> t_media_key t = n_media_key n)"

text \<open>The row INSERTs, with the constraints of the schema; \<open>None\<close> is an IntegrityError.\<close>

definition insert_task :: "intake \<Rightarrow> ustr \<Rightarrow> rat \<Rightarrow> taskdb \<Rightarrow> (task \<times> taskdb) option" where
  "insert_task n dir now d =
    (if n_size n < 0 \<or> list_ex (duplicate_of n) (d_tasks d) then None
     else let t = new_task n dir (d_seq d + 1) now in
       Some (t, d\<lparr>d_tasks := d_tasks d @ [t], d_seq := d_seq d + 1,
         d_ledger := d_ledger d @ [\<lparr>l_task = t_id t, l_user = n_sender n, l_bytes = n_size n,
                                   l_charged = None, l_released = False\<rparr>]\<rparr>))"

definition target_directory :: "platform \<Rightarrow> taskdb \<Rightarrow> intake \<Rightarrow> rat \<Rightarrow> exc + ustr" where
  "target_directory P d n now =
    bindE (case n_options n of
             Some (JObj (m # ms)) \<Rightarrow> Inr (JObj (m # ms))
           | _ \<Rightarrow> features_read P d) (\<lambda>prefs.
      bindE (directory P prefs now (n_kind n) (n_mime n) (n_ext n)) (\<lambda>dir.
        case n_override n of None \<Rightarrow> Inr dir | Some o_dir \<Rightarrow> safe_directory P o_dir))"

definition identity_ok :: "intake \<Rightarrow> bool" where
  "identity_ok n \<longleftrightarrow> n_identity n = BOT
     \<or> (starts_with (n_identity n) (asc ''listener:'') \<and> n_source n \<noteq> None)"

text \<open>The handler of IntegrityError: the row another connection stored meanwhile.\<close>

definition integrity_fallback :: "intake \<Rightarrow> taskdb \<Rightarrow> exc + (task \<times> bool) \<times> taskdb" where
  "integrity_fallback n d =
    (case find (\<lambda>t. t_chat_id t = n_chat n \<and> t_message_id t = n_message n) (d_tasks d) of
       Some t \<Rightarrow> Inr ((t, False), d)
     | None \<Rightarrow>
        (case (if n_media_key n = None \<or> n_media_key n = Some [] then None
               else find (\<lambda>t. t_sender_id t = n_sender n \<and> t_media_key t = n_media_key n) (d_tasks d)) of
           Some t \<Rightarrow> Inr ((t, False), d)
         | None \<Rightarrow> Inl (IntegrityError [])))"

definition create_task ::
  "platform \<Rightarrow> intake \<Rightarrow> rat \<Rightarrow> taskdb \<Rightarrow> exc + (task \<times> bool) \<times> taskdb" where
  "create_task P n now d =
    (case find (duplicate_of n) (d_tasks d) of
       Some t \<Rightarrow> Inr ((t, False), d)
     | None \<Rightarrow>
        bindE (feature_zone P d) (\<lambda>zone.
        bindE (admit P d (n_sender n) (n_size n) now zone None) (\<lambda>_.
        bindE (target_directory P d n now) (\<lambda>dir.
          if \<not> identity_ok n then Inl (ValueError msg_read_identity)
          else (case insert_task n dir now d of
              Some (t, d') \<Rightarrow> Inr ((t, True), d')
            | None \<Rightarrow> integrity_fallback n d)))))"

section \<open>Recovery by the user\<close>

definition truthy :: "ustr option \<Rightarrow> bool" where
  "truthy p \<longleftrightarrow> (case p of None \<Rightarrow> False | Some s \<Rightarrow> s \<noteq> [])"

definition retain_path :: "int \<Rightarrow> ustr option \<Rightarrow> (ustr \<times> int) list \<Rightarrow> (ustr \<times> int) list" where
  "retain_path i p rs = (case p of None \<Rightarrow> rs
     | Some s \<Rightarrow> if s = [] \<or> s \<in> fst ` set rs then rs else rs @ [(s, i)])"

definition next_recovery_id :: "taskdb \<Rightarrow> int" where
  "next_recovery_id d = foldr (\<lambda>r m. max (r_id r) m) (d_recoveries d) 0 + 1"

definition requeue_row :: "rat \<Rightarrow> bool \<Rightarrow> bool \<Rightarrow> int option \<Rightarrow> task \<Rightarrow> task" where
  "requeue_row now local_complete fresh message t = t\<lparr>
     t_state := (if local_complete then WaitingUpload else Queued),
     t_local_path := (if local_complete then t_local_path t else None),
     t_downloaded_bytes := (if local_complete then t_file_size t else 0),
     t_uploaded_bytes := 0, t_download_retries := 0, t_upload_retries := 0,
     t_remote_path := (if fresh then None else t_remote_path t),
     t_remote_temp_path := (if fresh then None else t_remote_temp_path t),
     t_remote_final_path := (if fresh then None else t_remote_final_path t),
     t_failure_kind := None, t_verification_method := None, t_verified_at := None,
     t_error := None, t_wait_reason := Some msg_requeued, t_next_retry_at := 0,
     t_updated_at := now,
     t_message_id := (case message of None \<Rightarrow> t_message_id t | Some m \<Rightarrow> m)\<rparr>"

text \<open>The confirmed revision: what \<open>requeue\<close> compares before it changes anything.\<close>

definition requeue_ok :: "task \<Rightarrow> int \<Rightarrow> rat \<Rightarrow> bool \<Rightarrow> bool \<Rightarrow> bool" where
  "requeue_ok t sender expected fresh restart \<longleftrightarrow>
     (if restart then t_state t = Cancelled else t_state t \<in> set FAILED_STATES)
     \<and> t_sender_id t = sender \<and> t_updated_at t = expected \<and> \<not> t_cancel_requested t
     \<and> (\<not> needs_review t \<or> fresh)"

definition requeue_op :: "bool \<Rightarrow> bool \<Rightarrow> recovery_op" where
  "requeue_op restart fresh = (if restart then OpRestart else if fresh then OpRename else OpRetry)"

text \<open>
  The writes of \<open>requeue\<close>. The recovery row keeps the whole previous task where the code
  keeps seven of its fields. The UPDATE may break the uniqueness of (chat, message).
\<close>

definition requeue_write ::
  "int \<Rightarrow> task \<Rightarrow> bool \<Rightarrow> bool \<Rightarrow> bool \<Rightarrow> int option \<Rightarrow> rat \<Rightarrow> taskdb \<Rightarrow> exc + taskdb" where
  "requeue_write i t local_complete fresh restart message now d =
    (let kept = (if fresh then retain_path i (t_remote_final_path t)
           (retain_path i (t_remote_temp_path t) (retain_path i (t_remote_path t) (d_retained d)))
         else d_retained d);
         d1 = d\<lparr>d_retained := kept, d_recoveries := d_recoveries d @
           [\<lparr>r_id = next_recovery_id d, r_task = i, r_at = now,
             r_operation = requeue_op restart fresh, r_previous = t\<rparr>]\<rparr>;
         mid = (if t_read_identity t = BOT then message else None)
     in if list_ex (\<lambda>u. t_id u \<noteq> i \<and> t_chat_id u = t_chat_id t \<and> Some (t_message_id u) = mid) (d_tasks d)
        then Inl (IntegrityError [])
        else Inr (upd_state i (requeue_row now local_complete fresh mid) d1))"

definition requeue ::
  "platform \<Rightarrow> int \<Rightarrow> int \<Rightarrow> rat \<Rightarrow> bool \<Rightarrow> bool \<Rightarrow> bool \<Rightarrow> int option \<Rightarrow> rat \<Rightarrow> taskdb
    \<Rightarrow> exc + (bool \<times> taskdb)" where
  "requeue P i sender expected local_complete fresh restart message now d =
    (case get_task d i of
       None \<Rightarrow> Inr (False, d)
     | Some t \<Rightarrow>
        if \<not> requeue_ok t sender expected fresh restart then Inr (False, d)
        else bindE (feature_zone P d) (\<lambda>zone.
          case admit P d sender (t_file_size t) now zone (Some i) of
            Inl (QuotaExceeded m) \<Rightarrow> Inr (False, d)
          | Inl e \<Rightarrow> Inl e
          | Inr _ \<Rightarrow> bindE (requeue_write i t local_complete fresh restart message now d)
                       (\<lambda>d'. Inr (True, d'))))"

section \<open>Cooling down a rate-limited download\<close>

definition ACCOUNT_KEY :: ustr where "ACCOUNT_KEY = asc ''listener_account''"

text \<open>The account record as a JSON value, \<open>{}\<close> where it is missing, too large or not JSON.\<close>

definition stored_account :: "taskdb \<Rightarrow> json" where
  "stored_account d = (case d_meta d ACCOUNT_KEY of
     None \<Rightarrow> JObj []
   | Some (n, parsed) \<Rightarrow> if n \<le> 4096 then (case parsed of None \<Rightarrow> JObj [] | Some j \<Rightarrow> j) else JObj [])"

definition listener_identity :: "int \<Rightarrow> ustr" where
  "listener_identity account = asc ''listener:'' @ dec account"

definition source_matches :: "taskdb \<Rightarrow> task \<Rightarrow> int \<Rightarrow> bool" where
  "source_matches d t account = (case t_source_id t of None \<Rightarrow> False
     | Some sid \<Rightarrow> (case row_of s_id sid (d_sources d) of None \<Rightarrow> False
         | Some s \<Rightarrow> \<not> s_deleted s \<and> s_account s = account \<and> s_chat s = t_chat_id t))"

definition listener_bound :: "taskdb \<Rightarrow> task \<Rightarrow> bool" where
  "listener_bound d t =
    (let a = stored_account d in
     as_obj a \<noteq> None \<and> jget a (asc ''enabled'') = JBool True
     \<and> (case as_int (jget a (asc ''account'')) of None \<Rightarrow> False
        | Some acc \<Rightarrow> t_read_identity t = listener_identity acc \<and> source_matches d t acc))"

definition defer_ok :: "task \<Rightarrow> int \<Rightarrow> rat \<Rightarrow> int \<Rightarrow> bool" where
  "defer_ok t sender expected maximum \<longleftrightarrow>
     t_state t \<in> {Reserved, Downloading} \<and> t_transfer_mode t = LocalMode \<and> \<not> t_cancel_requested t
     \<and> t_sender_id t = sender \<and> t_updated_at t = expected
     \<and> starts_with (t_read_identity t) (asc ''listener:'')
     \<and> \<not> truthy (t_remote_path t) \<and> \<not> truthy (t_remote_temp_path t) \<and> \<not> truthy (t_remote_final_path t)
     \<and> t_download_retries t + 1 < maximum"

definition defer_row :: "rat \<Rightarrow> int \<Rightarrow> task \<Rightarrow> task" where
  "defer_row now seconds t = t\<lparr>t_state := Queued, t_local_path := None, t_downloaded_bytes := 0,
     t_download_retries := t_download_retries t + 1, t_error := None,
     t_failure_kind := Some RateLimited, t_wait_reason := Some msg_deferred,
     t_next_retry_at := now + of_int seconds, t_updated_at := now\<rparr>"

definition defer_listener_download ::
  "int \<Rightarrow> int \<Rightarrow> rat \<Rightarrow> int \<Rightarrow> int \<Rightarrow> rat \<Rightarrow> taskdb \<Rightarrow> bool \<times> taskdb" where
  "defer_listener_download i sender expected seconds maximum now d =
    (if \<not> (5 \<le> seconds \<and> seconds \<le> 60 \<and> 1 \<le> maximum \<and> maximum \<le> 3) then (False, d)
     else (case get_task d i of
         None \<Rightarrow> (False, d)
       | Some t \<Rightarrow>
          if defer_ok t sender expected maximum \<and> listener_bound d t
          then (True, upd_state i (defer_row now seconds) d) else (False, d)))"

section \<open>Requests of the owner\<close>

datatype owner_reply = Missing | Invalid task | RetainedLocal task | Updated task | Already task

definition stream_row :: "rat \<Rightarrow> task \<Rightarrow> task" where
  "stream_row now t = t\<lparr>t_state := Queued, t_transfer_mode := StreamMode, t_downloaded_bytes := 0,
     t_uploaded_bytes := 0, t_download_retries := 0, t_upload_retries := 0, t_error := None,
     t_wait_reason := Some msg_stream_chosen, t_next_retry_at := 0, t_updated_at := now\<rparr>"

definition request_stream :: "int \<Rightarrow> rat \<Rightarrow> taskdb \<Rightarrow> owner_reply \<times> taskdb" where
  "request_stream i now d =
    (case get_task d i of
       None \<Rightarrow> (Missing, d)
     | Some t \<Rightarrow>
        if t_cancel_requested t \<or> t_state t \<notin> {Queued, DownloadFailed} then (Invalid t, d)
        else if truthy (t_local_path t) then (RetainedLocal t, d)
        else (Updated (stream_row now t), upd_state i (stream_row now) d))"

definition confirm_row :: "rat \<Rightarrow> task \<Rightarrow> task" where
  "confirm_row now t = t\<lparr>t_state := Confirmed, t_error := None, t_wait_reason := None,
     t_next_retry_at := 0, t_updated_at := now\<rparr>"

definition confirm_115 :: "int \<Rightarrow> rat \<Rightarrow> taskdb \<Rightarrow> owner_reply \<times> taskdb" where
  "confirm_115 i now d =
    (case get_task d i of
       None \<Rightarrow> (Missing, d)
     | Some t \<Rightarrow>
        if t_state t = Confirmed then (Already t, d)
        else if t_state t \<noteq> Completed then (Invalid t, d)
        else (Updated (confirm_row now t), upd_state i (confirm_row now) d))"

definition confirm_completed ::
  "int \<Rightarrow> int option \<Rightarrow> rat \<Rightarrow> taskdb \<Rightarrow> int list \<times> taskdb" where
  "confirm_completed limit sender now d =
    (let n = nat (max 1 (min limit 100));
         ids = map t_id (take n (rev (filter (\<lambda>t. t_state t = Completed
                 \<and> (sender = None \<or> sender = Some (t_sender_id t))) (d_tasks d))))
     in (ids, fold (\<lambda>i. upd_state i (confirm_row now)) ids d))"

end
