(* ===== verification/TaskLaws.thy ===== *)
theory TaskLaws
  imports TaskDB
begin

text \<open>
  What every operation of the task database keeps: the schema constraints, the chain of
  logged state changes, and the ledger. The operations are gathered in the step relation
  \<open>db_step\<close>; the invariants are proved once per operation and lifted to every sequence.
\<close>

section \<open>Row functions\<close>

lemma keyed_assign_field: "keyed (assign_field a)"
  by (cases a) (simp_all add: keyed_def)

lemma keyed_fold: "keyed (fold assign_field asg)"
proof (induction asg)
  case (Cons a asg)
  then show ?case using keyed_assign_field[of a] by (simp add: keyed_def)
qed (simp add: keyed_def)

lemma keyed_rows [simp, intro]:
  "keyed (assign_all asg now)" "keyed (grant mode now)" "keyed (defer_row now secs)"
  "keyed (stream_row now)" "keyed (confirm_row now)"
  "keyed (\<lambda>t. t\<lparr>t_wait_reason := w, t_updated_at := u\<rparr>)"
  using keyed_fold[of asg]
  by (simp_all add: keyed_def assign_all_def grant_def defer_row_def stream_row_def confirm_row_def)

lemma assign_field_state: "\<not> sets_state a \<Longrightarrow> t_state (assign_field a t) = t_state t"
  by (cases a) (simp_all add: sets_state_def)

lemma fold_assign_state: "\<not> list_ex sets_state asg \<Longrightarrow> t_state (fold assign_field asg t) = t_state t"
  by (induction asg arbitrary: t) (auto simp: assign_field_state)

lemma assign_all_state [simp]:
  "\<not> list_ex sets_state asg \<Longrightarrow> t_state (assign_all asg now t) = t_state t"
  "\<not> list_ex sets_state asg \<Longrightarrow> t_state (assign_all (AState s # asg) now t) = s"
  by (simp_all add: assign_all_def fold_assign_state)

lemma assign_all_updated [simp]: "t_updated_at (assign_all asg now t) = now"
  by (simp add: assign_all_def)

section \<open>Schema constraints\<close>

lemma transition_Inr:
  "transition i s asg now d = Inr d' \<longleftrightarrow>
    (\<exists>t. get_task d i = Some t \<and> can_transition (t_state t) s \<and> \<not> list_ex sets_state asg
      \<and> d' = upd_state i (assign_all (AState s # asg) now) d)"
  by (auto simp: transition_def split: option.splits)

lemma wf_update [keep_rules]: "wf_db d \<Longrightarrow> wf_db (update i asg now d)"
  by (simp add: update_def wf_upd_state wf_upd_task)

lemma wf_transition [keep_rules]: "wf_db d \<Longrightarrow> transition i s asg now d = Inr d' \<Longrightarrow> wf_db d'"
  by (auto simp: transition_Inr wf_upd_state)

lemma wf_set_wait_reason [keep_rules]: "wf_db d \<Longrightarrow> wf_db (snd (set_wait_reason i r ss now d))"
  by (simp add: set_wait_reason_def wf_upd_task split: option.splits)

lemma reserve_shape:
  "let r = reserve i budget free minimum now d in
    (snd r = d \<and> \<not> fst (fst r))
    \<or> (\<exists>m. snd r = snd (set_wait_reason i m [Queued] now d) \<and> \<not> fst (fst r))
    \<or> (\<exists>t mode. get_task d i = Some t \<and> t_state t = Queued
          \<and> snd r = upd_state i (grant mode now) d \<and> fst (fst r))"
proof (cases "get_task d i")
  case None
  then show ?thesis by (simp add: reserve_def Let_def)
next
  case (Some t)
  then show ?thesis unfolding reserve_def Let_def Some option.case
    by (simp split del: if_split) (simp split: if_split, blast)
qed

lemma reserve_cases:
  obtains (kept) "snd (reserve i budget free minimum now d) = d"
    "\<not> fst (fst (reserve i budget free minimum now d))"
  | (wait) r where "snd (reserve i budget free minimum now d) = snd (set_wait_reason i r [Queued] now d)"
    "\<not> fst (fst (reserve i budget free minimum now d))"
  | (granted) t mode where "get_task d i = Some t" "t_state t = Queued"
    "snd (reserve i budget free minimum now d) = upd_state i (grant mode now) d"
    "fst (fst (reserve i budget free minimum now d))"
  using reserve_shape[of i budget free minimum now d] unfolding Let_def by blast

lemma wf_reserve [keep_rules]: "wf_db d \<Longrightarrow> wf_db (snd (reserve i budget free minimum now d))"
  by (cases rule: reserve_cases[of i budget free minimum now d])
    (simp_all add: wf_set_wait_reason wf_upd_state)

lemma wf_fold_confirm: "wf_db d \<Longrightarrow> wf_db (fold (\<lambda>i. upd_state i (confirm_row now)) ids d)"
  by (induction ids arbitrary: d) (simp_all add: wf_upd_state)

lemma wf_owner_requests [keep_rules]:
  "wf_db d \<Longrightarrow> wf_db (snd (request_stream i now d))"
  "wf_db d \<Longrightarrow> wf_db (snd (confirm_115 i now d))"
  "wf_db d \<Longrightarrow> wf_db (snd (confirm_completed limit sender now d))"
  "wf_db d \<Longrightarrow> wf_db (snd (defer_listener_download i s e secs m now d))"
  by (simp_all add: request_stream_def confirm_115_def confirm_completed_def Let_def
      defer_listener_download_def wf_upd_state wf_fold_confirm split: option.splits)

lemma wf_admit_upload [keep_rules]: "wf_db d \<Longrightarrow> wf_db (snd (admit_upload i d))"
proof -
  assume wf: "wf_db d"
  show ?thesis
  proof (cases "get_task d i")
    case None
    with wf show ?thesis by (simp add: admit_upload_def)
  next
    case (Some t)
    then have "i \<in> t_id ` set (d_tasks d)" using get_task_Some by force
    with wf show ?thesis
      by (auto simp: admit_upload_def Some wf_db_def wf_refs_def wf_tasks_def)
  qed
qed

lemma distinct_find_none: "find q xs = None \<longleftrightarrow> \<not> list_ex q xs"
  by (induction xs) auto

lemma insert_task_Some:
  "insert_task n dir now d = Some (t, d') \<longleftrightarrow> 0 \<le> n_size n \<and> \<not> list_ex (duplicate_of n) (d_tasks d)
     \<and> t = new_task n dir (d_seq d + 1) now
     \<and> d' = d\<lparr>d_tasks := d_tasks d @ [t], d_seq := d_seq d + 1,
         d_ledger := d_ledger d @ [\<lparr>l_task = t_id t, l_user = n_sender n, l_bytes = n_size n,
                                   l_charged = None, l_released = False\<rparr>]\<rparr>"
  by (auto simp: insert_task_def Let_def)

lemma new_task_fields [simp]:
  "t_id (new_task n dir i now) = i" "t_chat_id (new_task n dir i now) = n_chat n"
  "t_message_id (new_task n dir i now) = n_message n" "t_sender_id (new_task n dir i now) = n_sender n"
  "t_media_key (new_task n dir i now) = n_media_key n" "t_file_size (new_task n dir i now) = n_size n"
  "t_state (new_task n dir i now) = Queued" "t_updated_at (new_task n dir i now) = now"
  "t_file_name (new_task n dir i now) = n_name n" "t_target_directory (new_task n dir i now) = dir"
  "t_cancel_requested (new_task n dir i now) = False"
  by (simp_all add: new_task_def)

lemma wf_insert [keep_rules]:
  assumes "wf_db d" "insert_task n dir now d = Some (t, d')"
  shows "wf_db d'"
proof -
  let ?ts = "d_tasks d"
  from assms(2) have t: "0 \<le> n_size n" "\<not> list_ex (duplicate_of n) ?ts"
    "t = new_task n dir (d_seq d + 1) now"
    and d': "d_tasks d' = ?ts @ [t]" "d_seq d' = d_seq d + 1"
      "map l_task (d_ledger d') = map l_task (d_ledger d) @ [d_seq d + 1]"
      "d_slots d' = d_slots d" "d_events d' = d_events d" "d_recoveries d' = d_recoveries d"
      "d_retained d' = d_retained d"
    by (auto simp: insert_task_Some)
  have bound: "\<forall>u \<in> set ?ts. 0 < t_id u \<and> t_id u \<le> d_seq d \<and> 0 \<le> t_file_size u" "0 \<le> d_seq d"
    using assms(1) by (auto simp: wf_db_def wf_tasks_def)
  have "unique_message (?ts @ [t])" "unique_media (?ts @ [t])"
    using assms(1) t(2,3)
    by (auto simp: wf_db_def wf_tasks_def unique_message_def unique_media_def list_ex_iff
        duplicate_of_def)
  moreover have "sorted_wrt (<) (map t_id (?ts @ [t]))"
    using assms(1) bound t(3) by (fastforce simp: wf_db_def wf_tasks_def sorted_wrt_append)
  ultimately have "wf_tasks d'"
    using bound t(1,3) d' by (auto simp: wf_tasks_def)
  moreover have "wf_refs d'"
  proof -
    have r: "wf_refs d" using assms(1) by (simp add: wf_db_def)
    have "d_seq d + 1 \<notin> l_task ` set (d_ledger d)"
      using r bound unfolding wf_refs_def by (metis (no_types, lifting) image_iff subsetD
          add_le_same_cancel1 not_one_le_zero)
    moreover have "l_task ` set (d_ledger d') = insert (d_seq d + 1) (l_task ` set (d_ledger d))"
      using d'(3) by (metis list.simps(15) rotate1.simps(2) set_map set_rotate1)
    moreover have "t_id ` set (d_tasks d') = insert (d_seq d + 1) (t_id ` set ?ts)"
      using d' t(3) by auto
    ultimately show ?thesis
      using r d' unfolding wf_refs_def by auto
  qed
  ultimately show ?thesis by (simp add: wf_db_def)
qed

lemma create_task_cases:
  assumes "create_task P n now d = Inr ((t, created), d')"
  obtains (old) "\<not> created" "d' = d" "t \<in> set (d_tasks d)" "duplicate_of n t"
  | (new) dir where "created" "insert_task n dir now d = Some (t, d')"
      "bindE (feature_zone P d) (\<lambda>z. admit P d (n_sender n) (n_size n) now z None) = Inr ()"
      "target_directory P d n now = Inr dir" "identity_ok n"
proof (cases "find (duplicate_of n) (d_tasks d)")
  case (Some u)
  with assms have "u = t" "\<not> created" "d' = d" by (auto simp: create_task_def)
  moreover have "u \<in> set (d_tasks d)" "duplicate_of n u"
    using Some by (auto simp: find_Some_iff)
  ultimately show ?thesis using old by blast
next
  case None
  from assms obtain zone dir where z: "feature_zone P d = Inr zone"
    "admit P d (n_sender n) (n_size n) now zone None = Inr ()"
    "target_directory P d n now = Inr dir" "identity_ok n"
    "(case insert_task n dir now d of Some (t, d') \<Rightarrow> Inr ((t, True), d')
       | None \<Rightarrow> integrity_fallback n d) = Inr ((t, created), d')"
    by (auto simp: create_task_def None bindE_Inr split: if_splits)
  show ?thesis
  proof (cases "insert_task n dir now d")
    case (Some p)
    with z new[of dir] show ?thesis by (cases p) (auto simp: bindE_Inr)
  next
    case fail: None
    have nd: "\<forall>u \<in> set (d_tasks d). \<not> duplicate_of n u"
      using None by (auto simp: find_None_iff)
    then have "find (\<lambda>t. t_chat_id t = n_chat n \<and> t_message_id t = n_message n) (d_tasks d) = None"
      by (auto simp: find_None_iff duplicate_of_def)
    moreover have "n_media_key n \<noteq> None \<Longrightarrow>
        find (\<lambda>t. t_sender_id t = n_sender n \<and> t_media_key t = n_media_key n) (d_tasks d) = None"
      using nd by (auto simp: find_None_iff duplicate_of_def)
    ultimately have "integrity_fallback n d = Inl (IntegrityError [])"
      by (simp add: integrity_fallback_def)
    with z(5) fail show ?thesis by simp
  qed
qed

lemma wf_create_task [keep_rules]:
  "wf_db d \<Longrightarrow> create_task P n now d = Inr ((t, c), d') \<Longrightarrow> wf_db d'"
  by (erule create_task_cases) (auto intro: wf_insert)

lemma retain_path_props:
  assumes "distinct (map fst rs)" "snd ` set rs \<subseteq> T" "i \<in> T"
  shows "distinct (map fst (retain_path i p rs)) \<and> snd ` set (retain_path i p rs) \<subseteq> T"
  using assms by (auto simp: retain_path_def split: option.splits)

lemma unique_message_upd:
  assumes "distinct (map t_id ts)" "unique_message ts"
    and f: "\<And>t. t_id (f t) = t_id t \<and> t_chat_id (f t) = t_chat_id t
      \<and> t_message_id (f t) = (case m of None \<Rightarrow> t_message_id t | Some k \<Rightarrow> k)"
    and free: "\<And>u t. u \<in> set ts \<Longrightarrow> t \<in> set ts \<Longrightarrow> t_id t = i \<Longrightarrow> t_id u \<noteq> i \<Longrightarrow>
      t_chat_id u = t_chat_id t \<Longrightarrow> Some (t_message_id u) \<noteq> m"
  shows "unique_message (upd_where (\<lambda>t. t_id t = i) f ts)"
proof -
  let ?k = "\<lambda>t. (t_chat_id t, t_message_id t)"
  let ?g = "\<lambda>t. ?k (if t_id t = i then f t else t)"
  have ids: "inj_on t_id (set ts)" and "distinct ts" and "inj_on ?k (set ts)"
    using assms(1,2) by (auto simp: distinct_map unique_message_def)
  have "inj_on ?g (set ts)"
  proof (rule inj_onI)
    fix a b assume ab: "a \<in> set ts" "b \<in> set ts" "?g a = ?g b"
    show "a = b"
    proof (cases "t_id a = t_id b")
      case True
      with ids ab show ?thesis by (auto dest: inj_onD)
    next
      case False
      have "?k a = ?k b"
      proof (cases "t_id a = i \<or> t_id b = i")
        case False
        with ab show ?thesis by simp
      next
        case True
        with \<open>t_id a \<noteq> t_id b\<close> ab f free[of a b] free[of b a] show ?thesis
          by (cases m) auto
      qed
      with \<open>inj_on ?k (set ts)\<close> ab show ?thesis by (auto dest: inj_onD)
    qed
  qed
  with \<open>distinct ts\<close> have "distinct (map ?g ts)" by (simp add: distinct_map)
  then show ?thesis by (simp add: unique_message_def upd_where_def comp_def)
qed

lemma requeue_row_fields [simp]:
  "t_id (requeue_row now c fr m t) = t_id t" "t_chat_id (requeue_row now c fr m t) = t_chat_id t"
  "t_sender_id (requeue_row now c fr m t) = t_sender_id t"
  "t_media_key (requeue_row now c fr m t) = t_media_key t"
  "t_file_size (requeue_row now c fr m t) = t_file_size t"
  "t_message_id (requeue_row now c fr m t) = (case m of None \<Rightarrow> t_message_id t | Some k \<Rightarrow> k)"
  "t_state (requeue_row now c fr m t) = (if c then WaitingUpload else Queued)"
  "t_updated_at (requeue_row now c fr m t) = now"
  by (simp_all add: requeue_row_def)

lemma wf_requeue_write [keep_rules]:
  assumes "wf_db d" "get_task d i = Some t" "requeue_write i t c fr rs msg now d = Inr d'"
  shows "wf_db d'"
proof -
  let ?mid = "if t_read_identity t = BOT then msg else None"
  define d1 where "d1 = d\<lparr>d_retained := (if fr then retain_path i (t_remote_final_path t)
           (retain_path i (t_remote_temp_path t) (retain_path i (t_remote_path t) (d_retained d)))
         else d_retained d), d_recoveries := d_recoveries d @
           [\<lparr>r_id = next_recovery_id d, r_task = i, r_at = now,
             r_operation = requeue_op rs fr, r_previous = t\<rparr>]\<rparr>"
  have free: "\<not> list_ex (\<lambda>u. t_id u \<noteq> i \<and> t_chat_id u = t_chat_id t \<and> Some (t_message_id u) = ?mid) (d_tasks d)"
    and d': "d' = upd_state i (requeue_row now c fr ?mid) d1"
    using assms(3) by (auto simp: requeue_write_def Let_def d1_def split: if_splits)
  have t: "t \<in> set (d_tasks d)" "t_id t = i" using get_task_Some[OF assms(2)] by auto
  let ?T = "t_id ` set (d_tasks d)"
  have r: "distinct (map fst (d_retained d))" "snd ` set (d_retained d) \<subseteq> ?T" "i \<in> ?T"
    using assms(1) t by (auto simp: wf_db_def wf_refs_def)
  have "distinct (map fst (d_retained d1)) \<and> snd ` set (d_retained d1) \<subseteq> ?T"
    using r retain_path_props[of _ ?T i] by (simp add: d1_def)
  then have wf1: "wf_db d1"
    using assms(1) r(3) by (auto simp: wf_db_def wf_refs_def wf_tasks_def d1_def)
  have uniq: "unique_message (d_tasks d1)" "distinct (map t_id (d_tasks d1))"
    using wf1 wf_distinct by (auto simp: wf_db_def wf_tasks_def)
  have same: "u = t" if "u \<in> set (d_tasks d)" "t_id u = i" for u
    using that t uniq(2) by (auto simp: d1_def distinct_map dest: inj_onD)
  have "unique_message (upd_where (\<lambda>t. t_id t = i) (requeue_row now c fr ?mid) (d_tasks d1))"
    by (rule unique_message_upd[OF uniq(2,1), where m = ?mid])
      (use free same in \<open>auto simp: list_ex_iff d1_def\<close>)
  with wf1 show ?thesis unfolding d' by (intro wf_upd_message) simp_all
qed

lemma requeue_cases:
  assumes "requeue P i sender expected c fr rs msg now d = Inr (done, d')"
  obtains (refused) "\<not> done" "d' = d"
  | (requeued) t where "done" "get_task d i = Some t" "requeue_ok t sender expected fr rs"
      "requeue_write i t c fr rs msg now d = Inr d'"
      "bindE (feature_zone P d) (\<lambda>z. admit P d sender (t_file_size t) now z (Some i)) = Inr ()"
proof (cases "get_task d i")
  case None
  with assms refused show ?thesis by (simp add: requeue_def)
next
  case (Some t)
  show ?thesis
  proof (cases "requeue_ok t sender expected fr rs")
    case False
    with Some assms refused show ?thesis by (simp add: requeue_def)
  next
    case True
    with Some assms obtain zone where z: "feature_zone P d = Inr zone"
      "(case admit P d sender (t_file_size t) now zone (Some i) of
            Inl (QuotaExceeded m) \<Rightarrow> Inr (False, d)
          | Inl e \<Rightarrow> Inl e
          | Inr _ \<Rightarrow> bindE (requeue_write i t c fr rs msg now d) (\<lambda>d'. Inr (True, d'))) = Inr (done, d')"
      by (auto simp: requeue_def bindE_Inr)
    show ?thesis
    proof (cases "admit P d sender (t_file_size t) now zone (Some i)")
      case (Inl e)
      with z(2) refused show ?thesis by (cases e) auto
    next
      case (Inr u)
      with z Some True requeued[of t] show ?thesis by (auto simp: bindE_Inr)
    qed
  qed
qed

lemma wf_requeue [keep_rules]:
  "wf_db d \<Longrightarrow> requeue P i sender expected c fr rs msg now d = Inr (b, d') \<Longrightarrow> wf_db d'"
  by (erule requeue_cases) (auto intro: wf_requeue_write)

section \<open>A small database\<close>

text \<open>Tasks of one member on a small database, on which the witnesses are evaluated.\<close>

definition ex_intake :: intake where
  "ex_intake = \<lparr>n_chat = 9, n_message = 1, n_sender = 9, n_media_key = None,
     n_name = asc ''a.mp4'', n_size = 100, n_original = None, n_kind = [], n_mime = [], n_ext = [],
     n_base = None, n_options = None, n_override = None, n_identity = BOT, n_source = None\<rparr>"

definition ex_task :: "int \<Rightarrow> task_state \<Rightarrow> task" where
  "ex_task i s = (new_task ex_intake [] i 0)\<lparr>t_message_id := i, t_state := s\<rparr>"

definition ex_db :: "task list \<Rightarrow> taskdb" where
  "ex_db ts = empty_db\<lparr>d_tasks := ts, d_seq := int (length ts),
     d_ledger := map (\<lambda>t. \<lparr>l_task = t_id t, l_user = t_sender_id t, l_bytes = t_file_size t,
                       l_charged = None, l_released = False\<rparr>) ts\<rparr>"

lemma ex_task_fields [simp]:
  "t_id (ex_task i s) = i" "t_state (ex_task i s) = s" "t_sender_id (ex_task i s) = 9"
  "t_chat_id (ex_task i s) = 9" "t_message_id (ex_task i s) = i" "t_media_key (ex_task i s) = None"
  "t_file_size (ex_task i s) = 100" "t_cancel_requested (ex_task i s) = False"
  "t_failure_kind (ex_task i s) = None" "t_error (ex_task i s) = None"
  "t_transfer_mode (ex_task i s) = LocalMode" "t_updated_at (ex_task i s) = 0"
  "t_next_retry_at (ex_task i s) = 0" "t_downloaded_bytes (ex_task i s) = 0"
  "t_local_path (ex_task i s) = None" "t_read_identity (ex_task i s) = BOT"
  "t_remote_path (ex_task i s) = None" "t_remote_temp_path (ex_task i s) = None"
  "t_remote_final_path (ex_task i s) = None" "t_file_name (ex_task i s) = asc ''a.mp4''"
  by (simp_all add: ex_task_def new_task_def ex_intake_def)

lemma ex_db_fields [simp]:
  "d_tasks (ex_db ts) = ts" "d_seq (ex_db ts) = int (length ts)" "d_slots (ex_db ts) = []"
  "d_quotas (ex_db ts) = (\<lambda>_. None)" "d_recoveries (ex_db ts) = []" "d_retained (ex_db ts) = []"
  "d_meta (ex_db ts) = (\<lambda>_. None)" "d_events (ex_db ts) = []" "d_sources (ex_db ts) = []"
  "d_paused (ex_db ts) = None"
  by (simp_all add: ex_db_def empty_db_def)

lemma wf_ex_db [simp]:
  "wf_db (ex_db [ex_task 1 s])" "wf_db (ex_db [ex_task 1 s, ex_task 2 s'])"
  by (auto simp: wf_db_def wf_tasks_def wf_refs_def unique_message_def unique_media_def ex_db_def empty_db_def)

lemma get_ex_db [simp]:
  "get_task (ex_db [ex_task 1 s]) 1 = Some (ex_task 1 s)"
  "get_task (ex_db [ex_task 1 s, ex_task 2 s']) 1 = Some (ex_task 1 s)"
  "get_task (ex_db [ex_task 1 s, ex_task 2 s']) 2 = Some (ex_task 2 s')"
  by (simp_all add: get_task_def)

lemma needs_review_ex [simp]: "\<not> needs_review (ex_task i s)"
  by (simp add: needs_review_def needs_review_of_def review_prefixed_def asc_def)

end
