(* ===== verification/Recovery.thy ===== *)
theory Recovery
  imports TaskLaws
begin

text \<open>
  \<open>TaskDB.recover\<close> of \<open>src/tg2cloud/persistence/sqlite.py\<close>: what a restart does with the
  tasks that were in flight.

  \<open>files\<close> is the disk as \<open>recover\<close> sees it: the size of each regular file, which paths exist,
  and which of them can be unlinked. The loop visits the selected rows in order and each
  visit writes only its own row, so that what it reads of the other rows does not matter; the
  only file it removes is \<open><id>.part\<close>, which no other visit looks at.
\<close>

section \<open>The disk\<close>

record files =
  f_size :: "ustr \<Rightarrow> int option"
  f_exists :: "ustr \<Rightarrow> bool"
  f_unlinks :: "ustr \<Rightarrow> bool"

definition in_dir :: "ustr \<Rightarrow> ustr \<Rightarrow> ustr" where
  "in_dir dir name = dir @ [47] @ name"

definition part_path :: "ustr \<Rightarrow> int \<Rightarrow> ustr" where
  "part_path dir i = in_dir dir (dec i @ asc ''.part'')"

definition final_path :: "platform \<Rightarrow> ustr \<Rightarrow> task \<Rightarrow> ustr" where
  "final_path P dir t = in_dir dir (dec (t_id t) @ asc ''-'' @ safe_file_name P (t_file_name t) (dec (t_id t)))"

section \<open>One row\<close>

datatype recovery =
    RSkip | RHold | RStream | RResume | RFound ustr | RLost | RStuck | RRequeue "ustr option"

definition RECOVERED_STATES :: "task_state list" where
  "RECOVERED_STATES = [Reserved, Downloading, Downloaded, WaitingUpload, Uploading, Verifying,
     Finalizing, Streaming, UploadFailedRetained, VerificationFailedRetained]"

definition complete_at :: "files \<Rightarrow> ustr \<Rightarrow> int \<Rightarrow> bool" where
  "complete_at fs path sz \<longleftrightarrow> f_size fs path = Some sz"

definition recover_action :: "platform \<Rightarrow> files \<Rightarrow> ustr \<Rightarrow> task \<Rightarrow> recovery" where
  "recover_action P fs dir t =
    (if t_cancel_requested t then RSkip
     else if needs_review t
        \<or> t_failure_kind t \<in> {Some Authentication, Some Permission, Some RateLimited} then RHold
     else if t_transfer_mode t = StreamMode then RStream
     else if (case t_local_path t of None \<Rightarrow> False
        | Some p \<Rightarrow> p \<noteq> [] \<and> \<not> ends_with p (asc ''.part'') \<and> complete_at fs p (t_file_size t))
     then RResume
     else if complete_at fs (final_path P dir t) (t_file_size t) then RFound (final_path P dir t)
     else if t_state t \<in> {UploadFailedRetained, VerificationFailedRetained} then RLost
     else let part = part_path dir (t_id t) in
       if f_exists fs part then (if f_unlinks fs part then RRequeue (Some part) else RStuck)
       else RRequeue None)"

fun recover_write :: "recovery \<Rightarrow> rat \<Rightarrow> task \<Rightarrow> task" where
  "recover_write RStream now t = t\<lparr>t_state := Queued, t_local_path := None, t_downloaded_bytes := 0,
     t_upload_retries := 0, t_wait_reason := Some msg_rec_stream, t_next_retry_at := 0,
     t_updated_at := now\<rparr>"
| "recover_write RResume now t = t\<lparr>t_state := WaitingUpload, t_error := None, t_upload_retries := 0,
     t_next_retry_at := 0, t_wait_reason := Some msg_rec_upload, t_updated_at := now\<rparr>"
| "recover_write (RFound p) now t = t\<lparr>t_state := WaitingUpload, t_local_path := Some p,
     t_downloaded_bytes := t_file_size t, t_error := None, t_upload_retries := 0,
     t_next_retry_at := 0, t_wait_reason := Some msg_rec_found, t_updated_at := now\<rparr>"
| "recover_write RLost now t = t\<lparr>t_state := Queued, t_local_path := None, t_downloaded_bytes := 0,
     t_download_retries := 0, t_upload_retries := 0, t_wait_reason := Some msg_rec_lost,
     t_next_retry_at := 0, t_updated_at := now\<rparr>"
| "recover_write RStuck now t = t\<lparr>t_state := DownloadFailed, t_error := Some msg_rec_part,
     t_updated_at := now\<rparr>"
| "recover_write (RRequeue u) now t = t\<lparr>t_state := Queued, t_local_path := None,
     t_downloaded_bytes := 0,
     t_download_retries := (if starts_with (ascii_lower (t_read_identity t)) (asc ''listener:'')
                            then t_download_retries t else 0),
     t_upload_retries := 0, t_wait_reason := Some msg_rec_queued, t_updated_at := now\<rparr>"
| "recover_write a now t = t"

text \<open>The counters \<open>queued\<close>, \<open>waiting_upload\<close>, \<open>failed\<close>, and the files removed.\<close>

record recovered =
  rec_queued :: nat
  rec_waiting :: nat
  rec_failed :: nat
  rec_unlinked :: "ustr list"

fun recover_count :: "recovery \<Rightarrow> recovered \<Rightarrow> recovered" where
  "recover_count RSkip r = r"
| "recover_count RHold r = r\<lparr>rec_failed := rec_failed r + 1\<rparr>"
| "recover_count RStream r = r\<lparr>rec_queued := rec_queued r + 1\<rparr>"
| "recover_count RResume r = r\<lparr>rec_waiting := rec_waiting r + 1\<rparr>"
| "recover_count (RFound p) r = r\<lparr>rec_waiting := rec_waiting r + 1\<rparr>"
| "recover_count RLost r = r\<lparr>rec_queued := rec_queued r + 1\<rparr>"
| "recover_count RStuck r = r\<lparr>rec_failed := rec_failed r + 1\<rparr>"
| "recover_count (RRequeue u) r = r\<lparr>rec_queued := rec_queued r + 1,
     rec_unlinked := rec_unlinked r @ (case u of None \<Rightarrow> [] | Some p \<Rightarrow> [p])\<rparr>"

definition recover_row ::
  "platform \<Rightarrow> files \<Rightarrow> ustr \<Rightarrow> rat \<Rightarrow> task \<Rightarrow> recovered \<times> taskdb \<Rightarrow> recovered \<times> taskdb" where
  "recover_row P fs dir now t rd =
    (let a = recover_action P fs dir t in
     (recover_count a (fst rd),
      if a \<in> {RSkip, RHold} then snd rd else upd_state (t_id t) (recover_write a now) (snd rd)))"

definition recover ::
  "platform \<Rightarrow> files \<Rightarrow> ustr \<Rightarrow> int option \<Rightarrow> rat \<Rightarrow> taskdb \<Rightarrow> recovered \<times> taskdb" where
  "recover P fs dir only now d =
    fold (recover_row P fs dir now)
      (filter (\<lambda>t. t_state t \<in> set RECOVERED_STATES \<and> (only = None \<or> only = Some (t_id t))) (d_tasks d))
      (\<lparr>rec_queued = 0, rec_waiting = 0, rec_failed = 0, rec_unlinked = []\<rparr>, d)"

section \<open>Lemmas\<close>

lemma keyed_recover_write [simp, intro]: "keyed (recover_write a now)"
  by (cases a) (simp_all add: keyed_def)

lemma wf_recover_row [keep_rules]:
  "wf_db (snd rd) \<Longrightarrow> wf_db (snd (recover_row P fs dir now t rd))"
  by (simp add: recover_row_def Let_def wf_upd_state)

lemma wf_fold_recover:
  "wf_db (snd rd) \<Longrightarrow> wf_db (snd (fold (recover_row P fs dir now) ts rd))"
  by (induction ts arbitrary: rd) (simp_all add: wf_recover_row)

lemma wf_recover [keep_rules]: "wf_db d \<Longrightarrow> wf_db (snd (recover P fs dir only now d))"
  by (simp add: recover_def wf_fold_recover)

text \<open>The effect on one task: the loop changes each selected row once, by its own action.\<close>

definition recovered_task :: "platform \<Rightarrow> files \<Rightarrow> ustr \<Rightarrow> rat \<Rightarrow> task \<Rightarrow> task" where
  "recovered_task P fs dir now t =
    (let a = recover_action P fs dir t in if a \<in> {RSkip, RHold} then t else recover_write a now t)"

lemma get_recover_row:
  "get_task (snd (recover_row P fs dir now t rd)) j =
    (if j = t_id t \<and> recover_action P fs dir t \<notin> {RSkip, RHold}
     then map_option (recover_write (recover_action P fs dir t) now) (get_task (snd rd) j)
     else get_task (snd rd) j)"
  by (simp add: recover_row_def Let_def row_simps)

lemma get_fold_recover:
  assumes "distinct (map t_id ts)" "\<And>t. t \<in> set ts \<Longrightarrow> get_task (snd rd) (t_id t) = Some t"
  shows "get_task (snd (fold (recover_row P fs dir now) ts rd)) j =
    (case row_of t_id j ts of None \<Rightarrow> get_task (snd rd) j
     | Some t \<Rightarrow> Some (recovered_task P fs dir now t))"
  using assms
proof (induction ts arbitrary: rd)
  case (Cons t ts)
  let ?rd = "recover_row P fs dir now t rd"
  have "get_task (snd ?rd) (t_id u) = Some u" if "u \<in> set ts" for u
  proof -
    have "t_id u \<noteq> t_id t" using Cons.prems(1) that by (auto simp: image_iff)
    then show ?thesis using Cons.prems(2)[of u] that by (simp add: get_recover_row)
  qed
  then have IH: "get_task (snd (fold (recover_row P fs dir now) ts ?rd)) j =
    (case row_of t_id j ts of None \<Rightarrow> get_task (snd ?rd) j
     | Some t \<Rightarrow> Some (recovered_task P fs dir now t))"
    using Cons.IH[of ?rd] Cons.prems(1) by simp
  show ?case
  proof (cases "j = t_id t")
    case True
    then have "row_of t_id j ts = None" using Cons.prems(1) by (simp add: row_of_None)
    with IH True Cons.prems(2)[of t] show ?thesis
      by (auto simp: get_recover_row recovered_task_def Let_def)
  next
    case False
    then have "get_task (snd ?rd) j = get_task (snd rd) j" by (simp add: get_recover_row)
    with IH False show ?thesis by (simp split: option.split)
  qed
qed simp

lemma row_of_filter:
  assumes "distinct (map t_id ts)"
  shows "row_of t_id j (filter p ts) =
    (case row_of t_id j ts of None \<Rightarrow> None | Some t \<Rightarrow> if p t then Some t else None)"
  using assms
proof (induction ts)
  case (Cons t ts)
  then have "t_id t = j \<Longrightarrow> row_of t_id j ts = None" by (simp add: row_of_None)
  with Cons show ?case by (auto split: option.splits)
qed simp

lemma get_recover:
  assumes "wf_db d"
  shows "get_task (snd (recover P fs dir only now d)) j =
    map_option (\<lambda>t. if t_state t \<in> set RECOVERED_STATES \<and> (only = None \<or> only = Some j)
       then recovered_task P fs dir now t else t) (get_task d j)"
proof -
  let ?p = "\<lambda>t. t_state t \<in> set RECOVERED_STATES \<and> (only = None \<or> only = Some (t_id t))"
  have dist: "distinct (map t_id (d_tasks d))" using assms by (rule wf_distinct)
  then have "distinct (map t_id (filter ?p (d_tasks d)))" by (simp add: distinct_map_filter)
  moreover have "get_task d (t_id t) = Some t" if "t \<in> set (filter ?p (d_tasks d))" for t
    using that get_task_in[OF assms] by simp
  ultimately show ?thesis
    using dist unfolding recover_def
    by (subst get_fold_recover)
      (auto simp: row_of_filter get_task_def split: option.splits dest: row_of_Some)
qed

text \<open>What one visit leaves behind.\<close>

lemma recovered_task_state:
  "t_state (recovered_task P fs dir now t) \<in> {Queued, WaitingUpload, DownloadFailed, t_state t}"
  by (cases "recover_action P fs dir t") (simp_all add: recovered_task_def)

definition held :: "task \<Rightarrow> bool" where
  "held t \<longleftrightarrow> t_cancel_requested t \<or> needs_review t
     \<or> t_failure_kind t \<in> {Some Authentication, Some Permission, Some RateLimited}"

lemma recover_action_held: "recover_action P fs dir t \<in> {RSkip, RHold} \<longleftrightarrow> held t"
  by (auto simp: recover_action_def held_def Let_def split: if_splits option.splits)

lemma recover_action_waiting:
  "recover_action P fs dir t = RResume \<Longrightarrow>
    \<exists>p. t_local_path t = Some p \<and> f_size fs p = Some (t_file_size t) \<and> t_transfer_mode t = LocalMode"
  "recover_action P fs dir t = RFound p \<Longrightarrow>
    p = final_path P dir t \<and> f_size fs p = Some (t_file_size t) \<and> t_transfer_mode t = LocalMode"
  by (cases "t_transfer_mode t";
      auto simp: recover_action_def complete_at_def Let_def split: if_splits option.splits)+

lemma recovered_task_resting:
  assumes "\<not> held t" "t' = recovered_task P fs dir now t"
  shows "t_state t' \<in> {Queued, DownloadFailed}
     \<or> (t_state t' = WaitingUpload \<and> t_transfer_mode t' = LocalMode
        \<and> (\<exists>p. t_local_path t' = Some p \<and> f_size fs p = Some (t_file_size t')))"
  using assms recover_action_held[of P fs dir t] recover_action_waiting[of P fs dir t]
  by (cases "recover_action P fs dir t") (auto simp: recovered_task_def)


definition no_files :: files where
  "no_files = \<lparr>f_size = (\<lambda>_. None), f_exists = (\<lambda>_. False), f_unlinks = (\<lambda>_. True)\<rparr>"


text \<open>
  Restart touches nothing else: a task that is finished, cancelled, queued, failed before
  its download, or waiting for the cleanup of a verified upload, and a task that is being
  cancelled or held for review, is exactly as it was, and no task appears or disappears.
\<close>

theorem recover_protects:
  assumes "wf_db d"
  shows "map t_id (d_tasks (snd (recover P fs dir only now d))) = map t_id (d_tasks d)
    \<and> (\<forall>i t. (get_task d i = Some t \<and> (t_state t \<notin> set RECOVERED_STATES \<or> held t))
        \<longrightarrow> get_task (snd (recover P fs dir only now d)) i = Some t)"
proof
  have "map t_id (d_tasks (snd (fold (recover_row P fs dir now) ts rd))) = map t_id (d_tasks (snd rd))" for ts rd
    by (induction ts arbitrary: rd) (simp_all add: recover_row_def Let_def upd_ids)
  then show "map t_id (d_tasks (snd (recover P fs dir only now d))) = map t_id (d_tasks d)"
    by (simp add: recover_def)
next
  show "\<forall>i t. (get_task d i = Some t \<and> (t_state t \<notin> set RECOVERED_STATES \<or> held t))
        \<longrightarrow> get_task (snd (recover P fs dir only now d)) i = Some t"
    using get_recover[OF assms] recover_action_held[of P fs dir]
    by (auto simp: recovered_task_def Let_def)
qed

theorem recover_protects_witness:
  "get_task (snd (recover ascii_platform no_files (asc ''/d'') None 7
     (ex_db [ex_task 1 Uploading, ex_task 2 CleanupPending]))) 2 = Some (ex_task 2 CleanupPending)"
  using recover_protects[of "ex_db [ex_task 1 Uploading, ex_task 2 CleanupPending]"
      ascii_platform no_files "asc ''/d''" None 7]
  by (simp add: RECOVERED_STATES_def)

text \<open>
  Recovery leaves the table of legal transitions, which the comment above the table in
  \<open>states.py\<close> says every persisted change follows: a reserved task whose finished file lies in
  the download directory goes straight to waiting_upload, an edge the table does not have.
\<close>

theorem recover_outside_table:
  "\<exists>P fs dir now d. wf_db d \<and> map t_state (d_tasks d) = [Reserved]
     \<and> map t_state (d_tasks (snd (recover P fs dir None now d))) = [WaitingUpload]
     \<and> \<not> can_transition Reserved WaitingUpload"
proof -
  let ?fs = "\<lparr>f_size = (\<lambda>_. Some 100), f_exists = (\<lambda>_. False), f_unlinks = (\<lambda>_. True)\<rparr>"
  let ?d = "ex_db [ex_task 1 Reserved]"
  have "recover_action ascii_platform ?fs [] (ex_task 1 Reserved)
      = RFound (final_path ascii_platform [] (ex_task 1 Reserved))"
    by (simp add: recover_action_def complete_at_def)
  then have "map t_state (d_tasks (snd (recover ascii_platform ?fs [] None 7 ?d))) = [WaitingUpload]"
    by (simp add: recover_def RECOVERED_STATES_def recover_row_def)
  then have "wf_db ?d \<and> map t_state (d_tasks ?d) = [Reserved]
     \<and> map t_state (d_tasks (snd (recover ascii_platform ?fs [] None 7 ?d))) = [WaitingUpload]
     \<and> \<not> can_transition Reserved WaitingUpload"
    by (simp add: can_transition_def)
  then show ?thesis by (intro exI)
qed

end
