(* ===== verification/Steps.thy ===== *)
theory Steps
  imports Recovery
begin

text \<open>
  Every operation of the database as a step, and the invariants of its histories.

  \<open>db_invariant\<close> is the interface between an invariant and the operations: an invariant that
  survives an UPDATE with and without the state column, the INSERT of a task, and changes of
  the other tables, survives every operation and every sequence of them. It is interpreted
  for the log of state changes and for the quota ledger.
\<close>

section \<open>The step relation\<close>

inductive db_step :: "platform \<Rightarrow> taskdb \<Rightarrow> taskdb \<Rightarrow> bool" for P where
  s_update: "db_step P d (update i asg now d)"
| s_transition: "transition i s asg now d = Inr d' \<Longrightarrow> db_step P d d'"
| s_wait: "db_step P d (snd (set_wait_reason i r ss now d))"
| s_reserve: "db_step P d (snd (reserve i budget free minimum now d))"
| s_create: "create_task P n now d = Inr ((t, c), d') \<Longrightarrow> db_step P d d'"
| s_requeue: "requeue P i u e c fr rs m now d = Inr (b, d') \<Longrightarrow> db_step P d d'"
| s_defer: "db_step P d (snd (defer_listener_download i u e secs m now d))"
| s_stream: "db_step P d (snd (request_stream i now d))"
| s_confirm: "db_step P d (snd (confirm_115 i now d))"
| s_confirm_all: "db_step P d (snd (confirm_completed limit u now d))"
| s_recover: "db_step P d (snd (recover P fs dir only now d))"
| s_admit: "db_step P d (snd (admit_upload i d))"
| s_pause: "db_step P d (set_paused b d)"
| s_features: "features_change P token rev' us d = Inr (v, d') \<Longrightarrow> db_step P d d'"
| s_users: "users_change P token now admin request d = Inr (v, d') \<Longrightarrow> db_step P d d'"
| s_control: "control_handle P token now admin request d = Inr (v, d') \<Longrightarrow> db_step P d d'"

inductive db_reach :: "platform \<Rightarrow> taskdb \<Rightarrow> taskdb \<Rightarrow> bool" for P where
  r_refl: "db_reach P d d"
| r_step: "db_reach P d d' \<Longrightarrow> db_step P d' d'' \<Longrightarrow> db_reach P d d''"

section \<open>Frames\<close>

text \<open>The tables that the invariants of this theory read.\<close>

definition same_core :: "taskdb \<Rightarrow> taskdb \<Rightarrow> bool" where
  "same_core d d' \<longleftrightarrow> d_tasks d' = d_tasks d \<and> d_seq d' = d_seq d \<and> d_events d' = d_events d
     \<and> d_ledger d' = d_ledger d"

lemma features_change_db:
  "features_change P token r us d = Inr (v, d') \<Longrightarrow> d' = write_meta P FEATURES_KEY v d"
  by (auto simp: features_change_def Let_def bindE_Inr split: option.splits if_splits)

lemma control_handle_db:
  assumes "control_handle P token now admin request d = Inr (v, d')"
  shows "d' = d \<or> (\<exists>v. d' = write_meta P FEATURES_KEY v d)
    \<or> (\<exists>u l. d' = d\<lparr>d_quotas := (d_quotas d)(u \<mapsto> l)\<rparr>)"
proof -
  have q: "\<exists>l. e = d\<lparr>d_quotas := (d_quotas d)(u \<mapsto> l)\<rparr>" if "quota_write d request grants u = Inr e" for grants u e
    using that by (auto simp: quota_write_def quota_configure_def split: if_splits option.splits)
  show ?thesis
    using assms by (auto simp: control_handle_def Let_def bindE_Inr dest!: features_change_db q
        split: if_splits)
qed

lemma write_meta_core: "same_core d (write_meta P k v d)"
  by (simp add: same_core_def write_meta_def)

lemma wf_meta: "wf_db d \<Longrightarrow> wf_db (write_meta P k v d)"
  by (simp add: write_meta_def wf_db_def wf_tasks_def wf_refs_def)

lemma wf_other: "wf_db d \<Longrightarrow> wf_db (d\<lparr>d_quotas := q\<rparr>)" "wf_db d \<Longrightarrow> wf_db (set_paused b d)"
  by (simp_all add: set_paused_def wf_db_def wf_tasks_def wf_refs_def)

lemma wf_control:
  "wf_db d \<Longrightarrow> control_handle P token now admin request d = Inr (v, d') \<Longrightarrow> wf_db d'"
  using control_handle_db wf_meta wf_other by fastforce

lemma wf_users: "wf_db d \<Longrightarrow> users_change P token now admin request d = Inr (v, d') \<Longrightarrow> wf_db d'"
  by (auto elim!: users_change_parts intro: wf_meta)

lemma admit_upload_core: "same_core d (snd (admit_upload i d))"
  by (simp add: same_core_def admit_upload_def split: option.splits)

text \<open>
  C13. The schema constraints hold in every reachable database: whatever operations run, in
  whatever order and with whatever arguments, task numbers stay unique, positive and
  increasing, no message and no media of one sender is stored twice, sizes stay non-negative,
  and ledger, slots, log, recoveries and retained paths only mention existing tasks.
\<close>

theorem reachable_wf:
  assumes "db_reach P empty_db d"
  shows "wf_db d"
proof -
  have step: "wf_db a \<Longrightarrow> wf_db b" if "db_step P a b" for a b
    using that
    by (cases rule: db_step.cases)
      (auto intro: keep_rules wf_other wf_meta wf_control wf_users dest: features_change_db)
  have "db_reach P e d \<Longrightarrow> wf_db e \<Longrightarrow> wf_db d" for e
    by (induction rule: db_reach.induct) (auto intro: step)
  with assms wf_empty_db show ?thesis by blast
qed

text \<open>The small database is reachable: it is what one upload leaves.\<close>

lemma ex_zone: "feature_zone ascii_platform (ex_db ts) = Inr (asc ''UTC'')"
  "feature_zone ascii_platform empty_db = Inr (asc ''UTC'')"
  by (simp_all add: feature_zone_def features_read_def read_meta_def zone_name_def
      feature_defaults_def jget_def jfind_def asc_def ascii_platform_def empty_db_def)

lemma ex_directory: "target_directory ascii_platform empty_db ex_intake now = Inr []"
  by (simp add: target_directory_def ex_intake_def features_read_def read_meta_def empty_db_def
      directory_def feature_defaults_def jfind_def str_in_def MODES_def asc_def ascii_platform_def)

lemma ex_insert: "insert_task ex_intake [] 0 empty_db = Some (ex_task 1 Queued, ex_db [ex_task 1 Queued])"
  by (simp add: insert_task_def Let_def ex_intake_def ex_db_def ex_task_def new_task_def empty_db_def)

lemma ex_create:
  "create_task ascii_platform ex_intake 0 empty_db
     = Inr ((ex_task 1 Queued, True), ex_db [ex_task 1 Queued])"
proof -
  have "identity_ok ex_intake" by (simp add: identity_ok_def ex_intake_def)
  moreover have "admit ascii_platform empty_db u sz now z None = Inr ()" for u sz now z
    by (simp add: admit_def limits_def no_limits_def empty_db_def Let_def)
  moreover have "d_tasks empty_db = []" by (simp add: empty_db_def)
  ultimately show ?thesis
    by (simp add: create_task_def ex_zone ex_directory ex_insert)
qed

lemma reach_ex: "db_reach ascii_platform empty_db (ex_db [ex_task 1 Queued])"
  by (meson db_reach.intros s_create ex_create)

theorem reachable_wf_witness:
  "wf_db (snd (reserve 1 1000 5000 10 3 (ex_db [ex_task 1 Queued])))"
  by (rule reachable_wf[of ascii_platform]) (meson db_reach.intros s_reserve reach_ex)

section \<open>Invariants of histories\<close>

definition rowwise :: "(task \<Rightarrow> task) \<Rightarrow> bool" where
  "rowwise f \<longleftrightarrow> (\<forall>t. t_id (f t) = t_id t \<and> t_sender_id (f t) = t_sender_id t
     \<and> t_file_size (f t) = t_file_size t)"

lemma rowwise_keyed: "keyed f \<Longrightarrow> rowwise f"
  by (simp add: keyed_def rowwise_def)

lemma rowwise_requeue: "rowwise (requeue_row now c fr m)"
  by (simp add: rowwise_def)

lemma requeue_write_shape:
  assumes "requeue_write i t c fr rs m now d = Inr d'"
  shows "\<exists>kept R mid. d' = upd_state i (requeue_row now c fr mid) (d\<lparr>d_retained := kept, d_recoveries := R\<rparr>)"
proof -
  let ?kept = "if fr then retain_path i (t_remote_final_path t)
           (retain_path i (t_remote_temp_path t) (retain_path i (t_remote_path t) (d_retained d)))
         else d_retained d"
  let ?R = "d_recoveries d @ [\<lparr>r_id = next_recovery_id d, r_task = i, r_at = now,
             r_operation = requeue_op rs fr, r_previous = t\<rparr>]"
  have "d' = upd_state i (requeue_row now c fr (if t_read_identity t = BOT then m else None))
      (d\<lparr>d_retained := ?kept, d_recoveries := ?R\<rparr>)"
    using assms unfolding requeue_write_def Let_def by (simp split: if_split_asm)
  then show ?thesis by (intro exI)
qed

locale db_invariant =
  fixes I :: "taskdb \<Rightarrow> bool"
  assumes on_state: "wf_db d \<Longrightarrow> I d \<Longrightarrow> rowwise f \<Longrightarrow> I (upd_state i f d)"
    and on_task: "wf_db d \<Longrightarrow> I d \<Longrightarrow> keyed f \<Longrightarrow> (\<And>t. t_state (f t) = t_state t) \<Longrightarrow> I (upd_task i f d)"
    and on_insert: "wf_db d \<Longrightarrow> I d \<Longrightarrow> insert_task n dir now d = Some (t, d') \<Longrightarrow> I d'"
    and on_other: "I d \<Longrightarrow> same_core d d' \<Longrightarrow> I d'"
begin

lemma on_update: "wf_db d \<Longrightarrow> I d \<Longrightarrow> I (update i asg now d)"
  by (auto simp: update_def intro!: on_state on_task rowwise_keyed)

lemma on_transition: "wf_db d \<Longrightarrow> I d \<Longrightarrow> transition i s asg now d = Inr d' \<Longrightarrow> I d'"
  by (auto simp: transition_Inr intro!: on_state rowwise_keyed)

lemma on_wait: "wf_db d \<Longrightarrow> I d \<Longrightarrow> I (snd (set_wait_reason i r ss now d))"
  by (auto simp: set_wait_reason_def intro!: on_task split: option.splits)

lemma on_reserve: "wf_db d \<Longrightarrow> I d \<Longrightarrow> I (snd (reserve i budget free minimum now d))"
  by (cases rule: reserve_cases[of i budget free minimum now d])
    (auto simp: on_wait intro!: on_state rowwise_keyed)

lemma on_create: "wf_db d \<Longrightarrow> I d \<Longrightarrow> create_task P n now d = Inr ((t, c), d') \<Longrightarrow> I d'"
  by (erule create_task_cases) (auto intro: on_insert)

lemma on_requeue:
  assumes "wf_db d" "I d" "requeue P i u e c fr rs m now d = Inr (b, d')"
  shows "I d'"
  using assms(3)
proof (cases rule: requeue_cases)
  case refused
  with assms show ?thesis by simp
next
  case (requeued t)
  then obtain kept R mid where d': "d' = upd_state i (requeue_row now c fr mid)
      (d\<lparr>d_retained := kept, d_recoveries := R\<rparr>)"
    using requeue_write_shape by blast
  let ?d1 = "d\<lparr>d_retained := kept, d_recoveries := R\<rparr>"
  have u: "upd_state i f ?d1 = (upd_state i f d)\<lparr>d_retained := kept, d_recoveries := R\<rparr>" for f
    by (simp add: upd_state_def get_task_def task_state_event_def quota_state_def upd_task_def
        split: option.splits)
  have "I (upd_state i (requeue_row now c fr mid) d)"
    using assms by (intro on_state rowwise_requeue)
  then show ?thesis unfolding d' u by (rule on_other) (simp add: same_core_def)
qed

lemma on_owner:
  "wf_db d \<Longrightarrow> I d \<Longrightarrow> I (snd (request_stream i now d))"
  "wf_db d \<Longrightarrow> I d \<Longrightarrow> I (snd (confirm_115 i now d))"
  "wf_db d \<Longrightarrow> I d \<Longrightarrow> I (snd (defer_listener_download i u e secs m now d))"
  by (auto simp: request_stream_def confirm_115_def defer_listener_download_def
      intro!: on_state rowwise_keyed split: option.splits)

lemma on_confirm_all: "wf_db d \<Longrightarrow> I d \<Longrightarrow> I (snd (confirm_completed limit u now d))"
proof -
  have "I (fold (\<lambda>i. upd_state i (confirm_row now)) ids d)" if "wf_db d" "I d" for ids d
    using that by (induction ids arbitrary: d) (auto intro!: on_state rowwise_keyed wf_upd_state)
  then show "wf_db d \<Longrightarrow> I d \<Longrightarrow> ?thesis" by (simp add: confirm_completed_def Let_def)
qed

lemma on_recover:
  assumes "wf_db d" "I d"
  shows "I (snd (recover P fs dir only now d))"
proof -
  have "I (snd (fold (recover_row P fs dir now) ts rd))" if "wf_db (snd rd)" "I (snd rd)" for ts rd
    using that
  proof (induction ts arbitrary: rd)
    case (Cons t ts)
    have "I (snd (recover_row P fs dir now t rd))"
      using Cons.prems by (auto simp: recover_row_def Let_def intro!: on_state rowwise_keyed)
    then show ?case using Cons wf_recover_row by simp
  qed simp
  with assms show ?thesis by (simp add: recover_def)
qed

lemma on_step:
  assumes "db_step P a b" "wf_db a" "I a"
  shows "I b"
  using assms
proof (cases rule: db_step.cases)
  case (s_control token now admin request v)
  then show ?thesis
    using assms control_handle_db[OF s_control(1)] write_meta_core
    by (auto intro!: on_other[OF assms(3)] simp: same_core_def)
next
  case (s_users token now admin request v)
  then show ?thesis using assms by (auto elim!: users_change_parts intro: on_other write_meta_core)
next
  case (s_features token r us v)
  then show ?thesis using assms by (auto dest!: features_change_db intro: on_other write_meta_core)
next
  case (s_pause c)
  then show ?thesis using on_other[OF assms(3)] by (simp add: same_core_def set_paused_def)
next
  case (s_admit i)
  then show ?thesis using on_other[OF assms(3)] admit_upload_core by simp
qed (auto intro: on_update on_transition on_wait on_reserve on_create on_requeue on_owner
      on_confirm_all on_recover)

lemma on_reach:
  assumes "db_reach P e d" "wf_db e" "I e"
  shows "wf_db d \<and> I d"
  using assms
proof (induction rule: db_reach.induct)
  case (r_step d d' d'')
  have "wf_db d''"
    using r_step(2,3,4,5)
    by (cases rule: db_step.cases)
      (auto intro: keep_rules wf_other wf_meta wf_control wf_users dest: features_change_db)
  with r_step show ?case using on_step by blast
qed simp

end

end
