(* ===== verification/Histories.thy ===== *)
theory Histories
  imports Steps
begin

text \<open>
  The interface \<open>db_invariant\<close> interpreted on the database: the log of state changes explains
  every current state, the ledger accounts for every task, and a charge once made stays.
\<close>

section \<open>The log of state changes\<close>

text \<open>\<open>chain s es u\<close>: the rows lead from state \<open>s\<close> to state \<open>u\<close>, each a real change.\<close>

fun chain :: "task_state \<Rightarrow> event_row list \<Rightarrow> task_state \<Rightarrow> bool" where
  "chain s [] u = (s = u)"
| "chain s (e # es) u = (e_old e = Some s \<and> e_new e \<noteq> s \<and> chain (e_new e) es u)"

definition log_of :: "taskdb \<Rightarrow> int \<Rightarrow> event_row list" where
  "log_of d i = filter (\<lambda>e. e_task e = i) (d_events d)"

definition log_ok :: "taskdb \<Rightarrow> bool" where
  "log_ok d \<longleftrightarrow> (\<forall>t \<in> set (d_tasks d). chain Queued (log_of d (t_id t)) (t_state t))"

lemma chain_append:
  "chain s es u \<Longrightarrow> e_old e = Some u \<Longrightarrow> e_new e = v \<Longrightarrow> v \<noteq> u \<Longrightarrow> chain s (es @ [e]) v"
  by (induction s es u rule: chain.induct) auto

lemma log_upd_state:
  assumes "get_task d i = Some old" "\<And>t. t_id (f t) = t_id t"
  shows "log_of (upd_state i f d) j = log_of d j @ (if j = i \<and> t_state old \<noteq> t_state (f old) then
    [\<lparr>e_task = i, e_old = Some (t_state old), e_new = t_state (f old), e_at = t_updated_at (f old)\<rparr>] else [])"
  using assms get_task_Some[OF assms(1)]
  by (auto simp: log_of_def upd_state_def task_state_event_def quota_state_def)

lemma log_fresh:
  assumes "wf_db d" "d_seq d < i"
  shows "log_of d i = []"
proof -
  have "e_task e \<noteq> i" if "e \<in> set (d_events d)" for e
  proof -
    have "e_task e \<in> t_id ` set (d_tasks d)" using assms(1) that by (auto simp: wf_db_def wf_refs_def)
    then show ?thesis using assms by (force simp: wf_db_def wf_tasks_def)
  qed
  then show ?thesis by (simp add: log_of_def filter_empty_conv)
qed

lemma log_ok_state:
  assumes "wf_db d" "log_ok d" "rowwise f"
  shows "log_ok (upd_state i f d)"
proof (cases "get_task d i")
  case None
  with assms(2) show ?thesis by (simp add: upd_state_def)
next
  case (Some old)
  have ids: "\<And>t. t_id (f t) = t_id t" using assms(3) by (simp add: rowwise_def)
  note old = get_task_Some[OF Some]
  have "chain Queued (log_of (upd_state i f d) (t_id t')) (t_state t')"
    if "t' \<in> set (d_tasks (upd_state i f d))" for t'
  proof -
    from that obtain t where t: "t \<in> set (d_tasks d)" "t' = (if t_id t = i then f t else t)"
      by (auto simp: set_upd_where)
    have c: "chain Queued (log_of d (t_id t)) (t_state t)" using assms(2) t(1) by (simp add: log_ok_def)
    show ?thesis
    proof (cases "t_id t = i")
      case True
      then have "t = old" using get_task_in[OF assms(1) t(1)] Some by simp
      with True c t(2) ids show ?thesis
        by (auto simp: log_upd_state[OF Some ids] intro!: chain_append)
    next
      case False
      with c t(2) show ?thesis by (simp add: log_upd_state[OF Some ids])
    qed
  qed
  then show ?thesis by (simp add: log_ok_def)
qed

interpretation log: db_invariant log_ok
proof
  fix d f i assume "wf_db d" "log_ok d" "rowwise f"
  then show "log_ok (upd_state i f d)" by (rule log_ok_state)
next
  fix d f i assume "wf_db d" "log_ok d" "keyed f" "\<And>t. t_state (f t) = t_state t"
  then show "log_ok (upd_task i f d)"
    by (auto simp: log_ok_def set_upd_where log_of_def keyed_id)
next
  fix n dir now d t d' assume a: "wf_db d" "log_ok d" "insert_task n dir now d = Some (t, d')"
  then show "log_ok d'"
    using log_fresh[OF a(1)] by (auto simp: insert_task_Some log_ok_def log_of_def)
next
  fix d d' assume "log_ok d" "same_core d d'"
  then show "log_ok d'" by (simp add: log_ok_def same_core_def log_of_def)
qed

text \<open>
  C14. The log explains every state: in every reachable database the logged changes of a task
  form one unbroken chain from queued to its current state, so that no state change, made by
  whatever operation, is missing from the log or out of order.
\<close>

theorem log_explains_state:
  assumes "db_reach P empty_db d" "get_task d i = Some t"
  shows "chain Queued (log_of d i) (t_state t)"
proof -
  have "log_ok empty_db" by (simp add: log_ok_def empty_db_def)
  then have "log_ok d" using log.on_reach[OF assms(1) wf_empty_db] by blast
  then show ?thesis using get_task_Some[OF assms(2)] by (auto simp: log_ok_def)
qed

theorem log_explains_state_witness:
  "chain Queued (log_of (update 1 [AState Cancelled] 4 (ex_db [ex_task 1 Queued])) 1) Cancelled"
proof -
  let ?d = "update 1 [AState Cancelled] 4 (ex_db [ex_task 1 Queued])"
  have "get_task ?d 1 = Some (assign_all [AState Cancelled] 4 (ex_task 1 Queued))"
    by (simp add: update_def sets_state_def row_simps)
  from log_explains_state[OF db_reach.r_step[OF reach_ex s_update] this] show ?thesis
    by (simp add: assign_all_def)
qed

section \<open>The ledger\<close>

definition ledger_pair :: "ledger_row \<Rightarrow> task \<Rightarrow> bool" where
  "ledger_pair l t \<longleftrightarrow> l_task l = t_id t \<and> l_user l = t_sender_id t \<and> l_bytes l = t_file_size t
     \<and> (l_charged l \<noteq> None \<or> (l_released l \<longleftrightarrow> t_state t = Cancelled))"

definition ledger_ok :: "taskdb \<Rightarrow> bool" where
  "ledger_ok d \<longleftrightarrow> list_all2 ledger_pair (d_ledger d) (d_tasks d)"

definition charge_of :: "taskdb \<Rightarrow> int \<Rightarrow> rat option" where
  "charge_of d i = (case row_of l_task i (d_ledger d) of None \<Rightarrow> None | Some l \<Rightarrow> l_charged l)"

lemma charge_row_charged:
  "l_charged (release_row n (charge_row n l)) = l_charged (charge_row n l)"
  "l_charged l = Some c \<Longrightarrow> l_charged (charge_row n l) = Some c"
  by (simp_all add: release_row_def charge_row_def)

lemma ledger_ok_state:
  assumes "wf_db d" "ledger_ok d" "rowwise f"
  shows "ledger_ok (upd_state i f d)"
proof (cases "get_task d i")
  case None
  with assms(2) show ?thesis by (simp add: upd_state_def)
next
  case (Some old)
  let ?g = "\<lambda>l. if l_task l = i then release_row (f old) (charge_row (f old) l) else l"
  let ?h = "\<lambda>t. if t_id t = i then f t else t"
  have idf: "t_id (f t) = t_id t" "t_sender_id (f t) = t_sender_id t" "t_file_size (f t) = t_file_size t" for t
    using assms(3) by (simp_all add: rowwise_def)
  have oi: "t_id old = i" using get_task_Some[OF Some] by simp
  have led: "d_ledger (upd_state i f d) = map ?g (d_ledger d)"
    using oi by (simp add: upd_state_def Some task_state_event_def quota_state_def upd_where_def idf)
  have one: "ledger_pair (?g l) (?h t)" if "ledger_pair l t" "t \<in> set (d_tasks d)" for l t
  proof (cases "t_id t = i")
    case True
    then have "t = old" using get_task_in[OF assms(1) that(2)] Some by simp
    with True that(1) show ?thesis
      by (auto simp: ledger_pair_def idf) (auto simp: release_row_def charge_row_def split: if_splits)
  next
    case False
    with that(1) show ?thesis by (auto simp: ledger_pair_def)
  qed
  have "list_all2 ledger_pair (map ?g ls) (map ?h ts)"
    if "list_all2 ledger_pair ls ts" "set ts \<subseteq> set (d_tasks d)" for ls ts
    using that by (induction rule: list_all2_induct) (auto simp: one)
  then show ?thesis
    using assms(2) by (simp add: ledger_ok_def led upd_where_def)
qed

interpretation ledger: db_invariant ledger_ok
proof
  fix d f i assume "wf_db d" "ledger_ok d" "rowwise f"
  then show "ledger_ok (upd_state i f d)" by (rule ledger_ok_state)
next
  fix d f i assume a: "wf_db d" "ledger_ok d" "keyed f" "\<And>t. t_state (f t) = t_state t"
  have "list_all2 ledger_pair ls (upd_where p f ts)" if "list_all2 ledger_pair ls ts" for ls ts p
    using that a(3,4) by (induction rule: list_all2_induct) (auto simp: ledger_pair_def keyed_def)
  with a(2) show "ledger_ok (upd_task i f d)" by (simp add: ledger_ok_def)
next
  fix n dir now d t d' assume "wf_db d" "ledger_ok d" "insert_task n dir now d = Some (t, d')"
  then show "ledger_ok d'"
    by (auto simp: insert_task_Some ledger_ok_def ledger_pair_def intro!: list_all2_appendI)
next
  fix d d' assume "ledger_ok d" "same_core d d'"
  then show "ledger_ok d'" by (simp add: ledger_ok_def same_core_def)
qed

definition charges_from :: "taskdb \<Rightarrow> taskdb \<Rightarrow> bool" where
  "charges_from e d \<longleftrightarrow> (\<forall>i c. charge_of e i = Some c \<longrightarrow> charge_of d i = Some c)"

lemma charge_of_upd_state:
  assumes "charge_of d j = Some c"
  shows "charge_of (upd_state i f d) j = Some c"
proof (cases "get_task d i")
  case None
  with assms show ?thesis by (simp add: upd_state_def)
next
  case (Some old)
  let ?k = "t_id (f old)"
  have "d_ledger (upd_state i f d) = upd_where (\<lambda>l. l_task l = ?k)
      (\<lambda>l. release_row (f old) (charge_row (f old) l)) (d_ledger d)"
    by (simp add: upd_state_def Some task_state_event_def quota_state_def)
  then have "row_of l_task j (d_ledger (upd_state i f d)) = (if j = ?k
      then map_option (\<lambda>l. release_row (f old) (charge_row (f old) l)) (row_of l_task j (d_ledger d))
      else row_of l_task j (d_ledger d))"
    by (simp add: row_of_upd)
  with assms show ?thesis
    by (auto simp: charge_of_def charge_row_charged split: option.splits)
qed

interpretation charge: db_invariant "charges_from e" for e
proof
  fix d f i assume "charges_from e d"
  then show "charges_from e (upd_state i f d)" by (simp add: charges_from_def charge_of_upd_state)
next
  fix d f i assume "charges_from e d"
  then show "charges_from e (upd_task i f d)" by (simp add: charges_from_def charge_of_def)
next
  fix n dir now d t d' assume "charges_from e d" "insert_task n dir now d = Some (t, d')"
  moreover have "charge_of d i = Some c \<Longrightarrow> charge_of d' i = Some c" for i c
    using calculation(2) by (auto simp: charge_of_def insert_task_Some row_of_append split: option.splits)
  ultimately show "charges_from e d'" by (simp add: charges_from_def)
next
  fix d d' assume "charges_from e d" "same_core d d'"
  then show "charges_from e d'" by (simp add: charges_from_def charge_of_def same_core_def)
qed

text \<open>
  C20. A charge is made once and for good: whatever operations follow, a task that was charged
  to its owner's quota keeps the time of that charge, so that a retry, a recovery or a second
  completion neither charges it again on another day nor takes it back.
\<close>

theorem charge_is_final:
  assumes "db_reach P d d'" "wf_db d" "charge_of d i = Some c"
  shows "charge_of d' i = Some c"
proof -
  have "charges_from d d" by (simp add: charges_from_def)
  then have "charges_from d d'" using charge.on_reach[OF assms(1,2)] by blast
  with assms(3) show ?thesis by (simp add: charges_from_def)
qed

definition ex_charged :: taskdb where
  "ex_charged = (ex_db [ex_task 1 CleanupPending])\<lparr>d_ledger := [\<lparr>l_task = 1, l_user = 9,
     l_bytes = 100, l_charged = Some 5, l_released = False\<rparr>]\<rparr>"

theorem charge_is_final_witness:
  "charge_of (update 1 [AState Queued] 99 ex_charged) 1 = Some 5"
proof (rule charge_is_final)
  show "db_reach ascii_platform ex_charged (update 1 [AState Queued] 99 ex_charged)"
    by (meson db_reach.intros s_update)
  show "wf_db ex_charged"
    by (simp add: ex_charged_def ex_db_def empty_db_def wf_db_def wf_tasks_def wf_refs_def
        unique_message_def unique_media_def)
  show "charge_of ex_charged 1 = Some 5" by (simp add: charge_of_def ex_charged_def)
qed

text \<open>What the ledger reserves for a member is exactly his unfinished tasks.\<close>

lemma sum_where_all2:
  "list_all2 (\<lambda>a b. p a = q b \<and> f a = g b) xs ys \<Longrightarrow> sum_where p f xs = sum_where q g ys"
  by (induction rule: list_all2_induct) auto

text \<open>
  C23. The quota accounts for every task: in every reachable database the bytes reserved for a
  member are the sizes of exactly his tasks that are neither cancelled nor charged.
\<close>

theorem reserved_is_unfinished:
  assumes "db_reach P empty_db d"
  shows "reserved_bytes d u =
    sum_where (\<lambda>t. t_sender_id t = u \<and> t_state t \<noteq> Cancelled \<and> charge_of d (t_id t) = None)
      t_file_size (d_tasks d)"
proof -
  have "ledger_ok empty_db" by (simp add: ledger_ok_def empty_db_def)
  then have ok: "ledger_ok d" and wf: "wf_db d"
    using ledger.on_reach[OF assms wf_empty_db] by auto
  have row: "charge_of d (l_task l) = l_charged l" if "l \<in> set (d_ledger d)" for l
    using wf that row_of_unique[of l_task "d_ledger d" l]
    by (simp add: wf_db_def wf_refs_def charge_of_def)
  have "list_all2 (\<lambda>l t. (l_user l = u \<and> l_charged l = None \<and> \<not> l_released l)
        = (t_sender_id t = u \<and> t_state t \<noteq> Cancelled \<and> charge_of d (t_id t) = None)
        \<and> l_bytes l = t_file_size t) ls ts"
    if "list_all2 ledger_pair ls ts" "set ls \<subseteq> set (d_ledger d)" for ls ts
    using that
  proof (induction rule: list_all2_induct)
    case (Cons l ls t ts)
    then show ?case using row[of l] by (auto simp: ledger_pair_def)
  qed simp
  then show ?thesis
    using ok by (auto simp: reserved_bytes_def ledger_ok_def intro!: sum_where_all2)
qed

theorem reserved_is_unfinished_witness:
  "reserved_bytes (ex_db [ex_task 1 Queued]) 9 = 100"
  using reserved_is_unfinished[OF reach_ex, of 9]
  by (simp add: charge_of_def ex_db_def)

section \<open>The daily limit\<close>

text \<open>
  A limited member never exceeds the day's limit by creating a task: after a task was
  created, what was charged to the member that day and what is reserved for his unfinished
  tasks, the new one included, stay within the limit.
\<close>

theorem create_within_daily_limit:
  assumes "create_task P n now d = Inr ((t, True), d')"
    and "daily_bytes (limits d (n_sender n)) \<noteq> 0"
  shows "\<exists>zone b. feature_zone P d = Inr zone \<and> zone_bounds P zone now = Inr b
    \<and> completed_bytes d' (n_sender n) b + reserved_bytes d' (n_sender n)
        \<le> daily_bytes (limits d (n_sender n)) \<and> 0 < n_size n"
  using assms(1)
proof (cases rule: create_task_cases)
  case (new dir)
  let ?u = "n_sender n"
  from new(3) obtain zone where z: "feature_zone P d = Inr zone"
    "admit P d ?u (n_size n) now zone None = Inr ()"
    by (auto simp: bindE_Inr)
  obtain b where b: "zone_bounds P zone now = Inr b"
    "n_size n \<le> max 0 (daily_bytes (limits d ?u) - completed_bytes d ?u b - reserved_bytes d ?u)"
    "0 < n_size n"
    using z(2) assms(2)
    by (auto simp: admit_def Let_def usage_def bindE_Inr ledger_holds_def split: if_splits)
  have "completed_bytes d' ?u b = completed_bytes d ?u b"
    "reserved_bytes d' ?u = reserved_bytes d ?u + n_size n"
    using new(2) by (auto simp: insert_task_Some completed_bytes_def reserved_bytes_def)
  then have "completed_bytes d' ?u b + reserved_bytes d' ?u \<le> daily_bytes (limits d ?u)"
    using b(2,3) by simp
  with z(1) b(1,3) show ?thesis by blast
qed simp

definition ex_limited :: taskdb where
  "ex_limited = empty_db\<lparr>d_quotas := (\<lambda>_. Some \<lparr>daily_bytes = 500, max_queued = 0, max_active = 0\<rparr>)\<rparr>"

theorem create_within_daily_limit_witness:
  "\<exists>t d' zone b. create_task ascii_platform ex_intake 0 ex_limited = Inr ((t, True), d')
    \<and> completed_bytes d' 9 b + reserved_bytes d' 9 \<le> 500"
proof -
  have z: "feature_zone ascii_platform ex_limited = Inr (asc ''UTC'')"
    by (simp add: ex_limited_def feature_zone_def features_read_def read_meta_def zone_name_def
        feature_defaults_def jget_def jfind_def asc_def ascii_platform_def empty_db_def)
  have dir: "target_directory ascii_platform ex_limited ex_intake 0 = Inr []"
  proof -
    have "features_read ascii_platform ex_limited = features_read ascii_platform empty_db"
      by (simp add: ex_limited_def features_read_def read_meta_def)
    then show ?thesis using ex_directory[of 0] by (simp add: target_directory_def ex_intake_def)
  qed
  have adm: "admit ascii_platform ex_limited 9 100 0 (asc ''UTC'') None = Inr ()"
    by (simp add: admit_def limits_def ex_limited_def Let_def usage_def zone_bounds_def ledger_holds_def
        completed_bytes_def reserved_bytes_def empty_db_def)
  have "identity_ok ex_intake" "n_sender ex_intake = 9" "n_size ex_intake = 100" "d_tasks ex_limited = []"
    by (simp_all add: identity_ok_def ex_intake_def ex_limited_def empty_db_def)
  then obtain t d' where c: "create_task ascii_platform ex_intake 0 ex_limited = Inr ((t, True), d')"
    by (simp add: create_task_def z dir adm insert_task_def Let_def)
  have lim: "limits ex_limited (n_sender ex_intake) = \<lparr>daily_bytes = 500, max_queued = 0, max_active = 0\<rparr>"
    by (simp add: limits_def ex_limited_def)
  from create_within_daily_limit[OF c] lim \<open>n_sender ex_intake = 9\<close> c show ?thesis by auto
qed

end
