(* ===== verification/Admission.thy ===== *)
theory Admission
  imports Histories
begin

text \<open>
  What the admission operations promise: \<open>reserve\<close> keeps the local budget, the free-space
  margin and the member's slots, \<open>admit_upload\<close> the member's slots, \<open>create_task\<close> accepts a
  message once, and \<open>requeue\<close> uses a confirmation once and protects the objects it leaves.
\<close>

section \<open>Reservation\<close>

lemma reserve_granted:
  assumes "reserve i budget free minimum now d = ((True, m), d')"
  obtains t mode where "get_task d i = Some t" "t_state t = Queued" "\<not> t_cancel_requested t"
    "t_next_retry_at t \<le> now" "slot_available d (t_sender_id t) i"
    "d' = upd_state i (grant mode now) d"
    "mode = LocalMode \<Longrightarrow> used_local_bytes d + t_file_size t \<le> budget
       \<and> minimum \<le> free - pending_growth d - t_file_size t"
    "mode = StreamMode \<Longrightarrow> minimum < free"
proof -
  from assms obtain t where t: "get_task d i = Some t"
    by (cases "get_task d i") (simp_all add: reserve_def Let_def)
  have c: "t_state t = Queued" "\<not> t_cancel_requested t" "t_next_retry_at t \<le> now"
    "slot_available d (t_sender_id t) i"
    using assms by (auto simp: reserve_def t Let_def not_less split: if_splits)
  show ?thesis
  proof (cases "t_transfer_mode t = StreamMode \<or> budget < t_file_size t")
    case True
    with assms t c have "d' = upd_state i (grant StreamMode now) d" "minimum < free"
      by (auto simp: reserve_def Let_def split: if_splits)
    with t c that[of t StreamMode] show ?thesis by simp
  next
    case False
    with assms t c have "d' = upd_state i (grant LocalMode now) d"
      "used_local_bytes d + t_file_size t \<le> budget"
      "minimum \<le> free - pending_growth d - t_file_size t"
      by (auto simp: reserve_def Let_def split: if_splits)
    with t c that[of t LocalMode] show ?thesis by simp
  qed
qed

lemma grant_fields [simp]:
  "t_state (grant mode now t) = Reserved" "t_transfer_mode (grant mode now t) = mode"
  "t_file_size (grant mode now t) = t_file_size t" "t_id (grant mode now t) = t_id t"
  "t_downloaded_bytes (grant mode now t) = t_downloaded_bytes t"
  "t_sender_id (grant mode now t) = t_sender_id t"
  by (simp_all add: grant_def)

text \<open>
  C19. The local budget and the free-space margin hold after every reservation: a task granted
  for local transfer makes the sizes of all files kept on the disk at most the budget, and
  the space still to be written by the downloads, the new one included, leaves at least the
  minimum free; a task granted for streaming adds nothing to the disk and starts only above
  the minimum.
\<close>

theorem reserve_keeps_budget:
  assumes "wf_db d" and "reserve i budget free minimum now d = ((True, m), d')"
    and "\<And>t. get_task d i = Some t \<Longrightarrow> 0 \<le> t_downloaded_bytes t"
  shows "\<exists>t'. get_task d' i = Some t' \<and> t_state t' = Reserved
    \<and> (case t_transfer_mode t' of
         LocalMode \<Rightarrow> used_local_bytes d' \<le> budget \<and> minimum \<le> free - pending_growth d'
       | StreamMode \<Rightarrow> used_local_bytes d' = used_local_bytes d
           \<and> pending_growth d' = pending_growth d \<and> minimum < free)"
proof -
  obtain t mode where t: "get_task d i = Some t" "t_state t = Queued"
    and d': "d' = upd_state i (grant mode now) d"
    and loc: "mode = LocalMode \<Longrightarrow> used_local_bytes d + t_file_size t \<le> budget
       \<and> minimum \<le> free - pending_growth d - t_file_size t"
    and str: "mode = StreamMode \<Longrightarrow> minimum < free"
    by (rule reserve_granted[OF assms(2)]) blast
  have dist: "distinct (map t_id (d_tasks d))" using assms(1) by (rule wf_distinct)
  have row: "row_of t_id i (d_tasks d) = Some t" using t(1) by (simp add: get_task_def)
  have sz: "0 \<le> t_file_size t" "0 \<le> t_downloaded_bytes t"
    using assms(1,3) t(1) get_task_Some[OF t(1)] by (auto simp: wf_db_def wf_tasks_def)
  have upd: "sum_where q f (upd_where (\<lambda>t. t_id t = i) (grant md now) (d_tasks d)) =
      sum_where q f (d_tasks d) - (if q t then f t else 0)
        + (if q (grant md now t) then f (grant md now t) else 0)" for q f md
    by (rule sum_where_upd[OF dist row]) simp
  have "used_local_bytes d' = used_local_bytes d + (if mode = LocalMode then t_file_size t else 0)"
    using t(2) by (cases mode) (simp_all add: d' used_local_bytes_def upd on_local_disk_def LOCAL_STATES_def)
  moreover have "pending_growth d' = pending_growth d
      + (if mode = LocalMode \<and> t_downloaded_bytes t < t_file_size t
         then t_file_size t - t_downloaded_bytes t else 0)"
    using t(2) by (cases mode) (simp_all add: d' pending_growth_def upd GROWING_STATES_def)
  moreover have "get_task d' i = Some (grant mode now t)"
    using t(1) by (simp add: d' row_simps)
  ultimately show ?thesis using loc str sz by (cases mode) auto
qed

theorem reserve_keeps_budget_witness:
  "\<exists>t'. get_task (snd (reserve 1 1000 5000 10 3 (ex_db [ex_task 1 Queued]))) 1 = Some t'
    \<and> t_state t' = Reserved
    \<and> (case t_transfer_mode t' of
         LocalMode \<Rightarrow> used_local_bytes (snd (reserve 1 1000 5000 10 3 (ex_db [ex_task 1 Queued]))) \<le> 1000
           \<and> 10 \<le> 5000 - pending_growth (snd (reserve 1 1000 5000 10 3 (ex_db [ex_task 1 Queued])))
       | StreamMode \<Rightarrow> used_local_bytes (snd (reserve 1 1000 5000 10 3 (ex_db [ex_task 1 Queued])))
             = used_local_bytes (ex_db [ex_task 1 Queued])
           \<and> pending_growth (snd (reserve 1 1000 5000 10 3 (ex_db [ex_task 1 Queued])))
             = pending_growth (ex_db [ex_task 1 Queued]) \<and> 10 < (5000 :: int))"
proof (rule reserve_keeps_budget)
  show "reserve 1 1000 5000 10 3 (ex_db [ex_task 1 Queued])
      = ((True, []), snd (reserve 1 1000 5000 10 3 (ex_db [ex_task 1 Queued])))"
    by (simp add: reserve_def Let_def slot_available_def limits_def no_limits_def used_local_bytes_def
        pending_growth_def on_local_disk_def LOCAL_STATES_def GROWING_STATES_def)
qed auto

section \<open>Member slots\<close>

definition active_tasks :: "taskdb \<Rightarrow> int \<Rightarrow> nat" where
  "active_tasks d u = count_where (occupies_slot d u) (d_tasks d)"

lemma slots_upd_state: "set (d_slots (upd_state i f d)) \<subseteq> set (d_slots d)"
  by (auto simp: upd_state_def quota_state_def task_state_event_def split: option.splits)

text \<open>
  A member never runs more tasks at once than allowed: when \<open>reserve\<close> grants a task of a
  member with an active limit, or \<open>admit_upload\<close> admits one, the tasks of that member that
  are in an active state or hold a slot number at most the limit afterwards.
\<close>

theorem member_slots_bounded:
  assumes "wf_db d" and "get_task d i = Some t" and "max_active (limits d (t_sender_id t)) \<noteq> 0"
    and "(\<exists>budget free minimum now m. reserve i budget free minimum now d = ((True, m), d'))
      \<or> (admit_upload i d = (True, d') \<and> t_state t \<noteq> CleanupPending)"
  shows "int (active_tasks d' (t_sender_id t)) \<le> max_active (limits d' (t_sender_id t))"
proof -
  let ?u = "t_sender_id t"
  have dist: "distinct (map t_id (d_tasks d))" using assms(1) by (rule wf_distinct)
  let ?others = "\<lambda>s. count_where (\<lambda>t. occupies_slot s ?u t \<and> t_id t \<noteq> i) (d_tasks d)"
  have key: "slot_available d ?u i \<and> limits d' ?u = limits d ?u
      \<and> active_tasks d' ?u \<le> Suc (?others d') \<and> ?others d' \<le> ?others d"
    using assms(4)
  proof
    assume "\<exists>budget free minimum now m. reserve i budget free minimum now d = ((True, m), d')"
    then obtain mode now where a: "slot_available d ?u i" "d' = upd_state i (grant mode now) d"
      using assms(2) by (auto elim!: reserve_granted)
    have "active_tasks d' ?u \<le> Suc (?others d')"
      unfolding active_tasks_def a(2) upd_state_tasks by (rule count_where_upd_le[OF dist])
    moreover have "?others d' \<le> ?others d"
      using slots_upd_state[of i "grant mode now" d] a(2)
      by (intro count_where_mono) (auto simp: occupies_slot_def)
    ultimately show ?thesis using a by (simp add: limits_def)
  next
    assume "admit_upload i d = (True, d') \<and> t_state t \<noteq> CleanupPending"
    then have a: "slot_available d ?u i"
      "d' = (if i \<in> set (d_slots d) then d else d\<lparr>d_slots := d_slots d @ [i]\<rparr>)"
      using assms(2) by (auto simp: admit_upload_def split: if_splits)
    have same: "upd_where (\<lambda>t. t_id t = i) (\<lambda>t. t) (d_tasks d) = d_tasks d"
      by (simp add: upd_where_def)
    have "active_tasks d' ?u \<le> Suc (?others d')"
      using count_where_upd_le[OF dist, of "occupies_slot d' ?u" i "\<lambda>t. t"] a(2)
      by (simp add: same active_tasks_def split: if_splits)
    moreover have "?others d' \<le> ?others d"
      using a(2) by (intro count_where_mono) (auto simp: occupies_slot_def split: if_splits)
    ultimately show ?thesis using a by (simp add: limits_def)
  qed
  then show ?thesis using assms(3) by (auto simp: slot_available_def Let_def)
qed

definition ex_slots :: taskdb where
  "ex_slots = (ex_db [ex_task 1 WaitingUpload, ex_task 2 Queued])
     \<lparr>d_quotas := (\<lambda>_. Some \<lparr>daily_bytes = 0, max_queued = 0, max_active = 1\<rparr>)\<rparr>"

theorem member_slots_bounded_witness:
  "int (active_tasks (snd (admit_upload 1 ex_slots)) 9)
     \<le> max_active (limits (snd (admit_upload 1 ex_slots)) 9)"
proof -
  have g: "get_task ex_slots 1 = Some (ex_task 1 WaitingUpload)"
    by (simp add: ex_slots_def get_task_def)
  have wf: "wf_db ex_slots"
    using wf_other(1)[OF wf_ex_db(2)] by (simp add: ex_slots_def)
  have a: "admit_upload 1 ex_slots = (True, snd (admit_upload 1 ex_slots))"
  proof -
    have "slot_available ex_slots 9 1"
      by (simp add: slot_available_def limits_def ex_slots_def occupies_slot_def ACTIVE_def)
    then show ?thesis by (simp add: admit_upload_def g)
  qed
  have "int (active_tasks (snd (admit_upload 1 ex_slots)) (t_sender_id (ex_task 1 WaitingUpload)))
     \<le> max_active (limits (snd (admit_upload 1 ex_slots)) (t_sender_id (ex_task 1 WaitingUpload)))"
    by (rule member_slots_bounded[OF wf g]) (use a in \<open>simp_all add: limits_def ex_slots_def\<close>)
  then show ?thesis by simp
qed

section \<open>Confirmed recoveries\<close>

lemma requeue_write_get:
  assumes "requeue_write i t c fr rs m now d = Inr d'"
  shows "\<exists>mid. \<forall>j. get_task d' j = (if j = i then map_option (requeue_row now c fr mid) (get_task d j)
      else get_task d j)"
proof -
  obtain kept R mid where d': "d' = upd_state i (requeue_row now c fr mid)
      (d\<lparr>d_retained := kept, d_recoveries := R\<rparr>)"
    using requeue_write_shape[OF assms] by blast
  have "get_task d' j = (if j = i then map_option (requeue_row now c fr mid) (get_task d j)
      else get_task d j)" for j
    by (simp add: d' get_task_def row_of_upd)
  then show ?thesis by blast
qed

lemma retain_path_in: "p = Some s \<Longrightarrow> s \<noteq> [] \<Longrightarrow> s \<in> fst ` set (retain_path i p rs)"
  "x \<in> fst ` set rs \<Longrightarrow> x \<in> fst ` set (retain_path i p rs)"
  by (auto simp: retain_path_def split: option.splits)

text \<open>
  C29. A confirmed recovery is used once and loses no remote object: after \<open>requeue\<close> accepted
  a confirmation, the task waits in the queue or for its upload, every other task is as it
  was, a second use of the same confirmation is refused, and a recovery under a new name has
  put every remote path the task had recorded under protection.
\<close>

theorem requeue_once_and_protected:
  assumes "requeue P i u e c fr rs m now d = Inr (True, d')" and "now \<noteq> e"
  shows "requeue P i u e c fr rs m now d' = Inr (False, d')
    \<and> (\<exists>t t'. get_task d i = Some t \<and> get_task d' i = Some t'
        \<and> t_state t' \<in> {Queued, WaitingUpload}
        \<and> (fr \<longrightarrow> (\<forall>s. s \<noteq> [] \<and> Some s \<in> {t_remote_path t, t_remote_temp_path t, t_remote_final_path t}
              \<longrightarrow> protected_remote d' s)))
    \<and> (\<forall>j. j \<noteq> i \<longrightarrow> get_task d' j = get_task d j)"
  using assms(1)
proof (cases rule: requeue_cases)
  case (requeued t)
  obtain mid where g: "\<And>j. get_task d' j = (if j = i then map_option (requeue_row now c fr mid) (get_task d j)
      else get_task d j)"
    using requeue_write_get[OF requeued(4)] by blast
  have gi: "get_task d' i = Some (requeue_row now c fr mid t)" using g requeued(2) by simp
  have "requeue P i u e c fr rs m now d' = Inr (False, d')"
    using assms(2) by (simp add: requeue_def gi requeue_ok_def)
  moreover have "protected_remote d' s"
    if "fr" "s \<noteq> []" "Some s \<in> {t_remote_path t, t_remote_temp_path t, t_remote_final_path t}" for s
  proof -
    have "d_retained d' = retain_path i (t_remote_final_path t)
           (retain_path i (t_remote_temp_path t) (retain_path i (t_remote_path t) (d_retained d)))"
      using requeued(4) that(1)
      by (auto simp: requeue_write_def Let_def split: if_splits)
    then show ?thesis using that(2,3) retain_path_in
      unfolding protected_remote_def by (metis empty_iff insert_iff)
  qed
  ultimately show ?thesis using requeued(2) gi g by auto
qed simp

lemma ex_admit: "admit ascii_platform (ex_db ts) u sz now z tid = Inr ()"
  by (simp add: admit_def limits_def no_limits_def Let_def)

theorem requeue_once_and_protected_witness:
  "\<exists>d'. requeue ascii_platform 1 9 0 False False False None 5 (ex_db [ex_task 1 DownloadFailed]) = Inr (True, d')
     \<and> requeue ascii_platform 1 9 0 False False False None 5 d' = Inr (False, d')"
proof -
  obtain d' where r: "requeue ascii_platform 1 9 0 False False False None 5
      (ex_db [ex_task 1 DownloadFailed]) = Inr (True, d')"
    by (simp add: requeue_def requeue_ok_def FAILED_STATES_def ex_zone ex_admit requeue_write_def Let_def
        split: if_splits)
  from requeue_once_and_protected[OF r] r show ?thesis by auto
qed

section \<open>Messages are accepted once\<close>

text \<open>
  A message is stored once: after \<open>create_task\<close> returned a task, the same message, and
  the same media of the same sender in whatever message, is answered with that same task and
  changes nothing, whenever and with whatever name, size and directory it is offered again,
  unless the new message is also a duplicate of an older task.
\<close>

theorem create_task_idempotent:
  assumes "wf_db d" and "create_task P n now d = Inr ((t, created), d')"
    and "(n_chat n' = t_chat_id t \<and> n_message n' = t_message_id t)
      \<or> (n_media_key n' \<noteq> None \<and> n_media_key n' = t_media_key t \<and> n_sender n' = t_sender_id t)"
    and "\<And>u. u \<in> set (d_tasks d') \<Longrightarrow> duplicate_of n' u \<Longrightarrow> t_id t \<le> t_id u"
  shows "create_task Q n' now' d' = Inr ((t, False), d')"
proof -
  have "wf_db d'" using wf_create_task[OF assms(1,2)] .
  have t: "t \<in> set (d_tasks d')" using assms(2)
    by (cases rule: create_task_cases) (auto simp: insert_task_Some)
  have dup: "duplicate_of n' t" using assms(3) by (auto simp: duplicate_of_def)
  obtain u where u: "find (duplicate_of n') (d_tasks d') = Some u"
    using t dup by (cases "find (duplicate_of n') (d_tasks d')") (auto simp: find_None_iff)
  then obtain k where k: "k < length (d_tasks d')" "duplicate_of n' (d_tasks d' ! k)"
      "u = d_tasks d' ! k" "\<forall>j < k. \<not> duplicate_of n' (d_tasks d' ! j)"
    by (auto simp: find_Some_iff)
  have uin: "u \<in> set (d_tasks d')" using k by simp
  have sorted: "sorted_wrt (<) (map t_id (d_tasks d'))"
    using \<open>wf_db d'\<close> by (simp add: wf_db_def wf_tasks_def)
  obtain l where l: "l < length (d_tasks d')" "d_tasks d' ! l = t"
    using t by (auto simp: in_set_conv_nth)
  have "t_id u \<le> t_id t"
  proof (cases "k = l")
    case False
    with k l dup have "k < l" by (metis linorder_neqE_nat)
    then have "map t_id (d_tasks d') ! k < map t_id (d_tasks d') ! l"
      using sorted l(1) by (simp add: sorted_wrt_iff_nth_less)
    with l k show ?thesis by simp
  qed (use k(3) l(2) in simp)
  moreover have "t_id t \<le> t_id u" using assms(4)[OF uin] k by simp
  ultimately have "t_id u = t_id t" by simp
  then have "u = t" using get_task_in[OF \<open>wf_db d'\<close> uin] get_task_in[OF \<open>wf_db d'\<close> t] by (metis option.inject)
  with u show ?thesis by (simp add: create_task_def)
qed

theorem create_task_idempotent_witness:
  "create_task ascii_platform (ex_intake\<lparr>n_name := asc ''b.mp4'', n_size := 7\<rparr>) 9
     (ex_db [ex_task 1 Queued]) = Inr ((ex_task 1 Queued, False), ex_db [ex_task 1 Queued])"
  by (rule create_task_idempotent[OF wf_empty_db ex_create]) (simp_all add: ex_intake_def)

end
