(* ===== verification/Staging.thy ===== *)
theory Staging
  imports Admission
begin

text \<open>
  The names of staging objects on the remote: \<open>TaskDB.staging_name\<close>, \<open>STAGING_PATTERN\<close> of
  \<open>src/tg2cloud/domain/models.py\<close> that recognises them, and the test of
  \<open>transfer/actions.py\<close> whether such an object may be removed as an orphan.

  The pattern reads back the number of the task that wrote the name, so that an object of a
  task that is not finished is never an orphan of any task.
\<close>

section \<open>The pattern\<close>

definition STAGING_PREFIX :: ustr where
  "STAGING_PREFIX = asc ''.uploading-''"

definition staging_char :: "nat \<Rightarrow> bool" where
  "staging_char c \<longleftrightarrow> c \<notin> {47, 92, 13, 10, 0}"

text \<open>
  \<open>re.fullmatch(r"\.uploading-([1-9][0-9]{0,17})-[^/\\\r\n\x00]+", s)\<close>. The group is
  followed by a hyphen, so that it is the longest run of digits.
\<close>

definition staging_match :: "ustr \<Rightarrow> int option" where
  "staging_match s =
    (if \<not> starts_with s STAGING_PREFIX then None
     else let rest = drop (length STAGING_PREFIX) s;
              digits = takeWhile is_digit rest;
              tail = dropWhile is_digit rest
       in if digits \<noteq> [] \<and> hd digits \<noteq> 48 \<and> length digits \<le> 18
             \<and> (case tail of [] \<Rightarrow> False | c # name \<Rightarrow> c = 45 \<and> name \<noteq> [] \<and> list_all staging_char name)
          then Some (int (undec_nat digits)) else None)"

section \<open>Orphans\<close>

definition TERMINAL_TASK_STATES :: "task_state list" where
  "TERMINAL_TASK_STATES = [Completed, Confirmed, Cancelled]"

definition path_text :: "ustr option \<Rightarrow> ustr" where
  "path_text p = (case p of None \<Rightarrow> [] | Some s \<Rightarrow> s)"

definition recorded_paths :: "task \<Rightarrow> ustr list" where
  "recorded_paths t = [path_text (t_remote_temp_path t), path_text (t_remote_final_path t),
     path_text (t_remote_path t)]"

definition is_orphan_staging :: "taskdb \<Rightarrow> int \<Rightarrow> ustr \<Rightarrow> bool" where
  "is_orphan_staging d i path =
    (if staging_match path \<noteq> Some i \<or> protected_remote d path then False
     else (case get_task d i of
         None \<Rightarrow> True
       | Some t \<Rightarrow> if path \<in> set (recorded_paths t) then False
                   else t_state t \<in> set TERMINAL_TASK_STATES))"

section \<open>Lemmas\<close>

lemma takeWhile_digits:
  "list_all is_digit ds \<Longrightarrow> \<not> is_digit c \<Longrightarrow>
     takeWhile is_digit (ds @ c # r) = ds \<and> dropWhile is_digit (ds @ c # r) = c # r"
  by (induction ds) auto

lemma digit_staging: "is_digit c \<Longrightarrow> staging_char c"
  by (auto simp: is_digit_def staging_char_def)

lemma staging_match_dec:
  assumes "0 < i" "i < 10 ^ 18" "name \<noteq> []" "list_all staging_char name"
  shows "staging_match (STAGING_PREFIX @ dec i @ 45 # name) = Some i"
proof -
  have "\<not> is_digit 45" by (simp add: is_digit_def)
  then have tw: "takeWhile is_digit (dec i @ 45 # name) = dec i"
    "dropWhile is_digit (dec i @ 45 # name) = 45 # name"
    using takeWhile_digits[OF dec_nat_all_digits, of 45 "nat i" name] assms(1)
    by (simp_all add: dec_def)
  have hd: "hd (dec i) \<noteq> 48" using dec_nat_head[of "nat i"] assms(1) by (simp add: dec_def)
  have "nat i < 10 ^ 18" using assms by (simp add: nat_less_iff)
  then have len: "length (dec i) \<le> 18" using dec_nat_length[of "nat i" 18] assms(1) by (simp add: dec_def)
  have "dec i \<noteq> []" "int (undec_nat (dec i)) = i"
    using assms(1) by (simp_all add: dec_def undec_dec_nat)
  with tw hd len assms(3,4) show ?thesis by (simp add: staging_match_def Let_def)
qed

lemma last_recovery_nonneg: "0 \<le> last_recovery d i"
proof -
  have "0 \<le> foldr (\<lambda>r m. if r_task r = i then max (r_id r) m else m) rs 0" for rs
    by (induction rs) auto
  then show ?thesis by (simp add: last_recovery_def)
qed

lemma staging_name_shape:
  "\<exists>attempt. staging_name d i safe = STAGING_PREFIX @ dec i @ 45 # attempt @ safe
     \<and> list_all staging_char attempt \<and> utf8_len attempt \<le> (if last_recovery d i = 0 then 0
         else 2 + length (dec (last_recovery d i)))"
proof (cases "last_recovery d i = 0")
  case True
  then show ?thesis by (intro exI[of _ "[]"]) (simp add: staging_name_def STAGING_PREFIX_def asc_def)
next
  case False
  let ?a = "asc ''r'' @ dec (last_recovery d i) @ asc ''-''"
  have digits: "list_all is_digit (dec (last_recovery d i))"
    using last_recovery_nonneg[of d i] dec_nat_all_digits by (simp add: dec_def)
  then have "list_all staging_char ?a"
    using digit_staging by (auto simp: list_all_iff asc_def staging_char_def)
  moreover have "utf8_len s = length s" if "list_all is_digit s" for s
    using that by (induction s) (auto simp: utf8_size_def is_digit_def)
  ultimately show ?thesis using False digits
    by (intro exI[of _ ?a]) (simp add: staging_name_def STAGING_PREFIX_def asc_def Let_def utf8_size_def)
qed

lemma safe_name_staging:
  assumes "\<And>c. is_surrogate c \<Longrightarrow> category P c = UCs"
  shows "safe_file_name P name fb \<noteq> [] \<and> list_all staging_char (safe_file_name P name fb)
    \<and> utf8_len (safe_file_name P name fb) \<le> 180"
proof -
  obtain cand where cand: "plain_name cand" "safe_file_name P name fb =
       (let suffix = truncate_utf8 (path_suffix cand) 24;
            stem = truncate_utf8 (path_stem cand) (max 1 (180 - utf8_len suffix))
        in (if stem = [] then asc ''file'' else stem) @ suffix)"
    using safe_file_name_candidate[OF assms] by metis
  have "staging_char c" if "\<not> forbidden c" for c
    using that by (auto simp: forbidden_def staging_char_def)
  with bounded_name[OF cand(1)] show ?thesis
    unfolding cand(2) by (auto simp: Let_def list_all_iff)
qed

text \<open>
  C30. A staging name tells whose it is: the name that \<open>staging_name\<close> makes for a task, whatever
  the file is called and however often the task was recovered, is recognised by the staging
  pattern and read back as exactly the number of that task, and is short enough for a file
  system that allows 255 bytes.
\<close>

theorem staging_name_roundtrip:
  assumes "\<And>c. is_surrogate c \<Longrightarrow> category P c = UCs" and "0 < i" "i < 10 ^ 18"
    and "last_recovery d i < 10 ^ 18"
  shows "staging_match (staging_name d i (safe_file_name P name fb)) = Some i
    \<and> utf8_len (staging_name d i (safe_file_name P name fb)) \<le> 255"
proof -
  let ?n = "safe_file_name P name fb"
  note n = safe_name_staging[OF assms(1), of name fb]
  obtain mark where a: "staging_name d i ?n = STAGING_PREFIX @ dec i @ 45 # mark @ ?n"
    "list_all staging_char mark"
    "utf8_len mark \<le> (if last_recovery d i = 0 then 0 else 2 + length (dec (last_recovery d i)))"
    using staging_name_shape by blast
  have digits: "utf8_len (dec k) \<le> 18 \<and> length (dec k) \<le> 18" if "0 \<le> k" "k < 10 ^ 18" for k
  proof -
    have "utf8_len s = length s" if "list_all is_digit s" for s
      using that by (induction s) (auto simp: utf8_size_def is_digit_def)
    then have "utf8_len (dec k) = length (dec k)"
      using that(1) dec_nat_all_digits by (simp add: dec_def)
    moreover have "nat k < 10 ^ 18" using that by (simp add: nat_less_iff)
    ultimately show ?thesis using dec_nat_length[of "nat k" 18] that(1) by (simp add: dec_def)
  qed
  have "utf8_len mark \<le> 20"
    using a(3) digits[OF last_recovery_nonneg assms(4)] by (simp split: if_splits)
  moreover have "utf8_len STAGING_PREFIX = 11" by (simp add: STAGING_PREFIX_def asc_def utf8_size_def)
  moreover have "utf8_len (dec i) \<le> 18" using digits[of i] assms by simp
  ultimately have "utf8_len (staging_name d i ?n) \<le> 255"
    using n by (simp add: a(1) utf8_size_def)
  moreover have "staging_match (staging_name d i ?n) = Some i"
    unfolding a(1) using n a(2) by (intro staging_match_dec assms) auto
  ultimately show ?thesis by simp
qed

theorem staging_name_roundtrip_witness:
  "staging_match (staging_name empty_db 401 (safe_file_name ascii_platform (asc ''a/b-2.mp4'') [])) = Some 401
    \<and> utf8_len (staging_name empty_db 401 (safe_file_name ascii_platform (asc ''a/b-2.mp4'') [])) \<le> 255"
  by (rule staging_name_roundtrip)
    (simp_all add: ascii_platform_def is_surrogate_def last_recovery_def empty_db_def)

text \<open>
  Orphan cleanup never takes an object a task may need: the staging name of a task that
  is not completed, confirmed or cancelled is an orphan of no task, whether or not the
  database has recorded the path yet.
\<close>

theorem live_staging_not_orphan:
  assumes "\<And>c. is_surrogate c \<Longrightarrow> category P c = UCs" and "0 < i" "i < 10 ^ 18"
    and "last_recovery d i < 10 ^ 18" and "get_task d i = Some t"
    and "t_state t \<notin> {Completed, Confirmed, Cancelled}"
  shows "\<not> is_orphan_staging d k (staging_name d i (safe_file_name P name fb))"
  using staging_name_roundtrip[OF assms(1-4)] assms(5,6)
  by (auto simp: is_orphan_staging_def TERMINAL_TASK_STATES_def split: if_splits)

theorem live_staging_not_orphan_witness:
  "\<not> is_orphan_staging (ex_db [ex_task 1 Uploading]) 1
     (staging_name (ex_db [ex_task 1 Uploading]) 1 (safe_file_name ascii_platform (asc ''a.mp4'') []))"
  by (rule live_staging_not_orphan[where t = "ex_task 1 Uploading"])
    (simp_all add: ascii_platform_def is_surrogate_def last_recovery_def)

end
