(* ===== verification/Prog.thy ===== *)
theory Prog
  imports Staging
begin

text \<open>
  The asynchronous handlers of the transfer engine as programs over a world.

  The world holds the task database, the number of the next event, and the trace of what was
  done outside the database. Everything outside the code under \<open>src/\<close>, the remote storage
  behind \<open>rclone\<close>, Telegram, the disk, the clock, the other coroutines, is the environment
  \<open>env\<close>: for every event number it fixes the answer, a value or an exception, and what the other
  coroutines do to the database during that \<open>await\<close>. The theorems hold for every environment,
  so for every moment at which a call fails, hangs up or is cancelled
  (\<open>asyncio.CancelledError\<close> is an answer of any \<open>await\<close>).

  A program returns, raises, or, where a loop of the code has no bound, runs out of fuel
  (\<open>Stuck\<close>); separate theorems show how much fuel is enough.
\<close>

section \<open>Environment and world\<close>

record env =
  e_P :: platform
  e_openlist :: bool
  e_target :: ustr
  e_label :: ustr
  e_max_retries :: int
  e_dir :: ustr
  e_time :: "nat \<Rightarrow> rat"
  e_others :: "nat \<Rightarrow> taskdb \<Rightarrow> taskdb"
  e_exists :: "nat \<Rightarrow> ustr \<Rightarrow> exc + bool"
  e_size :: "nat \<Rightarrow> ustr \<Rightarrow> exc + int"
  e_remove :: "nat \<Rightarrow> ustr \<Rightarrow> exc + unit"
  e_ensure :: "nat \<Rightarrow> ustr \<Rightarrow> exc + unit"
  e_move :: "nat \<Rightarrow> ustr \<Rightarrow> ustr \<Rightarrow> exc + unit"
  e_upload :: "nat \<Rightarrow> ustr \<Rightarrow> ustr \<Rightarrow> int list \<times> (exc + unit)"
  e_local :: "nat \<Rightarrow> ustr \<Rightarrow> int option"
  e_unlink :: "nat \<Rightarrow> ustr \<Rightarrow> exc + unit"
  e_replace :: "nat \<Rightarrow> ustr \<Rightarrow> ustr \<Rightarrow> exc + unit"
  e_notify :: "nat \<Rightarrow> exc + unit"
  e_sleep :: "nat \<Rightarrow> exc + unit"
  e_message :: "nat \<Rightarrow> int \<Rightarrow> int \<Rightarrow> exc + bool"
  e_open :: "nat \<Rightarrow> ustr \<Rightarrow> int \<Rightarrow> exc + unit"
  e_pour :: "nat \<Rightarrow> (rat \<times> int \<times> int) list \<times> (exc + int)"
  e_finish :: "nat \<Rightarrow> exc + unit"
  e_abort :: "nat \<Rightarrow> exc + unit"
  e_fetch :: "nat \<Rightarrow> ustr \<Rightarrow> (rat \<times> int \<times> int) list \<times> (exc + bool)"
  e_source :: "nat \<Rightarrow> task \<Rightarrow> exc + unit"

text \<open>
  What a handler does outside the database. \<open>Persist\<close> is a completed \<open>db.transition\<close>;
  \<open>Unlink\<close> removes the complete local copy, \<open>Discard\<close> an incomplete or wrong local file.
\<close>

datatype action =
    Exists ustr "exc + bool" | SizeOf ustr "exc + int" | Remove ustr "exc + unit"
  | Ensure ustr "exc + unit" | MoveTo ustr ustr "exc + unit" | UploadTo ustr ustr "exc + unit"
  | OpenTo ustr "exc + unit" | Persist int task_state "assign list" | Unlink ustr "exc + unit"
  | Discard ustr "exc + unit" | Replace ustr ustr "exc + unit" | Notify | Other

record world =
  w_db :: taskdb
  w_at :: nat
  w_trace :: "action list"

datatype 'a outcome = Done 'a | Raised exc | Stuck

type_synonym 'a prog = "world \<Rightarrow> 'a outcome \<times> world"

section \<open>Control\<close>

definition returnP :: "'a \<Rightarrow> 'a prog" where
  "returnP a w = (Done a, w)"

definition raiseP :: "exc \<Rightarrow> 'a prog" where
  "raiseP e w = (Raised e, w)"

definition stuckP :: "'a prog" where
  "stuckP w = (Stuck, w)"

definition bindP :: "'a prog \<Rightarrow> ('a \<Rightarrow> 'b prog) \<Rightarrow> 'b prog" where
  "bindP p f w = (case p w of (Done a, w') \<Rightarrow> f a w' | (Raised e, w') \<Rightarrow> (Raised e, w')
     | (Stuck, w') \<Rightarrow> (Stuck, w'))"

definition thenP :: "'a prog \<Rightarrow> 'b prog \<Rightarrow> 'b prog" where
  "thenP p q = bindP p (\<lambda>_. q)"

text \<open>\<open>tryP p h\<close>: \<open>h\<close> gets every exception; it re-raises those its except clauses do not name.\<close>

definition tryP :: "'a prog \<Rightarrow> (exc \<Rightarrow> 'a prog) \<Rightarrow> 'a prog" where
  "tryP p h w = (case p w of (Done a, w') \<Rightarrow> (Done a, w') | (Raised e, w') \<Rightarrow> h e w'
     | (Stuck, w') \<Rightarrow> (Stuck, w'))"

definition whenP :: "bool \<Rightarrow> unit prog \<Rightarrow> unit prog" where
  "whenP b p = (if b then p else returnP ())"

definition liftE :: "exc + 'a \<Rightarrow> 'a outcome" where
  "liftE r = (case r of Inl e \<Rightarrow> Raised e | Inr a \<Rightarrow> Done a)"

section \<open>Calls\<close>

text \<open>An awaited call: the answer of this event, then what the other coroutines did.\<close>

definition await :: "env \<Rightarrow> (nat \<Rightarrow> exc + 'a) \<Rightarrow> (exc + 'a \<Rightarrow> action) \<Rightarrow> 'a prog" where
  "await E f act w =
    (liftE (f (w_at w)),
     w\<lparr>w_db := e_others E (w_at w) (w_db w), w_at := Suc (w_at w),
       w_trace := w_trace w @ [act (f (w_at w))]\<rparr>)"

text \<open>A call that does not yield to the event loop.\<close>

definition sync :: "(nat \<Rightarrow> exc + 'a) \<Rightarrow> (exc + 'a \<Rightarrow> action) \<Rightarrow> 'a prog" where
  "sync f act w = (liftE (f (w_at w)),
     w\<lparr>w_at := Suc (w_at w), w_trace := w_trace w @ [act (f (w_at w))]\<rparr>)"

text \<open>Inside a long call, between two callbacks: only the other coroutines act.\<close>

definition yieldP :: "env \<Rightarrow> unit prog" where
  "yieldP E w = (Done (), w\<lparr>w_db := e_others E (w_at w) (w_db w), w_at := Suc (w_at w)\<rparr>)"

definition existsP :: "env \<Rightarrow> ustr \<Rightarrow> bool prog" where
  "existsP E p = await E (\<lambda>n. e_exists E n p) (Exists p)"

definition sizeP :: "env \<Rightarrow> ustr \<Rightarrow> int prog" where
  "sizeP E p = await E (\<lambda>n. e_size E n p) (SizeOf p)"

definition removeP :: "env \<Rightarrow> ustr \<Rightarrow> unit prog" where
  "removeP E p = await E (\<lambda>n. e_remove E n p) (Remove p)"

definition ensureP :: "env \<Rightarrow> ustr \<Rightarrow> unit prog" where
  "ensureP E p = await E (\<lambda>n. e_ensure E n p) (Ensure p)"

definition moveP :: "env \<Rightarrow> ustr \<Rightarrow> ustr \<Rightarrow> unit prog" where
  "moveP E a b = await E (\<lambda>n. e_move E n a b) (MoveTo a b)"

definition sleepP :: "env \<Rightarrow> unit prog" where
  "sleepP E = await E (e_sleep E) (\<lambda>_. Other)"

text \<open>\<open>_notify\<close> swallows every Exception of \<open>send_message\<close>, but not a cancellation.\<close>

definition notifyP :: "env \<Rightarrow> unit prog" where
  "notifyP E = await E (\<lambda>n. if e_notify E n = Inl CancelledError then Inl CancelledError else Inr ())
     (\<lambda>_. Notify)"

text \<open>A regular local file: \<open>is_file\<close> and \<open>stat().st_size\<close>.\<close>

definition fileP :: "env \<Rightarrow> ustr \<Rightarrow> int option prog" where
  "fileP E p w = (Done (e_local E (w_at w) p), w\<lparr>w_at := Suc (w_at w)\<rparr>)"

definition statP :: "env \<Rightarrow> ustr \<Rightarrow> int prog" where
  "statP E p = bindP (fileP E p) (\<lambda>r. case r of None \<Rightarrow> raiseP (FileNotFoundError []) | Some n \<Rightarrow> returnP n)"

definition unlinkP :: "env \<Rightarrow> ustr \<Rightarrow> unit prog" where
  "unlinkP E p = sync (\<lambda>n. e_unlink E n p) (Unlink p)"

definition discardP :: "env \<Rightarrow> ustr \<Rightarrow> unit prog" where
  "discardP E p = sync (\<lambda>n. e_unlink E n p) (Discard p)"

section \<open>Database calls\<close>

definition getP :: "int \<Rightarrow> task option prog" where
  "getP i w = (Done (get_task (w_db w) i), w)"

definition dbP :: "(taskdb \<Rightarrow> 'a) \<Rightarrow> 'a prog" where
  "dbP f w = (Done (f (w_db w)), w)"

definition nowP :: "env \<Rightarrow> rat prog" where
  "nowP E w = (Done (e_time E (w_at w)), w)"

definition transP :: "env \<Rightarrow> int \<Rightarrow> task_state \<Rightarrow> assign list \<Rightarrow> unit prog" where
  "transP E i s asg w =
    (case transition i s asg (e_time E (w_at w)) (w_db w) of
       Inl e \<Rightarrow> (Raised e, w)
     | Inr d \<Rightarrow> (Done (), w\<lparr>w_db := d, w_at := Suc (w_at w), w_trace := w_trace w @ [Persist i s asg]\<rparr>))"

definition updateP :: "env \<Rightarrow> int \<Rightarrow> assign list \<Rightarrow> unit prog" where
  "updateP E i asg w = (Done (), w\<lparr>w_db := update i asg (e_time E (w_at w)) (w_db w), w_at := Suc (w_at w)\<rparr>)"

section \<open>Exceptions by class\<close>

definition is_os_error :: "exc \<Rightarrow> bool" where
  "is_os_error e = (case e of OSError m \<Rightarrow> True | PermissionError m \<Rightarrow> True | FileNotFoundError m \<Rightarrow> True
     | TimeoutError \<Rightarrow> True | SourceTemporaryError k \<Rightarrow> True | _ \<Rightarrow> False)"

definition is_move_uncertain :: "exc \<Rightarrow> bool" where
  "is_move_uncertain e = (case e of MoveUncertainError m \<Rightarrow> True | _ \<Rightarrow> False)"

definition is_listener_error :: "exc \<Rightarrow> bool" where
  "is_listener_error e = (case e of ListenerReadError m \<Rightarrow> True | ListenerRateLimited m n \<Rightarrow> True | _ \<Rightarrow> False)"

section \<open>Loops\<close>

fun eachP :: "('b \<Rightarrow> unit prog) \<Rightarrow> 'b list \<Rightarrow> unit prog" where
  "eachP f [] = returnP ()"
| "eachP f (x # xs) = thenP (f x) (eachP f xs)"

text \<open>\<open>range(a, b)\<close>.\<close>

definition py_range :: "int \<Rightarrow> int \<Rightarrow> int list" where
  "py_range a b = [a..b - 1]"

end
