(* ===== verification/Commit.thy ===== *)
theory Commit
  imports Prog
begin

text \<open>
  Committing a file to the remote: the steps that \<open>src/tg2cloud/transfer/upload.py\<close>,
  \<open>transfer/streaming.py\<close> and \<open>transfer/recovery.py\<close> share, and the two commit policies of
  \<open>storage/clouddrive2.py\<close> and \<open>storage/openlist.py\<close>.

  \<open>i\<close> is the task number, \<open>t\<close> the row the handler read at its start (\<open>task\<close> in the code);
  the text of notifications is not modelled. The environment knows the policy
  (\<open>e_openlist\<close>) and \<open>settings.cd2_target\<close> (\<open>e_target\<close>).
\<close>

section \<open>Choosing a final path\<close>

definition joined :: "ustr \<Rightarrow> ustr \<Rightarrow> ustr" where
  "joined dir name = (if dir \<noteq> [] then dir @ [47] @ name else name)"

definition numbered :: "ustr \<Rightarrow> int \<Rightarrow> nat \<Rightarrow> ustr" where
  "numbered file_name i suffix = path_stem file_name @ asc '' (task-'' @ dec i
     @ (if suffix < 2 then [] else 45 # dec_nat suffix) @ asc '')'' @ path_suffix file_name"

text \<open>\<open>claimed(candidate) or await exists(candidate)\<close>: the second is asked only if needed.\<close>

definition takenP :: "env \<Rightarrow> int \<Rightarrow> ustr \<Rightarrow> bool prog" where
  "takenP E i path = bindP (dbP (\<lambda>d. remote_claimed d path i)) (\<lambda>claimed.
     if claimed then returnP True else existsP E path)"

text \<open>The \<open>while\<close> loop; \<open>suffix\<close> numbers the candidate under test (1: without a number).\<close>

fun choose_loop :: "nat \<Rightarrow> env \<Rightarrow> int \<Rightarrow> ustr \<Rightarrow> ustr \<Rightarrow> nat \<Rightarrow> ustr prog" where
  "choose_loop 0 E i dir file_name suffix = stuckP"
| "choose_loop (Suc fuel) E i dir file_name suffix =
     (let candidate = joined dir (numbered file_name i suffix) in
      bindP (takenP E i candidate) (\<lambda>taken.
        if taken then choose_loop fuel E i dir file_name (suffix + 1) else returnP candidate))"

definition exprP :: "exc + 'a \<Rightarrow> 'a prog" where
  "exprP r w = (liftE r, w)"

definition choose_remote_final :: "env \<Rightarrow> nat \<Rightarrow> ustr \<Rightarrow> int \<Rightarrow> ustr prog" where
  "choose_remote_final E fuel file_name i =
    bindP (getP i) (\<lambda>row.
    bindP (exprP (case row of None \<Rightarrow> safe_directory (e_P E) []
                  | Some t \<Rightarrow> bindE (check_scope (e_P E) t (e_target E))
                                (\<lambda>_. safe_directory (e_P E) (t_target_directory t)))) (\<lambda>dir.
    thenP (whenP (dir \<noteq> []) (ensureP E dir))
      (bindP (takenP E i (joined dir file_name)) (\<lambda>taken.
        if \<not> taken then returnP (joined dir file_name)
        else choose_loop fuel E i dir file_name 1))))"

section \<open>Commit policies\<close>

definition STAGED :: ustr where "STAGED = asc ''.uploading-''"

definition rowP :: "int \<Rightarrow> task \<Rightarrow> task prog" where
  "rowP i t = bindP (getP i) (\<lambda>r. returnP (case r of None \<Rightarrow> t | Some u \<Rightarrow> u))"

text \<open>The reserved final path: the recorded one, which must not exist, or a new one.\<close>

definition reserve_final :: "env \<Rightarrow> nat \<Rightarrow> int \<Rightarrow> task \<Rightarrow> ustr \<Rightarrow> ustr \<Rightarrow> ustr prog" where
  "reserve_final E fuel i t safe_name why =
    bindP (rowP i t) (\<lambda>current.
      let final = path_text (t_remote_final_path current) in
      if final = [] then choose_remote_final E fuel safe_name i
      else bindP (existsP E final) (\<lambda>there.
             if there then raiseP (RemoteReviewRequired why) else returnP final))"

definition openlist_begin ::
  "env \<Rightarrow> nat \<Rightarrow> int \<Rightarrow> task \<Rightarrow> ustr \<Rightarrow> task_state \<Rightarrow> assign list \<Rightarrow> ustr prog" where
  "openlist_begin E fuel i t safe_name state asg =
    bindP (reserve_final E fuel i t safe_name msg_ol_final_exists) (\<lambda>final.
    thenP (transP E i state ([ARemote (Some final), ATemp None, AFinal (Some final)] @ asg))
      (returnP final))"

definition clouddrive_begin ::
  "env \<Rightarrow> int \<Rightarrow> task_state \<Rightarrow> ustr \<Rightarrow> assign list \<Rightarrow> ustr prog" where
  "clouddrive_begin E i state remote_temp asg =
    thenP (transP E i state ([ARemote (Some remote_temp), ATemp (Some remote_temp)] @ asg))
      (returnP remote_temp)"

definition begin_remote_write ::
  "env \<Rightarrow> nat \<Rightarrow> int \<Rightarrow> task \<Rightarrow> ustr \<Rightarrow> task_state \<Rightarrow> ustr \<Rightarrow> assign list \<Rightarrow> ustr prog" where
  "begin_remote_write E fuel i t safe_name state remote_temp asg =
    (if e_openlist E then openlist_begin E fuel i t safe_name state asg
     else clouddrive_begin E i state remote_temp asg)"

section \<open>Receiving\<close>

definition cleanup_fields :: "ustr \<Rightarrow> int \<Rightarrow> rat \<Rightarrow> assign list" where
  "cleanup_fields final sz now = [ARemote (Some final), AFinal (Some final), ATemp None, AUploaded sz,
     AVerification (Some BySize), AVerifiedAt (Some now), AFailureKind None, AError None,
     AWait (Some msg_verified), ANextRetry 0]"

definition completed_fields :: "assign list" where
  "completed_fields = [ALocal None, AError None, AWait None, ANextRetry 0]"

definition drop_temp :: "env \<Rightarrow> ustr \<Rightarrow> ustr \<Rightarrow> unit prog" where
  "drop_temp E temp final =
    (if temp = [] \<or> temp = final then returnP ()
     else bindP (existsP E temp) (\<lambda>there.
       if \<not> there then returnP ()
       else thenP (removeP E temp) (bindP (existsP E temp) (\<lambda>still.
         if still then raiseP (RuntimeError msg_temp_left) else returnP ()))))"

text \<open>\<open>unlink(missing_ok=True)\<close>, and what an OSError leads to; the result says whether to go on.\<close>

definition drop_local :: "env \<Rightarrow> int \<Rightarrow> ustr option \<Rightarrow> bool prog" where
  "drop_local E i local_path =
    (case local_path of
       None \<Rightarrow> returnP True
     | Some p \<Rightarrow> tryP (thenP (unlinkP E p) (returnP True)) (\<lambda>e.
         if is_os_error e then
           bindP (nowP E) (\<lambda>now. thenP (updateP E i
             [AError (Some (take 1000 (msg_unlink_failed @ exc_text e))),
              AWait (Some msg_unlink_wait), ANextRetry (now + 60)]) (returnP False))
         else raiseP e))"

definition complete_cloud_receive ::
  "env \<Rightarrow> int \<Rightarrow> task \<Rightarrow> ustr option \<Rightarrow> ustr \<Rightarrow> unit prog" where
  "complete_cloud_receive E i t local_path final =
    bindP (rowP i t) (\<lambda>current.
    thenP (drop_temp E (path_text (t_remote_temp_path current)) final)
      (bindP (nowP E) (\<lambda>now.
       thenP (transP E i CleanupPending (cleanup_fields final (t_file_size t) now))
         (bindP (drop_local E i local_path) (\<lambda>go.
           if go then thenP (transP E i Completed completed_fields) (notifyP E) else returnP ())))))"

section \<open>Finalizing\<close>

definition size_text :: "ustr \<Rightarrow> int \<Rightarrow> int \<Rightarrow> ustr" where
  "size_text m a b = m @ dec a @ asc '' != '' @ dec b"

text \<open>The rename of a staging object; the lock serialises it against other tasks.\<close>

definition rename_staged :: "env \<Rightarrow> nat \<Rightarrow> int \<Rightarrow> task \<Rightarrow> ustr \<Rightarrow> ustr \<Rightarrow> ustr prog" where
  "rename_staged E fuel i t remote_path safe_name =
    bindP (reserve_final E fuel i t safe_name msg_final_exists) (\<lambda>final.
    thenP (transP E i Finalizing [ARemote (Some final), ATemp (Some remote_path), AFinal (Some final)])
      (thenP (moveP E remote_path final) (returnP final)))"

definition checked_size :: "env \<Rightarrow> bool \<Rightarrow> ustr \<Rightarrow> int prog" where
  "checked_size E moved final =
    tryP (sizeP E final) (\<lambda>e.
      if e \<noteq> CancelledError \<and> moved \<and> e_openlist E
      then raiseP (MoveUncertainError (msg_move_unchecked @ msg_move_kept))
      else raiseP e)"

definition finalize_remote ::
  "env \<Rightarrow> nat \<Rightarrow> int \<Rightarrow> task \<Rightarrow> ustr \<Rightarrow> ustr \<Rightarrow> ustr option \<Rightarrow> unit prog" where
  "finalize_remote E fuel i t remote_path safe_name local_path =
    (let moved = starts_with remote_path STAGED in
     bindP (if moved then rename_staged E fuel i t remote_path safe_name else returnP remote_path) (\<lambda>final.
     bindP (checked_size E moved final) (\<lambda>final_size.
       if final_size \<noteq> t_file_size t then
         (if moved \<and> e_openlist E
          then raiseP (MoveUncertainError (msg_move_size @ msg_move_kept))
          else raiseP (RemoteReviewRequired (size_text msg_stream_move_size final_size (t_file_size t))))
       else complete_cloud_receive E i t local_path final)))"

section \<open>Resuming\<close>

definition resume_paths :: "task \<Rightarrow> ustr \<times> ustr" where
  "resume_paths c =
    (let legacy = path_text (t_remote_path c); final = path_text (t_remote_final_path c);
         temp = path_text (t_remote_temp_path c) in
     (if final \<noteq> [] then final else if legacy \<noteq> [] \<and> \<not> starts_with legacy STAGED then legacy else [],
      if temp \<noteq> [] then temp else if starts_with legacy STAGED then legacy else []))"

text \<open>\<open>path and await exists(path)\<close>.\<close>

definition presentP :: "env \<Rightarrow> ustr \<Rightarrow> bool prog" where
  "presentP E p = (if p = [] then returnP False else existsP E p)"

definition resume_remote ::
  "env \<Rightarrow> nat \<Rightarrow> int \<Rightarrow> task \<Rightarrow> ustr option \<Rightarrow> ustr \<Rightarrow> bool prog" where
  "resume_remote E fuel i t local_path safe_name =
    bindP (rowP i t) (\<lambda>current.
    case check_scope (e_P E) current (e_target E) of
      Inl e \<Rightarrow> raiseP (RemoteReviewRequired msg_scope_review)
    | Inr _ \<Rightarrow>
       let final = fst (resume_paths current); temp = snd (resume_paths current) in
       bindP (presentP E final) (\<lambda>final_there.
         if final_there then
           bindP (sizeP E final) (\<lambda>n.
             if n \<noteq> t_file_size t then raiseP (RemoteReviewRequired msg_final_size)
             else thenP (complete_cloud_receive E i t local_path final) (returnP True))
         else bindP (presentP E temp) (\<lambda>temp_there.
           if \<not> temp_there then returnP False
           else if e_openlist E then raiseP (RemoteReviewRequired msg_legacy_temp)
           else bindP (sizeP E temp) (\<lambda>n.
             if n = t_file_size t
             then thenP (finalize_remote E fuel i t temp safe_name local_path) (returnP True)
             else raiseP (RemoteReviewRequired msg_temp_partial)))))"

section \<open>Holding a failure\<close>

definition hold_transfer_failure :: "env \<Rightarrow> int \<Rightarrow> exc \<Rightarrow> bool \<Rightarrow> bool prog" where
  "hold_transfer_failure E i e stream =
    (let kind = failure_kind (e_P E) e in
     if kind \<notin> {RemoteConflict, Authentication, Permission, RateLimited} then returnP False
     else thenP (transP E i (if stream then DownloadFailed else UploadFailedRetained)
         [AError (Some (safe_failure (e_P E) e)), AFailureKind (Some kind), AVerification None,
          AVerifiedAt None, AWait (Some msg_hold_wait), ANextRetry 0])
       (thenP (notifyP E) (returnP True)))"

end
