(* ===== verification/Upload.thy ===== *)
theory Upload
  imports Commit
begin

text \<open>
  \<open>_upload_one\<close> of \<open>src/tg2cloud/transfer/upload.py\<close>: the handler that takes a complete local
  file to the remote, or finishes the cleanup of one that already arrived.
\<close>

section \<open>Progress\<close>

text \<open>
  The callback persists a byte count only when it differs from the last one of this attempt;
  before each call of it the other coroutines may run.
\<close>

fun upload_progress :: "env \<Rightarrow> int \<Rightarrow> int \<Rightarrow> int option \<Rightarrow> int list \<Rightarrow> unit prog" where
  "upload_progress E i sz prev [] = returnP ()"
| "upload_progress E i sz prev (n # ns) =
    (let uploaded = min n sz in
     thenP (yieldP E)
      (if Some uploaded = prev then upload_progress E i sz prev ns
       else thenP (updateP E i [AUploaded uploaded]) (upload_progress E i sz (Some uploaded) ns)))"

definition uploadP :: "env \<Rightarrow> int \<Rightarrow> int \<Rightarrow> ustr \<Rightarrow> ustr \<Rightarrow> unit prog" where
  "uploadP E i sz local remote w =
    (let (counts, r) = e_upload E (w_at w) local remote in
     thenP (upload_progress E i sz None counts) (await E (\<lambda>n. r) (UploadTo local remote)) w)"

section \<open>Cleanup of a received file\<close>

text \<open>The review that stops a file whose remote size changed after it was verified.\<close>

definition changed_fields :: "env \<Rightarrow> assign list" where
  "changed_fields E =
    [AError (Some (safe_failure (e_P E) (RemoteReviewRequired (asc ''changed after verification'')))),
     AFailureKind (Some RemoteConflict), AVerification None, AVerifiedAt None, AWait None]"

text \<open>\<open>exists(p) and remote_size(p) != n\<close>, respectively \<open>== n\<close>; \<open>None\<close> where it does not exist.\<close>

definition size_if_present :: "env \<Rightarrow> ustr \<Rightarrow> int option prog" where
  "size_if_present E p =
    (if p = [] then returnP None
     else bindP (existsP E p) (\<lambda>there.
       if \<not> there then returnP None else bindP (sizeP E p) (\<lambda>n. returnP (Some n))))"

definition check_received :: "env \<Rightarrow> int \<Rightarrow> task \<Rightarrow> ustr option \<Rightarrow> bool prog" where
  "check_received E i t local_path =
    (let recorded = path_text (t_remote_path t) in
     tryP (bindP (size_if_present E recorded) (\<lambda>first.
       if first \<noteq> None \<and> first \<noteq> Some (t_file_size t)
       then thenP (transP E i VerificationFailedRetained (changed_fields E)) (returnP True)
       else bindP (size_if_present E recorded) (\<lambda>second.
         if second = Some (t_file_size t)
         then thenP (complete_cloud_receive E i t local_path recorded) (returnP True)
         else returnP False)))
     (\<lambda>e. if e = CancelledError then raiseP e
          else bindP (nowP E) (\<lambda>now. thenP (updateP E i
            [AError (Some (msg_check_failed @ safe_failure (e_P E) e)), AVerification None,
             AVerifiedAt None, AWait (Some (msg_wait_dest_1 @ e_label E @ msg_wait_dest_2)),
             ANextRetry (now + 60)]) (returnP True))))"

definition is_fileP :: "env \<Rightarrow> ustr option \<Rightarrow> bool prog" where
  "is_fileP E p = (case p of None \<Rightarrow> returnP False
     | Some s \<Rightarrow> bindP (fileP E s) (\<lambda>r. returnP (r \<noteq> None)))"

text \<open>The result is the row to go on with, or \<open>None\<close> where the handler returns.\<close>

definition cleanup_branch :: "env \<Rightarrow> int \<Rightarrow> task \<Rightarrow> ustr option \<Rightarrow> task option prog" where
  "cleanup_branch E i t local_path =
    bindP (check_received E i t local_path) (\<lambda>finished.
      if finished then returnP None
      else bindP (is_fileP E local_path) (\<lambda>local_there.
        if \<not> local_there then
          (if t_transfer_mode t = StreamMode
           then thenP (transP E i Queued [ALocal None, ADownloaded 0, AUploaded 0, AVerification None,
               AVerifiedAt None, AWait (Some msg_stream_unconfirmed), ANextRetry 0]) (returnP None)
           else thenP (transP E i VerificationFailedRetained [AError (Some msg_both_lost),
               AFailureKind (Some RemoteConflict), AVerification None, AVerifiedAt None, AWait None])
               (returnP None))
        else thenP (transP E i WaitingUpload [ARemote None, AFinal None, AError (Some msg_remote_gone),
               AVerification None, AVerifiedAt None, AWait None, ANextRetry 0])
             (bindP (rowP i t) (\<lambda>u. returnP (Some u)))))"

section \<open>The local file\<close>

definition requeue_local :: "env \<Rightarrow> int \<Rightarrow> ustr \<Rightarrow> ustr \<Rightarrow> unit prog" where
  "requeue_local E i err wait = transP E i Queued [ALocal None, ADownloaded 0, ADownloadRetries 0,
     AUploadRetries 0, AError (Some err), AWait (Some wait), ANextRetry 0]"

text \<open>Whether the complete local file is there; otherwise the task was sent back.\<close>

definition check_local :: "env \<Rightarrow> int \<Rightarrow> task \<Rightarrow> ustr option \<Rightarrow> bool prog" where
  "check_local E i t local_path =
    bindP (is_fileP E local_path) (\<lambda>local_there.
      if \<not> local_there
      then thenP (requeue_local E i msg_local_gone msg_local_gone_wait) (returnP False)
      else let p = the local_path in
        bindP (statP E p) (\<lambda>n.
          if n = t_file_size t then returnP True
          else let err = size_text msg_local_size n (t_file_size t) in
            bindP (tryP (thenP (discardP E p) (returnP True)) (\<lambda>e.
                if is_os_error e then thenP (transP E i VerificationFailedRetained
                  [AError (Some (take 1000 (err @ msg_not_removable @ exc_text e)))]) (returnP False)
                else raiseP e)) (\<lambda>removed.
              if removed then thenP (requeue_local E i err msg_local_size_wait)
                (thenP (notifyP E) (returnP False))
              else returnP False)))"

section \<open>The attempts\<close>

definition upload_attempt ::
  "env \<Rightarrow> nat \<Rightarrow> int \<Rightarrow> task \<Rightarrow> ustr \<Rightarrow> ustr \<Rightarrow> ustr \<Rightarrow> unit prog" where
  "upload_attempt E fuel i t p safe_name remote_temp =
    bindP (resume_remote E fuel i t (Some p) safe_name) (\<lambda>resumed.
      if resumed then returnP ()
      else bindP (begin_remote_write E fuel i t safe_name Uploading remote_temp []) (\<lambda>remote_write.
        thenP (uploadP E i (t_file_size t) p remote_write)
        (thenP (transP E i Verifying [])
        (bindP (sizeP E remote_write) (\<lambda>n.
           if n \<noteq> t_file_size t
           then raiseP (RemoteReviewRequired (size_text msg_remote_size n (t_file_size t)))
           else finalize_remote E fuel i t remote_write safe_name (Some p))))))"

text \<open>The except clauses of one attempt; the result says whether the handler returns.\<close>

definition upload_failed :: "env \<Rightarrow> int \<Rightarrow> int \<Rightarrow> exc \<Rightarrow> bool prog" where
  "upload_failed E i attempt e =
    (if e = CancelledError then raiseP e
     else if is_move_uncertain e then
       thenP (transP E i UploadFailedRetained [AError (Some (safe_failure (e_P E) e)),
          AFailureKind (Some RemoteConflict), AVerification None, AVerifiedAt None,
          AWait (Some msg_move_wait)])
        (thenP (notifyP E) (returnP True))
     else bindP (hold_transfer_failure E i e False) (\<lambda>held.
       if held then returnP True
       else thenP (updateP E i [AUploadRetries (attempt + 1), AError (Some (safe_failure (e_P E) e)),
              AFailureKind (Some (failure_kind (e_P E) e))])
         (thenP (whenP (attempt + 1 < e_max_retries E) (sleepP E)) (returnP False))))"

fun upload_attempts ::
  "env \<Rightarrow> nat \<Rightarrow> int \<Rightarrow> task \<Rightarrow> ustr \<Rightarrow> ustr \<Rightarrow> ustr \<Rightarrow> int list \<Rightarrow> unit prog" where
  "upload_attempts E fuel i t p safe_name remote_temp [] =
     thenP (transP E i UploadFailedRetained [AError (Some msg_upload_used_up)]) (notifyP E)"
| "upload_attempts E fuel i t p safe_name remote_temp (a # attempts) =
     thenP (updateP E i [AUploadRetries a, AError None, AWait None])
      (bindP (tryP (thenP (upload_attempt E fuel i t p safe_name remote_temp) (returnP True))
                (upload_failed E i a)) (\<lambda>finished.
        if finished then returnP ()
        else upload_attempts E fuel i t p safe_name remote_temp attempts))"

definition upload_handlers :: "env \<Rightarrow> int \<Rightarrow> exc \<Rightarrow> unit prog" where
  "upload_handlers E i e =
    (if e = CancelledError then
       bindP (getP i) (\<lambda>current.
         thenP (whenP (case current of None \<Rightarrow> False
                  | Some c \<Rightarrow> t_state c \<notin> {Cancelled, CleanupPending, Completed, Confirmed})
                (transP E i WaitingUpload []))
           (raiseP CancelledError))
     else transP E i UploadFailedRetained [AError (Some (safe_failure (e_P E) e))])"

section \<open>The handler\<close>

definition task_file :: "ustr \<Rightarrow> int \<Rightarrow> ustr" where
  "task_file ext i = asc ''task-'' @ dec i @ ext"

definition upload_rest :: "env \<Rightarrow> nat \<Rightarrow> int \<Rightarrow> task \<Rightarrow> ustr option \<Rightarrow> unit prog" where
  "upload_rest E fuel i t local_path =
    bindP (check_local E i t local_path) (\<lambda>ok.
      if \<not> ok then returnP ()
      else let safe_name = safe_file_name (e_P E) (t_file_name t) (task_file (asc ''.bin'') i) in
        bindP (dbP (\<lambda>d. staging_name d i safe_name)) (\<lambda>remote_temp.
          tryP (upload_attempts E fuel i t (the local_path) safe_name remote_temp
                 (py_range (t_upload_retries t) (e_max_retries E)))
            (upload_handlers E i)))"

definition scope_changed :: "env \<Rightarrow> int \<Rightarrow> task \<Rightarrow> unit prog" where
  "scope_changed E i t = transP E i
     (if can_transition (t_state t) VerificationFailedRetained then VerificationFailedRetained
      else DownloadFailed)
     [AFailureKind (Some RemoteConflict), AError (Some msg_scope_error), AWait (Some msg_scope_wait),
      AVerification None, AVerifiedAt None]"

definition upload_one :: "env \<Rightarrow> nat \<Rightarrow> int \<Rightarrow> unit prog" where
  "upload_one E fuel i = bindP (getP i) (\<lambda>row. case row of
     None \<Rightarrow> returnP ()
   | Some t \<Rightarrow>
      if t_cancel_requested t \<or> t_state t \<in> {Completed, Confirmed, Cancelled} then returnP ()
      else (case check_scope (e_P E) t (e_target E) of
          Inl e \<Rightarrow> scope_changed E i t
        | Inr _ \<Rightarrow>
           let local_path = (if truthy (t_local_path t) then t_local_path t else None) in
           if t_state t = CleanupPending then
             bindP (cleanup_branch E i t local_path) (\<lambda>r. case r of
                 None \<Rightarrow> returnP () | Some u \<Rightarrow> upload_rest E fuel i u local_path)
           else upload_rest E fuel i t local_path))"

end
