(* ===== verification/Streaming.thy ===== *)
theory Streaming
  imports Upload
begin

text \<open>
  \<open>_stream_one\<close> of \<open>src/tg2cloud/transfer/streaming.py\<close>: a file that never lies on the local
  disk is poured from Telegram into the remote object.

  The handler keeps the open stream in a variable that its except clauses close. The model
  returns the way an attempt ended together with that variable: \<open>Escaped open e\<close> is an exception
  on its way to the outer except clauses, \<open>Returned\<close> the \<open>return\<close> of the handler, \<open>UsedUp\<close> the
  end of the loop with \<open>last_failure\<close>.
\<close>

datatype stream_end = Escaped bool exc | Returned | UsedUp "ustr option"

definition attemptP :: "'a prog \<Rightarrow> (exc + 'a) prog" where
  "attemptP p = tryP (bindP p (\<lambda>a. returnP (Inr a))) (\<lambda>e. returnP (Inl e))"

section \<open>Calls\<close>

definition sourceP :: "env \<Rightarrow> task \<Rightarrow> unit prog" where
  "sourceP E t = sync (\<lambda>n. e_source E n t) (\<lambda>_. Other)"

text \<open>\<open>get_messages\<close>: whether there is a message with media.\<close>

definition messageP :: "env \<Rightarrow> task \<Rightarrow> unit prog" where
  "messageP E t = bindP (await E (\<lambda>n. e_message E n (t_chat_id t) (t_message_id t)) (\<lambda>_. Other)) (\<lambda>there.
     if there then returnP () else raiseP (RuntimeError msg_no_media))"

definition openP :: "env \<Rightarrow> ustr \<Rightarrow> int \<Rightarrow> unit prog" where
  "openP E p sz = await E (\<lambda>n. e_open E n p sz) (OpenTo p)"

definition abortP :: "env \<Rightarrow> bool \<Rightarrow> unit prog" where
  "abortP E is_open = whenP is_open (await E (e_abort E) (\<lambda>_. Other))"

text \<open>
  The progress callback of a download: a count is stored when a second has passed since the
  last one, or at the end. Before each call of it the other coroutines may run.
\<close>

fun read_progress ::
  "env \<Rightarrow> int \<Rightarrow> (int \<Rightarrow> assign list) \<Rightarrow> rat \<Rightarrow> (rat \<times> int \<times> int) list \<Rightarrow> unit prog" where
  "read_progress E i asg last_at [] = returnP ()"
| "read_progress E i asg last_at ((now, received, sz) # xs) =
    thenP (yieldP E)
     (if now - last_at \<ge> 1 \<or> received \<ge> sz
      then thenP (updateP E i (asg received)) (read_progress E i asg now xs)
      else read_progress E i asg last_at xs)"

definition pourP :: "env \<Rightarrow> int \<Rightarrow> int prog" where
  "pourP E i w = (let (counts, r) = e_pour E (w_at w) in
     thenP (read_progress E i (\<lambda>n. [ADownloaded n, AUploaded n]) 0 counts)
       (await E (\<lambda>n. r) (\<lambda>_. Other)) w)"

section \<open>One attempt\<close>

definition stream_fields :: "int \<Rightarrow> assign list" where
  "stream_fields attempt = [AMode StreamMode, ALocal None, ADownloaded 0, AUploaded 0,
     ADownloadRetries attempt, AError None, AWait None]"

text \<open>Up to the open stream; \<open>None\<close> where an earlier attempt had already arrived.\<close>

definition stream_open ::
  "env \<Rightarrow> nat \<Rightarrow> int \<Rightarrow> task \<Rightarrow> ustr \<Rightarrow> ustr \<Rightarrow> int \<Rightarrow> ustr option prog" where
  "stream_open E fuel i t safe_name remote_temp attempt =
    bindP (resume_remote E fuel i t None safe_name) (\<lambda>resumed.
      if resumed then returnP None
      else thenP (messageP E t)
        (bindP (begin_remote_write E fuel i t safe_name Streaming remote_temp (stream_fields attempt))
          (\<lambda>remote_write. thenP (openP E remote_write (t_file_size t)) (returnP (Some remote_write)))))"

definition stream_body :: "env \<Rightarrow> nat \<Rightarrow> int \<Rightarrow> task \<Rightarrow> ustr \<Rightarrow> ustr \<Rightarrow> unit prog" where
  "stream_body E fuel i t safe_name remote_write =
    bindP (pourP E i) (\<lambda>streamed.
      if streamed \<noteq> t_file_size t
      then raiseP (RuntimeError (size_text msg_stream_read streamed (t_file_size t)))
      else thenP (await E (e_finish E) (\<lambda>_. Other))
        (thenP (transP E i Verifying [])
        (bindP (sizeP E remote_write) (\<lambda>n.
          if n \<noteq> t_file_size t
          then raiseP (RemoteReviewRequired (size_text msg_stream_remote n (t_file_size t)))
          else finalize_remote E fuel i t remote_write safe_name None))))"

definition stream_attempt ::
  "env \<Rightarrow> nat \<Rightarrow> int \<Rightarrow> task \<Rightarrow> ustr \<Rightarrow> ustr \<Rightarrow> int \<Rightarrow> (bool \<times> (exc + unit)) prog" where
  "stream_attempt E fuel i t safe_name remote_temp attempt =
    bindP (attemptP (stream_open E fuel i t safe_name remote_temp attempt)) (\<lambda>r. case r of
        Inl e \<Rightarrow> returnP (False, Inl e)
      | Inr opened \<Rightarrow> (case opened of
          None \<Rightarrow> returnP (False, Inr ())
        | Some q \<Rightarrow> bindP (attemptP (stream_body E fuel i t safe_name q)) (\<lambda>r. returnP (True, r))))"

section \<open>The except clauses of an attempt\<close>

definition listener_kind :: "exc \<Rightarrow> fkind" where
  "listener_kind e = (case e of ListenerRateLimited m n \<Rightarrow> RateLimited | _ \<Rightarrow> SourceAccess)"

text \<open>\<open>not current or cancel_requested or state not in {...}\<close>.\<close>

definition gone_from :: "task option \<Rightarrow> task_state set \<Rightarrow> bool" where
  "gone_from r S = (case r of None \<Rightarrow> True | Some c \<Rightarrow> t_cancel_requested c \<or> t_state c \<notin> S)"

definition stream_listener_failed :: "env \<Rightarrow> int \<Rightarrow> exc \<Rightarrow> unit prog" where
  "stream_listener_failed E i e =
    bindP (getP i) (\<lambda>current.
      if gone_from current {Reserved, Streaming} then returnP ()
      else thenP (transP E i DownloadFailed [ALocal None, AError (Some (exc_text e)),
                    AFailureKind (Some (listener_kind e))])
             (notifyP E))"

definition stream_move_failed :: "env \<Rightarrow> int \<Rightarrow> exc \<Rightarrow> unit prog" where
  "stream_move_failed E i e =
    thenP (transP E i DownloadFailed [AError (Some (safe_failure (e_P E) e)),
             AFailureKind (Some RemoteConflict), AVerification None, AVerifiedAt None,
             AWait (Some msg_stream_move_wait)])
      (notifyP E)"

text \<open>\<open>Inr f\<close>: go on with the next attempt, \<open>f\<close> being \<open>last_failure\<close>.\<close>

definition stream_retry :: "env \<Rightarrow> int \<Rightarrow> int \<Rightarrow> exc \<Rightarrow> (stream_end + ustr) prog" where
  "stream_retry E i attempt e =
    bindP (hold_transfer_failure E i e True) (\<lambda>held.
      if held then returnP (Inl Returned)
      else thenP (updateP E i [ADownloadRetries (attempt + 1), AError (Some (safe_failure (e_P E) e)),
              AFailureKind (Some (failure_kind (e_P E) e))])
        (thenP (whenP (attempt + 1 < e_max_retries E) (sleepP E)) (returnP (Inr (safe_failure (e_P E) e)))))"

definition escaping :: "bool \<Rightarrow> (stream_end + ustr) prog \<Rightarrow> (stream_end + ustr) prog" where
  "escaping is_open p = bindP (attemptP p) (\<lambda>r. case r of
     Inl e \<Rightarrow> returnP (Inl (Escaped is_open e)) | Inr a \<Rightarrow> returnP a)"

definition stream_failed :: "env \<Rightarrow> int \<Rightarrow> int \<Rightarrow> bool \<Rightarrow> exc \<Rightarrow> (stream_end + ustr) prog" where
  "stream_failed E i attempt is_open e =
    (if e = CancelledError then returnP (Inl (Escaped is_open e))
     else if is_listener_error e then
       escaping is_open (thenP (abortP E is_open)
         (thenP (stream_listener_failed E i e) (returnP (Inl Returned))))
     else if is_move_uncertain e then
       escaping is_open (thenP (abortP E is_open)
         (thenP (stream_move_failed E i e) (returnP (Inl Returned))))
     else escaping is_open (thenP (abortP E is_open) (escaping False (stream_retry E i attempt e))))"

fun stream_attempts ::
  "env \<Rightarrow> nat \<Rightarrow> int \<Rightarrow> task \<Rightarrow> ustr \<Rightarrow> ustr \<Rightarrow> int list \<Rightarrow> ustr option \<Rightarrow> stream_end prog" where
  "stream_attempts E fuel i t safe_name remote_temp [] last_failure = returnP (UsedUp last_failure)"
| "stream_attempts E fuel i t safe_name remote_temp (a # attempts) last_failure =
    bindP (stream_attempt E fuel i t safe_name remote_temp a) (\<lambda>(is_open, r). case r of
        Inr u \<Rightarrow> returnP Returned
      | Inl e \<Rightarrow> bindP (stream_failed E i a is_open e) (\<lambda>r. case r of
            Inl ending \<Rightarrow> returnP ending
          | Inr f \<Rightarrow> stream_attempts E fuel i t safe_name remote_temp attempts (Some f)))"

section \<open>The handler\<close>

definition opt_text :: "ustr \<Rightarrow> ustr option" where
  "opt_text s = (if s = [] then None else Some s)"

definition failure_suffix :: "ustr option \<Rightarrow> ustr" where
  "failure_suffix f = (if truthy f then msg_semicolon @ the f else [])"

definition stream_used_up :: "env \<Rightarrow> int \<Rightarrow> task \<Rightarrow> ustr option \<Rightarrow> unit prog" where
  "stream_used_up E i t last_failure =
    bindP (rowP i t) (\<lambda>current.
      thenP (transP E i DownloadFailed [ALocal None, ARemote (opt_text (path_text (t_remote_path current))),
          AError (Some (msg_stream_used_up @ failure_suffix last_failure @ msg_use_retry)), AWait None])
        (notifyP E))"

definition stream_run :: "env \<Rightarrow> nat \<Rightarrow> int \<Rightarrow> task \<Rightarrow> ustr \<Rightarrow> ustr \<Rightarrow> stream_end prog" where
  "stream_run E fuel i t safe_name remote_temp =
    bindP (attemptP (sourceP E t)) (\<lambda>r. case r of
        Inl e \<Rightarrow> returnP (Escaped False e)
      | Inr u \<Rightarrow> bindP (stream_attempts E fuel i t safe_name remote_temp
                     (py_range (t_download_retries t) (e_max_retries E)) None) (\<lambda>ending. case ending of
            UsedUp f \<Rightarrow> bindP (attemptP (stream_used_up E i t f)) (\<lambda>r. case r of
                Inl e \<Rightarrow> returnP (Escaped False e) | Inr u \<Rightarrow> returnP Returned)
          | Escaped is_open e \<Rightarrow> returnP ending | Returned \<Rightarrow> returnP ending))"

definition FINISHING :: "task_state set" where
  "FINISHING = {Cancelled, CleanupPending, Completed, Confirmed}"

definition stream_handlers :: "env \<Rightarrow> int \<Rightarrow> bool \<Rightarrow> exc \<Rightarrow> unit prog" where
  "stream_handlers E i is_open e =
    (if e = CancelledError then
       thenP (abortP E is_open)
       (bindP (getP i) (\<lambda>current.
         thenP (case current of None \<Rightarrow> returnP ()
                | Some c \<Rightarrow> whenP (t_state c \<notin> FINISHING)
                    (transP E i Queued [ALocal None, ARemote (opt_text (path_text (t_remote_path c))),
                       ADownloaded 0, AUploaded 0, AWait (Some msg_stream_paused)]))
           (raiseP CancelledError)))
     else transP E i DownloadFailed [ALocal None, AError (Some (safe_failure (e_P E) e))])"

definition stream_one :: "env \<Rightarrow> nat \<Rightarrow> int \<Rightarrow> unit prog" where
  "stream_one E fuel i = bindP (getP i) (\<lambda>row. case row of
     None \<Rightarrow> returnP ()
   | Some t \<Rightarrow>
      let safe_name = safe_file_name (e_P E) (t_file_name t) (task_file (asc ''.bin'') i) in
      bindP (dbP (\<lambda>d. staging_name d i safe_name)) (\<lambda>remote_temp.
      bindP (stream_run E fuel i t safe_name remote_temp) (\<lambda>ending. case ending of
          Escaped is_open e \<Rightarrow> stream_handlers E i is_open e
        | Returned \<Rightarrow> returnP () | UsedUp f \<Rightarrow> returnP ())))"

end
