(* ===== verification/Download.thy ===== *)
theory Download
  imports Streaming Recovery
begin

text \<open>
  \<open>_download_one\<close> of \<open>src/tg2cloud/transfer/download.py\<close>: Telegram to the local disk, first
  into \<open>N.part\<close>, then renamed to the final local name.
\<close>

section \<open>Calls\<close>

definition fetchP :: "env \<Rightarrow> int \<Rightarrow> ustr \<Rightarrow> bool prog" where
  "fetchP E i p w = (let (counts, r) = e_fetch E (w_at w) p in
     thenP (read_progress E i (\<lambda>n. [ADownloaded n]) 0 counts) (await E (\<lambda>n. r) (\<lambda>_. Other)) w)"

definition replaceP :: "env \<Rightarrow> ustr \<Rightarrow> ustr \<Rightarrow> unit prog" where
  "replaceP E a b = sync (\<lambda>n. e_replace E n a b) (Replace a b)"

definition deferP :: "env \<Rightarrow> int \<Rightarrow> int \<Rightarrow> rat \<Rightarrow> int \<Rightarrow> int \<Rightarrow> bool prog" where
  "deferP E i sender expected seconds maximum w =
    (let (deferred, d) = defer_listener_download i sender expected seconds maximum
                           (e_time E (w_at w)) (w_db w)
     in (Done deferred, w\<lparr>w_db := d, w_at := Suc (w_at w)\<rparr>))"

text \<open>\<open>if part_path.exists(): part_path.unlink()\<close>.\<close>

definition drop_part :: "env \<Rightarrow> ustr \<Rightarrow> unit prog" where
  "drop_part E p = bindP (fileP E p) (\<lambda>r. whenP (r \<noteq> None) (discardP E p))"

section \<open>One attempt\<close>

definition download_body :: "env \<Rightarrow> int \<Rightarrow> task \<Rightarrow> ustr \<Rightarrow> ustr \<Rightarrow> int \<Rightarrow> unit prog" where
  "download_body E i t part final attempt =
    thenP (messageP E t)
    (bindP (fetchP E i part) (\<lambda>result.
     bindP (fileP E part) (\<lambda>there.
      if \<not> result \<or> there = None then raiseP (RuntimeError msg_no_file)
      else bindP (statP E part) (\<lambda>n.
        if n \<noteq> t_file_size t then raiseP (RuntimeError (size_text msg_download_size n (t_file_size t)))
        else thenP (transP E i Downloaded [ALocal (Some final), ADownloaded n])
          (thenP (replaceP E part final)
          (thenP (transP E i WaitingUpload [ALocal (Some final), ADownloaded n,
                    ADownloadRetries attempt, AError None, AWait None, ANextRetry 0])
            (notifyP E)))))))"

section \<open>The except clauses of an attempt\<close>

definition rate_limit :: "exc \<Rightarrow> int option" where
  "rate_limit e = (case e of ListenerRateLimited m n \<Rightarrow> Some n | _ \<Rightarrow> None)"

definition tryDefer :: "env \<Rightarrow> int \<Rightarrow> task \<Rightarrow> task \<Rightarrow> exc \<Rightarrow> bool prog" where
  "tryDefer E i t current e = (case rate_limit e of
     None \<Rightarrow> returnP False
   | Some n \<Rightarrow> deferP E i (t_sender_id t) (t_updated_at current) n (min 3 (e_max_retries E)))"

definition download_listener_failed :: "env \<Rightarrow> int \<Rightarrow> task \<Rightarrow> ustr \<Rightarrow> exc \<Rightarrow> unit prog" where
  "download_listener_failed E i t part e =
    bindP (getP i) (\<lambda>current.
      if gone_from current {Reserved, Downloading} then returnP ()
      else bindP (tryDefer E i t (the current) e) (\<lambda>deferred.
        if deferred then
          thenP (tryP (discardP E part) (\<lambda>x. if is_os_error x then returnP () else raiseP x))
            (notifyP E)
        else bindP (getP i) (\<lambda>live.
          if gone_from live {Reserved, Downloading}
             \<or> t_updated_at (the live) \<noteq> t_updated_at (the current) then returnP ()
          else thenP (transP E i DownloadFailed [ALocal None, AError (Some (exc_text e)),
                        AFailureKind (Some (listener_kind e))])
                 (thenP (drop_part E part) (notifyP E)))))"

text \<open>\<open>None\<close>: the handler returns; \<open>Some f\<close>: the next attempt, \<open>f\<close> being \<open>last_failure\<close>.\<close>

definition download_failed :: "env \<Rightarrow> int \<Rightarrow> task \<Rightarrow> ustr \<Rightarrow> int \<Rightarrow> exc \<Rightarrow> ustr option prog" where
  "download_failed E i t part attempt e =
    (if e = CancelledError then raiseP e
     else if is_listener_error e
     then thenP (download_listener_failed E i t part e) (returnP None)
     else thenP (updateP E i [ADownloadRetries (attempt + 1), AError (Some (safe_failure (e_P E) e)),
              AFailureKind (Some (failure_kind (e_P E) e))])
        (thenP (whenP (attempt + 1 < e_max_retries E) (sleepP E))
          (returnP (Some (safe_failure (e_P E) e)))))"

definition download_used_up :: "env \<Rightarrow> int \<Rightarrow> ustr \<Rightarrow> ustr option \<Rightarrow> unit prog" where
  "download_used_up E i part last_failure =
    thenP (drop_part E part)
    (thenP (transP E i DownloadFailed [ALocal None,
        AError (Some (msg_download_used_up @ failure_suffix last_failure)), AWait None])
      (notifyP E))"

fun download_attempts ::
  "env \<Rightarrow> int \<Rightarrow> task \<Rightarrow> ustr \<Rightarrow> ustr \<Rightarrow> int list \<Rightarrow> ustr option \<Rightarrow> unit prog" where
  "download_attempts E i t part final [] last_failure = download_used_up E i part last_failure"
| "download_attempts E i t part final (a # attempts) last_failure =
    thenP (transP E i Downloading [ADownloaded 0, ADownloadRetries a, ALocal (Some part),
             AError None, AWait None])
    (thenP (drop_part E part)
    (bindP (tryP (thenP (download_body E i t part final a) (returnP None))
             (download_failed E i t part a)) (\<lambda>r. case r of
        None \<Rightarrow> returnP ()
      | Some f \<Rightarrow> download_attempts E i t part final attempts (Some f))))"

section \<open>The handler\<close>

definition download_cancelled :: "env \<Rightarrow> int \<Rightarrow> task \<Rightarrow> ustr \<Rightarrow> ustr \<Rightarrow> task \<Rightarrow> unit prog" where
  "download_cancelled E i t part final c =
    bindP (fileP E final) (\<lambda>r.
      if r = Some (t_file_size t) then transP E i WaitingUpload [ALocal (Some final)]
      else thenP (whenP (\<not> t_cancel_requested c) (drop_part E part))
             (transP E i Queued [ALocal None, ADownloaded 0]))"

definition download_handlers :: "env \<Rightarrow> int \<Rightarrow> task \<Rightarrow> ustr \<Rightarrow> ustr \<Rightarrow> exc \<Rightarrow> unit prog" where
  "download_handlers E i t part final e =
    (if e = CancelledError then
       bindP (getP i) (\<lambda>current.
         thenP (case current of None \<Rightarrow> returnP ()
                | Some c \<Rightarrow> whenP (t_state c \<notin> FINISHING) (download_cancelled E i t part final c))
           (raiseP CancelledError))
     else thenP (drop_part E part)
       (transP E i DownloadFailed [ALocal None, AError (Some (safe_failure (e_P E) e))]))"

definition download_one :: "env \<Rightarrow> nat \<Rightarrow> int \<Rightarrow> unit prog" where
  "download_one E fuel i = bindP (getP i) (\<lambda>row. case row of
     None \<Rightarrow> returnP ()
   | Some t \<Rightarrow>
      if t_transfer_mode t = StreamMode then stream_one E fuel i
      else let part = part_path (e_dir E) i; final = final_path (e_P E) (e_dir E) t in
        tryP (thenP (sourceP E t)
               (download_attempts E i t part final (py_range (t_download_retries t) (e_max_retries E)) None))
          (download_handlers E i t part final))"

end
