(* ===== verification/Engine.thy ===== *)
theory Engine
  imports Download
begin

text \<open>
  Reasoning about the handlers: triples over worlds, and the interface \<open>engine_invariant\<close>
  between a property of worlds and the calls of the engine.

  An invariant has to survive the harmless calls whenever they happen; for the calls that
  destroy or publish something (the removal of a local copy, of a staging object, the renames
  and the write of an object) it only has to survive them at a moment that the interface
  describes by the trace: a local copy goes right after cleanup_pending was stored for a file
  whose size was read on the remote, a rename follows the test that the target does not exist
  and the record of the target, and so on. The lemmas of the locale show that every handler
  makes these calls at such moments only, for every environment.
\<close>

section \<open>Triples\<close>

definition triple :: "(world \<Rightarrow> bool) \<Rightarrow> 'a prog \<Rightarrow> ('a \<Rightarrow> world \<Rightarrow> bool) \<Rightarrow> (world \<Rightarrow> bool) \<Rightarrow> bool" where
  "triple P p Q X \<longleftrightarrow> (\<forall>w. P w \<longrightarrow> (case p w of (Done a, w') \<Rightarrow> Q a w' | (Raised e, w') \<Rightarrow> X w'
     | (Stuck, w') \<Rightarrow> X w'))"

lemma triple_return: "(\<And>w. P w \<Longrightarrow> Q a w) \<Longrightarrow> triple P (returnP a) Q X"
  by (simp add: triple_def returnP_def)

lemma triple_raise: "(\<And>w. P w \<Longrightarrow> X w) \<Longrightarrow> triple P (raiseP e) Q X"
  by (simp add: triple_def raiseP_def)

lemma triple_bind:
  assumes "triple P p R X" "\<And>a. triple (R a) (f a) Q X"
  shows "triple P (bindP p f) Q X"
  using assms unfolding triple_def bindP_def by (fastforce split: outcome.splits prod.splits)

lemma triple_then: "triple P p R X \<Longrightarrow> triple (R ()) q Q X \<Longrightarrow> triple P (thenP p q) Q X" for p :: "unit prog"
  unfolding thenP_def by (rule triple_bind) auto

lemma triple_try:
  assumes "triple P p Q Y" "\<And>e. triple Y (h e) Q X" "\<And>w. Y w \<Longrightarrow> X w"
  shows "triple P (tryP p h) Q X"
  using assms unfolding triple_def tryP_def by (fastforce split: outcome.splits prod.splits)

lemma triple_conseq:
  assumes "triple P' p Q' X'" "\<And>w. P w \<Longrightarrow> P' w" "\<And>a w. Q' a w \<Longrightarrow> Q a w" "\<And>w. X' w \<Longrightarrow> X w"
  shows "triple P p Q X"
  using assms unfolding triple_def by (fastforce split: outcome.splits prod.splits)

lemma triple_if:
  "(b \<Longrightarrow> triple P p Q X) \<Longrightarrow> (\<not> b \<Longrightarrow> triple P q Q X) \<Longrightarrow> triple P (if b then p else q) Q X"
  by simp

section \<open>The interface\<close>

definition quiet :: "action \<Rightarrow> bool" where
  "quiet a = (case a of Remove p r \<Rightarrow> False | MoveTo p q r \<Rightarrow> False | UploadTo p q r \<Rightarrow> False
     | OpenTo p r \<Rightarrow> False | Unlink p r \<Rightarrow> False | Replace p q r \<Rightarrow> False | Persist i s asg \<Rightarrow> False | _ \<Rightarrow> True)"

text \<open>\<open>genuine\<close>: the recorded answer is the one the environment gave to event \<open>n\<close>.\<close>

definition genuine :: "env \<Rightarrow> nat \<Rightarrow> action \<Rightarrow> bool" where
  "genuine E n a = (case a of Exists p r \<Rightarrow> r = e_exists E n p | SizeOf p r \<Rightarrow> r = e_size E n p
     | MoveTo p q r \<Rightarrow> r = e_move E n p q | Remove p r \<Rightarrow> r = e_remove E n p | _ \<Rightarrow> True)"

text \<open>The world after an awaited and after a synchronous call.\<close>

definition awaited :: "env \<Rightarrow> action \<Rightarrow> world \<Rightarrow> world" where
  "awaited E a w = w\<lparr>w_db := e_others E (w_at w) (w_db w), w_at := Suc (w_at w),
     w_trace := w_trace w @ [a]\<rparr>"

definition synced :: "action \<Rightarrow> world \<Rightarrow> world" where
  "synced a w = w\<lparr>w_at := Suc (w_at w), w_trace := w_trace w @ [a]\<rparr>"

definition ends_in :: "action list \<Rightarrow> action list \<Rightarrow> bool" where
  "ends_in tr xs \<longleftrightarrow> (\<exists>pre. tr = pre @ xs)"

text \<open>What the trace shows since the last rename or write of an object.\<close>

definition writes :: "action \<Rightarrow> bool" where
  "writes a = (case a of MoveTo p q r \<Rightarrow> True | UploadTo p q r \<Rightarrow> True | OpenTo p r \<Rightarrow> True | _ \<Rightarrow> False)"

definition known :: "action list \<Rightarrow> action set" where
  "known tr = foldl (\<lambda>K a. if writes a then {} else insert a K) {} tr"

lemma known_snoc [simp]: "known (tr @ [a]) = (if writes a then {} else insert a (known tr))"
  by (simp add: known_def)

lemma quiet_writes: "quiet a \<Longrightarrow> \<not> writes a"
  by (cases a) (simp_all add: quiet_def writes_def)

lemma writes_simps [simp]:
  "writes (MoveTo p q r)" "writes (UploadTo p q r)" "writes (OpenTo p r)" "\<not> writes (Persist i s asg)"
  "\<not> writes (Unlink p r)" "\<not> writes (Remove p r)" "\<not> writes (Replace p q r)"
  "\<not> writes (SizeOf p n)" "\<not> writes (Exists p b)"
  by (simp_all add: writes_def)

text \<open>The moments: what the trace must show right before each of these calls.\<close>

definition unlink_moment :: "int \<Rightarrow> int \<Rightarrow> action list \<Rightarrow> bool" where
  "unlink_moment i sz tr \<longleftrightarrow> (\<exists>final now. ends_in tr [Persist i CleanupPending (cleanup_fields final sz now)]
     \<and> SizeOf final (Inr sz) \<in> known tr)"

definition remove_moment :: "int \<Rightarrow> ustr \<Rightarrow> action list \<Rightarrow> bool" where
  "remove_moment sz p tr \<longleftrightarrow> ends_in tr [Exists p (Inr True)]
     \<and> (\<exists>final. SizeOf final (Inr sz) \<in> known tr \<and> p \<noteq> final)"

definition move_moment :: "int \<Rightarrow> ustr \<Rightarrow> ustr \<Rightarrow> action list \<Rightarrow> bool" where
  "move_moment i src dst tr \<longleftrightarrow> starts_with src STAGED \<and> ends_in tr [Exists dst (Inr False),
     Persist i Finalizing [ARemote (Some dst), ATemp (Some src), AFinal (Some dst)]]"

definition write_moment :: "int \<Rightarrow> bool \<Rightarrow> ustr \<Rightarrow> action list \<Rightarrow> bool" where
  "write_moment i openlist dst tr \<longleftrightarrow>
     (\<exists>s asg. if openlist
       then ends_in tr [Exists dst (Inr False), Persist i s ([ARemote (Some dst), ATemp None, AFinal (Some dst)] @ asg)]
       else ends_in tr [Persist i s ([ARemote (Some dst), ATemp (Some dst)] @ asg)])"

definition replace_moment :: "int \<Rightarrow> ustr \<Rightarrow> action list \<Rightarrow> bool" where
  "replace_moment i dst tr \<longleftrightarrow> (\<exists>n. ends_in tr [Persist i Downloaded [ALocal (Some dst), ADownloaded n]])"

locale engine_invariant =
  fixes E :: env and i :: int and row_ok :: "task \<Rightarrow> bool" and I :: "world \<Rightarrow> bool"
  assumes i_await: "I w \<Longrightarrow> quiet a \<Longrightarrow> genuine E (w_at w) a \<Longrightarrow> I (awaited E a w)"
    and i_sync: "I w \<Longrightarrow> quiet a \<Longrightarrow> genuine E (w_at w) a \<Longrightarrow> I (synced a w)"
    and i_row: "I w \<Longrightarrow> get_task (w_db w) i = Some t \<Longrightarrow> row_ok t"
    and i_yield: "I w \<Longrightarrow> I (w\<lparr>w_db := e_others E n (w_db w), w_at := m\<rparr>)"
    and i_tick: "I w \<Longrightarrow> I (w\<lparr>w_at := n\<rparr>)"
    and i_update: "I w \<Longrightarrow> I (w\<lparr>w_db := update i asg now (w_db w)\<rparr>)"
    and i_defer: "I w \<Longrightarrow> I (w\<lparr>w_db := snd (defer_listener_download i sender expected seconds maximum now (w_db w))\<rparr>)"
    and i_trans: "I w \<Longrightarrow> transition i s asg now (w_db w) = Inr d \<Longrightarrow>
      I ((synced (Persist i s asg) w)\<lparr>w_db := d\<rparr>)"
    and i_unlink: "I w \<Longrightarrow> row_ok t \<Longrightarrow> unlink_moment i (t_file_size t) (w_trace w) \<Longrightarrow> I (synced (Unlink p r) w)"
    and i_replace: "I w \<Longrightarrow> replace_moment i q (w_trace w) \<Longrightarrow> I (synced (Replace p q r) w)"
    and i_remove: "I w \<Longrightarrow> row_ok t \<Longrightarrow> remove_moment (t_file_size t) p (w_trace w) \<Longrightarrow>
      genuine E (w_at w) (Remove p r) \<Longrightarrow> I (awaited E (Remove p r) w)"
    and i_move: "I w \<Longrightarrow> move_moment i p q (w_trace w) \<Longrightarrow>
      genuine E (w_at w) (MoveTo p q r) \<Longrightarrow> I (awaited E (MoveTo p q r) w)"
    and i_write: "I w \<Longrightarrow> write_moment i (e_openlist E) q (w_trace w) \<Longrightarrow>
      I (awaited E (UploadTo p q r) w)"
    and i_open: "I w \<Longrightarrow> write_moment i (e_openlist E) q (w_trace w) \<Longrightarrow>
      I (awaited E (OpenTo q r) w)"
begin

text \<open>The invariant together with facts that the trace already shows.\<close>

definition inv :: "action set \<Rightarrow> world \<Rightarrow> bool" where
  "inv S w \<longleftrightarrow> I w \<and> S \<subseteq> known (w_trace w)"

definition keeps :: "action set \<Rightarrow> 'a prog \<Rightarrow> bool" where
  "keeps S p \<longleftrightarrow> triple (inv S) p (\<lambda>_. inv S) (inv S)"

lemma inv_mono: "inv T w \<Longrightarrow> S \<subseteq> T \<Longrightarrow> inv S w"
  by (auto simp: inv_def)

lemma keeps_return: "keeps S (returnP a)"
  by (simp add: keeps_def triple_return)

lemma keeps_raise: "keeps S (raiseP e)"
  by (simp add: keeps_def triple_raise)

lemma keeps_stuck: "keeps S stuckP"
  by (simp add: keeps_def triple_def stuckP_def)

lemma keeps_bind: "keeps S p \<Longrightarrow> (\<And>a. keeps S (f a)) \<Longrightarrow> keeps S (bindP p f)"
  unfolding keeps_def by (rule triple_bind)

lemma keeps_then: "keeps S p \<Longrightarrow> keeps S q \<Longrightarrow> keeps S (thenP p q)"
  unfolding thenP_def by (rule keeps_bind)

lemma keeps_try: "keeps S p \<Longrightarrow> (\<And>e. keeps S (h e)) \<Longrightarrow> keeps S (tryP p h)"
  unfolding keeps_def by (rule triple_try) auto

lemma keeps_when: "keeps S p \<Longrightarrow> keeps S (whenP b p)"
  by (simp add: whenP_def keeps_return)

lemma keeps_if: "(b \<Longrightarrow> keeps S p) \<Longrightarrow> (\<not> b \<Longrightarrow> keeps S q) \<Longrightarrow> keeps S (if b then p else q)"
  by simp

lemma keeps_option:
  "(r = None \<Longrightarrow> keeps S p) \<Longrightarrow> (\<And>a. r = Some a \<Longrightarrow> keeps S (q a)) \<Longrightarrow>
    keeps S (case r of None \<Rightarrow> p | Some a \<Rightarrow> q a)"
  by (cases r) auto

lemma keeps_sum:
  "(\<And>a. r = Inl a \<Longrightarrow> keeps S (p a)) \<Longrightarrow> (\<And>a. r = Inr a \<Longrightarrow> keeps S (q a)) \<Longrightarrow>
    keeps S (case r of Inl a \<Rightarrow> p a | Inr a \<Rightarrow> q a)"
  by (cases r) auto

lemma keeps_weaken:
  "keeps (insert a S) p \<Longrightarrow> triple (inv (insert a S)) p (\<lambda>_. inv S) (inv S)"
  unfolding keeps_def by (erule triple_conseq) (auto simp: inv_def)

lemma inv_awaited: "inv S w \<Longrightarrow> quiet a \<Longrightarrow> genuine E (w_at w) a \<Longrightarrow> inv (insert a S) (awaited E a w)"
  using i_await quiet_writes by (auto simp: inv_def awaited_def)

lemma await_eq: "await E f act w = (liftE (f (w_at w)), awaited E (act (f (w_at w))) w)"
  by (simp add: await_def awaited_def)

lemma inv_awaited': "inv S w \<Longrightarrow> quiet a \<Longrightarrow> genuine E (w_at w) a \<Longrightarrow> inv S (awaited E a w)"
  using inv_awaited inv_mono by blast

lemma inv_synced: "inv S w \<Longrightarrow> quiet a \<Longrightarrow> genuine E (w_at w) a \<Longrightarrow> inv S (synced a w)"
  using i_sync quiet_writes by (auto simp: inv_def synced_def)

lemma triple_await:
  assumes "\<And>w. P w \<Longrightarrow> R (awaited E (act (f (w_at w))) w)"
  shows "triple P (await E f act) (\<lambda>_. R) R"
  unfolding triple_def await_eq
proof (intro allI impI)
  fix w assume "P w"
  from assms[OF this] show "case (liftE (f (w_at w)), awaited E (act (f (w_at w))) w) of (Done a, w') \<Rightarrow> R w'
      | (Raised e, w') \<Rightarrow> R w' | (Stuck, w') \<Rightarrow> R w'"
    by (cases "f (w_at w)") (simp_all add: liftE_def)
qed

lemma sync_eq: "sync f act w = (liftE (f (w_at w)), synced (act (f (w_at w))) w)"
  by (simp add: sync_def synced_def)

lemma triple_sync:
  assumes "\<And>w. P w \<Longrightarrow> R (synced (act (f (w_at w))) w)"
  shows "triple P (sync f act) (\<lambda>_. R) R"
  unfolding triple_def sync_eq
proof (intro allI impI)
  fix w assume "P w"
  from assms[OF this] show "case (liftE (f (w_at w)), synced (act (f (w_at w))) w) of (Done a, w') \<Rightarrow> R w'
      | (Raised e, w') \<Rightarrow> R w' | (Stuck, w') \<Rightarrow> R w'"
    by (cases "f (w_at w)") (simp_all add: liftE_def)
qed

lemma keeps_await: "(\<And>n. quiet (act (f n)) \<and> genuine E n (act (f n))) \<Longrightarrow> keeps S (await E f act)"
  unfolding keeps_def by (rule triple_await) (simp add: inv_awaited')

lemma keeps_sync: "(\<And>n. quiet (act (f n)) \<and> genuine E n (act (f n))) \<Longrightarrow> keeps S (sync f act)"
  unfolding keeps_def by (rule triple_sync) (simp add: inv_synced)

lemma awaited_trace [simp]: "w_trace (awaited E a w) = w_trace w @ [a]"
  by (simp add: awaited_def)

lemma triple_exists:
  "triple (inv S) (existsP E p) (\<lambda>b w. inv S w \<and> ends_in (w_trace w) [Exists p (Inr b)]) (inv S)"
  by (simp add: triple_def existsP_def await_eq liftE_def inv_awaited' quiet_def genuine_def ends_in_def split: sum.split)

lemma triple_size:
  "triple (inv S) (sizeP E p) (\<lambda>n. inv (insert (SizeOf p (Inr n)) S)) (inv S)"
  unfolding triple_def sizeP_def await_eq liftE_def
  by (auto simp: quiet_def genuine_def inv_awaited' split: sum.split dest: inv_awaited[where a = "SizeOf p _"])

subsection \<open>Calls\<close>

lemma keeps_reads: "keeps S (getP i)" "keeps S (dbP f)" "keeps S (nowP E)" "keeps S (exprP r)"
  by (simp_all add: keeps_def triple_def getP_def dbP_def nowP_def exprP_def liftE_def split: sum.split)

lemma triple_get: "triple (inv S) (getP i) (\<lambda>r w. inv S w \<and> (\<forall>t. r = Some t \<longrightarrow> row_ok t)) (inv S)"
  using i_row by (auto simp: triple_def getP_def inv_def)

text \<open>A handler starts by reading its row.\<close>

lemma keeps_get:
  assumes "keeps S (f None)" "\<And>t. row_ok t \<Longrightarrow> keeps S (f (Some t))"
  shows "keeps S (bindP (getP i) f)"
  unfolding keeps_def
proof (rule triple_bind[OF triple_get])
  fix r
  show "triple (\<lambda>w. inv S w \<and> (\<forall>t. r = Some t \<longrightarrow> row_ok t)) (f r) (\<lambda>_. inv S) (inv S)"
    using assms by (cases r) (auto simp: keeps_def triple_def)
qed

lemma keeps_row: "keeps S (rowP i t)"
  unfolding rowP_def by (intro keeps_bind keeps_reads keeps_return)

lemma keeps_file: "keeps S (fileP E p)"
  by (simp add: keeps_def triple_def fileP_def inv_def i_tick)

lemma keeps_stat: "keeps S (statP E p)"
  unfolding statP_def by (intro keeps_bind keeps_file keeps_option keeps_raise keeps_return)

lemma keeps_calls:
  "keeps S (existsP E p)" "keeps S (sizeP E p)" "keeps S (ensureP E p)" "keeps S (sleepP E)"
  "keeps S (notifyP E)" "keeps S (discardP E p)"
  unfolding existsP_def sizeP_def ensureP_def sleepP_def notifyP_def discardP_def
  by (intro keeps_await keeps_sync; simp add: quiet_def genuine_def)+

lemma keeps_update: "keeps S (updateP E i asg)"
  using i_tick[OF i_update] by (simp add: keeps_def triple_def updateP_def inv_def)

lemma triple_trans:
  "triple (\<lambda>w. inv S w \<and> ends_in (w_trace w) xs) (transP E i s asg)
     (\<lambda>_ w. inv S w \<and> ends_in (w_trace w) (xs @ [Persist i s asg])) (inv S)"
  unfolding triple_def
proof (intro allI impI)
  fix w assume w: "inv S w \<and> ends_in (w_trace w) xs"
  let ?tr = "transition i s asg (e_time E (w_at w)) (w_db w)"
  show "case transP E i s asg w of (Done a, w') \<Rightarrow> inv S w' \<and> ends_in (w_trace w') (xs @ [Persist i s asg])
      | (Raised e, w') \<Rightarrow> inv S w' | (Stuck, w') \<Rightarrow> inv S w'"
  proof (cases ?tr)
    case (Inl e)
    with w show ?thesis by (simp add: transP_def)
  next
    case (Inr d)
    let ?w = "w\<lparr>w_db := d, w_at := Suc (w_at w), w_trace := w_trace w @ [Persist i s asg]\<rparr>"
    have "?w = (synced (Persist i s asg) w)\<lparr>w_db := d\<rparr>" by (simp add: synced_def)
    then have "I ?w" using i_trans[OF _ Inr] w by (simp add: inv_def)
    with Inr w show ?thesis by (auto simp: transP_def inv_def ends_in_def)
  qed
qed

lemma ends_in_Nil [simp]: "ends_in tr []"
  by (simp add: ends_in_def)

lemma triple_persist:
  "triple (inv S) (transP E i s asg) (\<lambda>_ w. inv S w \<and> ends_in (w_trace w) [Persist i s asg]) (inv S)"
  using triple_trans[of S "[]" s asg] by simp

lemma keeps_trans: "keeps S (transP E i s asg)"
  unfolding keeps_def by (rule triple_conseq[OF triple_persist]) auto

lemma triple_unlink:
  assumes ok: "row_ok t"
  shows "triple (\<lambda>w. inv S w \<and> unlink_moment i (t_file_size t) (w_trace w)) (unlinkP E p) (\<lambda>_. inv S) (inv S)"
  using i_unlink[OF _ ok] by (auto simp: triple_def unlinkP_def sync_eq liftE_def inv_def synced_def split: sum.split)

lemma triple_remove:
  assumes ok: "row_ok t"
  shows "triple (\<lambda>w. inv S w \<and> remove_moment (t_file_size t) p (w_trace w)) (removeP E p) (\<lambda>_. inv S) (inv S)"
  unfolding removeP_def by (rule triple_await) (use i_remove[OF _ ok] in \<open>auto simp: inv_def genuine_def\<close>)

lemma triple_move:
  "triple (\<lambda>w. inv S w \<and> move_moment i a b (w_trace w)) (moveP E a b) (\<lambda>_. inv {}) (inv {})"
  unfolding moveP_def by (rule triple_await) (use i_move in \<open>auto simp: inv_def genuine_def\<close>)

lemmas keeps_rules = keeps_bind keeps_then keeps_try keeps_when keeps_return keeps_raise keeps_stuck
  keeps_reads keeps_row keeps_file keeps_stat keeps_calls keeps_update keeps_trans

subsection \<open>Committing\<close>

lemma keeps_drop_local:
  assumes ok: "row_ok t"
  shows "triple (\<lambda>w. inv S w \<and> unlink_moment i (t_file_size t) (w_trace w)) (drop_local E i local_path) (\<lambda>_. inv S) (inv S)"
proof (cases local_path)
  case None
  then show ?thesis by (auto simp: drop_local_def intro: triple_return)
next
  case (Some p)
  have "keeps S (if is_os_error e then bindP (nowP E) (\<lambda>now. thenP (updateP E i
             [AError (Some (take 1000 (msg_unlink_failed @ exc_text e))),
              AWait (Some msg_unlink_wait), ANextRetry (now + 60)]) (returnP False)) else raiseP e)" for e
    by (intro keeps_if keeps_rules)
  moreover have "triple (\<lambda>w. inv S w \<and> unlink_moment i (t_file_size t) (w_trace w))
      (thenP (unlinkP E p) (returnP True)) (\<lambda>_. inv S) (inv S)"
    by (rule triple_then[OF triple_unlink[OF ok]]) (auto intro: triple_return)
  ultimately show ?thesis unfolding drop_local_def Some option.case
    by (intro triple_try[where Y = "inv S"]) (auto simp: keeps_def)
qed

lemma keeps_drop_temp:
  assumes ok: "row_ok t"
  shows "keeps (insert (SizeOf final (Inr (t_file_size t))) S) (drop_temp E temp final)"
proof (cases "temp = [] \<or> temp = final")
  case True
  then show ?thesis by (simp add: drop_temp_def keeps_return)
next
  case False
  let ?S = "insert (SizeOf final (Inr (t_file_size t))) S"
  have "triple (\<lambda>w. inv ?S w \<and> ends_in (w_trace w) [Exists temp (Inr there)])
    (if \<not> there then returnP () else thenP (removeP E temp) (bindP (existsP E temp) (\<lambda>still.
         if still then raiseP (RuntimeError msg_temp_left) else returnP ())))
    (\<lambda>_. inv ?S) (inv ?S)" for there
  proof (cases there)
    case True
    have "keeps ?S (bindP (existsP E temp) (\<lambda>still.
         if still then raiseP (RuntimeError msg_temp_left) else returnP ()))"
      by (intro keeps_if keeps_rules)
    moreover have "triple (\<lambda>w. inv ?S w \<and> ends_in (w_trace w) [Exists temp (Inr True)]) (removeP E temp)
        (\<lambda>_. inv ?S) (inv ?S)"
      by (rule triple_conseq[OF triple_remove[OF ok, of ?S]]) (use False in \<open>auto simp: remove_moment_def inv_def\<close>)
    ultimately show ?thesis using True by (simp add: keeps_def triple_then)
  qed (auto intro: triple_return)
  then show ?thesis unfolding drop_temp_def keeps_def using False
    by (simp add: triple_bind[OF triple_exists])
qed

lemma keeps_complete:
  assumes ok: "row_ok t"
  shows "keeps (insert (SizeOf final (Inr (t_file_size t))) S) (complete_cloud_receive E i t local_path final)"
proof -
  let ?S = "insert (SizeOf final (Inr (t_file_size t))) S"
  have drop: "triple (\<lambda>w. inv ?S w \<and> ends_in (w_trace w)
      [Persist i CleanupPending (cleanup_fields final (t_file_size t) now)])
    (drop_local E i local_path) (\<lambda>_. inv ?S) (inv ?S)" for now
    by (rule triple_conseq[OF keeps_drop_local[OF ok, of ?S]]) (auto simp: unlink_moment_def inv_def)
  have rest: "keeps ?S (if go then thenP (transP E i Completed completed_fields) (notifyP E) else returnP ())"
    for go by (intro keeps_if keeps_rules)
  have "keeps ?S (thenP (transP E i CleanupPending (cleanup_fields final (t_file_size t) now))
         (bindP (drop_local E i local_path) (\<lambda>go.
           if go then thenP (transP E i Completed completed_fields) (notifyP E) else returnP ())))" for now
    unfolding keeps_def
    by (rule triple_then[OF triple_persist triple_bind[OF drop rest[unfolded keeps_def]]])
  then show ?thesis
    unfolding complete_cloud_receive_def
    by (intro keeps_bind[OF keeps_row keeps_then[OF keeps_drop_temp[OF ok] keeps_bind[OF keeps_reads(3)]]])
qed

lemma keeps_taken: "keeps S (takenP E i path)"
  unfolding takenP_def by (intro keeps_if keeps_rules)

lemma triple_taken:
  "triple (inv S) (takenP E i path) (\<lambda>b w. inv S w \<and> (\<not> b \<longrightarrow> ends_in (w_trace w) [Exists path (Inr False)])) (inv S)"
proof -
  have "triple (inv S) (if claimed then returnP True else existsP E path)
      (\<lambda>b w. inv S w \<and> (\<not> b \<longrightarrow> ends_in (w_trace w) [Exists path (Inr False)])) (inv S)" for claimed
    by (cases claimed) (auto intro: triple_return triple_conseq[OF triple_exists])
  moreover have "triple (inv S) (dbP f) (\<lambda>_. inv S) (inv S)" for f :: "taskdb \<Rightarrow> bool"
    using keeps_reads(2)[of S f] by (simp add: keeps_def)
  ultimately show ?thesis unfolding takenP_def by (intro triple_bind)
qed

definition fresh :: "action set \<Rightarrow> ustr \<Rightarrow> world \<Rightarrow> bool" where
  "fresh S path w \<longleftrightarrow> inv S w \<and> ends_in (w_trace w) [Exists path (Inr False)]"

lemma triple_choose_loop: "triple (inv S) (choose_loop fuel E i dir name k) (fresh S) (inv S)"
proof (induction fuel arbitrary: k)
  case 0
  show ?case by (simp add: triple_def stuckP_def)
next
  case (Suc fuel)
  let ?c = "joined dir (numbered name i k)"
  have "triple (\<lambda>w. inv S w \<and> (\<not> b \<longrightarrow> ends_in (w_trace w) [Exists ?c (Inr False)]))
      (if b then choose_loop fuel E i dir name (k + 1) else returnP ?c) (fresh S) (inv S)" for b
    using Suc[of "k + 1"] by (cases b) (auto simp: fresh_def[abs_def] intro: triple_return)
  then show ?case by (simp add: Let_def triple_bind[OF triple_taken])
qed

lemma triple_choose: "triple (inv S) (choose_remote_final E fuel name i) (fresh S) (inv S)"
proof -
  have body: "triple (inv S) (bindP (takenP E i (joined dir name)) (\<lambda>taken.
      if \<not> taken then returnP (joined dir name) else choose_loop fuel E i dir name 1)) (fresh S) (inv S)" for dir
  proof (rule triple_bind[OF triple_taken])
    fix b
    show "triple (\<lambda>w. inv S w \<and> (\<not> b \<longrightarrow> ends_in (w_trace w) [Exists (joined dir name) (Inr False)]))
      (if \<not> b then returnP (joined dir name) else choose_loop fuel E i dir name 1) (fresh S) (inv S)"
      using triple_choose_loop by (cases b) (auto simp: fresh_def[abs_def] intro: triple_return)
  qed
  have k: "triple (inv S) p (\<lambda>_. inv S) (inv S)" if "keeps S p" for p :: "'c prog"
    using that by (simp add: keeps_def)
  show ?thesis unfolding choose_remote_final_def
    by (intro triple_bind[where R = "\<lambda>_. inv S"] triple_then[where R = "\<lambda>_. inv S"] body)
      (auto intro!: keeps_rules simp flip: keeps_def)
qed

lemma keeps_triple: "keeps S p \<Longrightarrow> triple (inv S) p (\<lambda>_. inv S) (inv S)"
  by (simp add: keeps_def)

lemma triple_reserve_final:
  "triple (inv S) (reserve_final E fuel i t name why) (fresh S) (inv S)"
proof -
  have ex: "triple (inv S) (bindP (existsP E p) (\<lambda>there.
      if there then raiseP (RemoteReviewRequired why) else returnP p)) (fresh S) (inv S)" for p
    by (rule triple_bind[OF triple_exists])
      (auto simp: fresh_def intro!: triple_if triple_raise triple_return)
  show ?thesis unfolding reserve_final_def Let_def
    by (intro triple_bind[OF keeps_triple[OF keeps_row]] triple_if triple_choose ex)
qed

lemma keeps_rename:
  assumes "starts_with src STAGED"
  shows "keeps {} (rename_staged E fuel i t src name)"
  unfolding keeps_def rename_staged_def
proof (rule triple_bind[OF triple_reserve_final])
  fix final
  have "triple (fresh {} final) (transP E i Finalizing [ARemote (Some final), ATemp (Some src), AFinal (Some final)])
      (\<lambda>_ w. inv {} w \<and> move_moment i src final (w_trace w)) (inv {})"
    by (rule triple_conseq[OF triple_trans[of "{}" "[Exists final (Inr False)]"]])
      (use assms in \<open>auto simp: fresh_def move_moment_def\<close>)
  then show "triple (fresh {} final)
      (thenP (transP E i Finalizing [ARemote (Some final), ATemp (Some src), AFinal (Some final)])
        (thenP (moveP E src final) (returnP final))) (\<lambda>_. inv {}) (inv {})"
    by (rule triple_then) (rule triple_then[OF triple_move], auto intro: triple_return)
qed

lemma triple_begin:
  "triple (inv {}) (begin_remote_write E fuel i t name st temp asg)
     (\<lambda>p w. inv {} w \<and> write_moment i (e_openlist E) p (w_trace w)) (inv {})"
proof (cases "e_openlist E")
  case True
  have "triple (fresh {} final) (thenP (transP E i st ([ARemote (Some final), ATemp None, AFinal (Some final)] @ asg))
      (returnP final)) (\<lambda>p w. inv {} w \<and> write_moment i (e_openlist E) p (w_trace w)) (inv {})" for final
  proof (rule triple_then)
    show "triple (fresh {} final) (transP E i st ([ARemote (Some final), ATemp None, AFinal (Some final)] @ asg))
      (\<lambda>_ w. inv {} w \<and> write_moment i (e_openlist E) final (w_trace w)) (inv {})"
      by (rule triple_conseq[OF triple_trans[of "{}" "[Exists final (Inr False)]"]])
        (auto simp: fresh_def write_moment_def True)
  qed (auto intro: triple_return)
  then show ?thesis unfolding begin_remote_write_def openlist_begin_def using True
    by (simp add: triple_bind[OF triple_reserve_final])
next
  case False
  have "triple (inv {}) (transP E i st ([ARemote (Some temp), ATemp (Some temp)] @ asg))
      (\<lambda>_ w. inv {} w \<and> write_moment i (e_openlist E) temp (w_trace w)) (inv {})"
    by (rule triple_conseq[OF triple_persist[of "{}"]]) (auto simp: write_moment_def False)
  then have "triple (inv {}) (clouddrive_begin E i st temp asg)
      (\<lambda>p w. inv {} w \<and> write_moment i (e_openlist E) p (w_trace w)) (inv {})"
    unfolding clouddrive_begin_def by (rule triple_then) (auto intro: triple_return)
  with False show ?thesis by (simp add: begin_remote_write_def)
qed

lemma triple_checked_size:
  "triple (inv {}) (checked_size E moved p) (\<lambda>n. inv (insert (SizeOf p (Inr n)) {})) (inv {})"
  unfolding checked_size_def
  by (rule triple_try[OF triple_size]) (auto intro!: triple_if triple_raise)

lemma keeps_finalize:
  assumes ok: "row_ok t"
  shows "keeps {} (finalize_remote E fuel i t path name local_path)"
proof -
  have "triple (inv (insert (SizeOf final (Inr n)) {})) (if n \<noteq> t_file_size t then
         (if moved \<and> e_openlist E then raiseP e1 else raiseP e2)
       else complete_cloud_receive E i t local_path final) (\<lambda>_. inv {}) (inv {})" for final n moved e1 e2
    using keeps_weaken[OF keeps_complete[OF ok]]
    by (cases "n = t_file_size t") (auto intro!: triple_raise simp: inv_def)
  then have "keeps {} (bindP (checked_size E moved final) (\<lambda>n. if n \<noteq> t_file_size t then
         (if moved \<and> e_openlist E then raiseP e1
          else raiseP (RemoteReviewRequired (size_text msg_stream_move_size n (t_file_size t))))
       else complete_cloud_receive E i t local_path final))" for moved final e1
    unfolding keeps_def by (rule triple_bind[OF triple_checked_size])
  moreover have "keeps {} (if starts_with path STAGED then rename_staged E fuel i t path name else returnP path)"
    by (intro keeps_if keeps_rename keeps_return)
  ultimately show ?thesis unfolding finalize_remote_def Let_def by (rule keeps_bind[rotated])
qed

lemma keeps_present: "keeps {} (presentP E p)"
  unfolding presentP_def by (intro keeps_if keeps_rules)

lemma keeps_resume:
  assumes ok: "row_ok t"
  shows "keeps {} (resume_remote E fuel i t local_path name)"
proof -
  have fin: "keeps {} (bindP (sizeP E p) (\<lambda>n.
             if n \<noteq> t_file_size t then raiseP e
             else thenP (complete_cloud_receive E i t local_path p) (returnP True)))" for p e
    unfolding keeps_def
  proof (rule triple_bind[OF triple_size])
    fix n
    have "triple (inv (insert (SizeOf p (Inr (t_file_size t))) {}))
        (thenP (complete_cloud_receive E i t local_path p) (returnP True)) (\<lambda>_. inv {}) (inv {})"
      by (rule triple_then[OF keeps_weaken[OF keeps_complete[OF ok]]]) (auto intro: triple_return)
    then show "triple (inv (insert (SizeOf p (Inr n)) {})) (if n \<noteq> t_file_size t then raiseP e
        else thenP (complete_cloud_receive E i t local_path p) (returnP True)) (\<lambda>_. inv {}) (inv {})"
      by (auto intro!: triple_raise simp: inv_def)
  qed
  show ?thesis unfolding resume_remote_def Let_def
    by (intro keeps_bind[OF keeps_row] keeps_sum keeps_raise keeps_bind[OF keeps_present] keeps_if fin
        keeps_return keeps_bind[OF keeps_calls(2)] keeps_then keeps_finalize[OF ok])
qed

lemma keeps_hold: "keeps {} (hold_transfer_failure E i e stream)"
  unfolding hold_transfer_failure_def Let_def by (intro keeps_if keeps_rules)

subsection \<open>Uploading\<close>

lemma triple_update:
  "triple (\<lambda>w. inv {} w \<and> R (w_trace w)) (updateP E i asg) (\<lambda>_ w. inv {} w \<and> R (w_trace w)) (inv {})"
  using i_tick[OF i_update] by (simp add: triple_def updateP_def inv_def)

lemma triple_yield:
  "triple (\<lambda>w. inv {} w \<and> R (w_trace w)) (yieldP E) (\<lambda>_ w. inv {} w \<and> R (w_trace w)) (inv {})"
  using i_yield by (simp add: triple_def yieldP_def inv_def)

lemma triple_upload_progress:
  "triple (\<lambda>w. inv {} w \<and> R (w_trace w)) (upload_progress E i sz prev ns)
     (\<lambda>_ w. inv {} w \<and> R (w_trace w)) (inv {})"
proof (induction ns arbitrary: prev)
  case (Cons n ns)
  have "triple (\<lambda>w. inv {} w \<and> R (w_trace w)) (if Some m = prev then upload_progress E i sz prev ns
      else thenP (updateP E i [AUploaded m]) (upload_progress E i sz (Some m) ns))
      (\<lambda>_ w. inv {} w \<and> R (w_trace w)) (inv {})" for m
    by (intro triple_if triple_then[OF triple_update] Cons)
  then show ?case unfolding upload_progress.simps Let_def by (rule triple_then[OF triple_yield])
qed (simp add: triple_return)

lemma triple_uploadP:
  "triple (\<lambda>w. inv {} w \<and> write_moment i (e_openlist E) q (w_trace w)) (uploadP E i sz p q) (\<lambda>_. inv {}) (inv {})"
proof -
  have a: "triple (\<lambda>w. inv {} w \<and> write_moment i (e_openlist E) q (w_trace w)) (await E (\<lambda>n. r) (UploadTo p q))
      (\<lambda>_. inv {}) (inv {})" for r
    using i_write by (auto simp: triple_def await_eq liftE_def inv_def split: sum.split)
  have "triple (\<lambda>w. inv {} w \<and> write_moment i (e_openlist E) q (w_trace w))
      (thenP (upload_progress E i sz None counts) (await E (\<lambda>n. r) (UploadTo p q))) (\<lambda>_. inv {}) (inv {})" for counts r
    by (rule triple_then[OF triple_upload_progress a])
  then show ?thesis unfolding triple_def uploadP_def
    by (metis (mono_tags, lifting) case_prod_conv surj_pair)
qed

lemma keeps_upload_attempt:
  assumes ok: "row_ok t"
  shows "keeps {} (upload_attempt E fuel i t p name temp)"
proof -
  have rest: "keeps {} (thenP (transP E i Verifying []) (bindP (sizeP E q) (\<lambda>n.
      if n \<noteq> t_file_size t then raiseP (RemoteReviewRequired (size_text msg_remote_size n (t_file_size t)))
      else finalize_remote E fuel i t q name (Some p))))" for q
    by (intro keeps_then keeps_trans keeps_bind keeps_calls keeps_if keeps_raise keeps_finalize[OF ok])
  have "keeps {} (bindP (begin_remote_write E fuel i t name Uploading temp []) (\<lambda>q.
        thenP (uploadP E i (t_file_size t) p q) (thenP (transP E i Verifying [])
        (bindP (sizeP E q) (\<lambda>n.
           if n \<noteq> t_file_size t then raiseP (RemoteReviewRequired (size_text msg_remote_size n (t_file_size t)))
           else finalize_remote E fuel i t q name (Some p))))))"
    unfolding keeps_def
    by (rule triple_bind[OF triple_begin triple_then[OF triple_uploadP keeps_triple[OF rest]]])
  then show ?thesis unfolding upload_attempt_def
    by (intro keeps_bind[OF keeps_resume[OF ok]] keeps_if keeps_return)
qed

lemma keeps_upload_failed: "keeps {} (upload_failed E i a e)"
  unfolding upload_failed_def by (intro keeps_if keeps_bind[OF keeps_hold] keeps_rules)

lemma keeps_upload_attempts:
  assumes ok: "row_ok t"
  shows "keeps {} (upload_attempts E fuel i t p name temp as)"
proof (induction as)
  case Nil
  show ?case by (simp only: upload_attempts.simps) (intro keeps_rules)
next
  case (Cons a as)
  show ?case unfolding upload_attempts.simps
    by (intro keeps_then keeps_update keeps_bind keeps_try keeps_upload_attempt[OF ok] keeps_upload_failed
        keeps_return keeps_if Cons)
qed

lemma keeps_is_file: "keeps {} (is_fileP E p)"
  unfolding is_fileP_def by (intro keeps_option keeps_rules)

lemma keeps_check_local: "keeps {} (check_local E i t p)"
  unfolding check_local_def requeue_local_def Let_def
  by (intro keeps_bind[OF keeps_is_file] keeps_if keeps_rules)

lemma keeps_upload_rest:
  assumes ok: "row_ok t"
  shows "keeps {} (upload_rest E fuel i t p)"
proof -
  have "keeps {} (upload_handlers E i e)" for e
    unfolding upload_handlers_def by (intro keeps_if keeps_rules)
  then show ?thesis unfolding upload_rest_def Let_def
    by (intro keeps_bind[OF keeps_check_local] keeps_if keeps_return keeps_bind[OF keeps_reads(2)]
        keeps_try keeps_upload_attempts[OF ok])
qed

lemma triple_size_if_present:
  "triple (inv {}) (size_if_present E p) (\<lambda>r w. inv {} w \<and> (\<forall>n. r = Some n \<longrightarrow> SizeOf p (Inr n) \<in> known (w_trace w))) (inv {})"
proof -
  have "triple (inv {}) (bindP (sizeP E p) (\<lambda>n. returnP (Some n)))
      (\<lambda>r w. inv {} w \<and> (\<forall>n. r = Some n \<longrightarrow> SizeOf p (Inr n) \<in> known (w_trace w))) (inv {})"
    by (rule triple_bind[OF triple_size]) (auto intro!: triple_return simp: inv_def)
  then show ?thesis unfolding size_if_present_def
    by (intro triple_if triple_bind[OF keeps_triple[OF keeps_calls(1)]])
      (auto intro!: triple_return)
qed

lemma keeps_check_received:
  assumes ok: "row_ok t"
  shows "keeps {} (check_received E i t p)"
proof -
  let ?q = "path_text (t_remote_path t)"
  have second: "keeps {} (bindP (size_if_present E ?q) (\<lambda>second.
         if second = Some (t_file_size t)
         then thenP (complete_cloud_receive E i t p ?q) (returnP True) else returnP False))"
    unfolding keeps_def
  proof (rule triple_bind[OF triple_size_if_present])
    fix r
    show "triple (\<lambda>w. inv {} w \<and> (\<forall>n. r = Some n \<longrightarrow> SizeOf ?q (Inr n) \<in> known (w_trace w)))
      (if r = Some (t_file_size t) then thenP (complete_cloud_receive E i t p ?q) (returnP True)
       else returnP False) (\<lambda>_. inv {}) (inv {})"
    proof (cases "r = Some (t_file_size t)")
      case True
      have "triple (inv (insert (SizeOf ?q (Inr (t_file_size t))) {}))
          (thenP (complete_cloud_receive E i t p ?q) (returnP True)) (\<lambda>_. inv {}) (inv {})"
        by (rule triple_then[OF keeps_weaken[OF keeps_complete[OF ok]]]) (auto intro: triple_return)
      then have "triple (\<lambda>w. inv {} w \<and> (\<forall>n. r = Some n \<longrightarrow> SizeOf ?q (Inr n) \<in> known (w_trace w)))
          (thenP (complete_cloud_receive E i t p ?q) (returnP True)) (\<lambda>_. inv {}) (inv {})"
        by (rule triple_conseq) (auto simp: True inv_def)
      with True show ?thesis by simp
    qed (auto intro: triple_return)
  qed
  have first: "keeps {} (size_if_present E ?q)"
    unfolding keeps_def by (rule triple_conseq[OF triple_size_if_present]) auto
  show ?thesis unfolding check_received_def Let_def
    by (intro keeps_try keeps_bind[OF first] keeps_if second keeps_rules)
qed

lemma keeps_cleanup_branch:
  assumes ok: "row_ok t"
  assumes k: "\<And>u. row_ok u \<Longrightarrow> keeps {} (k u)"
  shows "keeps {} (bindP (cleanup_branch E i t p) (\<lambda>r. case r of None \<Rightarrow> returnP () | Some u \<Rightarrow> k u))"
proof -
  let ?Q = "\<lambda>r w. inv {} w \<and> (\<forall>u. r = Some u \<longrightarrow> row_ok u)"
  have none: "triple (inv {}) (thenP q (returnP None)) ?Q (inv {})" if "keeps {} q" for q :: "unit prog"
    by (rule triple_then[OF keeps_triple[OF that]]) (auto intro: triple_return)
  have row: "triple (inv {}) (bindP (rowP i t) (\<lambda>u. returnP (Some u))) ?Q (inv {})"
    unfolding rowP_def using i_row ok
    by (auto simp: triple_def bindP_def getP_def returnP_def inv_def split: option.split)
  have branch: "triple (inv {}) (cleanup_branch E i t p) ?Q (inv {})"
    unfolding cleanup_branch_def
    by (intro triple_bind[OF keeps_triple[OF keeps_check_received[OF ok]]] triple_if none keeps_trans
        triple_bind[OF keeps_triple[OF keeps_is_file]] triple_then[OF keeps_triple[OF keeps_trans]] row)
      (auto intro: triple_return)
  show ?thesis unfolding keeps_def
  proof (rule triple_bind[OF branch])
    fix r
    show "triple (?Q r) (case r of None \<Rightarrow> returnP () | Some u \<Rightarrow> k u) (\<lambda>_. inv {}) (inv {})"
      using k by (cases r) (auto simp: keeps_def triple_def returnP_def)
  qed
qed

lemma keeps_upload_one: "keeps {} (upload_one E fuel i)"
proof -
  have scope: "keeps {} (scope_changed E i t)" for t
    unfolding scope_changed_def by (rule keeps_trans)
  have "keeps {} (if t_cancel_requested t \<or> t_state t \<in> {Completed, Confirmed, Cancelled} then returnP ()
      else (case check_scope (e_P E) t (e_target E) of
          Inl e \<Rightarrow> scope_changed E i t
        | Inr _ \<Rightarrow>
           let local_path = (if truthy (t_local_path t) then t_local_path t else None) in
           if t_state t = CleanupPending then
             bindP (cleanup_branch E i t local_path) (\<lambda>r. case r of
                 None \<Rightarrow> returnP () | Some u \<Rightarrow> upload_rest E fuel i u local_path)
           else upload_rest E fuel i t local_path))" if ok: "row_ok t" for t
    unfolding Let_def
    by (intro keeps_if keeps_sum keeps_return scope keeps_cleanup_branch[OF ok] keeps_upload_rest[OF ok]
        keeps_upload_rest)
  then show ?thesis unfolding upload_one_def
    by (intro keeps_get) (auto intro: keeps_return)
qed

subsection \<open>Streaming\<close>

lemma keeps_prod: "(\<And>a b. x = (a, b) \<Longrightarrow> keeps {} (p a b)) \<Longrightarrow> keeps {} (case x of (a, b) \<Rightarrow> p a b)"
  by (cases x) auto

lemma keeps_attempt: "keeps {} p \<Longrightarrow> keeps {} (attemptP p)"
  unfolding attemptP_def by (intro keeps_try keeps_bind keeps_return)

lemma keeps_source: "keeps {} (sourceP E t)"
  unfolding sourceP_def by (rule keeps_sync) (simp add: quiet_def genuine_def)

lemma keeps_message: "keeps {} (messageP E t)"
  unfolding messageP_def by (intro keeps_bind keeps_await keeps_if keeps_return keeps_raise) (simp add: quiet_def genuine_def)

lemma keeps_abort: "keeps {} (abortP E b)"
  unfolding abortP_def by (intro keeps_when keeps_await) (simp add: quiet_def genuine_def)

lemma keeps_yield: "keeps {} (yieldP E)"
  using i_yield by (simp add: keeps_def triple_def yieldP_def inv_def)

lemma keeps_read_progress: "keeps {} (read_progress E i asg la xs)"
proof (induction xs arbitrary: la)
  case Nil
  show ?case by (simp add: keeps_return)
next
  case (Cons x xs)
  then show ?case by (cases x) (auto intro!: keeps_then keeps_yield keeps_update)
qed

lemma keeps_run:
  assumes "\<And>x. keeps {} (q x)" "\<And>w. p w = q (f w) w"
  shows "keeps {} p"
  unfolding keeps_def triple_def assms(2)
proof (intro allI impI)
  fix w assume "inv {} w"
  with assms(1)[of "f w"] show "case q (f w) w of (Done a, w') \<Rightarrow> inv {} w' | (Raised e, w') \<Rightarrow> inv {} w'
      | (Stuck, w') \<Rightarrow> inv {} w'"
    unfolding keeps_def triple_def by simp
qed

lemma keeps_pour: "keeps {} (pourP E i)"
proof -
  let ?q = "\<lambda>x. case x of (ns, r) \<Rightarrow>
      thenP (read_progress E i (\<lambda>n. [ADownloaded n, AUploaded n]) 0 ns) (await E (\<lambda>n. r) (\<lambda>_. Other))"
  have "keeps {} (?q x)" for x
    by (intro keeps_prod keeps_then keeps_read_progress keeps_await) (simp add: quiet_def genuine_def)
  moreover have "pourP E i w = ?q (e_pour E (w_at w)) w" for w
    by (simp add: pourP_def split: prod.split)
  ultimately show ?thesis by (rule keeps_run)
qed

lemma triple_open:
  "triple (\<lambda>w. inv {} w \<and> write_moment i (e_openlist E) p (w_trace w)) (openP E p sz) (\<lambda>_. inv {}) (inv {})"
  using i_open by (auto simp: triple_def openP_def await_eq liftE_def inv_def split: sum.split)

lemma keeps_stream_open:
  assumes ok: "row_ok t"
  shows "keeps {} (stream_open E fuel i t name temp a)"
proof -
  have "keeps {} (bindP (begin_remote_write E fuel i t name Streaming temp asg)
      (\<lambda>q. thenP (openP E q (t_file_size t)) (returnP (Some q))))" for asg
    unfolding keeps_def by (rule triple_bind[OF triple_begin triple_then[OF triple_open]]) (auto intro: triple_return)
  then show ?thesis unfolding stream_open_def
    by (intro keeps_bind[OF keeps_resume[OF ok]] keeps_if keeps_return keeps_then keeps_message)
qed

lemma keeps_finish: "keeps {} (await E (e_finish E) (\<lambda>_. Other))"
  by (rule keeps_await) (simp add: quiet_def genuine_def)

lemma keeps_stream_body:
  assumes ok: "row_ok t"
  shows "keeps {} (stream_body E fuel i t name q)"
  unfolding stream_body_def
  by (intro keeps_bind[OF keeps_pour] keeps_if keeps_raise keeps_then keeps_trans keeps_bind[OF keeps_calls(2)]
      keeps_finish keeps_finalize[OF ok])

lemma keeps_stream_attempt:
  assumes ok: "row_ok t"
  shows "keeps {} (stream_attempt E fuel i t name temp a)"
  unfolding stream_attempt_def
  by (intro keeps_bind keeps_attempt keeps_stream_open[OF ok] keeps_sum keeps_option keeps_stream_body[OF ok] keeps_return)

lemma keeps_stream_failed: "keeps {} (stream_failed E i a b e)"
proof -
  have esc: "keeps {} (escaping b p)" if "keeps {} p" for b p
    unfolding escaping_def by (intro keeps_bind keeps_attempt that keeps_sum keeps_return)
  have retry: "keeps {} (stream_retry E i a e)"
    unfolding stream_retry_def by (intro keeps_bind[OF keeps_hold] keeps_if keeps_rules)
  have "keeps {} (stream_listener_failed E i e)" "keeps {} (stream_move_failed E i e)"
    unfolding stream_listener_failed_def stream_move_failed_def
    by (intro keeps_bind[OF keeps_reads(1)] keeps_if keeps_rules)+
  then show ?thesis unfolding stream_failed_def
    by (intro keeps_if esc keeps_then keeps_abort retry keeps_return)
qed

lemma keeps_stream_attempts:
  assumes ok: "row_ok t"
  shows "keeps {} (stream_attempts E fuel i t name temp as f)"
proof (induction as arbitrary: f)
  case Nil
  show ?case by (simp add: keeps_return)
next
  case (Cons a as)
  show ?case unfolding stream_attempts.simps
    by (intro keeps_bind[OF keeps_stream_attempt[OF ok]] keeps_prod keeps_sum keeps_return
        keeps_bind[OF keeps_stream_failed] Cons)
qed

lemma keeps_stream_run:
  assumes ok: "row_ok t"
  shows "keeps {} (stream_run E fuel i t name temp)"
proof -
  have "keeps {} (stream_used_up E i t f)" for f
    unfolding stream_used_up_def by (intro keeps_bind[OF keeps_row] keeps_rules)
  then have "keeps {} (case x of UsedUp f \<Rightarrow> bindP (attemptP (stream_used_up E i t f)) (\<lambda>r. case r of
                Inl e \<Rightarrow> returnP (Escaped False e) | Inr u \<Rightarrow> returnP Returned)
          | Escaped is_open e \<Rightarrow> returnP x | Returned \<Rightarrow> returnP x)" for x
    by (cases x) (auto intro!: keeps_bind keeps_attempt keeps_sum keeps_return)
  then show ?thesis unfolding stream_run_def
    by (intro keeps_bind[OF keeps_attempt[OF keeps_source]] keeps_sum keeps_return
        keeps_bind[OF keeps_stream_attempts[OF ok]])
qed

lemma keeps_stream_handlers: "keeps {} (stream_handlers E i b e)"
  unfolding stream_handlers_def
  by (intro keeps_if keeps_then keeps_abort keeps_bind[OF keeps_reads(1)] keeps_option keeps_rules)

lemma keeps_stream_one: "keeps {} (stream_one E fuel i)"
proof -
  have ends: "keeps {} (case x of Escaped is_open e \<Rightarrow> stream_handlers E i is_open e
      | Returned \<Rightarrow> returnP () | UsedUp f \<Rightarrow> returnP ())" for x
    by (cases x) (auto intro: keeps_stream_handlers keeps_return)
  show ?thesis unfolding stream_one_def Let_def
  proof (rule keeps_get)
    fix t assume ok: "row_ok t"
    show "keeps {} (case Some t of None \<Rightarrow> returnP () | Some t \<Rightarrow>
      bindP (dbP (\<lambda>d. staging_name d i (safe_file_name (e_P E) (t_file_name t) (task_file (asc ''.bin'') i))))
       (\<lambda>remote_temp. bindP (stream_run E fuel i t
           (safe_file_name (e_P E) (t_file_name t) (task_file (asc ''.bin'') i)) remote_temp)
       (\<lambda>ending. case ending of Escaped is_open e \<Rightarrow> stream_handlers E i is_open e
          | Returned \<Rightarrow> returnP () | UsedUp f \<Rightarrow> returnP ())))"
      unfolding option.case
      by (intro keeps_bind[OF keeps_reads(2)] keeps_bind[OF keeps_stream_run[OF ok]] ends)
  qed (simp add: keeps_return)
qed

subsection \<open>Downloading\<close>

lemma keeps_fetch: "keeps {} (fetchP E i p)"
proof -
  let ?q = "\<lambda>x. case x of (ns, r) \<Rightarrow>
      thenP (read_progress E i (\<lambda>n. [ADownloaded n]) 0 ns) (await E (\<lambda>n. r) (\<lambda>_. Other))"
  have "keeps {} (?q x)" for x
    by (intro keeps_prod keeps_then keeps_read_progress keeps_await) (simp add: quiet_def genuine_def)
  moreover have "fetchP E i p w = ?q (e_fetch E (w_at w) p) w" for w
    by (simp add: fetchP_def split: prod.split)
  ultimately show ?thesis by (rule keeps_run)
qed

lemma keeps_defer: "keeps {} (deferP E i sender expected n m)"
  using i_tick[OF i_defer] by (simp add: keeps_def triple_def deferP_def inv_def case_prod_beta)

lemma keeps_try_defer: "keeps {} (tryDefer E i t c e)"
  unfolding tryDefer_def by (intro keeps_option keeps_return keeps_defer)

lemma keeps_drop_part: "keeps {} (drop_part E p)"
  unfolding drop_part_def by (intro keeps_bind keeps_file keeps_when keeps_calls)

lemma triple_replace:
  "triple (\<lambda>w. inv {} w \<and> ends_in (w_trace w) [Persist i Downloaded [ALocal (Some q), ADownloaded n]])
     (replaceP E p q) (\<lambda>_. inv {}) (inv {})"
proof -
  have "I w \<Longrightarrow> ends_in (w_trace w) [Persist i Downloaded [ALocal (Some q), ADownloaded n]] \<Longrightarrow>
      I (synced (Replace p q r) w)" for w r
    by (rule i_replace) (auto simp: replace_moment_def)
  then show ?thesis
    by (auto simp: triple_def replaceP_def sync_eq liftE_def inv_def synced_def split: sum.split)
qed

lemma keeps_download_body: "keeps {} (download_body E i t part final a)"
proof -
  have rest: "keeps {} (thenP (transP E i WaitingUpload asg) (notifyP E))" for asg
    by (intro keeps_rules)
  have "keeps {} (thenP (transP E i Downloaded [ALocal (Some final), ADownloaded n])
          (thenP (replaceP E part final) (thenP (transP E i WaitingUpload asg) (notifyP E))))" for n asg
    unfolding keeps_def
    by (rule triple_then[OF triple_persist triple_then[OF triple_replace keeps_triple[OF rest]]])
  then show ?thesis unfolding download_body_def
    by (intro keeps_then[OF keeps_message] keeps_bind[OF keeps_fetch] keeps_bind[OF keeps_file]
        keeps_bind[OF keeps_stat] keeps_if keeps_raise)
qed

lemma keeps_download_failed: "keeps {} (download_failed E i t part a e)"
proof -
  have "keeps {} (download_listener_failed E i t part e)"
    unfolding download_listener_failed_def
    by (intro keeps_bind[OF keeps_reads(1)] keeps_bind[OF keeps_try_defer] keeps_if keeps_drop_part
        keeps_rules)
  then show ?thesis unfolding download_failed_def by (intro keeps_if keeps_rules)
qed

lemma keeps_download_attempts: "keeps {} (download_attempts E i t part final as f)"
proof (induction as arbitrary: f)
  case Nil
  show ?case by (simp add: download_used_up_def) (intro keeps_then keeps_drop_part keeps_rules)
next
  case (Cons a as)
  have "keeps {} (tryP (thenP (download_body E i t part final a) (returnP None)) (download_failed E i t part a))"
    by (intro keeps_try keeps_then keeps_download_body keeps_return keeps_download_failed)
  then show ?case unfolding download_attempts.simps
    by (intro keeps_then keeps_trans keeps_drop_part keeps_bind keeps_option keeps_return Cons)
qed

lemma keeps_download_one: "keeps {} (download_one E fuel i)"
proof -
  have "keeps {} (download_cancelled E i t part final c)" for t part final c
    unfolding download_cancelled_def
    by (intro keeps_bind[OF keeps_file] keeps_if keeps_then keeps_when keeps_drop_part keeps_trans)
  then have "keeps {} (download_handlers E i t part final e)" for t part final e
    unfolding download_handlers_def
    by (intro keeps_if keeps_then keeps_drop_part keeps_trans keeps_bind[OF keeps_reads(1)]
        keeps_option keeps_when keeps_rules)
  then show ?thesis unfolding download_one_def Let_def
    by (intro keeps_bind[OF keeps_reads(1)] keeps_option keeps_if keeps_return keeps_stream_one
        keeps_try keeps_then keeps_source keeps_download_attempts)
qed

subsection \<open>Whole runs\<close>

lemma keeps_ends: "keeps {} p \<Longrightarrow> I w \<Longrightarrow> I (snd (p w))"
  unfolding keeps_def triple_def inv_def by (cases "p w") (fastforce split: outcome.splits)

lemmas on_upload = keeps_ends[OF keeps_upload_one]
  and on_stream = keeps_ends[OF keeps_stream_one]
  and on_download = keeps_ends[OF keeps_download_one]

end

end
