(* ===== verification/Safety.thy ===== *)
theory Safety
  imports Engine Histories
begin

text \<open>
  The interface \<open>engine_invariant\<close> interpreted on the task database and on the trace of the
  engine: every handler changes the database by operations of \<open>TaskDB\<close> only, and it removes,
  renames and writes only where the trace has shown that nothing can be lost.
\<close>

section \<open>The other coroutines\<close>

text \<open>The other coroutines change the database through the operations of \<open>TaskDB\<close> as well.\<close>

definition honest :: "env \<Rightarrow> bool" where
  "honest E \<longleftrightarrow> (\<forall>n d. db_reach (e_P E) d (e_others E n d))"

lemma reach_trans: "db_reach P d' d'' \<Longrightarrow> db_reach P d d' \<Longrightarrow> db_reach P d d''"
  by (induction rule: db_reach.induct) (auto intro: db_reach.intros)

lemma reach_update: "db_reach P d d' \<Longrightarrow> db_reach P d (update i asg now d')"
  by (rule r_step[OF _ s_update])

lemma reach_transition: "db_reach P d d' \<Longrightarrow> transition i s asg now d' = Inr d'' \<Longrightarrow> db_reach P d d''"
  by (rule r_step[OF _ s_transition])

lemma reach_defer: "db_reach P d d' \<Longrightarrow> db_reach P d (snd (defer_listener_download i u e secs m now d'))"
  by (rule r_step[OF _ s_defer])

lemma reach_others: "honest E \<Longrightarrow> db_reach (e_P E) d d' \<Longrightarrow> db_reach (e_P E) d (e_others E n d')"
  unfolding honest_def using reach_trans by blast

lemmas world_simps = awaited_def synced_def

interpretation reached: engine_invariant E i "\<lambda>t. True" "\<lambda>w. honest E \<longrightarrow> db_reach (e_P E) d (w_db w)"
  by unfold_locales (auto simp: world_simps intro: reach_update reach_transition reach_defer reach_others)

section \<open>Sizes\<close>

definition has_size :: "int \<Rightarrow> int \<Rightarrow> taskdb \<Rightarrow> bool" where
  "has_size i sz d \<longleftrightarrow> (\<exists>t. get_task d i = Some t \<and> t_file_size t = sz)"

lemma get_upd_state_row:
  "rowwise f \<Longrightarrow> get_task (upd_state j f d) i = (if j = i then map_option f (get_task d i) else get_task d i)"
  using row_of_upd[of f] by (auto simp: get_task_def rowwise_def row_of_upd)

interpretation size: db_invariant "has_size i sz"
proof
  fix d f j assume "wf_db d" "has_size i sz d" "rowwise f"
  then show "has_size i sz (upd_state j f d)"
    by (auto simp: has_size_def get_upd_state_row rowwise_def)
next
  fix d f j assume "wf_db d" "has_size i sz d" "keyed f" "\<And>t. t_state (f t) = t_state t"
  then show "has_size i sz (upd_task j f d)"
    by (auto simp: has_size_def row_simps keyed_def)
next
  fix n dir now d t d' assume a: "wf_db d" "has_size i sz d" "insert_task n dir now d = Some (t, d')"
  then show "has_size i sz d'"
    by (auto simp: has_size_def insert_task_Some get_task_def row_of_append split: option.splits)
next
  fix d d' assume "has_size i sz d" "same_core d d'"
  then show "has_size i sz d'" by (simp add: has_size_def same_core_def get_task_def)
qed

section \<open>What the trace shows\<close>

text \<open>
  \<open>allowed i sz openlist before a\<close>: the handler of task \<open>i\<close>, a file of \<open>sz\<close> bytes, may do \<open>a\<close> after
  \<open>before\<close>. The moments are those of the interface.
\<close>

definition allowed :: "int \<Rightarrow> int \<Rightarrow> bool \<Rightarrow> action list \<Rightarrow> action \<Rightarrow> bool" where
  "allowed i sz openlist before a = (case a of
     Unlink p r \<Rightarrow> unlink_moment i sz before
   | Remove p r \<Rightarrow> remove_moment sz p before
   | MoveTo p q r \<Rightarrow> move_moment i p q before
   | UploadTo p q r \<Rightarrow> write_moment i openlist q before
   | OpenTo q r \<Rightarrow> write_moment i openlist q before
   | Replace p q r \<Rightarrow> replace_moment i q before
   | Persist j s asg \<Rightarrow> j = i
   | _ \<Rightarrow> True)"

definition disciplined :: "int \<Rightarrow> int \<Rightarrow> bool \<Rightarrow> action list \<Rightarrow> bool" where
  "disciplined i sz openlist tr \<longleftrightarrow> (\<forall>xs a ys. tr = xs @ a # ys \<longrightarrow> allowed i sz openlist xs a)"

lemma disciplined_snoc:
  "disciplined i sz ol (tr @ [a]) \<longleftrightarrow> disciplined i sz ol tr \<and> allowed i sz ol tr a"
proof -
  have "tr @ [a] = xs @ b # ys \<longleftrightarrow> (ys = [] \<and> xs = tr \<and> b = a) \<or> (\<exists>zs. ys = zs @ [a] \<and> tr = xs @ b # zs)"
    for xs b ys by (cases ys rule: rev_cases) auto
  then show ?thesis unfolding disciplined_def by (metis (no_types, lifting))
qed

lemma allowed_simps [simp]:
  "allowed i sz ol tr (Unlink p r) = unlink_moment i sz tr"
  "allowed i sz ol tr (Remove p r) = remove_moment sz p tr"
  "allowed i sz ol tr (MoveTo p q r) = move_moment i p q tr"
  "allowed i sz ol tr (UploadTo p q r) = write_moment i ol q tr"
  "allowed i sz ol tr (OpenTo q r) = write_moment i ol q tr"
  "allowed i sz ol tr (Replace p q r) = replace_moment i q tr"
  "allowed i sz ol tr (Persist j s asg) = (j = i)"
  by (simp_all add: allowed_def)

lemma quiet_allowed: "quiet a \<Longrightarrow> allowed i sz ol tr a"
  by (cases a) (simp_all add: quiet_def allowed_def)

definition sound_row :: "env \<Rightarrow> int \<Rightarrow> int \<Rightarrow> taskdb \<Rightarrow> bool" where
  "sound_row E i sz d \<longleftrightarrow> wf_db d \<and> has_size i sz d"

lemma sound_reach: "db_reach P d d' \<Longrightarrow> sound_row E i sz d \<Longrightarrow> sound_row E i sz d'"
  unfolding sound_row_def using size.on_reach by blast

lemma sound_calls:
  "sound_row E i sz d \<Longrightarrow> sound_row E i sz (update j asg now d)"
  "sound_row E i sz d \<Longrightarrow> transition j s asg now d = Inr d' \<Longrightarrow> sound_row E i sz d'"
  "sound_row E i sz d \<Longrightarrow> sound_row E i sz (snd (defer_listener_download j u e secs m now d))"
  "honest E \<Longrightarrow> sound_row E i sz d \<Longrightarrow> sound_row E i sz (e_others E n d)"
  by (erule sound_reach[OF reach_update[OF r_refl]])
    (erule sound_reach[OF reach_transition[OF r_refl], rotated], assumption,
     erule sound_reach[OF reach_defer[OF r_refl]], erule sound_reach[OF reach_others[OF _ r_refl], rotated])

definition careful :: "env \<Rightarrow> int \<Rightarrow> int \<Rightarrow> world \<Rightarrow> bool" where
  "careful E i sz w \<longleftrightarrow> (honest E \<longrightarrow> sound_row E i sz (w_db w)
     \<and> disciplined i sz (e_openlist E) (w_trace w))"

interpretation traced: engine_invariant E i "\<lambda>t. honest E \<longrightarrow> t_file_size t = sz" "careful E i sz"
proof
  fix w t assume "careful E i sz w" "get_task (w_db w) i = Some t"
  then show "honest E \<longrightarrow> t_file_size t = sz"
    by (auto simp: careful_def sound_row_def has_size_def)
qed (auto simp: careful_def world_simps disciplined_snoc quiet_allowed sound_calls)

text \<open>All three handlers, started with an empty trace on a sound database.\<close>

definition handlers :: "env \<Rightarrow> nat \<Rightarrow> int \<Rightarrow> unit prog set" where
  "handlers E fuel i = {upload_one E fuel i, stream_one E fuel i, download_one E fuel i}"

lemma handlers_disciplined:
  assumes "honest E" "wf_db (w_db w)" "get_task (w_db w) i = Some t" "w_trace w = []"
    and "h \<in> handlers E fuel i"
  shows "disciplined i (t_file_size t) (e_openlist E) (w_trace (snd (h w)))"
proof -
  have "careful E i (t_file_size t) w"
    using assms by (auto simp: careful_def sound_row_def has_size_def disciplined_def)
  then have "careful E i (t_file_size t) (snd (h w))"
    using assms(5) traced.on_upload traced.on_stream traced.on_download
    unfolding handlers_def by blast
  with assms(1) show ?thesis by (simp add: careful_def)
qed

lemma handlers_allowed:
  assumes "honest E" "wf_db (w_db w)" "get_task (w_db w) i = Some t" "w_trace w = []"
    and "h \<in> handlers E fuel i" and "w_trace (snd (h w)) = xs @ a # ys"
  shows "allowed i (t_file_size t) (e_openlist E) xs a"
  using handlers_disciplined[OF assms(1-5)] assms(6) by (simp add: disciplined_def)

section \<open>A sample run\<close>

text \<open>Everything succeeds at once; the remote is empty.\<close>

definition ex_env :: "bool \<Rightarrow> env" where
  "ex_env there = \<lparr>e_P = ascii_platform, e_openlist = False, e_target = [], e_label = [], e_max_retries = 3,
    e_dir = [], e_time = (\<lambda>n. 5), e_others = (\<lambda>n d. d), e_exists = (\<lambda>n p. Inr there),
    e_size = (\<lambda>n p. Inr 100), e_remove = (\<lambda>n p. Inr ()), e_ensure = (\<lambda>n p. Inr ()),
    e_move = (\<lambda>n p q. Inr ()), e_upload = (\<lambda>n p q. ([40], Inr ())), e_local = (\<lambda>n p. Some 100),
    e_unlink = (\<lambda>n p. Inr ()), e_replace = (\<lambda>n p q. Inr ()), e_notify = (\<lambda>n. Inr ()),
    e_sleep = (\<lambda>n. Inr ()), e_message = (\<lambda>n c m. Inr True), e_open = (\<lambda>n p k. Inr ()),
    e_pour = (\<lambda>n. ([], Inr 100)), e_finish = (\<lambda>n. Inr ()), e_abort = (\<lambda>n. Inr ()),
    e_fetch = (\<lambda>n p. ([], Inr True)), e_source = (\<lambda>n t. Inr ())\<rparr>"

definition ex_world :: "task \<Rightarrow> world" where
  "ex_world t = \<lparr>w_db = ex_db [t], w_at = 0, w_trace = []\<rparr>"

definition ex_waiting :: task where
  "ex_waiting = (ex_task 1 WaitingUpload)\<lparr>t_local_path := Some [120]\<rparr>"

lemma ex_env_simps [simp]:
  "e_P (ex_env b) = ascii_platform" "e_openlist (ex_env b) = False" "e_target (ex_env b) = []"
  "e_max_retries (ex_env b) = 3" "e_dir (ex_env b) = []" "e_time (ex_env b) n = 5"
  "e_others (ex_env b) n d = d" "e_exists (ex_env b) n p = Inr b" "e_size (ex_env b) n p = Inr 100"
  "e_remove (ex_env b) n p = Inr ()" "e_ensure (ex_env b) n p = Inr ()" "e_move (ex_env b) n p q = Inr ()"
  "e_upload (ex_env b) n p q = ([40], Inr ())" "e_local (ex_env b) n p = Some 100"
  "e_unlink (ex_env b) n p = Inr ()" "e_replace (ex_env b) n p q = Inr ()" "e_notify (ex_env b) n = Inr ()"
  "e_source (ex_env b) n t = Inr ()" "e_message (ex_env b) n c m = Inr True"
  "e_fetch (ex_env b) n p = ([], Inr True)" "e_open (ex_env b) n p k = Inr ()"
  "e_pour (ex_env b) n = ([], Inr 100)" "e_finish (ex_env b) n = Inr ()"
  by (simp_all add: ex_env_def)

lemma ex_honest: "honest (ex_env b)"
  by (simp add: honest_def r_refl)

lemmas run_simps = bindP_def thenP_def tryP_def whenP_def returnP_def raiseP_def getP_def dbP_def nowP_def
  existsP_def sizeP_def await_def sync_def liftE_def transP_def updateP_def notifyP_def unlinkP_def
  fileP_def statP_def is_fileP_def rowP_def exprP_def moveP_def yieldP_def presentP_def Let_def
  discardP_def ensureP_def

lemmas call_simps = upload_one_def cleanup_branch_def check_received_def size_if_present_def path_text_def
  complete_cloud_receive_def drop_temp_def drop_local_def upload_rest_def check_local_def
  upload_attempt_def uploadP_def resume_remote_def resume_paths_def begin_remote_write_def
  clouddrive_begin_def finalize_remote_def rename_staged_def reserve_final_def choose_remote_final_def
  takenP_def checked_size_def py_range_def

lemma ex_get: "get_task (ex_db [t]) i = (if t_id t = i then Some t else None)"
  by (simp add: ex_db_def get_task_def)

lemma ex_scope:
  "t_target_directory (ex_task i s) = []" "t_target_base (ex_task i s) = None" "t_upload_retries (ex_task i s) = 0"
  "t_download_retries (ex_task i s) = 0" "safe_directory ascii_platform [] = Inr []"
  by (simp_all add: safe_directory_def ascii_platform_def ex_task_def new_task_def ex_intake_def)

lemma ex_name: "safe_file_name ascii_platform (asc ''a.mp4'') fb = asc ''a.mp4''"
proof (rule safe_file_name_keeps)
  show "utf8_len (path_suffix (asc ''a.mp4'')) \<le> 24" by code_simp
qed (simp_all add: ascii_platform_def is_surrogate_def plain_name_def forbidden_def kept_char_def
      utf8_size_def asc_def DOT_def DOTDOT_def)

definition ex_staged :: ustr where
  "ex_staged = asc ''.uploading-1-a.mp4''"

lemma ex_staging: "staging_name (ex_db [t]) 1 (asc ''a.mp4'') = ex_staged"
  by (simp add: staging_name_def last_recovery_def ex_staged_def dec_def dec_nat.simps asc_def)

lemma ex_names [simp]:
  "starts_with ex_staged STAGED" "ex_staged \<noteq> []" "ex_staged \<noteq> asc ''a.mp4''" "asc ''a.mp4'' \<noteq> []"
  "asc ''a.mp4'' \<noteq> ex_staged"
  by (simp_all add: ex_staged_def STAGED_def asc_def)

lemma ex_run:
  "w_trace (snd (upload_one (ex_env False) 1 1 (ex_world ex_waiting))) =
    [Persist 1 Uploading [ARemote (Some ex_staged), ATemp (Some ex_staged)],
     UploadTo [120] ex_staged (Inr ()), Persist 1 Verifying [], SizeOf ex_staged (Inr 100),
     Exists (asc ''a.mp4'') (Inr False),
     Persist 1 Finalizing [ARemote (Some (asc ''a.mp4'')), ATemp (Some ex_staged), AFinal (Some (asc ''a.mp4''))],
     MoveTo ex_staged (asc ''a.mp4'') (Inr ()), SizeOf (asc ''a.mp4'') (Inr 100),
     Exists ex_staged (Inr False),
     Persist 1 CleanupPending (cleanup_fields (asc ''a.mp4'') 100 5), Unlink [120] (Inr ()),
     Persist 1 Completed completed_fields, Notify]"
  by (simp add: call_simps run_simps ex_world_def ex_get ex_waiting_def ex_scope ex_name ex_staging
      truthy_def transition_def sets_state_def get_upd_state can_transition_def cleanup_fields_def
      completed_fields_def assign_all_def keyed_def upto.simps joined_def
      remote_claimed_def protected_remote_def update_def check_scope_def row_simps)

lemma ex_world_simps [simp]:
  "w_db (ex_world t) = ex_db [t]" "w_trace (ex_world t) = []"
  by (simp_all add: ex_world_def)

lemma ex_start:
  "wf_db (w_db (ex_world ex_waiting))" "get_task (w_db (ex_world ex_waiting)) 1 = Some ex_waiting"
  "w_trace (ex_world ex_waiting) = []" "upload_one (ex_env b) 1 1 \<in> handlers (ex_env b) 1 1"
  by (auto simp: wf_db_def wf_tasks_def wf_refs_def unique_message_def unique_media_def ex_db_def empty_db_def
      ex_waiting_def get_task_def handlers_def)

lemma ex_waiting_size: "t_file_size ex_waiting = 100"
  by (simp add: ex_waiting_def)

definition ex_trace :: "action list" where
  "ex_trace = w_trace (snd (upload_one (ex_env False) 1 1 (ex_world ex_waiting)))"

lemma ex_cut:
  "ex_trace = take 10 ex_trace @ Unlink [120] (Inr ()) # drop 11 ex_trace"
  "ex_trace = take 6 ex_trace @ MoveTo ex_staged (asc ''a.mp4'') (Inr ()) # drop 7 ex_trace"
  "ex_trace = [Persist 1 Uploading [ARemote (Some ex_staged), ATemp (Some ex_staged)]]
     @ UploadTo [120] ex_staged (Inr ()) # drop 2 ex_trace"
  unfolding ex_trace_def ex_run by simp_all

section \<open>The properties\<close>





text \<open>
  C2. A rename never overwrites: the source is a staging object, the last question to the remote
  before the MOVE was whether the target exists and the answer was no, and between that answer
  and the MOVE nothing happened but the record of both paths, from which a restart resumes.
\<close>

theorem rename_onto_free_path:
  assumes "honest E" "wf_db (w_db w)" "get_task (w_db w) i = Some t" "w_trace w = []"
    and "h \<in> handlers E fuel i" and "w_trace (snd (h w)) = xs @ MoveTo p q r # ys"
  shows "starts_with p STAGED \<and> ends_in xs [Exists q (Inr False),
    Persist i Finalizing [ARemote (Some q), ATemp (Some p), AFinal (Some q)]]"
  using handlers_allowed[OF assms] by (simp add: move_moment_def)

theorem rename_onto_free_path_witness:
  "starts_with ex_staged STAGED \<and> ends_in (take 6 ex_trace) [Exists (asc ''a.mp4'') (Inr False), Persist 1 Finalizing
     [ARemote (Some (asc ''a.mp4'')), ATemp (Some ex_staged), AFinal (Some (asc ''a.mp4''))]]"
  using rename_onto_free_path[OF ex_honest ex_start ex_cut(2)[unfolded ex_trace_def]]
  unfolding ex_trace_def .

text \<open>
  C4. Every write is recorded first: before bytes go to a remote path, the task row holds that
  path, so that no object is ever written that the database does not know; and with OpenList,
  where the bytes go straight to the final path, the remote had just answered that nothing is
  there.
\<close>

theorem write_recorded_first:
  assumes "honest E" "wf_db (w_db w)" "get_task (w_db w) i = Some t" "w_trace w = []"
    and "h \<in> handlers E fuel i" and "w_trace (snd (h w)) = xs @ a # ys"
    and "a = UploadTo p q r \<or> a = OpenTo q r"
  shows "\<exists>s asg. if e_openlist E
    then ends_in xs [Exists q (Inr False), Persist i s ([ARemote (Some q), ATemp None, AFinal (Some q)] @ asg)]
    else ends_in xs [Persist i s ([ARemote (Some q), ATemp (Some q)] @ asg)]"
proof -
  have "write_moment i (e_openlist E) q xs" using handlers_allowed[OF assms(1-6)] assms(7) by auto
  then show ?thesis unfolding write_moment_def .
qed

theorem write_recorded_first_witness:
  "\<exists>s asg. if False
    then ends_in [Persist 1 Uploading [ARemote (Some ex_staged), ATemp (Some ex_staged)]]
      [Exists ex_staged (Inr False), Persist 1 s ([ARemote (Some ex_staged), ATemp None, AFinal (Some ex_staged)] @ asg)]
    else ends_in [Persist 1 Uploading [ARemote (Some ex_staged), ATemp (Some ex_staged)]]
      [Persist 1 s ([ARemote (Some ex_staged), ATemp (Some ex_staged)] @ asg)]"
  using write_recorded_first[OF ex_honest ex_start ex_cut(3)[unfolded ex_trace_def] disjI1[OF refl]]
  unfolding ex_env_simps .

text \<open>
  C22. A staging object is removed only when it is not needed: the handler has just seen it, and
  it has read, after the last write and rename, the size of the file at another path.
\<close>

theorem staging_removed_after_verification:
  assumes "honest E" "wf_db (w_db w)" "get_task (w_db w) i = Some t" "w_trace w = []"
    and "h \<in> handlers E fuel i" and "w_trace (snd (h w)) = xs @ Remove p r # ys"
  shows "ends_in xs [Exists p (Inr True)]
    \<and> (\<exists>final. SizeOf final (Inr (t_file_size t)) \<in> known xs \<and> p \<noteq> final)"
  using handlers_allowed[OF assms] by (simp add: remove_moment_def)

text \<open>A received file whose staging object is still there.\<close>

definition ex_received :: task where
  "ex_received = (ex_task 1 CleanupPending)\<lparr>t_remote_path := Some [102], t_remote_temp_path := Some [103]\<rparr>"

definition ex_cleanup :: "action list" where
  "ex_cleanup = w_trace (snd (upload_one (ex_env True) 1 1 (ex_world ex_received)))"

lemma ex_received_start:
  "wf_db (w_db (ex_world ex_received))" "get_task (w_db (ex_world ex_received)) 1 = Some ex_received"
  "w_trace (ex_world ex_received) = []" "upload_one (ex_env b) 1 1 \<in> handlers (ex_env b) 1 1"
  by (auto simp: wf_db_def wf_tasks_def wf_refs_def unique_message_def unique_media_def ex_db_def empty_db_def
      ex_received_def get_task_def handlers_def)

lemma ex_cleanup_cut: "ex_cleanup = [Exists [102] (Inr True), SizeOf [102] (Inr 100), Exists [102] (Inr True),
    SizeOf [102] (Inr 100), Exists [103] (Inr True)] @ Remove [103] (Inr ()) # drop 6 ex_cleanup"
  unfolding ex_cleanup_def
  by (simp add: call_simps run_simps removeP_def ex_world_def ex_get ex_received_def ex_scope truthy_def
      check_scope_def)

theorem staging_removed_after_verification_witness:
  "ends_in [Exists [102] (Inr True), SizeOf [102] (Inr 100), Exists [102] (Inr True),
      SizeOf [102] (Inr 100), Exists [103] (Inr True)] [Exists [103] (Inr True)]
    \<and> (\<exists>final. SizeOf final (Inr (t_file_size ex_received)) \<in> known [Exists [102] (Inr True), SizeOf [102] (Inr 100),
         Exists [102] (Inr True), SizeOf [102] (Inr 100), Exists [103] (Inr True)] \<and> [103] \<noteq> final)"
  by (rule staging_removed_after_verification[OF ex_honest ex_received_start
      ex_cleanup_cut[unfolded ex_cleanup_def]])

text \<open>
  A download is recorded before it gets its final name: \<open>os.replace\<close> comes right after the
  transition that stores the final local path, so that a restart between the two finds either
  the complete file under the recorded path or no file there (\<open>recover_settles\<close>).
\<close>

theorem final_name_recorded_first:
  assumes "honest E" "wf_db (w_db w)" "get_task (w_db w) i = Some t" "w_trace w = []"
    and "h \<in> handlers E fuel i" and "w_trace (snd (h w)) = xs @ Replace p q r # ys"
  shows "\<exists>n. ends_in xs [Persist i Downloaded [ALocal (Some q), ADownloaded n]]"
  using handlers_allowed[OF assms] by (simp add: replace_moment_def)

definition ex_reserved :: task where
  "ex_reserved = ex_task 1 Reserved"

definition ex_download :: "action list" where
  "ex_download = w_trace (snd (download_one (ex_env False) 1 1 (ex_world ex_reserved)))"

lemma ex_reserved_start:
  "wf_db (w_db (ex_world ex_reserved))" "get_task (w_db (ex_world ex_reserved)) 1 = Some ex_reserved"
  "w_trace (ex_world ex_reserved) = []" "download_one (ex_env b) 1 1 \<in> handlers (ex_env b) 1 1"
  by (simp_all add: ex_reserved_def handlers_def)

lemma ex_download_cut:
  "ex_download = take 6 ex_download @ Replace (part_path [] 1) (final_path ascii_platform [] ex_reserved) (Inr ())
     # drop 7 ex_download"
  unfolding ex_download_def
  by (simp add: download_one_def download_body_def drop_part_def sourceP_def messageP_def fetchP_def
      replaceP_def run_simps py_range_def ex_world_def ex_get ex_reserved_def transition_def sets_state_def
      can_transition_def upto.simps row_simps assign_all_def keyed_def ex_scope)

theorem final_name_recorded_first_witness:
  "\<exists>n. ends_in (take 6 ex_download)
     [Persist 1 Downloaded [ALocal (Some (final_path ascii_platform [] ex_reserved)), ADownloaded n]]"
  using final_name_recorded_first[OF ex_honest ex_reserved_start ex_download_cut[unfolded ex_download_def]]
  unfolding ex_download_def .

end
