(* ===== verification/Actions.thy ===== *)
theory Actions
  imports Safety
begin

text \<open>
  The administrator's and the owner's operations on tasks, \<open>src/tg2cloud/transfer/actions.py\<close>
  (\<open>_cancel_task_command\<close>, \<open>_command_cancel\<close>, \<open>_find_orphan_staging\<close>,
  \<open>_confirm_orphan_cleanup\<close>) and the retry of \<open>transfer/recovery.py\<close> (\<open>_retry_task\<close>,
  \<open>_local_complete\<close>). They remove objects outside the transfer handlers, so the theorems say
  which objects they can remove, and when. The texts of the replies are not modelled.
\<close>

section \<open>Cancelling\<close>

text \<open>\<open>event.reply\<close>, and waiting for the handler that was told to stop: any answer is possible.\<close>

definition replyP :: "env \<Rightarrow> unit prog" where
  "replyP E = await E (e_notify E) (\<lambda>_. Notify)"

definition waitP :: "env \<Rightarrow> unit prog" where
  "waitP E = await E (e_sleep E) (\<lambda>_. Other)"

definition FINISHED :: "task_state set" where
  "FINISHED = {Completed, Confirmed, CleanupPending, Cancelled}"

text \<open>The recorded paths, each once (\<open>dict.fromkeys\<close>), without the empty one.\<close>

definition cancel_paths :: "task \<Rightarrow> ustr list" where
  "cancel_paths t = filter (\<lambda>p. p \<noteq> []) (rev (remdups (rev (recorded_paths t))))"

definition cancel_remote :: "env \<Rightarrow> ustr \<Rightarrow> bool prog" where
  "cancel_remote E p =
    tryP (bindP (existsP E p) (\<lambda>there.
          thenP (whenP there (removeP E p)) (bindP (existsP E p) (\<lambda>still.
            if still then raiseP (RuntimeError msg_still_there) else returnP True))))
      (\<lambda>e. if e = CancelledError then raiseP e else thenP (replyP E) (returnP False))"

fun cancel_remotes :: "env \<Rightarrow> ustr list \<Rightarrow> bool prog" where
  "cancel_remotes E [] = returnP True"
| "cancel_remotes E (p # ps) = bindP (cancel_remote E p) (\<lambda>ok. if ok then cancel_remotes E ps else returnP False)"

text \<open>One local file, which is a regular file or absent; \<open>drop\<close> unlinks it.\<close>

definition cancel_file :: "env \<Rightarrow> (ustr \<Rightarrow> unit prog) \<Rightarrow> ustr \<Rightarrow> bool prog" where
  "cancel_file E drop_it p =
    tryP (bindP (fileP E p) (\<lambda>found. thenP (whenP (found \<noteq> None) (drop_it p)) (returnP True)))
      (\<lambda>e. if is_os_error e then thenP (replyP E) (returnP False) else raiseP e)"

definition cancelled_fields :: "assign list" where
  "cancelled_fields = [ALocal None, ARemote None, ATemp None, AFinal None, ACancel False, ADownloaded 0,
     AUploaded 0, AError None, AWait None]"

definition cancel_rest :: "env \<Rightarrow> int \<Rightarrow> task \<Rightarrow> unit prog" where
  "cancel_rest E i t =
    bindP (cancel_remotes E (cancel_paths t)) (\<lambda>ok.
    if \<not> ok then returnP () else
    bindP (case t_local_path t of
        None \<Rightarrow> returnP True
      | Some p \<Rightarrow> if p = [] then returnP True else cancel_file E (unlinkP E) p) (\<lambda>ok.
    if \<not> ok then returnP () else
    bindP (cancel_file E (discardP E) (part_path (e_dir E) i)) (\<lambda>ok.
    if \<not> ok then returnP ()
    else thenP (transP E i Cancelled cancelled_fields) (replyP E))))"

text \<open>\<open>running\<close>: a handler of this task is among \<open>download_tasks\<close> or \<open>upload_tasks\<close>.\<close>

definition cancel_mark :: "env \<Rightarrow> bool \<Rightarrow> int \<Rightarrow> unit prog" where
  "cancel_mark E running i =
    thenP (updateP E i [ACancel True, AWait (Some msg_cancelling)]) (whenP running (waitP E))"

text \<open>What is left to do once the handler has stopped, by the row as it is then.\<close>

definition cancel_stopped :: "env \<Rightarrow> int \<Rightarrow> unit prog" where
  "cancel_stopped E i = bindP (getP i) (\<lambda>r. case r of
      None \<Rightarrow> replyP E
    | Some t \<Rightarrow>
       if needs_review t then thenP (updateP E i [ACancel False]) (replyP E)
       else if t_state t \<in> FINISHED then thenP (replyP E) (updateP E i [ACancel False])
       else cancel_rest E i t)"

definition cancel_task :: "env \<Rightarrow> bool \<Rightarrow> int \<Rightarrow> unit prog" where
  "cancel_task E running i = bindP (getP i) (\<lambda>r. case r of
      None \<Rightarrow> replyP E
    | Some t \<Rightarrow>
       if needs_review t then replyP E
       else if t_state t \<in> FINISHED then replyP E
       else thenP (cancel_mark E running i) (cancel_stopped E i))"

text \<open>\<open>cancelling\<close> is the set of tasks that are being cancelled; a second request is turned away.\<close>

definition command_cancel ::
  "env \<Rightarrow> bool \<Rightarrow> int \<Rightarrow> int set \<times> world \<Rightarrow> unit outcome \<times> int set \<times> world" where
  "command_cancel E running i cw =
    (if i \<in> fst cw then (case replyP E (snd cw) of (r, w) \<Rightarrow> (r, fst cw, w))
     else (case cancel_task E running i (snd cw) of (r, w) \<Rightarrow> (r, fst cw - {i}, w)))"

section \<open>Orphans\<close>

text \<open>\<open>scan\<close> answers \<open>list_staging_objects\<close>: whether the listing is complete, and the objects.\<close>

type_synonym staging_scan = "nat \<Rightarrow> exc + bool \<times> (int \<times> ustr) list"

definition find_orphans :: "env \<Rightarrow> staging_scan \<Rightarrow> (int \<times> ustr) list prog" where
  "find_orphans E scan = bindP (await E scan (\<lambda>_. Other)) (\<lambda>(whole, objs).
    if \<not> whole then raiseP (RuntimeError msg_scan_incomplete)
    else dbP (\<lambda>d. filter (\<lambda>(i, p). is_orphan_staging d i p) objs))"

record cleanup_plan =
  k_token :: ustr
  k_expires :: rat
  k_objects :: "(int \<times> ustr) list"

definition ORPHAN_CLEANUP_LIMIT :: nat where "ORPHAN_CLEANUP_LIMIT = 100"

definition orphan_plan :: "ustr \<Rightarrow> rat \<Rightarrow> (int \<times> ustr) list \<Rightarrow> cleanup_plan" where
  "orphan_plan token now orphans =
    \<lparr>k_token = token, k_expires = now + 300, k_objects = take ORPHAN_CLEANUP_LIMIT orphans\<rparr>"

definition clean_one :: "env \<Rightarrow> ustr \<Rightarrow> bool prog" where
  "clean_one E p =
    tryP (thenP (removeP E p) (bindP (existsP E p) (\<lambda>still.
        if still then raiseP (RuntimeError msg_still_there) else returnP True)))
      (\<lambda>e. if e = CancelledError then raiseP e else thenP (replyP E) (returnP False))"

fun clean_loop :: "env \<Rightarrow> (int \<times> ustr) list \<Rightarrow> (int \<times> ustr) list \<Rightarrow> unit prog" where
  "clean_loop E now [] = replyP E"
| "clean_loop E now ((i, p) # os) =
    bindP (dbP (\<lambda>d. (i, p) \<in> set now \<and> is_orphan_staging d i p)) (\<lambda>go.
      if \<not> go then clean_loop E now os
      else bindP (clean_one E p) (\<lambda>ok. if ok then clean_loop E now os else returnP ()))"

text \<open>\<open>secrets.compare_digest\<close> raises TypeError for text that is not ASCII.\<close>

definition clean_plan :: "env \<Rightarrow> staging_scan \<Rightarrow> cleanup_plan \<Rightarrow> unit prog" where
  "clean_plan E scan plan =
    bindP (tryP (bindP (find_orphans E scan) (\<lambda>os. returnP (Some os)))
        (\<lambda>e. if e = CancelledError then raiseP e else thenP (replyP E) (returnP None)))
      (\<lambda>r. case r of None \<Rightarrow> returnP () | Some os \<Rightarrow> clean_loop E os (k_objects plan))"

definition confirm_cleanup ::
  "env \<Rightarrow> staging_scan \<Rightarrow> rat \<Rightarrow> ustr \<Rightarrow> cleanup_plan option \<times> world
    \<Rightarrow> unit outcome \<times> cleanup_plan option \<times> world" where
  "confirm_cleanup E scan now token pw =
    (case fst pw of
       None \<Rightarrow> (case replyP E (snd pw) of (r, w) \<Rightarrow> (r, None, w))
     | Some plan \<Rightarrow>
        if k_expires plan < now then (case replyP E (snd pw) of (r, w) \<Rightarrow> (r, None, w))
        else if list_ex (\<lambda>c. 128 \<le> c) (k_token plan @ token) then (Raised (TypeError []), fst pw, snd pw)
        else if k_token plan \<noteq> token then (case replyP E (snd pw) of (r, w) \<Rightarrow> (r, fst pw, w))
        else (case clean_plan E scan plan (snd pw) of (r, w) \<Rightarrow> (r, None, w)))"

section \<open>Retrying\<close>

text \<open>\<open>resolve\<close> is \<open>Path.resolve\<close> (\<open>None\<close> for an OSError), \<open>link\<close> \<open>Path.is_symlink\<close>.\<close>

definition local_complete :: "files \<Rightarrow> (ustr \<Rightarrow> ustr option) \<Rightarrow> (ustr \<Rightarrow> bool) \<Rightarrow> ustr \<Rightarrow> task \<Rightarrow> bool" where
  "local_complete fs resolve link dir t =
    (case t_local_path t of
       None \<Rightarrow> False
     | Some p \<Rightarrow> p \<noteq> [] \<and>
        (case (resolve p, resolve dir) of
           (Some q, Some base) \<Rightarrow> (q = base \<or> starts_with q (base @ [47]))
              \<and> \<not> link p \<and> \<not> ends_with (path_name p) (asc ''.part'') \<and> complete_at fs p (t_file_size t)
         | _ \<Rightarrow> False))"

definition withdraw_cancel :: "platform \<Rightarrow> files \<Rightarrow> ustr \<Rightarrow> int \<Rightarrow> rat \<Rightarrow> taskdb \<Rightarrow> taskdb" where
  "withdraw_cancel P fs dir i now d = snd (recover P fs dir (Some i) now (update i [ACancel False] now d))"

text \<open>\<open>busy\<close>: the task is being cancelled or one of its handlers runs.\<close>

definition retry_task ::
  "platform \<Rightarrow> files \<Rightarrow> (task \<Rightarrow> bool) \<Rightarrow> ustr \<Rightarrow> bool \<Rightarrow> int \<Rightarrow> task \<Rightarrow> rat \<Rightarrow> taskdb \<Rightarrow> exc + (bool \<times> taskdb)" where
  "retry_task P fs full dir busy actor given now d =
    (let i = t_id given;
         t = (case get_task d i of None \<Rightarrow> given | Some t \<Rightarrow> t) in
     if busy then Inr (False, d)
     else if t_sender_id t \<noteq> actor \<or> needs_review t then Inr (False, d)
     else
       let d' = (if t_cancel_requested t then withdraw_cancel P fs dir i now d else d);
           t' = (if t_cancel_requested t then (case get_task d' i of None \<Rightarrow> t | Some u \<Rightarrow> u) else t) in
       if t_state t' \<in> set FAILED_STATES
       then requeue P i actor (t_updated_at t') (full t') False False None now d'
       else Inr (t_state t' \<in> {Queued, WaitingUpload}, d'))"

section \<open>What a program may do to the trace\<close>

definition permits :: "(action list \<Rightarrow> action \<Rightarrow> bool) \<Rightarrow> action list \<Rightarrow> bool" where
  "permits A tr \<longleftrightarrow> (\<forall>xs a ys. tr = xs @ a # ys \<longrightarrow> A xs a)"

lemma permits_Nil [simp]: "permits A []"
  by (simp add: permits_def)

lemma permits_snoc [simp]: "permits A (tr @ [a]) \<longleftrightarrow> permits A tr \<and> A tr a"
proof -
  have "tr @ [a] = xs @ b # ys \<longleftrightarrow> (ys = [] \<and> xs = tr \<and> b = a) \<or> (\<exists>zs. ys = zs @ [a] \<and> tr = xs @ b # zs)"
    for xs b ys by (cases ys rule: rev_cases) auto
  then show ?thesis unfolding permits_def by (metis (no_types, lifting))
qed

text \<open>The trace so far is permitted, and shows the facts \<open>K\<close>.\<close>

definition shown :: "(action list \<Rightarrow> action \<Rightarrow> bool) \<Rightarrow> action set \<Rightarrow> world \<Rightarrow> bool" where
  "shown A K w \<longleftrightarrow> permits A (w_trace w) \<and> K \<subseteq> set (w_trace w)"

definition stays :: "(action list \<Rightarrow> action \<Rightarrow> bool) \<Rightarrow> action set \<Rightarrow> 'a prog \<Rightarrow> bool" where
  "stays A K p \<longleftrightarrow> triple (shown A K) p (\<lambda>_. shown A K) (shown A K)"

lemma stays_rules:
  "stays A K (returnP a)" "stays A K (raiseP e)" "stays A K (getP i)" "stays A K (dbP f)" "stays A K (updateP E i asg)"
  "stays A K (fileP E p)"
  by (simp_all add: stays_def triple_def returnP_def raiseP_def getP_def dbP_def updateP_def fileP_def shown_def)

lemma stays_bind: "stays A K p \<Longrightarrow> (\<And>a. stays A K (f a)) \<Longrightarrow> stays A K (bindP p f)"
  unfolding stays_def by (rule triple_bind)

lemma stays_then: "stays A K p \<Longrightarrow> stays A K q \<Longrightarrow> stays A K (thenP p q)"
  unfolding thenP_def by (rule stays_bind)

lemma stays_if: "(b \<Longrightarrow> stays A K p) \<Longrightarrow> (\<not> b \<Longrightarrow> stays A K q) \<Longrightarrow> stays A K (if b then p else q)"
  by simp

lemma stays_triple: "stays A K p \<Longrightarrow> triple (shown A K) p (\<lambda>_. shown A K) (shown A K)"
  by (simp add: stays_def)

lemma triple_await_shown:
  assumes "\<And>w r. B w \<Longrightarrow> shown A K w \<Longrightarrow> A (w_trace w) (act r)"
  shows "triple (\<lambda>w. B w \<and> shown A K w) (await E f act)
    (\<lambda>v w. shown A (insert (act (Inr v)) K) w \<and> ends_in (w_trace w) [act (Inr v)]) (shown A K)"
  using assms by (auto simp: triple_def await_def liftE_def shown_def ends_in_def split: sum.split)

lemma triple_sync_shown:
  assumes "\<And>w r. B w \<Longrightarrow> shown A K w \<Longrightarrow> A (w_trace w) (act r)"
  shows "triple (\<lambda>w. B w \<and> shown A K w) (sync f act) (\<lambda>v. shown A (insert (act (Inr v)) K)) (shown A K)"
  using assms by (auto simp: triple_def sync_def liftE_def shown_def split: sum.split)

lemma shown_mono: "shown A L w \<Longrightarrow> K \<subseteq> L \<Longrightarrow> shown A K w"
  by (auto simp: shown_def)

lemma stays_await: "(\<And>w r. shown A K w \<Longrightarrow> A (w_trace w) (act r)) \<Longrightarrow> stays A K (await E f act)"
  unfolding stays_def
  by (rule triple_conseq[OF triple_await_shown[where B = "\<lambda>_. True"]]) (auto intro: shown_mono)

section \<open>Cancelling: what is removed, and when\<close>

text \<open>\<open>gone t tr\<close>: every recorded path of the task was seen absent.\<close>

definition gone :: "task \<Rightarrow> action list \<Rightarrow> bool" where
  "gone t tr \<longleftrightarrow> (\<forall>p \<in> set (cancel_paths t). Exists p (Inr False) \<in> set tr)"

definition local_gone :: "env \<Rightarrow> task \<Rightarrow> action list \<Rightarrow> bool" where
  "local_gone E t tr \<longleftrightarrow> (\<forall>p. t_local_path t = Some p \<and> p \<noteq> [] \<longrightarrow>
     Unlink p (Inr ()) \<in> set tr \<or> (\<exists>n. e_local E n p = None))"

definition cancel_allowed :: "env \<Rightarrow> int \<Rightarrow> task \<Rightarrow> action list \<Rightarrow> action \<Rightarrow> bool" where
  "cancel_allowed E i t tr a = (case a of
     Exists p r \<Rightarrow> True | Notify \<Rightarrow> True | Other \<Rightarrow> True
   | Remove p r \<Rightarrow> p \<in> set (cancel_paths t) \<and> ends_in tr [Exists p (Inr True)]
   | Unlink p r \<Rightarrow> t_local_path t = Some p \<and> gone t tr
   | Discard p r \<Rightarrow> p = part_path (e_dir E) i \<and> gone t tr
   | Persist j s asg \<Rightarrow> j = i \<and> s = Cancelled \<and> asg = cancelled_fields \<and> gone t tr \<and> local_gone E t tr
   | _ \<Rightarrow> False)"

lemma cancel_allowed_simps [simp]:
  "cancel_allowed E i t tr (Exists p b)" "cancel_allowed E i t tr Notify" "cancel_allowed E i t tr Other"
  "cancel_allowed E i t tr (Remove p r) \<longleftrightarrow> p \<in> set (cancel_paths t) \<and> ends_in tr [Exists p (Inr True)]"
  "cancel_allowed E i t tr (Unlink p r) \<longleftrightarrow> t_local_path t = Some p \<and> gone t tr"
  "cancel_allowed E i t tr (Discard p r) \<longleftrightarrow> p = part_path (e_dir E) i \<and> gone t tr"
  "cancel_allowed E i t tr (Persist j s asg) \<longleftrightarrow> j = i \<and> s = Cancelled \<and> asg = cancelled_fields \<and> gone t tr \<and> local_gone E t tr"
  by (simp_all add: cancel_allowed_def)

lemma stays_reply: "(\<And>tr. A tr Notify) \<Longrightarrow> stays A K (replyP E)"
  unfolding replyP_def by (rule stays_await) simp

lemma stays_wait: "(\<And>tr. A tr Other) \<Longrightarrow> stays A K (waitP E)"
  unfolding waitP_def by (rule stays_await) simp

lemma triple_exists_shown:
  assumes "\<And>tr r. A tr (Exists p r)"
  shows "triple (shown A K) (existsP E p)
    (\<lambda>b w. shown A (insert (Exists p (Inr b)) K) w \<and> ends_in (w_trace w) [Exists p (Inr b)]) (shown A K)"
  unfolding existsP_def
  by (rule triple_conseq[OF triple_await_shown[where B = "\<lambda>_. True"]]) (auto simp: assms)

lemma triple_remove_shown:
  assumes "\<And>tr r. ends_in tr [Exists p (Inr True)] \<Longrightarrow> A tr (Remove p r)"
  shows "triple (\<lambda>w. shown A K w \<and> ends_in (w_trace w) [Exists p (Inr True)]) (removeP E p)
    (\<lambda>_. shown A K) (shown A K)"
  unfolding removeP_def
  by (rule triple_conseq[OF triple_await_shown[where B = "\<lambda>w. ends_in (w_trace w) [Exists p (Inr True)]"]])
    (auto simp: assms intro: shown_mono)

lemma triple_cancel_remote:
  assumes p: "p \<in> set (cancel_paths t)"
  shows "triple (shown (cancel_allowed E i t) K) (cancel_remote E p)
    (\<lambda>ok. shown (cancel_allowed E i t) (if ok then insert (Exists p (Inr False)) K else K))
    (shown (cancel_allowed E i t) K)"
proof -
  let ?A = "cancel_allowed E i t"
  have again: "triple (shown ?A K) (bindP (existsP E p) (\<lambda>still.
      if still then raiseP (RuntimeError msg_still_there) else returnP True))
      (\<lambda>ok. shown ?A (if ok then insert (Exists p (Inr False)) K else K)) (shown ?A K)"
    by (rule triple_bind[OF triple_exists_shown])
      (auto intro: triple_raise triple_return shown_mono split: if_splits)
  have drop: "triple (\<lambda>w. shown ?A (insert (Exists p (Inr b)) K) w \<and> ends_in (w_trace w) [Exists p (Inr b)])
      (whenP b (removeP E p)) (\<lambda>_. shown ?A K) (shown ?A K)" for b
  proof (cases b)
    case True
    then show ?thesis unfolding whenP_def
      by (simp, intro triple_conseq[OF triple_remove_shown[where K = K]]) (auto simp: p intro: shown_mono)
  next
    case False
    then show ?thesis by (auto simp: whenP_def intro!: triple_return intro: shown_mono)
  qed
  have fail: "triple (shown ?A K) (if e = CancelledError then raiseP e else thenP (replyP E) (returnP False))
      (\<lambda>ok. shown ?A (if ok then insert (Exists p (Inr False)) K else K)) (shown ?A K)" for e
    by (auto intro!: triple_raise triple_then[OF stays_triple[OF stays_reply]] triple_return)
  show ?thesis unfolding cancel_remote_def
    by (rule triple_try[OF triple_bind[OF triple_exists_shown triple_then[OF drop again]] fail]) auto
qed

lemma triple_cancel_remotes:
  assumes "set ps \<subseteq> set (cancel_paths t)"
  shows "triple (shown (cancel_allowed E i t) K) (cancel_remotes E ps)
    (\<lambda>ok. shown (cancel_allowed E i t) (if ok then (\<lambda>p. Exists p (Inr False)) ` set ps \<union> K else {}))
    (shown (cancel_allowed E i t) {})"
  using assms
proof (induction ps arbitrary: K)
  case Nil
  then show ?case by (simp add: triple_return)
next
  case (Cons p ps)
  let ?A = "cancel_allowed E i t"
  have "triple (shown ?A (if ok then insert (Exists p (Inr False)) K else K))
      (if ok then cancel_remotes E ps else returnP False)
      (\<lambda>ok. shown ?A (if ok then (\<lambda>p. Exists p (Inr False)) ` set (p # ps) \<union> K else {})) (shown ?A {})" for ok
  proof (cases ok)
    case True
    have "triple (shown ?A (insert (Exists p (Inr False)) K)) (cancel_remotes E ps)
        (\<lambda>ok. shown ?A (if ok then (\<lambda>p. Exists p (Inr False)) ` set (p # ps) \<union> K else {})) (shown ?A {})"
      by (rule triple_conseq[OF Cons.IH[of "insert (Exists p (Inr False)) K"]]) (use Cons.prems in \<open>auto elim!: shown_mono split: if_splits\<close>)
    then show ?thesis using True by simp
  qed (auto intro!: triple_return intro: shown_mono)
  moreover have "triple (shown ?A K) (cancel_remote E p)
      (\<lambda>ok. shown ?A (if ok then insert (Exists p (Inr False)) K else K)) (shown ?A {})"
    by (rule triple_conseq[OF triple_cancel_remote[where K = K]]) (use Cons.prems in \<open>auto intro: shown_mono\<close>)
  ultimately show ?case by (simp add: triple_bind)
qed

lemma triple_cancel_file:
  assumes "\<And>tr r. gone t tr \<Longrightarrow> cancel_allowed E i t tr (act r)"
    and gone: "\<And>w. shown (cancel_allowed E i t) K w \<Longrightarrow> gone t (w_trace w)"
    and drop_it: "drop_it p = sync (\<lambda>n. e_unlink E n p) act"
  shows "triple (shown (cancel_allowed E i t) K) (cancel_file E drop_it p)
    (\<lambda>ok w. shown (cancel_allowed E i t) K w
       \<and> (ok \<longrightarrow> act (Inr ()) \<in> set (w_trace w) \<or> (\<exists>n. e_local E n p = None)))
    (shown (cancel_allowed E i t) K)"
proof -
  let ?A = "cancel_allowed E i t"
  let ?Q = "\<lambda>ok w. shown ?A K w \<and> (ok \<longrightarrow> act (Inr ()) \<in> set (w_trace w) \<or> (\<exists>n. e_local E n p = None))"
  have look: "triple (shown ?A K) (fileP E p) (\<lambda>r w. shown ?A K w \<and> (r = None \<longrightarrow> (\<exists>n. e_local E n p = None))) (shown ?A K)"
    by (auto simp: triple_def fileP_def shown_def)
  have drop: "triple (shown ?A K) (sync (\<lambda>n. e_unlink E n p) act) (\<lambda>_. shown ?A (insert (act (Inr ())) K)) (shown ?A K)"
    by (rule triple_conseq[OF triple_sync_shown[where B = "\<lambda>_. True"]]) (auto simp: assms)
  have body: "triple (\<lambda>w. shown ?A K w \<and> (r = None \<longrightarrow> (\<exists>n. e_local E n p = None)))
      (thenP (whenP (r \<noteq> None) (sync (\<lambda>n. e_unlink E n p) act)) (returnP True)) ?Q (shown ?A K)" for r
  proof (cases r)
    case None
    then show ?thesis by (auto simp: whenP_def triple_def thenP_def bindP_def returnP_def)
  next
    case (Some n)
    have "triple (\<lambda>w. shown ?A (insert (act (Inr ())) K) w) (returnP True) ?Q (shown ?A K)"
      by (rule triple_return) (auto simp: shown_def)
    with drop Some show ?thesis by (auto simp: whenP_def intro: triple_then)
  qed
  have fail: "triple (shown ?A K) (if is_os_error e then thenP (replyP E) (returnP False) else raiseP e) ?Q (shown ?A K)" for e
    by (intro triple_if triple_then[OF stays_triple[OF stays_reply]] triple_return triple_raise) auto
  show ?thesis unfolding cancel_file_def drop_it
    by (rule triple_try[OF triple_bind[OF look body] fail]) auto
qed

lemma triple_trans_shown:
  assumes "\<And>w. B w \<Longrightarrow> shown A K w \<Longrightarrow> A (w_trace w) (Persist i s asg)"
  shows "triple (\<lambda>w. B w \<and> shown A K w) (transP E i s asg) (\<lambda>_. shown A K) (shown A K)"
  using assms by (auto simp: triple_def transP_def shown_def split: sum.split)

lemma triple_cancel_rest:
  "triple (shown (cancel_allowed E i t) {}) (cancel_rest E i t) (\<lambda>_. shown (cancel_allowed E i t) {})
     (shown (cancel_allowed E i t) {})"
proof -
  let ?A = "cancel_allowed E i t"
  let ?K = "(\<lambda>p. Exists p (Inr False)) ` set (cancel_paths t)"
  have gone: "shown ?A ?K w \<Longrightarrow> gone t (w_trace w)" for w by (auto simp: shown_def gone_def)
  have weak: "shown ?A ?K w \<Longrightarrow> shown ?A {} w" for w by (auto simp: shown_def)
  define L where "L = (\<lambda>w. shown ?A ?K w \<and> local_gone E t (w_trace w))"
  have part: "triple L (cancel_file E (discardP E) (part_path (e_dir E) i)) (\<lambda>_. L) (shown ?A {})"
  proof -
    have "triple L (sync (\<lambda>n. e_unlink E n p) (Discard p)) (\<lambda>_. L) L" if "p = part_path (e_dir E) i" for p
      using that by (auto simp: L_def triple_def sync_def liftE_def shown_def gone_def local_gone_def split: sum.split)
    moreover have "triple L (replyP E) (\<lambda>_. L) L"
      by (auto simp: L_def triple_def replyP_def await_def liftE_def shown_def local_gone_def split: sum.split)
    moreover have "triple L (fileP E p) (\<lambda>_. L) L" for p
      by (auto simp: L_def triple_def fileP_def shown_def)
    ultimately have "triple L (cancel_file E (discardP E) (part_path (e_dir E) i)) (\<lambda>_. L) L"
      unfolding cancel_file_def discardP_def
      by (intro triple_try[where Y = L] triple_bind[where R = "\<lambda>_. L"] triple_then[where R = "\<lambda>_. L"] triple_if
          triple_return triple_raise)
        (auto simp: whenP_def intro: triple_return)
    then show ?thesis by (rule triple_conseq) (auto simp: L_def weak)
  qed
  have loc: "triple (shown ?A ?K) (case t_local_path t of None \<Rightarrow> returnP True
      | Some p \<Rightarrow> if p = [] then returnP True else cancel_file E (unlinkP E) p)
      (\<lambda>ok w. if ok then L w else shown ?A {} w) (shown ?A {})"
  proof (cases "t_local_path t = None \<or> t_local_path t = Some []")
    case True
    then show ?thesis by (auto simp: L_def local_gone_def intro!: triple_return)
  next
    case False
    then obtain p where p: "t_local_path t = Some p" "p \<noteq> []" by auto
    have "triple (shown ?A ?K) (cancel_file E (unlinkP E) p)
        (\<lambda>ok w. if ok then L w else shown ?A {} w) (shown ?A {})"
      by (rule triple_conseq[OF triple_cancel_file[where act = "Unlink p" and t = t and K = ?K]])
        (auto simp: gone weak L_def local_gone_def p unlinkP_def)
    with p show ?thesis by simp
  qed
  have final: "triple L (thenP (transP E i Cancelled cancelled_fields) (replyP E)) (\<lambda>_. shown ?A {}) (shown ?A {})"
  proof -
    have "triple (\<lambda>w. (gone t (w_trace w) \<and> local_gone E t (w_trace w)) \<and> shown ?A {} w)
        (transP E i Cancelled cancelled_fields) (\<lambda>_. shown ?A {}) (shown ?A {})"
      by (rule triple_trans_shown) simp
    then show ?thesis
      by (intro triple_then[where R = "\<lambda>_. shown ?A {}"] stays_triple[OF stays_reply])
        (auto elim!: triple_conseq simp: L_def gone weak)
  qed
  have stop: "triple (shown ?A {}) (returnP ()) (\<lambda>_. shown ?A {}) (shown ?A {})"
    by (rule triple_return)
  have "triple (\<lambda>w. if ok then L w else shown ?A {} w) (if \<not> ok then returnP () else
      bindP (cancel_file E (discardP E) (part_path (e_dir E) i)) (\<lambda>ok.
      if \<not> ok then returnP () else thenP (transP E i Cancelled cancelled_fields) (replyP E)))
      (\<lambda>_. shown ?A {}) (shown ?A {})" for ok
  proof (cases ok)
    case True
    have "triple L (if \<not> go then returnP () else thenP (transP E i Cancelled cancelled_fields) (replyP E))
        (\<lambda>_. shown ?A {}) (shown ?A {})" for go
      using final by (cases go) (auto intro!: triple_return simp: L_def weak)
    with True show ?thesis by (simp add: triple_bind[OF part])
  qed (simp add: stop)
  note rest = triple_bind[OF loc this]
  have "triple (shown ?A (if ok then ?K \<union> {} else {})) (if \<not> ok then returnP () else
      bindP (case t_local_path t of None \<Rightarrow> returnP True
        | Some p \<Rightarrow> if p = [] then returnP True else cancel_file E (unlinkP E) p) (\<lambda>ok.
      if \<not> ok then returnP () else
      bindP (cancel_file E (discardP E) (part_path (e_dir E) i)) (\<lambda>ok.
      if \<not> ok then returnP () else thenP (transP E i Cancelled cancelled_fields) (replyP E))))
      (\<lambda>_. shown ?A {}) (shown ?A {})" for ok
    using rest stop by (cases ok) simp_all
  then show ?thesis unfolding cancel_rest_def
    by (rule triple_bind[OF triple_cancel_remotes[OF subset_refl]])
qed

lemma triple_end:
  assumes "triple P p (\<lambda>_. Q) Q" "P w"
  shows "Q (snd (p w))"
proof -
  obtain r w' where r: "p w = (r, w')" by fastforce
  with assms show ?thesis unfolding triple_def by (cases r) (auto dest!: spec[of _ w])
qed

lemma cancel_rest_allowed:
  assumes "permits (cancel_allowed E i t) (w_trace w)"
  shows "permits (cancel_allowed E i t) (w_trace (snd (cancel_rest E i t w)))"
  using triple_end[OF triple_cancel_rest, of E i t w] assms by (simp add: shown_def)

text \<open>What the rest of the command does to the trace: nothing but replies.\<close>

definition effect :: "action \<Rightarrow> bool" where
  "effect a \<longleftrightarrow> a \<noteq> Notify \<and> a \<noteq> Other"

definition talks :: "world \<Rightarrow> world \<Rightarrow> bool" where
  "talks w w' \<longleftrightarrow> (\<forall>a \<in> set (w_trace w'). effect a \<longrightarrow> a \<in> set (w_trace w))"

lemma talks_refl: "talks w w"
  by (simp add: talks_def)

lemma talks_trans: "talks w w' \<Longrightarrow> talks w' w'' \<Longrightarrow> talks w w''"
  by (auto simp: talks_def)

lemma talks_calls: "talks w (snd (replyP E w))" "talks w (snd (waitP E w))" "talks w (snd (updateP E i asg w))"
  by (auto simp: talks_def replyP_def waitP_def await_def effect_def updateP_def)

lemma talks_then: "talks w (snd (p w)) \<Longrightarrow> (\<And>w. talks w (snd (q w))) \<Longrightarrow> talks w (snd (thenP p q w))"
  using talks_trans by (fastforce simp: thenP_def bindP_def split: outcome.splits prod.splits)

lemma talks_mark: "talks w (snd (cancel_mark E running i w))"
  unfolding cancel_mark_def
  by (rule talks_then[OF talks_calls(3)]) (simp add: whenP_def talks_calls returnP_def talks_refl)

lemma then_cases: "snd (thenP p q w) = snd (p w) \<or> snd (thenP p q w) = snd (q (snd (p w)))"
  by (auto simp: thenP_def bindP_def split: outcome.splits prod.splits)

lemma get_bind: "bindP (getP i) f w = f (get_task (w_db w) i) w"
  by (simp add: bindP_def getP_def)

lemma cancel_stopped_cases:
  obtains (talk) "talks w (snd (cancel_stopped E i w))"
  | (cancel) t where "get_task (w_db w) i = Some t" "\<not> needs_review t" "t_state t \<notin> FINISHED"
      "cancel_stopped E i w = cancel_rest E i t w"
proof (cases "get_task (w_db w) i")
  case None
  then show ?thesis by (intro talk) (simp add: cancel_stopped_def get_bind talks_calls)
next
  case (Some t)
  show ?thesis
  proof (cases "needs_review t \<or> t_state t \<in> FINISHED")
    case True
    with Some show ?thesis
      by (intro talk) (auto simp: cancel_stopped_def get_bind intro!: talks_then talks_calls)
  next
    case False
    with Some show ?thesis by (intro cancel[OF Some]) (auto simp: cancel_stopped_def get_bind)
  qed
qed

lemma cancel_task_cases:
  obtains (only) "talks w (snd (cancel_task E running i w))"
  | (cancels) t where "get_task (w_db (snd (cancel_mark E running i w))) i = Some t" "\<not> needs_review t"
      "t_state t \<notin> FINISHED"
      "snd (cancel_task E running i w) = snd (cancel_rest E i t (snd (cancel_mark E running i w)))"
proof -
  let ?m = "snd (cancel_mark E running i w)"
  note t = talks_mark[of w E running i]
  have "snd (cancel_task E running i w) \<in> {snd (replyP E w), ?m, snd (cancel_stopped E i ?m)}"
    using then_cases[of "cancel_mark E running i" "cancel_stopped E i" w]
    by (cases "get_task (w_db w) i") (auto simp: cancel_task_def get_bind)
  then consider (early) "snd (cancel_task E running i w) = snd (replyP E w)"
    | (stopped) "snd (cancel_task E running i w) = ?m"
    | (again) "snd (cancel_task E running i w) = snd (cancel_stopped E i ?m)"
    by blast
  then show thesis
  proof cases
    case again
    show ?thesis
    proof (cases rule: cancel_stopped_cases[of ?m E i])
      case talk
      from talks_trans[OF t this] again show ?thesis by (intro only) simp
    next
      case (cancel u)
      with again show ?thesis by (auto intro: cancels)
    qed
  qed (use t only in \<open>auto simp: talks_calls\<close>)
qed

text \<open>
  C16. Cancelling a task removes only what the task recorded, and claims success only when all of
  it is gone. Whatever fails, and whatever the other coroutines do: an object is removed on the
  remote only if it is a recorded path of the row that was read after its handler had stopped,
  right after it was seen there; the local copy and the partial download are removed only when
  every recorded path was seen absent; and Cancelled is stored only then and with the local copy
  gone. Nothing of this happens to a task that needs review, or that finished meanwhile.
\<close>

theorem cancel_is_thorough:
  assumes start: "w_trace w = []" and run: "w_trace (snd (cancel_task E running i w)) = xs @ a # ys"
    and eff: "effect a"
  shows "\<exists>t. get_task (w_db (snd (cancel_mark E running i w))) i = Some t
     \<and> \<not> needs_review t \<and> t_state t \<notin> FINISHED \<and> cancel_allowed E i t xs a"
  using run
proof (cases rule: cancel_task_cases[of w E running i])
  case only
  with start run eff show ?thesis by (auto simp: talks_def)
next
  case (cancels t)
  let ?m = "snd (cancel_mark E running i w)"
  have "set (w_trace ?m) \<subseteq> {Notify, Other}"
    using talks_mark[of w E running i] start by (auto simp: talks_def effect_def)
  then have "permits (cancel_allowed E i t) (w_trace ?m)"
    by (auto simp: permits_def)
  from cancel_rest_allowed[OF this] have "permits (cancel_allowed E i t) (xs @ a # ys)"
    using cancels(4) run by simp
  with cancels show ?thesis by (auto simp: permits_def)
qed

text \<open>A queued task with an upload on the remote, cancelled while everything answers at once.\<close>

definition ex_held :: task where
  "ex_held = (ex_task 1 Queued)\<lparr>t_remote_temp_path := Some (asc ''x''), t_local_path := Some [120]\<rparr>"

definition ex_clear :: env where
  "ex_clear = (ex_env False)\<lparr>e_exists := (\<lambda>n p. Inr (n \<le> 1))\<rparr>"

lemma ex_clear_simps [simp]:
  "e_exists ex_clear n p = Inr (n \<le> 1)" "e_others ex_clear n d = d" "e_time ex_clear n = 5"
  "e_remove ex_clear n p = Inr ()" "e_unlink ex_clear n p = Inr ()" "e_notify ex_clear n = Inr ()"
  "e_local ex_clear n p = Some 100" "e_dir ex_clear = []"
  by (simp_all add: ex_clear_def ex_env_def)

lemma no_review [simp]: "\<not> needs_review_of None None"
  by (simp add: needs_review_of_def review_prefixed_def asc_def)

lemma ex_held_simps [simp]:
  "t_id ex_held = 1" "t_state ex_held = Queued" "t_remote_temp_path ex_held = Some (asc ''x'')"
  "t_remote_final_path ex_held = None" "t_remote_path ex_held = None" "t_local_path ex_held = Some [120]"
  "\<not> needs_review ex_held" "t_failure_kind ex_held = None" "t_error ex_held = None"
  by (simp_all add: ex_held_def needs_review_def)

lemma ex_x [simp]: "asc ''x'' \<noteq> []" "[] \<noteq> asc ''x''"
  by (simp_all add: asc_def)

lemma ex_cancel_run:
  "w_trace (snd (cancel_task ex_clear False 1 (ex_world ex_held))) =
     [Exists (asc ''x'') (Inr True), Remove (asc ''x'') (Inr ()), Exists (asc ''x'') (Inr False),
      Unlink [120] (Inr ()), Discard (part_path [] 1) (Inr ()), Persist 1 Cancelled cancelled_fields, Notify]"
  by (simp add: cancel_task_def cancel_mark_def cancel_stopped_def cancel_rest_def cancel_paths_def
      recorded_paths_def path_text_def cancel_remote_def
      cancel_file_def run_simps replyP_def removeP_def ex_world_def ex_get FINISHED_def
      transition_def sets_state_def can_transition_def cancelled_fields_def assign_all_def
      update_def row_simps needs_review_def keyed_def)

theorem cancel_is_thorough_witness:
  "\<exists>t. get_task (w_db (snd (cancel_mark ex_clear False 1 (ex_world ex_held)))) 1 = Some t
     \<and> \<not> needs_review t \<and> t_state t \<notin> FINISHED
     \<and> cancel_allowed ex_clear 1 t [Exists (asc ''x'') (Inr True), Remove (asc ''x'') (Inr ()), Exists (asc ''x'') (Inr False)]
         (Unlink [120] (Inr ()))"
  by (rule cancel_is_thorough[where ys = "[Discard (part_path [] 1) (Inr ()), Persist 1 Cancelled cancelled_fields, Notify]"])
    (simp_all add: ex_cancel_run effect_def)

section \<open>Orphans: what is removed\<close>

text \<open>No live task owns \<open>p\<close> any more.\<close>

definition abandoned :: "ustr \<Rightarrow> taskdb \<Rightarrow> bool" where
  "abandoned p d \<longleftrightarrow> (\<exists>i. is_orphan_staging d i p)"

text \<open>Nothing outside \<open>S\<close> is removed, and not \<open>p\<close> while it stays in use.\<close>

definition tidy :: "ustr set \<Rightarrow> bool \<Rightarrow> ustr \<Rightarrow> world \<Rightarrow> bool" where
  "tidy S used p w \<longleftrightarrow> (\<forall>q r. Remove q r \<in> set (w_trace w) \<longrightarrow> q \<in> S \<and> (used \<longrightarrow> q \<noteq> p))
     \<and> (used \<longrightarrow> \<not> abandoned p (w_db w))"

definition stays_used :: "env \<Rightarrow> ustr \<Rightarrow> bool" where
  "stays_used E p \<longleftrightarrow> (\<forall>n d. \<not> abandoned p d \<longrightarrow> \<not> abandoned p (e_others E n d))"

lemma tidy_await:
  assumes "used \<longrightarrow> stays_used E p" "\<And>q r v. act v = Remove q r \<Longrightarrow> q \<in> S \<and> (used \<longrightarrow> q \<noteq> p)"
  shows "triple (tidy S used p) (await E f act) (\<lambda>_. tidy S used p) (tidy S used p)"
  using assms(1) assms(2)[OF sym]
  by (auto simp: triple_def await_def liftE_def tidy_def stays_used_def split: sum.split)

lemma triple_clean_one:
  assumes u: "used \<longrightarrow> stays_used E p" and q: "q \<in> S" "used \<longrightarrow> q \<noteq> p"
  shows "triple (tidy S used p) (clean_one E q) (\<lambda>_. tidy S used p) (tidy S used p)"
  unfolding clean_one_def removeP_def existsP_def replyP_def
  by (intro triple_try[where Y = "tidy S used p"] triple_then[where R = "\<lambda>_. tidy S used p"]
      triple_bind[where R = "\<lambda>_. tidy S used p"] triple_if triple_raise triple_return tidy_await u)
    (use q in auto)

lemma triple_clean_loop:
  assumes u: "used \<longrightarrow> stays_used E p" and "snd ` set os \<subseteq> S"
  shows "triple (tidy S used p) (clean_loop E now os) (\<lambda>_. tidy S used p) (tidy S used p)"
  using assms(2)
proof (induction os)
  case Nil
  show ?case unfolding clean_loop.simps replyP_def by (rule tidy_await[OF u]) auto
next
  case (Cons iq os)
  obtain i q where iq: "iq = (i, q)" by (cases iq)
  have look: "triple (tidy S used p) (dbP (\<lambda>d. (i, q) \<in> set now \<and> is_orphan_staging d i q))
      (\<lambda>go w. tidy S used p w \<and> (go \<longrightarrow> used \<longrightarrow> q \<noteq> p)) (tidy S used p)"
    by (auto simp: triple_def dbP_def tidy_def abandoned_def)
  have "triple (\<lambda>w. tidy S used p w \<and> (go \<longrightarrow> used \<longrightarrow> q \<noteq> p))
      (if \<not> go then clean_loop E now os
       else bindP (clean_one E q) (\<lambda>ok. if ok then clean_loop E now os else returnP ()))
      (\<lambda>_. tidy S used p) (tidy S used p)" for go
  proof (cases "go \<and> (used \<longrightarrow> q \<noteq> p)")
    case True
    then have "triple (tidy S used p) (clean_one E q) (\<lambda>_. tidy S used p) (tidy S used p)"
      using Cons.prems by (intro triple_clean_one[OF u]) (auto simp: iq)
    then have "triple (tidy S used p) (bindP (clean_one E q) (\<lambda>ok. if ok then clean_loop E now os else returnP ()))
        (\<lambda>_. tidy S used p) (tidy S used p)"
      by (rule triple_bind) (use Cons in \<open>auto intro: triple_return\<close>)
    with True show ?thesis by (auto elim: triple_conseq)
  next
    case False
    with Cons show ?thesis by (cases go) (auto simp: triple_def)
  qed
  then show ?case unfolding iq clean_loop.simps by (rule triple_bind[OF look])
qed

lemma triple_clean_plan:
  assumes u: "used \<longrightarrow> stays_used E p" and "snd ` set (k_objects plan) \<subseteq> S"
  shows "triple (tidy S used p) (clean_plan E scan plan) (\<lambda>_. tidy S used p) (tidy S used p)"
proof -
  let ?T = "tidy S used p"
  have db: "triple ?T (dbP f) (\<lambda>_. ?T) ?T" for f :: "taskdb \<Rightarrow> (int \<times> ustr) list"
    by (simp add: triple_def dbP_def)
  have "triple ?T (find_orphans E scan) (\<lambda>_. ?T) ?T"
    unfolding find_orphans_def
    by (rule triple_bind[OF tidy_await[OF u]]) (auto intro: triple_raise db)
  moreover have "triple ?T (replyP E) (\<lambda>_. ?T) ?T"
    unfolding replyP_def by (rule tidy_await[OF u]) auto
  ultimately have "triple ?T (tryP (bindP (find_orphans E scan) (\<lambda>os. returnP (Some os)))
      (\<lambda>e. if e = CancelledError then raiseP e else thenP (replyP E) (returnP None))) (\<lambda>_. ?T) ?T"
    by (intro triple_try[where Y = ?T] triple_bind[where R = "\<lambda>_. ?T"] triple_then[where R = "\<lambda>_. ?T"]
        triple_if triple_raise triple_return)
  then show ?thesis unfolding clean_plan_def
    by (rule triple_bind) (auto intro: triple_return triple_clean_loop[OF u assms(2)] split: option.split)
qed

lemma reply_tidy: "w_trace w = [] \<Longrightarrow> Remove p x \<notin> set (w_trace (snd (replyP E w)))"
  by (simp add: replyP_def await_def)

text \<open>
  C32. The clean-up of orphans removes only what was planned and confirmed: an object goes only with
  a plan that has not expired, whose code was repeated, and that contains it; the plan is
  consumed even when the clean-up fails half-way, so that no code works twice. An object that
  belongs to a task (recorded by it, protected, or named for a task that is not finished) is
  spared, although the plan named it, for as long as the task keeps it.
\<close>

theorem orphan_cleanup_confined:
  assumes run: "confirm_cleanup E scan now token (plan, w) = (r, plan', w')" and start: "w_trace w = []"
    and gone: "Remove p x \<in> set (w_trace w')"
  shows "(\<exists>pl. plan = Some pl \<and> k_token pl = token \<and> now \<le> k_expires pl \<and> p \<in> snd ` set (k_objects pl))
    \<and> plan' = None \<and> (stays_used E p \<longrightarrow> abandoned p (w_db w))"
proof (cases plan)
  case None
  then have "w' = snd (replyP E w)" using run by (auto simp: confirm_cleanup_def split: prod.splits)
  then show ?thesis using gone reply_tidy[OF start] by simp
next
  case (Some pl)
  have ok: "now \<le> k_expires pl" "k_token pl = token" and w': "w' = snd (clean_plan E scan pl w)" and "plan' = None"
    using run gone start Some reply_tidy[OF start, of p x E]
    by (auto simp: confirm_cleanup_def not_less split: prod.splits if_splits)
  define used where "used = (stays_used E p \<and> \<not> abandoned p (w_db w))"
  have "tidy (snd ` set (k_objects pl)) used p (snd (clean_plan E scan pl w))"
    by (rule triple_end[OF triple_clean_plan]) (auto simp: used_def tidy_def start)
  then show ?thesis using gone Some ok \<open>plan' = None\<close> unfolding w' tidy_def used_def by blast
qed

definition ex_orphan :: ustr where
  "ex_orphan = asc ''.uploading-7-a''"

definition ex_plan :: cleanup_plan where
  "ex_plan = orphan_plan (asc ''ab'') 0 [(7, ex_orphan)]"

lemma ex_clean_run:
  "confirm_cleanup ex_clear (\<lambda>n. Inr (True, [(7, ex_orphan)])) 10 (asc ''ab'') (Some ex_plan, ex_world ex_held)
    = (Done (), None, \<lparr>w_db = ex_db [ex_held], w_at = 4,
         w_trace = [Other, Remove ex_orphan (Inr ()), Exists ex_orphan (Inr False), Notify]\<rparr>)"
proof -
  have "staging_match (STAGING_PREFIX @ dec 7 @ 45 # asc ''a'') = Some 7"
    by (rule staging_match_dec) (simp_all add: asc_def staging_char_def)
  then have "is_orphan_staging (ex_db [ex_held]) 7 ex_orphan"
    by (simp add: is_orphan_staging_def ex_orphan_def STAGING_PREFIX_def asc_def dec_def dec_nat.simps
        protected_remote_def ex_get)
  then show ?thesis
    by (simp add: confirm_cleanup_def ex_plan_def orphan_plan_def asc_def clean_plan_def find_orphans_def
        clean_one_def run_simps replyP_def removeP_def ex_world_def ORPHAN_CLEANUP_LIMIT_def)
qed

theorem orphan_cleanup_confined_witness:
  "ex_orphan \<in> snd ` set (k_objects ex_plan) \<and> abandoned ex_orphan (ex_db [ex_held])"
  using orphan_cleanup_confined[OF ex_clean_run, of ex_orphan "Inr ()"]
  by (simp add: stays_used_def)

end
