(* ===== verification/Windows.thy ===== *)
theory Windows
  imports Messages
begin

text \<open>
  The feedback that decides how much may run at once: \<open>AdaptiveWindow\<close> of
  \<open>src/tg2cloud/monitoring/resources.py\<close>, \<open>DownloadBackoff\<close> of \<open>listening/transport.py\<close>, and the
  pause between probes of \<open>transfer/destination.py\<close>. Each keeps a small state; the interface
  \<open>throttle\<close> says what they share: a limit that never passes what it is given.

  Floats of the code are rationals here; \<open>math.floor\<close> is the floor.
\<close>

section \<open>The adaptive window\<close>

text \<open>The settings it reads (\<open>config.Settings\<close>) and one sample (\<open>ResourceSnapshot\<close>).\<close>

record control =
  c_memory_hard :: int
  c_memory_soft :: int
  c_min_free :: int
  c_interval :: rat
  c_cpu_low :: rat
  c_cpu_high :: rat
  c_cpu_pressure :: rat
  c_step :: int
  c_factor :: rat

record sample =
  s_cpu :: rat
  s_memory :: int
  s_disk :: int
  s_network :: rat

record window =
  v_download :: bool
  v_value :: int
  v_last_rate :: rat
  v_cycles :: nat
  v_next_growth :: rat
  v_trial :: "(int \<times> rat) option"

definition new_window :: "bool \<Rightarrow> window" where
  "new_window download = \<lparr>v_download = download, v_value = 1, v_last_rate = 0, v_cycles = 0,
     v_next_growth = 0, v_trial = None\<rparr>"

definition memory_ceiling :: "int \<Rightarrow> int" where
  "memory_ceiling memory = max 1 (memory div (32 * 1024 ^ 2))"

text \<open>The keyword arguments of one update.\<close>

record demand =
  m_errors :: int
  m_healthy :: bool
  m_present :: bool
  m_throughput :: "rat option"
  m_active :: "int option"
  m_backlog :: bool

definition hard_stop :: "control \<Rightarrow> window \<Rightarrow> sample \<Rightarrow> demand \<Rightarrow> bool" where
  "hard_stop c v s m \<longleftrightarrow> s_memory s < c_memory_hard c \<or> \<not> m_healthy m
     \<or> (v_download v \<and> s_disk s \<le> c_min_free c)"

definition rate_of :: "sample \<Rightarrow> demand \<Rightarrow> rat" where
  "rate_of s m = (case m_throughput m of None \<Rightarrow> s_network s | Some r \<Rightarrow> r)"

definition pause :: "control \<Rightarrow> rat \<Rightarrow> rat \<Rightarrow> rat" where
  "pause c least factor = max least (c_interval c * factor)"

text \<open>A growth that did not raise the throughput by five percent is taken back.\<close>

definition settle_trial :: "control \<Rightarrow> rat \<Rightarrow> rat \<Rightarrow> window \<Rightarrow> window" where
  "settle_trial c now rate v = (case v_trial v of
     None \<Rightarrow> v
   | Some (prev_value, prev_rate) \<Rightarrow>
      if now < v_next_growth v then v
      else if 0 < prev_rate \<and> rate < prev_rate * (105 / 100)
      then v\<lparr>v_value := min (v_value v) prev_value, v_next_growth := now + pause c 30 10, v_trial := None\<rparr>
      else v\<lparr>v_trial := None\<rparr>)"

definition count_pressure :: "control \<Rightarrow> sample \<Rightarrow> demand \<Rightarrow> window \<Rightarrow> window" where
  "count_pressure c s m v =
    (if c_cpu_pressure c \<le> s_cpu s \<or> 3 \<le> m_errors m then v\<lparr>v_cycles := v_cycles v + 1\<rparr>
     else v\<lparr>v_cycles := 0\<rparr>)"

definition shrink :: "control \<Rightarrow> rat \<Rightarrow> int \<Rightarrow> window \<Rightarrow> window" where
  "shrink c now n v = v\<lparr>v_value := n, v_trial := None, v_next_growth := now + pause c 10 3\<rparr>"

definition may_grow :: "control \<Rightarrow> rat \<Rightarrow> rat \<Rightarrow> sample \<Rightarrow> demand \<Rightarrow> window \<Rightarrow> bool" where
  "may_grow c now rate s m v \<longleftrightarrow> m_present m \<and> s_cpu s < c_cpu_low c \<and> m_errors m = 0 \<and> \<not> m_backlog m
     \<and> v_next_growth v \<le> now
     \<and> (case m_active m of None \<Rightarrow> True | Some n \<Rightarrow> max 1 (v_value v) \<le> n) \<and> 0 < rate"

definition grow :: "control \<Rightarrow> rat \<Rightarrow> rat \<Rightarrow> window \<Rightarrow> window" where
  "grow c now rate v =
    (if v_last_rate v \<le> 0 \<or> v_last_rate v * (90 / 100) \<le> rate
     then v\<lparr>v_trial := Some (max 1 (v_value v), rate), v_value := v_value v + c_step c,
            v_next_growth := now + pause c 10 3\<rparr>
     else v)"

definition adjust :: "control \<Rightarrow> rat \<Rightarrow> rat \<Rightarrow> sample \<Rightarrow> demand \<Rightarrow> window \<Rightarrow> window" where
  "adjust c now rate s m v =
    (if 2 \<le> v_cycles v
     then shrink c now (max 1 \<lfloor>of_int (max 1 (v_value v)) * c_factor c\<rfloor>) v
     else if (s_cpu s < c_cpu_pressure c \<and> c_cpu_high c < s_cpu s) \<or> s_memory s < c_memory_soft c
     then shrink c now (max 1 (v_value v - 1)) v
     else if may_grow c now rate s m v then grow c now rate v
     else v)"

definition window_update :: "control \<Rightarrow> rat \<Rightarrow> sample \<Rightarrow> demand \<Rightarrow> window \<Rightarrow> window" where
  "window_update c now s m v =
    (if hard_stop c v s m then v\<lparr>v_value := 0, v_trial := None\<rparr>
     else if \<not> m_present m then v\<lparr>v_value := 1, v_trial := None\<rparr>
     else let rate = rate_of s m;
              v' = adjust c now rate s m (count_pressure c s m (settle_trial c now rate v))
          in v'\<lparr>v_value := min (max 1 (v_value v')) (memory_ceiling (s_memory s)), v_last_rate := rate\<rparr>)"

section \<open>The backoff of listener downloads\<close>

record backoff =
  b_cap :: "int option"
  b_reduced :: "rat option"
  b_recover :: rat

definition new_backoff :: backoff where
  "new_backoff = \<lparr>b_cap = None, b_reduced = None, b_recover = 0\<rparr>"

definition REDUCE_INTERVAL :: rat where "REDUCE_INTERVAL = 30"
definition RECOVER_INTERVAL :: rat where "RECOVER_INTERVAL = 60"

definition limited :: "rat \<Rightarrow> int \<Rightarrow> backoff \<Rightarrow> backoff" where
  "limited now total_window b =
    (let b = b\<lparr>b_recover := now + RECOVER_INTERVAL\<rparr> in
     if (case b_reduced b of None \<Rightarrow> True | Some r \<Rightarrow> REDUCE_INTERVAL \<le> now - r)
     then let current = (case b_cap b of None \<Rightarrow> max 1 total_window | Some k \<Rightarrow> min (max 1 total_window) k)
          in b\<lparr>b_cap := Some (max 1 (current div 2)), b_reduced := Some now\<rparr>
     else b)"

definition allowed_slots :: "rat \<Rightarrow> int \<Rightarrow> backoff \<Rightarrow> int \<times> backoff" where
  "allowed_slots now window_size b =
    (let n = max 0 window_size in
     case b_cap b of
       None \<Rightarrow> (n, b)
     | Some k \<Rightarrow>
        if n = 0 then (n, b)
        else if b_recover b \<le> now
        then (if n \<le> k + 1 then (n, b\<lparr>b_cap := None, b_recover := now + RECOVER_INTERVAL, b_reduced := None\<rparr>)
              else (min n (k + 1), b\<lparr>b_cap := Some (k + 1), b_recover := now + RECOVER_INTERVAL\<rparr>))
        else (min n k, b))"

section \<open>The pause between probes\<close>

text \<open>How a probe ended: its answer, a timeout, or another exception.\<close>

datatype probe_end = Answered bool ustr ustr ustr | ProbeTimeout | ProbeFailed

record destination =
  p_healthy :: bool
  p_scope :: ustr
  p_error :: ustr
  p_kind :: ustr
  p_checked :: rat
  p_next :: rat
  p_failures :: int

definition probe_result :: "probe_end \<Rightarrow> destination \<Rightarrow> destination" where
  "probe_result r p = (case r of
     Answered ok scope detail kind \<Rightarrow> p\<lparr>p_healthy := ok, p_scope := scope, p_error := detail, p_kind := kind\<rparr>
   | ProbeTimeout \<Rightarrow> p\<lparr>p_healthy := False, p_scope := asc ''unknown'', p_error := msg_probe_timeout, p_kind := []\<rparr>
   | ProbeFailed \<Rightarrow> p\<lparr>p_healthy := False, p_scope := asc ''unknown'', p_error := msg_probe_failed, p_kind := []\<rparr>)"

definition cooldown :: "rat \<Rightarrow> destination \<Rightarrow> rat \<times> int" where
  "cooldown interval p =
    (if p_kind p = asc ''rate_limited''
     then let failures = min 5 (p_failures p + 1) in (min 900 (60 * 2 ^ nat (failures - 1)), failures)
     else (if p_kind p \<in> {asc ''unauthorized'', asc ''permission''} then 300
           else if p_healthy p then min 10 interval else interval, 0))"

text \<open>\<open>before\<close> and \<open>after\<close> are the monotonic clock around the probe, \<open>wall\<close> the time of day.\<close>

definition probe_once ::
  "bool \<Rightarrow> rat \<Rightarrow> rat \<Rightarrow> rat \<Rightarrow> rat \<Rightarrow> probe_end \<Rightarrow> destination \<Rightarrow> destination" where
  "probe_once openlist interval before wall after r p =
    (if openlist \<and> before < p_next p then p
     else let p = (probe_result r p)\<lparr>p_checked := wall\<rparr> in
       if openlist then p\<lparr>p_failures := snd (cooldown interval p), p_next := after + fst (cooldown interval p)\<rparr>
       else p)"

section \<open>The interface\<close>

text \<open>A throttle answers every event with a limit between nothing and a ceiling.\<close>

locale throttle =
  fixes ok :: "'s \<Rightarrow> bool" and step :: "'e \<Rightarrow> 's \<Rightarrow> 's" and limit :: "'e \<Rightarrow> 's \<Rightarrow> int"
    and ceiling_of :: "'e \<Rightarrow> int"
  assumes ok_step: "ok s \<Longrightarrow> ok (step e s)"
    and limit_nonneg: "ok s \<Longrightarrow> 0 \<le> limit e s"
    and limit_le: "ok s \<Longrightarrow> 0 \<le> ceiling_of e \<Longrightarrow> limit e s \<le> ceiling_of e"
begin

lemma on_run: "ok s \<Longrightarrow> ok (fold step es s)"
  by (induction es arbitrary: s) (auto intro: ok_step)

lemma run_limit:
  "ok s \<Longrightarrow> 0 \<le> ceiling_of e \<Longrightarrow> 0 \<le> limit e (fold step es s) \<and> limit e (fold step es s) \<le> ceiling_of e"
  using limit_nonneg limit_le on_run by blast

end

section \<open>The window\<close>

lemma memory_ceiling_pos: "1 \<le> memory_ceiling n"
  by (simp add: memory_ceiling_def)

lemma window_update_range:
  "v_value (window_update c now s m v) = 0 \<or>
    (1 \<le> v_value (window_update c now s m v) \<and> v_value (window_update c now s m v) \<le> memory_ceiling (s_memory s))"
  using memory_ceiling_pos[of "s_memory s"] by (auto simp: window_update_def Let_def)

type_synonym window_event = "control \<times> rat \<times> sample \<times> demand"

definition window_step :: "window_event \<Rightarrow> window \<Rightarrow> window" where
  "window_step e v = (case e of (c, now, s, m) \<Rightarrow> window_update c now s m v)"

lemma window_step_range:
  "0 \<le> v_value (window_step e v) \<and> v_value (window_step e v) \<le> memory_ceiling (s_memory (fst (snd (snd e))))"
  using window_update_range[of "fst e" "fst (snd e)" "fst (snd (snd e))" "snd (snd (snd e))" v]
    memory_ceiling_pos[of "s_memory (fst (snd (snd e)))"]
  by (auto simp: window_step_def split: prod.split)

interpretation window: throttle "\<lambda>v. 0 \<le> v_value v" window_step "\<lambda>e v. v_value (window_step e v)"
  "\<lambda>e. memory_ceiling (s_memory (fst (snd (snd e))))"
  by unfold_locales (simp_all add: window_step_range)

lemma settle_value: "v_value (settle_trial c now r v) \<le> v_value v"
  by (auto simp: settle_trial_def split: option.split prod.split)

lemma settle_next: "v_trial v = None \<Longrightarrow> settle_trial c now r v = v"
  by (simp add: settle_trial_def)

lemma count_simps [simp]:
  "v_value (count_pressure c s m v) = v_value v" "v_next_growth (count_pressure c s m v) = v_next_growth v"
  "v_trial (count_pressure c s m v) = v_trial v" "v_last_rate (count_pressure c s m v) = v_last_rate v"
  by (simp_all add: count_pressure_def)

lemma shrunk_le:
  assumes "0 \<le> c_factor c" "c_factor c \<le> 1"
  shows "\<lfloor>of_int (max 1 n) * c_factor c\<rfloor> \<le> max 1 n"
proof -
  have "of_int (max 1 n) * c_factor c \<le> of_int (max 1 n)"
    using assms by (intro mult_left_le) auto
  from floor_mono[OF this] show ?thesis by (simp only: floor_of_int)
qed

lemma adjust_cases:
  assumes f: "0 \<le> c_factor c" "c_factor c \<le> 1"
  obtains (down) n where "adjust c now r s m v = shrink c now (max 1 n) v" "n \<le> max 1 (v_value v)"
  | (up) "may_grow c now r s m v" "adjust c now r s m v = grow c now r v"
  | (same) "adjust c now r s m v = v"
proof -
  have "v_value v - 1 \<le> max 1 (v_value v)" by simp
  with that shrunk_le[OF f, of "v_value v"] show thesis
    unfolding adjust_def by metis
qed

lemma adjust_le:
  assumes "0 \<le> c_step c" "0 \<le> c_factor c" "c_factor c \<le> 1"
  shows "max 1 (v_value (adjust c now r s m v)) \<le> max 1 (v_value v) + c_step c"
  by (rule adjust_cases[OF assms(2,3), of now r s m v])
    (use assms(1) in \<open>auto simp: shrink_def grow_def\<close>)

lemma grown_next:
  assumes "0 \<le> c_factor c" "c_factor c \<le> 1" "max 1 (v_value u) < v_value (adjust c now r s m u)"
  shows "v_next_growth u \<le> now \<and> now + 10 \<le> v_next_growth (adjust c now r s m u)"
  by (rule adjust_cases[OF assms(1,2), of now r s m u])
    (use assms(3) in \<open>auto simp: shrink_def grow_def may_grow_def pause_def\<close>)

lemma settle_grown:
  "v_next_growth (settle_trial c now r v) \<le> now \<Longrightarrow> v_next_growth v \<le> now"
  by (auto simp: settle_trial_def pause_def split: option.splits prod.splits if_splits)

text \<open>
  The number of transfers that may run follows the resources: it is zero exactly when memory,
  destination or (for downloads) disk forbid any transfer, otherwise it is between one and the
  ceiling that the free memory gives; one update raises it by at most the configured step, only
  when the pause after the last change has passed, and then starts a pause of at least ten seconds.
\<close>

theorem window_follows_resources:
  assumes "0 \<le> c_step c" "0 \<le> c_factor c" "c_factor c \<le> 1"
  shows "(v_value (window_update c now s m v) = 0 \<longleftrightarrow> hard_stop c v s m)
    \<and> v_value (window_update c now s m v) \<le> memory_ceiling (s_memory s)
    \<and> v_value (window_update c now s m v) \<le> max 1 (v_value v) + c_step c
    \<and> (max 1 (v_value v) < v_value (window_update c now s m v) \<longrightarrow>
         v_next_growth v \<le> now \<and> now + 10 \<le> v_next_growth (window_update c now s m v))"
proof -
  let ?u = "count_pressure c s m (settle_trial c now (rate_of s m) v)"
  let ?a = "adjust c now (rate_of s m) s m ?u"
  have le: "v_value ?u \<le> v_value v" using settle_value by simp
  have "max 1 (v_value ?a) \<le> max 1 (v_value ?u) + c_step c" by (rule adjust_le[OF assms])
  with le have step: "max 1 (v_value ?a) \<le> max 1 (v_value v) + c_step c" by linarith
  have later: "v_next_growth v \<le> now \<and> now + 10 \<le> v_next_growth ?a" if "max 1 (v_value v) < v_value ?a"
    using grown_next[OF assms(2,3), of ?u now "rate_of s m" s m] that le settle_grown[of c now "rate_of s m" v]
    by auto
  show ?thesis
    using window_step_range[of "(c, now, s, m)" v] memory_ceiling_pos[of "s_memory s"] step later
    by (auto simp: window_update_def window_step_def Let_def)
qed

theorem window_follows_resources_witness:
  "v_value (window_update \<lparr>c_memory_hard = 1, c_memory_soft = 2, c_min_free = 3, c_interval = 3, c_cpu_low = 60,
       c_cpu_high = 80, c_cpu_pressure = 90, c_step = 1, c_factor = 1 / 2\<rparr> 5
     \<lparr>s_cpu = 20, s_memory = 10 ^ 9, s_disk = 100, s_network = 7\<rparr>
     \<lparr>m_errors = 0, m_healthy = True, m_present = True, m_throughput = None, m_active = Some 1, m_backlog = False\<rparr>
     (new_window True)) \<le> max 1 (v_value (new_window True)) + 1"
  using window_follows_resources[of "\<lparr>c_memory_hard = 1, c_memory_soft = 2, c_min_free = 3, c_interval = 3,
       c_cpu_low = 60, c_cpu_high = 80, c_cpu_pressure = 90, c_step = 1, c_factor = 1 / 2\<rparr>"] by simp

section \<open>The backoff\<close>

datatype backoff_event = Limited rat int | Asked rat int

definition backoff_ok :: "backoff \<Rightarrow> bool" where
  "backoff_ok b \<longleftrightarrow> (case b_cap b of None \<Rightarrow> True | Some k \<Rightarrow> 1 \<le> k)"

fun backoff_step :: "backoff_event \<Rightarrow> backoff \<Rightarrow> backoff" where
  "backoff_step (Limited now n) b = limited now n b"
| "backoff_step (Asked now n) b = snd (allowed_slots now n b)"

fun event_window :: "backoff_event \<Rightarrow> int" where
  "event_window (Limited now n) = n"
| "event_window (Asked now n) = n"

fun event_time :: "backoff_event \<Rightarrow> rat" where
  "event_time (Limited now n) = now"
| "event_time (Asked now n) = now"

lemma limited_ok: "backoff_ok (limited now n b)" if "backoff_ok b"
  using that by (auto simp: limited_def backoff_ok_def Let_def split: option.splits)

lemma asked_ok: "backoff_ok (snd (allowed_slots now n b))" if "backoff_ok b"
  using that by (auto simp: allowed_slots_def backoff_ok_def Let_def split: option.splits)

lemma allowed_range: "backoff_ok b \<Longrightarrow> 0 \<le> fst (allowed_slots now n b) \<and> fst (allowed_slots now n b) \<le> max 0 n"
  by (auto simp: allowed_slots_def backoff_ok_def Let_def split: option.splits)

interpretation backoff: throttle backoff_ok backoff_step "\<lambda>e b. fst (allowed_slots (event_time e) (event_window e) b)"
  event_window
proof
  fix e b assume ok: "backoff_ok b"
  show "backoff_ok (backoff_step e b)" using limited_ok[OF ok] asked_ok[OF ok] by (cases e) auto
  show "0 \<le> fst (allowed_slots (event_time e) (event_window e) b)" using allowed_range[OF ok] by simp
next
  fix e b assume "backoff_ok b" "0 \<le> event_window e"
  then show "fst (allowed_slots (event_time e) (event_window e) b) \<le> event_window e"
    using allowed_range[of b "event_time e" "event_window e"] by simp
qed

text \<open>
  A rate limit of Telegram halves the listener downloads once and lets them return: after a
  wait signal that finds no cap in force at most half of the window (but at least one) is admitted
  during the next minute, further signals within thirty seconds change nothing, and the number
  admitted never passes the window itself.
\<close>

theorem backoff_halves_once:
  assumes b: "b = fold backoff_step es new_backoff"
    and first: "b_reduced b = None" "b_cap b = None"
    and n: "1 \<le> n" and t: "t \<le> t'" "t' < t + 30" and u: "u < t' + 60"
  shows "b_cap (limited t' n (limited t n b)) = Some (max 1 (n div 2))
    \<and> fst (allowed_slots u n (limited t' n (limited t n b))) \<le> max 1 (n div 2)
    \<and> 1 \<le> fst (allowed_slots u n (limited t' n (limited t n b)))
    \<and> (\<forall>e. 0 \<le> event_window e \<longrightarrow> fst (allowed_slots (event_time e) (event_window e) b) \<le> event_window e)"
proof -
  have "backoff_ok new_backoff" by (simp add: new_backoff_def backoff_ok_def)
  from backoff.run_limit[OF this] have "\<forall>e. 0 \<le> event_window e \<longrightarrow>
      fst (allowed_slots (event_time e) (event_window e) b) \<le> event_window e"
    unfolding b by blast
  moreover have "max 1 (max 1 n div 2) = max 1 (n div 2)" using n by simp
  ultimately show ?thesis
    using first n t u by (auto simp: limited_def allowed_slots_def REDUCE_INTERVAL_def RECOVER_INTERVAL_def Let_def)
qed

theorem backoff_halves_once_witness:
  "b_cap (limited 10 5 (limited 3 5 new_backoff)) = Some 2"
  using backoff_halves_once[of new_backoff "[]" 5 3 10 12] by (simp add: new_backoff_def)

fun asked_at :: "int \<Rightarrow> rat list \<Rightarrow> backoff \<Rightarrow> backoff" where
  "asked_at n [] b = b"
| "asked_at n (t # ts) b = asked_at n ts (snd (allowed_slots t n b))"

text \<open>Each question at least a minute after the previous one, the first after the recovery time.\<close>

fun a_minute_apart :: "rat \<Rightarrow> rat list \<Rightarrow> bool" where
  "a_minute_apart since [] = True"
| "a_minute_apart since (t # ts) = (since \<le> t \<and> a_minute_apart (t + 60) ts)"

text \<open>
  The reduction ends: when no further wait is signalled, asking once a minute lifts the cap by
  one each time, and after as many questions as slots are missing the window is whole again.
\<close>

theorem backoff_recovers:
  assumes "b_cap b = Some k" "1 \<le> n" "a_minute_apart (b_recover b) ts" "n \<le> k + int (length ts)" "ts \<noteq> []"
  shows "b_cap (asked_at n ts b) = None"
  using assms
proof (induction ts arbitrary: b k)
  case (Cons t ts)
  have none: "b_cap (asked_at n us c) = None" if "b_cap c = None" for us c
    using that by (induction us arbitrary: c) (auto simp: allowed_slots_def Let_def)
  show ?case
  proof (cases "n \<le> k + 1")
    case True
    with Cons.prems show ?thesis
      by (auto simp: allowed_slots_def Let_def intro!: none)
  next
    case False
    let ?b = "b\<lparr>b_cap := Some (k + 1), b_recover := t + 60\<rparr>"
    have "snd (allowed_slots t n b) = ?b"
      using Cons.prems False by (simp add: allowed_slots_def Let_def RECOVER_INTERVAL_def)
    moreover have "b_cap (asked_at n ts ?b) = None"
      using Cons.prems False by (intro Cons.IH[of ?b "k + 1"]) auto
    ultimately show ?thesis by simp
  qed
qed simp

theorem backoff_recovers_witness:
  "b_cap (asked_at 5 [70, 130, 190] (limited 3 5 new_backoff)) = None"
proof (rule backoff_recovers)
  show "b_cap (limited 3 5 new_backoff) = Some 2" by (simp add: limited_def new_backoff_def Let_def)
qed (simp_all add: limited_def new_backoff_def Let_def RECOVER_INTERVAL_def)

end
