(* ===== verification/Scheduler.thy ===== *)
theory Scheduler
  imports Safety Windows "HOL-Library.AList"
begin

text \<open>
  The scheduler, \<open>src/tg2cloud/transfer/scheduler.py\<close>, with the account record that it reads
  (\<open>listening/account.py\<close>): which queued tasks get a download or stream handler, and which
  downloaded ones an upload handler.

  A round walks through the tasks page by page and lets the other coroutines run between two
  pages. They are the parameter \<open>x_others\<close>: in the theorems they may change the database and end
  handlers, but only the scheduler starts them. The clock is read once per visited task.
\<close>

section \<open>The account record\<close>

definition lbl_not_logged_in :: ustr where
  "lbl_not_logged_in = [26410, 30331, 24405]"

definition account_default :: json where
  "account_default = JObj [(asc ''enabled'', JBool False), (asc ''account'', JNull), (asc ''status'', JStr lbl_not_logged_in)]"

definition account_state :: "taskdb \<Rightarrow> exc + json" where
  "account_state d = (case d_meta d ACCOUNT_KEY of
     None \<Rightarrow> Inr account_default
   | Some (n, parsed) \<Rightarrow> (case parsed of None \<Rightarrow> Inl (ValueError []) | Some j \<Rightarrow> Inr j))"

text \<open>Equality of dictionaries does not depend on the order of their members.\<close>

definition same_record :: "json \<Rightarrow> json \<Rightarrow> bool" where
  "same_record a b = (case (as_obj a, as_obj b) of
     (Some xs, Some ys) \<Rightarrow> keys_of xs = keys_of ys \<and> (\<forall>(k, v) \<in> set xs. map_of xs k = map_of ys k)
   | _ \<Rightarrow> a = b)"

definition write_account ::
  "platform \<Rightarrow> json option \<Rightarrow> (ustr \<times> json) list \<Rightarrow> taskdb \<Rightarrow> exc + json option \<times> taskdb" where
  "write_account P expected changes d = bindE (account_state d) (\<lambda>current.
     if (case expected of None \<Rightarrow> False | Some e \<Rightarrow> \<not> same_record current e) then Inr (None, d)
     else case as_obj current of
       None \<Rightarrow> Inl (TypeError [])
     | Some ms \<Rightarrow> let v = JObj (update_members ms changes) in Inr (Some v, write_meta P ACCOUNT_KEY v d))"

text \<open>A value compared with a number.\<close>

fun json_greater :: "json \<Rightarrow> rat \<Rightarrow> exc + bool" where
  "json_greater (JBool b) q = Inr (q < (if b then 1 else 0))"
| "json_greater (JInt i) q = Inr (q < of_int i)"
| "json_greater (JFloat r) q = Inr (q < r)"
| "json_greater JNan q = Inr False"
| "json_greater (JInf negative) q = Inr (\<not> negative)"
| "json_greater j q = Inl (TypeError [])"

section \<open>State\<close>

record snapshot =
  sn_at :: rat
  sn_disk :: int
  sn_filesystems :: "int list"

record scheduler =
  h_db :: taskdb
  h_at :: nat
  h_downloads :: "int list"
  h_uploads :: "int list"
  h_download_window :: int
  h_upload_window :: int
  h_snapshot :: "snapshot option"
  h_healthy :: bool
  h_checked :: rat
  h_client :: bool
  h_backoff :: "backoff option"
  h_pause_reason :: ustr

record limits_of =
  x_interval :: rat
  x_health_interval :: rat
  x_budget :: int
  x_min_free :: int
  x_clock :: "nat \<Rightarrow> rat"
  x_mono :: "nat \<Rightarrow> rat"
  x_free :: "nat \<Rightarrow> exc + int"
  x_others :: "nat \<Rightarrow> scheduler \<Rightarrow> scheduler"

type_synonym 'a sched = "scheduler \<Rightarrow> 'a outcome \<times> scheduler"

definition returnS :: "'a \<Rightarrow> 'a sched" where
  "returnS a h = (Done a, h)"

definition bindS :: "'a sched \<Rightarrow> ('a \<Rightarrow> 'b sched) \<Rightarrow> 'b sched" where
  "bindS p f h = (case p h of (Done a, h') \<Rightarrow> f a h' | (Raised e, h') \<Rightarrow> (Raised e, h') | (Stuck, h') \<Rightarrow> (Stuck, h'))"

definition readS :: "(scheduler \<Rightarrow> exc + 'a) \<Rightarrow> 'a sched" where
  "readS f h = (liftE (f h), h)"

definition stepS :: "(scheduler \<Rightarrow> 'a \<times> scheduler) \<Rightarrow> 'a sched" where
  "stepS f h = (Done (fst (f h)), (snd (f h))\<lparr>h_at := Suc (h_at (snd (f h)))\<rparr>)"

definition putS :: "(scheduler \<Rightarrow> scheduler) \<Rightarrow> unit sched" where
  "putS f h = (Done (), f h)"

text \<open>A program that first looks at the state.\<close>

definition lookS :: "(scheduler \<Rightarrow> 'a sched) \<Rightarrow> 'a sched" where
  "lookS f h = f h h"

text \<open>\<open>asyncio.sleep(0)\<close>.\<close>

definition pauseS :: "limits_of \<Rightarrow> unit sched" where
  "pauseS G h = (Done (), (x_others G (h_at h) h)\<lparr>h_at := Suc (h_at h)\<rparr>)"

definition dbS :: "(taskdb \<Rightarrow> 'a \<times> taskdb) \<Rightarrow> 'a sched" where
  "dbS f = stepS (\<lambda>h. (fst (f (h_db h)), h\<lparr>h_db := snd (f (h_db h))\<rparr>))"

section \<open>Conditions\<close>

definition sample_fresh :: "limits_of \<Rightarrow> scheduler \<Rightarrow> bool" where
  "sample_fresh G h = (case h_snapshot h of None \<Rightarrow> False
     | Some s \<Rightarrow> 0 \<le> x_clock G (h_at h) - sn_at s \<and> x_clock G (h_at h) - sn_at s \<le> max 10 (x_interval G * 3))"

definition destination_ready :: "limits_of \<Rightarrow> scheduler \<Rightarrow> bool" where
  "destination_ready G h \<longleftrightarrow> h_healthy h \<and> 0 \<le> x_clock G (h_at h) - h_checked h
     \<and> x_clock G (h_at h) - h_checked h \<le> x_health_interval G + 45"

definition is_stream :: "taskdb \<Rightarrow> int \<Rightarrow> bool" where
  "is_stream d i = (case get_task d i of None \<Rightarrow> False | Some t \<Rightarrow> t_transfer_mode t = StreamMode)"

definition stream_count :: "scheduler \<Rightarrow> int" where
  "stream_count h = int (length (filter (is_stream (h_db h)) (h_downloads h)))"

definition errors_in_last_minute :: "rat \<Rightarrow> rat list \<Rightarrow> nat \<times> rat list" where
  "errors_in_last_minute now errors = (let kept = dropWhile (\<lambda>e. e < now - 60) errors in (length kept, kept))"

section \<open>Pages\<close>

definition PAGE :: nat where "PAGE = 200"

definition is_listener_task :: "task \<Rightarrow> bool" where
  "is_listener_task t \<longleftrightarrow> t_read_identity t \<noteq> BOT"

definition in_order :: "task list \<Rightarrow> task list" where
  "in_order ts = sort_key t_id (filter (\<lambda>t. \<not> is_listener_task t) ts) @ sort_key t_id (filter is_listener_task ts)"

text \<open>A page of \<open>_queued_batches\<close>: its tasks in order, and the cursor for the next page.\<close>

definition page :: "limits_of \<Rightarrow> task_state list \<Rightarrow> int \<Rightarrow> scheduler \<Rightarrow> (task list \<times> int) option" where
  "page G states after h =
    (let batch = list_states (h_db h) (x_clock G (h_at h)) states PAGE True after None in
     if batch = [] then None else Some (in_order batch, t_id (last batch)))"

section \<open>Starting downloads\<close>

definition wait_for :: "limits_of \<Rightarrow> int \<Rightarrow> ustr \<Rightarrow> task_state list \<Rightarrow> bool sched" where
  "wait_for G i reason states = lookS (\<lambda>h. dbS (set_wait_reason i reason states (x_clock G (h_at h))))"

definition listener_active :: "scheduler \<Rightarrow> int" where
  "listener_active h = int (length (filter (\<lambda>i. case get_task (h_db h) i of None \<Rightarrow> False
     | Some t \<Rightarrow> is_listener_task t) (h_downloads h)))"

definition listener_off :: "limits_of \<Rightarrow> json \<Rightarrow> scheduler \<Rightarrow> exc + bool" where
  "listener_off G account h =
    (if \<not> h_client h then Inr True
     else case jfind account (asc ''enabled'') of
       None \<Rightarrow> Inl (KeyError (asc ''enabled''))
     | Some v \<Rightarrow> if \<not> json_true v then Inr True
        else json_greater (case jfind account (asc ''cooldown_until'') of None \<Rightarrow> JInt 0 | Some c \<Rightarrow> c)
               (x_clock G (h_at h)))"

definition ask_backoff :: "limits_of \<Rightarrow> scheduler \<Rightarrow> int \<times> scheduler" where
  "ask_backoff G h = (case h_backoff h of
     None \<Rightarrow> (h_download_window h, h)
   | Some b \<Rightarrow> (let (n, b') = allowed_slots (x_mono G (h_at h)) (h_download_window h) b in (n, h\<lparr>h_backoff := Some b'\<rparr>)))"

text \<open>For a listener task: whether it has to wait, and the count of active listener downloads.\<close>

definition listener_gate :: "limits_of \<Rightarrow> int \<Rightarrow> int option \<Rightarrow> (bool \<times> int option) sched" where
  "listener_gate G i active =
    bindS (readS (\<lambda>h. bindE (account_state (h_db h)) (\<lambda>a. listener_off G a h))) (\<lambda>off.
    if off then bindS (wait_for G i msg_wait_listener [Queued]) (\<lambda>_. returnS (True, active))
    else bindS (stepS (ask_backoff G)) (\<lambda>n. lookS (\<lambda>h.
      if h_download_window h \<le> n then returnS (False, active)
      else let count = (case active of None \<Rightarrow> listener_active h | Some k \<Rightarrow> k) in
        if n \<le> count then bindS (wait_for G i msg_wait_backoff [Queued]) (\<lambda>_. returnS (True, Some count))
        else returnS (False, Some count))))"

definition free_bytes :: "limits_of \<Rightarrow> scheduler \<Rightarrow> exc + int" where
  "free_bytes G h = bindE (x_free G (h_at h)) (\<lambda>n. Inr (min (sn_disk (the (h_snapshot h))) n))"

definition stream_gate :: "limits_of \<Rightarrow> task \<Rightarrow> scheduler \<Rightarrow> bool" where
  "stream_gate G t h \<longleftrightarrow> (t_transfer_mode t = StreamMode \<or> x_budget G < t_file_size t)
     \<and> h_upload_window h \<le> int (length (h_uploads h)) + stream_count h"

definition reserve_and_start :: "limits_of \<Rightarrow> task \<Rightarrow> int option \<Rightarrow> (bool \<times> int option) sched" where
  "reserve_and_start G t active =
    bindS (readS (free_bytes G)) (\<lambda>free.
    bindS (lookS (\<lambda>h. dbS (reserve (t_id t) (x_budget G) free (x_min_free G) (x_clock G (h_at h))))) (\<lambda>(reserved, reason).
    if \<not> reserved then returnS (False, active)
    else stepS (\<lambda>h. ((True, if is_listener_task t then map_option (\<lambda>k. k + 1) active else active),
                     h\<lparr>h_downloads := h_downloads h @ [t_id t]\<rparr>))))"

definition try_download :: "limits_of \<Rightarrow> task \<Rightarrow> int option \<Rightarrow> (bool \<times> int option) sched" where
  "try_download G t active = lookS (\<lambda>h.
     if t_id t \<in> set (h_downloads h) then returnS (False, active)
     else bindS (if is_listener_task t then listener_gate G (t_id t) active else returnS (False, active))
       (\<lambda>(wait, active). if wait then returnS (False, active)
         else lookS (\<lambda>h. if stream_gate G t h
           then bindS (wait_for G (t_id t) msg_wait_window [Queued]) (\<lambda>_. returnS (False, active))
           else reserve_and_start G t active)))"

text \<open>One page; \<open>None\<close> where the code returns because no slot is left.\<close>

fun download_page :: "limits_of \<Rightarrow> task list \<Rightarrow> int \<Rightarrow> int option \<Rightarrow> (int \<times> int option) option sched" where
  "download_page G [] slots active = returnS (Some (slots, active))"
| "download_page G (t # ts) slots active =
    (if slots \<le> 0 then returnS None
     else bindS (try_download G t active) (\<lambda>(started, active).
       download_page G ts (if started then slots - 1 else slots) active))"

definition stuckS :: "'a sched" where
  "stuckS h = (Stuck, h)"

fun download_pages :: "nat \<Rightarrow> limits_of \<Rightarrow> int \<Rightarrow> int \<Rightarrow> int option \<Rightarrow> unit sched" where
  "download_pages 0 G after slots active = stuckS"
| "download_pages (Suc fuel) G after slots active = lookS (\<lambda>h.
     case page G [Queued] after h of
       None \<Rightarrow> returnS ()
     | Some (batch, cursor) \<Rightarrow>
        bindS (pauseS G) (\<lambda>_. lookS (\<lambda>h.
          if \<not> sample_fresh G h \<or> \<not> destination_ready G h \<or> is_paused (h_db h) then returnS ()
          else bindS (download_page G batch slots active) (\<lambda>r. case r of
              None \<Rightarrow> returnS ()
            | Some (slots, active) \<Rightarrow> download_pages fuel G cursor slots active))))"

definition start_downloads :: "nat \<Rightarrow> limits_of \<Rightarrow> unit sched" where
  "start_downloads fuel G = lookS (\<lambda>h.
     if \<not> h_healthy h \<or> \<not> sample_fresh G h \<or> \<not> destination_ready G h then returnS ()
     else if is_paused (h_db h) then returnS ()
     else if list_ex (\<lambda>free. free \<le> x_min_free G) (sn_filesystems (the (h_snapshot h)))
       then putS (\<lambda>h. h\<lparr>h_pause_reason := msg_filesystem\<rparr>)
     else bindS (putS (\<lambda>h. h\<lparr>h_pause_reason := []\<rparr>)) (\<lambda>_.
       let slots = h_download_window h - int (length (h_downloads h)) in
       if slots \<le> 0 then returnS () else download_pages fuel G 0 slots None))"

section \<open>Starting uploads\<close>

definition try_upload :: "limits_of \<Rightarrow> task_state list \<Rightarrow> task \<Rightarrow> bool sched" where
  "try_upload G states t = lookS (\<lambda>h.
     let i = t_id t in
     case get_task (h_db h) i of
       None \<Rightarrow> returnS False
     | Some current \<Rightarrow>
        if t_cancel_requested current \<or> t_state current \<notin> set states then returnS False
        else if is_paused (h_db h) \<and> t_state t \<noteq> CleanupPending then returnS False
        else if i \<in> set (h_uploads h) then returnS False
        else bindS (dbS (admit_upload i)) (\<lambda>ok.
          if \<not> ok then bindS (wait_for G i msg_wait_member [WaitingUpload, Downloaded]) (\<lambda>_. returnS False)
          else stepS (\<lambda>h. (True, h\<lparr>h_uploads := h_uploads h @ [i]\<rparr>))))"

fun upload_page :: "limits_of \<Rightarrow> task_state list \<Rightarrow> task list \<Rightarrow> int \<Rightarrow> int option sched" where
  "upload_page G states [] slots = returnS (Some slots)"
| "upload_page G states (t # ts) slots =
    (if slots \<le> 0 then returnS None
     else bindS (try_upload G states t) (\<lambda>started. upload_page G states ts (if started then slots - 1 else slots)))"

fun upload_pages :: "nat \<Rightarrow> limits_of \<Rightarrow> task_state list \<Rightarrow> int \<Rightarrow> int \<Rightarrow> unit sched" where
  "upload_pages 0 G states after slots = stuckS"
| "upload_pages (Suc fuel) G states after slots = lookS (\<lambda>h.
     case page G states after h of
       None \<Rightarrow> returnS ()
     | Some (batch, cursor) \<Rightarrow>
        bindS (pauseS G) (\<lambda>_. lookS (\<lambda>h.
          if \<not> sample_fresh G h \<or> \<not> destination_ready G h then returnS ()
          else bindS (upload_page G states batch slots) (\<lambda>r. case r of
              None \<Rightarrow> returnS ()
            | Some slots \<Rightarrow> upload_pages fuel G states cursor slots))))"

definition upload_states :: "taskdb \<Rightarrow> task_state list" where
  "upload_states d = (if is_paused d then [CleanupPending] else [CleanupPending, WaitingUpload, Downloaded])"

definition start_uploads :: "nat \<Rightarrow> limits_of \<Rightarrow> unit sched" where
  "start_uploads fuel G = lookS (\<lambda>h.
     if \<not> h_healthy h \<or> \<not> sample_fresh G h \<or> \<not> destination_ready G h then returnS ()
     else let slots = h_upload_window h - int (length (h_uploads h)) - stream_count h in
       if slots \<le> 0 then returnS () else upload_pages fuel G (upload_states (h_db h)) 0 slots)"

section \<open>The resource loop\<close>

text \<open>
  When the disk is at its margin, all downloads are cancelled (they end during the pause, as far as
  the other coroutines let them); what is queued again gets its counter reset.
\<close>

fun reset_queued :: "limits_of \<Rightarrow> int list \<Rightarrow> scheduler \<Rightarrow> nat \<times> scheduler" where
  "reset_queued G [] h = (0, h)"
| "reset_queued G (i # is) h =
    (case get_task (h_db h) i of
       Some t \<Rightarrow>
         if t_state t = Queued
         then let (n, h') = reset_queued G is (h\<lparr>h_db := update i [ADownloaded 0, AWait (Some msg_disk_paused)]
                (x_clock G (h_at h)) (h_db h)\<rparr>) in (Suc n, h')
         else reset_queued G is h
     | None \<Rightarrow> reset_queued G is h)"

definition enforce_disk_emergency :: "limits_of \<Rightarrow> nat sched" where
  "enforce_disk_emergency G = lookS (\<lambda>h.
     if (case h_snapshot h of None \<Rightarrow> True | Some s \<Rightarrow> x_min_free G < sn_disk s) \<or> h_downloads h = []
     then returnS 0
     else bindS (pauseS G) (\<lambda>_. stepS (reset_queued G (h_downloads h))))"

text \<open>The last measured progress of each handler, and the rate of a stage.\<close>

record progress =
  pr_stage :: ustr
  pr_bytes :: int
  pr_at :: rat
  pr_started :: rat
  pr_speed :: "rat option"

definition record_progress ::
  "rat \<Rightarrow> int \<Rightarrow> ustr \<Rightarrow> int \<Rightarrow> rat option \<Rightarrow> bool \<Rightarrow> (int \<times> progress) list \<Rightarrow> (int \<times> progress) list" where
  "record_progress now i stage count speed restart ps =
    (let fresh = \<lparr>pr_stage = stage, pr_bytes = 0, pr_at = now, pr_started = now, pr_speed = None\<rparr>;
         old = (case map_of ps i of None \<Rightarrow> fresh
           | Some p \<Rightarrow> if restart \<or> pr_stage p \<noteq> stage \<or> count < pr_bytes p then fresh else p);
         measured = (if pr_at old < now then Some (of_int (max 0 (count - pr_bytes old)) / (now - pr_at old)) else None);
         v = (case speed of None \<Rightarrow> measured | Some r \<Rightarrow> Some r);
         entry = \<lparr>pr_stage = stage, pr_bytes = count, pr_at = now, pr_started = pr_started old,
           pr_speed = (case v of None \<Rightarrow> None | Some r \<Rightarrow> if 0 \<le> r then Some r else None)\<rparr>
     in AList.update i entry ps)"

definition stage_rate :: "rat \<Rightarrow> ustr \<Rightarrow> (int \<times> progress) list \<Rightarrow> rat" where
  "stage_rate now stage ps = sum_list (map (\<lambda>p. case pr_speed p of None \<Rightarrow> 0 | Some r \<Rightarrow> r)
     (filter (\<lambda>p. pr_stage p = stage \<and> 0 \<le> now - pr_at p \<and> now - pr_at p \<le> 20) (map snd ps)))"

record gauges =
  gg_download :: window
  gg_upload :: window
  gg_download_errors :: "rat list"
  gg_upload_errors :: "rat list"
  gg_progress :: "(int \<times> progress) list"

definition download_demand :: "scheduler \<Rightarrow> bool" where
  "download_demand h \<longleftrightarrow> h_downloads h \<noteq> [] \<or> 0 < count_states (h_db h) [Queued, Reserved, Downloading, Streaming]"

definition upload_demand :: "scheduler \<Rightarrow> bool" where
  "upload_demand h \<longleftrightarrow> h_uploads h \<noteq> []
     \<or> 0 < count_states (h_db h) [Downloaded, WaitingUpload, CleanupPending, Uploading, Verifying, Finalizing]
     \<or> 0 < stream_count h"

definition resource_windows :: "control \<Rightarrow> limits_of \<Rightarrow> rat \<Rightarrow> sample \<Rightarrow> scheduler \<Rightarrow> gauges \<Rightarrow> gauges \<times> scheduler" where
  "resource_windows c G now s h g =
    (let (nd, ds) = errors_in_last_minute (x_clock G (h_at h)) (gg_download_errors g);
         (nu, us) = errors_in_last_minute (x_clock G (h_at h)) (gg_upload_errors g);
         rate = (\<lambda>stage. stage_rate now (asc stage) (gg_progress g));
         down = window_update c now s \<lparr>m_errors = int nd, m_healthy = destination_ready G h, m_present = download_demand h,
           m_throughput = Some (rate ''download'' + rate ''stream''), m_active = Some (int (length (h_downloads h))),
           m_backlog = (of_int (x_budget G) * (8 / 10) \<le> (of_int (used_local_bytes (h_db h)) :: rat))\<rparr> (gg_download g);
         up = window_update c now s \<lparr>m_errors = int nu, m_healthy = destination_ready G h, m_present = upload_demand h,
           m_throughput = Some (rate ''upload'' + rate ''stream''),
           m_active = Some (int (length (h_uploads h)) + stream_count h), m_backlog = False\<rparr> (gg_upload g)
     in (g\<lparr>gg_download := down, gg_upload := up, gg_download_errors := ds, gg_upload_errors := us\<rparr>,
         h\<lparr>h_download_window := v_value down, h_upload_window := v_value up\<rparr>))"

section \<open>Preserving a property\<close>

definition keepS :: "(scheduler \<Rightarrow> bool) \<Rightarrow> 'a sched \<Rightarrow> bool" where
  "keepS J p \<longleftrightarrow> (\<forall>h. J h \<longrightarrow> J (snd (p h)))"

lemma keepS_return: "keepS J (returnS a)"
  by (simp add: keepS_def returnS_def)

lemma keepS_bind: "keepS J p \<Longrightarrow> (\<And>a. keepS J (f a)) \<Longrightarrow> keepS J (bindS p f)"
  unfolding keepS_def bindS_def by (fastforce split: outcome.splits prod.splits)

lemma keepS_read: "keepS J (readS f)"
  by (simp add: keepS_def readS_def)

lemma keepS_put: "(\<And>h. J h \<Longrightarrow> J (f h)) \<Longrightarrow> keepS J (putS f)"
  by (simp add: keepS_def putS_def)

lemma keepS_stuck: "keepS J stuckS"
  by (simp add: keepS_def stuckS_def)

lemma keepS_if: "(b \<Longrightarrow> keepS J p) \<Longrightarrow> (\<not> b \<Longrightarrow> keepS J q) \<Longrightarrow> keepS J (if b then p else q)"
  by simp

lemma keepS_option:
  "(r = None \<Longrightarrow> keepS J p) \<Longrightarrow> (\<And>a. r = Some a \<Longrightarrow> keepS J (q a)) \<Longrightarrow>
    keepS J (case r of None \<Rightarrow> p | Some a \<Rightarrow> q a)"
  by (cases r) auto

lemma keepS_pair: "(\<And>a b. r = (a, b) \<Longrightarrow> keepS J (q a b)) \<Longrightarrow> keepS J (case r of (a, b) \<Rightarrow> q a b)"
  by (cases r) auto

lemma keepS_look: "(\<And>h. keepS J (p h)) \<Longrightarrow> keepS J (lookS p)"
  by (simp add: keepS_def lookS_def)

section \<open>The interface\<close>

text \<open>
  What a round can do to the state. A property that survives each of these steps survives every
  round, whatever fails and whenever the other coroutines act.
\<close>

locale round_invariant =
  fixes G :: limits_of and J :: "scheduler \<Rightarrow> bool"
  assumes j_wait: "J h \<Longrightarrow> J (h\<lparr>h_db := snd (set_wait_reason i r ss now (h_db h))\<rparr>)"
    and j_reserve: "J h \<Longrightarrow> J (h\<lparr>h_db := snd (reserve i budget free minimum now (h_db h))\<rparr>)"
    and j_admit: "J h \<Longrightarrow> J (h\<lparr>h_db := snd (admit_upload i (h_db h))\<rparr>)"
    and j_tick: "J h \<Longrightarrow> J (h\<lparr>h_at := n\<rparr>)"
    and j_backoff: "J h \<Longrightarrow> J (h\<lparr>h_backoff := b\<rparr>)"
    and j_reason: "J h \<Longrightarrow> J (h\<lparr>h_pause_reason := x\<rparr>)"
    and j_others: "J h \<Longrightarrow> J (x_others G n h)"
    and j_download: "J h \<Longrightarrow> J (h\<lparr>h_downloads := h_downloads h @ [i]\<rparr>)"
    and j_upload: "J h \<Longrightarrow> J (h\<lparr>h_uploads := h_uploads h @ [i]\<rparr>)"
begin

lemma keepS_step: "(\<And>h. J h \<Longrightarrow> J (snd (f h))) \<Longrightarrow> keepS J (stepS f)"
  by (simp add: keepS_def stepS_def j_tick)

lemma keepS_pause: "keepS J (pauseS G)"
  by (simp add: keepS_def pauseS_def j_tick j_others)

lemma keepS_db: "(\<And>h. J h \<Longrightarrow> J (h\<lparr>h_db := snd (f (h_db h))\<rparr>)) \<Longrightarrow> keepS J (dbS f)"
  unfolding dbS_def by (rule keepS_step) simp

lemma keepS_wait: "keepS J (wait_for G' i r ss)"
  unfolding wait_for_def by (intro keepS_look keepS_db j_wait)

lemma keepS_backoff: "keepS J (stepS (ask_backoff G'))"
  by (rule keepS_step) (auto simp: ask_backoff_def j_backoff split: option.split prod.split)

lemmas keepS_rules = keepS_bind keepS_read keepS_look keepS_if keepS_option keepS_pair keepS_wait keepS_return
  keepS_backoff keepS_pause keepS_stuck

lemma keepS_gate: "keepS J (listener_gate G' i active)"
  unfolding listener_gate_def Let_def by (intro keepS_rules)

lemma keepS_reserve: "keepS J (reserve_and_start G' t active)"
  unfolding reserve_and_start_def
  by (intro keepS_rules keepS_db j_reserve keepS_step) (simp_all add: j_download)

lemma keepS_try_download: "keepS J (try_download G' t active)"
  unfolding try_download_def by (intro keepS_rules keepS_gate keepS_reserve)

lemma keepS_download_page: "keepS J (download_page G' ts slots active)"
proof (induction ts arbitrary: slots active)
  case (Cons t ts)
  show ?case unfolding download_page.simps by (intro keepS_rules keepS_try_download Cons)
qed (simp add: keepS_return)

lemma keepS_download_pages: "keepS J (download_pages fuel G after slots active)"
proof (induction fuel arbitrary: after slots active)
  case (Suc fuel)
  show ?case unfolding download_pages.simps by (intro keepS_rules keepS_download_page Suc)
qed (simp add: keepS_stuck)

lemma on_downloads: "J h \<Longrightarrow> J (snd (start_downloads fuel G h))"
proof -
  have "keepS J (start_downloads fuel G)"
    unfolding start_downloads_def Let_def by (intro keepS_rules keepS_put keepS_download_pages) (auto intro: j_reason)
  then show "J h \<Longrightarrow> J (snd (start_downloads fuel G h))" by (simp add: keepS_def)
qed

lemma keepS_try_upload: "keepS J (try_upload G' states t)"
  unfolding try_upload_def Let_def by (intro keepS_rules keepS_db j_admit keepS_step) (simp_all add: j_upload)

lemma keepS_upload_page: "keepS J (upload_page G' states ts slots)"
proof (induction ts arbitrary: slots)
  case (Cons t ts)
  show ?case unfolding upload_page.simps by (intro keepS_rules keepS_try_upload Cons)
qed (simp add: keepS_return)

lemma keepS_upload_pages: "keepS J (upload_pages fuel G states after slots)"
proof (induction fuel arbitrary: after slots)
  case (Suc fuel)
  show ?case unfolding upload_pages.simps by (intro keepS_rules keepS_upload_page Suc)
qed (simp add: keepS_stuck)

lemma on_uploads: "J h \<Longrightarrow> J (snd (start_uploads fuel G h))"
proof -
  have "keepS J (start_uploads fuel G)"
    unfolding start_uploads_def Let_def by (intro keepS_rules keepS_upload_pages)
  then show "J h \<Longrightarrow> J (snd (start_uploads fuel G h))" by (simp add: keepS_def)
qed

end

section \<open>Slots\<close>

definition tripleS ::
  "(scheduler \<Rightarrow> bool) \<Rightarrow> 'a sched \<Rightarrow> ('a \<Rightarrow> scheduler \<Rightarrow> bool) \<Rightarrow> (scheduler \<Rightarrow> bool) \<Rightarrow> bool" where
  "tripleS P p Q X \<longleftrightarrow> (\<forall>h. P h \<longrightarrow> (case p h of (Done a, h') \<Rightarrow> Q a h' | (Raised e, h') \<Rightarrow> X h' | (Stuck, h') \<Rightarrow> X h'))"

lemma tripleS_return: "(\<And>h. P h \<Longrightarrow> Q a h) \<Longrightarrow> tripleS P (returnS a) Q X"
  by (simp add: tripleS_def returnS_def)

lemma tripleS_bind: "tripleS P p R X \<Longrightarrow> (\<And>a. tripleS (R a) (f a) Q X) \<Longrightarrow> tripleS P (bindS p f) Q X"
  unfolding tripleS_def bindS_def by (fastforce split: outcome.splits prod.splits)

lemma tripleS_look: "(\<And>h. P h \<Longrightarrow> tripleS (\<lambda>h'. P h' \<and> h' = h) (p h) Q X) \<Longrightarrow> tripleS P (lookS p) Q X"
  by (auto simp: tripleS_def lookS_def)

lemma tripleS_conseq:
  assumes "tripleS P' p Q' X'" "\<And>h. P h \<Longrightarrow> P' h" "\<And>a h. Q' a h \<Longrightarrow> Q a h" "\<And>h. X' h \<Longrightarrow> X h"
  shows "tripleS P p Q X"
  using assms unfolding tripleS_def by (fastforce split: outcome.splits prod.splits)

lemma tripleS_pre: "tripleS P p Q X \<Longrightarrow> (\<And>h. P' h \<Longrightarrow> P h) \<Longrightarrow> tripleS P' p Q X"
  by (simp add: tripleS_def)

lemma tripleS_look': "(\<And>h. tripleS P (p h) Q X) \<Longrightarrow> tripleS P (lookS p) Q X"
  by (simp add: tripleS_def lookS_def)

lemma tripleS_if: "tripleS P p Q X \<Longrightarrow> tripleS P q Q X \<Longrightarrow> tripleS P (if b then p else q) Q X"
  by simp

lemma tripleS_option:
  "tripleS P p Q X \<Longrightarrow> (\<And>a. tripleS P (q a) Q X) \<Longrightarrow> tripleS P (case r of None \<Rightarrow> p | Some a \<Rightarrow> q a) Q X"
  by (cases r) auto

lemma tripleS_pair: "(\<And>a b. tripleS P (q a b) Q X) \<Longrightarrow> tripleS P (case r of (a, b) \<Rightarrow> q a b) Q X"
  by (cases r) auto

lemma tripleS_keeps: "keepS J p \<Longrightarrow> tripleS J p (\<lambda>_. J) J"
  by (auto simp: keepS_def tripleS_def split: outcome.splits prod.splits)

lemma tripleS_end:
  assumes "tripleS P p (\<lambda>_. Q) Q" "P h"
  shows "Q (snd (p h))"
proof -
  obtain r h' where r: "p h = (r, h')" by fastforce
  with assms show ?thesis unfolding tripleS_def by (cases r) (auto dest!: spec[of _ h])
qed

text \<open>Waiting, asking the backoff and reserving start no handler.\<close>

definition running :: "int list \<Rightarrow> int list \<Rightarrow> scheduler \<Rightarrow> bool" where
  "running D U h \<longleftrightarrow> h_downloads h = D \<and> h_uploads h = U"

lemma quiet_step: "(\<And>h. running D U (snd (f h)) = running D U h) \<Longrightarrow> keepS (running D U) (stepS f)"
  by (simp add: keepS_def stepS_def running_def)

lemma quiet_db: "keepS (running D U) (dbS f)"
  unfolding dbS_def by (rule quiet_step) (simp add: running_def)

lemma quiet_wait: "keepS (running D U) (wait_for G i r ss)"
  unfolding wait_for_def by (intro keepS_look quiet_db)

lemma quiet_gate: "keepS (running D U) (listener_gate G i active)"
  unfolding listener_gate_def Let_def
  by (intro keepS_bind keepS_read keepS_look keepS_if keepS_return quiet_wait quiet_step)
    (auto simp: ask_backoff_def running_def split: option.split prod.split)

lemma reserve_starts:
  "tripleS (running D U) (reserve_and_start G t active)
    (\<lambda>r. running (if fst r then D @ [t_id t] else D) U) (running D U)"
proof -
  have 1: "tripleS (running D U) (stepS (\<lambda>h. ((True, a), h\<lparr>h_downloads := h_downloads h @ [t_id t]\<rparr>)))
      (\<lambda>r. running (if fst r then D @ [t_id t] else D) U) (running D U)" for a :: "int option"
    by (simp add: tripleS_def stepS_def running_def)
  show ?thesis unfolding reserve_and_start_def
    by (intro tripleS_bind[OF tripleS_keeps[OF keepS_read]] tripleS_bind[OF tripleS_keeps[OF keepS_look[OF quiet_db]]])
      (auto intro: tripleS_return 1 split: prod.split)
qed

lemma try_download_starts:
  "tripleS (running D U) (try_download G t active)
    (\<lambda>r h. running (if fst r then D @ [t_id t] else D) U h \<and> (fst r \<longrightarrow> t_id t \<notin> set D)) (running D U)"
  unfolding try_download_def
proof (rule tripleS_look)
  fix h assume h: "running D U h"
  let ?Q = "\<lambda>r h. running (if fst r then D @ [t_id t] else D) U h \<and> (fst r \<longrightarrow> t_id t \<notin> set D)"
  have gate: "keepS (running D U) (if is_listener_task t then listener_gate G (t_id t) active else returnS (False, active))"
    by (intro keepS_if quiet_gate keepS_return)
  have rest: "tripleS (running D U) (if wait then returnS (False, active) else lookS (\<lambda>h. if stream_gate G t h
           then bindS (wait_for G (t_id t) msg_wait_window [Queued]) (\<lambda>_. returnS (False, active))
           else reserve_and_start G t active)) ?Q (running D U)" if "t_id t \<notin> set D" for wait active
  proof (cases wait)
    case False
    have "tripleS (\<lambda>h'. running D U h' \<and> h' = h) (if stream_gate G t h
           then bindS (wait_for G (t_id t) msg_wait_window [Queued]) (\<lambda>_. returnS (False, active))
           else reserve_and_start G t active) ?Q (running D U)" for h
    proof (cases "stream_gate G t h")
      case True
      have "tripleS (running D U) (bindS (wait_for G (t_id t) msg_wait_window [Queued]) (\<lambda>_. returnS (False, active)))
          ?Q (running D U)"
        by (rule tripleS_bind[OF tripleS_keeps[OF quiet_wait]]) (auto intro: tripleS_return)
      with True show ?thesis by (auto elim: tripleS_conseq)
    next
      case False
      then show ?thesis using that
        by (simp, intro tripleS_conseq[OF reserve_starts[of D U G t active]]) auto
    qed
    with False show ?thesis by (simp add: tripleS_look)
  qed (auto intro: tripleS_return)
  show "tripleS (\<lambda>h'. running D U h' \<and> h' = h) (if t_id t \<in> set (h_downloads h) then returnS (False, active)
     else bindS (if is_listener_task t then listener_gate G (t_id t) active else returnS (False, active))
       (\<lambda>(wait, active). if wait then returnS (False, active)
         else lookS (\<lambda>h. if stream_gate G t h
           then bindS (wait_for G (t_id t) msg_wait_window [Queued]) (\<lambda>_. returnS (False, active))
           else reserve_and_start G t active))) ?Q (running D U)"
  proof (cases "t_id t \<in> set D")
    case True
    with h show ?thesis by (auto simp: running_def intro: tripleS_return)
  next
    case False
    have "tripleS (running D U) (bindS (if is_listener_task t then listener_gate G (t_id t) active else returnS (False, active))
       (\<lambda>(wait, active). if wait then returnS (False, active)
         else lookS (\<lambda>h. if stream_gate G t h
           then bindS (wait_for G (t_id t) msg_wait_window [Queued]) (\<lambda>_. returnS (False, active))
           else reserve_and_start G t active))) ?Q (running D U)"
      by (rule tripleS_bind[OF tripleS_keeps[OF gate]]) (simp only: case_prod_beta, rule rest[OF False])
    moreover have "h_downloads h = D" using h by (simp add: running_def)
    ultimately show ?thesis using False by (simp only: if_False) (erule tripleS_pre, simp)
  qed
qed

text \<open>\<open>room f M n\<close>: no handler is listed twice, and with \<open>n\<close> more there are at most \<open>M\<close>.\<close>

definition room :: "(scheduler \<Rightarrow> int list) \<Rightarrow> int \<Rightarrow> int \<Rightarrow> scheduler \<Rightarrow> bool" where
  "room f M n h \<longleftrightarrow> distinct (f h) \<and> int (length (f h)) + max 0 n \<le> M"

lemma room_less: "room f M n h \<Longrightarrow> m \<le> n \<Longrightarrow> room f M m h"
  by (auto simp: room_def)

lemma room_zero: "room f M n h \<Longrightarrow> room f M 0 h"
  by (auto simp: room_def)

text \<open>The other coroutines start no handlers.\<close>

definition only_ends :: "limits_of \<Rightarrow> bool" where
  "only_ends G \<longleftrightarrow> (\<forall>n h. set (h_downloads (x_others G n h)) \<subseteq> set (h_downloads h)
     \<and> set (h_uploads (x_others G n h)) \<subseteq> set (h_uploads h)
     \<and> (distinct (h_downloads h) \<longrightarrow> distinct (h_downloads (x_others G n h)))
     \<and> (distinct (h_uploads h) \<longrightarrow> distinct (h_uploads (x_others G n h))))"

lemma shorter: "distinct ys \<Longrightarrow> set ys \<subseteq> set xs \<Longrightarrow> int (length ys) \<le> int (length xs)"
  using card_length[of xs] card_mono[of "set xs" "set ys"] by (simp add: distinct_card)

lemma room_others:
  assumes "only_ends G"
  shows "keepS (room h_downloads M n) (pauseS G)" "keepS (room h_uploads M n) (pauseS G)"
proof -
  have "room h_downloads M n (x_others G k h)" if "room h_downloads M n h" for h k
    using assms that shorter[of "h_downloads (x_others G k h)" "h_downloads h"] by (auto simp: only_ends_def room_def)
  moreover have "room h_uploads M n (x_others G k h)" if "room h_uploads M n h" for h k
    using assms that shorter[of "h_uploads (x_others G k h)" "h_uploads h"] by (auto simp: only_ends_def room_def)
  ultimately show "keepS (room h_downloads M n) (pauseS G)" "keepS (room h_uploads M n) (pauseS G)"
    by (auto simp: keepS_def pauseS_def room_def)
qed

lemma room_download:
  assumes "0 < n"
  shows "tripleS (room h_downloads M n) (try_download G t active)
    (\<lambda>r. room h_downloads M (if fst r then n - 1 else n)) (room h_downloads M 0)"
  unfolding tripleS_def
proof (intro allI impI)
  fix h assume h: "room h_downloads M n h"
  have run: "running (h_downloads h) (h_uploads h) h" by (simp add: running_def)
  have c: "case try_download G t active h of
      (Done r, h') \<Rightarrow> running (if fst r then h_downloads h @ [t_id t] else h_downloads h) (h_uploads h) h'
         \<and> (fst r \<longrightarrow> t_id t \<notin> set (h_downloads h))
    | (Raised e, h') \<Rightarrow> running (h_downloads h) (h_uploads h) h' | (Stuck, h') \<Rightarrow> running (h_downloads h) (h_uploads h) h'"
    using try_download_starts[of "h_downloads h" "h_uploads h" G t active, unfolded tripleS_def, rule_format, OF run] .
  obtain r h' where r: "try_download G t active h = (r, h')" by fastforce
  show "case try_download G t active h of
      (Done r, h') \<Rightarrow> room h_downloads M (if fst r then n - 1 else n) h'
    | (Raised e, h') \<Rightarrow> room h_downloads M 0 h' | (Stuck, h') \<Rightarrow> room h_downloads M 0 h'"
  proof (cases r)
    case (Done q)
    with c r have "h_downloads h' = (if fst q then h_downloads h @ [t_id t] else h_downloads h)"
      "fst q \<longrightarrow> t_id t \<notin> set (h_downloads h)"
      by (simp_all add: running_def)
    with h assms have "room h_downloads M (if fst q then n - 1 else n) h'"
      by (cases "fst q") (simp_all add: room_def)
    with Done r show ?thesis by simp
  qed (use c r h room_zero in \<open>auto simp: running_def room_def\<close>)
qed

lemma room_download_page:
  "tripleS (room h_downloads M n) (download_page G ts n active)
    (\<lambda>r. case r of None \<Rightarrow> room h_downloads M 0 | Some (m, a) \<Rightarrow> room h_downloads M m) (room h_downloads M 0)"
proof (induction ts arbitrary: n active)
  case Nil
  show ?case by (simp add: tripleS_return)
next
  case (Cons t ts)
  show ?case
  proof (cases "n \<le> 0")
    case True
    then show ?thesis by (auto intro!: tripleS_return intro: room_zero)
  next
    case False
    then have "0 < n" by simp
    have "tripleS (room h_downloads M (if fst r then n - 1 else n)) (case r of (started, active) \<Rightarrow>
        download_page G ts (if started then n - 1 else n) active)
        (\<lambda>r. case r of None \<Rightarrow> room h_downloads M 0 | Some (m, a) \<Rightarrow> room h_downloads M m) (room h_downloads M 0)" for r
      using Cons.IH[of "if fst r then n - 1 else n" "snd r"] by (simp add: case_prod_beta)
    with False show ?thesis by (simp only: download_page.simps if_False tripleS_bind[OF room_download[OF \<open>0 < n\<close>]])
  qed
qed

lemma room_download_pages:
  assumes o: "only_ends G"
  shows "tripleS (room h_downloads M n) (download_pages fuel G after n active)
    (\<lambda>_. room h_downloads M 0) (room h_downloads M 0)"
proof (induction fuel arbitrary: after n active)
  case 0
  show ?case by (auto simp: tripleS_def stuckS_def intro: room_zero)
next
  case (Suc fuel)
  let ?R = "room h_downloads M"
  have stop: "tripleS (?R n) (returnS ()) (\<lambda>_. ?R 0) (?R 0)" by (auto intro: tripleS_return room_zero)
  have rest: "tripleS (case r of None \<Rightarrow> ?R 0 | Some (m, a) \<Rightarrow> ?R m) (case r of None \<Rightarrow> returnS ()
            | Some (slots, active) \<Rightarrow> download_pages fuel G cursor slots active) (\<lambda>_. ?R 0) (?R 0)" for r cursor
    using Suc by (cases r) (auto intro: tripleS_return split: prod.split)
  have batch: "tripleS (?R n) (bindS (download_page G b n active) (\<lambda>r. case r of None \<Rightarrow> returnS ()
            | Some (slots, active) \<Rightarrow> download_pages fuel G cursor slots active)) (\<lambda>_. ?R 0) (?R 0)" for b cursor
    by (rule tripleS_bind[OF room_download_page rest])
  have page: "tripleS (?R n) (bindS (pauseS G) (\<lambda>_. lookS (\<lambda>h.
          if \<not> sample_fresh G h \<or> \<not> destination_ready G h \<or> is_paused (h_db h) then returnS ()
          else bindS (download_page G b n active) (\<lambda>r. case r of None \<Rightarrow> returnS ()
            | Some (slots, active) \<Rightarrow> download_pages fuel G cursor slots active)))) (\<lambda>_. ?R 0) (?R 0)" for b cursor
  proof (rule tripleS_bind)
    show "tripleS (?R n) (pauseS G) (\<lambda>_. ?R n) (?R 0)"
      by (rule tripleS_conseq[OF tripleS_keeps[OF room_others(1)[OF o, of M n]]]) (auto intro: room_zero)
  qed (intro tripleS_look' tripleS_if stop batch)
  show ?case unfolding download_pages.simps by (intro tripleS_look' tripleS_option tripleS_pair stop page)
qed

lemma try_upload_starts:
  "tripleS (room h_uploads M n) (try_upload G states t)
    (\<lambda>started. room h_uploads M (if started then n - 1 else n)) (room h_uploads M 0)" if "0 < n"
  unfolding try_upload_def
proof (rule tripleS_look)
  fix h assume h: "room h_uploads M n h"
  let ?i = "t_id t"
  let ?Q = "\<lambda>started. room h_uploads M (if started then n - 1 else n)"
  define R where "R = (\<lambda>h. room h_uploads M n h \<and> ?i \<notin> set (h_uploads h))"
  have quiet: "keepS R (dbS f)" for f :: "taskdb \<Rightarrow> bool \<times> taskdb"
    by (simp add: keepS_def dbS_def stepS_def R_def room_def)
  have step: "tripleS R p (\<lambda>_. R) (room h_uploads M 0)" if "keepS R p" for p :: "bool sched"
    by (rule tripleS_conseq[OF tripleS_keeps[OF that]]) (auto simp: R_def intro: room_zero)
  have wait: "tripleS R (bindS (wait_for G ?i msg_wait_member [WaitingUpload, Downloaded]) (\<lambda>_. returnS False)) ?Q (room h_uploads M 0)"
    unfolding wait_for_def
    by (rule tripleS_bind[OF step[OF keepS_look[OF quiet]]]) (rule tripleS_return, simp add: R_def)
  have start: "tripleS R (stepS (\<lambda>h. (True, h\<lparr>h_uploads := h_uploads h @ [?i]\<rparr>))) ?Q (room h_uploads M 0)"
    using that by (auto simp: tripleS_def stepS_def R_def room_def)
  have go: "tripleS R (bindS (dbS (admit_upload ?i)) (\<lambda>ok.
          if \<not> ok then bindS (wait_for G ?i msg_wait_member [WaitingUpload, Downloaded]) (\<lambda>_. returnS False)
          else stepS (\<lambda>h. (True, h\<lparr>h_uploads := h_uploads h @ [?i]\<rparr>)))) ?Q (room h_uploads M 0)"
    by (rule tripleS_bind[OF step[OF quiet]]) (intro tripleS_if wait start)
  have no: "tripleS (\<lambda>h'. room h_uploads M n h' \<and> h' = h) (returnS False) ?Q (room h_uploads M 0)"
    by (rule tripleS_return) simp
  have fresh: "tripleS (\<lambda>h'. room h_uploads M n h' \<and> h' = h) (if ?i \<in> set (h_uploads h) then returnS False
      else bindS (dbS (admit_upload ?i)) (\<lambda>ok.
          if \<not> ok then bindS (wait_for G ?i msg_wait_member [WaitingUpload, Downloaded]) (\<lambda>_. returnS False)
          else stepS (\<lambda>h. (True, h\<lparr>h_uploads := h_uploads h @ [?i]\<rparr>)))) ?Q (room h_uploads M 0)"
  proof (cases "?i \<in> set (h_uploads h)")
    case False
    then show ?thesis by (simp only: if_False) (rule tripleS_pre[OF go], auto simp: R_def)
  qed (simp only: if_True no)
  show "tripleS (\<lambda>h'. room h_uploads M n h' \<and> h' = h) (let i = ?i in case get_task (h_db h) i of None \<Rightarrow> returnS False
     | Some current \<Rightarrow>
        if t_cancel_requested current \<or> t_state current \<notin> set states then returnS False
        else if is_paused (h_db h) \<and> t_state t \<noteq> CleanupPending then returnS False
        else if i \<in> set (h_uploads h) then returnS False
        else bindS (dbS (admit_upload i)) (\<lambda>ok.
          if \<not> ok then bindS (wait_for G i msg_wait_member [WaitingUpload, Downloaded]) (\<lambda>_. returnS False)
          else stepS (\<lambda>h. (True, h\<lparr>h_uploads := h_uploads h @ [i]\<rparr>)))) ?Q (room h_uploads M 0)"
    unfolding Let_def by (intro tripleS_option tripleS_if no fresh)
qed

lemma room_upload_page:
  "tripleS (room h_uploads M n) (upload_page G states ts n)
    (\<lambda>r. room h_uploads M (case r of None \<Rightarrow> 0 | Some m \<Rightarrow> m)) (room h_uploads M 0)"
proof (induction ts arbitrary: n)
  case Nil
  show ?case by (simp add: tripleS_return)
next
  case (Cons t ts)
  show ?case
  proof (cases "n \<le> 0")
    case True
    then show ?thesis by (auto intro!: tripleS_return intro: room_zero)
  next
    case False
    then have "0 < n" by simp
    from False show ?thesis
      by (simp only: upload_page.simps if_False tripleS_bind[OF try_upload_starts[OF \<open>0 < n\<close>] Cons.IH])
  qed
qed

lemma room_upload_pages:
  assumes o: "only_ends G"
  shows "tripleS (room h_uploads M n) (upload_pages fuel G states after n)
    (\<lambda>_. room h_uploads M 0) (room h_uploads M 0)"
proof (induction fuel arbitrary: after n)
  case 0
  show ?case by (auto simp: tripleS_def stuckS_def intro: room_zero)
next
  case (Suc fuel)
  let ?R = "room h_uploads M"
  have stop: "tripleS (?R n) (returnS ()) (\<lambda>_. ?R 0) (?R 0)" by (auto intro: tripleS_return room_zero)
  have rest: "tripleS (?R (case r of None \<Rightarrow> 0 | Some m \<Rightarrow> m)) (case r of None \<Rightarrow> returnS ()
            | Some slots \<Rightarrow> upload_pages fuel G states cursor slots) (\<lambda>_. ?R 0) (?R 0)" for r cursor
    using Suc by (cases r) (auto intro: tripleS_return)
  have batch: "tripleS (?R n) (bindS (upload_page G states b n) (\<lambda>r. case r of None \<Rightarrow> returnS ()
            | Some slots \<Rightarrow> upload_pages fuel G states cursor slots)) (\<lambda>_. ?R 0) (?R 0)" for b cursor
    by (rule tripleS_bind[OF room_upload_page rest])
  have page: "tripleS (?R n) (bindS (pauseS G) (\<lambda>_. lookS (\<lambda>h.
          if \<not> sample_fresh G h \<or> \<not> destination_ready G h then returnS ()
          else bindS (upload_page G states b n) (\<lambda>r. case r of None \<Rightarrow> returnS ()
            | Some slots \<Rightarrow> upload_pages fuel G states cursor slots)))) (\<lambda>_. ?R 0) (?R 0)" for b cursor
  proof (rule tripleS_bind)
    show "tripleS (?R n) (pauseS G) (\<lambda>_. ?R n) (?R 0)"
      by (rule tripleS_conseq[OF tripleS_keeps[OF room_others(2)[OF o, of M n]]]) (auto intro: room_zero)
  qed (intro tripleS_look' tripleS_if stop batch)
  show ?case unfolding upload_pages.simps by (intro tripleS_look' tripleS_option tripleS_pair stop page)
qed

lemma room_start_downloads:
  assumes "only_ends G" "distinct (h_downloads h)"
  shows "room h_downloads (max (int (length (h_downloads h))) (h_download_window h)) 0 (snd (start_downloads fuel G h))"
proof -
  let ?M = "max (int (length (h_downloads h))) (h_download_window h)"
  let ?n = "h_download_window h - int (length (h_downloads h))"
  let ?p = "bindS (putS (\<lambda>h. h\<lparr>h_pause_reason := []\<rparr>)) (\<lambda>_.
       let slots = ?n in if slots \<le> 0 then returnS () else download_pages fuel G 0 slots None)"
  have start: "room h_downloads ?M ?n h" using assms(2) by (simp add: room_def)
  have "tripleS (room h_downloads ?M ?n) ?p (\<lambda>_. room h_downloads ?M 0) (room h_downloads ?M 0)"
  proof (rule tripleS_bind)
    show "tripleS (room h_downloads ?M ?n) (putS (\<lambda>h. h\<lparr>h_pause_reason := []\<rparr>)) (\<lambda>_. room h_downloads ?M ?n) (room h_downloads ?M 0)"
      by (simp add: tripleS_def putS_def room_def)
  qed (auto simp: Let_def intro: tripleS_return room_zero room_download_pages[OF assms(1)])
  from tripleS_end[OF this start] have "room h_downloads ?M 0 (snd (?p h))" .
  moreover have "room h_downloads ?M 0 h" "room h_downloads ?M 0 (h\<lparr>h_pause_reason := msg_filesystem\<rparr>)"
    using room_zero[OF start] by (simp_all add: room_def)
  ultimately show ?thesis
    unfolding start_downloads_def lookS_def by (simp only: returnS_def putS_def snd_conv split: if_split) simp
qed

lemma room_start_uploads:
  assumes "only_ends G" "distinct (h_uploads h)"
  shows "room h_uploads (max (int (length (h_uploads h))) (h_upload_window h - stream_count h)) 0 (snd (start_uploads fuel G h))"
proof -
  let ?M = "max (int (length (h_uploads h))) (h_upload_window h - stream_count h)"
  let ?n = "h_upload_window h - int (length (h_uploads h)) - stream_count h"
  have "room h_uploads ?M ?n h" using assms(2) by (simp add: room_def)
  then show ?thesis
    using tripleS_end[OF room_upload_pages[OF assms(1)], of ?M ?n h] room_zero[of h_uploads ?M ?n h]
    by (auto simp: start_uploads_def lookS_def returnS_def Let_def)
qed

text \<open>
  C21. A round never starts more than the windows allow: as long as the other coroutines only end
  handlers, there are afterwards at most as many downloads as the download window, and at most as
  many uploads as the upload window leaves next to the running streams, or no more than there
  were before; and no task has two handlers of the same kind.
\<close>

theorem slots_bounded:
  assumes "only_ends G" "distinct (h_downloads h)" "distinct (h_uploads h)"
    and d: "d = h_downloads (snd (start_downloads fuel G h))" and u: "u = h_uploads (snd (start_uploads fuel G h))"
  shows "distinct d \<and> distinct u
    \<and> int (length d) \<le> max (int (length (h_downloads h))) (h_download_window h)
    \<and> int (length u) \<le> max (int (length (h_uploads h))) (h_upload_window h - stream_count h)"
  using room_start_downloads[OF assms(1,2), of fuel] room_start_uploads[OF assms(1,3), of fuel]
  by (simp add: room_def d u)

section \<open>The database\<close>

interpretation reached_round: round_invariant G
  "\<lambda>h. (\<forall>n (h :: scheduler). db_reach P (h_db h) (h_db (x_others G n h))) \<longrightarrow> db_reach P d (h_db h)"
proof
  fix h :: scheduler and n assume "(\<forall>n (h :: scheduler). db_reach P (h_db h) (h_db (x_others G n h))) \<longrightarrow> db_reach P d (h_db h)"
  then show "(\<forall>n (h :: scheduler). db_reach P (h_db h) (h_db (x_others G n h))) \<longrightarrow> db_reach P d (h_db (x_others G n h))"
    using reach_trans by blast
qed (auto intro: r_step s_wait s_reserve s_admit)


section \<open>Termination\<close>

definition ids_upto :: "int \<Rightarrow> taskdb \<Rightarrow> bool" where
  "ids_upto N d \<longleftrightarrow> (\<forall>t \<in> set (d_tasks d). 1 \<le> t_id t \<and> t_id t \<le> N)"

definition same_ids :: "taskdb \<Rightarrow> taskdb \<Rightarrow> bool" where
  "same_ids d d' \<longleftrightarrow> map t_id (d_tasks d') = map t_id (d_tasks d)"

lemma ids_upto_map: "ids_upto N d \<longleftrightarrow> (\<forall>i \<in> set (map t_id (d_tasks d)). 1 \<le> i \<and> i \<le> N)"
  by (auto simp: ids_upto_def)

lemma same_ids_upto: "same_ids d d' \<Longrightarrow> ids_upto N d \<Longrightarrow> ids_upto N d'"
  by (simp only: same_ids_def ids_upto_map)

lemma same_ids_ops:
  "same_ids d (snd (set_wait_reason i r ss now d))" "same_ids d (snd (admit_upload i d))"
  "same_ids d (snd (reserve i budget free minimum now d))"
proof -
  show wait: "same_ids d (snd (set_wait_reason i r ss now d))" for r ss
    by (auto simp: same_ids_def set_wait_reason_def upd_ids split: option.split)
  show "same_ids d (snd (admit_upload i d))"
    by (auto simp: same_ids_def admit_upload_def split: option.split)
  show "same_ids d (snd (reserve i budget free minimum now d))"
  proof (cases rule: reserve_cases[of i budget free minimum now d])
    case (granted t mode)
    then show ?thesis by (simp add: same_ids_def upd_ids)
  qed (auto simp: wait, simp add: same_ids_def)
qed

definition keeps_ids :: "limits_of \<Rightarrow> int \<Rightarrow> bool" where
  "keeps_ids G N \<longleftrightarrow> (\<forall>n (h :: scheduler). ids_upto N (h_db h) \<longrightarrow> ids_upto N (h_db (x_others G n h)))"

interpretation bounded_ids: round_invariant G "\<lambda>h. keeps_ids G N \<longrightarrow> ids_upto N (h_db h)"
  by unfold_locales (auto simp: keeps_ids_def intro: same_ids_upto[OF same_ids_ops(1)] same_ids_upto[OF same_ids_ops(2)]
      same_ids_upto[OF same_ids_ops(3)])

lemma page_cursor:
  assumes "page G states after h = Some (b, c)" "ids_upto N (h_db h)" "0 \<le> after"
  shows "after < c" "c \<le> N"
proof -
  let ?b = "list_states (h_db h) (x_clock G (h_at h)) states PAGE True after None"
  have "?b \<noteq> []" and c: "c = t_id (last ?b)" using assms(1) by (auto simp: page_def Let_def split: if_splits)
  then have "last ?b \<in> set ?b" by (intro last_in_set)
  then have "last ?b \<in> set (d_tasks (h_db h))" "0 < after \<longrightarrow> after < t_id (last ?b)"
    by (auto simp: list_states_def dest!: in_set_takeD split: if_splits)
  with assms(2,3) show "after < c" "c \<le> N" by (fastforce simp: c ids_upto_def)+
qed

definition never_stuck :: "'a sched \<Rightarrow> bool" where
  "never_stuck p \<longleftrightarrow> (\<forall>h. fst (p h) \<noteq> Stuck)"

lemma never_calls: "never_stuck (returnS a)" "never_stuck (readS f)" "never_stuck (stepS g)" "never_stuck (putS k)"
  "never_stuck (pauseS G)" "never_stuck (dbS m)"
  by (simp_all add: never_stuck_def returnS_def readS_def stepS_def putS_def pauseS_def dbS_def liftE_def split: sum.split)

lemma never_bind: "never_stuck p \<Longrightarrow> (\<And>a. never_stuck (f a)) \<Longrightarrow> never_stuck (bindS p f)"
  unfolding never_stuck_def
proof (rule allI)
  fix h
  assume p: "\<forall>h. fst (p h) \<noteq> Stuck" and f: "\<And>a. \<forall>h. fst (f a h) \<noteq> Stuck"
  obtain r h' where r: "p h = (r, h')" by fastforce
  with p have "r \<noteq> Stuck" by (metis fst_conv)
  with f r show "fst (bindS p f h) \<noteq> Stuck" by (cases r) (simp_all add: bindS_def)
qed

lemma never_look: "(\<And>h. never_stuck (p h)) \<Longrightarrow> never_stuck (lookS p)"
  by (simp add: never_stuck_def lookS_def)

lemma never_if: "never_stuck p \<Longrightarrow> never_stuck q \<Longrightarrow> never_stuck (if b then p else q)"
  by simp

lemma never_option: "never_stuck p \<Longrightarrow> (\<And>a. never_stuck (q a)) \<Longrightarrow> never_stuck (case r of None \<Rightarrow> p | Some a \<Rightarrow> q a)"
  by (cases r) auto

lemma never_pair: "(\<And>a b. never_stuck (q a b)) \<Longrightarrow> never_stuck (case r of (a, b) \<Rightarrow> q a b)"
  by (cases r) auto

lemmas never_rules = never_calls never_bind never_look never_if never_option never_pair

lemma never_download: "never_stuck (try_download G t active)"
  unfolding try_download_def listener_gate_def reserve_and_start_def wait_for_def Let_def by (intro never_rules)

lemma never_upload: "never_stuck (try_upload G states t)"
  unfolding try_upload_def wait_for_def Let_def by (intro never_rules)

lemma never_download_page: "never_stuck (download_page G ts n active)"
proof (induction ts arbitrary: n active)
  case (Cons t ts)
  show ?case unfolding download_page.simps by (intro never_rules never_download Cons)
qed (simp add: never_calls)

lemma never_upload_page: "never_stuck (upload_page G states ts n)"
proof (induction ts arbitrary: n)
  case (Cons t ts)
  show ?case unfolding upload_page.simps by (intro never_rules never_upload Cons)
qed (simp add: never_calls)

text \<open>The part of a round after the first page was read.\<close>

lemma bind_not_stuck:
  assumes "never_stuck p" "keepS J p" "J h" "\<And>a h'. J h' \<Longrightarrow> fst (f a h') \<noteq> Stuck"
  shows "fst (bindS p f h) \<noteq> Stuck"
proof -
  obtain r h' where r: "p h = (r, h')" by fastforce
  have "r \<noteq> Stuck" "J h'" using assms(1-3) r unfolding never_stuck_def keepS_def by (metis fst_conv, metis snd_conv)
  with assms(4) r show ?thesis by (cases r) (simp_all add: bindS_def)
qed

text \<open>Both loops over the pages end, because the cursor grows with every page.\<close>

lemma pages_end:
  fixes F :: "nat \<Rightarrow> int \<Rightarrow> 's \<Rightarrow> unit sched" and G :: limits_of
  defines "J \<equiv> \<lambda>N h. keeps_ids G N \<longrightarrow> ids_upto N (h_db h)"
  assumes k: "keeps_ids G N"
    and F: "\<And>fuel after x. F (Suc fuel) after x = lookS (\<lambda>h. case page G states after h of None \<Rightarrow> returnS ()
      | Some (b, c) \<Rightarrow> bindS (pauseS G) (\<lambda>_. body b c fuel x))"
    and body: "\<And>b c fuel x h. (\<And>x h. J N h \<Longrightarrow> fst (F fuel c x h) \<noteq> Stuck) \<Longrightarrow> J N h \<Longrightarrow> fst (body b c fuel x h) \<noteq> Stuck"
  shows "J N h \<Longrightarrow> 0 \<le> after \<Longrightarrow> after \<le> N \<Longrightarrow> N - after < int fuel \<Longrightarrow> fst (F fuel after x h) \<noteq> Stuck"
proof (induction fuel arbitrary: after x h)
  case 0
  then show ?case by simp
next
  case (Suc fuel)
  show ?case
  proof (cases "page G states after h")
    case None
    then show ?thesis by (simp add: F lookS_def returnS_def)
  next
    case (Some bc)
    obtain b c where bc: "bc = (b, c)" by (cases bc)
    have "ids_upto N (h_db h)" using Suc.prems(1) k by (simp add: J_def)
    then have c: "after < c" "c \<le> N" using page_cursor[OF Some[unfolded bc]] Suc.prems by auto
    have "fst (F fuel c x h') \<noteq> Stuck" if "J N h'" for x h'
      using Suc.IH[OF that, of c x] c Suc.prems by simp
    then have rest: "fst (body b c fuel x h') \<noteq> Stuck" if "J N h'" for h' by (rule body[OF _ that])
    have "fst (bindS (pauseS G) (\<lambda>_. body b c fuel x) h) \<noteq> Stuck"
    proof (rule bind_not_stuck)
      show "never_stuck (pauseS G)" by (rule never_calls)
      show "keepS (J N) (pauseS G)" unfolding J_def by (rule bounded_ids.keepS_pause)
      show "J N h" by (rule Suc.prems(1))
      show "fst (body b c fuel x h') \<noteq> Stuck" if "J N h'" for h' by (rule rest[OF that])
    qed
    then show ?thesis by (simp add: F lookS_def Some bc)
  qed
qed

lemma download_pages_end:
  assumes k: "keeps_ids G N" "ids_upto N (h_db h)" "0 \<le> N" "N < int fuel"
  shows "fst (download_pages fuel G 0 n active h) \<noteq> Stuck"
proof -
  define F where "F = (\<lambda>fuel after x. download_pages fuel G after (fst x) (snd x))"
  have "fst (F fuel 0 (n, active) h) \<noteq> Stuck"
  proof (rule pages_end[where F = F and states = "[Queued]"])
    show "F (Suc fuel) after x = lookS (\<lambda>h. case page G [Queued] after h of None \<Rightarrow> returnS ()
      | Some (b, c) \<Rightarrow> bindS (pauseS G) (\<lambda>_. lookS (\<lambda>h.
          if \<not> sample_fresh G h \<or> \<not> destination_ready G h \<or> is_paused (h_db h) then returnS ()
          else bindS (download_page G b (fst x) (snd x)) (\<lambda>r. case r of None \<Rightarrow> returnS () | Some y \<Rightarrow> F fuel c y))))"
      for fuel after x
      by (simp only: F_def download_pages.simps case_prod_unfold)
  next
    fix b c fuel x and h :: scheduler
    assume more: "\<And>x h. keeps_ids G N \<longrightarrow> ids_upto N (h_db h) \<Longrightarrow> fst (F fuel c x h) \<noteq> Stuck"
      and J: "keeps_ids G N \<longrightarrow> ids_upto N (h_db h)"
    have "fst (bindS (download_page G b (fst x) (snd x)) (\<lambda>r. case r of None \<Rightarrow> returnS () | Some y \<Rightarrow> F fuel c y) h) \<noteq> Stuck"
      by (rule bind_not_stuck[OF never_download_page bounded_ids.keepS_download_page J])
        (use more in \<open>auto simp: returnS_def split: option.split\<close>)
    then show "fst (lookS (\<lambda>h. if \<not> sample_fresh G h \<or> \<not> destination_ready G h \<or> is_paused (h_db h) then returnS ()
          else bindS (download_page G b (fst x) (snd x)) (\<lambda>r. case r of None \<Rightarrow> returnS () | Some y \<Rightarrow> F fuel c y)) h) \<noteq> Stuck"
      by (simp add: lookS_def returnS_def)
  qed (use assms in simp_all)
  then show ?thesis by (simp add: F_def)
qed

lemma upload_pages_end:
  assumes k: "keeps_ids G N" "ids_upto N (h_db h)" "0 \<le> N" "N < int fuel"
  shows "fst (upload_pages fuel G states 0 n h) \<noteq> Stuck"
proof (rule pages_end[where F = "\<lambda>fuel. upload_pages fuel G states" and states = states])
  fix b c fuel n and h :: scheduler
  assume more: "\<And>n h. keeps_ids G N \<longrightarrow> ids_upto N (h_db h) \<Longrightarrow> fst (upload_pages fuel G states c n h) \<noteq> Stuck"
    and J: "keeps_ids G N \<longrightarrow> ids_upto N (h_db h)"
  have "fst (bindS (upload_page G states b n) (\<lambda>r. case r of None \<Rightarrow> returnS () | Some m \<Rightarrow> upload_pages fuel G states c m) h) \<noteq> Stuck"
    by (rule bind_not_stuck[OF never_upload_page bounded_ids.keepS_upload_page J])
      (use more in \<open>auto simp: returnS_def split: option.split\<close>)
  then show "fst (lookS (\<lambda>h. if \<not> sample_fresh G h \<or> \<not> destination_ready G h then returnS ()
        else bindS (upload_page G states b n) (\<lambda>r. case r of None \<Rightarrow> returnS () | Some m \<Rightarrow> upload_pages fuel G states c m)) h) \<noteq> Stuck"
    by (simp add: lookS_def returnS_def)
qed (use assms in simp_all)

text \<open>
  C33. A round ends: if no task has a number above \<open>N\<close> while it lasts, it reads at most \<open>N + 1\<close>
  pages, although the other coroutines run between any two of them.
\<close>

theorem rounds_terminate:
  assumes "keeps_ids G N" "ids_upto N (h_db h)" "0 \<le> N" "N < int fuel"
  shows "fst (start_downloads fuel G h) \<noteq> Stuck \<and> fst (start_uploads fuel G h) \<noteq> Stuck"
proof
  have "ids_upto N (h_db (h\<lparr>h_pause_reason := []\<rparr>))" using assms(2) by simp
  from download_pages_end[OF assms(1) this assms(3,4)]
  show "fst (start_downloads fuel G h) \<noteq> Stuck"
    unfolding start_downloads_def lookS_def by (simp add: returnS_def putS_def bindS_def Let_def)
  show "fst (start_uploads fuel G h) \<noteq> Stuck"
    using upload_pages_end[OF assms] unfolding start_uploads_def lookS_def by (simp add: returnS_def Let_def)
qed

section \<open>A sample round\<close>

definition ex_limits :: limits_of where
  "ex_limits = \<lparr>x_interval = 5, x_health_interval = 60, x_budget = 1000, x_min_free = 0, x_clock = (\<lambda>_. 1),
     x_mono = (\<lambda>_. 1), x_free = (\<lambda>_. Inr 5000), x_others = (\<lambda>n h. h)\<rparr>"

definition ex_service :: "task_state \<Rightarrow> scheduler" where
  "ex_service s = \<lparr>h_db = ex_db [ex_task 1 s], h_at = 0, h_downloads = [], h_uploads = [], h_download_window = 1,
     h_upload_window = 1, h_snapshot = Some \<lparr>sn_at = 0, sn_disk = 9000, sn_filesystems = []\<rparr>, h_healthy = True,
     h_checked = 0, h_client = False, h_backoff = None, h_pause_reason = []\<rparr>"

lemma ex_limits_simps [simp]:
  "x_interval ex_limits = 5" "x_health_interval ex_limits = 60" "x_budget ex_limits = 1000" "x_min_free ex_limits = 0"
  "x_clock ex_limits n = 1" "x_mono ex_limits n = 1" "x_free ex_limits n = Inr 5000" "x_others ex_limits n h = h"
  by (simp_all add: ex_limits_def)

lemma ex_service_simps [simp]:
  "h_db (ex_service s) = ex_db [ex_task 1 s]" "h_downloads (ex_service s) = []" "h_uploads (ex_service s) = []"
  "h_download_window (ex_service s) = 1" "h_upload_window (ex_service s) = 1"
  by (simp_all add: ex_service_def)

lemmas sched_simps = lookS_def bindS_def returnS_def readS_def stepS_def putS_def pauseS_def dbS_def liftE_def
  sample_fresh_def destination_ready_def page_def list_states_def PAGE_def in_order_def is_listener_task_def
  Let_def

lemma ex_round: "h_downloads (snd (start_downloads 2 ex_limits (ex_service Queued))) = [1]"
  by code_simp

lemma ex_upload_round: "h_uploads (snd (start_uploads 2 ex_limits (ex_service WaitingUpload))) = [1]"
  by code_simp

theorem slots_bounded_witness:
  "h_downloads (snd (start_downloads 2 ex_limits (ex_service WaitingUpload))) = []
    \<and> int (length (h_uploads (snd (start_uploads 2 ex_limits (ex_service WaitingUpload))))) \<le> 1"
proof
  show "h_downloads (snd (start_downloads 2 ex_limits (ex_service WaitingUpload))) = []" by code_simp
  have "only_ends ex_limits" by (simp add: only_ends_def)
  from slots_bounded[OF this _ _ refl refl, of "ex_service WaitingUpload" 2]
  show "int (length (h_uploads (snd (start_uploads 2 ex_limits (ex_service WaitingUpload))))) \<le> 1"
    by (simp add: stream_count_def)
qed


theorem rounds_terminate_witness:
  "fst (start_downloads 2 ex_limits (ex_service Queued)) \<noteq> Stuck"
  using rounds_terminate[of ex_limits 1 "ex_service Queued" 2]
  by (simp add: keeps_ids_def ids_upto_def)

end
