(* ===== verification/Findings.thy ===== *)
theory Findings
  imports Scheduler
begin

text \<open>
  What the model shows where the code does not do what it means to do: an uncertain rename that a
  cancellation puts back into the queue, and a state the upload round admits although the handler
  can only fail on it.
\<close>

text \<open>
  The handler stores upload_failed_retained when the outcome of a rename is unknown, so that nothing
  is retried before someone has looked at the remote, and then notifies. A cancellation during that
  notification reaches the outer handler, which moves every unfinished task to waiting_upload: the
  task is retried after all. Here the row is finalizing, the notification is cancelled, and no other
  coroutine interferes.
\<close>

lemma cancelled_reopens:
  assumes u: "get_task (w_db v) i = Some u" "t_state u = UploadFailedRetained" "t_failure_kind u = Some RemoteConflict"
  shows "\<exists>w'. thenP (upload_handlers E i CancelledError) (returnP True) v = (Raised CancelledError, w')
    \<and> (\<exists>u. get_task (w_db w') i = Some u \<and> t_state u = WaitingUpload \<and> t_failure_kind u = Some RemoteConflict)"
  using u by (simp add: upload_handlers_def thenP_def bindP_def getP_def whenP_def transP_def transition_def
        sets_state_def can_transition_def raiseP_def assign_all_def get_upd_state)

lemma uncertain_move_reopened:
  assumes t: "get_task (w_db w) i = Some t" "t_state t = Finalizing"
    and n: "e_notify E (Suc (w_at w)) = Inl CancelledError" "\<And>d. e_others E (Suc (w_at w)) d = d"
  shows "\<exists>w'. tryP (upload_failed E i a (MoveUncertainError m)) (\<lambda>e. thenP (upload_handlers E i e) (returnP True)) w
      = (Raised CancelledError, w')
    \<and> (\<exists>u. get_task (w_db w') i = Some u \<and> t_state u = WaitingUpload \<and> t_failure_kind u = Some RemoteConflict)"
proof -
  let ?asg = "[AError (Some (safe_failure (e_P E) (MoveUncertainError m))),
          AFailureKind (Some RemoteConflict), AVerification None, AVerifiedAt None, AWait (Some msg_move_wait)]"
  let ?d = "upd_state i (assign_all (AState UploadFailedRetained # ?asg) (e_time E (w_at w))) (w_db w)"
  have tr: "transition i UploadFailedRetained ?asg (e_time E (w_at w)) (w_db w) = Inr ?d"
    using t by (simp add: transition_def sets_state_def can_transition_def)
  have g: "get_task ?d i = Some (assign_all (AState UploadFailedRetained # ?asg) (e_time E (w_at w)) t)"
    using t by (simp add: get_upd_state)
  let ?w = "w\<lparr>w_db := ?d, w_at := Suc (Suc (w_at w)),
      w_trace := w_trace w @ [Persist i UploadFailedRetained ?asg, Notify]\<rparr>"
  have "upload_failed E i a (MoveUncertainError m) w = (Raised CancelledError, ?w)"
    using n by (simp add: upload_failed_def is_move_uncertain_def thenP_def bindP_def transP_def tr notifyP_def
        await_def liftE_def)
  moreover have "\<exists>w'. thenP (upload_handlers E i CancelledError) (returnP True) ?w = (Raised CancelledError, w')
    \<and> (\<exists>u. get_task (w_db w') i = Some u \<and> t_state u = WaitingUpload \<and> t_failure_kind u = Some RemoteConflict)"
  proof (rule cancelled_reopens)
    show "get_task (w_db ?w) i = Some (assign_all (AState UploadFailedRetained # ?asg) (e_time E (w_at w)) t)"
      using g by simp
    show "t_state (assign_all (AState UploadFailedRetained # ?asg) (e_time E (w_at w)) t) = UploadFailedRetained"
      by (rule assign_all_state) (simp add: sets_state_def)
    show "t_failure_kind (assign_all (AState UploadFailedRetained # ?asg) (e_time E (w_at w)) t) = Some RemoteConflict"
      by (simp only: assign_all_def fold_simps assign_field.simps) simp
  qed
  ultimately show ?thesis by (simp add: tryP_def)
qed

text \<open>
  \<open>_start_uploads\<close> also admits downloaded tasks, but the table has no edge from there to uploading or
  upload_failed_retained: the first write of the handler raises, and so does its except clause.
\<close>

lemma downloaded_cannot_upload:
  assumes "get_task d i = Some t" "t_state t = Downloaded"
  shows "\<not> is_paused d \<longrightarrow> Downloaded \<in> set (upload_states d)"
    and "\<exists>m. transition i Uploading [] now d = Inl (ValueError m)"
    and "\<exists>m. transition i UploadFailedRetained [] now d = Inl (ValueError m)"
  using assms by (simp_all add: upload_states_def transition_def can_transition_def)

end
