(* ===== verification/Patterns.thy ===== *)
theory Patterns
  imports Errors
begin

text \<open>
  The part of Python's \<open>re\<close> that the naming heuristics use, on \<open>str\<close> patterns.

  A pattern is a term of type \<open>re\<close> with the constructs of the source; \<open>run_re\<close> is the backtracking
  matcher: alternatives from left to right, greedy repetition from the longest, lazy from the
  shortest, a repeated group that matched no text ends its loop. It is written with an explicit
  continuation, as the engine works: the continuation says whether the rest matches. \<open>reaches\<close> is
  the meaning without an order, and \<open>run_re_None\<close>, \<open>run_re_Some\<close> state that the matcher
  finds a match exactly where one exists.

  Under \<open>re.IGNORECASE\<close> an ASCII letter of the pattern also matches the other case and the few other
  characters Unicode folds onto it (\<open>ci_char\<close> of theory Errors); no other cased letter occurs in the
  patterns of the program.
\<close>

section \<open>Patterns\<close>

datatype cls = One nat | To nat nat | Digits | Words | NonWords | Spaces

datatype re =
    Empty
  | Lit nat
  | Set bool "cls list"
  | Dot
  | Seq re re
  | Alt re re
  | Rep nat "nat option" bool re
  | Group nat re
  | Ref nat
  | Ahead bool re
  | Behind bool "cls list"
  | Edge
  | Start
  | End

text \<open>Sequences, alternatives and the usual repetitions.\<close>

definition word_re :: "ustr \<Rightarrow> re" where
  "word_re s = foldr (\<lambda>c r. Seq (Lit c) r) s Empty"

fun seq_re :: "re list \<Rightarrow> re" where
  "seq_re [] = Empty"
| "seq_re [r] = r"
| "seq_re (r # q # rs) = Seq r (seq_re (q # rs))"

fun alt_re :: "re list \<Rightarrow> re" where
  "alt_re [] = Empty"
| "alt_re [r] = r"
| "alt_re (r # q # rs) = Alt r (alt_re (q # rs))"

abbreviation words_re :: "ustr list \<Rightarrow> re" where "words_re ss \<equiv> alt_re (map word_re ss)"
abbreviation star_re :: "re \<Rightarrow> re" where "star_re \<equiv> Rep 0 None True"
abbreviation plus_re :: "re \<Rightarrow> re" where "plus_re \<equiv> Rep 1 None True"
abbreviation opt_re :: "re \<Rightarrow> re" where "opt_re \<equiv> Rep 0 (Some 1) True"
abbreviation times_re :: "nat \<Rightarrow> nat \<Rightarrow> re \<Rightarrow> re" where "times_re m n \<equiv> Rep m (Some n) True"
abbreviation any_of :: "cls list \<Rightarrow> re" where "any_of \<equiv> Set True"
abbreviation none_of :: "cls list \<Rightarrow> re" where "none_of \<equiv> Set False"

section \<open>Characters\<close>

text \<open>The characters of the pattern that a character of the text stands for under IGNORECASE.\<close>

definition ci_variants :: "nat \<Rightarrow> nat list" where
  "ci_variants x = (if 65 \<le> x \<and> x \<le> 90 then [x, x + 32] else if 97 \<le> x \<and> x \<le> 122 then [x, x - 32]
     else if x = 304 \<or> x = 305 then [x, 105, 73] else if x = 383 then [x, 115, 83]
     else if x = 8490 then [x, 107, 75] else [x])"

fun in_cls :: "platform \<Rightarrow> nat \<Rightarrow> cls \<Rightarrow> bool" where
  "in_cls P x (One c) = (x = c)"
| "in_cls P x (To a b) = (a \<le> x \<and> x \<le> b)"
| "in_cls P x Digits = is_udigit P x"
| "in_cls P x Words = is_word P x"
| "in_cls P x NonWords = (\<not> is_word P x)"
| "in_cls P x Spaces = space_char P x"

definition in_set :: "platform \<Rightarrow> bool \<Rightarrow> cls list \<Rightarrow> nat \<Rightarrow> bool" where
  "in_set P ci cs x \<longleftrightarrow> list_ex (\<lambda>y. list_ex (in_cls P y) cs) (if ci then ci_variants x else [x])"

definition lit_ok :: "bool \<Rightarrow> nat \<Rightarrow> nat \<Rightarrow> bool" where
  "lit_ok ci c x \<longleftrightarrow> x = c \<or> (ci \<and> c \<in> set (ci_variants x))"

section \<open>The matcher\<close>

text \<open>A position: the text before it, backwards, the text after it, and the groups closed so far.\<close>

type_synonym place = "ustr \<times> ustr \<times> (nat \<times> ustr) list"

type_synonym rest_of = "place \<Rightarrow> place option"

definition step_re :: "(nat \<Rightarrow> bool) \<Rightarrow> place \<Rightarrow> rest_of \<Rightarrow> place option" where
  "step_re ok p k = (case p of (b, s, g) \<Rightarrow> (case s of [] \<Rightarrow> None | x # xs \<Rightarrow> if ok x then k (x # b, xs, g) else None))"

definition or_re :: "'r option \<Rightarrow> 'r option \<Rightarrow> 'r option" where
  "or_re a b = (case a of Some p \<Rightarrow> Some p | None \<Rightarrow> b)"

text \<open>The repetitions that must be made, and those that may follow.\<close>

primrec must_re :: "('p \<Rightarrow> ('p \<Rightarrow> 'r option) \<Rightarrow> 'r option) \<Rightarrow> nat \<Rightarrow> 'p \<Rightarrow> ('p \<Rightarrow> 'r option) \<Rightarrow> 'r option" where
  "must_re f 0 p k = k p"
| "must_re f (Suc n) p k = f p (\<lambda>q. must_re f n q k)"

definition progress :: "place \<Rightarrow> place \<Rightarrow> bool" where
  "progress p q \<longleftrightarrow> length (fst (snd q)) < length (fst (snd p))"

primrec may_re :: "('p \<Rightarrow> 'p \<Rightarrow> bool) \<Rightarrow> bool \<Rightarrow> ('p \<Rightarrow> ('p \<Rightarrow> 'r option) \<Rightarrow> 'r option)
    \<Rightarrow> nat \<Rightarrow> 'p \<Rightarrow> ('p \<Rightarrow> 'r option) \<Rightarrow> 'r option" where
  "may_re further greedy f 0 p k = k p"
| "may_re further greedy f (Suc n) p k =
    (let again = f p (\<lambda>q. if further p q then may_re further greedy f n q k else None)
     in if greedy then or_re again (k p) else or_re (k p) again)"

definition more_times :: "nat \<Rightarrow> nat option \<Rightarrow> place \<Rightarrow> nat" where
  "more_times m n p = (case n of Some n \<Rightarrow> n - m | None \<Rightarrow> length (fst (snd p)))"

definition take_word :: "ustr \<Rightarrow> place \<Rightarrow> rest_of \<Rightarrow> place option" where
  "take_word w p k = (case p of (b, s, g) \<Rightarrow> if starts_with s w then k (rev w @ b, drop (length w) s, g) else None)"

text \<open>The text between two positions.\<close>

definition between :: "place \<Rightarrow> place \<Rightarrow> ustr" where
  "between p q = rev (take (length (fst q) - length (fst p)) (fst q))"

primrec run_re :: "platform \<Rightarrow> bool \<Rightarrow> re \<Rightarrow> place \<Rightarrow> rest_of \<Rightarrow> place option" where
  "run_re P ci Empty p k = k p"
| "run_re P ci (Lit c) p k = step_re (lit_ok ci c) p k"
| "run_re P ci (Set pos cs) p k = step_re (\<lambda>x. in_set P ci cs x = pos) p k"
| "run_re P ci Dot p k = step_re (\<lambda>x. x \<noteq> 10) p k"
| "run_re P ci (Seq r q) p k = run_re P ci r p (\<lambda>p'. run_re P ci q p' k)"
| "run_re P ci (Alt r q) p k = or_re (run_re P ci r p k) (run_re P ci q p k)"
| "run_re P ci (Rep m n greedy r) p k =
    must_re (run_re P ci r) m p (\<lambda>p'. may_re progress greedy (run_re P ci r) (more_times m n p') p' k)"
| "run_re P ci (Group i r) p k =
    run_re P ci r p (\<lambda>p'. case p' of (b, s, g) \<Rightarrow> k (b, s, (i, between p p') # g))"
| "run_re P ci (Ref i) p k = (case map_of (snd (snd p)) i of None \<Rightarrow> None | Some w \<Rightarrow> take_word w p k)"
| "run_re P ci (Ahead pos r) p k = (if (run_re P ci r p Some \<noteq> None) = pos then k p else None)"
| "run_re P ci (Behind pos cs) p k =
    (if (case fst p of [] \<Rightarrow> False | x # _ \<Rightarrow> in_set P ci cs x) = pos then k p else None)"
| "run_re P ci Edge p k = (if word_edge P (opt_hd (fst p)) (opt_hd (fst (snd p))) then k p else None)"
| "run_re P ci Start p k = (if fst p = [] then k p else None)"
| "run_re P ci End p k = (if fst (snd p) \<in> {[], [10]} then k p else None)"

section \<open>Searching, splitting and replacing\<close>

text \<open>A match: the text before it, backwards, the matched text, the text after it, and the groups.\<close>

record found =
  fd_before :: ustr
  fd_text :: ustr
  fd_after :: ustr
  fd_groups :: "(nat \<times> ustr) list"

definition found_at :: "place \<Rightarrow> place \<Rightarrow> found" where
  "found_at p q = \<lparr>fd_before = fst p, fd_text = between p q, fd_after = fst (snd q), fd_groups = snd (snd q)\<rparr>"

definition match_at :: "platform \<Rightarrow> bool \<Rightarrow> re \<Rightarrow> ustr \<Rightarrow> ustr \<Rightarrow> found option" where
  "match_at P ci r b s = map_option (found_at (b, s, [])) (run_re P ci r (b, s, []) Some)"

definition re_match :: "platform \<Rightarrow> bool \<Rightarrow> re \<Rightarrow> ustr \<Rightarrow> found option" where
  "re_match P ci r s = match_at P ci r [] s"

definition re_fullmatch :: "platform \<Rightarrow> bool \<Rightarrow> re \<Rightarrow> ustr \<Rightarrow> found option" where
  "re_fullmatch P ci r s = map_option (found_at ([], s, []))
     (run_re P ci r ([], s, []) (\<lambda>q. if fst (snd q) = [] then Some q else None))"

fun search_at :: "platform \<Rightarrow> bool \<Rightarrow> re \<Rightarrow> ustr \<Rightarrow> ustr \<Rightarrow> found option" where
  "search_at P ci r b s = (case match_at P ci r b s of Some f \<Rightarrow> Some f
     | None \<Rightarrow> (case s of [] \<Rightarrow> None | x # xs \<Rightarrow> search_at P ci r (x # b) xs))"

declare search_at.simps [simp del]

definition re_search :: "platform \<Rightarrow> bool \<Rightarrow> re \<Rightarrow> ustr \<Rightarrow> found option" where
  "re_search P ci r s = search_at P ci r [] s"

text \<open>
  \<open>finditer\<close>: the matches from left to right. None of the patterns used this way matches an empty
  text; the fuel, one more than the length, is then enough.
\<close>

fun finds :: "nat \<Rightarrow> platform \<Rightarrow> bool \<Rightarrow> re \<Rightarrow> ustr \<Rightarrow> ustr \<Rightarrow> found list" where
  "finds 0 P ci r b s = []"
| "finds (Suc n) P ci r b s = (case search_at P ci r b s of
     None \<Rightarrow> []
   | Some f \<Rightarrow> f # (if fd_text f = [] then [] else finds n P ci r (rev (fd_text f) @ fd_before f) (fd_after f)))"

definition re_findall :: "platform \<Rightarrow> bool \<Rightarrow> re \<Rightarrow> ustr \<Rightarrow> found list" where
  "re_findall P ci r s = finds (Suc (length s)) P ci r [] s"

text \<open>\<open>re.sub\<close>: the gaps between the matches stay, \<open>f\<close> gives what replaces a match.\<close>

fun glue :: "(found \<Rightarrow> ustr) \<Rightarrow> nat \<Rightarrow> ustr \<Rightarrow> found list \<Rightarrow> ustr" where
  "glue f n s [] = s"
| "glue f n s (m # ms) = take (length (fd_before m) - n) s @ f m
     @ glue f (length (fd_before m) + length (fd_text m)) (fd_after m) ms"

definition re_sub :: "platform \<Rightarrow> bool \<Rightarrow> re \<Rightarrow> (found \<Rightarrow> ustr) \<Rightarrow> ustr \<Rightarrow> ustr" where
  "re_sub P ci r f s = glue f 0 s (re_findall P ci r s)"

definition fd_group :: "nat \<Rightarrow> found \<Rightarrow> ustr" where
  "fd_group i f = (case map_of (fd_groups f) i of None \<Rightarrow> [] | Some w \<Rightarrow> w)"

section \<open>The meaning without an order\<close>

primrec reaches :: "platform \<Rightarrow> bool \<Rightarrow> re \<Rightarrow> place \<Rightarrow> place \<Rightarrow> bool" where
  "reaches P ci Empty p q \<longleftrightarrow> q = p"
| "reaches P ci (Lit c) p q \<longleftrightarrow> (\<exists>b x s g. p = (b, x # s, g) \<and> q = (x # b, s, g) \<and> lit_ok ci c x)"
| "reaches P ci (Set pos cs) p q \<longleftrightarrow>
     (\<exists>b x s g. p = (b, x # s, g) \<and> q = (x # b, s, g) \<and> in_set P ci cs x = pos)"
| "reaches P ci Dot p q \<longleftrightarrow> (\<exists>b x s g. p = (b, x # s, g) \<and> q = (x # b, s, g) \<and> x \<noteq> 10)"
| "reaches P ci (Seq r r') p q \<longleftrightarrow> (\<exists>m. reaches P ci r p m \<and> reaches P ci r' m q)"
| "reaches P ci (Alt r r') p q \<longleftrightarrow> reaches P ci r p q \<or> reaches P ci r' p q"
| "reaches P ci (Rep m n greedy r) p q \<longleftrightarrow> (\<exists>p'. (reaches P ci r ^^ m) p p'
     \<and> (\<exists>j \<le> more_times m n p'. ((\<lambda>p q. reaches P ci r p q \<and> progress p q) ^^ j) p' q))"
| "reaches P ci (Group i r) p q \<longleftrightarrow>
     (\<exists>b s g. reaches P ci r p (b, s, g) \<and> q = (b, s, (i, between p (b, s, g)) # g))"
| "reaches P ci (Ref i) p q \<longleftrightarrow> (\<exists>w b s g. p = (b, w @ s, g) \<and> map_of g i = Some w \<and> q = (rev w @ b, s, g))"
| "reaches P ci (Ahead pos r) p q \<longleftrightarrow> q = p \<and> (Ex (reaches P ci r p) = pos)"
| "reaches P ci (Behind pos cs) p q \<longleftrightarrow> q = p
     \<and> (case fst p of [] \<Rightarrow> False | x # _ \<Rightarrow> in_set P ci cs x) = pos"
| "reaches P ci Edge p q \<longleftrightarrow> q = p \<and> word_edge P (opt_hd (fst p)) (opt_hd (fst (snd p)))"
| "reaches P ci Start p q \<longleftrightarrow> q = p \<and> fst p = []"
| "reaches P ci End p q \<longleftrightarrow> q = p \<and> fst (snd p) \<in> {[], [10]}"

text \<open>\<open>f\<close> looks for a first success of the continuation among the places \<open>R\<close> leads to.\<close>

definition tries :: "('p \<Rightarrow> ('p \<Rightarrow> 'r option) \<Rightarrow> 'r option) \<Rightarrow> ('p \<Rightarrow> 'p \<Rightarrow> bool) \<Rightarrow> bool" where
  "tries f R \<longleftrightarrow> (\<forall>p k. (case f p k of None \<Rightarrow> \<forall>q. R p q \<longrightarrow> k q = None | Some t \<Rightarrow> \<exists>q. R p q \<and> k q = Some t))"

lemma triesI:
  assumes "\<And>p k t. f p k = Some t \<Longrightarrow> \<exists>q. R p q \<and> k q = Some t"
    and "\<And>p k q. f p k = None \<Longrightarrow> R p q \<Longrightarrow> k q = None"
  shows "tries f R"
  using assms by (auto simp: tries_def split: option.splits)

lemma triesD:
  assumes "tries f R"
  shows "f p k = Some t \<Longrightarrow> \<exists>q. R p q \<and> k q = Some t" "f p k = None \<Longrightarrow> R p q \<Longrightarrow> k q = None"
  using assms[unfolded tries_def, rule_format, of p k] by (auto split: option.splits)

lemma or_re_simps: "or_re a b = None \<longleftrightarrow> a = None \<and> b = None" "or_re a b = Some t \<longleftrightarrow> a = Some t \<or> (a = None \<and> b = Some t)"
  by (auto simp: or_re_def split: option.splits)

lemma or_tries:
  assumes "tries f R" "tries g S"
  shows "tries (\<lambda>p k. or_re (f p k) (g p k)) (\<lambda>p q. R p q \<or> S p q)"
proof (rule triesI)
  fix p k t assume "or_re (f p k) (g p k) = Some t"
  then have "f p k = Some t \<or> g p k = Some t" by (auto simp: or_re_simps)
  then show "\<exists>q. (R p q \<or> S p q) \<and> k q = Some t" 
    using triesD(1)[OF assms(1), of p k t] triesD(1)[OF assms(2), of p k t] by blast
next
  fix p k q assume none: "or_re (f p k) (g p k) = None" and q: "R p q \<or> S p q"
  then have "f p k = None" "g p k = None" by (simp_all add: or_re_simps)
  with q show "k q = None" using triesD(2)[OF assms(1), of p k q] triesD(2)[OF assms(2), of p k q] by blast
qed

lemma then_tries:
  assumes "tries f R" "\<And>m. tries (g m) (S m)"
  shows "tries (\<lambda>p k. f p (\<lambda>m. g m m k)) (\<lambda>p q. \<exists>m. R p m \<and> S m m q)"
proof (rule triesI)
  fix p k t assume "f p (\<lambda>m. g m m k) = Some t"
  then obtain m where "R p m" "g m m k = Some t" using triesD(1)[OF assms(1)] by blast
  then show "\<exists>q. (\<exists>m. R p m \<and> S m m q) \<and> k q = Some t" using triesD(1)[OF assms(2)] by blast
next
  fix p k q assume none: "f p (\<lambda>m. g m m k) = None" and "\<exists>m. R p m \<and> S m m q"
  then obtain m where m: "R p m" "S m m q" by blast
  from triesD(2)[OF assms(1), OF none m(1)] have "g m m k = None" .
  with m(2) show "k q = None" using triesD(2)[OF assms(2)] by blast
qed

lemma tries_cong: "tries f R \<Longrightarrow> (\<And>p k. f' p k = f p k) \<Longrightarrow> (\<And>p q. R' p q \<longleftrightarrow> R p q) \<Longrightarrow> tries f' R'"
proof -
  assume a: "tries f R" "\<And>p k. f' p k = f p k" "\<And>p q. R' p q \<longleftrightarrow> R p q"
  have "f' = f" "R' = R" by (intro ext a(2,3))+
  with a(1) show ?thesis by simp
qed

lemma must_tries:
  assumes "tries f R"
  shows "tries (must_re f n) (R ^^ n)"
proof (induction n)
  case 0
  show ?case by (rule triesI) auto
next
  case (Suc n)
  show ?case
  proof (rule triesI)
    fix p k t assume "must_re f (Suc n) p k = Some t"
    then obtain m where "R p m" "must_re f n m k = Some t" using triesD(1)[OF assms] by fastforce
    with triesD(1)[OF Suc.IH] show "\<exists>q. (R ^^ Suc n) p q \<and> k q = Some t" by (metis relpowp_Suc_I2)
  next
    fix p k q assume none: "must_re f (Suc n) p k = None" and "(R ^^ Suc n) p q"
    then obtain m where m: "R p m" "(R ^^ n) m q" by (metis relpowp_Suc_D2)
    from none triesD(2)[OF assms _ m(1)] have "must_re f n m k = None" by simp
    then show "k q = None" using triesD(2)[OF Suc.IH _ m(2)] by blast
  qed
qed

lemma guard_tries:
  assumes "tries f R"
  shows "tries (\<lambda>p k. f p (\<lambda>q. if ok p q then k q else None)) (\<lambda>p q. R p q \<and> ok p q)"
proof (rule triesI)
  fix p k t assume "f p (\<lambda>q. if ok p q then k q else None) = Some t"
  from triesD(1)[OF assms, OF this] show "\<exists>q. (R p q \<and> ok p q) \<and> k q = Some t" by (auto split: if_splits)
next
  fix p k q assume none: "f p (\<lambda>q. if ok p q then k q else None) = None" and q: "R p q \<and> ok p q"
  from triesD(2)[OF assms, OF none conjunct1[OF q]] q show "k q = None" by simp
qed

lemma stay_tries: "tries (\<lambda>p k. k p) (\<lambda>p q. q = p)"
  by (rule triesI) simp_all

lemma relpowp_upto_Suc:
  "(\<exists>j \<le> Suc n. (S ^^ j) p q) \<longleftrightarrow> (\<exists>m. S p m \<and> (\<exists>j \<le> n. (S ^^ j) m q)) \<or> q = p"
proof
  assume "\<exists>j \<le> Suc n. (S ^^ j) p q"
  then obtain j where j: "j \<le> Suc n" "(S ^^ j) p q" by blast
  show "(\<exists>m. S p m \<and> (\<exists>j \<le> n. (S ^^ j) m q)) \<or> q = p"
  proof (cases j)
    case (Suc i)
    with j obtain m where "S p m" "(S ^^ i) m q" using relpowp_Suc_D2[of i S p q] by auto
    with Suc j(1) show ?thesis by (metis Suc_le_mono)
  qed (use j(2) in simp)
next
  assume "(\<exists>m. S p m \<and> (\<exists>j \<le> n. (S ^^ j) m q)) \<or> q = p"
  then show "\<exists>j \<le> Suc n. (S ^^ j) p q"
  proof
    assume "\<exists>m. S p m \<and> (\<exists>j \<le> n. (S ^^ j) m q)"
    then obtain m j where "S p m" "j \<le> n" "(S ^^ j) m q" by blast
    then have "(S ^^ Suc j) p q" by (intro relpowp_Suc_I2[of S])
    with \<open>j \<le> n\<close> show ?thesis by (intro exI[of _ "Suc j"]) simp
  qed (auto intro: exI[of _ 0])
qed

lemma may_tries:
  assumes "tries f R"
  shows "tries (may_re further greedy f n) (\<lambda>p q. \<exists>j \<le> n. ((\<lambda>p q. R p q \<and> further p q) ^^ j) p q)"
proof (induction n)
  case 0
  show ?case by (rule tries_cong[OF stay_tries]) auto
next
  case (Suc n)
  note again = then_tries[OF guard_tries[OF assms, of further], where g = "\<lambda>m. may_re further greedy f n", OF Suc.IH]
  show ?case
  proof (cases greedy)
    case True
    show ?thesis
      by (rule tries_cong[OF or_tries[OF again stay_tries]])
        (use True in \<open>simp_all add: Let_def relpowp_upto_Suc del: relpowp.simps cong: if_cong\<close>)
  next
    case False
    show ?thesis
      by (rule tries_cong[OF or_tries[OF stay_tries again]])
        (use False in \<open>auto simp: Let_def relpowp_upto_Suc simp del: relpowp.simps cong: if_cong\<close>)
  qed
qed

lemma step_tries: "tries (step_re ok) (\<lambda>p q. \<exists>b x s g. p = (b, x # s, g) \<and> q = (x # b, s, g) \<and> ok x)"
  by (rule triesI) (auto simp: step_re_def split: prod.splits list.splits if_splits)

text \<open>The matcher finds a continuation that succeeds, if there is one.\<close>

lemma run_re_tries: "tries (run_re P ci r) (reaches P ci r)"
proof (induction r)
  case (Seq r1 r2)
  show ?case by (rule tries_cong[OF then_tries[OF Seq.IH(1), where g = "\<lambda>m. run_re P ci r2", OF Seq.IH(2)]]) (simp_all del: split_paired_Ex)
next
  case (Alt r1 r2)
  show ?case by (rule tries_cong[OF or_tries[OF Alt.IH]]) simp_all
next
  case (Rep m n greedy r)
  show ?case
    by (rule tries_cong[OF then_tries[OF must_tries[OF Rep.IH],
      where g = "\<lambda>p'. may_re progress greedy (run_re P ci r) (more_times m n p')", OF may_tries[OF Rep.IH]]])
      (simp_all del: split_paired_Ex)
next
  case (Group i r)
  show ?case
  proof (rule triesI)
    fix p k t assume "run_re P ci (Group i r) p k = Some t"
    then have "run_re P ci r p (\<lambda>p'. case p' of (b, s, g) \<Rightarrow> k (b, s, (i, between p p') # g)) = Some t" by simp
    from triesD(1)[OF Group.IH, OF this] show "\<exists>q. reaches P ci (Group i r) p q \<and> k q = Some t" by fastforce
  next
    fix p k q assume none: "run_re P ci (Group i r) p k = None" and "reaches P ci (Group i r) p q"
    then obtain b s g where q: "reaches P ci r p (b, s, g)" "q = (b, s, (i, between p (b, s, g)) # g)" by auto
    from none have "run_re P ci r p (\<lambda>p'. case p' of (b, s, g) \<Rightarrow> k (b, s, (i, between p p') # g)) = None" by simp
    from triesD(2)[OF Group.IH, OF this q(1)] show "k q = None" by (simp add: q(2))
  qed
next
  case (Ref i)
  show ?case
    by (rule triesI) (fastforce simp: take_word_def starts_with_iff split: option.splits if_splits)+
next
  case (Ahead pos r)
  have "run_re P ci r p Some = None \<longleftrightarrow> \<not> Ex (reaches P ci r p)" for p
  proof (cases "run_re P ci r p Some")
    case None
    with triesD(2)[OF Ahead.IH, OF None] show ?thesis by (metis option.distinct(1))
  next
    case (Some t)
    with triesD(1)[OF Ahead.IH, OF Some] show ?thesis by (metis option.distinct(1))
  qed
  then show ?case by (intro triesI) (auto split: if_splits)
qed (rule triesI; auto simp: step_re_def split: prod.splits list.splits if_splits)+

lemma run_re_None: "run_re P ci r p k = None \<longleftrightarrow> (\<forall>q. reaches P ci r p q \<longrightarrow> k q = None)"
  using triesD[OF run_re_tries, of P ci r p k] by (metis not_Some_eq)

lemma run_re_Some: "run_re P ci r p k = Some t \<Longrightarrow> \<exists>q. reaches P ci r p q \<and> k q = Some t"
  by (rule triesD(1)[OF run_re_tries])

section \<open>Where matches lie\<close>

text \<open>\<open>q\<close> lies ahead of \<open>p\<close> in the same text, with the text \<open>w\<close> between.\<close>

definition ahead :: "place \<Rightarrow> place \<Rightarrow> bool" where
  "ahead p q \<longleftrightarrow> (\<exists>w. fst q = rev w @ fst p \<and> fst (snd p) = w @ fst (snd q))"

lemma ahead_refl: "ahead p p"
  by (auto simp: ahead_def intro: exI[of _ "[]"])

lemma ahead_trans: "ahead p q \<Longrightarrow> ahead q r \<Longrightarrow> ahead p r"
  unfolding ahead_def by (metis append.assoc rev_append)

lemma ahead_step: "ahead (b, x # s, g) (x # b, s, g')"
  by (auto simp: ahead_def intro: exI[of _ "[x]"])

lemma ahead_relpowp: "(R ^^ n) p q \<Longrightarrow> (\<And>p q. R p q \<Longrightarrow> ahead p q) \<Longrightarrow> ahead p q"
proof (induction n arbitrary: q)
  case (Suc n)
  then obtain m where "(R ^^ n) p m" "R m q" by (metis relpowp_Suc_E)
  with Suc show ?case by (meson ahead_trans)
qed (simp add: ahead_refl)

lemma reaches_ahead: "reaches P ci r p q \<Longrightarrow> ahead p q"
proof (induction r arbitrary: p q)
  case (Seq r1 r2)
  then obtain m where "reaches P ci r1 p m" "reaches P ci r2 m q" unfolding reaches.simps(5) by blast
  with Seq.IH show ?case by (meson ahead_trans)
next
  case (Rep m n greedy r)
  then obtain p' j where "(reaches P ci r ^^ m) p p'" "((\<lambda>p q. reaches P ci r p q \<and> progress p q) ^^ j) p' q" by auto
  with Rep.IH have "ahead p p'" "ahead p' q" by (blast intro: ahead_relpowp)+
  then show ?case by (rule ahead_trans)
next
  case (Group i r)
  then show ?case by (fastforce simp: ahead_def)
next
  case (Ref i)
  then show ?case by (auto simp: ahead_def)
qed (auto intro: ahead_refl ahead_step)

lemma found_at_ahead: "ahead (b, s, g) q \<Longrightarrow> fd_before (found_at (b, s, g) q) = b
    \<and> s = fd_text (found_at (b, s, g) q) @ fd_after (found_at (b, s, g) q)"
  by (auto simp: found_at_def between_def ahead_def)

lemma match_at_Some: "match_at P ci r b s = Some f \<Longrightarrow> fd_before f = b \<and> s = fd_text f @ fd_after f"
  using found_at_ahead by (auto simp: match_at_def dest!: run_re_Some reaches_ahead)

lemma search_at_Some: "search_at P ci r b s = Some f \<Longrightarrow> \<exists>w. fd_before f = rev w @ b \<and> s = w @ fd_text f @ fd_after f"
proof (induction s arbitrary: b)
  case Nil
  then show ?case by (auto simp: search_at.simps[of _ _ _ _ "[]"] dest: match_at_Some split: option.splits)
next
  case (Cons x xs)
  show ?case
  proof (cases "match_at P ci r b (x # xs)")
    case None
    with Cons.prems have "search_at P ci r (x # b) xs = Some f" by (simp add: search_at.simps[of _ _ _ _ "x # xs"])
    from Cons.IH[OF this] obtain w where "fd_before f = rev w @ x # b" "xs = w @ fd_text f @ fd_after f" by blast
    then show ?thesis by (intro exI[of _ "x # w"]) simp
  next
    case (Some g)
    with Cons.prems have "f = g" by (simp add: search_at.simps[of _ _ _ _ "x # xs"])
    with match_at_Some[OF Some] show ?thesis by (intro exI[of _ "[]"]) simp
  qed
qed

lemma re_search_Some: "re_search P ci r s = Some f \<Longrightarrow> s = rev (fd_before f) @ fd_text f @ fd_after f"
  by (auto simp: re_search_def dest: search_at_Some)

lemma finds_text: "f \<in> set (finds n P ci r b s) \<Longrightarrow> rev (fd_before f) @ fd_text f @ fd_after f = rev b @ s"
proof (induction n arbitrary: b s)
  case (Suc n)
  from Suc.prems obtain g where g: "search_at P ci r b s = Some g"
    by (cases "search_at P ci r b s") simp_all
  from search_at_Some[OF g] have "rev (fd_before g) @ fd_text g @ fd_after g = rev b @ s" by auto
  moreover have "f = g \<or> f \<in> set (finds n P ci r (rev (fd_text g) @ fd_before g) (fd_after g))"
    using Suc.prems g by (auto split: if_splits)
  ultimately show ?case using Suc.IH by fastforce
qed simp

lemma re_findall_text: "f \<in> set (re_findall P ci r s) \<Longrightarrow> rev (fd_before f) @ fd_text f @ fd_after f = s"
  unfolding re_findall_def by (drule finds_text) simp

lemma re_sub_no_match: "re_search P ci r s = None \<Longrightarrow> re_sub P ci r f s = s"
  by (simp add: re_sub_def re_findall_def re_search_def)

end
