(* ===== verification/Titles.thy ===== *)
theory Titles
  imports Naming Patterns
begin

text \<open>
  The choice of a file name from a caption, \<open>src/tg2cloud/domain/naming.py\<close>: removing contacts from
  the edges of a name, recognizing machine-made and polluted names, reading title candidates from
  the lines of a caption, scoring them, and \<open>explain_media_name\<close>, which combines them.

  The regular expressions are terms of theory Patterns, under the names of the source. Entities of a
  message (links, spoilers, code, quotes) are offsets in UTF-16 code units, as Telegram gives them;
  the model masks the code units as the code does.
\<close>

section \<open>Words and patterns\<close>

definition TLDS :: "ustr list" where
  "TLDS = map asc
    [''com'', ''net'', ''org'', ''edu'', ''gov'', ''mil'', ''int'', ''info'', ''biz'', ''name'', ''pro'', ''aero'', ''museum'',
     ''coop'', ''travel'', ''mobi'', ''tel'', ''jobs'', ''cat'', ''asia'', ''io'', ''ai'', ''me'', ''co'', ''tv'', ''cc'', ''de'',
     ''cn'', ''uk'', ''us'', ''jp'', ''kr'', ''fr'', ''ru'', ''ca'', ''au'', ''nz'', ''ch'', ''it'', ''es'', ''nl'', ''eu'', ''hk'',
     ''tw'', ''in'', ''br'', ''sg'', ''vn'', ''th'', ''id'', ''app'', ''dev'', ''cloud'', ''online'', ''site'', ''website'',
     ''space'', ''xyz'', ''top'', ''club'', ''shop'', ''store'', ''link'', ''live'', ''vip'', ''win'', ''wiki'', ''tech'',
     ''media'', ''video'', ''download'', ''news'', ''digital'', ''solutions'', ''zone'', ''one'', ''fun'', ''lol'', ''art'',
     ''social'', ''today'', ''email'', ''click'', ''life'', ''work'', ''film'', ''movie'', ''world'', ''music'', ''network'',
     ''community'', ''agency'', ''games'', ''guide'', ''tools'', ''design'', ''test'', ''example'']
    @ [[20013, 22269], [20013, 22283], [20844, 21496], [32593, 32476], [32178, 32097], [39321, 28207], [21488,
        28286], [21488, 28771], [1088, 1092], [12415, 12435, 12394], [19990, 30028]]"

definition TECH_TITLES :: "ustr list" where
  "TECH_TITLES = map asc [''node.js'', ''vue.js'', ''next.js'', ''react.js'', ''asp.net'']"

definition SHORT_WORDS :: "ustr list" where
  "SHORT_WORDS = map asc
    [''a'', ''an'', ''the'', ''of'', ''to'', ''in'', ''and'', ''or'', ''on'', ''by'', ''for'', ''is'', ''it'',
     ''my'', ''you'', ''we'', ''me'', ''be'', ''so'', ''as'', ''at'', ''do'', ''no'', ''up'', ''go'', ''old'',
     ''new'', ''now'', ''not'', ''our'', ''all'', ''one'', ''two'', ''fun'', ''out'', ''see'', ''day'', ''sun'']"

abbreviation latin :: "cls list" where "latin \<equiv> [To 65 90, To 97 122]"
abbreviation latin_num :: "cls list" where "latin_num \<equiv> [To 65 90, To 97 122, Digits]"
abbreviation space_re :: re where "space_re \<equiv> any_of [Spaces]"
abbreviation spaces_re :: re where "spaces_re \<equiv> star_re (any_of [Spaces])"
abbreviation digits_re :: re where "digits_re \<equiv> plus_re (any_of [Digits])"
abbreviation ascii_re :: "string \<Rightarrow> re" where "ascii_re s \<equiv> word_re (asc s)"
abbreviation letters_re :: re where "letters_re \<equiv> plus_re (none_of [NonWords, Digits, One 95])"

text \<open>\<open>(?:[A-Za-z\d-]+\.)+\<close>, \<open>[A-Za-z][A-Za-z\d-]{1,62}\<close>, \<open>[^\s<>]\<close> and \<open>(?::\d+)?(?:[/?#][^\s<>]*)?\<close>.\<close>

definition host_re :: re where
  "host_re = plus_re (Seq (plus_re (any_of (latin_num @ [One 45]))) (Lit 46))"

definition tld_re :: re where
  "tld_re = Seq (any_of latin) (times_re 1 62 (any_of (latin_num @ [One 45])))"

definition url_char_re :: re where
  "url_char_re = none_of [Spaces, One 60, One 62]"

definition port_path_re :: re where
  "port_path_re = Seq (opt_re (Seq (Lit 58) digits_re))
     (opt_re (Seq (any_of [One 47, One 63, One 35]) (star_re url_char_re)))"

definition NAME_CONTACT :: re where
  "NAME_CONTACT = alt_re
    [seq_re [ascii_re ''http'', opt_re (Lit 115), ascii_re ''://'', plus_re url_char_re],
     seq_re [Behind False latin_num, ascii_re ''www.'', host_re, tld_re],
     seq_re [Alt (ascii_re ''t.me'') (ascii_re ''telegram.me''), Lit 47, plus_re (any_of (latin_num @ [One 95]))],
     seq_re [host_re, tld_re, Lit 64, plus_re (none_of [Spaces])]]"

definition DOMAIN :: re where
  "DOMAIN = seq_re [Behind False (latin_num @ [One 95, One 46, One 45]), opt_re (ascii_re ''*.''), host_re,
     Group 1 tld_re, port_path_re, opt_re (Seq (Lit 64) (star_re (any_of [Words, One 45])))]"

definition UNICODE_DOMAIN :: re where
  "UNICODE_DOMAIN = seq_re [Behind False [Words, One 46, One 45],
     plus_re (Seq (plus_re (any_of [Words, One 45])) (Lit 46)), Group 1 (times_re 2 63 (any_of [Words, One 45])), port_path_re]"

text \<open>\<open>(?=\s*[:=]|\s*$)\<close>, with the full-width colon.\<close>

definition labelled_re :: re where
  "labelled_re = Ahead True (Alt (Seq spaces_re (any_of [One 58, One 65306, One 61])) (Seq spaces_re End))"

definition NOISE :: re where
  "NOISE = seq_re [Start, star_re (any_of [NonWords, One 95]), alt_re
    [words_re [[24191, 21578, 21512, 20316], [24291, 21578, 21512, 20316]],
     Seq (words_re [[24191, 21578], [24291, 21578], [25512, 24191], [25512, 24291]]) labelled_re,
     words_re [[22791, 29992, 32593, 22336], [20633, 29992, 32178, 22336]],
     Seq (words_re [[20851, 27880], [38364, 27880], [35746, 38405], [35330, 38321], [21152, 20837], [28857,
         20987], [40670, 25802], [27426, 36814], [27489, 36814]])
       (words_re [[39057, 36947], [38971, 36947], [32676], [38142, 25509], [36899, 32080], [33719,
           21462], [29554, 21462], [35746, 38405], [35330, 38321], [20851, 27880], [38364, 27880]]),
     words_re [[19979, 36733, 38142, 25509], [19979, 36617, 36899, 32080], [36164, 28304, 38142,
         25509], [36039, 28304, 36899, 32080], [36164, 28304, 26469, 28304], [36039, 28304, 20358,
             28304], [36164, 28304, 26469, 33258], [36039, 28304, 20358, 33258]],
     seq_re [words_re [[26356, 22810, 36164, 28304], [26356, 22810, 36039,
         28304]], opt_re (words_re [[35831], [35531]]),
       words_re [[20851, 27880], [38364, 27880], [35746, 38405], [35330, 38321], [28857, 20987], [40670, 25802]]],
     Seq (words_re [[31934, 36873, 36164, 28304], [31934, 36984, 36039, 28304]]) (words_re [[20851,
         27880], [38364, 27880], [35746, 38405], [35330, 38321], [39057, 36947], [38971, 36947]]),
     seq_re [word_re [26356, 22810], opt_re (words_re [[31934, 24425], [20248, 36136], [20778, 36074]]),
       words_re [[20869, 23481], [20839, 23481], [36164, 28304], [36039, 28304]], times_re 0 32 Dot,
       words_re [[21152, 20837], [20851, 27880], [38364, 27880], [35746, 38405], [35330, 38321], [20250,
           21592], [26371, 21729]]],
     seq_re [words_re [[26412, 29255], [26412, 35270, 39057], [26412, 35222,
         38971]], words_re [[30001], [26469, 33258], [20358, 33258]], times_re 0 40 Dot,
       words_re [[39057, 36947], [38971, 36947]], times_re 0 40 Dot, words_re [[35746, 38405], [35330,
           38321], [20851, 27880], [38364, 27880]]],
     word_re [20132, 27969, 32676],
     Seq (words_re [[39057, 36947], [38971, 36947], [25991, 20214, 22823, 23567], [22823, 23567], [26102,
         38271], [26178, 38263], [20998, 36776, 29575], [26684, 24335], [26469, 28304], [20358, 28304],
       [25644, 36816], [29256, 26435], asc ''size'', asc ''password'']) labelled_re,
     Seq (words_re [[25552, 21462, 30721], [25552, 21462, 30908], [23494, 30721], [23494, 30908], [21475,
         20196], [35299, 21387], [35299, 22739]])
       (Ahead True (alt_re [Seq spaces_re (any_of [One 58, One 65306, One 61]), Seq spaces_re End,
         seq_re [plus_re space_re, plus_re (any_of (latin_num @ [One 95, One 45])), spaces_re, End]])),
     seq_re [words_re (map asc [''subscribe'', ''follow'', ''join'']), plus_re space_re, alt_re
       [Seq (ascii_re ''us'') Edge, Seq (ascii_re ''our'') Edge, Seq (ascii_re ''this'') Edge,
        seq_re [opt_re (Seq (ascii_re ''to'') (plus_re space_re)), words_re (map asc [''our'', ''the'', ''this'']),
          plus_re space_re, ascii_re ''channel'', Edge],
        Lit 64]],
     seq_re [ascii_re ''subscribe'', spaces_re, End],
     seq_re [ascii_re ''download'', plus_re space_re, ascii_re ''link'', Edge],
     word_re [12481, 12515, 12531, 12493, 12523, 30331, 37682],
     seq_re [word_re [44396, 46021], spaces_re, words_re [[54616, 44592], [54644, 51452, 49464, 50836]]],
     seq_re [word_re [54036, 47196, 50864], spaces_re, words_re [[54616, 44592], [54644, 51452, 49464, 50836]]]]]"

text \<open>\<open>[A-Za-z\d_!@#$%^&*+?.=-]\<close>.\<close>

definition secret_chars :: "cls list" where
  "secret_chars = latin_num @ map One [95, 33, 64, 35, 36, 37, 94, 38, 42, 43, 63, 46, 61, 45]"

definition METADATA_VALUE :: re where
  "METADATA_VALUE = seq_re [Start, star_re (any_of [NonWords, One 95]), alt_re
    [seq_re [words_re [[25991, 20214, 22823, 23567], [22823, 23567], asc ''size''], spaces_re, digits_re, opt_re (Seq (Lit 46) digits_re), spaces_re,
       alt_re [seq_re [any_of (map One [75, 77, 71, 84]), opt_re (Lit 105), Lit 66], any_of (map One [75, 77,
           71, 84]),
         Seq (ascii_re ''byte'') (opt_re (Lit 115))]],
     seq_re [words_re [[26102, 38271], [26178, 38263], asc ''duration''], spaces_re, times_re 1 3 (any_of [Digits]),
       times_re 1 2 (Seq (Lit 58) (times_re 1 2 (any_of [Digits])))],
     seq_re [words_re [[26684, 24335], asc ''format''], spaces_re,
       words_re (map asc [''MP4'', ''MKV'', ''MOV'', ''AVI'', ''WEBM'', ''M4V'', ''FLV'', ''WMV'', ''MPEG'', ''MP3'', ''FLAC'', ''PDF'', ''ZIP''])],
     seq_re [alt_re [Seq (alt_re [word_re [25552, 21462, 30721], word_re [25552, 21462,
         30908], word_re [23494, 30721], word_re [23494, 30908], word_re [21475, 20196],
           Seq (word_re [35299, 21387]) (opt_re (words_re [[30721], [30908], [23494, 30721], [23494, 30908]])),
           Seq (word_re [35299, 22739]) (opt_re (words_re [[30721], [30908], [23494, 30721], [23494,
               30908]]))]) spaces_re,
         Seq (words_re (map asc [''password'', ''passcode'', ''pwd''])) (plus_re space_re)],
       Ahead True (Seq (star_re (any_of secret_chars)) (any_of [Digits])), plus_re (any_of secret_chars)]],
    spaces_re, End]"

definition AD_TAIL :: re where
  "AD_TAIL = Seq (plus_re (any_of (Spaces # map One [124, 65372, 44, 65292, 59, 65307, 12290, 33, 65281])))
    (alt_re [words_re [[27426, 36814, 20851, 27880], [27489, 36814, 38364, 27880], [27426, 36814, 35746,
        38405], [27489, 36814, 35330, 38321], [21152, 20837, 39057, 36947], [21152, 20837, 38971,
            36947], [21152, 20837, 32676, 32452],
       [26356, 22810, 36164, 28304], [26356, 22810, 36039, 28304], [20851, 27880, 39057, 36947], [38364,
           27880, 38971, 36947], [35746, 38405, 39057, 36947], [35330, 38321, 38971, 36947], [36164, 28304,
               20998, 20139], [36039, 28304, 20998, 20139],
       [36164, 28304, 26469, 28304], [36164, 28304, 26469, 33258], [28857, 20987, 38142, 25509], [40670,
           25802, 36899, 32080], [24191, 21578, 21512, 20316], [22791, 29992, 32593, 22336]],
     seq_re [ascii_re ''follow'', plus_re space_re, ascii_re ''us'', Edge],
     seq_re [ascii_re ''subscribe'', plus_re space_re, ascii_re ''to'', Edge],
     seq_re [ascii_re ''join'', plus_re space_re, ascii_re ''our'', Edge]])"

text \<open>\<open>H\.?26[45]\<close> and \<open>WEB[- ]?DL\<close>.\<close>

definition codec_re :: re where
  "codec_re = seq_re [Lit 72, opt_re (Lit 46), ascii_re ''26'', any_of [One 52, One 53]]"

definition webdl_re :: re where
  "webdl_re = seq_re [ascii_re ''WEB'', opt_re (any_of [One 45, One 32]), ascii_re ''DL'']"

definition QUALITY :: re where
  "QUALITY = alt_re
    [seq_re [digits_re, opt_re (Seq (Lit 46) digits_re), spaces_re,
       alt_re [seq_re [any_of (map One [75, 77, 71, 84]), opt_re (Lit 105), Lit 66], any_of [One 75, One 77], Lit 80,
         ascii_re ''FPS'', word_re [20998, 38047], word_re [31186]]],
     Seq (any_of [One 50, One 52, One 56]) (Lit 75),
     words_re (map asc [''HDR'', ''UHD'', ''HD'', ''FHD'', ''HEVC'']), codec_re, words_re (map asc [''AV1'', ''1080i'']), webdl_re,
     words_re [asc ''BDRip'', asc ''BluRay'', [39640, 28165], [36229, 28165], [34013, 20809], [34253,
         20809], [35270, 39057], [35222, 38971], [23436, 25972, 29256], [23436, 25972], [20840, 38598],
       [20013, 23383], [23383, 24149, 29256], [30011, 36136], [30059, 36074], [29256]],
     any_of (Spaces # map One [124, 47, 43, 44, 45])]"

definition EPISODE :: re where
  "EPISODE = alt_re
    [seq_re [word_re [31532], spaces_re, plus_re (any_of (Digits # map One [19968, 20108, 19977, 22235, 20116,
        20845, 19971, 20843, 20061, 21313, 30334])), spaces_re,
       any_of (map One [38598, 23395, 35805, 35441, 26399, 35838, 35506, 31456])],
     seq_re [Edge, Lit 83, times_re 1 3 (any_of [Digits]), Lit 69, times_re 1 4 (any_of [Digits]), Edge],
     seq_re [Edge, words_re (map asc [''episode'', ''lesson'', ''ep'']), spaces_re, digits_re, Edge]]"

definition CAPTION_SUFFIX :: re where
  "CAPTION_SUFFIX = seq_re [Lit 46, words_re (map asc [''mp4'', ''mkv'', ''avi'', ''mov'', ''webm'', ''m4v'', ''ts'', ''flv'', ''wmv'',
     ''exe'', ''bat'', ''cmd'', ''sh'']), spaces_re, End]"

definition QUALITY_TAIL :: re where
  "QUALITY_TAIL = seq_re [Alt (plus_re space_re) (any_of [One 124, One 65372]), alt_re
    [Seq (times_re 3 4 (any_of [Digits])) (any_of [One 112, One 105]),
     seq_re [digits_re, opt_re (Seq (Lit 46) digits_re), spaces_re, ascii_re ''FPS''],
     Seq (any_of [One 50, One 52, One 56]) (Lit 75),
     Seq (ascii_re ''HDR'') (opt_re (Seq (ascii_re ''10'') (opt_re (Lit 43)))),
     words_re (map asc [''UHD'', ''FHD'', ''HEVC'']), codec_re, ascii_re ''AV1'', webdl_re,
     words_re [asc ''BDRip'', asc ''BluRay'', [20013, 23383], [23383, 24149, 29256], [39640, 28165], [36229,
         28165], [34013, 20809], [34253, 20809], [23436, 25972, 29256], [20840, 38598]]],
    spaces_re, End]"

text \<open>The groups \<open>tld\<close> and \<open>account\<close> are 1 and 2.\<close>

definition AFFIX_CONTACT :: re where
  "AFFIX_CONTACT = seq_re
    [opt_re (Alt (seq_re [ascii_re ''http'', opt_re (Lit 115), ascii_re ''://'']) (ascii_re ''www.'')),
     star_re (Seq (plus_re (any_of (latin_num @ [One 45]))) (Lit 46)),
     plus_re (any_of (latin_num @ [One 45])), any_of [One 46, One 95],
     Group 1 (times_re 2 24 (any_of latin)), Lit 64,
     Group 2 (Seq (times_re 1 64 (none_of [NonWords, One 95])) (times_re 0 4 (Seq (Lit 95) (times_re 1 32 (any_of latin_num)))))]"

definition AFFIX_SEPARATORS :: ustr where
  "AFFIX_SEPARATORS = [32, 95, 45, 8212, 124, 183]"

definition AFFIX_BRACKETS :: "(ustr \<times> ustr) list" where
  "AFFIX_BRACKETS = [([91], [93]), ([12304], [12305]), ([40], [41]), ([65288], [65289])]"

section \<open>Names\<close>

definition hits :: "platform \<Rightarrow> bool \<Rightarrow> re \<Rightarrow> ustr \<Rightarrow> bool" where
  "hits P ci r s \<longleftrightarrow> re_search P ci r s \<noteq> None"

definition fully :: "platform \<Rightarrow> bool \<Rightarrow> re \<Rightarrow> ustr \<Rightarrow> bool" where
  "fully P ci r s \<longleftrightarrow> re_fullmatch P ci r s \<noteq> None"

definition ascii_letter :: "nat \<Rightarrow> bool" where
  "ascii_letter c \<longleftrightarrow> (65 \<le> c \<and> c \<le> 90) \<or> (97 \<le> c \<and> c \<le> 122)"

definition is_alpha :: "platform \<Rightarrow> nat \<Rightarrow> bool" where
  "is_alpha P c \<longleftrightarrow> (if c < 128 then ascii_letter c else alpha_char P c)"

definition is_upper :: "platform \<Rightarrow> nat \<Rightarrow> bool" where
  "is_upper P c \<longleftrightarrow> (if c < 128 then 65 \<le> c \<and> c \<le> 90 else upper_char P c)"

definition is_ascii :: "ustr \<Rightarrow> bool" where
  "is_ascii s \<longleftrightarrow> list_all (\<lambda>c. c < 128) s"

text \<open>\<open>_random_identifier\<close>: conservative rules for machine-made names.\<close>

definition case_runs :: re where
  "case_runs = Alt (Seq (opt_re (any_of [To 65 90])) (plus_re (any_of [To 97 122])))
     (Seq (plus_re (any_of [To 65 90])) (Ahead False (any_of [To 97 122])))"

definition mixed_runs :: "platform \<Rightarrow> ustr \<Rightarrow> bool" where
  "mixed_runs P token =
    (let runs = map fd_text (re_findall P False (plus_re (any_of latin)) token);
         digits = map fd_text (re_findall P False digits_re token)
     in 2 \<le> length digits \<and> 3 \<le> length runs \<and> list_all (\<lambda>r. length r \<le> 3) runs
        \<and> length token \<le> 5 * sum_list (map length digits))"

definition short_pieces :: "platform \<Rightarrow> ustr \<Rightarrow> bool" where
  "short_pieces P token =
    (let pieces = map fd_text (re_findall P False case_runs token);
         words = length (filter (\<lambda>p. casefold P p \<in> set SHORT_WORDS) pieces)
     in if 3 \<le> words \<and> length pieces \<le> 2 * words then False
        else 6 \<le> length pieces \<and> list_all (\<lambda>p. length p \<le> 3) pieces)"

definition random_identifier :: "platform \<Rightarrow> ustr \<Rightarrow> bool" where
  "random_identifier P stem =
    (if \<not> fully P False (times_re 8 96 (any_of (latin_num @ [One 95, One 45]))) stem then False
     else if fully P False (seq_re [Rep 2 None True (Lit 95), times_re 1 8 (any_of [To 65 90, Digits]), Rep 2 None True (Lit 95)]) stem
       then True
     else let token = strip_set [95, 45, 32] stem in
       if fully P True (Rep 16 None True (any_of [To 97 102, Digits])) token then True
       else if fully P True (seq_re [Lit 115, times_re 1 3 (any_of [Digits]), Lit 101, times_re 1 4 (any_of [Digits]),
           opt_re (Seq (Lit 118) digits_re)]) token then False
       else if mixed_runs P token then True
       else if 16 \<le> length token \<and> list_all (is_alpha P) token then short_pieces P token
       else False)"

text \<open>\<open>clean_promotional_affixes\<close>: one contact at an edge of the stem, with the brackets around it.\<close>

definition closing_of :: "ustr \<Rightarrow> ustr option" where
  "closing_of c = map_option fst (find (\<lambda>(k, v). v = c) AFFIX_BRACKETS)"

definition unbracket :: "ustr \<Rightarrow> ustr \<Rightarrow> ustr \<times> ustr" where
  "unbracket pre post =
    (let (pre, post) = (case map_of AFFIX_BRACKETS (strip_set AFFIX_SEPARATORS pre) of
           Some c \<Rightarrow> if starts_with post c then ([], drop 1 post) else (pre, post)
         | None \<Rightarrow> (pre, post))
     in case closing_of (strip_set AFFIX_SEPARATORS post) of
          Some k \<Rightarrow> if ends_with pre k then (butlast pre, []) else (pre, post)
        | None \<Rightarrow> (pre, post))"

text \<open>The stem without one contact, or \<open>None\<close> when no contact stands at an edge.\<close>

fun drop_affix :: "platform \<Rightarrow> found list \<Rightarrow> ustr option" where
  "drop_affix P [] = None"
| "drop_affix P (m # ms) =
    (if casefold P (fd_group 1 m) \<notin> set TLDS then drop_affix P ms
     else case unbracket (rev (fd_before m)) (fd_after m) of (pre, post) \<Rightarrow>
       if strip_set AFFIX_SEPARATORS pre = [] then Some (lstrip_set AFFIX_SEPARATORS post)
       else if strip_set AFFIX_SEPARATORS post = [] then Some (rstrip_set AFFIX_SEPARATORS pre)
       else drop_affix P ms)"

fun drop_affixes :: "platform \<Rightarrow> nat \<Rightarrow> ustr \<Rightarrow> ustr" where
  "drop_affixes P 0 stem = stem"
| "drop_affixes P (Suc n) stem = (case drop_affix P (re_findall P True AFFIX_CONTACT stem) of
     None \<Rightarrow> stem
   | Some stem' \<Rightarrow> if stem' = stem then stem else drop_affixes P n stem')"

definition clean_promotional_affixes :: "platform \<Rightarrow> bool \<Rightarrow> ustr \<Rightarrow> ustr" where
  "clean_promotional_affixes P filename name =
    (if 64 \<notin> set name
        \<or> \<not> hits P False (seq_re [any_of [One 46, One 95], times_re 2 24 (any_of latin), Lit 64]) name then name
     else let name = nfc P (take 4096 name);
              suffix = (if filename then path_suffix name else []);
              suffix = (if plain_extension P suffix then suffix else []);
              stem = drop_affixes P 4 (take (length name - length suffix) name)
          in if stem = [] then [] else stem @ suffix)"

text \<open>\<open>_promotional_name\<close>: a contact or address in the name, unless it describes a topic.\<close>

definition topic_re :: re where
  "topic_re = words_re [[25945, 31243], [25945, 23398], [25351, 21335], [35299, 26512], [35780,
      27979], [25915, 30053], asc ''tutorial'', asc ''guide'']"

definition contact_re :: re where
  "contact_re = alt_re [Seq (Lit 64) (Rep 3 None True (any_of (latin_num @ [One 95]))),
     seq_re [ascii_re ''http'', opt_re (Lit 115), ascii_re ''://''],
     ascii_re ''www.'', ascii_re ''t.me/'', ascii_re ''telegram.me/'']"

definition promotion_re :: re where
  "promotion_re = alt_re [words_re [[20851, 27880], [35746, 38405], [21152, 20837], [39057, 36947], [25512,
      24191], [31934, 36873, 36164, 28304], [36164, 28304, 31934, 36873]],
     Seq (ascii_re ''follow'') Edge, Seq (ascii_re ''subscribe'') Edge, Seq (ascii_re ''join'') Edge]"

definition promotional_name :: "platform \<Rightarrow> ustr \<Rightarrow> bool" where
  "promotional_name P name =
    (let stem = nfkc P (take 1024 (path_stem name));
         machine = re_match P True (seq_re [Start, ascii_re ''processed'', any_of [One 95, One 45]]) stem \<noteq> None
           \<and> hits P True NAME_CONTACT stem
     in if \<not> machine \<and> hits P True topic_re stem then False
        else (hits P True contact_re stem \<and> hits P True promotion_re stem) \<or> hits P True NAME_CONTACT stem)"

section \<open>Text of a caption\<close>

text \<open>\<open>str.splitlines()\<close>: a carriage return with a line feed is one end of line; no line after the last end.\<close>

definition line_end :: "nat \<Rightarrow> bool" where
  "line_end c \<longleftrightarrow> (10 \<le> c \<and> c \<le> 13) \<or> (28 \<le> c \<and> c \<le> 30) \<or> c \<in> {133, 8232, 8233}"

fun splitlines :: "ustr \<Rightarrow> ustr list" where
  "splitlines [] = []"
| "splitlines (c # s) =
    (if c = 13 \<and> starts_with s [10] then splitlines s
     else if line_end c then [] # splitlines s
     else case splitlines s of [] \<Rightarrow> [[c]] | l # ls \<Rightarrow> (c # l) # ls)"

text \<open>\<open>str.split()\<close> at white space, and the strips without an argument.\<close>

fun split_space :: "platform \<Rightarrow> ustr \<Rightarrow> ustr list" where
  "split_space P [] = []"
| "split_space P (c # s) =
    (if space_char P c then split_space P s
     else case s of [] \<Rightarrow> [[c]]
       | x # _ \<Rightarrow> if space_char P x then [c] # split_space P s
           else case split_space P s of [] \<Rightarrow> [[c]] | w # ws \<Rightarrow> (c # w) # ws)"

definition strip_left :: "platform \<Rightarrow> ustr \<Rightarrow> ustr" where
  "strip_left P s = dropWhile (space_char P) s"

definition strip_right :: "platform \<Rightarrow> ustr \<Rightarrow> ustr" where
  "strip_right P s = rev (dropWhile (space_char P) (rev s))"

text \<open>The text before a match.\<close>

definition text_before :: "found \<Rightarrow> ustr" where
  "text_before m = rev (fd_before m)"

text \<open>\<open>_without_domains\<close>: host names become a space, unless they may be a title.\<close>

definition keep_domain :: "platform \<Rightarrow> ustr \<Rightarrow> found \<Rightarrow> bool" where
  "keep_domain P line m =
    (let token = fd_text m; tld = casefold P (fd_group 1 m) in
     if casefold P token \<in> set TECH_TITLES
        \<or> tld \<in> set (map asc [''mp4'', ''mkv'', ''avi'', ''mov'', ''webm'', ''m4v'', ''flv'', ''wmv'']) then True
     else \<not> (tld \<in> set TLDS \<or> starts_with tld (asc ''xn--'') \<or> starts_with token (asc ''www.'') \<or> starts_with token (asc ''*.'')
       \<or> list_ex (\<lambda>c. c \<in> {47, 63, 64, 35}) token
       \<or> (is_ascii token \<and> token = casefold P token \<and> list_all ascii_letter tld)
       \<or> casefold P (strip_set [32, 46] line) = casefold P token))"

definition keep_international :: "platform \<Rightarrow> ustr \<Rightarrow> found \<Rightarrow> bool" where
  "keep_international P line m =
    (let token = fd_text m; tld = casefold P (fd_group 1 m) in
     if is_ascii token then True
     else \<not> (tld \<in> set TLDS \<or> (is_ascii tld \<and> list_all ascii_letter tld
       \<and> casefold P (strip_set [32, 46] line) = casefold P token)))"

definition without_domains :: "platform \<Rightarrow> ustr \<Rightarrow> ustr" where
  "without_domains P line =
    (let line = re_sub P True DOMAIN (\<lambda>m. if keep_domain P line m then fd_text m else [32]) line;
         line = re_sub P True UNICODE_DOMAIN (\<lambda>m. if keep_international P line m then fd_text m else [32]) line
     in re_sub P False (seq_re [plus_re (Lit 42), Lit 46, plus_re (any_of [Words, One 45]), opt_re (Lit 64),
          star_re (any_of [Words, One 45])]) (\<lambda>m. [32]) line)"

text \<open>\<open>_without_quality_tail\<close>: at most eight tags at the end, never the whole line.\<close>

definition bracket_tail_re :: re where
  "bracket_tail_re = seq_re [spaces_re, any_of (map One [91, 12304, 40, 65288]),
     Group 1 (times_re 1 80 (none_of (map One [91, 93, 12304, 12305, 40, 41, 65288,
         65289]))), any_of (map One [93, 12305, 41, 65289]), spaces_re, End]"

definition tail_at :: "platform \<Rightarrow> ustr \<Rightarrow> found option" where
  "tail_at P line = (case re_search P False bracket_tail_re line of
     Some m \<Rightarrow> if re_sub P True QUALITY (\<lambda>m. []) (fd_group 1 m) = [] then Some m else re_search P True QUALITY_TAIL line
   | None \<Rightarrow> re_search P True QUALITY_TAIL line)"

fun drop_tails :: "platform \<Rightarrow> nat \<Rightarrow> ustr \<Rightarrow> ustr" where
  "drop_tails P 0 line = line"
| "drop_tails P (Suc n) line = (case tail_at P line of
     None \<Rightarrow> line
   | Some m \<Rightarrow> (let prefix = strip_right P (text_before m) in if prefix = [] then line else drop_tails P n prefix))"

definition without_quality_tail :: "platform \<Rightarrow> ustr \<Rightarrow> ustr" where
  "without_quality_tail P line = drop_tails P 8 line"

text \<open>\<open>_deduplicate_title\<close>.\<close>

definition STOPS :: ustr where
  "STOPS = [12290, 46, 33, 65281]"

definition repeated_re :: re where
  "repeated_re = seq_re [Group 1 (Rep 2 (Some 80) False Dot), plus_re (any_of (map One [12290, 33,
      65281])), spaces_re, Ref 1,
     star_re (any_of (map One [12290, 33, 65281]))]"

definition deduplicate_title :: "platform \<Rightarrow> ustr \<Rightarrow> ustr" where
  "deduplicate_title P line =
    (let words = split_space P line; middle = length words div 2;
         left = join_with [32] (take middle words); right = join_with [32] (drop middle words);
         plain = (case re_fullmatch P False repeated_re line of Some m \<Rightarrow> fd_group 1 m | None \<Rightarrow> line)
     in if 2 \<le> length words \<and> even (length words) \<and> rstrip_set STOPS left = rstrip_set STOPS right
           \<and> (2 \<le> middle \<or> list_ex (\<lambda>c. 127 < c) left \<or> list_ex (\<lambda>c. ends_with left [c]) STOPS)
        then rstrip_set STOPS left else plain)"

text \<open>\<open>_title_fragment\<close>: at most 150 bytes, cut at a clause or a word where one ends late enough.\<close>

definition title_fragment :: "platform \<Rightarrow> ustr \<Rightarrow> ustr" where
  "title_fragment P title =
    (if utf8_len title \<le> 150 then title
     else let prefix = truncate_utf8 title 150;
              ends = re_findall P False (Alt (any_of (map One [12290, 65281, 65311, 33, 63, 59, 65307, 44,
                  65292])) (plus_re space_re)) prefix
       in case find (\<lambda>m. length prefix \<le> 2 * length (fd_before m)) (rev ends) of
            Some m \<Rightarrow> rstrip_set [32, 44, 65292, 59, 65307] (text_before m)
          | None \<Rightarrow> prefix)"

text \<open>\<open>_candidate_score\<close>.\<close>

definition letter_count :: "platform \<Rightarrow> ustr \<Rightarrow> nat" where
  "letter_count P s = length (filter (\<lambda>c. is_alpha P c \<or> category P c = UM) s)"

definition word_list :: "platform \<Rightarrow> ustr \<Rightarrow> ustr list" where
  "word_list P s = map fd_text (re_findall P False letters_re s)"

text \<open>\<open>len(re.findall(r"[^\W\d_]", s))\<close>.\<close>

definition word_letters :: "platform \<Rightarrow> ustr \<Rightarrow> nat" where
  "word_letters P s = length (filter (\<lambda>c. is_word P c \<and> \<not> is_udigit P c \<and> c \<noteq> 95) s)"

definition title_case :: "platform \<Rightarrow> ustr list \<Rightarrow> bool" where
  "title_case P words \<longleftrightarrow> 2 \<le> length words \<and> length words \<le> 10
     \<and> list_all (\<lambda>w. is_upper P (hd w)
          \<or> lower P w \<in> set (map asc [''a'', ''an'', ''the'', ''of'', ''to'', ''and'', ''in''])) words"

definition candidate_score :: "platform \<Rightarrow> ustr \<Rightarrow> nat \<Rightarrow> int" where
  "candidate_score P text priority =
    (let priority = (if hits P True EPISODE text \<and> length text \<le> 80 then max priority 3 else priority);
         words = word_list P text;
         priority = (if title_case P words then max priority 2 else priority)
     in int (priority * 100 + min (letter_count P text) 40 + min (length words) 8))"

definition continues_re :: re where
  "continues_re = Seq Start (alt_re [words_re [[20197, 21450], [24182, 19988], [20006, 19988], [24182, 35760,
      24405], [21644], [21450], [19982], [33287], [36824, 26377], [36996, 26377]],
     Seq (ascii_re ''and'') Edge, Seq (ascii_re ''or'') Edge, Seq (ascii_re ''with'') Edge])"

definition continues_paragraph :: "platform \<Rightarrow> ustr \<Rightarrow> ustr \<Rightarrow> bool" where
  "continues_paragraph P previous line \<longleftrightarrow> list_ex (\<lambda>c. ends_with previous [c]) [44,
      65292, 59, 65307]
     \<or> re_match P True continues_re line \<noteq> None"

section \<open>Candidates\<close>

text \<open>
  \<open>_description_candidates\<close>: the candidates found so far, the lines of the open paragraph, whether it
  is quoted, and the line before with its priority, which a following episode may join.
\<close>

record gather =
  g_out :: "(ustr \<times> int) list"
  g_paragraph :: "ustr list"
  g_quoted :: bool
  g_adjacent :: "(ustr \<times> nat) option"

definition substance :: "platform \<Rightarrow> bool \<Rightarrow> ustr \<Rightarrow> nat" where
  "substance P quoted s = (if 12 \<le> word_letters P s then (if quoted then 2 else 1) else 0)"

definition flush :: "platform \<Rightarrow> bool \<Rightarrow> gather \<Rightarrow> gather" where
  "flush P quoted g =
    (let description = join_with [32] (g_paragraph g) in
     (if g_paragraph g = [] then g
      else g\<lparr>g_out := g_out g @ [(description, candidate_score P description (substance P (g_quoted g) description))],
             g_paragraph := []\<rparr>)\<lparr>g_quoted := quoted\<rparr>)"

text \<open>The line without quote marks and symbols.\<close>

definition bare_line :: "platform \<Rightarrow> ustr \<Rightarrow> ustr" where
  "bare_line P raw =
    (let line = strip_space P (lstrip_set (62 # [9474, 9475, 32]) (strip_space P raw))
     in strip_space P (filter (\<lambda>c. category P c \<notin> {USo, USk} \<and> c \<notin> {65038, 65039,
         8419}) line))"

definition noise_line :: "platform \<Rightarrow> ustr \<Rightarrow> bool" where
  "noise_line P line \<longleftrightarrow> line = [] \<or> re_match P True NOISE line \<noteq> None \<or> fully P True METADATA_VALUE line"

text \<open>The line without links, addresses, handles, credentials and advertisements.\<close>

definition blank_out :: "platform \<Rightarrow> bool \<Rightarrow> re \<Rightarrow> ustr \<Rightarrow> ustr" where
  "blank_out P ci r s = re_sub P ci r (\<lambda>m. [32]) s"

definition markdown_link_re :: re where
  "markdown_link_re = seq_re [opt_re (Lit 33), Lit 91, star_re (none_of [One 93]), Lit 93, Lit 40, star_re (none_of [One 41]), Lit 41]"

definition any_url_re :: re where
  "any_url_re = seq_re [any_of [To 97 122], times_re 0 31 (any_of [To 97 122, Digits, One 43, One 46, One 45]),
     ascii_re ''://'', plus_re (none_of [Spaces, One 60, One 62, One 12288])]"

definition mail_re :: re where
  "mail_re = seq_re [Edge, plus_re (any_of [Words, One 46, One 43, One 45]), Lit 64,
     plus_re (Seq (plus_re (any_of [Words, One 45])) (Lit 46)), plus_re (any_of [Words, One 45]), Edge]"

definition address_re :: re where
  "address_re = seq_re [Behind False [Words], Rep 3 (Some 3) True (Seq (times_re 1 3 (any_of [Digits])) (Lit 46)),
     times_re 1 3 (any_of [Digits]), port_path_re]"

definition handle_re :: re where
  "handle_re = Alt (Seq (Lit 64) (plus_re (any_of [Words, One 8204, One 8205])))
     (seq_re [Behind False (latin_num @ [One 95]), any_of [One 35, One 36], plus_re (any_of [Words, One 8204, One 8205])])"

definition credential_re :: re where
  "credential_re = seq_re [words_re [[25552, 21462, 30721], [25552, 21462, 30908], [23494, 30721], [23494,
      30908], [21475, 20196], [35299, 21387, 30721]], spaces_re,
     any_of [One 58, One 65306, One 61], spaces_re, plus_re (none_of [Spaces])]"

definition stripped_line :: "platform \<Rightarrow> ustr \<Rightarrow> ustr" where
  "stripped_line P line =
    (let line = clean_promotional_affixes P False line;
         line = blank_out P False markdown_link_re line;
         line = blank_out P True any_url_re line;
         line = blank_out P False mail_re line;
         line = without_domains P line;
         line = blank_out P False address_re line;
         line = blank_out P False handle_re line;
         line = blank_out P False credential_re line;
         line = (case re_search P True AD_TAIL line of Some m \<Rightarrow> text_before m | None \<Rightarrow> line)
     in without_quality_tail P line)"

definition TITLE_LABELS :: "ustr list" where
  "TITLE_LABELS = [[26631, 39064], [27161, 38988], [21517, 31216], [21517, 31281], [25991, 20214,
      21517], [27284, 21517], [35270, 39057, 26631, 39064], [35222, 38971, 27161, 38988], asc ''title'',
     asc ''filename'', [38988, 21517], [20316, 21697, 21517], [51228, 47785]]"

definition label_re :: "ustr list \<Rightarrow> re" where
  "label_re labels = seq_re [Start, words_re labels, spaces_re, any_of [One 58, One 65306], spaces_re]"

definition explicit_title :: "platform \<Rightarrow> ustr \<Rightarrow> bool" where
  "explicit_title P line \<longleftrightarrow> re_match P True (label_re TITLE_LABELS) line \<noteq> None"

definition unlabelled :: "platform \<Rightarrow> ustr \<Rightarrow> ustr" where
  "unlabelled P line = re_sub P True (label_re (TITLE_LABELS
     @ [[35270, 39057, 35828, 26126], [35270, 39057, 31616, 20171], [20869, 23481, 31616, 20171], [20869,
         23481, 25551, 36848], [25551, 36848], [35828, 26126], [31616, 20171]])) (\<lambda>m. []) line"

definition numeric_title :: "platform \<Rightarrow> bool \<Rightarrow> ustr \<Rightarrow> bool" where
  "numeric_title P explicit line \<longleftrightarrow> fully P False (times_re 1 8 (any_of [Digits])) (strip_set (32 # 34 # [12298, 12299, 12300, 12301]) line)
     \<and> (explicit \<or> starts_with line [12298] \<or> starts_with line [12300])"

definition TITLE_EDGES :: ustr where
  "TITLE_EDGES = [32, 9, 45, 34, 96, 95, 124, 58, 42, 126, 91, 93, 40, 41] @ [8212, 183, 65306, 12304, 12305,
      65288, 65289, 8220, 8221, 12300, 12301, 12302, 12303]"

definition polished :: "platform \<Rightarrow> bool \<Rightarrow> ustr \<Rightarrow> ustr" where
  "polished P numeric line =
    (let line = strip_set TITLE_EDGES (blank_out P False (plus_re space_re) line);
         line = deduplicate_title P line
     in if numeric then strip_set [12298, 12299] line else line)"

definition FILLERS :: "ustr list" where
  "FILLERS = [[35270, 39057], [25991, 20214], [36164, 28304], [36164, 28304, 20998, 20139], [36164, 28304,
      20171, 32461], [31934, 36873, 36164, 28304], [27599, 26085, 31934, 36873], [26412, 26399, 25512, 33616],
     [35270, 39057, 20171, 32461], [20869, 23481, 20171, 32461], [38142, 25509], [19979, 36733], [28857,
         20987, 36825, 37324], asc ''video'', asc ''download'', asc ''link'']"

definition device_name_re :: re where
  "device_name_re = Alt (words_re (map asc [''CON'', ''PRN'', ''AUX'', ''NUL'']))
     (Seq (words_re (map asc [''COM'', ''LPT''])) (any_of [To 49 57]))"

definition unusable :: "platform \<Rightarrow> bool \<Rightarrow> bool \<Rightarrow> ustr \<Rightarrow> bool" where
  "unusable P machine numeric line \<longleftrightarrow> re_sub P True QUALITY (\<lambda>m. []) line = [] \<or> machine \<or> random_identifier P line
     \<or> fully P True device_name_re line \<or> (word_letters P line < 2 \<and> \<not> numeric) \<or> lower P line \<in> set FILLERS"

text \<open>A line that only names an episode joins the title before it.\<close>

definition joins_title :: "platform \<Rightarrow> gather \<Rightarrow> ustr \<Rightarrow> (ustr \<times> nat) option" where
  "joins_title P g line =
    (if fully P True EPISODE line then (case g_adjacent g of
         Some (title, priority) \<Rightarrow>
           if length (g_paragraph g) \<le> 1 \<and> length title \<le> 80 \<and> \<not> hits P True EPISODE title
              \<and> \<not> hits P False (any_of (map One [12290, 33, 63, 65281, 65311, 59, 65307])) title
           then Some (title, priority) else None
       | None \<Rightarrow> None) else None)"

definition add_title :: "platform \<Rightarrow> bool \<Rightarrow> ustr \<Rightarrow> gather \<Rightarrow> gather" where
  "add_title P quoted line g =
    (let g = flush P quoted g in g\<lparr>g_out := g_out g @ [(line, candidate_score P line 4)]\<rparr>)"

definition add_line :: "platform \<Rightarrow> bool \<Rightarrow> ustr \<Rightarrow> ustr \<Rightarrow> gather \<Rightarrow> gather" where
  "add_line P quoted raw line g =
    (let g = (if g_paragraph g \<noteq> [] \<and> \<not> continues_paragraph P (last (g_paragraph g)) line then flush P quoted g else g)
     in g\<lparr>g_paragraph := g_paragraph g @ [line],
          g_quoted := g_quoted g \<or> list_ex (\<lambda>c. starts_with (strip_left P raw) [c]) (62 # [8220,
              12300, 12302, 9474])\<rparr>)"

definition take_line :: "platform \<Rightarrow> bool \<Rightarrow> gather \<Rightarrow> ustr \<Rightarrow> gather" where
  "take_line P quoted g raw =
    (let skip = (flush P quoted g)\<lparr>g_adjacent := None\<rparr>; bare = bare_line P raw in
     if noise_line P bare then skip
     else let cleaned = stripped_line P bare; explicit = explicit_title P cleaned; body = unlabelled P cleaned in
       if noise_line P body then skip
       else let numeric = numeric_title P explicit body; machine = random_identifier P body;
                line = polished P numeric body; episode_only = fully P True EPISODE line in
         if unusable P machine numeric line then skip
         else case joins_title P g line of
           Some (title, priority) \<Rightarrow> (let g = flush P quoted g; combined = title @ [32] @ line in
             g\<lparr>g_out := g_out g @ [(combined, candidate_score P combined (max 3 priority))], g_adjacent := None\<rparr>)
         | None \<Rightarrow>
             if explicit \<or> numeric
             then (add_title P quoted line g)\<lparr>g_adjacent := if episode_only then None else Some (line, 4)\<rparr>
             else let g = add_line P quoted raw line g in
               g\<lparr>g_adjacent := if episode_only then None else Some (line, substance P (g_quoted g) line)\<rparr>)"

definition visible_text :: "platform \<Rightarrow> ustr \<Rightarrow> ustr" where
  "visible_text P text = filter (\<lambda>c. c \<in> {10, 13} \<or> category P c \<notin> {UCc, UCf, UCs, UCo, UCn}) (nfkc P text)"

definition description_candidates :: "platform \<Rightarrow> bool \<Rightarrow> ustr \<Rightarrow> (ustr \<times> int) list" where
  "description_candidates P quoted text =
    g_out (flush P quoted (foldl (take_line P quoted)
      \<lparr>g_out = [], g_paragraph = [], g_quoted = quoted, g_adjacent = None\<rparr> (take 64 (splitlines (visible_text P text)))))"

section \<open>Captions with entities\<close>

datatype entity_kind = Blockquote | Masked | Visible

record entity =
  en_kind :: entity_kind
  en_offset :: int
  en_length :: int

fun to_utf16 :: "ustr \<Rightarrow> nat list" where
  "to_utf16 [] = []"
| "to_utf16 (c # s) = (if c < 65536 then c # to_utf16 s
     else (55296 + (c - 65536) div 1024) # (56320 + (c - 65536) mod 1024) # to_utf16 s)"

text \<open>Decoding replaces code units without a partner by U+FFFD.\<close>

fun from_utf16 :: "nat list \<Rightarrow> ustr" where
  "from_utf16 [] = []"
| "from_utf16 (u # us) =
    (if 55296 \<le> u \<and> u < 56320 then (case us of
         v # vs \<Rightarrow> if 56320 \<le> v \<and> v < 57344 then (65536 + (u - 55296) * 1024 + (v - 56320)) # from_utf16 vs
           else 65533 # from_utf16 us
       | [] \<Rightarrow> [65533])
     else if 56320 \<le> u \<and> u < 57344 then 65533 # from_utf16 us
     else u # from_utf16 us)"

text \<open>The code units an entity covers, clipped to the caption.\<close>

definition span_of :: "nat \<Rightarrow> entity \<Rightarrow> (nat \<times> nat) option" where
  "span_of n e =
    (if en_offset e < 0 \<or> en_length e \<le> 0 then None
     else let start = nat (en_offset e); stop = min n (nat (en_offset e + en_length e))
       in if start < stop then Some (start, stop) else None)"

definition overwrite :: "nat \<Rightarrow> nat \<Rightarrow> nat list \<Rightarrow> nat list" where
  "overwrite start stop us = take start us @ replicate (stop - start) 32 @ drop stop us"

definition mask_entity :: "entity \<Rightarrow> nat list \<Rightarrow> nat list" where
  "mask_entity e us = (case (en_kind e, span_of (length us) e) of
     (Masked, Some (start, stop)) \<Rightarrow> overwrite start stop us | _ \<Rightarrow> us)"

definition quote_spans :: "nat \<Rightarrow> entity list \<Rightarrow> (nat \<times> nat) list" where
  "quote_spans n es = concat (map (\<lambda>e. case (en_kind e, span_of n e) of (Blockquote, Some sp) \<Rightarrow> [sp] | _ \<Rightarrow> []) es)"

text \<open>The first candidate with the highest score, \<open>max(candidates, key=...)\<close>.\<close>

fun best_of :: "(ustr \<times> int) \<Rightarrow> (ustr \<times> int) list \<Rightarrow> ustr \<times> int" where
  "best_of b [] = b"
| "best_of b (c # cs) = best_of (if snd b < snd c then c else b) cs"

definition caption_candidate :: "platform \<Rightarrow> ustr \<Rightarrow> entity list \<Rightarrow> ustr \<times> int" where
  "caption_candidate P caption entities =
    (let es = take 256 entities;
         units = to_utf16 (take 8192 caption);
         masked = fold mask_entity es units;
         quoted = map (\<lambda>(start, stop). description_candidates P True (from_utf16 (take (stop - start) (drop start masked))))
           (take 64 (quote_spans (length units) es))
     in case description_candidates P False (from_utf16 masked) @ concat quoted of
          [] \<Rightarrow> ([], -1)
        | c # cs \<Rightarrow> (case best_of c cs of (title, score) \<Rightarrow> (title_fragment P title, score)))"

definition caption_title :: "platform \<Rightarrow> ustr \<Rightarrow> entity list \<Rightarrow> ustr" where
  "caption_title P caption entities = fst (caption_candidate P caption entities)"

section \<open>Media names\<close>

record explained =
  x_file_name :: ustr
  x_from :: ustr
  x_reason :: ustr

definition weak_stem_re :: re where
  "weak_stem_re = alt_re
    [plus_re (any_of [Digits, NonWords, One 95]), Rep 16 None True (any_of [To 97 102, Digits]),
     seq_re [Rep 8 (Some 8) True (any_of [To 97 102, Digits]),
       Rep 3 (Some 3) True (Seq (Lit 45) (Rep 4 (Some 4) True (any_of [To 97 102, Digits]))), Lit 45,
       Rep 12 (Some 12) True (any_of [To 97 102, Digits])],
     Seq (words_re (map asc [''video'', ''vid'', ''file'', ''telegram'', ''document'', ''clip'', ''processed'', ''photo'', ''image'', ''img'']))
       (star_re (Alt (Seq (plus_re (any_of [NonWords, One 95])) (plus_re (any_of [Digits, To 97 102]))) digits_re))]"

definition media_original :: "platform \<Rightarrow> ustr \<Rightarrow> ustr \<Rightarrow> ustr \<Rightarrow> ustr \<times> ustr" where
  "media_original P cleaned fallback media_extension =
    (let original = safe_file_name P cleaned fallback;
         suffix = video_extension P original media_extension (path_suffix fallback)
     in (if casefold P media_extension \<in> set VIDEO_EXTENSIONS \<and> suffix \<noteq> path_suffix original
         then safe_file_name P (path_stem original @ suffix) fallback else original, suffix))"

definition weak_name :: "platform \<Rightarrow> ustr \<Rightarrow> ustr \<Rightarrow> bool" where
  "weak_name P cleaned original \<longleftrightarrow> cleaned = [] \<or> promotional_name P cleaned
     \<or> random_identifier P (path_stem original) \<or> fully P True weak_stem_re (path_stem original)"

text \<open>The result without a usable title: the fallback when an advertisement was all there was.\<close>

definition without_title :: "platform \<Rightarrow> ustr \<Rightarrow> ustr \<Rightarrow> ustr \<Rightarrow> ustr \<Rightarrow> ustr \<Rightarrow> ustr \<Rightarrow> explained" where
  "without_title P name cleaned original fallback suffix reason =
    (if cleaned \<noteq> name
     then \<lparr>x_file_name = safe_file_name P (path_stem fallback @ suffix) fallback, x_from = asc ''fallback'',
            x_reason = asc ''promotion_without_title''\<rparr>
     else \<lparr>x_file_name = original, x_from = (if name \<noteq> [] then asc ''original'' else asc ''fallback''), x_reason = reason\<rparr>)"

definition ends_with_ci :: "platform \<Rightarrow> ustr \<Rightarrow> ustr \<Rightarrow> bool" where
  "ends_with_ci P s suffix \<longleftrightarrow> ends_with (lower P s) (lower P suffix)"

definition title_of_caption :: "platform \<Rightarrow> ustr \<Rightarrow> entity list \<Rightarrow> ustr \<Rightarrow> ustr" where
  "title_of_caption P caption entities suffix =
    (let title = re_sub P True CAPTION_SUFFIX (\<lambda>m. []) (caption_title P caption entities)
     in if title \<noteq> [] \<and> suffix \<noteq> [] \<and> ends_with_ci P title suffix then take (length title - length suffix) title else title)"

definition explain_media_name :: "platform \<Rightarrow> ustr \<Rightarrow> ustr \<Rightarrow> ustr \<Rightarrow> entity list \<Rightarrow> ustr \<Rightarrow> explained" where
  "explain_media_name P name caption fallback entities media_extension =
    (let cleaned = clean_promotional_affixes P True name in
     case media_original P cleaned fallback media_extension of (original, suffix) \<Rightarrow>
       if \<not> weak_name P cleaned original
       then \<lparr>x_file_name = original, x_from = asc ''original'',
              x_reason = (if cleaned \<noteq> name then asc ''promotional_affixes_removed'' else asc ''meaningful_original'')\<rparr>
       else if caption = [] then without_title P name cleaned original fallback suffix (asc ''no_caption'')
       else let title = title_of_caption P caption entities suffix in
         if title = [] then without_title P name cleaned original fallback suffix (asc ''no_valid_title'')
         else let candidate = safe_file_name P (title_path_separators P title @ suffix) original in
           if suffix = [] \<or> ends_with_ci P candidate suffix
           then \<lparr>x_file_name = candidate, x_from = asc ''caption'', x_reason = asc ''caption_replaced_weak_name''\<rparr>
           else \<lparr>x_file_name = original, x_from = (if name \<noteq> [] then asc ''original'' else asc ''fallback''),
                  x_reason = asc ''safe_fallback''\<rparr>)"

definition media_file_name :: "platform \<Rightarrow> ustr \<Rightarrow> ustr \<Rightarrow> ustr \<Rightarrow> entity list \<Rightarrow> ustr \<Rightarrow> ustr" where
  "media_file_name P name caption fallback entities media_extension =
    x_file_name (explain_media_name P name caption fallback entities media_extension)"

definition video_file_name :: "platform \<Rightarrow> ustr \<Rightarrow> ustr \<Rightarrow> ustr \<Rightarrow> entity list \<Rightarrow> ustr \<Rightarrow> ustr" where
  "video_file_name P name caption fallback entities media_extension =
    media_file_name P name caption fallback entities media_extension"

text \<open>\<open>album_file_name\<close> with its pattern.\<close>

definition album_name :: "platform \<Rightarrow> ustr \<Rightarrow> ustr \<Rightarrow> nat option \<Rightarrow> ustr \<Rightarrow> ustr" where
  "album_name P title kind number extension =
    album_file_name P (re_sub P True CAPTION_SUFFIX (\<lambda>m. [])) title kind number extension"

end
