(* ===== verification/TitleLaws.thy ===== *)
theory TitleLaws
  imports Titles
begin

text \<open>
  What holds of the names \<open>explain_media_name\<close> chooses: the name is always a harmless component, a
  descriptive name is never replaced, a replaced one keeps its extension, a title has at most
  150 bytes, and text that entities hide (links, spoilers, code) has no influence on the name.
\<close>

section \<open>Masked text\<close>

lemma overwrite_length [simp]: "start \<le> stop \<Longrightarrow> stop \<le> length us \<Longrightarrow> length (overwrite start stop us) = length us"
  by (simp add: overwrite_def)

lemma overwrite_nth:
  assumes "start \<le> stop" "stop \<le> length us" "i < length us"
  shows "overwrite start stop us ! i = (if start \<le> i \<and> i < stop then 32 else us ! i)"
  using assms by (auto simp: overwrite_def nth_append)

lemma span_of_bounds: "span_of n e = Some (a, b) \<Longrightarrow> a < b \<and> b \<le> n"
  by (auto simp: span_of_def Let_def split: if_splits)

text \<open>The code units below a masking entity.\<close>

definition hidden :: "nat \<Rightarrow> entity list \<Rightarrow> nat \<Rightarrow> bool" where
  "hidden n es i \<longleftrightarrow> list_ex (\<lambda>e. en_kind e = Masked
     \<and> (case span_of n e of Some (a, b) \<Rightarrow> a \<le> i \<and> i < b | None \<Rightarrow> False)) es"

lemma mask_entity_length [simp]: "length (mask_entity e us) = length us"
  by (auto simp: mask_entity_def dest!: span_of_bounds split: entity_kind.splits option.splits prod.splits)

lemma mask_entity_nth:
  assumes "i < length us"
  shows "mask_entity e us ! i = (if hidden (length us) [e] i then 32 else us ! i)"
proof (cases "en_kind e = Masked \<and> span_of (length us) e \<noteq> None")
  case True
  then obtain a b where s: "span_of (length us) e = Some (a, b)" by auto
  with True span_of_bounds[OF s] assms show ?thesis
    by (auto simp: mask_entity_def hidden_def overwrite_nth)
next
  case False
  then show ?thesis by (auto simp: mask_entity_def hidden_def split: entity_kind.splits option.splits)
qed

lemma mask_length [simp]: "length (fold mask_entity es us) = length us"
  by (induction es arbitrary: us) auto

lemma mask_nth: "i < length us \<Longrightarrow> fold mask_entity es us ! i = (if hidden (length us) es i then 32 else us ! i)"
proof (induction es arbitrary: us)
  case (Cons e es)
  from Cons.IH[of "mask_entity e us"] Cons.prems show ?case
    by (simp add: mask_entity_nth) (auto simp: hidden_def)
qed (simp add: hidden_def)

lemma mask_same:
  assumes "length us = length vs" "\<And>i. i < length us \<Longrightarrow> \<not> hidden (length us) es i \<Longrightarrow> us ! i = vs ! i"
  shows "fold mask_entity es us = fold mask_entity es vs"
  using assms by (intro nth_equalityI) (simp_all add: mask_nth)

text \<open>Two captions that differ only in hidden text.\<close>

definition same_visible :: "entity list \<Rightarrow> ustr \<Rightarrow> ustr \<Rightarrow> bool" where
  "same_visible es c d \<longleftrightarrow> (let us = to_utf16 (take 8192 c); vs = to_utf16 (take 8192 d) in
     length us = length vs \<and> (\<forall>i < length us. hidden (length us) (take 256 es) i \<or> us ! i = vs ! i))"

lemma caption_candidate_visible: "same_visible es c d \<Longrightarrow> caption_candidate P c es = caption_candidate P d es"
proof -
  assume a: "same_visible es c d"
  let ?us = "to_utf16 (take 8192 c)" and ?vs = "to_utf16 (take 8192 d)"
  have "length ?us = length ?vs" using a by (simp add: same_visible_def Let_def)
  moreover have "fold mask_entity (take 256 es) ?us = fold mask_entity (take 256 es) ?vs"
    using a by (intro mask_same) (auto simp: same_visible_def Let_def)
  ultimately show ?thesis by (simp add: caption_candidate_def Let_def)
qed

lemma to_utf16_Nil: "to_utf16 s = [] \<longleftrightarrow> s = []"
  by (cases s) auto

text \<open>
  C39. Text hidden by an entity of the message, a link, spoiler, code, mention or the like, has no
  influence on the name: two captions of the same length in UTF-16 that agree on every code unit
  outside such entities give the same name with the same explanation.
\<close>

theorem hidden_text_ignored:
  assumes "same_visible es c d"
  shows "explain_media_name P name c fallback es ext = explain_media_name P name d fallback es ext"
proof -
  have "length (to_utf16 (take 8192 c)) = length (to_utf16 (take 8192 d))"
    using assms by (simp add: same_visible_def Let_def)
  then have nil: "c = [] \<longleftrightarrow> d = []" by (metis length_0_conv take_eq_Nil to_utf16_Nil zero_neq_numeral)
  have "caption_title P c es = caption_title P d es"
    using caption_candidate_visible[OF assms] by (simp add: caption_title_def)
  then have title: "title_of_caption P c es = title_of_caption P d es"
    by (intro ext) (simp add: title_of_caption_def)
  show ?thesis unfolding explain_media_name_def by (simp only: nil title)
qed

section \<open>Names\<close>

lemma rstrip_set_prefix: "\<exists>r. s = rstrip_set cs s @ r"
  by (metis rev_append rev_rev_ident rstrip_set_def takeWhile_dropWhile_id)

lemma rstrip_set_utf8: "utf8_len (rstrip_set cs s) \<le> utf8_len s"
  using rstrip_set_prefix[of s cs] by (metis le_add1 utf8_len_simps(3))

lemma title_fragment_bound: "utf8_len (title_fragment P title) \<le> 150"
proof (cases "utf8_len title \<le> 150")
  case False
  let ?p = "truncate_utf8 title 150"
  have p: "utf8_len ?p \<le> 150" by (rule truncate_bound)
  let ?r = "Alt (any_of (map One [12290, 65281, 65311, 33, 63, 59, 65307, 44, 65292])) (plus_re space_re)"
  have b: "utf8_len (rstrip_set cs (text_before m)) \<le> 150" if "m \<in> set (re_findall P False r ?p)" for m r cs
  proof -
    have "utf8_len (text_before m) \<le> utf8_len ?p"
      using re_findall_text[OF that] by (metis le_add1 text_before_def utf8_len_simps(3))
    with p rstrip_set_utf8[of cs "text_before m"] show ?thesis by linarith
  qed
  show ?thesis using False p b
    by (auto simp: title_fragment_def Let_def find_in split: option.splits dest!: find_in)
qed (simp add: title_fragment_def)

lemma caption_title_bound: "utf8_len (caption_title P c es) \<le> 150"
  by (auto simp: caption_title_def caption_candidate_def Let_def title_fragment_bound split: list.splits prod.splits)

lemma sub_Nil: "re_sub P True CAPTION_SUFFIX f [] = []"
  by (rule re_sub_no_match)
    (simp add: re_search_def search_at.simps[of _ _ _ _ "[]"] match_at_def CAPTION_SUFFIX_def step_re_def)

lemma media_original_harmless:
  assumes "\<And>c. is_surrogate c \<Longrightarrow> category P c = UCs"
  shows "harmless (fst (media_original P cleaned fallback ext))"
  by (auto simp: media_original_def Let_def safe_file_name_harmless[OF assms])

text \<open>How the name of a file came about.\<close>

lemma explain_cases:
  fixes P name caption fallback es ext
  defines "cleaned \<equiv> clean_promotional_affixes P True name"
  assumes m: "media_original P cleaned fallback ext = (original, suffix)"
    and x: "explain_media_name P name caption fallback es ext = x"
  obtains (kept) "x_file_name x = original" "x_from x \<noteq> asc ''caption''"
  | (fallback) "x_file_name x = safe_file_name P (path_stem fallback @ suffix) fallback" "x_from x \<noteq> asc ''caption''"
      "weak_name P cleaned original" "cleaned \<noteq> name"
  | (caption) "x_file_name x = safe_file_name P (title_path_separators P (title_of_caption P caption es suffix) @ suffix) original"
      "x_from x = asc ''caption''" "weak_name P cleaned original" "title_of_caption P caption es suffix \<noteq> []"
      "suffix = [] \<or> ends_with_ci P (x_file_name x) suffix"
proof -
  have words: "asc ''original'' \<noteq> asc ''caption''" "asc ''fallback'' \<noteq> asc ''caption''" by (simp_all add: asc_def)
  let ?title = "title_of_caption P caption es suffix"
  let ?candidate = "safe_file_name P (title_path_separators P ?title @ suffix) original"
  consider "\<not> weak_name P cleaned original" | "weak_name P cleaned original" "caption = [] \<or> ?title = []"
    | "weak_name P cleaned original" "caption \<noteq> []" "?title \<noteq> []" by blast
  then show thesis
  proof cases
    case 1
    with x m words show thesis by (intro kept) (auto simp: explain_media_name_def cleaned_def)
  next
    case 2
    then have "\<exists>r. x = without_title P name cleaned original fallback suffix r"
      using x m by (auto simp: explain_media_name_def cleaned_def Let_def)
    then obtain r where r: "x = without_title P name cleaned original fallback suffix r" ..
    show thesis
    proof (cases "cleaned = name")
      case True
      with r words show thesis by (intro kept) (auto simp: without_title_def)
    next
      case False
      with r words 2 show thesis by (intro fallback) (auto simp: without_title_def)
    qed
  next
    case 3
    show thesis
    proof (cases "suffix = [] \<or> ends_with_ci P ?candidate suffix")
      case True
      with 3 x m show thesis by (intro caption) (auto simp: explain_media_name_def cleaned_def Let_def)
    next
      case False
      with 3 x m words show thesis
        by (intro kept) (auto simp: explain_media_name_def cleaned_def Let_def split: if_splits)
    qed
  qed
qed

text \<open>
  C40. The name of a file is always a harmless component. A descriptive name is kept. A caption only ever
  replaces a machine-made or polluted name, by a title of at most 150 bytes that is not empty, and keeps
  the extension of the attachment.
\<close>

theorem media_name_safe:
  assumes "\<And>c. is_surrogate c \<Longrightarrow> category P c = UCs"
    and "media_original P (clean_promotional_affixes P True name) fallback ext = (original, suffix)"
    and "explain_media_name P name caption fallback es ext = x"
  shows "harmless (x_file_name x)
    \<and> (\<not> weak_name P (clean_promotional_affixes P True name) original \<longrightarrow> x_file_name x = original)
    \<and> (x_from x = asc ''caption'' \<longrightarrow> weak_name P (clean_promotional_affixes P True name) original
         \<and> (suffix = [] \<or> ends_with_ci P (x_file_name x) suffix)
         \<and> caption_title P caption es \<noteq> [] \<and> utf8_len (caption_title P caption es) \<le> 150)"
  using assms(2,3)
proof (cases rule: explain_cases)
  case kept
  with media_original_harmless[OF assms(1), of "clean_promotional_affixes P True name" fallback ext] assms(2)
  show ?thesis by simp
next
  case fallback
  with safe_file_name_harmless[OF assms(1)] show ?thesis by simp
next
  case caption
  have "caption_title P caption es \<noteq> []"
  proof
    assume "caption_title P caption es = []"
    then have "title_of_caption P caption es suffix = []" by (simp add: title_of_caption_def sub_Nil)
    with caption(4) show False ..
  qed
  with caption safe_file_name_harmless[OF assms(1)] caption_title_bound show ?thesis by simp
qed

section \<open>Sample names\<close>

lemma to_utf16_bmp: "list_all (\<lambda>c. c < 65536) s \<Longrightarrow> to_utf16 s = s"
  by (induction s) auto

lemma same_visible_tail:
  assumes "list_all (\<lambda>c. c < 65536) a" "list_all (\<lambda>c. c < 65536) b" "list_all (\<lambda>c. c < 65536) b'"
    and "length b = length b'" "length a + length b \<le> 8192"
    and "\<And>i. length a \<le> i \<Longrightarrow> i < length a + length b \<Longrightarrow> hidden (length a + length b) (take 256 es) i"
  shows "same_visible es (a @ b) (a @ b')"
  using assms by (auto simp: same_visible_def Let_def to_utf16_bmp nth_append)

text \<open>A camera name with a caption: a title line, and a line that is a link.\<close>

definition ex_caption :: "ustr \<Rightarrow> ustr" where
  "ex_caption link = asc ''Way Home'' @ [10] @ link"

definition ex_link :: entity where
  "ex_link = \<lparr>en_kind = Masked, en_offset = 9, en_length = 6\<rparr>"

lemma ex_platform_surrogates: "is_surrogate c \<Longrightarrow> category ascii_platform c = UCs"
  by (simp add: ascii_platform_def is_surrogate_def)

theorem media_name_safe_witness:
  "harmless (x_file_name (explain_media_name ascii_platform (asc ''video_2024.mp4'') (ex_caption (asc ''t.me/x''))
     (asc ''telegram-7.mp4'') [ex_link] (asc ''.mp4'')))"
  using media_name_safe[OF ex_platform_surrogates surjective_pairing refl] by blast

theorem hidden_text_ignored_witness:
  "explain_media_name ascii_platform (asc ''video_2024.mp4'') (ex_caption (asc ''t.me/x'')) (asc ''telegram-7.mp4'') [ex_link] (asc ''.mp4'')
     = explain_media_name ascii_platform (asc ''video_2024.mp4'') (ex_caption (asc ''secret'')) (asc ''telegram-7.mp4'') [ex_link] (asc ''.mp4'')
   \<and> ex_caption (asc ''t.me/x'') \<noteq> ex_caption (asc ''secret'')"
proof
  have "same_visible [ex_link] (ex_caption (asc ''t.me/x'')) (ex_caption (asc ''secret''))"
    unfolding ex_caption_def append_assoc[symmetric]
    by (rule same_visible_tail) (auto simp: asc_def hidden_def ex_link_def span_of_def Let_def)
  from hidden_text_ignored[OF this] show "explain_media_name ascii_platform (asc ''video_2024.mp4'') (ex_caption (asc ''t.me/x''))
        (asc ''telegram-7.mp4'') [ex_link] (asc ''.mp4'')
     = explain_media_name ascii_platform (asc ''video_2024.mp4'') (ex_caption (asc ''secret'')) (asc ''telegram-7.mp4'')
        [ex_link] (asc ''.mp4'')" .
qed (simp add: ex_caption_def asc_def)

end
