(* ===== verification/Rules.thy ===== *)
theory Rules
  imports Naming Json
begin

text \<open>
  The filter rules of a listener source: \<open>src/tg2cloud/listening/rules.py\<close>. \<open>rules_validate\<close> turns
  the stored JSON into typed rules or an error, \<open>evaluate\<close> decides on one attachment, \<open>explain\<close>
  words the decision. The reference definition \<open>admitted\<close> states the rules as a formula.

  \<open>fnmatch\<close> patterns are modelled with the two wildcards that the validator announces; a pattern
  that has a bracket after normalisation goes to the parameter \<open>classes\<close> (the character classes
  of \<open>fnmatch\<close>). \<open>mb n\<close> is the text \<open>f"{n / 1024**2:.2f}"\<close>.
\<close>

section \<open>Normalised text and lists\<close>

definition norm_text :: "platform \<Rightarrow> ustr \<Rightarrow> ustr" where
  "norm_text P s = casefold P (nfkc P s)"

definition TYPES :: "ustr list" where
  "TYPES = [lbl_video, lbl_image, lbl_audio, lbl_document, lbl_archive, lbl_other]"

definition text_item :: "json \<Rightarrow> bool" where
  "text_item j = (case as_str j of None \<Rightarrow> False
     | Some s \<Rightarrow> 1 \<le> length s \<and> length s \<le> 100 \<and> list_all (\<lambda>c. 32 \<le> c) s)"

definition texts :: "json \<Rightarrow> exc + ustr list" where
  "texts j = (case as_arr j of
     None \<Rightarrow> Inl (PlanningError msg_rule_list)
   | Some js \<Rightarrow> if 20 < length js \<or> \<not> list_all text_item js then Inl (PlanningError msg_rule_list)
                else Inr (map (\<lambda>x. the (as_str x)) js))"

section \<open>Rules\<close>

datatype name_mode = Exact | Contains | Glob

record rule_group =
  g_types :: "ustr list"
  g_extensions :: "ustr list"
  g_names :: "ustr list"
  g_name_mode :: name_mode
  g_keywords :: "ustr list"
  g_all_keywords :: bool

datatype scope = NameScope | CaptionScope | BothScope

record rules =
  u_groups :: "rule_group list"
  u_exclude :: "ustr list"
  u_min :: int
  u_max :: int
  u_scope :: scope
  u_all :: bool
  u_exclude_scope :: "scope option"

text \<open>\<open>{**defaults, **value}[key]\<close>.\<close>

definition with_default :: "json \<Rightarrow> ustr \<Rightarrow> json \<Rightarrow> json" where
  "with_default value key dflt = (case jfind value key of None \<Rightarrow> dflt | Some v \<Rightarrow> v)"

definition only_keys :: "json \<Rightarrow> ustr list \<Rightarrow> bool" where
  "only_keys j ks = (case as_obj j of None \<Rightarrow> False | Some ms \<Rightarrow> list_all (\<lambda>m. fst m \<in> set ks) ms)"

definition scope_of :: "json \<Rightarrow> scope option" where
  "scope_of j = (if as_str j = Some (asc ''name'') then Some NameScope
     else if as_str j = Some (asc ''caption'') then Some CaptionScope
     else if as_str j = Some (asc ''both'') then Some BothScope else None)"

definition name_mode_of :: "json \<Rightarrow> name_mode option" where
  "name_mode_of j = (if as_str j = Some (asc ''exact'') then Some Exact
     else if as_str j = Some (asc ''contains'') then Some Contains
     else if as_str j = Some (asc ''glob'') then Some Glob else None)"

definition keyword_mode_of :: "json \<Rightarrow> bool option" where
  "keyword_mode_of j = (if as_str j = Some (asc ''all'') then Some True
     else if as_str j = Some (asc ''any'') then Some False else None)"

definition is_alnum_char :: "platform \<Rightarrow> nat \<Rightarrow> bool" where
  "is_alnum_char P c \<longleftrightarrow> (48 \<le> c \<and> c \<le> 57) \<or> (65 \<le> c \<and> c \<le> 90) \<or> (97 \<le> c \<and> c \<le> 122)
     \<or> (128 \<le> c \<and> alnum_char P c)"

definition extension_ok :: "platform \<Rightarrow> ustr \<Rightarrow> bool" where
  "extension_ok P s \<longleftrightarrow> s \<noteq> [] \<and> length s \<le> 24 \<and> list_all (\<lambda>c. is_alnum_char P c \<or> c = 46) s"

text \<open>Testing an unhashable mode for membership in a set raises TypeError.\<close>

definition group_build ::
  "platform \<Rightarrow> json \<Rightarrow> json \<Rightarrow> ustr list \<Rightarrow> ustr list \<Rightarrow> ustr list \<Rightarrow> ustr list \<Rightarrow> exc + rule_group" where
  "group_build P names_mode words_mode types exts names words =
    (if \<not> list_all (\<lambda>t. t \<in> set TYPES) types then Inl (PlanningError msg_rule_type)
     else if \<not> hashable names_mode then Inl (TypeError [])
     else case name_mode_of names_mode of
       None \<Rightarrow> Inl (PlanningError msg_rule_type)
     | Some nm \<Rightarrow>
        if \<not> hashable words_mode then Inl (TypeError [])
        else case keyword_mode_of words_mode of
          None \<Rightarrow> Inl (PlanningError msg_rule_type)
        | Some km \<Rightarrow>
           if nm = Glob \<and> list_ex (\<lambda>s. 91 \<in> set s \<or> 93 \<in> set s) names then Inl (PlanningError msg_rule_glob)
           else let exts = map (\<lambda>s. lstrip_set [46] (norm_text P s)) exts in
             if \<not> list_all (extension_ok P) exts then Inl (PlanningError msg_rule_ext)
             else if types = [] \<and> exts = [] \<and> names = [] \<and> words = [] then Inl (PlanningError msg_rule_empty)
             else Inr \<lparr>g_types = types, g_extensions = exts, g_names = names, g_name_mode = nm,
                    g_keywords = words, g_all_keywords = km\<rparr>)"

definition group_validate :: "platform \<Rightarrow> json \<Rightarrow> exc + rule_group" where
  "group_validate P grp =
    (if \<not> only_keys grp [asc ''types'', asc ''extensions'', asc ''names'', asc ''name_mode'',
          asc ''keywords'', asc ''keyword_mode'']
     then Inl (PlanningError msg_rule_group)
     else
      bindE (texts (with_default grp (asc ''types'') (JArr []))) (\<lambda>types.
      bindE (texts (with_default grp (asc ''extensions'') (JArr []))) (\<lambda>exts.
      bindE (texts (with_default grp (asc ''names'') (JArr []))) (\<lambda>names.
      bindE (texts (with_default grp (asc ''keywords'') (JArr []))) (\<lambda>words.
      group_build P (with_default grp (asc ''name_mode'') (JStr (asc ''contains'')))
        (with_default grp (asc ''keyword_mode'') (JStr (asc ''any''))) types exts names words)))))"

fun groups_validate :: "platform \<Rightarrow> json list \<Rightarrow> exc + rule_group list" where
  "groups_validate P [] = Inr []"
| "groups_validate P (j # js) = bindE (group_validate P j) (\<lambda>g.
     bindE (groups_validate P js) (\<lambda>gs. Inr (g # gs)))"

definition size_limit :: "json \<Rightarrow> exc + int" where
  "size_limit j = (if int_in j 0 (100 * 1024 ^ 4) then Inr (the (as_int j)) else Inl (PlanningError msg_rule_size))"

text \<open>\<open>json.dumps(..., ensure_ascii=False)\<close> escapes the quote, the backslash and control characters.\<close>

definition escape_raw :: "nat \<Rightarrow> ustr" where
  "escape_raw c = (if c < 127 then escape_char c else [c])"

fun dumps_raw :: "platform \<Rightarrow> json \<Rightarrow> ustr" where
  "dumps_raw P (JStr s) = [34] @ concat (map escape_raw s) @ [34]"
| "dumps_raw P (JArr js) = [91] @ join_with (asc '', '') (map (dumps_raw P) js) @ [93]"
| "dumps_raw P (JObj ms) = [123] @ join_with (asc '', '')
     (map (\<lambda>(k, v). [34] @ concat (map escape_raw k) @ [34] @ asc '': '' @ dumps_raw P v) ms) @ [125]"
| "dumps_raw P j = dumps P j"

definition exclude_scope :: "json \<Rightarrow> exc + scope option" where
  "exclude_scope j = (if as_str j = Some (asc ''same'') then Inr None
     else case scope_of j of None \<Rightarrow> Inl (PlanningError msg_rule_exclude) | Some s \<Rightarrow> Inr (Some s))"

definition rules_validate :: "platform \<Rightarrow> json \<Rightarrow> exc + rules" where
  "rules_validate P value =
    (if \<not> only_keys value [asc ''groups'', asc ''exclude'', asc ''min_bytes'', asc ''max_bytes'',
          asc ''scope'', asc ''all_attachments'', asc ''exclude_scope'']
     then Inl (PlanningError msg_rule_field)
     else if 8192 < length (dumps_raw P value) then Inl (PlanningError msg_rule_long)
     else let sc = with_default value (asc ''scope'') (JStr (asc ''both'')) in
     if \<not> hashable sc then Inl (TypeError [])
     else case scope_of sc of
       None \<Rightarrow> Inl (PlanningError msg_rule_scope)
     | Some the_scope \<Rightarrow>
      (case as_bool (with_default value (asc ''all_attachments'') (JBool False)) of
        None \<Rightarrow> Inl (PlanningError msg_rule_scope)
      | Some every \<Rightarrow>
        bindE (size_limit (with_default value (asc ''min_bytes'') (JInt 0))) (\<lambda>low.
        bindE (size_limit (with_default value (asc ''max_bytes'') (JInt 0))) (\<lambda>high.
        if high \<noteq> 0 \<and> high < low then Inl (PlanningError msg_rule_minmax)
        else
        bindE (exclude_scope (with_default value (asc ''exclude_scope'') (JStr (asc ''same'')))) (\<lambda>ex_scope.
        bindE (texts (with_default value (asc ''exclude'') (JArr []))) (\<lambda>words.
        case as_arr (with_default value (asc ''groups'') (JArr [])) of
          None \<Rightarrow> Inl (PlanningError msg_rule_groups)
        | Some js \<Rightarrow>
           if 8 < length js then Inl (PlanningError msg_rule_groups)
           else bindE (groups_validate P js) (\<lambda>groups.
             if groups = [] \<and> \<not> every then Inl (PlanningError msg_rule_all)
             else Inr \<lparr>u_groups = groups, u_exclude = words, u_min = low, u_max = high, u_scope = the_scope,
                    u_all = every, u_exclude_scope = ex_scope\<rparr>)))))))"

section \<open>Facts of a message\<close>

record tg_file =
  f_name :: ustr
  f_ext :: ustr
  f_mime :: ustr
  f_size :: "int option"

record tg_message =
  t_number :: int
  t_chat :: int
  t_video :: bool
  t_photo :: "int option"
  t_sound :: bool
  t_document :: "int option"
  t_file :: "tg_file option"
  t_media :: bool
  t_raw_text :: ustr
  t_text :: ustr
  t_noforwards :: "bool option"
  t_grouped :: int

record item =
  i_message :: int
  i_chat :: int
  i_original :: ustr
  i_caption :: ustr
  i_size :: "int option"
  i_extension :: ustr
  i_kind :: ustr
  i_mime :: ustr
  i_media_key :: "ustr option"
  i_attachment :: bool
  i_protected :: bool
  i_group :: ustr

definition or_else :: "ustr \<Rightarrow> ustr \<Rightarrow> ustr" where
  "or_else a b = (if a \<noteq> [] then a else b)"

definition facts :: "platform \<Rightarrow> tg_message \<Rightarrow> ustr option \<Rightarrow> item" where
  "facts P m caption =
    (let kind = (if t_video m then lbl_video else if t_photo m \<noteq> None then lbl_image
                 else if t_sound m then lbl_audio else []);
         name = (case t_file m of None \<Rightarrow> [] | Some f \<Rightarrow> f_name f);
         ext = or_else (case t_file m of None \<Rightarrow> [] | Some f \<Rightarrow> f_ext f) (path_suffix name);
         mime = (case t_file m of None \<Rightarrow> [] | Some f \<Rightarrow> f_mime f)
     in \<lparr>i_message = t_number m, i_chat = t_chat m, i_original = take 1024 name,
         i_caption = take 8192 (case caption of Some c \<Rightarrow> c | None \<Rightarrow> or_else (t_raw_text m) (t_text m)),
         i_size = (case t_file m of None \<Rightarrow> None | Some f \<Rightarrow> f_size f), i_extension = ext,
         i_kind = media_type P kind mime ext, i_mime = mime,
         i_media_key = (case t_document m of Some d \<Rightarrow> Some (asc ''document:'' @ dec d)
            | None \<Rightarrow> (case t_photo m of Some p \<Rightarrow> Some (asc ''photo:'' @ dec p) | None \<Rightarrow> None)),
         i_attachment = (t_file m \<noteq> None \<and> t_media m), i_protected = (t_noforwards m \<noteq> Some False),
         i_group = (if t_grouped m = 0 then [] else dec (t_grouped m))\<rparr>)"

section \<open>Evaluation\<close>

fun wildcard :: "ustr \<Rightarrow> ustr \<Rightarrow> bool" where
  "wildcard [] s = (s = [])"
| "wildcard (p # ps) [] = (p = 42 \<and> wildcard ps [])"
| "wildcard (p # ps) (c # cs) =
     (if p = 42 then wildcard ps (c # cs) \<or> wildcard (p # ps) cs
      else (p = 63 \<or> p = c) \<and> wildcard ps cs)"

definition fn_match :: "(ustr \<Rightarrow> ustr \<Rightarrow> bool) \<Rightarrow> ustr \<Rightarrow> ustr \<Rightarrow> bool" where
  "fn_match classes name pattern = (if 91 \<in> set pattern then classes name pattern else wildcard pattern name)"

definition scoped_text :: "platform \<Rightarrow> scope \<Rightarrow> item \<Rightarrow> ustr" where
  "scoped_text P sc i = (case sc of NameScope \<Rightarrow> norm_text P (i_original i)
     | CaptionScope \<Rightarrow> norm_text P (i_caption i)
     | BothScope \<Rightarrow> norm_text P (i_original i) @ [10] @ norm_text P (i_caption i))"

definition excluded_text :: "platform \<Rightarrow> rules \<Rightarrow> item \<Rightarrow> ustr" where
  "excluded_text P u i = scoped_text P (case u_exclude_scope u of None \<Rightarrow> u_scope u | Some s \<Rightarrow> s) i"

definition name_hit :: "platform \<Rightarrow> (ustr \<Rightarrow> ustr \<Rightarrow> bool) \<Rightarrow> name_mode \<Rightarrow> ustr \<Rightarrow> ustr \<Rightarrow> bool" where
  "name_hit P classes mode name s = (case mode of
     Exact \<Rightarrow> name = norm_text P s
   | Glob \<Rightarrow> fn_match classes name (norm_text P s)
   | Contains \<Rightarrow> contains name (norm_text P s))"

fun group_loop :: "platform \<Rightarrow> (ustr \<Rightarrow> ustr \<Rightarrow> bool) \<Rightarrow> ustr \<Rightarrow> item \<Rightarrow> rule_group list \<Rightarrow> bool" where
  "group_loop P classes text i [] = False"
| "group_loop P classes text i (g # gs) =
    (let name = norm_text P (i_original i) in
     if g_types g \<noteq> [] \<and> i_kind i \<notin> set (g_types g) then group_loop P classes text i gs
     else if g_extensions g \<noteq> [] \<and> \<not> list_ex (\<lambda>s. ends_with name (46 # s)
              \<or> lstrip_set [46] (norm_text P (i_extension i)) = s) (g_extensions g)
       then group_loop P classes text i gs
     else if g_names g \<noteq> [] \<and> \<not> list_ex (name_hit P classes (g_name_mode g) name) (g_names g)
       then group_loop P classes text i gs
     else let hits = map (\<lambda>s. contains text (norm_text P s)) (g_keywords g) in
       if hits \<noteq> [] \<and> \<not> (if g_all_keywords g then list_all id hits else list_ex id hits)
       then group_loop P classes text i gs
       else True)"

definition decide :: "platform \<Rightarrow> (ustr \<Rightarrow> ustr \<Rightarrow> bool) \<Rightarrow> rules \<Rightarrow> item \<Rightarrow> bool \<Rightarrow> bool \<times> ustr" where
  "decide P classes u i source_allowed =
    (if \<not> source_allowed then (False, msg_no_access)
     else if \<not> i_attachment i then (False, msg_no_attachment)
     else if (case i_size i of None \<Rightarrow> True | Some n \<Rightarrow> n \<le> 0) then (False, msg_no_size)
     else if list_ex (\<lambda>s. contains (excluded_text P u i) (norm_text P s)) (u_exclude u)
       then (False, msg_excluded)
     else if the (i_size i) < u_min u \<or> (u_max u \<noteq> 0 \<and> u_max u < the (i_size i))
       then (False, msg_wrong_size)
     else if group_loop P classes (scoped_text P (u_scope u) i) i (u_groups u) then (True, msg_group_hit)
     else if u_all u \<and> u_groups u = [] then (True, msg_all_hit) else (False, msg_no_hit))"

definition evaluate :: "platform \<Rightarrow> (ustr \<Rightarrow> ustr \<Rightarrow> bool) \<Rightarrow> json \<Rightarrow> item \<Rightarrow> bool \<Rightarrow> exc + (bool \<times> ustr)" where
  "evaluate P classes config i source_allowed =
    bindE (rules_validate P config) (\<lambda>u. Inr (decide P classes u i source_allowed))"

section \<open>Explanations\<close>

definition explain_size :: "(int \<Rightarrow> ustr) \<Rightarrow> rules \<Rightarrow> int \<Rightarrow> ustr" where
  "explain_size mb u n = msg_size_actual @ mb n @ msg_size_open @ dec n @ msg_size_bytes @ msg_size_need
     @ (if n < u_min u then msg_size_min @ mb (u_min u) else msg_size_max @ mb (u_max u)) @ asc '' MB''"

definition field_word :: "platform \<Rightarrow> rules \<Rightarrow> ustr \<Rightarrow> ustr option" where
  "field_word P u field = find (\<lambda>s. contains (norm_text P field) (norm_text P s)) (u_exclude u)"

definition explain_word :: "platform \<Rightarrow> rules \<Rightarrow> item \<Rightarrow> ustr option" where
  "explain_word P u i =
    (let sc = (case u_exclude_scope u of None \<Rightarrow> u_scope u | Some s \<Rightarrow> s);
         worded = (\<lambda>label w. msg_word_in @ label @ msg_word_open @ w @ msg_word_close);
         by_name = (if sc = CaptionScope then None else map_option (worded lbl_file_name) (field_word P u (i_original i)));
         by_caption = (if sc = NameScope then None else map_option (worded lbl_caption) (field_word P u (i_caption i)))
     in case by_name of Some t \<Rightarrow> Some t | None \<Rightarrow> by_caption)"

definition explain ::
  "platform \<Rightarrow> (ustr \<Rightarrow> ustr \<Rightarrow> bool) \<Rightarrow> (int \<Rightarrow> ustr) \<Rightarrow> json \<Rightarrow> item \<Rightarrow> bool \<Rightarrow> exc + (bool \<times> ustr)" where
  "explain P classes mb config i source_allowed =
    bindE (evaluate P classes config i source_allowed) (\<lambda>(matched, reason).
    bindE (rules_validate P config) (\<lambda>u.
      if reason = msg_wrong_size then Inr (False, explain_size mb u (the (i_size i)))
      else case (if reason = msg_excluded then explain_word P u i else None) of
        Some t \<Rightarrow> Inr (False, t)
      | None \<Rightarrow>
        if reason = msg_no_hit
        then Inr (False, reason @ msg_hint_type @ i_kind i @ msg_hint_suffix
               @ or_else (i_extension i) msg_hint_none @ msg_hint_check)
        else Inr (matched, reason)))"

section \<open>The rules as a formula\<close>

definition group_matches :: "platform \<Rightarrow> (ustr \<Rightarrow> ustr \<Rightarrow> bool) \<Rightarrow> ustr \<Rightarrow> item \<Rightarrow> rule_group \<Rightarrow> bool" where
  "group_matches P classes text i g \<longleftrightarrow>
     (g_types g = [] \<or> i_kind i \<in> set (g_types g))
     \<and> (g_extensions g = [] \<or> (\<exists>s \<in> set (g_extensions g). ends_with (norm_text P (i_original i)) (46 # s)
            \<or> lstrip_set [46] (norm_text P (i_extension i)) = s))
     \<and> (g_names g = [] \<or> (\<exists>s \<in> set (g_names g). name_hit P classes (g_name_mode g) (norm_text P (i_original i)) s))
     \<and> (g_keywords g = [] \<or> (if g_all_keywords g
            then \<forall>s \<in> set (g_keywords g). contains text (norm_text P s)
            else \<exists>s \<in> set (g_keywords g). contains text (norm_text P s)))"

definition admitted :: "platform \<Rightarrow> (ustr \<Rightarrow> ustr \<Rightarrow> bool) \<Rightarrow> rules \<Rightarrow> item \<Rightarrow> bool \<Rightarrow> bool" where
  "admitted P classes u i source_allowed \<longleftrightarrow> source_allowed \<and> i_attachment i
     \<and> (\<exists>n. i_size i = Some n \<and> 0 < n \<and> u_min u \<le> n \<and> (u_max u = 0 \<or> n \<le> u_max u))
     \<and> (\<forall>s \<in> set (u_exclude u). \<not> contains (excluded_text P u i) (norm_text P s))
     \<and> ((\<exists>g \<in> set (u_groups u). group_matches P classes (scoped_text P (u_scope u) i) i g)
        \<or> (u_all u \<and> u_groups u = []))"

lemma group_loop_iff:
  "group_loop P classes text i gs \<longleftrightarrow> (\<exists>g \<in> set gs. group_matches P classes text i g)"
proof (induction gs)
  case (Cons g gs)
  have "group_loop P classes text i (g # gs) \<longleftrightarrow> group_matches P classes text i g \<or> group_loop P classes text i gs"
    by (auto simp: group_matches_def Let_def list_ex_iff list_all_iff)
  with Cons show ?case by simp
qed simp

lemma decide_admitted: "fst (decide P classes u i a) = admitted P classes u i a"
  by (auto simp: decide_def admitted_def group_loop_iff list_ex_iff split: option.splits)

text \<open>
  C18. The decision on an attachment is the stated rule: an attachment of known size is admitted
  exactly when the source may be read, no exclusion word occurs in the scoped text, the size is
  within the bounds, and all conditions of at least one group hold, or no group is given and all
  attachments were chosen explicitly. The loop with its early exits computes this formula.
\<close>

theorem evaluate_is_formula:
  assumes "rules_validate P config = Inr u"
  shows "\<exists>reason. evaluate P classes config i a = Inr (admitted P classes u i a, reason)"
  using assms decide_admitted[of P classes u i a]
  by (cases "decide P classes u i a") (auto simp: evaluate_def)

definition ex_rules :: json where
  "ex_rules = JObj [(asc ''all_attachments'', JBool True), (asc ''min_bytes'', JInt 5)]"

lemma ex_rules_valid: "rules_validate ascii_platform ex_rules = Inr \<lparr>u_groups = [], u_exclude = [], u_min = 5,
    u_max = 0, u_scope = BothScope, u_all = True, u_exclude_scope = None\<rparr>"
  by code_simp

theorem evaluate_is_formula_witness:
  "\<exists>reason. evaluate ascii_platform (\<lambda>a b. False) ex_rules
     (facts ascii_platform \<lparr>t_number = 1, t_chat = 2, t_video = True, t_photo = None, t_sound = False,
        t_document = Some 3, t_file = Some \<lparr>f_name = asc ''a.mp4'', f_ext = [], f_mime = [], f_size = Some 9\<rparr>,
        t_media = True, t_raw_text = [], t_text = [], t_noforwards = None, t_grouped = 0\<rparr> None) True
     = Inr (True, reason)"
  using evaluate_is_formula[OF ex_rules_valid, of "\<lambda>a b. False"
      "facts ascii_platform \<lparr>t_number = 1, t_chat = 2, t_video = True, t_photo = None, t_sound = False,
        t_document = Some 3, t_file = Some \<lparr>f_name = asc ''a.mp4'', f_ext = [], f_mime = [], f_size = Some 9\<rparr>,
        t_media = True, t_raw_text = [], t_text = [], t_noforwards = None, t_grouped = 0\<rparr> None" True]
  by (simp add: admitted_def facts_def Let_def)

section \<open>Explanations agree\<close>

lemma reasons_differ:
  "msg_no_access \<noteq> msg_wrong_size" "msg_no_attachment \<noteq> msg_wrong_size" "msg_no_size \<noteq> msg_wrong_size"
  "msg_excluded \<noteq> msg_wrong_size" "msg_group_hit \<noteq> msg_wrong_size" "msg_all_hit \<noteq> msg_wrong_size"
  "msg_no_hit \<noteq> msg_wrong_size" "msg_no_access \<noteq> msg_excluded" "msg_no_attachment \<noteq> msg_excluded"
  "msg_no_size \<noteq> msg_excluded" "msg_group_hit \<noteq> msg_excluded" "msg_all_hit \<noteq> msg_excluded"
  "msg_no_access \<noteq> msg_no_hit" "msg_no_attachment \<noteq> msg_no_hit" "msg_no_size \<noteq> msg_no_hit"
  "msg_group_hit \<noteq> msg_no_hit" "msg_all_hit \<noteq> msg_no_hit" "msg_no_hit \<noteq> msg_excluded"
  by (simp_all add: msg_no_access_def msg_no_attachment_def msg_no_size_def msg_excluded_def msg_wrong_size_def
      msg_group_hit_def msg_all_hit_def msg_no_hit_def)

lemma refused_reasons:
  "decide P classes u i a = (True, r) \<Longrightarrow> r \<in> {msg_group_hit, msg_all_hit}"
  by (auto simp: decide_def split: if_splits)

lemma explain_word_prefix: "explain_word P u i = Some t \<Longrightarrow> starts_with t msg_excluded"
  by (auto simp: explain_word_def Let_def msg_word_in_def msg_excluded_def split: option.splits if_splits)

lemma starts_with_self: "starts_with s s" "starts_with (s @ t) s"
  by (induction s) auto

text \<open>
  The explanation shown to the administrator never changes the decision: it fails exactly when
  the evaluation fails, and otherwise has the same verdict, and a text that begins with the
  journal's reason.
\<close>

theorem explain_agrees:
  "case evaluate P classes config i a of
     Inl e \<Rightarrow> explain P classes mb config i a = Inl e
   | Inr (verdict, reason) \<Rightarrow> \<exists>t. explain P classes mb config i a = Inr (verdict, t) \<and> starts_with t reason"
proof (cases "rules_validate P config")
  case (Inl e)
  then show ?thesis by (simp add: evaluate_def explain_def)
next
  case (Inr u)
  obtain b r where d: "decide P classes u i a = (b, r)" by (cases "decide P classes u i a")
  have pos: "r \<noteq> msg_wrong_size \<and> r \<noteq> msg_excluded \<and> r \<noteq> msg_no_hit" if b
    using refused_reasons[of P classes u i a r] d that reasons_differ by auto
  have "\<exists>t. explain P classes mb config i a = Inr (b, t) \<and> starts_with t r"
  proof (cases b)
    case True
    with pos Inr d show ?thesis by (simp add: explain_def evaluate_def starts_with_self)
  next
    case False
    with Inr d show ?thesis
      by (auto simp: explain_def evaluate_def starts_with_self explain_word_prefix explain_size_def
          msg_size_actual_def msg_wrong_size_def split: option.splits)
  qed
  then show ?thesis using Inr d by (simp add: evaluate_def)
qed

section \<open>What validated rules are\<close>

definition bounded_texts :: "ustr list \<Rightarrow> bool" where
  "bounded_texts ss \<longleftrightarrow> length ss \<le> 20 \<and> (\<forall>s \<in> set ss. 1 \<le> length s \<and> length s \<le> 100)"

definition group_ok :: "rule_group \<Rightarrow> bool" where
  "group_ok g \<longleftrightarrow> bounded_texts (g_names g) \<and> bounded_texts (g_keywords g) \<and> set (g_types g) \<subseteq> set TYPES
     \<and> length (g_extensions g) \<le> 20 \<and> (\<forall>s \<in> set (g_extensions g). s \<noteq> [] \<and> length s \<le> 24)
     \<and> (g_types g \<noteq> [] \<or> g_extensions g \<noteq> [] \<or> g_names g \<noteq> [] \<or> g_keywords g \<noteq> [])"

definition rules_ok :: "rules \<Rightarrow> bool" where
  "rules_ok u \<longleftrightarrow> length (u_groups u) \<le> 8 \<and> (\<forall>g \<in> set (u_groups u). group_ok g)
     \<and> bounded_texts (u_exclude u) \<and> 0 \<le> u_min u \<and> (u_max u = 0 \<or> u_min u \<le> u_max u)
     \<and> u_max u \<le> 100 * 1024 ^ 4 \<and> (u_groups u = [] \<longrightarrow> u_all u)"

lemma texts_Inr: "texts j = Inr ss \<Longrightarrow> bounded_texts ss"
proof -
  assume a: "texts j = Inr ss"
  have item: "text_item x \<Longrightarrow> 1 \<le> length (the (as_str x)) \<and> length (the (as_str x)) \<le> 100" for x
    by (auto simp: text_item_def split: option.splits)
  from a obtain js where "length js \<le> 20" "\<forall>x \<in> set js. text_item x" "ss = map (\<lambda>x. the (as_str x)) js"
    by (auto simp: texts_def list_all_iff not_less split: option.splits if_splits)
  with item show ?thesis by (auto simp: bounded_texts_def)
qed

lemma group_build_Inr:
  assumes "group_build P nj kj types exts names words = Inr g"
  shows "g_types g = types" "set types \<subseteq> set TYPES" "g_names g = names" "g_keywords g = words"
    "g_extensions g = map (\<lambda>s. lstrip_set [46] (norm_text P s)) exts"
    "list_all (extension_ok P) (g_extensions g)"
    "g_types g \<noteq> [] \<or> g_extensions g \<noteq> [] \<or> g_names g \<noteq> [] \<or> g_keywords g \<noteq> []"
  using assms unfolding group_build_def Let_def list_all_iff[of "\<lambda>t. t \<in> set TYPES"]
  by (auto split: if_split_asm option.split_asm)

lemma group_validate_ok:
  assumes "group_validate P j = Inr g"
  shows "group_ok g"
proof -
  from assms obtain types exts names words nj kj where t: "texts (with_default j (asc ''extensions'') (JArr [])) = Inr exts"
      "texts (with_default j (asc ''names'') (JArr [])) = Inr names"
      "texts (with_default j (asc ''keywords'') (JArr [])) = Inr words"
    and g: "group_build P nj kj types exts names words = Inr g"
    by (auto simp: group_validate_def bindE_Inr split: if_split_asm)
  have "length exts \<le> 20" "bounded_texts names" "bounded_texts words"
    using t[THEN texts_Inr] by (simp_all add: bounded_texts_def)
  with group_build_Inr[OF g] show ?thesis by (auto simp: group_ok_def list_all_iff extension_ok_def)
qed

lemma groups_validate_ok:
  "groups_validate P js = Inr gs \<Longrightarrow> length gs = length js \<and> (\<forall>g \<in> set gs. group_ok g)"
  by (induction js arbitrary: gs) (auto simp: bindE_Inr group_validate_ok)

lemma size_limit_Inr: "size_limit j = Inr n \<Longrightarrow> 0 \<le> n \<and> n \<le> 100 * 1024 ^ 4"
  by (auto simp: size_limit_def int_in_def split: if_splits option.splits)

text \<open>
  C31. Accepted rules are finite and never match by accident: whatever JSON is stored, when it is
  accepted there are at most eight groups, every group states at least one condition, all lists
  and texts are bounded, the size bounds are consistent, and an empty set of groups is only
  accepted together with the explicit choice of all attachments.
\<close>

theorem accepted_rules_ok:
  assumes "rules_validate P value = Inr u"
  shows "rules_ok u"
proof -
  from assms obtain js sc every low high ex_scope words gs where u: "u = \<lparr>u_groups = gs, u_exclude = words,
      u_min = low, u_max = high, u_scope = sc, u_all = every, u_exclude_scope = ex_scope\<rparr>"
    and "groups_validate P js = Inr gs" "length js \<le> 8" "gs = [] \<longrightarrow> every" "texts (with_default value (asc ''exclude'') (JArr [])) = Inr words"
    "size_limit (with_default value (asc ''min_bytes'') (JInt 0)) = Inr low"
    "size_limit (with_default value (asc ''max_bytes'') (JInt 0)) = Inr high" "\<not> (high \<noteq> 0 \<and> high < low)"
    unfolding rules_validate_def Let_def
    by (auto simp: bindE_Inr not_less split: if_splits option.splits)
  then show ?thesis
    using groups_validate_ok[of P js gs] texts_Inr[of _ words] size_limit_Inr
    by (auto simp: rules_ok_def not_less)
qed

theorem accepted_rules_ok_witness:
  "rules_ok \<lparr>u_groups = [], u_exclude = [], u_min = 5, u_max = 0, u_scope = BothScope, u_all = True,
     u_exclude_scope = None\<rparr>"
  by (rule accepted_rules_ok[OF ex_rules_valid])

end
