(* ===== verification/Profiles.thy ===== *)
theory Profiles
  imports Rules Classification
begin

text \<open>
  The configuration records of plans and sources: the naming profile of
  \<open>src/tg2cloud/domain/planning.py\<close> (\<open>profile\<close>) and the stored form of the rules, as
  \<open>listening/rules.py\<close> (\<open>validate\<close>) returns them.

  A template that is accepted names only known fields and has no stray brace.
\<close>

section \<open>Naming profiles\<close>

definition DEFAULT_PROFILE :: "(ustr \<times> json) list" where
  "DEFAULT_PROFILE = [(asc ''mode'', JStr (asc ''compatible'')), (asc ''template'', JStr (asc ''{title} {episode}'')),
     (asc ''prefixes'', JArr []), (asc ''suffixes'', JArr []), (asc ''label'', JStr []), (asc ''directory'', JStr [])]"

definition FIELDS :: "ustr list" where
  "FIELDS = [asc ''title'', asc ''episode'', asc ''season'', asc ''chapter'', asc ''year'', asc ''resolution'',
     asc ''language'', asc ''version'']"

text \<open>
  \<open>re.findall(r"\{([^{}]*)\}", s)\<close> and what \<open>re.sub\<close> leaves when these matches are removed; the first
  argument is the text since an opening brace.
\<close>

fun braces :: "ustr option \<Rightarrow> ustr \<Rightarrow> ustr list \<times> ustr" where
  "braces None [] = ([], [])"
| "braces (Some acc) [] = ([], 123 # acc)"
| "braces None (c # s) =
    (if c = 123 then braces (Some []) s else (case braces None s of (ts, r) \<Rightarrow> (ts, c # r)))"
| "braces (Some acc) (c # s) =
    (if c = 123 then (case braces (Some []) s of (ts, r) \<Rightarrow> (ts, 123 # acc @ r))
     else if c = 125 then (case braces None s of (ts, r) \<Rightarrow> (acc # ts, r))
     else braces (Some (acc @ [c])) s)"

definition template_ok :: "ustr \<Rightarrow> bool" where
  "template_ok s = (case braces None s of (ts, r) \<Rightarrow> list_all (\<lambda>t. t \<in> set FIELDS) ts \<and> 123 \<notin> set r \<and> 125 \<notin> set r)"

definition profile_text :: "json \<Rightarrow> bool" where
  "profile_text j = (case as_str j of None \<Rightarrow> False | Some s \<Rightarrow> length s \<le> 200 \<and> \<not> list_ex (\<lambda>c. c < 32) s)"

definition profile_list :: "json \<Rightarrow> bool" where
  "profile_list j = (case as_arr j of None \<Rightarrow> False
     | Some js \<Rightarrow> length js \<le> 12 \<and> list_all (\<lambda>x. case as_str x of None \<Rightarrow> False
         | Some s \<Rightarrow> 1 \<le> length s \<and> length s \<le> 80 \<and> \<not> list_ex (\<lambda>c. c < 32) s) js)"

text \<open>\<open>safe_directory\<close> of a value that may not be a string.\<close>

definition safe_directory_json :: "platform \<Rightarrow> json \<Rightarrow> exc + ustr" where
  "safe_directory_json P j = (case as_str j of None \<Rightarrow> Inl (TypeError []) | Some s \<Rightarrow> safe_directory P s)"

definition profile_check :: "platform \<Rightarrow> (ustr \<times> json) list \<Rightarrow> exc + json" where
  "profile_check P ms =
    (let v = jget (JObj ms) in
     if \<not> same_keys ms (map fst DEFAULT_PROFILE) then Inl (PlanningError msg_profile_unknown)
     else if \<not> hashable (v (asc ''mode'')) then Inl (TypeError [])
     else if \<not> str_in (v (asc ''mode'')) [asc ''compatible'', asc ''caption'', asc ''template'']
       then Inl (PlanningError msg_profile_mode)
     else if \<not> profile_text (v (asc ''template'')) \<or> \<not> profile_text (v (asc ''label''))
       then Inl (PlanningError msg_profile_text)
     else if \<not> template_ok (the (as_str (v (asc ''template'')))) then Inl (PlanningError msg_profile_fields)
     else if \<not> profile_list (v (asc ''prefixes'')) \<or> \<not> profile_list (v (asc ''suffixes''))
       then Inl (PlanningError msg_profile_lists)
     else bindE (safe_directory_json P (v (asc ''directory''))) (\<lambda>dir.
       Inr (JObj (put_member (asc ''directory'') (JStr dir) ms))))"

definition profile :: "platform \<Rightarrow> json \<Rightarrow> exc + json" where
  "profile P j = (case j of
     JNull \<Rightarrow> profile_check P DEFAULT_PROFILE
   | JObj ms \<Rightarrow> profile_check P (update_members DEFAULT_PROFILE ms)
   | _ \<Rightarrow> Inl (PlanningError msg_profile_object))"

definition profile_directory :: "json \<Rightarrow> ustr" where
  "profile_directory j = (case as_str (jget j (asc ''directory'')) of None \<Rightarrow> [] | Some s \<Rightarrow> s)"

section \<open>Stored rules\<close>

definition RULE_DEFAULTS :: "(ustr \<times> json) list" where
  "RULE_DEFAULTS = [(asc ''groups'', JArr []), (asc ''exclude'', JArr []), (asc ''min_bytes'', JInt 0),
     (asc ''max_bytes'', JInt 0), (asc ''scope'', JStr (asc ''both'')), (asc ''all_attachments'', JBool False)]"

definition GROUP_DEFAULTS :: "(ustr \<times> json) list" where
  "GROUP_DEFAULTS = [(asc ''types'', JArr []), (asc ''extensions'', JArr []), (asc ''names'', JArr []),
     (asc ''name_mode'', JStr (asc ''contains'')), (asc ''keywords'', JArr []), (asc ''keyword_mode'', JStr (asc ''any''))]"

definition members :: "json \<Rightarrow> (ustr \<times> json) list" where
  "members j = (case as_obj j of None \<Rightarrow> [] | Some ms \<Rightarrow> ms)"

text \<open>What \<open>validate\<close> returns: the defaults, the given members, and the normalised extensions.\<close>

definition group_stored :: "json \<Rightarrow> rule_group \<Rightarrow> json" where
  "group_stored j g = JObj (put_member (asc ''extensions'') (JArr (map JStr (g_extensions g)))
     (update_members GROUP_DEFAULTS (members j)))"

definition rules_stored :: "json \<Rightarrow> rules \<Rightarrow> json" where
  "rules_stored j u =
    (let js = (case as_arr (with_default j (asc ''groups'') (JArr [])) of None \<Rightarrow> [] | Some js \<Rightarrow> js)
     in JObj (put_member (asc ''groups'') (JArr (map2 group_stored js (u_groups u)))
          (update_members RULE_DEFAULTS (members j))))"

definition validate_rules :: "platform \<Rightarrow> json \<Rightarrow> exc + json" where
  "validate_rules P j = bindE (rules_validate P j) (\<lambda>u. Inr (rules_stored j u))"

section \<open>Lemmas\<close>

lemma default_profile_valid:
  "profile ascii_platform JNull = Inr (JObj DEFAULT_PROFILE)"
  by code_simp

end
