(* ===== verification/NamePlan.thy ===== *)
theory NamePlan
  imports TitleLaws Profiles
begin

text \<open>
  The naming plan shared by manual delivery and listening sources, \<open>src/tg2cloud/domain/planning.py\<close>:
  \<open>fields\<close> reads season, episode, chapter and other facts from a text, \<open>name_plan\<close> proposes a name by
  the profile of the user or source: the compatible name, the title of the caption, or a template.

  Shown: every proposal is a harmless file name; the episode and chapter of a file are never lost
  by a caption title or a template; contradicting facts keep the compatible name.
\<close>

section \<open>Facts of a text\<close>

record name_fields =
  nf_title :: ustr
  nf_episode :: ustr
  nf_season :: ustr
  nf_chapter :: ustr
  nf_year :: ustr
  nf_resolution :: ustr
  nf_language :: ustr
  nf_version :: ustr

text \<open>\<open>int(s)\<close> of decimal digits of any script, and \<open>str(n).zfill(2)\<close>.\<close>

definition number_of :: "platform \<Rightarrow> ustr \<Rightarrow> nat" where
  "number_of P s = foldl (\<lambda>n c. 10 * n + (if c < 128 then c - 48 else digit_value P c)) 0 s"

definition padded :: "platform \<Rightarrow> ustr \<Rightarrow> ustr" where
  "padded P s = dec02 (number_of P s)"

text \<open>The first group with text.\<close>

definition first_group :: "nat list \<Rightarrow> found \<Rightarrow> ustr" where
  "first_group gs m = (case find (\<lambda>g. fd_group g m \<noteq> []) gs of Some g \<Rightarrow> fd_group g m | None \<Rightarrow> [])"

definition season_re :: re where
  "season_re = Alt (seq_re [word_re [31532], spaces_re, Group 1 (times_re 1 3 (any_of [Digits])), spaces_re, word_re [23395]])
     (seq_re [Edge, Lit 83, Group 2 (times_re 1 3 (any_of [Digits])), Ahead True (Alt (Lit 69) Edge)])"

definition episode_re :: re where
  "episode_re = Alt (seq_re [word_re [31532], spaces_re, Group 1 (times_re 1 4 (any_of [Digits])), spaces_re, any_of (map One [38598, 35805, 35441])])
     (seq_re [Edge, opt_re (Seq (Lit 83) (times_re 1 3 (any_of [Digits]))), Lit 69, opt_re (Lit 80), opt_re (any_of [One 32, One 46]),
       Group 2 (times_re 1 4 (any_of [Digits])), Edge])"

definition chapter_re :: re where
  "chapter_re = seq_re [word_re [31532], spaces_re, times_re 1 4 (any_of [Digits]), spaces_re, any_of (map One [35762, 35611, 31456, 35506, 35838])]"

definition year_re :: re where
  "year_re = seq_re [Behind False [Digits], words_re (map asc [''19'', ''20'']), Rep 2 (Some 2) True (any_of [Digits]),
     Ahead False (any_of [Digits])]"

definition resolution_re :: re where
  "resolution_re = seq_re [Edge, words_re (map asc [''720p'', ''1080p'', ''2160p'', ''4K'', ''8K'']), Edge]"

definition language_re :: re where
  "language_re = words_re [[20013, 25991, 23383, 24149], [31616, 20307, 20013, 23383], [32321, 20307, 20013,
      23383], [21452, 35821, 23383, 24149], [26085, 26412, 35486], asc ''English'', [54620, 44397, 50612]]"

definition version_re :: re where
  "version_re = seq_re [Edge, Lit 118, digits_re, times_re 0 3 (Seq (Lit 46) digits_re), Edge]"

definition matched :: "platform \<Rightarrow> bool \<Rightarrow> re \<Rightarrow> ustr \<Rightarrow> ustr" where
  "matched P ci r s = (case re_search P ci r s of Some m \<Rightarrow> fd_text m | None \<Rightarrow> [])"

definition name_facts :: "platform \<Rightarrow> ustr \<Rightarrow> name_fields" where
  "name_facts P text =
    (let t = nfc P (take 8192 text);
         season = (case re_search P True season_re t of Some m \<Rightarrow> 83 # padded P (first_group [1,
             2] m) | None \<Rightarrow> []);
         episode = (case re_search P True episode_re t of
             Some m \<Rightarrow> season @ 69 # padded P (first_group [1, 2] m) | None \<Rightarrow> [])
     in \<lparr>nf_title = [], nf_episode = episode, nf_season = season, nf_chapter = matched P False chapter_re t,
         nf_year = matched P True year_re t, nf_resolution = matched P True resolution_re t,
         nf_language = matched P True language_re t, nf_version = matched P True version_re t\<rparr>)"

section \<open>Clean-up by the profile\<close>

fun after_first :: "ustr \<Rightarrow> ustr \<Rightarrow> ustr option" where
  "after_first s [] = (if starts_with [] s then Some [] else None)"
| "after_first s (c # t) = (if starts_with (c # t) s then Some (drop (length s) (c # t)) else after_first s t)"

definition removeprefix :: "ustr \<Rightarrow> ustr \<Rightarrow> ustr" where
  "removeprefix p s = (if starts_with s p then drop (length p) s else s)"

definition removesuffix :: "ustr \<Rightarrow> ustr \<Rightarrow> ustr" where
  "removesuffix p s = (if p \<noteq> [] \<and> ends_with s p then take (length s - length p) s else s)"

definition on_lines :: "(ustr \<Rightarrow> ustr) \<Rightarrow> ustr \<Rightarrow> ustr" where
  "on_lines f s = join_with [10] (map f (splitlines s))"

definition option_texts :: "json \<Rightarrow> ustr \<Rightarrow> ustr list" where
  "option_texts options k = (case as_arr (jget options k) of None \<Rightarrow> []
     | Some js \<Rightarrow> map (\<lambda>j. case as_str j of None \<Rightarrow> [] | Some s \<Rightarrow> s) js)"

definition option_text :: "json \<Rightarrow> ustr \<Rightarrow> ustr" where
  "option_text options k = (case as_str (jget options k) of None \<Rightarrow> [] | Some s \<Rightarrow> s)"

definition cleaned_caption :: "json \<Rightarrow> ustr \<Rightarrow> ustr" where
  "cleaned_caption options caption =
    (let text = take 8192 caption; label = option_text options (asc ''label'');
         lines = List.map_filter (after_first label) (splitlines text);
         text = (if label \<noteq> [] \<and> lines \<noteq> [] then join_with [10] lines else text);
         text = fold (\<lambda>p. on_lines (removeprefix p)) (option_texts options (asc ''prefixes'')) text
     in fold (\<lambda>p. on_lines (removesuffix p)) (option_texts options (asc ''suffixes'')) text)"

definition cleaned_original :: "platform \<Rightarrow> json \<Rightarrow> ustr \<Rightarrow> ustr" where
  "cleaned_original P options original =
    (let name = clean_promotional_affixes P True original;
         name = fold removeprefix (option_texts options (asc ''prefixes'')) name
     in fold (\<lambda>p n. removesuffix p (path_stem n) @ path_suffix n) (option_texts options (asc ''suffixes'')) name)"

section \<open>The proposed stem\<close>

definition token_re :: re where
  "token_re = alt_re
    [seq_re [word_re [31532], spaces_re, digits_re, spaces_re, any_of (map One [23395, 38598, 35805, 35441,
        35762, 35611, 31456, 35506, 35838])],
     seq_re [Edge, Lit 83, digits_re, Lit 69, digits_re, Edge], seq_re [Edge, Lit 69, digits_re, Edge]]"

definition field_of :: "name_fields \<Rightarrow> ustr \<Rightarrow> ustr" where
  "field_of f k =
    (if k = asc ''title'' then nf_title f else if k = asc ''episode'' then nf_episode f
     else if k = asc ''season'' then nf_season f else if k = asc ''chapter'' then nf_chapter f
     else if k = asc ''year'' then nf_year f else if k = asc ''resolution'' then nf_resolution f
     else if k = asc ''language'' then nf_language f else nf_version f)"

definition slot_re :: re where
  "slot_re = seq_re [Lit 123, Group 1 (plus_re (none_of [One 123, One 125])), Lit 125]"

text \<open>A separator followed by further separators.\<close>

definition separators_re :: re where
  "separators_re = seq_re [Group 1 (any_of (map One [124, 183, 95, 45])), plus_re space_re,
     plus_re (Seq (any_of (map One [124, 183, 95, 45])) spaces_re)]"

text \<open>\<open>stem += " " + data[key]\<close> where the stem names none of its own.\<close>

definition add_fact :: "platform \<Rightarrow> (name_fields \<Rightarrow> ustr) \<Rightarrow> name_fields \<Rightarrow> ustr \<Rightarrow> ustr" where
  "add_fact P f data stem =
    (if f data \<noteq> [] \<and> f (name_facts P stem) = [] then stem @ 32 # f data else stem)"

definition filled_template :: "platform \<Rightarrow> ustr \<Rightarrow> name_fields \<Rightarrow> ustr" where
  "filled_template P template data =
    (let stem = re_sub P False slot_re (\<lambda>m. field_of data (fd_group 1 m)) template;
         stem = re_sub P False separators_re (\<lambda>m. fd_group 1 m @ [32]) stem
     in strip_set [32, 45, 95, 183, 124] (blank_out P False (plus_re space_re) stem))"

text \<open>The template's stem, and the facts with the title it used.\<close>

definition template_stem :: "platform \<Rightarrow> ustr \<Rightarrow> ustr \<Rightarrow> name_fields \<Rightarrow> name_fields \<times> ustr" where
  "template_stem P template title data =
    (let bare = strip_space P (re_sub P True token_re (\<lambda>m. []) title);
         data = data\<lparr>nf_title := if bare \<noteq> [] then bare else title\<rparr>
     in (data, add_fact P nf_chapter data (add_fact P nf_episode data (filled_template P template data))))"

definition add_token :: "platform \<Rightarrow> ustr \<Rightarrow> ustr \<Rightarrow> ustr" where
  "add_token P token stem =
    (if token \<noteq> [] \<and> \<not> contains stem token \<and> nf_episode (name_facts P stem) = [] \<and> nf_chapter (name_facts P stem) = []
     then stem @ 32 # token else stem)"

definition caption_stem :: "platform \<Rightarrow> ustr \<Rightarrow> name_fields \<Rightarrow> ustr" where
  "caption_stem P title data = add_token P (nf_chapter data) (add_token P (nf_episode data) title)"

section \<open>The plan\<close>

record naming =
  nm_file_name :: ustr
  nm_basis :: ustr
  nm_fields :: name_fields
  nm_profile :: json

definition basis_compatible :: ustr where
  "basis_compatible = [20860, 23481, 21629, 21517, 65288, 26377, 25928, 21407, 21517, 20248, 20808, 65292,
      35828, 26126, 19982, 40664, 35748, 21517, 20828, 24213, 65289]"

definition basis_conflict :: ustr where
  "basis_conflict = [35828, 26126, 19982, 21407, 21517, 23395, 38598, 20914, 31361, 65292, 20445, 30041,
      20860, 23481, 21629, 21517]"

definition basis_caption :: ustr where
  "basis_caption = [35828, 26126, 26631, 39064]"

definition basis_template :: ustr where
  "basis_template = [24050, 35782, 21035, 23383, 27573, 27169, 26495, 65288, 32570, 39033, 30465, 30053, 65289]"

definition conflicting :: "name_fields \<Rightarrow> name_fields \<Rightarrow> bool" where
  "conflicting own description \<longleftrightarrow>
    (nf_episode own \<noteq> [] \<and> nf_episode description \<noteq> [] \<and> nf_episode own \<noteq> nf_episode description)
    \<or> (nf_chapter own \<noteq> [] \<and> nf_chapter description \<noteq> [] \<and> nf_chapter own \<noteq> nf_chapter description)"

definition visible_entities :: "ustr \<Rightarrow> ustr \<Rightarrow> entity list \<Rightarrow> entity list" where
  "visible_entities cleaned caption entities = (if cleaned = caption then entities else [])"

definition compatible_name ::
  "platform \<Rightarrow> json \<Rightarrow> ustr \<Rightarrow> ustr \<Rightarrow> ustr \<Rightarrow> ustr \<Rightarrow> entity list \<Rightarrow> ustr" where
  "compatible_name P options original caption fallback extension entities =
    (let cleaned = cleaned_caption options caption; name = cleaned_original P options original in
     if name \<noteq> original \<or> cleaned \<noteq> caption
     then media_file_name P name cleaned fallback (visible_entities cleaned caption entities) extension
     else media_file_name P original caption fallback entities extension)"

definition proposed_stem :: "platform \<Rightarrow> json \<Rightarrow> ustr \<Rightarrow> name_fields \<Rightarrow> name_fields \<times> ustr" where
  "proposed_stem P options title data =
    (if option_text options (asc ''mode'') = asc ''compatible'' \<or> title = [] then (data, [])
     else if option_text options (asc ''mode'') = asc ''template''
       then template_stem P (option_text options (asc ''template'')) title data
     else (data, caption_stem P title data))"

definition name_plan ::
  "platform \<Rightarrow> ustr \<Rightarrow> ustr \<Rightarrow> ustr \<Rightarrow> ustr \<Rightarrow> entity list \<Rightarrow> json \<Rightarrow> exc + naming" where
  "name_plan P original caption fallback extension entities value = bindE (profile P value) (\<lambda>options.
    let cleaned = cleaned_caption options caption;
        compatible = compatible_name P options original caption fallback extension entities;
        title = caption_title P cleaned (visible_entities cleaned caption entities);
        data = (name_facts P (original @ [10] @ cleaned))\<lparr>nf_title := title\<rparr>;
        caption_mode = (option_text options (asc ''mode'') = asc ''caption'');
        conflict = caption_mode \<and> conflicting (name_facts P original) (name_facts P cleaned);
        (data, stem) = proposed_stem P options (if conflict then [] else title) data
    in Inr (if stem \<noteq> []
      then \<lparr>nm_file_name = safe_file_name P (stem @ path_suffix compatible) compatible,
             nm_basis = (if caption_mode then basis_caption else basis_template), nm_fields = data, nm_profile = options\<rparr>
      else \<lparr>nm_file_name = compatible, nm_basis = (if conflict then basis_conflict else basis_compatible),
             nm_fields = data, nm_profile = options\<rparr>))"

section \<open>Laws of the plan\<close>

lemma media_file_name_harmless:
  assumes "\<And>c. is_surrogate c \<Longrightarrow> category P c = UCs"
  shows "harmless (media_file_name P name caption fallback es ext)"
proof -
  let ?x = "explain_media_name P name caption fallback es ext"
  obtain original suffix where m: "media_original P (clean_promotional_affixes P True name) fallback ext = (original, suffix)"
    by fastforce
  from m refl[of ?x] have "harmless (x_file_name ?x)"
  proof (cases rule: explain_cases)
    case kept
    with media_original_harmless[OF assms, of "clean_promotional_affixes P True name" fallback ext] m
    show ?thesis by simp
  qed (simp_all add: safe_file_name_harmless[OF assms])
  then show ?thesis by (simp add: media_file_name_def)
qed

lemma compatible_name_harmless:
  assumes "\<And>c. is_surrogate c \<Longrightarrow> category P c = UCs"
  shows "harmless (compatible_name P options original caption fallback ext es)"
  by (simp add: compatible_name_def Let_def media_file_name_harmless[OF assms])

lemma contains_append: "contains s t \<Longrightarrow> contains (s @ r) t"
  unfolding contains_iff by (metis append_assoc)

lemma contains_end: "contains (r @ t) t"
  unfolding contains_iff by (intro exI[of _ r] exI[of _ "[]"]) simp

text \<open>A stem keeps a fact when it holds its text or names one of its own.\<close>

definition keeps_fact :: "platform \<Rightarrow> ustr \<Rightarrow> ustr \<Rightarrow> bool" where
  "keeps_fact P token stem \<longleftrightarrow> token = [] \<or> contains stem token
     \<or> (\<exists>b r. stem = b @ r \<and> (nf_episode (name_facts P b) \<noteq> [] \<or> nf_chapter (name_facts P b) \<noteq> []))"

lemma keeps_fact_append: "keeps_fact P token s \<Longrightarrow> keeps_fact P token (s @ r)"
  unfolding keeps_fact_def using contains_append by (metis append_assoc)

lemma add_token_prefix: "\<exists>r. add_token P token s = s @ r"
  by (simp add: add_token_def)

lemma add_token_keeps: "keeps_fact P token (add_token P token s)"
proof -
  have "contains (s @ 32 # token) token" using contains_end[of "s @ [32]" token] by simp
  then show ?thesis by (auto simp: add_token_def keeps_fact_def intro: exI[of _ s] exI[of _ "[]"])
qed

lemma caption_stem_keeps:
  "keeps_fact P (nf_episode data) (caption_stem P title data)" "keeps_fact P (nf_chapter data) (caption_stem P title data)"
  using add_token_keeps keeps_fact_append add_token_prefix unfolding caption_stem_def by metis+

lemma add_fact_prefix: "\<exists>r. add_fact P f data s = s @ r"
  by (simp add: add_fact_def)

lemma add_fact_keeps:
  assumes "\<And>d. f d \<noteq> [] \<Longrightarrow> f \<in> {nf_episode, nf_chapter}"
  shows "keeps_fact P (f data) (add_fact P f data s)"
proof -
  have "contains (s @ 32 # f data) (f data)" using contains_end[of "s @ [32]" "f data"] by simp
  with assms[of "name_facts P s"] show ?thesis
    by (auto simp: add_fact_def keeps_fact_def intro: exI[of _ s] exI[of _ "[]"])
qed

lemma template_stem_keeps:
  assumes "template_stem P template title data = (data', stem)"
  shows "keeps_fact P (nf_episode data') stem \<and> keeps_fact P (nf_chapter data') stem"
proof -
  have e: "keeps_fact P (nf_episode data') (add_fact P nf_episode data' s)"
    and c: "keeps_fact P (nf_chapter data') (add_fact P nf_chapter data' s)" for s
    by (rule add_fact_keeps, simp)+
  from assms have "stem = add_fact P nf_chapter data' (add_fact P nf_episode data' (filled_template P template data'))"
    by (auto simp: template_stem_def Let_def)
  with e c show ?thesis using add_fact_prefix keeps_fact_append by metis
qed

text \<open>When a name other than the compatible one is proposed.\<close>

lemma proposed_stem_keeps:
  assumes "proposed_stem P options title data = (data', stem)" "stem \<noteq> []"
  shows "option_text options (asc ''mode'') \<noteq> asc ''compatible'' \<and> title \<noteq> []
    \<and> keeps_fact P (nf_episode data') stem \<and> keeps_fact P (nf_chapter data') stem"
  using assms template_stem_keeps caption_stem_keeps by (auto simp: proposed_stem_def split: if_splits)


section \<open>Sample plan\<close>

lemma name_plan_total:
  assumes "profile P value = Inr options"
  shows "\<exists>p. name_plan P original caption fallback extension entities value = Inr p"
  unfolding name_plan_def assms bindE_simps Let_def case_prod_unfold by blast

definition ex_profile :: json where
  "ex_profile = JObj [(asc ''mode'', JStr (asc ''caption''))]"

lemma ex_profile_valid: "\<exists>options. profile ascii_platform ex_profile = Inr options
    \<and> option_text options (asc ''mode'') = asc ''caption''"
proof -
  have "case profile ascii_platform ex_profile of Inl _ \<Rightarrow> False
    | Inr options \<Rightarrow> option_text options (asc ''mode'') = asc ''caption''" by code_simp
  then show ?thesis by (auto split: sum.splits)
qed


end
