(* ===== verification/Plans.thy ===== *)
theory Plans
  imports Profiles TaskLaws "HOL-Library.List_Lexorder"
begin

text \<open>
  Plans and listening sources, \<open>src/tg2cloud/persistence/plans.py\<close>: the managed directories and
  their grants, the sources with their configuration and bound folders, and the plans from their
  creation over edits to the submission as a task.

  Every operation runs in one transaction (\<open>Plans.transaction\<close>), nested ones in a savepoint, so
  an operation either returns a value and a new state or raises and changes nothing:
  \<open>plandb \<Rightarrow> exc + 'a \<times> plandb\<close>. Configurations are JSON values, as they are stored.
\<close>

section \<open>Tables\<close>

datatype plan_status = Pending | Expired | Ignored | Submitted

datatype origin = FromAlias | FromClassification | FromSource

text \<open>The payload of a plan, with the keys that \<open>create\<close> gives it.\<close>

record payload =
  pa_file_name :: ustr
  pa_candidate :: ustr
  pa_basis :: ustr
  pa_original :: ustr
  pa_size :: "int option"
  pa_media_key :: "ustr option"
  pa_kind :: ustr
  pa_mime :: ustr
  pa_extension :: ustr
  pa_base :: "ustr option"
  pa_directory :: "ustr option"
  pa_profile :: json
  pa_options :: json
  pa_created_at :: rat
  pa_origin :: origin
  pa_source_revision :: "int option"
  pa_rules :: "json option"

record plan_row =
  pl_id :: int
  pl_owner :: int
  pl_source :: "int option"
  pl_identity :: ustr
  pl_chat :: int
  pl_message :: int
  pl_batch :: ustr
  pl_payload :: payload
  pl_revision :: int
  pl_status :: plan_status
  pl_task :: "int option"
  pl_created :: rat
  pl_expires :: rat

record journal_row =
  jr_account :: int
  jr_chat :: int
  jr_message :: int
  jr_source :: int
  jr_result :: ustr
  jr_plan :: "int option"
  jr_created :: rat
  jr_attachment :: bool
  jr_matched :: bool

record revision_row =
  rv_id :: int
  rv_source :: int
  rv_revision :: int
  rv_config :: json
  rv_operator :: int
  rv_created :: rat

record feedback_row =
  fb_id :: int
  fb_owner :: int
  fb_source :: "int option"
  fb_plan :: int
  fb_before :: ustr
  fb_after :: ustr
  fb_rule_revision :: "int option"
  fb_operation :: ustr
  fb_created :: rat

record dir_row =
  dr_alias :: ustr
  dr_path :: ustr
  dr_owners :: "int list"

record plandb =
  p_db :: taskdb
  p_prefs :: "int \<Rightarrow> json option"
  p_dirs :: "dir_row list"
  p_plans :: "plan_row list"
  p_journal :: "journal_row list"
  p_revisions :: "revision_row list"
  p_feedback :: "feedback_row list"

definition sources_of :: "plandb \<Rightarrow> source_row list" where
  "sources_of d = d_sources (p_db d)"

definition set_sources :: "source_row list \<Rightarrow> plandb \<Rightarrow> plandb" where
  "set_sources ss d = d\<lparr>p_db := (p_db d)\<lparr>d_sources := ss\<rparr>\<rparr>"

text \<open>An \<open>INTEGER PRIMARY KEY\<close>: one more than the largest number in use.\<close>

definition next_id :: "('r \<Rightarrow> int) \<Rightarrow> 'r list \<Rightarrow> int" where
  "next_id key rows = foldr (\<lambda>r m. max (key r) m) rows 0 + 1"

section \<open>Authorization and directories\<close>

definition authorize :: "int \<Rightarrow> int \<Rightarrow> bool \<Rightarrow> plandb \<Rightarrow> exc + unit" where
  "authorize A actor need_admin d =
    (if actor \<le> 0 then Inl (PermissionError msg_no_right)
     else if actor = A then Inr ()
     else if need_admin then Inl (PermissionError msg_members_only)
     else bindE (users_read A (p_db d)) (\<lambda>item.
       if member_enabled item actor then Inr () else Inl (PermissionError msg_members_only)))"

definition directories :: "int \<Rightarrow> int \<Rightarrow> plandb \<Rightarrow> exc + (ustr \<times> ustr) list" where
  "directories A actor d = bindE (authorize A actor False d) (\<lambda>_.
     Inr (map (\<lambda>r. (dr_alias r, dr_path r))
       (filter (\<lambda>r. actor = A \<or> actor \<in> set (dr_owners r)) (take 32 (sort_key dr_alias (p_dirs d))))))"

definition directory_of :: "int \<Rightarrow> int \<Rightarrow> ustr \<Rightarrow> plandb \<Rightarrow> exc + ustr option" where
  "directory_of A actor alias d =
    (if alias = [] then Inr None
     else bindE (directories A actor d) (\<lambda>ds. case map_of ds alias of
       None \<Rightarrow> Inl (PlanningError msg_alias_unknown) | Some path \<Rightarrow> Inr (Some path)))"

definition granted_path :: "int \<Rightarrow> int \<Rightarrow> ustr \<Rightarrow> plandb \<Rightarrow> exc + bool" where
  "granted_path A actor path d = bindE (directories A actor d) (\<lambda>ds. Inr (path \<in> snd ` set ds))"

definition owner_ids :: "json \<Rightarrow> int list option" where
  "owner_ids j = (case as_arr j of None \<Rightarrow> None
     | Some js \<Rightarrow> if length js \<le> 32 \<and> list_all (\<lambda>x. case as_int x of None \<Rightarrow> False | Some i \<Rightarrow> 0 < i) js
         then Some (map (\<lambda>x. the (as_int x)) js) else None)"

definition set_directory ::
  "platform \<Rightarrow> int \<Rightarrow> int \<Rightarrow> ustr \<Rightarrow> ustr \<Rightarrow> json \<Rightarrow> plandb \<Rightarrow> exc + unit \<times> plandb" where
  "set_directory P A actor alias path owners d =
    bindE (authorize A actor True d) (\<lambda>_.
    if \<not> (1 \<le> length alias \<and> length alias \<le> 32) \<or> list_ex (\<lambda>c. c < 32 \<or> c \<in> {47, 58, 37}) alias
    then Inl (PlanningError msg_alias)
    else case owner_ids owners of
      None \<Rightarrow> Inl (PlanningError msg_alias_owners)
    | Some ids \<Rightarrow>
       bindE (directories A actor d) (\<lambda>ds.
       if 32 \<le> length (p_dirs d) \<and> alias \<notin> fst ` set ds then Inl (PlanningError msg_alias_full)
       else bindE (safe_directory P path) (\<lambda>p.
         Inr ((), d\<lparr>p_dirs := filter (\<lambda>r. dr_alias r \<noteq> alias) (p_dirs d)
                      @ [\<lparr>dr_alias = alias, dr_path = p, dr_owners = ids\<rparr>]\<rparr>))))"

definition profile_granted :: "int \<Rightarrow> int \<Rightarrow> json \<Rightarrow> plandb \<Rightarrow> exc + bool" where
  "profile_granted A actor prof d =
    (if profile_directory prof = [] then Inr True else granted_path A actor (profile_directory prof) d)"

definition default_preferences :: "platform \<Rightarrow> exc + json" where
  "default_preferences P = bindE (profile P JNull) (\<lambda>prof.
     Inr (JObj [(asc ''confirmation'', JBool False), (asc ''profile'', prof)]))"

definition preferences ::
  "platform \<Rightarrow> int \<Rightarrow> int \<Rightarrow> json option \<Rightarrow> plandb \<Rightarrow> exc + json \<times> plandb" where
  "preferences P A actor updates d =
    bindE (authorize A actor False d) (\<lambda>_.
    bindE (case p_prefs d actor of Some j \<Rightarrow> Inr j | None \<Rightarrow> default_preferences P) (\<lambda>value.
    case updates of
      None \<Rightarrow> Inr (value, d)
    | Some u \<Rightarrow>
       if \<not> only_keys u [asc ''confirmation'', asc ''profile''] then Inl (PlanningError msg_preference)
       else let value = JObj (update_members (members value) (members u)) in
         if as_bool (jget value (asc ''confirmation'')) = None then Inl (PlanningError msg_preference_bool)
         else bindE (profile P (jget value (asc ''profile''))) (\<lambda>prof.
           let value = JObj (put_member (asc ''profile'') prof (members value)) in
           bindE (profile_granted A actor prof d) (\<lambda>ok.
           if \<not> ok then Inl (PlanningError msg_pick_alias)
           else Inr (value, d\<lparr>p_prefs := (p_prefs d)(actor \<mapsto> value)\<rparr>)))))"

section \<open>Sources\<close>

definition config_text :: "json \<Rightarrow> ustr \<Rightarrow> ustr" where
  "config_text c k = (case as_str (jget_or c k (JStr [])) of None \<Rightarrow> [] | Some s \<Rightarrow> s)"

definition source_folder :: "json \<Rightarrow> ustr" where
  "source_folder c = config_text c (asc ''source_folder'')"

definition sources :: "int \<Rightarrow> int \<Rightarrow> plandb \<Rightarrow> exc + source_row list" where
  "sources A actor d = bindE (authorize A actor True d) (\<lambda>_.
     Inr (take 32 (filter (\<lambda>s. \<not> s_deleted s) (sources_of d))))"

definition the_source :: "int \<Rightarrow> int \<Rightarrow> int \<Rightarrow> plandb \<Rightarrow> exc + source_row" where
  "the_source A actor i d = bindE (authorize A actor True d) (\<lambda>_.
     case row_of s_id i (sources_of d) of None \<Rightarrow> Inl (PlanningError msg_no_source) | Some s \<Rightarrow> Inr s)"

definition CONFIG_KEYS :: "ustr list" where
  "CONFIG_KEYS = [asc ''rules'', asc ''profile'', asc ''directory'', asc ''confirmation'',
     asc ''directory_mode'', asc ''source_folder'', asc ''source_base'']"

definition config_defaults :: "json \<Rightarrow> (ustr \<times> json) list" where
  "config_defaults prof = [(asc ''profile'', prof), (asc ''directory'', JStr []), (asc ''confirmation'', JBool True),
     (asc ''directory_mode'', JStr (asc ''legacy'')), (asc ''source_folder'', JStr []), (asc ''source_base'', JNull)]"

definition folder_fits :: "platform \<Rightarrow> ustr \<Rightarrow> bool" where
  "folder_fits P folder \<longleftrightarrow> 47 \<notin> set folder \<and> columns P folder \<le> MAX_COLUMNS \<and> utf8_len folder \<le> MAX_BYTES"

definition base_ok :: "json \<Rightarrow> bool" where
  "base_ok j \<longleftrightarrow> j = JNull \<or> (case as_str j of None \<Rightarrow> False | Some s \<Rightarrow> 0 \<notin> set s)"

text \<open>The alias of a configuration: a false value means none, an unhashable one raises TypeError.\<close>

definition config_directory :: "int \<Rightarrow> int \<Rightarrow> json \<Rightarrow> plandb \<Rightarrow> exc + ustr option" where
  "config_directory A actor j d =
    (case j of JNull \<Rightarrow> Inr None | JBool False \<Rightarrow> Inr None | JArr [] \<Rightarrow> Inr None | JObj [] \<Rightarrow> Inr None
     | JStr s \<Rightarrow> directory_of A actor s d
     | JInt i \<Rightarrow> if i = 0 then Inr None else Inl (PlanningError msg_alias_unknown)
     | JFloat q \<Rightarrow> if q = 0 then Inr None else Inl (PlanningError msg_alias_unknown)
     | JBool True \<Rightarrow> Inl (PlanningError msg_alias_unknown)
     | JNan \<Rightarrow> Inl (PlanningError msg_alias_unknown)
     | JInf negative \<Rightarrow> Inl (PlanningError msg_alias_unknown)
     | _ \<Rightarrow> Inl (TypeError []))"

definition config_binding :: "platform \<Rightarrow> json \<Rightarrow> exc + unit" where
  "config_binding P r =
    (let mode = jget r (asc ''directory_mode''); base = jget r (asc ''source_base'') in
     if \<not> hashable mode then Inl (TypeError [])
     else if \<not> str_in mode [asc ''legacy'', asc ''source_type''] then Inl (PlanningError msg_source_mode)
     else bindE (safe_directory_json P (jget r (asc ''source_folder''))) (\<lambda>folder.
       if \<not> folder_fits P folder then Inl (PlanningError msg_source_name)
       else if \<not> base_ok base then Inl (PlanningError msg_source_base)
       else if (folder \<noteq> []) \<noteq> (base \<noteq> JNull) then Inl (PlanningError msg_source_binding)
       else Inr ()))"

definition source_config :: "platform \<Rightarrow> int \<Rightarrow> int \<Rightarrow> json \<Rightarrow> plandb \<Rightarrow> exc + json" where
  "source_config P A actor config d =
    bindE (authorize A actor True d) (\<lambda>_.
    if \<not> only_keys config CONFIG_KEYS then Inl (PlanningError msg_source_config)
    else bindE (profile P JNull) (\<lambda>prof.
    let r = JObj (update_members (config_defaults prof) (members config)) in
    bindE (config_binding P r) (\<lambda>_.
    bindE (validate_rules P (jget_or r (asc ''rules'') (JObj []))) (\<lambda>rules.
    bindE (profile P (jget r (asc ''profile''))) (\<lambda>prof.
    bindE (config_directory A actor (jget r (asc ''directory'')) d) (\<lambda>_.
    bindE (profile_granted A actor prof d) (\<lambda>ok.
    if \<not> ok then Inl (PlanningError msg_profile_directory)
    else if as_bool (jget r (asc ''confirmation'')) = None then Inl (PlanningError msg_confirmation)
    else Inr (JObj (put_member (asc ''profile'') prof (put_member (asc ''rules'') rules (members r)))))))))))"

text \<open>
  The folder of a source is chosen once. A name is taken when another source has it, deleted ones
  included, when a category or the first component of a granted directory has it, all compared
  after \<open>casefold\<close>. The search counts upwards; its fuel is one more than the number of taken
  names, after the name without and with the source's number (\<open>folder_search_ends\<close> shows that it
  is enough, so the last branch of \<open>bind_source_folder\<close> is not taken).
\<close>

definition CATEGORIES :: "ustr list" where
  "CATEGORIES = [lbl_video, lbl_image, lbl_audio, lbl_document, lbl_archive, lbl_other]"

definition used_folders :: "platform \<Rightarrow> int \<Rightarrow> plandb \<Rightarrow> ustr list" where
  "used_folders P i d = map (casefold P)
     (map (\<lambda>s. source_folder (s_config s)) (filter (\<lambda>s. s_id s \<noteq> i) (sources_of d))
      @ CATEGORIES @ map (\<lambda>r. hd (split_on 47 (dr_path r))) (p_dirs d))"

definition folder_suffix :: "int \<Rightarrow> nat \<Rightarrow> ustr" where
  "folder_suffix i n = (if n = 0 then [] else suffix_source @ dec i @ (if 1 < n then 45 # dec (int n) else []))"

fun free_folder :: "platform \<Rightarrow> ustr list \<Rightarrow> ustr \<Rightarrow> int \<Rightarrow> int \<Rightarrow> nat \<Rightarrow> nat \<Rightarrow> (exc + ustr) option" where
  "free_folder P used title chat i n 0 = None"
| "free_folder P used title chat i n (Suc fuel) =
    (case folder_name P title chat (folder_suffix i n) of
       Inl e \<Rightarrow> Some (Inl e)
     | Inr c \<Rightarrow> if casefold P c \<in> set used then free_folder P used title chat i (Suc n) fuel
               else Some (Inr c))"

definition bind_source_folder ::
  "platform \<Rightarrow> int \<Rightarrow> json \<Rightarrow> int \<Rightarrow> ustr \<Rightarrow> int \<Rightarrow> ustr \<Rightarrow> plandb \<Rightarrow> exc + json" where
  "bind_source_folder P A config i title chat base d =
    (if source_folder config \<noteq> [] then source_config P A A config d
     else let used = used_folders P i d in
       case free_folder P used title chat i 0 (length used + 3) of
         None \<Rightarrow> Inl TimeoutError
       | Some r \<Rightarrow> bindE r (\<lambda>folder. source_config P A A (JObj (put_member (asc ''source_base'') (JStr base)
             (put_member (asc ''source_folder'') (JStr folder) (members config)))) d))"

text \<open>\<open>{key: config.get(key, default) for (key, default) in \<dots>}\<close>: the binding of a stored configuration.\<close>

definition binding_of :: "json \<Rightarrow> (ustr \<times> json) list" where
  "binding_of c = [(asc ''source_folder'', jget_or c (asc ''source_folder'') (JStr [])),
     (asc ''source_base'', jget_or c (asc ''source_base'') JNull)]"

definition with_source_type :: "json \<Rightarrow> json" where
  "with_source_type c = JObj (put_member (asc ''directory_mode'') (JStr (asc ''source_type'')) (members c))"

definition new_source :: "int \<Rightarrow> int \<Rightarrow> int \<Rightarrow> ustr \<Rightarrow> json \<Rightarrow> int \<Rightarrow> rat \<Rightarrow> source_row" where
  "new_source i account chat title config pos now = \<lparr>s_id = i, s_account = account, s_chat = chat,
     s_title = take 100 title, s_config = config, s_revision = 1, s_enabled = False, s_deleted = False,
     s_cursor = pos, s_status = st_paused, s_next_retry = 0, s_polled_at = now, s_gap = False\<rparr>"

definition again_source :: "ustr \<Rightarrow> json \<Rightarrow> int \<Rightarrow> rat \<Rightarrow> source_row \<Rightarrow> source_row" where
  "again_source title config pos now s = s\<lparr>s_config := config, s_cursor := pos, s_title := take 100 title,
     s_deleted := False, s_enabled := False, s_revision := s_revision s + 1, s_status := st_paused,
     s_gap := False, s_polled_at := now\<rparr>"

definition save_source ::
  "platform \<Rightarrow> int \<Rightarrow> int \<Rightarrow> int \<Rightarrow> int \<Rightarrow> ustr \<Rightarrow> int \<Rightarrow> json \<Rightarrow> ustr option \<Rightarrow> rat \<Rightarrow> plandb
    \<Rightarrow> exc + source_row \<times> plandb" where
  "save_source P A actor account chat title pos config base now d =
    bindE (source_config P A actor config d) (\<lambda>config.
    bindE (sources A actor d) (\<lambda>ss.
    if 32 \<le> length ss then Inl (PlanningError msg_sources_full)
    else case find (\<lambda>s. s_account s = account \<and> s_chat s = chat) (sources_of d) of
      Some old \<Rightarrow>
        if \<not> s_deleted old then Inl (PlanningError msg_source_known)
        else bindE (case base of None \<Rightarrow> Inr config
            | Some b \<Rightarrow> bind_source_folder P A
                (with_source_type (JObj (update_members (members config) (binding_of (s_config old)))))
                (s_id old) title chat b d) (\<lambda>config.
          let d' = set_sources (upd_where (\<lambda>s. s_id s = s_id old) (again_source title config pos now) (sources_of d)) d
          in bindE (the_source A actor (s_id old) d') (\<lambda>s. Inr (s, d')))
    | None \<Rightarrow>
        let i = next_id s_id (sources_of d);
            d1 = set_sources (sources_of d @ [new_source i account chat title config pos now]) d
        in bindE (case base of None \<Rightarrow> Inr config
            | Some b \<Rightarrow> bind_source_folder P A (with_source_type config) i title chat b d1) (\<lambda>config.
          let d2 = set_sources (upd_where (\<lambda>s. s_id s = i) (\<lambda>s. s\<lparr>s_config := config\<rparr>) (sources_of d1)) d1
          in bindE (the_source A actor i d2) (\<lambda>s. Inr (s, d2)))))"

text \<open>The keyword arguments of \<open>change_source\<close>.\<close>

record change =
  ch_config :: "json option"
  ch_enabled :: "bool option"
  ch_delete :: bool
  ch_cursor :: "int option"
  ch_base :: "ustr option"

text \<open>The configuration that a change stores, and the mode it has.\<close>

definition mode_of :: "json \<Rightarrow> json" where
  "mode_of c = jget_or c (asc ''directory_mode'') (JStr (asc ''legacy''))"

definition changed_config ::
  "platform \<Rightarrow> int \<Rightarrow> int \<Rightarrow> source_row \<Rightarrow> change \<Rightarrow> plandb \<Rightarrow> exc + json" where
  "changed_config P A actor old c d =
    (case ch_config c of
       None \<Rightarrow> Inr (s_config old)
     | Some config \<Rightarrow>
        if as_obj config = None then Inl (TypeError [])
        else bindE (source_config P A actor
            (JObj (update_members (binding_of (s_config old)) (members config))) d) (\<lambda>value.
          if binding_of value \<noteq> binding_of (s_config old) then Inl (PlanningError msg_source_bound)
          else if jget value (asc ''directory_mode'') = JStr (asc ''source_type'') \<and> source_folder value = []
          then (case ch_base c of
              None \<Rightarrow> Inl (PlanningError msg_source_switch)
            | Some b \<Rightarrow> bind_source_folder P A value (s_id old) (s_title old) (s_chat old) b d)
          else Inr value))"

definition base_check :: "platform \<Rightarrow> ustr option \<Rightarrow> json \<Rightarrow> exc + unit" where
  "base_check P base value = (case base of
     None \<Rightarrow> Inr ()
   | Some b \<Rightarrow> if mode_of value = JStr (asc ''source_type'')
       then bindE (media_directory P value [] [] [] (JStr b)) (\<lambda>_. Inr ()) else Inr ())"

text \<open>The history of a source: its last 20 configurations.\<close>

definition keep_revision :: "int \<Rightarrow> source_row \<Rightarrow> rat \<Rightarrow> revision_row list \<Rightarrow> revision_row list" where
  "keep_revision actor old now rs =
    (let all = rs @ [\<lparr>rv_id = next_id rv_id rs, rv_source = s_id old, rv_revision = s_revision old,
                       rv_config = s_config old, rv_operator = actor, rv_created = now\<rparr>];
         kept = take 20 (rev (filter (\<lambda>r. rv_source r = s_id old) all))
     in filter (\<lambda>r. rv_source r \<noteq> s_id old \<or> rv_id r \<in> rv_id ` set kept) all)"

definition ignore_pending :: "int \<Rightarrow> plan_row list \<Rightarrow> plan_row list" where
  "ignore_pending i ps = upd_where (\<lambda>p. pl_source p = Some i \<and> pl_status p = Pending)
     (\<lambda>p. p\<lparr>pl_status := Ignored, pl_revision := pl_revision p + 1\<rparr>) ps"

definition changed_row :: "json \<Rightarrow> bool option \<Rightarrow> bool \<Rightarrow> int option \<Rightarrow> rat \<Rightarrow> source_row \<Rightarrow> source_row" where
  "changed_row value enabled delete pos now s =
    (let s = (case pos of None \<Rightarrow> s | Some c \<Rightarrow> s\<lparr>s_cursor := c, s_gap := False, s_polled_at := now\<rparr>)
     in s\<lparr>s_config := value, s_enabled := (case enabled of None \<Rightarrow> s_enabled s | Some b \<Rightarrow> b),
          s_deleted := delete, s_revision := s_revision s + 1,
          s_status := (if delete then st_deleted else st_waiting)\<rparr>)"

definition change_source ::
  "platform \<Rightarrow> int \<Rightarrow> int \<Rightarrow> int \<Rightarrow> int \<Rightarrow> change \<Rightarrow> rat \<Rightarrow> plandb \<Rightarrow> exc + unit \<times> plandb" where
  "change_source P A actor i revision c now d =
    bindE (the_source A actor i d) (\<lambda>old.
    if s_revision old \<noteq> revision \<or> s_deleted old then Inl (PlanningError msg_source_changed)
    else bindE (changed_config P A actor old c d) (\<lambda>value.
    bindE (base_check P (ch_base c) value) (\<lambda>_.
    if (case ch_cursor c of None \<Rightarrow> False | Some pos \<Rightarrow> pos < 0) then Inl (PlanningError msg_cursor)
    else let enabled = (if ch_delete c \<or> mode_of value \<noteq> mode_of (s_config old) then Some False else ch_enabled c)
      in Inr ((), set_sources (upd_where (\<lambda>s. s_id s = i)
             (changed_row value enabled (ch_delete c) (ch_cursor c) now) (sources_of d))
           (d\<lparr>p_revisions := keep_revision actor old now (p_revisions d),
              p_plans := (if ch_delete c then ignore_pending i (p_plans d) else p_plans d)\<rparr>)))))"

definition source_history :: "int \<Rightarrow> int \<Rightarrow> int \<Rightarrow> plandb \<Rightarrow> exc + revision_row list" where
  "source_history A actor i d = bindE (the_source A actor i d) (\<lambda>_.
     Inr (take 20 (rev (filter (\<lambda>r. rv_source r = i) (p_revisions d)))))"

section \<open>Plans\<close>

definition TTL :: rat where "TTL = 604800"
definition RETENTION :: rat where "RETENTION = 2592000"
definition MAINTENANCE_BATCH :: nat where "MAINTENANCE_BATCH = 500"

definition expired_row :: "plan_row \<Rightarrow> plan_row" where
  "expired_row p = p\<lparr>pl_status := Expired, pl_revision := pl_revision p + 1\<rparr>"

definition expire_pending :: "int option \<Rightarrow> rat \<Rightarrow> plandb \<Rightarrow> plandb" where
  "expire_pending owner now d = d\<lparr>p_plans := upd_where (\<lambda>p. pl_status p = Pending \<and> pl_expires p < now
     \<and> (owner = None \<or> owner = Some (pl_owner p))) expired_row (p_plans d)\<rparr>"

text \<open>
  One batch of the maintenance: the subquery of each statement selects at most 500 rows in the
  given order. The tables are lists in row-id order and \<open>sort_key\<close> is stable.
\<close>

definition batch_of :: "('r \<Rightarrow> rat) \<Rightarrow> ('r \<Rightarrow> bool) \<Rightarrow> 'r list \<Rightarrow> 'r list" where
  "batch_of key p rows = take MAINTENANCE_BATCH (sort_key key (filter p rows))"

definition drop_batch :: "'r list \<Rightarrow> 'r list \<Rightarrow> 'r list" where
  "drop_batch batch rows = filter (\<lambda>r. r \<notin> set batch) rows"

definition old_journal :: "rat \<Rightarrow> plan_row list \<Rightarrow> journal_row \<Rightarrow> bool" where
  "old_journal now ps e \<longleftrightarrow> jr_created e < now - TTL \<and> (case jr_plan e of
     None \<Rightarrow> True | Some i \<Rightarrow> list_ex (\<lambda>p. pl_id p = i \<and> pl_status p \<noteq> Pending) ps)"

definition old_feedback :: "rat \<Rightarrow> feedback_row list \<Rightarrow> feedback_row \<Rightarrow> bool" where
  "old_feedback now fs f \<longleftrightarrow> fb_created f < now - RETENTION \<or> fb_id f \<notin> set (take 2000 (rev (map fb_id fs)))"

definition old_plan :: "rat \<Rightarrow> journal_row list \<Rightarrow> plan_row \<Rightarrow> bool" where
  "old_plan now js p \<longleftrightarrow> pl_status p \<noteq> Pending \<and> pl_created p < now - RETENTION
     \<and> \<not> list_ex (\<lambda>e. jr_plan e = Some (pl_id p)) js"

definition expire :: "rat \<Rightarrow> plandb \<Rightarrow> bool \<times> plandb" where
  "expire now d =
    (let due = batch_of pl_expires (\<lambda>p. pl_status p = Pending \<and> pl_expires p < now) (p_plans d);
         plans = upd_where (\<lambda>p. pl_id p \<in> pl_id ` set due) expired_row (p_plans d);
         journal = batch_of jr_created (old_journal now plans) (p_journal d);
         journal' = drop_batch journal (p_journal d);
         feedback = take MAINTENANCE_BATCH (filter (old_feedback now (p_feedback d)) (p_feedback d));
         gone = batch_of pl_created (old_plan now journal') plans
     in (MAINTENANCE_BATCH \<in> {length due, length journal, length feedback, length gone},
         d\<lparr>p_plans := drop_batch gone plans, p_journal := journal',
           p_feedback := drop_batch feedback (p_feedback d)\<rparr>))"

definition shown :: "rat \<Rightarrow> plan_row \<Rightarrow> plan_row" where
  "shown now p = (if pl_status p = Pending \<and> pl_expires p < now then p\<lparr>pl_status := Expired\<rparr> else p)"

definition get_plan :: "int \<Rightarrow> int \<Rightarrow> int \<Rightarrow> rat \<Rightarrow> plandb \<Rightarrow> exc + plan_row" where
  "get_plan A actor i now d = bindE (authorize A actor False d) (\<lambda>_.
     case row_of pl_id i (p_plans d) of
       None \<Rightarrow> Inl (PermissionError msg_no_plan)
     | Some p \<Rightarrow> if pl_owner p \<noteq> actor \<or> (pl_source p \<noteq> None \<and> actor \<noteq> A)
         then Inl (PermissionError msg_no_plan) else Inr (shown now p))"

fun get_plans :: "int \<Rightarrow> int \<Rightarrow> int list \<Rightarrow> rat \<Rightarrow> plandb \<Rightarrow> exc + plan_row list" where
  "get_plans A actor [] now d = Inr []"
| "get_plans A actor (i # ids) now d = bindE (get_plan A actor i now d) (\<lambda>p.
     bindE (get_plans A actor ids now d) (\<lambda>ps. Inr (p # ps)))"

definition pending :: "int \<Rightarrow> int \<Rightarrow> int \<Rightarrow> rat \<Rightarrow> plandb \<Rightarrow> exc + plan_row list" where
  "pending A actor after_id now d = bindE (authorize A actor False d) (\<lambda>_.
     get_plans A actor (map pl_id (take 10 (filter (\<lambda>p. pl_owner p = actor \<and> pl_status p = Pending
       \<and> now < pl_expires p \<and> after_id < pl_id p) (p_plans d)))) now d)"

text \<open>The arguments of \<open>create\<close>: the media item, the naming decision and the options.\<close>

record proposal =
  pr_chat :: int
  pr_message :: int
  pr_kind :: ustr
  pr_mime :: ustr
  pr_extension :: ustr
  pr_original :: ustr
  pr_size :: "int option"
  pr_media_key :: "ustr option"
  pr_name :: ustr
  pr_basis :: ustr
  pr_profile :: json
  pr_identity :: ustr
  pr_source :: "int option"
  pr_batch :: ustr
  pr_alias :: ustr
  pr_base :: "ustr option"
  pr_created_at :: "rat option"
  pr_options :: "json option"

definition base_json :: "ustr option \<Rightarrow> json" where
  "base_json b = (case b of None \<Rightarrow> JNull | Some s \<Rightarrow> JStr s)"

text \<open>The listening source of a plan, checked against the read identity; none for a manual one.\<close>

definition plan_source :: "int \<Rightarrow> int \<Rightarrow> proposal \<Rightarrow> plandb \<Rightarrow> exc + source_row option" where
  "plan_source A actor r d =
    (case pr_source r of
       Some i \<Rightarrow> bindE (the_source A actor i d) (\<lambda>s.
         if pr_identity r \<noteq> listener_identity (s_account s) \<or> s_deleted s \<or> \<not> s_enabled s
         then Inl (PlanningError msg_source_identity) else Inr (Some s))
     | None \<Rightarrow> if pr_identity r \<noteq> BOT then Inl (PermissionError msg_manual_identity) else Inr None)"

text \<open>The directory granted by alias or profile.\<close>

definition alias_directory :: "int \<Rightarrow> int \<Rightarrow> proposal \<Rightarrow> plandb \<Rightarrow> exc + ustr option" where
  "alias_directory A actor r d =
    bindE (directory_of A actor (pr_alias r) d) (\<lambda>dir.
    let dir = (case dir of Some p \<Rightarrow> Some p
        | None \<Rightarrow> if profile_directory (pr_profile r) = [] then None else Some (profile_directory (pr_profile r)))
    in case dir of
         None \<Rightarrow> Inr None
       | Some p \<Rightarrow> bindE (granted_path A actor p d) (\<lambda>ok.
           if ok then Inr (Some p) else Inl (PlanningError msg_plan_directory)))"

definition used_options :: "platform \<Rightarrow> json option \<Rightarrow> plandb \<Rightarrow> exc + json" where
  "used_options P o_json d = (case o_json of Some (JObj (m # ms)) \<Rightarrow> Inr (JObj (m # ms)) | _ \<Rightarrow> features_read P (p_db d))"

text \<open>Where the file will go and why: a source folder first, then a grant, then the classification.\<close>

definition plan_directory ::
  "platform \<Rightarrow> proposal \<Rightarrow> ustr option \<Rightarrow> ustr option \<Rightarrow> json \<Rightarrow> rat \<Rightarrow> exc + ustr \<times> origin" where
  "plan_directory P r source_dir alias_dir options at_time =
    (case source_dir of
       Some p \<Rightarrow> Inr (p, FromSource)
     | None \<Rightarrow> (case alias_dir of
         Some p \<Rightarrow> Inr (p, FromAlias)
       | None \<Rightarrow> bindE (directory P options at_time (pr_kind r) (pr_mime r) (pr_extension r)) (\<lambda>p.
           Inr (p, FromClassification))))"

definition new_payload :: "proposal \<Rightarrow> source_row option \<Rightarrow> ustr \<Rightarrow> origin \<Rightarrow> json \<Rightarrow> rat \<Rightarrow> payload" where
  "new_payload r saved dir why options at_time = \<lparr>pa_file_name = pr_name r, pa_candidate = pr_name r,
     pa_basis = pr_basis r, pa_original = pr_original r, pa_size = pr_size r, pa_media_key = pr_media_key r,
     pa_kind = pr_kind r, pa_mime = pr_mime r, pa_extension = pr_extension r, pa_base = pr_base r,
     pa_directory = Some dir, pa_profile = pr_profile r, pa_options = options, pa_created_at = at_time,
     pa_origin = why, pa_source_revision = map_option s_revision saved,
     pa_rules = map_option (\<lambda>s. jget (s_config s) (asc ''rules'')) saved\<rparr>"

definition new_plan :: "int \<Rightarrow> int \<Rightarrow> proposal \<Rightarrow> payload \<Rightarrow> rat \<Rightarrow> plan_row" where
  "new_plan i actor r data now = \<lparr>pl_id = i, pl_owner = actor, pl_source = pr_source r,
     pl_identity = pr_identity r, pl_chat = pr_chat r, pl_message = pr_message r,
     pl_batch = take 100 (pr_batch r), pl_payload = data, pl_revision = 1, pl_status = Pending,
     pl_task = None, pl_created = now, pl_expires = now + TTL\<rparr>"

definition write_journal :: "source_row option \<Rightarrow> proposal \<Rightarrow> int \<Rightarrow> rat \<Rightarrow> plandb \<Rightarrow> exc + plandb" where
  "write_journal saved r i now d =
    (case saved of
       None \<Rightarrow> Inr d
     | Some s \<Rightarrow>
        if list_ex (\<lambda>e. jr_account e = s_account s \<and> jr_chat e = pr_chat r \<and> jr_message e = pr_message r) (p_journal d)
        then Inl (IntegrityError [])
        else Inr (d\<lparr>p_journal := p_journal d @ [\<lparr>jr_account = s_account s, jr_chat = pr_chat r,
            jr_message = pr_message r, jr_source = s_id s, jr_result = res_waiting, jr_plan = Some i,
            jr_created = now, jr_attachment = True, jr_matched = True\<rparr>]\<rparr>))"

definition same_message :: "proposal \<Rightarrow> plan_row \<Rightarrow> bool" where
  "same_message r p \<longleftrightarrow> pl_identity p = pr_identity r \<and> pl_chat p = pr_chat r \<and> pl_message p = pr_message r"

definition create_new ::
  "platform \<Rightarrow> int \<Rightarrow> int \<Rightarrow> proposal \<Rightarrow> source_row option \<Rightarrow> rat \<Rightarrow> plandb \<Rightarrow> exc + (plan_row \<times> bool) \<times> plandb" where
  "create_new P A actor r saved now d =
    (if 200 \<le> count_where (\<lambda>p. pl_owner p = actor \<and> pl_status p = Pending) (p_plans d)
     then Inl (PlanningError msg_pending_full)
     else bindE (case saved of None \<Rightarrow> Inr None | Some s \<Rightarrow>
         media_directory P (s_config s) (pr_kind r) (pr_mime r) (pr_extension r) (base_json (pr_base r))) (\<lambda>source_dir.
       bindE (alias_directory A actor r d) (\<lambda>alias_dir.
       bindE (used_options P (pr_options r) d) (\<lambda>options.
       let at_time = (case pr_created_at r of None \<Rightarrow> now | Some t \<Rightarrow> t) in
       bindE (plan_directory P r source_dir alias_dir options at_time) (\<lambda>(dir, why).
       let i = next_id pl_id (p_plans d);
           p = new_plan i actor r (new_payload r saved dir why options at_time) now
       in bindE (write_journal saved r i now (d\<lparr>p_plans := p_plans d @ [p]\<rparr>)) (\<lambda>d'.
          bindE (get_plan A actor i now d') (\<lambda>q. Inr ((q, True), d'))))))))"

definition create_plan ::
  "platform \<Rightarrow> int \<Rightarrow> int \<Rightarrow> proposal \<Rightarrow> rat \<Rightarrow> plandb \<Rightarrow> exc + (plan_row \<times> bool) \<times> plandb" where
  "create_plan P A actor r now d =
    bindE (authorize A actor (pr_source r \<noteq> None) d) (\<lambda>_.
    let d = expire_pending (Some actor) now d in
    bindE (plan_source A actor r d) (\<lambda>saved.
    case find (same_message r) (p_plans d) of
      Some old \<Rightarrow> bindE (get_plan A actor (pl_id old) now d) (\<lambda>q. Inr ((q, False), d))
    | None \<Rightarrow> create_new P A actor r saved now d))"

section \<open>Edits and submission\<close>

definition renamed ::
  "platform \<Rightarrow> int \<Rightarrow> plan_row \<Rightarrow> ustr \<Rightarrow> rat \<Rightarrow> plandb \<Rightarrow> exc + payload \<times> plandb" where
  "renamed P actor p name now d =
    (let data = pl_payload p in
     bindE (corrected_name P name (pa_file_name data)) (\<lambda>updated.
       Inr (data\<lparr>pa_file_name := updated\<rparr>, d\<lparr>p_feedback := p_feedback d @
         [\<lparr>fb_id = next_id fb_id (p_feedback d), fb_owner = actor, fb_source = pl_source p, fb_plan = pl_id p,
           fb_before = pa_file_name data, fb_after = updated, fb_rule_revision = pa_source_revision data,
           fb_operation = op_once, fb_created = now\<rparr>]\<rparr>)))"

definition edited_row :: "payload \<Rightarrow> bool \<Rightarrow> plan_row \<Rightarrow> plan_row" where
  "edited_row data ignore p = p\<lparr>pl_payload := data, pl_status := (if ignore then Ignored else Pending),
     pl_revision := pl_revision p + 1\<rparr>"

definition edit_plan ::
  "platform \<Rightarrow> int \<Rightarrow> int \<Rightarrow> int \<Rightarrow> int \<Rightarrow> ustr option \<Rightarrow> ustr option \<Rightarrow> bool \<Rightarrow> rat \<Rightarrow> plandb
    \<Rightarrow> exc + plan_row \<times> plandb" where
  "edit_plan P A actor i revision name alias ignore now d =
    bindE (get_plan A actor i now d) (\<lambda>p.
    if pl_revision p \<noteq> revision \<or> pl_status p \<noteq> Pending then Inl (PlanningError msg_plan_stale)
    else bindE (case name of None \<Rightarrow> Inr (pl_payload p, d) | Some n \<Rightarrow> renamed P actor p n now d) (\<lambda>(data, d).
      bindE (case alias of None \<Rightarrow> Inr data
          | Some a \<Rightarrow> bindE (directory_of A actor a d) (\<lambda>dir.
              Inr (data\<lparr>pa_directory := dir, pa_origin := FromAlias\<rparr>))) (\<lambda>data.
      let d = d\<lparr>p_plans := upd_where (\<lambda>p. pl_id p = i) (edited_row data ignore) (p_plans d)\<rparr>
      in bindE (get_plan A actor i now d) (\<lambda>q. Inr (q, d)))))"

text \<open>The tests of \<open>submit\<close> that come before the task is created.\<close>

definition source_check :: "int \<Rightarrow> int \<Rightarrow> plan_row \<Rightarrow> plandb \<Rightarrow> exc + unit" where
  "source_check A actor p d = (case pl_source p of
     None \<Rightarrow> Inr ()
   | Some i \<Rightarrow> bindE (the_source A actor i d) (\<lambda>s.
       if s_deleted s then Inl (PlanningError msg_plan_source_deleted) else Inr ()))"

definition origin_check :: "platform \<Rightarrow> int \<Rightarrow> int \<Rightarrow> plan_row \<Rightarrow> plandb \<Rightarrow> exc + unit" where
  "origin_check P A actor p d =
    (let data = pl_payload p in
     case pa_origin data of
       FromSource \<Rightarrow> (case pl_source p of
           None \<Rightarrow> Inl (PermissionError msg_plan_no_source)
         | Some i \<Rightarrow> bindE (the_source A actor i d) (\<lambda>s.
             bindE (media_directory P (with_source_type (s_config s)) (pa_kind data) (pa_mime data)
                 (pa_extension data) (base_json (pa_base data))) (\<lambda>expected.
               if pa_directory data \<noteq> expected then Inl (PermissionError msg_plan_binding) else Inr ())))
     | FromAlias \<Rightarrow> bindE (directories A actor d) (\<lambda>ds.
         if pa_directory data \<in> Some ` snd ` set ds then Inr () else Inl (PermissionError msg_grant_revoked))
     | FromClassification \<Rightarrow> Inr ())"

definition plan_intake :: "int \<Rightarrow> plan_row \<Rightarrow> int \<Rightarrow> intake" where
  "plan_intake actor p bytes = (let data = pl_payload p in \<lparr>n_chat = pl_chat p, n_message = pl_message p,
     n_sender = actor, n_media_key = pa_media_key data, n_name = pa_file_name data, n_size = bytes,
     n_original = Some (pa_original data), n_kind = pa_kind data, n_mime = pa_mime data,
     n_ext = pa_extension data, n_base = pa_base data, n_options = Some (pa_options data),
     n_override = pa_directory data, n_identity = pl_identity p, n_source = pl_source p\<rparr>)"

text \<open>
  \<open>create_task\<close> with the payload, at the time the plan was made. Without a size only a duplicate
  gets through: otherwise the quota arithmetic raises TypeError, or with no daily limit the
  NOT NULL column IntegrityError; the model takes the first.
\<close>

definition task_of_plan ::
  "platform \<Rightarrow> int \<Rightarrow> plan_row \<Rightarrow> taskdb \<Rightarrow> exc + (task \<times> bool) \<times> taskdb" where
  "task_of_plan P actor p t =
    (case pa_size (pl_payload p) of
       Some n \<Rightarrow> create_task P (plan_intake actor p n) (pa_created_at (pl_payload p)) t
     | None \<Rightarrow> (case find (duplicate_of (plan_intake actor p 0)) (d_tasks t) of
         Some old \<Rightarrow> Inr ((old, False), t) | None \<Rightarrow> Inl (TypeError [])))"

definition submitted_row :: "int \<Rightarrow> plan_row \<Rightarrow> plan_row" where
  "submitted_row i p = p\<lparr>pl_status := Submitted, pl_task := Some i, pl_revision := pl_revision p + 1\<rparr>"

definition journal_result :: "int \<Rightarrow> bool \<Rightarrow> journal_row list \<Rightarrow> journal_row list" where
  "journal_result i created js = upd_where (\<lambda>e. jr_plan e = Some i)
     (\<lambda>e. e\<lparr>jr_result := (if created then res_queued else res_duplicate)\<rparr>) js"

definition submit ::
  "platform \<Rightarrow> int \<Rightarrow> int \<Rightarrow> int \<Rightarrow> int \<Rightarrow> rat \<Rightarrow> plandb \<Rightarrow> exc + (task option \<times> bool) \<times> plandb" where
  "submit P A actor i revision now d =
    bindE (get_plan A actor i now d) (\<lambda>p.
    if pl_status p = Submitted
    then Inr ((case pl_task p of None \<Rightarrow> None | Some t \<Rightarrow> get_task (p_db d) t, False), d)
    else if pl_status p \<noteq> Pending \<or> pl_revision p \<noteq> revision then Inl (PlanningError msg_plan_changed)
    else bindE (source_check A actor p d) (\<lambda>_.
      bindE (origin_check P A actor p d) (\<lambda>_.
      bindE (task_of_plan P actor p (p_db d)) (\<lambda>((t, created), db).
        Inr ((Some t, created), d\<lparr>p_db := db,
          p_plans := upd_where (\<lambda>p. pl_id p = i) (submitted_row (t_id t)) (p_plans d),
          p_journal := (if pl_source p = None then p_journal d else journal_result i created (p_journal d))\<rparr>)))))"

definition feedback :: "int \<Rightarrow> int \<Rightarrow> plandb \<Rightarrow> exc + feedback_row list" where
  "feedback A actor d = bindE (authorize A actor False d) (\<lambda>_.
     Inr (take 20 (rev (filter (\<lambda>f. fb_owner f = actor) (p_feedback d)))))"

text \<open>\<open>before[: -len(after)] if after and before.endswith(after)\<close> of the two stems.\<close>

definition removed_prefix :: "feedback_row \<Rightarrow> ustr" where
  "removed_prefix f =
    (let before = path_stem (fb_before f); after = path_stem (fb_after f)
     in if after \<noteq> [] \<and> ends_with before after then take (length before - length after) before else [])"

text \<open>\<open>list(dict.fromkeys(xs))\<close> keeps the first occurrences.\<close>

definition first_occurrences :: "'a list \<Rightarrow> 'a list" where
  "first_occurrences xs = rev (remdups (rev xs))"

definition with_prefix :: "ustr \<Rightarrow> json \<Rightarrow> exc + json" where
  "with_prefix prefix config =
    (let prof = jget config (asc ''profile'') in
     case as_arr (jget prof (asc ''prefixes'')) of
       None \<Rightarrow> Inl (TypeError [])
     | Some ps \<Rightarrow> Inr (JObj (put_member (asc ''profile'')
         (JObj (put_member (asc ''prefixes'') (JArr (first_occurrences (ps @ [JStr prefix]))) (members prof)))
         (members config))))"

definition apply_feedback ::
  "platform \<Rightarrow> int \<Rightarrow> int \<Rightarrow> int \<Rightarrow> int \<Rightarrow> rat \<Rightarrow> plandb \<Rightarrow> exc + unit \<times> plandb" where
  "apply_feedback P A actor i revision now d =
    bindE (authorize A actor True d) (\<lambda>_.
    case find (\<lambda>f. fb_id f = i \<and> fb_owner f = actor) (p_feedback d) of
      None \<Rightarrow> Inl (PlanningError msg_feedback_source)
    | Some f \<Rightarrow> (case fb_source f of
        None \<Rightarrow> Inl (PlanningError msg_feedback_source)
      | Some sid \<Rightarrow>
         if fb_operation f \<noteq> op_once then Inl (PlanningError msg_feedback_source)
         else let prefix = removed_prefix f in
           if \<not> (1 \<le> length prefix \<and> length prefix \<le> 80) then Inl (PlanningError msg_feedback_prefix)
           else bindE (the_source A actor sid d) (\<lambda>s.
             bindE (with_prefix prefix (s_config s)) (\<lambda>config.
             bindE (change_source P A actor (s_id s) revision
                 \<lparr>ch_config = Some config, ch_enabled = None, ch_delete = False, ch_cursor = None, ch_base = None\<rparr>
                 now d) (\<lambda>(_, d).
               Inr ((), d\<lparr>p_feedback := upd_where (\<lambda>f. fb_id f = i)
                 (\<lambda>f. f\<lparr>fb_operation := op_prefix\<rparr>) (p_feedback d)\<rparr>))))))"

end
