(* ===== verification/PlanLaws.thy ===== *)
theory PlanLaws
  imports Plans Steps
begin

text \<open>
  The laws of plans and sources: the search for the folder of a source ends and finds a name
  nobody has, every history of operations keeps the tables consistent, and a submission makes
  at most one task, in a directory the actor may use.
\<close>

section \<open>The search for a folder\<close>

text \<open>
  Unicode case folding maps character by character and leaves digits and the hyphen alone.
\<close>

definition casefold_law :: "platform \<Rightarrow> bool" where
  "casefold_law P \<longleftrightarrow> (\<forall>a b. casefold P (a @ b) = casefold P a @ casefold P b)
     \<and> (\<forall>s. list_all (\<lambda>c. is_digit c \<or> c = 45) s \<longrightarrow> casefold P s = s)"

lemma casefold_law_ascii: "casefold_law ascii_platform"
  by (auto simp: casefold_law_def ascii_platform_def ascii_lower_def list_all_iff is_digit_def intro!: map_idI)

lemma number_suffix_inj:
  assumes "a @ 45 # dec_nat m = b @ 45 # dec_nat n"
  shows "m = n"
proof -
  have tail: "takeWhile is_digit (rev (a @ 45 # dec_nat k)) = rev (dec_nat k)" for a k
  proof -
    have "takeWhile is_digit (rev (dec_nat k) @ 45 # rev a) = rev (dec_nat k) @ takeWhile is_digit (45 # rev a)"
      using dec_nat_digits by (intro takeWhile_append2) auto
    then show ?thesis by (simp add: is_digit_def)
  qed
  from assms tail[of a m] tail[of b n] have "dec_nat m = dec_nat n" by simp
  then show ?thesis by (simp add: dec_nat_inj)
qed

lemma folder_name_ends: "folder_name P title chat sfx = Inr c \<Longrightarrow> \<exists>x. c = x @ sfx"
  by (auto simp: folder_name_def Let_def safe_directory_Inr)

lemma numbered_folders_differ:
  assumes law: "casefold_law P" and mn: "2 \<le> m" "2 \<le> n"
    and c: "folder_name P title chat (folder_suffix i m) = Inr c"
    and c': "folder_name P title chat (folder_suffix i n) = Inr c'"
    and eq: "casefold P c = casefold P c'"
  shows "m = n"
proof -
  have fold: "\<exists>x. casefold P c = x @ 45 # dec_nat k"
    if "folder_name P title chat (folder_suffix i k) = Inr c" "2 \<le> k" for k c
  proof -
    from folder_name_ends[OF that(1)] obtain x where x: "c = x @ folder_suffix i k" ..
    have "folder_suffix i k = (suffix_source @ dec i) @ (45 # dec_nat k)"
      using that(2) by (simp add: folder_suffix_def dec_def)
    with x have "c = (x @ suffix_source @ dec i) @ (45 # dec_nat k)" by simp
    moreover have "casefold P (45 # dec_nat k) = 45 # dec_nat k"
      using law dec_nat_all_digits by (auto simp: casefold_law_def list_all_iff)
    ultimately have "casefold P c = casefold P (x @ suffix_source @ dec i) @ (45 # dec_nat k)"
      using law by (metis casefold_law_def)
    then show ?thesis by blast
  qed
  from fold[OF c mn(1)] fold[OF c' mn(2)] eq number_suffix_inj show ?thesis by metis
qed

lemma free_folder_None:
  assumes "free_folder P used title chat i n fuel = None" "k < fuel"
  shows "\<exists>c. folder_name P title chat (folder_suffix i (n + k)) = Inr c \<and> casefold P c \<in> set used"
  using assms
proof (induction fuel arbitrary: n k)
  case (Suc fuel)
  then obtain c where c: "folder_name P title chat (folder_suffix i n) = Inr c" "casefold P c \<in> set used"
    and rest: "free_folder P used title chat i (Suc n) fuel = None"
    by (auto split: sum.splits if_splits)
  show ?case
  proof (cases k)
    case 0
    with c show ?thesis by simp
  next
    case (Suc j)
    with Suc.IH[OF rest, of j] Suc.prems show ?thesis by simp
  qed
qed simp

lemma free_folder_free:
  "free_folder P used title chat i n fuel = Some (Inr c) \<Longrightarrow> casefold P c \<notin> set used
     \<and> (\<exists>k<fuel. folder_name P title chat (folder_suffix i (n + k)) = Inr c)"
proof (induction fuel arbitrary: n)
  case (Suc fuel)
  show ?case
  proof (cases "folder_name P title chat (folder_suffix i n)")
    case (Inl e)
    with Suc.prems show ?thesis by simp
  next
    case (Inr x)
    show ?thesis
    proof (cases "casefold P x \<in> set used")
      case True
      with Suc.prems Inr have "free_folder P used title chat i (Suc n) fuel = Some (Inr c)" by simp
      from Suc.IH[OF this] obtain k where "casefold P c \<notin> set used" "k < fuel"
        "folder_name P title chat (folder_suffix i (n + Suc k)) = Inr c" by auto
      then show ?thesis by (metis Suc_mono)
    next
      case False
      with Suc.prems Inr show ?thesis by (intro conjI exI[of _ 0]) auto
    qed
  qed
qed simp

lemma fuel_enough:
  assumes "casefold_law P"
  shows "free_folder P used title chat i 0 (length used + 3) \<noteq> None"
proof
  assume none: "free_folder P used title chat i 0 (length used + 3) = None"
  define f where "f k = (case folder_name P title chat (folder_suffix i k) of Inl e \<Rightarrow> [] | Inr c \<Rightarrow> casefold P c)" for k
  let ?K = "{2..<length used + 3}"
  have in_used: "f k \<in> set used" if "k \<in> ?K" for k
    using free_folder_None[OF none, of k] that by (auto simp: f_def)
  have "inj_on f ?K"
  proof (rule inj_onI)
    fix m n assume mn: "m \<in> ?K" "n \<in> ?K" and eq: "f m = f n"
    from free_folder_None[OF none, of m] mn obtain c where c: "folder_name P title chat (folder_suffix i m) = Inr c" by auto
    from free_folder_None[OF none, of n] mn obtain c' where c': "folder_name P title chat (folder_suffix i n) = Inr c'" by auto
    show "m = n"
      using numbered_folders_differ[OF assms _ _ c c'] mn eq c c' by (simp add: f_def)
  qed
  then have "card ?K \<le> card (set used)"
    using in_used by (intro card_inj_on_le[of f]) auto
  also have "\<dots> \<le> length used" by (rule card_length)
  finally show False by simp
qed

text \<open>
  C34. The search for the folder of a source ends within three more tries than there are names in
  use, either with an error of \<open>folder_name\<close> or with a folder that no other source, no category
  and no granted directory has, whatever the letter case.
\<close>

theorem folder_search_ends:
  assumes "casefold_law P"
  shows "\<exists>r. free_folder P (used_folders P i d) title chat i 0 (length (used_folders P i d) + 3) = Some r
    \<and> (\<forall>c. r = Inr c \<longrightarrow> c \<noteq> [] \<and> casefold P c \<notin> set (map (casefold P) CATEGORIES)
        \<and> (\<forall>s \<in> set (sources_of d). s_id s \<noteq> i \<longrightarrow> casefold P c \<noteq> casefold P (source_folder (s_config s)))
        \<and> (\<forall>r \<in> set (p_dirs d). casefold P c \<noteq> casefold P (hd (split_on 47 (dr_path r)))))"
proof -
  let ?u = "used_folders P i d"
  from fuel_enough[OF assms] obtain r where r: "free_folder P ?u title chat i 0 (length ?u + 3) = Some r"
    by blast
  have "c \<noteq> [] \<and> casefold P c \<notin> set ?u" if "r = Inr c" for c
  proof -
    from free_folder_free[of P ?u title chat i 0 "length ?u + 3" c] r that
    obtain k where k: "casefold P c \<notin> set ?u" "folder_name P title chat (folder_suffix i k) = Inr c" by auto
    then have "c \<noteq> []" by (auto simp: folder_name_def Let_def safe_directory_Inr lbl_source_def split: if_splits)
    with k show ?thesis by simp
  qed
  then have "\<forall>c. r = Inr c \<longrightarrow> c \<noteq> [] \<and> casefold P c \<notin> set (map (casefold P) CATEGORIES)
        \<and> (\<forall>s \<in> set (sources_of d). s_id s \<noteq> i \<longrightarrow> casefold P c \<noteq> casefold P (source_folder (s_config s)))
        \<and> (\<forall>r \<in> set (p_dirs d). casefold P c \<noteq> casefold P (hd (split_on 47 (dr_path r))))"
    by (auto simp: used_folders_def image_def)
  with r show ?thesis by blast
qed

text \<open>A small state with a source named \<open>show\<close> whose folder is \<open>Show\<close>.\<close>

definition ex_source :: source_row where
  "ex_source = \<lparr>s_id = 1, s_account = 7, s_chat = 5, s_title = asc ''Show'',
     s_config = JObj [(asc ''source_folder'', JStr (asc ''Show''))],
     s_revision = 1, s_enabled = True, s_deleted = False, s_cursor = 0, s_status = st_waiting,
     s_next_retry = 0, s_polled_at = 0, s_gap = False\<rparr>"

definition empty_plandb :: plandb where
  "empty_plandb = \<lparr>p_db = empty_db, p_prefs = (\<lambda>_. None), p_dirs = [], p_plans = [], p_journal = [],
     p_revisions = [], p_feedback = []\<rparr>"


lemma ex_used: "used_folders ascii_platform 2 (set_sources [ex_source] empty_plandb)
    = asc ''show'' # CATEGORIES"
  by (simp add: used_folders_def sources_of_def set_sources_def empty_plandb_def ex_source_def source_folder_def
      config_text_def jget_or_def jfind_def asc_def ascii_platform_def ascii_lower_def CATEGORIES_def
      lbl_video_def lbl_image_def lbl_audio_def lbl_document_def lbl_archive_def lbl_other_def)

lemmas folder_eval = folder_name_def folder_text_def asc_def ascii_platform_def dropped_char_def
  clean_char_def emoji_symbols_def is_digit_def strip_set_def lstrip_set_def rstrip_set_def
  columns_def utf8_size_def MAX_COLUMNS_def MAX_BYTES_def safe_directory_Inr is_surrogate_def
  DOT_def DOTDOT_def folder_suffix_def suffix_source_def dec_def

lemma ex_name0: "folder_name ascii_platform (asc ''show'') 6 (folder_suffix 2 0) = Inr (asc ''show'')"
  by (simp add: folder_eval)

lemma ex_name1: "folder_name ascii_platform (asc ''show'') 6 (folder_suffix 2 (Suc 0))
    = Inr (asc ''show'' @ suffix_source @ asc ''2'')"
  by (simp add: folder_eval dec_nat.simps[of 2])

lemma ex_folds: "casefold ascii_platform (asc ''show'') = asc ''show''"
  "casefold ascii_platform (asc ''show'' @ suffix_source @ asc ''2'') \<notin> set (asc ''show'' # CATEGORIES)"
  by (simp_all add: ascii_platform_def ascii_lower_def asc_def suffix_source_def CATEGORIES_def
      lbl_video_def lbl_image_def lbl_audio_def lbl_document_def lbl_archive_def lbl_other_def)

theorem folder_search_ends_witness:
  "\<exists>r. free_folder ascii_platform (used_folders ascii_platform 2 (set_sources [ex_source] empty_plandb))
       (asc ''show'') 6 2 0 (length (used_folders ascii_platform 2 (set_sources [ex_source] empty_plandb)) + 3) = Some r
    \<and> r = Inr (asc ''show'' @ suffix_source @ asc ''2'')"
proof -
  have f: "length (asc ''show'' # CATEGORIES) + 3 = Suc (Suc 8)" by (simp add: CATEGORIES_def)
  have v: "free_folder ascii_platform (asc ''show'' # CATEGORIES) (asc ''show'') 6 2 0 (Suc (Suc 8))
     = Some (Inr (asc ''show'' @ suffix_source @ asc ''2''))"
    unfolding free_folder.simps ex_name0 ex_name1 sum.case ex_folds(1) using ex_folds(2) by simp
  from folder_search_ends[OF casefold_law_ascii, of 2 "set_sources [ex_source] empty_plandb" "asc ''show''" 6]
  obtain r where r: "free_folder ascii_platform (asc ''show'' # CATEGORIES) (asc ''show'') 6 2 0 (Suc (Suc 8)) = Some r"
    unfolding ex_used f by blast
  then have "r = Inr (asc ''show'' @ suffix_source @ asc ''2'')" unfolding v by (simp only: option.inject)
  with r show ?thesis unfolding ex_used f by blast
qed

section \<open>Configurations\<close>

lemma fst_put: "fst ` set (put_member k v ms) = insert k (fst ` set ms)"
  by (rule keys_put)

lemma distinct_put: "distinct (map fst ms) \<Longrightarrow> distinct (map fst (put_member k v ms))"
proof (induction k v ms rule: put_member.induct)
  case (2 k v l w ms)
  then show ?case using fst_put[of k v ms] by (auto simp: image_iff)
qed simp

lemma distinct_update: "distinct (map fst ms) \<Longrightarrow> distinct (map fst (update_members ms us))"
  unfolding update_members_def by (induction us arbitrary: ms) (auto simp: distinct_put split: prod.splits)

lemma map_of_update:
  "map_of (update_members ms us) k = (case map_of (rev us) k of None \<Rightarrow> map_of ms k | Some v \<Rightarrow> Some v)"
  unfolding update_members_def
proof (induction us arbitrary: ms)
  case (Cons u us)
  obtain l w where u: "u = (l, w)" by (cases u)
  show ?case by (simp add: Cons.IH u map_add_def split: option.splits)
qed simp

lemma map_of_rev_distinct: "distinct (map fst us) \<Longrightarrow> map_of (rev us) = map_of us"
  using map_of_inject_set[of "rev us" us] by (simp add: rev_map[symmetric])

lemma members_obj [simp]: "members (JObj ms) = ms"
  by (simp add: members_def)

lemma jfind_members: "as_obj c \<noteq> None \<Longrightarrow> jfind c k = map_of (members c) k"
  by (auto simp: jfind_def members_def)

text \<open>What an accepted configuration looks like.\<close>

lemma source_config_Inr:
  assumes "source_config P A actor c d = Inr r"
  shows "\<exists>folder ms. source_folder r = folder \<and> members r = ms \<and> distinct (map fst ms) \<and> r = JObj ms
    \<and> (distinct (map fst (members c)) \<longrightarrow> folder = source_folder c)
    \<and> ((\<forall>kv \<in> set (members c). fst kv = asc ''source_folder'' \<longrightarrow> snd kv = JStr []) \<longrightarrow> folder = [])"
proof -
  let ?k = "asc ''source_folder''"
  from assms obtain prof prof' rules where c: "only_keys c CONFIG_KEYS"
    and b: "config_binding P (JObj (update_members (config_defaults prof) (members c))) = Inr ()"
    and r: "r = JObj (put_member (asc ''profile'') prof' (put_member (asc ''rules'') rules
        (update_members (config_defaults prof) (members c))))"
    by (auto simp: source_config_def bindE_Inr Let_def split: if_splits)
  let ?us = "update_members (config_defaults prof) (members c)"
  let ?ms = "put_member (asc ''profile'') prof' (put_member (asc ''rules'') rules ?us)"
  have "distinct (map fst (config_defaults prof))" by (simp add: config_defaults_def asc_def)
  then have dist: "distinct (map fst ?ms)" by (intro distinct_put distinct_update)
  have mk: "map_of ?ms ?k = map_of ?us ?k" by (simp add: asc_def)
  have dflt: "map_of (config_defaults prof) ?k = Some (JStr [])" by (simp add: config_defaults_def asc_def)
  from b obtain folder where f: "jget (JObj ?us) ?k = JStr folder"
    by (cases "jget (JObj ?us) ?k")
      (auto simp: config_binding_def Let_def bindE_Inr safe_directory_json_def split: if_splits)
  then have uk: "map_of ?us ?k = Some (JStr folder)"
    using dflt by (auto simp: jget_def jfind_def map_of_update split: option.splits)
  have sf: "source_folder r = folder"
    using mk uk by (simp add: r source_folder_def config_text_def jget_or_def jfind_def)
  have "folder = source_folder c" if "distinct (map fst (members c))"
  proof -
    have "as_obj c \<noteq> None" using c by (auto simp: only_keys_def split: option.splits)
    then show ?thesis
      using uk dflt map_of_rev_distinct[OF that]
      by (auto simp: map_of_update source_folder_def config_text_def jget_or_def jfind_members split: option.splits)
  qed
  moreover have "folder = []" if e: "\<forall>kv \<in> set (members c). fst kv = ?k \<longrightarrow> snd kv = JStr []"
  proof (cases "map_of (rev (members c)) ?k")
    case None
    with uk dflt show ?thesis by (simp add: map_of_update)
  next
    case (Some v)
    then have "(?k, v) \<in> set (members c)" by (auto dest: map_of_SomeD)
    with e have "v = JStr []" by auto
    with Some uk show ?thesis by (simp add: map_of_update)
  qed
  ultimately show ?thesis using sf dist r by auto
qed

lemma source_folder_put [simp]:
  "source_folder (JObj (put_member (asc ''source_folder'') (JStr f) ms)) = f"
  "k \<noteq> asc ''source_folder'' \<Longrightarrow> source_folder (JObj (put_member k v ms)) = source_folder (JObj ms)"
  by (simp_all add: source_folder_def config_text_def jget_or_def jfind_def)

text \<open>Binding keeps a folder that is set and otherwise takes a free one.\<close>

lemma bind_source_folder_Inr:
  assumes b: "bind_source_folder P A c i title chat base d = Inr r" and "distinct (map fst (members c))"
  shows "(source_folder c \<noteq> [] \<and> source_folder r = source_folder c)
    \<or> casefold P (source_folder r) \<notin> set (used_folders P i d)"
proof (cases "source_folder c = []")
  case False
  with b source_config_Inr[of P A A c d r] assms(2) show ?thesis by (auto simp: bind_source_folder_def)
next
  case True
  let ?u = "used_folders P i d"
  from b True obtain x where x: "free_folder P ?u title chat i 0 (length ?u + 3) = Some x"
    "bindE x (\<lambda>folder. source_config P A A (JObj (put_member (asc ''source_base'') (JStr base)
             (put_member (asc ''source_folder'') (JStr folder) (members c)))) d) = Inr r"
    by (auto simp: bind_source_folder_def Let_def split: option.splits)
  then obtain folder where f: "x = Inr folder"
    and r: "source_config P A A (JObj (put_member (asc ''source_base'') (JStr base)
             (put_member (asc ''source_folder'') (JStr folder) (members c)))) d = Inr r"
    by (cases x) auto
  let ?c = "JObj (put_member (asc ''source_base'') (JStr base) (put_member (asc ''source_folder'') (JStr folder) (members c)))"
  have ne: "asc ''source_base'' \<noteq> asc ''source_folder''" by (simp add: asc_def)
  have "distinct (map fst (members ?c))" using assms(2) by (simp only: members_obj distinct_put)
  with source_config_Inr[OF r] have "source_folder r = source_folder ?c" by blast
  also have "\<dots> = folder" using ne by simp
  finally have "source_folder r = folder" .
  with x(1) f free_folder_free[of P ?u title chat i 0 "length ?u + 3" folder] show ?thesis by auto
qed

lemma source_folder_binding:
  "binding_of a = binding_of b \<Longrightarrow> source_folder a = source_folder b"
  by (simp add: binding_of_def source_folder_def config_text_def)

lemma changed_config_Inr:
  assumes "changed_config P A actor old c d = Inr value"
  shows "source_folder value = source_folder (s_config old)
    \<or> casefold P (source_folder value) \<notin> set (used_folders P (s_id old) d)"
proof (cases "ch_config c")
  case None
  with assms show ?thesis by (simp add: changed_config_def)
next
  case (Some config)
  let ?new = "JObj (update_members (binding_of (s_config old)) (members config))"
  let ?k = "\<lambda>value. if binding_of value \<noteq> binding_of (s_config old) then Inl (PlanningError msg_source_bound)
          else if jget value (asc ''directory_mode'') = JStr (asc ''source_type'') \<and> source_folder value = []
          then (case ch_base c of
              None \<Rightarrow> Inl (PlanningError msg_source_switch)
            | Some b \<Rightarrow> bind_source_folder P A value (s_id old) (s_title old) (s_chat old) b d)
          else Inr value"
  from assms Some have "bindE (source_config P A actor ?new d) ?k = Inr value"
    by (simp add: changed_config_def split: if_splits)
  then obtain v where v: "source_config P A actor ?new d = Inr v" and k: "?k v = Inr value"
    by (auto simp: bindE_Inr)
  have same: "binding_of v = binding_of (s_config old)"
    by (rule ccontr) (use k in simp)
  have rest: "v = value \<or> (source_folder v = [] \<and> (\<exists>b. bind_source_folder P A v (s_id old) (s_title old) (s_chat old) b d = Inr value))"
  proof (cases "jget v (asc ''directory_mode'') = JStr (asc ''source_type'') \<and> source_folder v = []")
    case True
    with k same obtain b where "bind_source_folder P A v (s_id old) (s_title old) (s_chat old) b d = Inr value"
      by (cases "ch_base c") simp_all
    with True show ?thesis by blast
  next
    case False
    from k have "Inr v = (Inr value :: exc + json)" unfolding if_not_P[OF False] using same by simp
    then show ?thesis by simp
  qed
  from rest show ?thesis
  proof
    assume "v = value"
    with source_folder_binding[OF same] show ?thesis by simp
  next
    assume "source_folder v = [] \<and> (\<exists>b. bind_source_folder P A v (s_id old) (s_title old) (s_chat old) b d = Inr value)"
    then obtain b where b: "source_folder v = []" "bind_source_folder P A v (s_id old) (s_title old) (s_chat old) b d = Inr value" by blast
    from source_config_Inr[OF v] have "distinct (map fst (members v))" by auto
    from bind_source_folder_Inr[OF b(2) this] b(1) show ?thesis by auto
  qed
qed

section \<open>Consistent tables\<close>

definition folders_ok :: "platform \<Rightarrow> source_row list \<Rightarrow> bool" where
  "folders_ok P ss \<longleftrightarrow> (\<forall>s \<in> set ss. \<forall>s' \<in> set ss. s_id s \<noteq> s_id s' \<longrightarrow>
     source_folder (s_config s) \<noteq> [] \<longrightarrow> source_folder (s_config s') \<noteq> [] \<longrightarrow>
     casefold P (source_folder (s_config s)) \<noteq> casefold P (source_folder (s_config s')))"

definition sources_wf :: "platform \<Rightarrow> source_row list \<Rightarrow> bool" where
  "sources_wf P ss \<longleftrightarrow> distinct (map s_id ss) \<and> distinct (map (\<lambda>s. (s_account s, s_chat s)) ss)
     \<and> folders_ok P ss \<and> count_where (\<lambda>s. \<not> s_deleted s) ss \<le> 32"

definition plans_wf :: "int set \<Rightarrow> int set \<Rightarrow> plan_row list \<Rightarrow> bool" where
  "plans_wf T S ps \<longleftrightarrow> distinct (map pl_id ps)
     \<and> distinct (map (\<lambda>p. (pl_identity p, pl_chat p, pl_message p)) ps)
     \<and> (\<forall>p \<in> set ps. pl_source p \<in> insert None (Some ` S)
          \<and> (pl_status p = Submitted \<longrightarrow> pl_task p \<in> Some ` T))
     \<and> (\<forall>u. count_where (\<lambda>p. pl_owner p = u \<and> pl_status p = Pending) ps \<le> 200)"

definition dirs_wf :: "platform \<Rightarrow> dir_row list \<Rightarrow> bool" where
  "dirs_wf P ds \<longleftrightarrow> distinct (map dr_alias ds) \<and> length ds \<le> 32
     \<and> (\<forall>r \<in> set ds. safe_directory P (dr_path r) = Inr (dr_path r))"

definition revisions_wf :: "revision_row list \<Rightarrow> bool" where
  "revisions_wf rs \<longleftrightarrow> distinct (map rv_id rs) \<and> (\<forall>i. count_where (\<lambda>r. rv_source r = i) rs \<le> 20)"

definition wf_plandb :: "platform \<Rightarrow> plandb \<Rightarrow> bool" where
  "wf_plandb P d \<longleftrightarrow> wf_db (p_db d) \<and> sources_wf P (sources_of d)
     \<and> plans_wf (t_id ` set (d_tasks (p_db d))) (s_id ` set (sources_of d)) (p_plans d)
     \<and> dirs_wf P (p_dirs d) \<and> revisions_wf (p_revisions d)"

subsection \<open>Tables\<close>

lemma next_id_bound: "r \<in> set rows \<Longrightarrow> key r < next_id key rows"
  by (induction rows) (auto simp: next_id_def)

lemma next_id_fresh: "next_id key rows \<notin> key ` set rows"
  using next_id_bound[of _ rows key] by force

text \<open>Changing rows of plans without making one pending; dropping rows; new tasks and sources.\<close>

lemma plans_wf_upd:
  assumes "plans_wf T S ps"
    and f: "\<And>p. p \<in> set ps \<Longrightarrow> q p \<Longrightarrow> pl_id (f p) = pl_id p \<and> pl_owner (f p) = pl_owner p
      \<and> pl_identity (f p) = pl_identity p \<and> pl_chat (f p) = pl_chat p \<and> pl_message (f p) = pl_message p
      \<and> pl_source (f p) = pl_source p \<and> (pl_status (f p) = Pending \<longrightarrow> pl_status p = Pending)
      \<and> (pl_status (f p) = Submitted \<longrightarrow> pl_task (f p) \<in> Some ` T)"
  shows "plans_wf T S (upd_where q f ps)"
proof -
  have keys: "map pl_id (upd_where q f ps) = map pl_id ps"
    "map (\<lambda>p. (pl_identity p, pl_chat p, pl_message p)) (upd_where q f ps)
      = map (\<lambda>p. (pl_identity p, pl_chat p, pl_message p)) ps"
    using f by (auto intro!: map_upd_where)
  have "count_where (\<lambda>p. pl_owner p = u \<and> pl_status p = Pending) (upd_where q f ps)
      \<le> count_where (\<lambda>p. pl_owner p = u \<and> pl_status p = Pending) ps" for u
    unfolding count_where_upd using f by (intro count_where_mono) (auto split: if_splits)
  then have "\<forall>u. count_where (\<lambda>p. pl_owner p = u \<and> pl_status p = Pending) (upd_where q f ps) \<le> 200"
    using assms(1) le_trans unfolding plans_wf_def by blast
  moreover have "\<forall>p \<in> set (upd_where q f ps). pl_source p \<in> insert None (Some ` S)
      \<and> (pl_status p = Submitted \<longrightarrow> pl_task p \<in> Some ` T)"
  proof
    fix p assume "p \<in> set (upd_where q f ps)"
    then obtain r where r: "r \<in> set ps" "p = (if q r then f r else r)" by (auto simp: set_upd_where)
    from assms(1) r(1) have old: "pl_source r \<in> insert None (Some ` S)"
      "pl_status r = Submitted \<longrightarrow> pl_task r \<in> Some ` T" by (simp_all add: plans_wf_def)
    show "pl_source p \<in> insert None (Some ` S) \<and> (pl_status p = Submitted \<longrightarrow> pl_task p \<in> Some ` T)"
      using r(2) old f[OF r(1)] by (cases "q r") simp_all
  qed
  ultimately show ?thesis using assms(1) by (simp add: plans_wf_def keys)
qed

lemma plans_wf_filter: "plans_wf T S ps \<Longrightarrow> plans_wf T S (filter q ps)"
  unfolding plans_wf_def
  by (auto simp: distinct_map_filter intro: le_trans[OF count_where_filter_le])

lemma plans_wf_mono: "plans_wf T S ps \<Longrightarrow> T \<subseteq> T' \<Longrightarrow> S \<subseteq> S' \<Longrightarrow> plans_wf T' S' ps"
  unfolding plans_wf_def by blast

lemma plans_wf_append:
  assumes "plans_wf T S ps" "pl_id p \<notin> pl_id ` set ps"
    "\<not> list_ex (\<lambda>q. pl_identity q = pl_identity p \<and> pl_chat q = pl_chat p \<and> pl_message q = pl_message p) ps"
    "pl_source p \<in> insert None (Some ` S)" "pl_status p = Pending"
    "count_where (\<lambda>q. pl_owner q = pl_owner p \<and> pl_status q = Pending) ps < 200"
  shows "plans_wf T S (ps @ [p])"
  using assms by (auto simp: plans_wf_def list_ex_iff)

lemma sources_of_set [simp]: "sources_of (set_sources ss d) = ss"
  by (simp add: sources_of_def set_sources_def)

lemma set_sources_fields [simp]:
  "p_plans (set_sources ss d) = p_plans d" "p_dirs (set_sources ss d) = p_dirs d"
  "p_revisions (set_sources ss d) = p_revisions d" "d_tasks (p_db (set_sources ss d)) = d_tasks (p_db d)"
  "wf_db (p_db (set_sources ss d)) = wf_db (p_db d)" "p_journal (set_sources ss d) = p_journal d"
  by (simp_all add: set_sources_def wf_db_def wf_tasks_def wf_refs_def)

lemma used_has_others:
  "s \<in> set (sources_of d) \<Longrightarrow> s_id s \<noteq> i \<Longrightarrow> casefold P (source_folder (s_config s)) \<in> set (used_folders P i d)"
  by (auto simp: used_folders_def)

text \<open>One row changes its configuration to one with the same or a free folder.\<close>

lemma sources_wf_upd:
  assumes wf: "sources_wf P (sources_of d)" and old: "row_of s_id i (sources_of d) = Some old"
    and f: "\<And>s. s_id (f s) = s_id s \<and> s_account (f s) = s_account s \<and> s_chat (f s) = s_chat s"
    and folder: "source_folder (s_config (f old)) = [] \<or> source_folder (s_config (f old)) = source_folder (s_config old)
      \<or> casefold P (source_folder (s_config (f old))) \<notin> set (used_folders P i d)"
    and live: "s_deleted (f old) \<or> \<not> s_deleted old \<or> count_where (\<lambda>s. \<not> s_deleted s) (sources_of d) < 32"
  shows "sources_wf P (upd_where (\<lambda>s. s_id s = i) f (sources_of d))"
proof -
  let ?ss = "sources_of d" and ?u = "upd_where (\<lambda>s. s_id s = i) f (sources_of d)"
  let ?c = "\<lambda>s. casefold P (source_folder (s_config s))"
  have dist: "distinct (map s_id ?ss)" using wf by (simp add: sources_wf_def)
  have oldin: "old \<in> set ?ss" "s_id old = i" using row_of_Some[OF old] by auto
  have only: "s = old" if "s \<in> set ?ss" "s_id s = i" for s
    using row_of_unique[OF dist that(1)] that(2) old by simp
  have keys: "map s_id ?u = map s_id ?ss"
    "map (\<lambda>s. (s_account s, s_chat s)) ?u = map (\<lambda>s. (s_account s, s_chat s)) ?ss"
    using f by (auto intro!: map_upd_where)
  have member: "s = f old \<or> (s \<in> set ?ss \<and> s_id s \<noteq> i)" if "s \<in> set ?u" for s
    using that only by (auto simp: set_upd_where)
  have clash: "?c (f old) \<noteq> ?c s" if s: "s \<in> set ?ss" "s_id s \<noteq> i"
      "source_folder (s_config (f old)) \<noteq> []" "source_folder (s_config s) \<noteq> []" for s
    using folder s(3)
  proof (elim disjE)
    assume e: "source_folder (s_config (f old)) = source_folder (s_config old)"
    then have "source_folder (s_config old) \<noteq> []" using s(3) by simp
    with wf oldin s have "?c old \<noteq> ?c s" by (simp add: sources_wf_def folders_ok_def)
    then show ?thesis by (simp add: e)
  next
    assume "?c (f old) \<notin> set (used_folders P i d)"
    with used_has_others[OF s(1,2), of P] show ?thesis by metis
  qed simp
  have "folders_ok P ?u"
    unfolding folders_ok_def
  proof (intro ballI impI)
    fix a b assume ab: "a \<in> set ?u" "b \<in> set ?u" "s_id a \<noteq> s_id b"
      "source_folder (s_config a) \<noteq> []" "source_folder (s_config b) \<noteq> []"
    from member[OF ab(1)] member[OF ab(2)] consider "a = f old" "b = f old"
      | "a = f old" "b \<in> set ?ss" "s_id b \<noteq> i" | "b = f old" "a \<in> set ?ss" "s_id a \<noteq> i"
      | "a \<in> set ?ss" "b \<in> set ?ss" by blast
    then show "?c a \<noteq> ?c b"
    proof cases
      case 1
      with ab(3) show ?thesis by simp
    next
      case 2
      with clash[of b] ab show ?thesis by simp
    next
      case 3
      with clash[of a] ab show ?thesis by simp
    next
      case 4
      with wf ab show ?thesis by (simp add: sources_wf_def folders_ok_def)
    qed
  qed
  moreover have "count_where (\<lambda>s. \<not> s_deleted s) ?u \<le> 32"
  proof (cases "s_deleted (f old) \<or> \<not> s_deleted old")
    case True
    have "count_where (\<lambda>s. \<not> s_deleted s) ?u \<le> count_where (\<lambda>s. \<not> s_deleted s) ?ss"
      unfolding count_where_upd using True only by (intro count_where_mono) (auto split: if_splits)
    also have "\<dots> \<le> 32" using wf by (simp add: sources_wf_def)
    finally show ?thesis .
  next
    case False
    have "count_where (\<lambda>s. \<not> s_deleted s) ?u \<le> Suc (count_where (\<lambda>s. \<not> s_deleted s \<and> s_id s \<noteq> i) ?ss)"
      by (rule count_where_upd_le[OF dist])
    also have "\<dots> \<le> Suc (count_where (\<lambda>s. \<not> s_deleted s) ?ss)"
      by (intro Suc_leI le_imp_less_Suc count_where_mono) auto
    also have "\<dots> \<le> 32" using live False by simp
    finally show ?thesis .
  qed
  ultimately show ?thesis using wf by (simp add: sources_wf_def keys)
qed

lemma sources_wf_append:
  assumes "sources_wf P ss" "s_id s \<notin> s_id ` set ss"
    "find (\<lambda>q. s_account q = s_account s \<and> s_chat q = s_chat s) ss = None"
    "source_folder (s_config s) = []" "count_where (\<lambda>s. \<not> s_deleted s) ss < 32"
  shows "sources_wf P (ss @ [s])"
  using assms by (auto simp: sources_wf_def folders_ok_def find_None_iff)

subsection \<open>Operations\<close>

lemma expire_pending_wf: "wf_plandb P d \<Longrightarrow> wf_plandb P (expire_pending u now d)"
  by (auto simp: wf_plandb_def expire_pending_def sources_of_def expired_row_def intro!: plans_wf_upd)

lemma expire_wf: "wf_plandb P d \<Longrightarrow> wf_plandb P (snd (expire now d))"
  by (auto simp: wf_plandb_def expire_def sources_of_def expired_row_def Let_def drop_batch_def
      intro!: plans_wf_upd plans_wf_filter)

lemma set_directory_wf:
  assumes "wf_plandb P d" "set_directory P A actor alias path owners d = Inr (u, d')"
  shows "wf_plandb P d'"
proof -
  let ?k = "filter (\<lambda>r. dr_alias r \<noteq> alias) (p_dirs d)"
  from assms(2) obtain ids ds p where ds: "directories A actor d = Inr ds" "authorize A actor True d = Inr ()"
    and full: "\<not> (32 \<le> length (p_dirs d) \<and> alias \<notin> fst ` set ds)" and p: "safe_directory P path = Inr p"
    and d': "d' = d\<lparr>p_dirs := ?k @ [\<lparr>dr_alias = alias, dr_path = p, dr_owners = ids\<rparr>]\<rparr>"
    by (auto simp: set_directory_def bindE_Inr split: if_splits option.splits)
  have wf: "dirs_wf P (p_dirs d)" using assms(1) by (simp add: wf_plandb_def)
  have "length ?k < 32"
  proof (cases "alias \<in> dr_alias ` set (p_dirs d)")
    case True
    then have "length ?k < length (p_dirs d)" by (auto intro!: length_filter_less)
    with wf show ?thesis by (simp add: dirs_wf_def)
  next
    case False
    with ds have "alias \<notin> fst ` set ds" by (auto simp: directories_def bindE_Inr dest!: in_set_takeD)
    with full show ?thesis using length_filter_le[of "\<lambda>r. dr_alias r \<noteq> alias" "p_dirs d"] by linarith
  qed
  then have "dirs_wf P (p_dirs d')"
    using wf p by (auto simp: d' dirs_wf_def distinct_map_filter safe_directory_Inr)
  with assms(1) show ?thesis by (simp add: wf_plandb_def d' sources_of_def)
qed

lemma keep_revision_wf:
  assumes "revisions_wf rs"
  shows "revisions_wf (keep_revision actor old now rs)"
proof -
  define all where "all = rs @ [\<lparr>rv_id = next_id rv_id rs, rv_source = s_id old, rv_revision = s_revision old,
                       rv_config = s_config old, rv_operator = actor, rv_created = now\<rparr>]"
  define kept where "kept = take 20 (rev (filter (\<lambda>r. rv_source r = s_id old) all))"
  have k: "keep_revision actor old now rs = filter (\<lambda>r. rv_source r \<noteq> s_id old \<or> rv_id r \<in> rv_id ` set kept) all"
    by (simp add: keep_revision_def Let_def all_def kept_def)
  have dist: "distinct (map rv_id all)"
    using assms next_id_fresh[of rv_id rs] by (simp add: revisions_wf_def all_def)
  let ?f = "filter (\<lambda>r. rv_source r \<noteq> s_id old \<or> rv_id r \<in> rv_id ` set kept) all"
  have "count_where (\<lambda>r. rv_source r = j) ?f \<le> 20" for j
  proof (cases "j = s_id old")
    case True
    let ?g = "filter (\<lambda>r. rv_source r = j) ?f"
    have "distinct (map rv_id ?g)" by (rule distinct_map_filter[OF distinct_map_filter[OF dist]])
    then have "length ?g = card (rv_id ` set ?g)"
      using distinct_card[of "map rv_id ?g"] by simp
    also have "\<dots> \<le> card (rv_id ` set kept)" using True by (intro card_mono) auto
    also have "\<dots> \<le> length kept" using card_length[of "map rv_id kept"] by simp
    also have "\<dots> \<le> 20" by (simp add: kept_def)
    finally show ?thesis by (simp add: count_where_def)
  next
    case False
    have "count_where (\<lambda>r. rv_source r = j) ?f \<le> count_where (\<lambda>r. rv_source r = j) all"
      by (rule count_where_filter_le)
    also have "\<dots> = count_where (\<lambda>r. rv_source r = j) rs" using False by (simp add: all_def)
    also have "\<dots> \<le> 20" using assms by (simp add: revisions_wf_def)
    finally show ?thesis .
  qed
  with dist show ?thesis by (simp add: k revisions_wf_def distinct_map_filter)
qed

lemma the_source_Inr:
  "the_source A actor i d = Inr s \<longleftrightarrow> authorize A actor True d = Inr () \<and> row_of s_id i (sources_of d) = Some s"
  by (auto simp: the_source_def bindE_Inr split: option.splits)

lemma changed_row_fields [simp]:
  "s_id (changed_row v e dl pos now s) = s_id s" "s_account (changed_row v e dl pos now s) = s_account s"
  "s_chat (changed_row v e dl pos now s) = s_chat s" "s_config (changed_row v e dl pos now s) = v"
  "s_deleted (changed_row v e dl pos now s) = dl" "s_revision (changed_row v e dl pos now s) = s_revision s + 1"
  by (auto simp: changed_row_def Let_def split: option.splits)

lemma change_source_Inr:
  assumes "change_source P A actor i revision c now d = Inr (u, d')"
  obtains old v e where "row_of s_id i (sources_of d) = Some old" "\<not> s_deleted old"
    "s_revision old = revision" "actor = A" "changed_config P A actor old c d = Inr v"
    "d' = set_sources (upd_where (\<lambda>s. s_id s = i) (changed_row v e (ch_delete c) (ch_cursor c) now) (sources_of d))
       (d\<lparr>p_revisions := keep_revision actor old now (p_revisions d),
          p_plans := (if ch_delete c then ignore_pending i (p_plans d) else p_plans d)\<rparr>)"
  using assms
  by (auto simp: change_source_def bindE_Inr the_source_Inr authorize_def Let_def split: if_splits)

lemma same_ids_upd: "(\<And>s. s_id (f s) = s_id s) \<Longrightarrow> s_id ` set (upd_where q f ss) = s_id ` set ss"
  using map_upd_where[of ss q s_id f] by (metis set_map)

lemma change_source_wf:
  assumes wf: "wf_plandb P d" and c: "change_source P A actor i revision c now d = Inr (u, d')"
  shows "wf_plandb P d'"
  using c
proof (rule change_source_Inr)
  fix old v e
  let ?f = "changed_row v e (ch_delete c) (ch_cursor c) now"
  assume old: "row_of s_id i (sources_of d) = Some old" "\<not> s_deleted old"
    and v: "changed_config P A actor old c d = Inr v"
    and d': "d' = set_sources (upd_where (\<lambda>s. s_id s = i) ?f (sources_of d))
       (d\<lparr>p_revisions := keep_revision actor old now (p_revisions d),
          p_plans := (if ch_delete c then ignore_pending i (p_plans d) else p_plans d)\<rparr>)"
  have id: "s_id old = i" using row_of_Some[OF old(1)] by simp
  have src: "sources_wf P (sources_of d)" and pl: "plans_wf (t_id ` set (d_tasks (p_db d))) (s_id ` set (sources_of d)) (p_plans d)"
    using wf by (simp_all add: wf_plandb_def)
  have "sources_wf P (upd_where (\<lambda>s. s_id s = i) ?f (sources_of d))"
    using src old changed_config_Inr[OF v] id by (intro sources_wf_upd) auto
  moreover have "plans_wf (t_id ` set (d_tasks (p_db d))) (s_id ` set (sources_of d)) (p_plans d')"
    using pl by (auto simp: d' ignore_pending_def intro!: plans_wf_upd)
  moreover have "s_id ` set (sources_of d') = s_id ` set (sources_of d)"
    by (simp add: d' same_ids_upd)
  ultimately show ?thesis
    using wf by (simp add: wf_plandb_def d' keep_revision_wf)
qed

text \<open>
  The folder of a new source: \<open>save_source\<close> is called with a configuration that names none, which
  \<open>names_no_folder\<close> says (the only caller passes the configuration of a new draft).
\<close>

definition names_no_folder :: "json \<Rightarrow> bool" where
  "names_no_folder c \<longleftrightarrow> (\<forall>kv \<in> set (members c). fst kv = asc ''source_folder'' \<longrightarrow> snd kv = JStr [])"

lemma live_sources:
  "sources A actor d = Inr ss \<Longrightarrow> \<not> 32 \<le> length ss \<Longrightarrow> count_where (\<lambda>s. \<not> s_deleted s) (sources_of d) < 32"
  by (auto simp: sources_def bindE_Inr count_where_def)

lemma with_source_type_members: "distinct (map fst (members c)) \<Longrightarrow> distinct (map fst (members (with_source_type c)))"
  by (simp only: with_source_type_def members_obj distinct_put)

lemma with_source_type_folder: "source_folder (with_source_type c) = source_folder c"
proof -
  have "asc ''directory_mode'' \<noteq> asc ''source_folder''" by (simp add: asc_def)
  then have "source_folder (with_source_type c) = source_folder (JObj (members c))"
    unfolding with_source_type_def by (rule source_folder_put(2))
  also have "\<dots> = source_folder c"
    by (cases c) (simp_all add: members_def source_folder_def config_text_def jget_or_def jfind_def)
  finally show ?thesis .
qed

lemma source_folder_update:
  "source_folder (JObj (update_members ms (binding_of old))) = source_folder old"
proof -
  have "asc ''source_base'' \<noteq> asc ''source_folder''" by (simp add: asc_def)
  then show ?thesis
    by (simp add: source_folder_def config_text_def jget_or_def jfind_def binding_of_def map_of_update)
qed

lemma again_source_fields [simp]:
  "s_id (again_source t c pos now s) = s_id s" "s_account (again_source t c pos now s) = s_account s"
  "s_chat (again_source t c pos now s) = s_chat s" "s_config (again_source t c pos now s) = c"
  "s_deleted (again_source t c pos now s) = False"
  by (simp_all add: again_source_def)

lemma new_source_fields [simp]:
  "s_id (new_source i a b t c pos now) = i" "s_account (new_source i a b t c pos now) = a"
  "s_chat (new_source i a b t c pos now) = b" "s_config (new_source i a b t c pos now) = c"
  "s_deleted (new_source i a b t c pos now) = False"
  by (simp_all add: new_source_def)

text \<open>A deleted source that is registered again, and a new one.\<close>

lemma folder_again:
  assumes c: "source_config P A actor config d = Inr c0" and e: "names_no_folder config"
    and b: "(case base of None \<Rightarrow> Inr c0 | Some b \<Rightarrow> bind_source_folder P A
        (with_source_type (JObj (update_members (members c0) (binding_of old)))) i title chat b d) = Inr c1"
  shows "source_folder c1 = [] \<or> source_folder c1 = source_folder old
    \<or> casefold P (source_folder c1) \<notin> set (used_folders P i d)"
proof (cases base)
  case None
  with b source_config_Inr[OF c] e show ?thesis by (auto simp: names_no_folder_def)
next
  case (Some bs)
  let ?c = "JObj (update_members (members c0) (binding_of old))"
  from source_config_Inr[OF c] have "distinct (map fst (members ?c))" by (auto simp: distinct_update)
  from bind_source_folder_Inr[OF _ with_source_type_members[OF this]] b Some
  have "source_folder (with_source_type ?c) \<noteq> [] \<and> source_folder c1 = source_folder (with_source_type ?c)
    \<or> casefold P (source_folder c1) \<notin> set (used_folders P i d)" by simp
  then show ?thesis by (auto simp: with_source_type_folder source_folder_update)
qed

lemma folder_new:
  assumes c: "source_config P A actor config d = Inr c0" and e: "names_no_folder config"
    and b: "(case base of None \<Rightarrow> Inr c0 | Some b \<Rightarrow> bind_source_folder P A (with_source_type c0) i title chat b d1) = Inr c1"
  shows "source_folder c0 = []" "source_folder c1 = [] \<or> casefold P (source_folder c1) \<notin> set (used_folders P i d1)"
proof -
  from source_config_Inr[OF c] e have c0: "source_folder c0 = []" "distinct (map fst (members c0))"
    by (auto simp: names_no_folder_def)
  from c0(1) show "source_folder c0 = []" .
  show "source_folder c1 = [] \<or> casefold P (source_folder c1) \<notin> set (used_folders P i d1)"
  proof (cases base)
    case None
    with b c0 show ?thesis by simp
  next
    case (Some bs)
    with bind_source_folder_Inr[OF _ with_source_type_members[OF c0(2)]] b
    have "source_folder (with_source_type c0) \<noteq> [] \<and> source_folder c1 = source_folder (with_source_type c0)
      \<or> casefold P (source_folder c1) \<notin> set (used_folders P i d1)" by simp
    with c0(1) show ?thesis by (simp add: with_source_type_folder)
  qed
qed

lemma save_source_wf:
  assumes wf: "wf_plandb P d" and e: "names_no_folder config"
    and sv: "save_source P A actor account chat title pos config base now d = Inr (s, d')"
  shows "wf_plandb P d'"
proof -
  let ?ss = "sources_of d"
  let ?same = "\<lambda>s. s_account s = account \<and> s_chat s = chat"
  have src: "sources_wf P ?ss" and pl: "plans_wf (t_id ` set (d_tasks (p_db d))) (s_id ` set ?ss) (p_plans d)"
    using wf by (simp_all add: wf_plandb_def)
  from sv obtain c0 ss where c0: "source_config P A actor config d = Inr c0" and ss: "sources A actor d = Inr ss" "\<not> 32 \<le> length ss"
    by (auto simp: save_source_def bindE_Inr split: if_splits)
  note live = live_sources[OF ss]
  show ?thesis
  proof (cases "find ?same ?ss")
    case (Some old)
    let ?b = "case base of None \<Rightarrow> Inr c0 | Some b \<Rightarrow> bind_source_folder P A
        (with_source_type (JObj (update_members (members c0) (binding_of (s_config old))))) (s_id old) title chat b d"
    from sv c0 ss Some obtain c1 where b: "?b = Inr c1"
      and d': "d' = set_sources (upd_where (\<lambda>s. s_id s = s_id old) (again_source title c1 pos now) ?ss) d"
      by (auto simp: save_source_def bindE_Inr Let_def split: if_splits)
    have in_old: "row_of s_id (s_id old) ?ss = Some old"
      using find_in[OF Some] src by (simp add: row_of_unique sources_wf_def)
    have "sources_wf P (sources_of d')"
      unfolding d' sources_of_set using src in_old live folder_again[OF c0 e b] by (intro sources_wf_upd) auto
    moreover have "s_id ` set (sources_of d') = s_id ` set ?ss" by (simp add: d' same_ids_upd)
    ultimately show ?thesis using wf by (simp add: wf_plandb_def d')
  next
    case None
    let ?i = "next_id s_id ?ss"
    let ?new = "new_source ?i account chat title c0 pos now"
    let ?d1 = "set_sources (?ss @ [?new]) d"
    let ?b = "case base of None \<Rightarrow> Inr c0 | Some b \<Rightarrow> bind_source_folder P A (with_source_type c0) ?i title chat b ?d1"
    from sv c0 ss None obtain c1 where b: "?b = Inr c1"
      and d': "d' = set_sources (upd_where (\<lambda>s. s_id s = ?i) (\<lambda>s. s\<lparr>s_config := c1\<rparr>) (sources_of ?d1)) ?d1"
      by (auto simp: save_source_def bindE_Inr Let_def split: if_splits)
    have w1: "sources_wf P (sources_of ?d1)"
      unfolding sources_of_set using src next_id_fresh[of s_id ?ss] None live folder_new(1)[OF c0 e b]
      by (intro sources_wf_append) auto
    have "row_of s_id ?i (sources_of ?d1) = Some ?new"
      using next_id_fresh[of s_id ?ss] by (simp add: row_of_append row_of_None[THEN iffD2])
    then have "sources_wf P (sources_of d')"
      unfolding d' sources_of_set[of "upd_where _ _ _"] using w1 folder_new(2)[OF c0 e b] by (intro sources_wf_upd) auto
    moreover have "s_id ` set ?ss \<subseteq> s_id ` set (sources_of d')" by (auto simp: d' same_ids_upd)
    ultimately show ?thesis
      using wf plans_wf_mono[OF pl order_refl] by (simp add: wf_plandb_def d')
  qed
qed

lemma preferences_db:
  assumes "preferences P A actor us d = Inr (v, d')"
  shows "\<exists>x. d' = d\<lparr>p_prefs := x\<rparr>"
proof (cases us)
  case None
  with assms have "d' = d\<lparr>p_prefs := p_prefs d\<rparr>" by (simp add: preferences_def bindE_Inr)
  then show ?thesis by (intro exI[of _ "p_prefs d"])
next
  case (Some u)
  from assms show ?thesis
    unfolding preferences_def Some option.case bindE_Inr Let_def by (auto simp: bindE_Inr split: if_split_asm)
qed

lemma preferences_wf: "wf_plandb P d \<Longrightarrow> preferences P A actor us d = Inr (v, d') \<Longrightarrow> wf_plandb P d'"
  by (auto dest!: preferences_db simp: wf_plandb_def sources_of_def)

lemma write_journal_same:
  "write_journal saved r i now d = Inr d' \<Longrightarrow> p_db d' = p_db d \<and> p_plans d' = p_plans d
     \<and> p_dirs d' = p_dirs d \<and> p_revisions d' = p_revisions d \<and> p_feedback d' = p_feedback d"
  by (auto simp: write_journal_def split: option.splits if_splits)

lemma get_plan_Inr:
  "get_plan A actor i now d = Inr q \<longleftrightarrow> authorize A actor False d = Inr () \<and> (\<exists>p. row_of pl_id i (p_plans d) = Some p
     \<and> pl_owner p = actor \<and> (pl_source p = None \<or> actor = A) \<and> q = shown now p)"
  by (auto simp: get_plan_def bindE_Inr split: option.splits)

lemma shown_fields [simp]:
  "pl_id (shown now p) = pl_id p" "pl_owner (shown now p) = pl_owner p" "pl_source (shown now p) = pl_source p"
  "pl_payload (shown now p) = pl_payload p" "pl_revision (shown now p) = pl_revision p"
  "pl_task (shown now p) = pl_task p" "pl_chat (shown now p) = pl_chat p" "pl_message (shown now p) = pl_message p"
  "pl_identity (shown now p) = pl_identity p"
  "pl_status (shown now p) = Submitted \<longleftrightarrow> pl_status p = Submitted"
  "pl_status (shown now p) = Pending \<longleftrightarrow> pl_status p = Pending \<and> now \<le> pl_expires p"
  by (auto simp: shown_def)

lemma shown_same: "pl_status (shown now p) \<noteq> Expired \<Longrightarrow> shown now p = p"
  by (auto simp: shown_def)

lemma create_new_Inr:
  assumes "create_new P A actor r saved now d = Inr ((q, c), d')"
  obtains dir why options at_time where
    "count_where (\<lambda>p. pl_owner p = actor \<and> pl_status p = Pending) (p_plans d) < 200" "c"
    "write_journal saved r (next_id pl_id (p_plans d)) now
       (d\<lparr>p_plans := p_plans d @ [new_plan (next_id pl_id (p_plans d)) actor r
          (new_payload r saved dir why options at_time) now]\<rparr>) = Inr d'"
  using assms by (auto simp: create_new_def bindE_Inr Let_def split: if_splits prod.splits)

lemma create_plan_wf:
  assumes wf0: "wf_plandb P d0" and c: "create_plan P A actor r now d0 = Inr ((q, cr), d')"
  shows "wf_plandb P d'"
proof -
  let ?d = "expire_pending (Some actor) now d0"
  have wf: "wf_plandb P ?d" using wf0 by (rule expire_pending_wf)
  from c obtain saved where saved: "plan_source A actor r ?d = Inr saved"
    and rest: "(case find (same_message r) (p_plans ?d) of
      Some old \<Rightarrow> bindE (get_plan A actor (pl_id old) now ?d) (\<lambda>q. Inr ((q, False), ?d))
    | None \<Rightarrow> create_new P A actor r saved now ?d) = Inr ((q, cr), d')"
    by (auto simp: create_plan_def bindE_Inr Let_def)
  show ?thesis
  proof (cases "find (same_message r) (p_plans ?d)")
    case (Some old)
    with rest have "d' = ?d" by (auto simp: bindE_Inr)
    with wf show ?thesis by simp
  next
    case None
    with rest have "create_new P A actor r saved now ?d = Inr ((q, cr), d')" by simp
    then show ?thesis
    proof (rule create_new_Inr)
      fix dir why options at_time
      let ?p = "new_plan (next_id pl_id (p_plans ?d)) actor r (new_payload r saved dir why options at_time) now"
      assume few: "count_where (\<lambda>p. pl_owner p = actor \<and> pl_status p = Pending) (p_plans ?d) < 200"
        and w: "write_journal saved r (next_id pl_id (p_plans ?d)) now (?d\<lparr>p_plans := p_plans ?d @ [?p]\<rparr>) = Inr d'"
      have "pr_source r \<in> insert None (Some ` s_id ` set (sources_of ?d))"
        using saved by (auto simp: plan_source_def bindE_Inr the_source_Inr split: option.splits if_splits
            dest!: row_of_Some)
      then have "plans_wf (t_id ` set (d_tasks (p_db ?d))) (s_id ` set (sources_of ?d)) (p_plans ?d @ [?p])"
        using wf None few next_id_fresh[of pl_id "p_plans ?d"]
        by (intro plans_wf_append) (auto simp: wf_plandb_def new_plan_def find_None_iff same_message_def list_ex_iff)
      with wf write_journal_same[OF w] show ?thesis by (simp add: wf_plandb_def sources_of_def)
    qed
  qed
qed

lemma renamed_same: "renamed P actor p n now d = Inr (data, d') \<Longrightarrow> p_db d' = p_db d \<and> p_plans d' = p_plans d
     \<and> p_dirs d' = p_dirs d \<and> p_revisions d' = p_revisions d \<and> p_journal d' = p_journal d"
  by (auto simp: renamed_def bindE_Inr Let_def)

lemma edit_plan_Inr:
  assumes "edit_plan P A actor i revision name alias ignore now d = Inr (q, d')"
  obtains p data d1 where "row_of pl_id i (p_plans d) = Some p" "pl_status p = Pending" "pl_revision p = revision"
    "pl_owner p = actor" "p_db d1 = p_db d" "p_plans d1 = p_plans d" "p_dirs d1 = p_dirs d"
    "p_revisions d1 = p_revisions d"
    "d' = d1\<lparr>p_plans := upd_where (\<lambda>p. pl_id p = i) (edited_row data ignore) (p_plans d1)\<rparr>"
proof -
  let ?n = "\<lambda>p. case name of None \<Rightarrow> Inr (pl_payload p, d) | Some n \<Rightarrow> renamed P actor p n now d"
  from assms obtain p data d1 data2 where p: "get_plan A actor i now d = Inr p" "pl_revision p = revision"
    "pl_status p = Pending" and n: "?n p = Inr (data, d1)"
    and d': "d' = d1\<lparr>p_plans := upd_where (\<lambda>p. pl_id p = i) (edited_row data2 ignore) (p_plans d1)\<rparr>"
    by (auto simp: edit_plan_def bindE_Inr Let_def split: if_splits)
  have "p_db d1 = p_db d \<and> p_plans d1 = p_plans d \<and> p_dirs d1 = p_dirs d \<and> p_revisions d1 = p_revisions d"
    using n by (auto dest: renamed_same split: option.splits)
  with p d' that show ?thesis by (auto simp: get_plan_Inr)
qed

lemma edit_plan_wf:
  assumes wf: "wf_plandb P d" and e: "edit_plan P A actor i revision name alias ignore now d = Inr (q, d')"
  shows "wf_plandb P d'"
  using e
proof (rule edit_plan_Inr)
  fix p data d1
  assume p: "row_of pl_id i (p_plans d) = Some p" "pl_status p = Pending"
    and d1: "p_db d1 = p_db d" "p_plans d1 = p_plans d" "p_dirs d1 = p_dirs d" "p_revisions d1 = p_revisions d"
    and d': "d' = d1\<lparr>p_plans := upd_where (\<lambda>p. pl_id p = i) (edited_row data ignore) (p_plans d1)\<rparr>"
  have pl: "plans_wf (t_id ` set (d_tasks (p_db d))) (s_id ` set (sources_of d)) (p_plans d)"
    using wf by (simp add: wf_plandb_def)
  have only: "r = p" if "r \<in> set (p_plans d)" "pl_id r = i" for r
    using row_of_unique[of pl_id "p_plans d" r] pl that p(1) by (simp add: plans_wf_def)
  have "plans_wf (t_id ` set (d_tasks (p_db d))) (s_id ` set (sources_of d)) (p_plans d')"
    unfolding d' using pl only p(2) by (auto simp: d1 edited_row_def intro!: plans_wf_upd split: if_splits)
  with wf show ?thesis by (simp add: wf_plandb_def d' d1 sources_of_def)
qed

lemma task_of_plan_cases:
  assumes "task_of_plan P actor p t0 = Inr ((t, c), t')"
  obtains n where "create_task P (plan_intake actor p n) (pa_created_at (pl_payload p)) t0 = Inr ((t, c), t')"
  | "\<not> c" "t' = t0" "t \<in> set (d_tasks t0)" "duplicate_of (plan_intake actor p 0) t"
  using assms by (auto simp: task_of_plan_def find_Some_iff split: option.splits)

lemma create_task_same:
  "create_task P n now d = Inr ((t, c), d') \<Longrightarrow> d_sources d' = d_sources d \<and> d_meta d' = d_meta d
     \<and> t \<in> set (d_tasks d') \<and> set (d_tasks d) \<subseteq> set (d_tasks d')"
  by (erule create_task_cases) (auto simp: insert_task_Some)

lemma task_of_plan_same:
  "task_of_plan P actor p d = Inr ((t, c), d') \<Longrightarrow> d_sources d' = d_sources d \<and> d_meta d' = d_meta d
     \<and> t \<in> set (d_tasks d') \<and> set (d_tasks d) \<subseteq> set (d_tasks d')"
  by (erule task_of_plan_cases) (auto dest: create_task_same)

lemma wf_task_of_plan: "wf_db d \<Longrightarrow> task_of_plan P actor p d = Inr ((t, c), d') \<Longrightarrow> wf_db d'"
  by (erule task_of_plan_cases) (auto intro: wf_create_task)

text \<open>A submission replays a submitted plan or turns a pending one into a task.\<close>

lemma submit_cases:
  assumes "submit P A actor i revision now d = Inr ((ot, created), d')"
  obtains (replay) p where "row_of pl_id i (p_plans d) = Some p" "pl_status p = Submitted" "d' = d" "\<not> created"
  | (task) p t db where "row_of pl_id i (p_plans d) = Some p" "pl_status p = Pending" "now \<le> pl_expires p"
      "pl_revision p = revision" "pl_owner p = actor" "pl_source p = None \<or> actor = A"
      "authorize A actor False d = Inr ()" "source_check A actor p d = Inr ()" "origin_check P A actor p d = Inr ()"
      "task_of_plan P actor p (p_db d) = Inr ((t, created), db)" "ot = Some t"
      "d' = d\<lparr>p_db := db, p_plans := upd_where (\<lambda>p. pl_id p = i) (submitted_row (t_id t)) (p_plans d),
          p_journal := (if pl_source p = None then p_journal d else journal_result i created (p_journal d))\<rparr>"
proof -
  from assms obtain q where q: "get_plan A actor i now d = Inr q" by (auto simp: submit_def bindE_Inr)
  then obtain p where p: "row_of pl_id i (p_plans d) = Some p" "pl_owner p = actor" "pl_source p = None \<or> actor = A"
    "q = shown now p" "authorize A actor False d = Inr ()" by (auto simp: get_plan_Inr)
  show ?thesis
  proof (cases "pl_status q = Submitted")
    case True
    with assms q p have "d' = d" "\<not> created" "pl_status p = Submitted" by (auto simp: submit_def)
    with p replay show ?thesis by blast
  next
    case False
    with assms q have ok: "pl_status q = Pending" "pl_revision q = revision"
      by (auto simp: submit_def split: if_splits)
    then have "q = p" using p(4) by (auto simp: shown_def split: if_splits)
    with ok p have pend: "pl_status p = Pending" "now \<le> pl_expires p" "pl_revision p = revision" by auto
    from assms q False ok \<open>q = p\<close> obtain t db where "source_check A actor p d = Inr ()"
      "origin_check P A actor p d = Inr ()" "task_of_plan P actor p (p_db d) = Inr ((t, created), db)" "ot = Some t"
      "d' = d\<lparr>p_db := db, p_plans := upd_where (\<lambda>p. pl_id p = i) (submitted_row (t_id t)) (p_plans d),
          p_journal := (if pl_source p = None then p_journal d else journal_result i created (p_journal d))\<rparr>"
      by (auto simp: submit_def bindE_Inr)
    with pend p task show ?thesis by blast
  qed
qed

lemma submit_wf:
  assumes wf: "wf_plandb P d" and s: "submit P A actor i revision now d = Inr (r, d')"
  shows "wf_plandb P d'"
proof -
  obtain ot created where r: "r = (ot, created)" by (cases r)
  from s show ?thesis
    unfolding r
  proof (cases rule: submit_cases)
    case replay
    with wf show ?thesis by simp
  next
    case (task p t db)
    note same = task_of_plan_same[OF task(10)]
    let ?T = "t_id ` set (d_tasks db)" and ?S = "s_id ` set (sources_of d)"
    have "plans_wf ?T ?S (p_plans d)"
      using wf same plans_wf_mono[of "t_id ` set (d_tasks (p_db d))" ?S "p_plans d" ?T ?S]
      by (auto simp: wf_plandb_def)
    then have "plans_wf ?T ?S (p_plans d')"
      using same by (auto simp: task(12) submitted_row_def intro!: plans_wf_upd)
    moreover have "sources_of d' = sources_of d" using same by (simp add: task(12) sources_of_def)
    ultimately show ?thesis
      using wf wf_task_of_plan[OF _ task(10)] by (simp add: wf_plandb_def task(12))
  qed
qed

lemma apply_feedback_wf:
  assumes wf: "wf_plandb P d" and s: "apply_feedback P A actor i revision now d = Inr (u, d')"
  shows "wf_plandb P d'"
proof -
  from s obtain sid c d1 where c: "change_source P A actor sid revision c now d = Inr ((), d1)"
    and d': "\<exists>x. d' = d1\<lparr>p_feedback := x\<rparr>"
    by (auto simp: apply_feedback_def bindE_Inr Let_def split: option.splits if_splits)
  from change_source_wf[OF wf c] d' show ?thesis by (auto simp: wf_plandb_def sources_of_def)
qed

section \<open>Histories\<close>

text \<open>The other operations of the database leave the sources alone and remove no task.\<close>

interpretation kept_tasks: db_invariant "\<lambda>d. T \<subseteq> t_id ` set (d_tasks d)" for T
proof
  fix d :: taskdb and f i
  assume "T \<subseteq> t_id ` set (d_tasks d)" "rowwise f"
  then show "T \<subseteq> t_id ` set (d_tasks (upd_state i f d))"
    by (simp add: ids_upd_where rowwise_def)
next
  fix d :: taskdb and f i
  assume "T \<subseteq> t_id ` set (d_tasks d)" "keyed f"
  then show "T \<subseteq> t_id ` set (d_tasks (upd_task i f d))"
    by (simp add: upd_task_def ids_upd_where keyed_id)
qed (auto simp: insert_task_Some same_core_def)

lemma db_step_tasks: "db_step P a b \<Longrightarrow> wf_db a \<Longrightarrow> t_id ` set (d_tasks a) \<subseteq> t_id ` set (d_tasks b)"
  by (rule kept_tasks.on_step[of P a b]) auto

lemma set_wait_sources [simp]: "d_sources (snd (set_wait_reason i r ss now d)) = d_sources d"
  by (simp add: set_wait_reason_def split: option.splits)

lemma recover_sources: "d_sources (snd (recover P fs dir only now d)) = d_sources d"
proof -
  have "d_sources (snd (fold (recover_row P fs dir now) ts rd)) = d_sources (snd rd)" for ts rd
    by (induction ts arbitrary: rd) (auto simp: recover_row_def Let_def)
  then show ?thesis by (simp add: recover_def)
qed

lemma confirm_sources: "d_sources (fold (\<lambda>i. upd_state i (confirm_row now)) ids d) = d_sources d"
  by (induction ids arbitrary: d) auto

lemma requeue_sources: "requeue P i u e c fr rs m now d = Inr (b, d') \<Longrightarrow> d_sources d' = d_sources d"
  by (erule requeue_cases) (auto dest!: requeue_write_shape)

lemma db_step_sources:
  assumes "db_step P a b"
  shows "d_sources b = d_sources a"
  using assms
proof (cases rule: db_step.cases)
  case (s_control token now admin request v)
  then show ?thesis using control_handle_db[OF s_control(1)] by (auto simp: write_meta_def)
next
  case (s_reserve i budget free minimum now)
  then show ?thesis by (cases rule: reserve_cases[of i budget free minimum now a]) auto
qed (auto simp: update_def transition_Inr recover_sources request_stream_def confirm_115_def
    confirm_completed_def confirm_sources defer_listener_download_def admit_upload_def set_paused_def
    write_meta_def Let_def dest: create_task_same requeue_sources
    dest!: features_change_db elim!: users_change_parts split: option.splits)

text \<open>Every operation on plans and sources, and those of the task database, as steps.\<close>

inductive plan_step :: "platform \<Rightarrow> int \<Rightarrow> plandb \<Rightarrow> plandb \<Rightarrow> bool" for P A where
  ps_db: "db_step P (p_db d) db \<Longrightarrow> plan_step P A d (d\<lparr>p_db := db\<rparr>)"
| ps_preferences: "preferences P A actor us d = Inr (v, d') \<Longrightarrow> plan_step P A d d'"
| ps_directory: "set_directory P A actor alias path owners d = Inr (u, d') \<Longrightarrow> plan_step P A d d'"
| ps_save: "save_source P A actor account chat title pos config base now d = Inr (s, d') \<Longrightarrow>
    names_no_folder config \<Longrightarrow> plan_step P A d d'"
| ps_change: "change_source P A actor i revision c now d = Inr (u, d') \<Longrightarrow> plan_step P A d d'"
| ps_expire: "plan_step P A d (snd (expire now d))"
| ps_create: "create_plan P A actor r now d = Inr (qc, d') \<Longrightarrow> plan_step P A d d'"
| ps_edit: "edit_plan P A actor i revision name alias ignore now d = Inr (q, d') \<Longrightarrow> plan_step P A d d'"
| ps_submit: "submit P A actor i revision now d = Inr (tc, d') \<Longrightarrow> plan_step P A d d'"
| ps_feedback: "apply_feedback P A actor i revision now d = Inr (u, d') \<Longrightarrow> plan_step P A d d'"

inductive plan_reach :: "platform \<Rightarrow> int \<Rightarrow> plandb \<Rightarrow> plandb \<Rightarrow> bool" for P A where
  pr_refl: "plan_reach P A d d"
| pr_step: "plan_reach P A d d' \<Longrightarrow> plan_step P A d' d'' \<Longrightarrow> plan_reach P A d d''"

lemma db_step_wf: "db_step P a b \<Longrightarrow> wf_db a \<Longrightarrow> wf_db b"
  using kept_tasks.on_reach[of P a b "{}"] by (meson db_reach.intros empty_subsetI)

lemma plan_step_wf:
  assumes "plan_step P A d d'" "wf_plandb P d"
  shows "wf_plandb P d'"
  using assms(1)
proof (cases rule: plan_step.cases)
  case (ps_db db)
  have "plans_wf (t_id ` set (d_tasks db)) (s_id ` set (sources_of d)) (p_plans d)"
    using assms(2) db_step_tasks[OF ps_db(2)] by (auto simp: wf_plandb_def intro: plans_wf_mono)
  then show ?thesis
    using assms(2) db_step_sources[OF ps_db(2)] db_step_wf[OF ps_db(2)]
    by (simp add: ps_db(1) wf_plandb_def sources_of_def)
next
  case (ps_create actor r now qc)
  then show ?thesis using assms(2) create_plan_wf by (metis prod.exhaust)
qed (use assms(2) in \<open>auto intro: preferences_wf set_directory_wf save_source_wf change_source_wf expire_wf
  edit_plan_wf submit_wf apply_feedback_wf\<close>)

lemma consistent_reach:
  assumes "plan_reach P A empty_plandb d"
  shows "wf_plandb P d"
proof -
  have "wf_plandb P empty_plandb"
    by (simp add: wf_plandb_def empty_plandb_def wf_empty_db sources_of_def)
      (simp add: empty_db_def sources_wf_def folders_ok_def plans_wf_def dirs_wf_def revisions_wf_def)
  moreover have "plan_reach P A e d \<Longrightarrow> wf_plandb P e \<Longrightarrow> wf_plandb P d" for e
    by (induction rule: plan_reach.induct) (auto intro: plan_step_wf)
  ultimately show ?thesis using assms by blast
qed

text \<open>
  C6. Whatever operations on plans, sources, directories and tasks run and in whatever order, the
  tables stay consistent: at most 32 sources are live and at most 32 directories granted, no user
  has more than 200 plans waiting, a source keeps at most 20 former configurations, no message has
  two plans and no chat two sources, every submitted plan has its task, and no two sources, deleted
  ones included, have the same folder up to letter case.
\<close>

theorem plans_consistent:
  assumes "plan_reach P A empty_plandb d"
  shows "wf_plandb P d"
  using assms by (rule consistent_reach)

text \<open>A manual plan of the administrator 9 for a video, with the default options.\<close>

definition ex_proposal :: proposal where
  "ex_proposal = \<lparr>pr_chat = 5, pr_message = 6, pr_kind = asc ''x'', pr_mime = [], pr_extension = asc ''.mp4'',
     pr_original = asc ''a.mp4'', pr_size = Some 7, pr_media_key = None, pr_name = asc ''b.mp4'',
     pr_basis = [], pr_profile = JObj DEFAULT_PROFILE, pr_identity = BOT, pr_source = None, pr_batch = [],
     pr_alias = [], pr_base = None, pr_created_at = None, pr_options = None\<rparr>"


definition ex_plan :: plan_row where
  "ex_plan = new_plan 1 9 ex_proposal (new_payload ex_proposal None [] FromClassification
     (JObj (feature_defaults ascii_platform)) 0) 0"

definition ex_plans :: plandb where
  "ex_plans = empty_plandb\<lparr>p_plans := [ex_plan]\<rparr>"

lemma ex_features: "features_read ascii_platform empty_db = Inr (JObj (feature_defaults ascii_platform))"
  by (simp add: features_read_def read_meta_def empty_db_def)

lemma ex_off: "directory ascii_platform (JObj (feature_defaults ascii_platform)) t k m e = Inr []"
  by (simp add: directory_def feature_defaults_def jfind_def str_in_def MODES_def asc_def)

lemma ex_admin [simp]: "authorize 9 9 b d = Inr ()"
  by (simp add: authorize_def)

lemma ex_create_plan:
  "create_plan ascii_platform 9 9 ex_proposal 0 empty_plandb = Inr ((ex_plan, True), ex_plans)"
proof -
  have e: "expire_pending u now empty_plandb = empty_plandb" for u now
    by (simp add: expire_pending_def empty_plandb_def)
  have s: "plan_source 9 9 ex_proposal empty_plandb = Inr None"
    by (simp add: plan_source_def ex_proposal_def)
  have a: "alias_directory 9 9 ex_proposal empty_plandb = Inr None"
    by (simp add: alias_directory_def directory_of_def ex_proposal_def profile_directory_def jget_def jfind_def
        DEFAULT_PROFILE_def asc_def)
  have o: "used_options ascii_platform (pr_options ex_proposal) empty_plandb = Inr (JObj (feature_defaults ascii_platform))"
    using ex_features by (simp add: used_options_def ex_proposal_def empty_plandb_def)
  have r: "p_plans empty_plandb = []" "pr_created_at ex_proposal = None" "next_id pl_id [] = 1"
    by (simp_all add: empty_plandb_def ex_proposal_def next_id_def)
  have g: "get_plan 9 9 1 0 ex_plans = Inr ex_plan"
    by (simp add: get_plan_def ex_plans_def ex_plan_def new_plan_def ex_proposal_def shown_def TTL_def)
  show ?thesis
    using g by (simp add: create_plan_def create_new_def e s a o r plan_directory_def ex_off write_journal_def
        ex_plans_def ex_plan_def Let_def)
qed

definition ex_new_task :: task where
  "ex_new_task = new_task (plan_intake 9 ex_plan 7) [] 1 0"

lemma ex_plan_fields [simp]:
  "pl_id ex_plan = 1" "pl_owner ex_plan = 9" "pl_source ex_plan = None" "pl_status ex_plan = Pending"
  "pl_revision ex_plan = 1" "pl_chat ex_plan = 5" "pl_message ex_plan = 6" "pl_expires ex_plan = 604800"
  "pl_identity ex_plan = BOT" "pa_size (pl_payload ex_plan) = Some 7" "pa_created_at (pl_payload ex_plan) = 0"
  "pa_origin (pl_payload ex_plan) = FromClassification" "pa_directory (pl_payload ex_plan) = Some []"
  "pa_options (pl_payload ex_plan) = JObj (feature_defaults ascii_platform)"
  "p_db ex_plans = empty_db" "p_plans ex_plans = [ex_plan]" "p_journal ex_plans = []"
  by (simp_all add: ex_plan_def new_plan_def ex_proposal_def new_payload_def TTL_def ex_plans_def empty_plandb_def)

lemma ex_plan_intake [simp]:
  "n_size (plan_intake 9 ex_plan 7) = 7" "n_identity (plan_intake 9 ex_plan 7) = BOT"
  "n_options (plan_intake 9 ex_plan 7) = Some (JObj (feature_defaults ascii_platform))"
  "n_override (plan_intake 9 ex_plan 7) = Some []" "n_sender (plan_intake 9 ex_plan 7) = 9"
  by (simp_all add: plan_intake_def Let_def)

lemma ex_submit:
  "\<exists>d. submit ascii_platform 9 9 1 1 5 ex_plans = Inr ((Some ex_new_task, True), d)"
proof -
  have g: "get_plan 9 9 1 5 ex_plans = Inr ex_plan"
    by (simp add: get_plan_def shown_def)
  have adm: "admit ascii_platform empty_db u sz now z None = Inr ()" for u sz now z
    by (simp add: admit_def limits_def no_limits_def empty_db_def Let_def)
  have opt: "\<exists>m ms. JObj (feature_defaults ascii_platform) = JObj (m # ms)"
    by (simp add: feature_defaults_def)
  have dir: "target_directory ascii_platform empty_db (plan_intake 9 ex_plan 7) 0 = Inr []"
    using opt ex_off[of 0] by (auto simp: target_directory_def safe_directory_Inr ascii_platform_def)
  have ins: "\<exists>db. insert_task (plan_intake 9 ex_plan 7) [] 0 empty_db = Some (ex_new_task, db)"
    by (simp add: insert_task_def empty_db_def Let_def ex_new_task_def)
  have t: "\<exists>db. task_of_plan ascii_platform 9 ex_plan empty_db = Inr ((ex_new_task, True), db)"
  proof -
    have "d_tasks empty_db = []" by (simp add: empty_db_def)
    with ins show ?thesis
      by (auto simp: task_of_plan_def create_task_def ex_zone adm dir identity_ok_def)
  qed
  then show ?thesis by (auto simp: submit_def g source_check_def origin_check_def)
qed

theorem plans_consistent_witness:
  "\<exists>d. submit ascii_platform 9 9 1 1 5 ex_plans = Inr ((Some ex_new_task, True), d) \<and> wf_plandb ascii_platform d"
proof -
  from ex_submit obtain d where d: "submit ascii_platform 9 9 1 1 5 ex_plans = Inr ((Some ex_new_task, True), d)" by blast
  have "plan_reach ascii_platform 9 empty_plandb ex_plans"
    using ex_create_plan by (meson plan_reach.intros ps_create)
  then have "plan_reach ascii_platform 9 empty_plandb d"
    using d by (meson pr_step ps_submit)
  from plans_consistent[OF this] d show ?thesis by blast
qed

section \<open>Submissions\<close>

lemma authorize_meta: "d_meta (p_db d') = d_meta (p_db d) \<Longrightarrow> authorize A actor b d' = authorize A actor b d"
  by (simp add: authorize_def users_read_def read_meta_def)

lemma directory_safe: "directory P prefs t k m e = Inr x \<Longrightarrow> x = [] \<or> safe_directory P x = Inr x"
  by (auto simp: directory_def safe_directory_Inr Let_def split: if_splits option.splits)

lemma target_directory_safe:
  assumes "target_directory P d n now = Inr x"
  shows "x = [] \<or> safe_directory P x = Inr x" and "n_override n = Some y \<Longrightarrow> x = y"
proof -
  from assms obtain prefs z where z: "directory P prefs now (n_kind n) (n_mime n) (n_ext n) = Inr z"
    and x: "(case n_override n of None \<Rightarrow> Inr z | Some o_dir \<Rightarrow> safe_directory P o_dir) = Inr x"
    by (auto simp: target_directory_def bindE_Inr)
  show "x = [] \<or> safe_directory P x = Inr x"
    using x directory_safe[OF z] by (auto simp: safe_directory_Inr split: option.splits)
  show "n_override n = Some y \<Longrightarrow> x = y"
    using x by (auto simp: safe_directory_Inr)
qed

text \<open>Where a plan may put its file: a directory granted to the actor, the folder bound to its
  source, or for a classified plan any managed directory.\<close>

definition allowed_directory :: "platform \<Rightarrow> int \<Rightarrow> int \<Rightarrow> plan_row \<Rightarrow> plandb \<Rightarrow> ustr \<Rightarrow> bool" where
  "allowed_directory P A actor p d dir \<longleftrightarrow> (case pa_origin (pl_payload p) of
     FromClassification \<Rightarrow> True
   | FromAlias \<Rightarrow> (\<exists>r \<in> set (p_dirs d). dr_path r = dir \<and> (actor = A \<or> actor \<in> set (dr_owners r)))
   | FromSource \<Rightarrow> (\<exists>s \<in> set (sources_of d). pl_source p = Some (s_id s) \<and> \<not> s_deleted s
       \<and> (\<exists>label \<in> set media_labels. dir = source_folder (s_config s) @ 47 # label)))"

lemma media_directory_folder:
  assumes "media_directory P (with_source_type c) k m e b = Inr x"
  shows "\<exists>label \<in> set media_labels. x = Some (source_folder c @ 47 # label)"
proof -
  have ne: "asc ''directory_mode'' \<noteq> asc ''source_folder''" by (simp add: asc_def)
  let ?c = "with_source_type c"
  have m: "jget_or ?c (asc ''directory_mode'') j = JStr (asc ''source_type'')" for j
    by (simp add: with_source_type_def jget_or_def jfind_def)
  from assms m obtain f where f: "jget_or ?c (asc ''source_folder'') (JStr []) = JStr f"
    and x: "bindE (safe_directory P (f @ [47] @ media_type P k m e)) (\<lambda>p. Inr (Some p)) = Inr x"
    by (auto simp: media_directory_def split: json.splits if_splits)
  have "source_folder c = f"
    using f with_source_type_folder[of c] by (simp add: source_folder_def config_text_def)
  then show ?thesis using x media_type_label[of P k m e] by (auto simp: bindE_Inr safe_directory_Inr)
qed

lemma origin_check_allowed:
  assumes o: "origin_check P A actor p d = Inr ()" and s: "source_check A actor p d = Inr ()"
    and dir: "pa_directory (pl_payload p) = Some y"
  shows "allowed_directory P A actor p d y"
proof (cases "pa_origin (pl_payload p)")
  case FromAlias
  with o obtain ds where ds: "directories A actor d = Inr ds" "Some y \<in> Some ` snd ` set ds"
    by (auto simp: origin_check_def Let_def bindE_Inr dir split: if_splits)
  then have "\<exists>r \<in> set (p_dirs d). dr_path r = y \<and> (actor = A \<or> actor \<in> set (dr_owners r))"
    by (fastforce simp: directories_def bindE_Inr dest!: in_set_takeD)
  with FromAlias show ?thesis by (simp add: allowed_directory_def)
next
  case FromSource
  with o obtain i r where r: "pl_source p = Some i" "the_source A actor i d = Inr r"
    and m: "media_directory P (with_source_type (s_config r)) (pa_kind (pl_payload p)) (pa_mime (pl_payload p))
                 (pa_extension (pl_payload p)) (base_json (pa_base (pl_payload p))) = Inr (Some y)"
    by (auto simp: origin_check_def Let_def bindE_Inr dir split: option.splits if_splits)
  have "\<not> s_deleted r" using s r by (auto simp: source_check_def split: if_splits)
  moreover have "r \<in> set (sources_of d)" "s_id r = i"
    using r(2) row_of_Some[of s_id i "sources_of d" r] by (auto simp: the_source_Inr)
  ultimately show ?thesis
    using FromSource r(1) media_directory_folder[OF m] by (auto simp: allowed_directory_def)
qed (simp add: allowed_directory_def)

lemma origin_check_directory:
  "origin_check P A actor p d = Inr () \<Longrightarrow> pa_origin (pl_payload p) \<noteq> FromClassification
     \<Longrightarrow> pa_directory (pl_payload p) \<noteq> None"
  by (cases "pa_origin (pl_payload p)")
    (auto simp: origin_check_def Let_def bindE_Inr dest!: media_directory_folder split: option.splits if_splits)

text \<open>What a created task takes from its plan.\<close>

lemma created_from_plan:
  assumes t: "task_of_plan P actor p db = Inr ((t, True), db')"
    and o: "origin_check P A actor p d = Inr ()" and s: "source_check A actor p d = Inr ()"
  shows "t_sender_id t = actor \<and> t_chat_id t = pl_chat p \<and> t_message_id t = pl_message p
    \<and> t_file_name t = pa_file_name (pl_payload p) \<and> Some (t_file_size t) = pa_size (pl_payload p)
    \<and> (t_target_directory t = [] \<or> safe_directory P (t_target_directory t) = Inr (t_target_directory t))
    \<and> allowed_directory P A actor p d (t_target_directory t)"
proof -
  from t obtain n where n: "pa_size (pl_payload p) = Some n"
    and c: "create_task P (plan_intake actor p n) (pa_created_at (pl_payload p)) db = Inr ((t, True), db')"
    by (auto simp: task_of_plan_def split: option.splits)
  let ?n = "plan_intake actor p n"
  from c obtain dir i now where t: "t = new_task ?n dir i now" and dir: "target_directory P db ?n now = Inr dir"
    by (cases rule: create_task_cases) (auto simp: insert_task_Some)
  have flds: "n_sender ?n = actor" "n_chat ?n = pl_chat p" "n_message ?n = pl_message p" "n_size ?n = n"
    "n_name ?n = pa_file_name (pl_payload p)" "n_override ?n = pa_directory (pl_payload p)"
    by (simp_all add: plan_intake_def Let_def)
  have "allowed_directory P A actor p d dir"
  proof (cases "pa_directory (pl_payload p)")
    case None
    with origin_check_directory[OF o] have "pa_origin (pl_payload p) = FromClassification" by blast
    then show ?thesis by (simp add: allowed_directory_def)
  next
    case (Some y)
    with target_directory_safe(2)[OF dir] flds origin_check_allowed[OF o s Some] show ?thesis by simp
  qed
  with target_directory_safe(1)[OF dir] n show ?thesis by (simp add: t flds)
qed

text \<open>A submitted plan answers every later submission with its task.\<close>

lemma submitted_again:
  assumes wf: "wf_plandb P d'" and p: "row_of pl_id i (p_plans d') = Some p" "pl_status p = Submitted"
    and own: "pl_owner p = actor" "pl_source p = None \<or> actor = A" "authorize A actor False d' = Inr ()"
    and t: "pl_task p = Some (t_id t)" "t \<in> set (d_tasks (p_db d'))"
  shows "submit P A actor i rev' now' d' = Inr ((Some t, False), d')"
proof -
  have "get_plan A actor i now' d' = Inr p"
    using p own by (auto simp: get_plan_def shown_def)
  moreover have "get_task (p_db d') (t_id t) = Some t"
    using wf t(2) get_task_in[of "p_db d'" t] by (simp add: wf_plandb_def)
  ultimately show ?thesis using p(2) t(1) by (simp add: submit_def)
qed

text \<open>A created task stays below the base directory and in the allowed place.\<close>

definition task_for :: "platform \<Rightarrow> int \<Rightarrow> int \<Rightarrow> plan_row \<Rightarrow> plandb \<Rightarrow> task \<Rightarrow> bool" where
  "task_for P A actor p d t \<longleftrightarrow> t_sender_id t = actor \<and> t_chat_id t = pl_chat p \<and> t_message_id t = pl_message p
     \<and> allowed_directory P A actor p d (t_target_directory t)
     \<and> (\<forall>base. walk base (split_on 47 (t_target_directory t))
          = base @ (if t_target_directory t = [] then [] else split_on 47 (t_target_directory t)))"

lemma created_task_for:
  assumes "task_of_plan P actor p db = Inr ((t, True), db')"
    and "origin_check P A actor p d = Inr ()" "source_check A actor p d = Inr ()"
  shows "task_for P A actor p d t"
proof -
  note f = created_from_plan[OF assms]
  then have dir: "t_target_directory t = [] \<or> safe_directory P (t_target_directory t) = Inr (t_target_directory t)"
    by blast
  have "walk base (split_on 47 (t_target_directory t))
      = base @ (if t_target_directory t = [] then [] else split_on 47 (t_target_directory t))" for base
    using dir
  proof
    assume "t_target_directory t = []"
    then show ?thesis by simp
  next
    assume "safe_directory P (t_target_directory t) = Inr (t_target_directory t)"
    then show ?thesis by (rule walk_confined)
  qed
  with f show ?thesis unfolding task_for_def by blast
qed

text \<open>
  C5. A plan becomes at most one task, and only its owner's (a source's only by the administrator),
  while it is pending, unexpired and at the revision the actor saw; the task is for the plan's
  message, and its directory is one granted to the actor, the folder of the plan's live source with
  a media type, or a managed directory, and cannot leave the base. Submitting the plan again returns
  the same task and changes nothing.
\<close>

theorem submit_once_and_confined:
  assumes wf: "wf_plandb P d" and p: "row_of pl_id i (p_plans d) = Some p" "pl_status p = Pending"
    and s: "submit P A actor i revision now d = Inr ((ot, created), d')"
  shows "\<exists>t. ot = Some t \<and> pl_owner p = actor \<and> (pl_source p \<noteq> None \<longrightarrow> actor = A)
    \<and> pl_revision p = revision \<and> now \<le> pl_expires p
    \<and> (created \<longrightarrow> t_sender_id t = actor \<and> t_chat_id t = pl_chat p \<and> t_message_id t = pl_message p
         \<and> allowed_directory P A actor p d (t_target_directory t)
         \<and> (\<forall>base. walk base (split_on 47 (t_target_directory t))
              = base @ (if t_target_directory t = [] then [] else split_on 47 (t_target_directory t))))
    \<and> (\<forall>rev' now'. submit P A actor i rev' now' d' = Inr ((Some t, False), d'))"
  using s
proof (cases rule: submit_cases)
  case (replay q)
  from replay(1,2) p have False by simp
  then show ?thesis ..
next
  case (task q t db)
  have q: "q = p" using task(1) p(1) by simp
  note same = task_of_plan_same[OF task(10)]
  have own: "pl_owner p = actor" "pl_source p \<noteq> None \<longrightarrow> actor = A" "pl_revision p = revision" "now \<le> pl_expires p"
    using task(3-6) q by auto
  have "authorize A actor False d' = Inr ()" "t \<in> set (d_tasks (p_db d'))"
    using task(7) authorize_meta[of d' d] same by (simp_all add: task(12))
  moreover have "row_of pl_id i (p_plans d') = Some (submitted_row (t_id t) p)"
    using p(1) by (simp add: task(12) row_of_upd submitted_row_def)
  ultimately have again: "\<forall>rev' now'. submit P A actor i rev' now' d' = Inr ((Some t, False), d')"
    using task(5,6) q
    by (intro allI submitted_again[OF submit_wf[OF wf s], of i "submitted_row (t_id t) p"])
      (simp_all add: submitted_row_def)
  have new: "created \<longrightarrow> task_for P A actor p d t"
    using created_task_for task(8-10) q by metis
  from conjI[OF task(11) conjI[OF own(1) conjI[OF own(2) conjI[OF own(3) conjI[OF own(4)
    conjI[OF new[unfolded task_for_def] again]]]]]]
  show ?thesis by (rule exI[of _ t])
qed

theorem submit_once_and_confined_witness:
  "\<exists>d. submit ascii_platform 9 9 1 1 5 ex_plans = Inr ((Some ex_new_task, True), d)
    \<and> submit ascii_platform 9 9 1 4 50 d = Inr ((Some ex_new_task, False), d)"
proof -
  from ex_submit obtain d where d: "submit ascii_platform 9 9 1 1 5 ex_plans = Inr ((Some ex_new_task, True), d)" by blast
  have "plan_reach ascii_platform 9 empty_plandb ex_plans"
    using ex_create_plan by (meson plan_reach.intros ps_create)
  then have wf: "wf_plandb ascii_platform ex_plans" by (rule consistent_reach)
  have p: "row_of pl_id 1 (p_plans ex_plans) = Some ex_plan" by simp
  from submit_once_and_confined[OF wf p ex_plan_fields(4) d]
  obtain t where t: "Some ex_new_task = Some t"
    and r: "\<forall>rev' now'. submit ascii_platform 9 9 1 rev' now' d = Inr ((Some t, False), d)"
    by (elim exE conjE)
  from t have "t = ex_new_task" by simp
  with r d show ?thesis by blast
qed

end
