(* ===== verification/JsonText.thy ===== *)
theory JsonText
  imports Json "HOL-Library.Monad_Syntax"
begin

text \<open>
  Reading JSON text: \<open>json.loads\<close> and \<open>JSONDecoder.raw_decode\<close>, which the program applies to the
  output of \<open>rclone\<close> and to stored records. A scanner takes the text from its position on and
  returns the value with the text that follows it, \<open>None\<close> standing for the \<open>ValueError\<close>. The fuel of
  the recursive scanners is twice the length of the text; \<open>scan_fuel\<close> shows that more changes nothing.

  The scanner of an object decides after its closing brace: text that arrives later cannot change
  what was read (\<open>raw_decode_extend\<close>). Code that reads a listing piece by piece rests on this.
\<close>

section \<open>Scanners\<close>

definition json_space :: "nat \<Rightarrow> bool" where
  "json_space c \<longleftrightarrow> c = 32 \<or> c = 9 \<or> c = 10 \<or> c = 13"

definition skip_ws :: "ustr \<Rightarrow> ustr" where
  "skip_ws s = dropWhile json_space s"

fun eat :: "nat \<Rightarrow> ustr \<Rightarrow> ustr option" where
  "eat c [] = None"
| "eat c (x # s) = (if x = c then Some s else None)"

definition eat_word :: "ustr \<Rightarrow> ustr \<Rightarrow> ustr option" where
  "eat_word w s = (if starts_with s w then Some (drop (length w) s) else None)"

definition hex_value :: "nat \<Rightarrow> nat option" where
  "hex_value c = (if 48 \<le> c \<and> c \<le> 57 then Some (c - 48) else if 97 \<le> c \<and> c \<le> 102 then Some (c - 87)
     else if 65 \<le> c \<and> c \<le> 70 then Some (c - 55) else None)"

fun scan_hex4 :: "ustr \<Rightarrow> (nat \<times> ustr) option" where
  "scan_hex4 (a # b # c # d # s) = do {
     a \<leftarrow> hex_value a; b \<leftarrow> hex_value b; c \<leftarrow> hex_value c; d \<leftarrow> hex_value d;
     Some (4096 * a + 256 * b + 16 * c + d, s) }"
| "scan_hex4 s = None"

text \<open>A high surrogate joins with an escaped low surrogate that follows it.\<close>

definition low_surrogate :: "ustr \<Rightarrow> (nat \<times> ustr) option" where
  "low_surrogate s = do {
     s \<leftarrow> eat_word [92, 117] s; (c, s) \<leftarrow> scan_hex4 s;
     if 56320 \<le> c \<and> c \<le> 57343 then Some (c, s) else None }"

definition scan_unicode :: "ustr \<Rightarrow> (nat \<times> ustr) option" where
  "scan_unicode s = do {
     (c, s) \<leftarrow> scan_hex4 s;
     if 55296 \<le> c \<and> c \<le> 56319 then
       (case low_surrogate s of None \<Rightarrow> Some (c, s)
        | Some (l, s') \<Rightarrow> Some (65536 + 1024 * (c - 55296) + (l - 56320), s'))
     else Some (c, s) }"

fun scan_escape :: "ustr \<Rightarrow> (nat \<times> ustr) option" where
  "scan_escape [] = None"
| "scan_escape (e # s) =
    (if e = 117 then scan_unicode s
     else if e = 34 \<or> e = 92 \<or> e = 47 then Some (e, s)
     else if e = 98 then Some (8, s) else if e = 102 then Some (12, s)
     else if e = 110 then Some (10, s) else if e = 114 then Some (13, s)
     else if e = 116 then Some (9, s) else None)"

lemma eat_Some: "eat c s = Some r \<longleftrightarrow> s = c # r"
  by (cases s) auto

lemma eat_word_Some: "eat_word w s = Some r \<longleftrightarrow> s = w @ r"
  by (auto simp: eat_word_def starts_with_iff)

lemma scan_hex4_Some:
  "scan_hex4 s = Some (n, r) \<Longrightarrow> \<exists>p. s = p @ r \<and> length p = 4 \<and> (\<forall>t. scan_hex4 (p @ t) = Some (n, t))"
  by (cases s rule: scan_hex4.cases) (auto split: bind_splits)

lemma low_surrogate_Some:
  "low_surrogate s = Some (n, r) \<Longrightarrow> \<exists>p. s = p @ r \<and> (\<forall>t. low_surrogate (p @ t) = Some (n, t))"
  by (fastforce simp: low_surrogate_def eat_word_Some split: bind_splits if_splits dest!: scan_hex4_Some)

lemma scan_escape_length [termination_simp]: "scan_escape s = Some (n, r) \<Longrightarrow> length r < Suc (length s)"
proof -
  assume a: "scan_escape s = Some (n, r)"
  have "\<exists>p. s = p @ r"
  proof (cases s)
    case (Cons e t)
    then show ?thesis using a
      by (fastforce simp: scan_unicode_def split: if_splits bind_splits option.splits
          dest!: scan_hex4_Some low_surrogate_Some)
  qed (use a in simp)
  then show ?thesis by auto
qed

text \<open>The rest of a string after its opening quote; control characters are refused.\<close>

fun scan_str :: "ustr \<Rightarrow> (ustr \<times> ustr) option" where
  "scan_str [] = None"
| "scan_str (c # s) =
    (if c = 34 then Some ([], s)
     else if c < 32 then None
     else if c \<noteq> 92 then map_option (\<lambda>(v, r). (c # v, r)) (scan_str s)
     else case scan_escape s of None \<Rightarrow> None
       | Some (u, r) \<Rightarrow> map_option (\<lambda>(v, r). (u # v, r)) (scan_str r))"

text \<open>
  Numbers: an integer of at most 4300 digits is an \<open>int\<close>; with a fraction or an exponent it is the
  nearest binary64 number, infinite from half a unit above the largest one on.
\<close>

fun digits_value :: "ustr \<Rightarrow> int" where
  "digits_value s = int (undec_nat s)"

definition int_part :: "ustr \<Rightarrow> (ustr \<times> ustr) option" where
  "int_part s = (case s of [] \<Rightarrow> None
     | c # r \<Rightarrow> if c = 48 then Some ([c], r)
         else if is_digit c then Some (takeWhile is_digit s, dropWhile is_digit s) else None)"

definition frac_part :: "ustr \<Rightarrow> ustr \<times> ustr" where
  "frac_part s = (case eat 46 s of None \<Rightarrow> ([], s)
     | Some r \<Rightarrow> if takeWhile is_digit r = [] then ([], s) else (takeWhile is_digit r, dropWhile is_digit r))"

definition exp_sign :: "ustr \<Rightarrow> bool \<times> ustr" where
  "exp_sign s = (case s of [] \<Rightarrow> (False, s) | c # r \<Rightarrow> if c = 45 then (True, r) else if c = 43 then (False, r) else (False, s))"

definition exp_part :: "ustr \<Rightarrow> int option \<times> ustr" where
  "exp_part s = (case s of [] \<Rightarrow> (None, s)
     | c # r \<Rightarrow> if c = 101 \<or> c = 69 then
         (let (negative, d) = exp_sign r in
          if takeWhile is_digit d = [] then (None, s)
          else (Some (if negative then - digits_value (takeWhile is_digit d) else digits_value (takeWhile is_digit d)),
                dropWhile is_digit d))
       else (None, s))"

definition power_ten :: "int \<Rightarrow> rat" where
  "power_ten e = (if 0 \<le> e then 10 ^ nat e else 1 / 10 ^ nat (- e))"

definition json_float :: "platform \<Rightarrow> bool \<Rightarrow> rat \<Rightarrow> json" where
  "json_float P negative q =
    (if 2 ^ 1024 - 2 ^ 970 \<le> q then JInf negative else JFloat (float_round P (if negative then - q else q)))"

definition number_value :: "platform \<Rightarrow> bool \<Rightarrow> ustr \<Rightarrow> ustr \<Rightarrow> int option \<Rightarrow> json option" where
  "number_value P negative i f e =
    (if f = [] \<and> e = None then
       (if 4300 < int (length i) then None else Some (JInt (if negative then - digits_value i else digits_value i)))
     else Some (json_float P negative
       (of_int (digits_value (i @ f)) * power_ten ((case e of None \<Rightarrow> 0 | Some x \<Rightarrow> x) - int (length f)))))"

definition scan_number :: "platform \<Rightarrow> ustr \<Rightarrow> (json \<times> ustr) option" where
  "scan_number P s =
    (let (negative, s) = (case eat 45 s of None \<Rightarrow> (False, s) | Some r \<Rightarrow> (True, r)) in do {
       (i, s) \<leftarrow> int_part s;
       let (f, s) = frac_part s;
       let (e, s) = exp_part s;
       v \<leftarrow> number_value P negative i f e;
       Some (v, s) })"

definition scan_word :: "ustr \<Rightarrow> (json \<times> ustr) option" where
  "scan_word s = (case eat_word (asc ''null'') s of Some r \<Rightarrow> Some (JNull, r) | None \<Rightarrow>
    (case eat_word (asc ''true'') s of Some r \<Rightarrow> Some (JBool True, r) | None \<Rightarrow>
    (case eat_word (asc ''false'') s of Some r \<Rightarrow> Some (JBool False, r) | None \<Rightarrow>
    (case eat_word (asc ''NaN'') s of Some r \<Rightarrow> Some (JNan, r) | None \<Rightarrow>
    (case eat_word (asc ''Infinity'') s of Some r \<Rightarrow> Some (JInf False, r) | None \<Rightarrow>
    (case eat_word (asc ''-Infinity'') s of Some r \<Rightarrow> Some (JInf True, r) | None \<Rightarrow> None))))))"

definition scan_atom :: "platform \<Rightarrow> ustr \<Rightarrow> (json \<times> ustr) option" where
  "scan_atom P s = (case scan_word s of Some r \<Rightarrow> Some r | None \<Rightarrow> scan_number P s)"

text \<open>
  The members and elements of a container, from the first one on; a repeated key keeps its first
  place and its last value.
\<close>

fun scan_value :: "platform \<Rightarrow> nat \<Rightarrow> ustr \<Rightarrow> (json \<times> ustr) option"
  and scan_members :: "platform \<Rightarrow> nat \<Rightarrow> ustr \<Rightarrow> ((ustr \<times> json) list \<times> ustr) option"
  and scan_elements :: "platform \<Rightarrow> nat \<Rightarrow> ustr \<Rightarrow> (json list \<times> ustr) option" where
  "scan_value P 0 s = None"
| "scan_value P (Suc n) s =
    (case eat 34 s of Some r \<Rightarrow> do { (v, r) \<leftarrow> scan_str r; Some (JStr v, r) } | None \<Rightarrow>
    (case eat 123 s of Some r \<Rightarrow>
       (case eat 125 (skip_ws r) of Some r' \<Rightarrow> Some (JObj [], r')
        | None \<Rightarrow> do { (ms, r') \<leftarrow> scan_members P n (skip_ws r); Some (JObj (update_members [] ms), r') }) | None \<Rightarrow>
    (case eat 91 s of Some r \<Rightarrow>
       (case eat 93 (skip_ws r) of Some r' \<Rightarrow> Some (JArr [], r')
        | None \<Rightarrow> do { (vs, r') \<leftarrow> scan_elements P n (skip_ws r); Some (JArr vs, r') }) | None \<Rightarrow>
     scan_atom P s)))"
| "scan_members P 0 s = None"
| "scan_members P (Suc n) s = do {
     s \<leftarrow> eat 34 s; (k, s) \<leftarrow> scan_str s;
     s \<leftarrow> eat 58 (skip_ws s); (v, s) \<leftarrow> scan_value P n (skip_ws s);
     (case eat 125 (skip_ws s) of Some r \<Rightarrow> Some ([(k, v)], r)
      | None \<Rightarrow> do { r \<leftarrow> eat 44 (skip_ws s); (ms, r) \<leftarrow> scan_members P n (skip_ws r); Some ((k, v) # ms, r) }) }"
| "scan_elements P 0 s = None"
| "scan_elements P (Suc n) s = do {
     (v, s) \<leftarrow> scan_value P n s;
     (case eat 93 (skip_ws s) of Some r \<Rightarrow> Some ([v], r)
      | None \<Rightarrow> do { r \<leftarrow> eat 44 (skip_ws s); (vs, r) \<leftarrow> scan_elements P n (skip_ws r); Some (v # vs, r) }) }"

definition raw_decode :: "platform \<Rightarrow> ustr \<Rightarrow> (json \<times> ustr) option" where
  "raw_decode P s = scan_value P (2 * length s + 2) s"

definition loads :: "platform \<Rightarrow> ustr \<Rightarrow> json option" where
  "loads P s = (if starts_with s [65279] then None
     else case raw_decode P (skip_ws s) of None \<Rightarrow> None
       | Some (v, r) \<Rightarrow> if skip_ws r = [] then Some v else None)"

section \<open>What a scanner has read\<close>

text \<open>\<open>decided\<close>: a prefix was read, and it is read in the same way whatever allowed text follows.\<close>

definition decided :: "(ustr \<Rightarrow> bool) \<Rightarrow> (ustr \<Rightarrow> ('a \<times> ustr) option) \<Rightarrow> ustr \<Rightarrow> 'a \<Rightarrow> ustr \<Rightarrow> ustr \<Rightarrow> bool" where
  "decided Q f s v p r \<longleftrightarrow> s = p @ r \<and> p \<noteq> [] \<and> (\<forall>t. Q t \<longrightarrow> f (p @ t) = Some (v, t))"

lemma skip_ws_Cons: "skip_ws s = c # r \<Longrightarrow> \<exists>w. s = w @ c # r \<and> (\<forall>t. skip_ws (w @ c # t) = c # t) \<and> (w = [] \<or> json_space (hd w))"
proof -
  assume a: "skip_ws s = c # r"
  let ?w = "takeWhile json_space s"
  have s: "s = ?w @ c # r" using a unfolding skip_ws_def by (metis takeWhile_dropWhile_id)
  have c: "\<not> json_space c" using a unfolding skip_ws_def by (metis dropWhile_eq_Cons_conv)
  have w: "\<forall>x \<in> set ?w. json_space x" by (meson set_takeWhileD)
  have "skip_ws (?w @ c # t) = c # t" for t
    using w c by (simp add: skip_ws_def dropWhile_append2)
  moreover have "?w = [] \<or> json_space (hd ?w)" using w by (cases ?w) auto
  ultimately show ?thesis using s by blast
qed

lemma scan_hex4_prefix:
  "scan_hex4 s = Some (n, r) \<Longrightarrow>
     \<exists>p. s = p @ r \<and> length p = 4 \<and> 34 \<notin> set p \<and> (\<forall>t. scan_hex4 (p @ t) = Some (n, t))"
  by (cases s rule: scan_hex4.cases) (auto simp: hex_value_def split: bind_splits if_splits)

lemma low_surrogate_prefix:
  "low_surrogate s = Some (n, r) \<Longrightarrow> \<exists>p. s = p @ r \<and> 34 \<notin> set p \<and> (\<forall>t. low_surrogate (p @ t) = Some (n, t))"
  by (fastforce simp: low_surrogate_def eat_word_Some split: bind_splits if_splits dest!: scan_hex4_prefix)

lemma low_surrogate_None:
  assumes "low_surrogate (x @ r) = None" "34 \<in> set x"
  shows "low_surrogate (x @ t) = None"
proof (rule ccontr)
  assume "low_surrogate (x @ t) \<noteq> None"
  then obtain n y where "low_surrogate (x @ t) = Some (n, y)" by auto
  from low_surrogate_prefix[OF this] obtain p where p: "x @ t = p @ y" "34 \<notin> set p"
    "\<And>t. low_surrogate (p @ t) = Some (n, t)" by blast
  then obtain z where "x = p @ z \<or> p = x @ z" by (metis append_eq_append_conv2)
  with p(2) assms(2) have "x = p @ z" by auto
  with p(3)[of "z @ r"] assms(1) show False by simp
qed

lemma scan_escape_prefix:
  assumes "scan_escape s = Some (u, x @ r)" "34 \<in> set x"
  shows "\<exists>p. s = p @ x @ r \<and> p \<noteq> [] \<and> (\<forall>t. scan_escape (p @ x @ t) = Some (u, x @ t))"
proof (cases s)
  case (Cons e q)
  show ?thesis
  proof (cases "e = 117")
    case True
    with assms(1) Cons have "scan_unicode q = Some (u, x @ r)" by simp
    then obtain c q' where c: "scan_hex4 q = Some (c, q')"
      and d: "(if 55296 \<le> c \<and> c \<le> 56319 then
         (case low_surrogate q' of None \<Rightarrow> Some (c, q')
        | Some (l, s') \<Rightarrow> Some (65536 + 1024 * (c - 55296) + (l - 56320), s')) else Some (c, q')) = Some (u, x @ r)"
      by (auto simp: scan_unicode_def split: bind_splits)
    from scan_hex4_prefix[OF c] obtain h where h: "q = h @ q'" "\<And>t. scan_hex4 (h @ t) = Some (c, t)" by blast
    show ?thesis
    proof (cases "55296 \<le> c \<and> c \<le> 56319 \<and> low_surrogate q' \<noteq> None")
      case True
      then obtain l y where l: "low_surrogate q' = Some (l, y)" by auto
      with True d have y: "y = x @ r" "u = 65536 + 1024 * (c - 55296) + (l - 56320)" by auto
      from low_surrogate_prefix[OF l] obtain p where p: "q' = p @ y" "\<And>t. low_surrogate (p @ t) = Some (l, t)" by blast
      show ?thesis
        by (rule exI[of _ "e # h @ p"]) (use Cons h p y True \<open>e = 117\<close> in \<open>simp add: scan_unicode_def\<close>)
    next
      case False
      with d have q: "q' = x @ r" "u = c" by (auto split: if_splits option.splits)
      have none: "55296 \<le> c \<and> c \<le> 56319 \<Longrightarrow> low_surrogate (x @ t) = None" for t
        using low_surrogate_None[of x r t] assms(2) False q by blast
      show ?thesis
        by (rule exI[of _ "e # h"]) (use Cons h q none \<open>e = 117\<close> in \<open>simp add: scan_unicode_def\<close>)
    qed
  next
    case False
    with assms(1) Cons show ?thesis by (intro exI[of _ "[e]"]) (auto split: if_splits)
  qed
qed (use assms in simp)

lemma scan_str_prefix:
  "scan_str s = Some (v, r) \<Longrightarrow> \<exists>p. decided (\<lambda>t. True) scan_str s v p r \<and> 34 \<in> set p"
proof (induction s arbitrary: v r rule: scan_str.induct)
  case (2 c s)
  show ?case
  proof (cases "c = 34")
    case True
    with 2 show ?thesis by (intro exI[of _ "[34]"]) (simp add: decided_def)
  next
    case c34: False
    with 2(3) have c32: "\<not> c < 32" by (simp split: if_splits)
    show ?thesis
    proof (cases "c = 92")
      case False
      with 2(3) c34 c32 obtain w where w: "scan_str s = Some (w, r)" "v = c # w" by auto
      from 2(1)[OF c34 c32 False w(1)] obtain p where "decided (\<lambda>t. True) scan_str s w p r" "34 \<in> set p" by blast
      with w(2) c34 c32 False show ?thesis by (intro exI[of _ "c # p"]) (simp add: decided_def)
    next
      case True
      with 2(3) c34 c32 obtain u s' w where w: "scan_escape s = Some (u, s')" "scan_str s' = Some (w, r)" "v = u # w"
        by (auto split: option.splits)
      from 2(2)[OF c34 c32 _ w(1) refl w(2)] True obtain p
        where p: "decided (\<lambda>t. True) scan_str s' w p r" "34 \<in> set p" by auto
      from w(1) p(1) have "scan_escape s = Some (u, p @ r)" by (simp add: decided_def)
      from scan_escape_prefix[OF this p(2)] obtain h where "s = h @ p @ r" "h \<noteq> []"
        "\<And>t. scan_escape (h @ p @ t) = Some (u, p @ t)" by blast
      with p w(3) c34 c32 True show ?thesis by (intro exI[of _ "c # h @ p"]) (simp add: decided_def)
    qed
  qed
qed simp

text \<open>A number ends where no digit, point or exponent follows.\<close>

definition ends_number :: "ustr \<Rightarrow> bool" where
  "ends_number t \<longleftrightarrow> (case t of [] \<Rightarrow> True | c # u \<Rightarrow> \<not> is_digit c \<and> c \<noteq> 46 \<and> c \<noteq> 101 \<and> c \<noteq> 69)"

lemma digits_span: "\<not> is_digit c \<Longrightarrow> takeWhile is_digit (takeWhile is_digit r @ c # t) = takeWhile is_digit r"
  "\<not> is_digit c \<Longrightarrow> dropWhile is_digit (takeWhile is_digit r @ c # t) = c # t"
  "takeWhile is_digit (takeWhile is_digit r) = takeWhile is_digit r"
  "dropWhile is_digit (takeWhile is_digit r) = []"
proof -
  have w: "\<forall>x \<in> set (takeWhile is_digit r). is_digit x" by (meson set_takeWhileD)
  then show "takeWhile is_digit (takeWhile is_digit r) = takeWhile is_digit r"
    "dropWhile is_digit (takeWhile is_digit r) = []" by simp_all
  assume c: "\<not> is_digit c"
  show "takeWhile is_digit (takeWhile is_digit r @ c # t) = takeWhile is_digit r"
    using w c by (simp add: takeWhile_append2)
  show "dropWhile is_digit (takeWhile is_digit r @ c # t) = c # t"
    using w c by (simp add: dropWhile_append2)
qed

definition no_digit :: "ustr \<Rightarrow> bool" where
  "no_digit t \<longleftrightarrow> (case t of [] \<Rightarrow> True | c # u \<Rightarrow> \<not> is_digit c)"

lemma digits_then:
  assumes "no_digit t"
  shows "takeWhile is_digit (takeWhile is_digit r @ t) = takeWhile is_digit r"
    "dropWhile is_digit (takeWhile is_digit r @ t) = t"
  using assms by (auto simp: no_digit_def digits_span split: list.splits)

lemma int_part_prefix:
  assumes "int_part s = Some (i, r)"
  shows "s = i @ r \<and> i \<noteq> [] \<and> is_digit (hd i) \<and> (\<forall>t. no_digit t \<longrightarrow> int_part (i @ t) = Some (i, t))"
proof (cases s)
  case (Cons c u)
  show ?thesis
  proof (cases "c = 48")
    case True
    with assms Cons show ?thesis by (auto simp: int_part_def is_digit_def)
  next
    case False
    with assms Cons have c: "is_digit c" "i = c # takeWhile is_digit u" "r = dropWhile is_digit u"
      by (auto simp: int_part_def split: if_splits)
    with False Cons show ?thesis by (auto simp: int_part_def digits_then)
  qed
qed (use assms in \<open>simp add: int_part_def\<close>)

lemma frac_part_prefix:
  assumes "frac_part s = (f, r)"
  shows "\<exists>p. s = p @ r \<and> (p = [] \<or> hd p = 46) \<and>
     (\<forall>t. no_digit t \<and> (t = [] \<or> hd t \<noteq> 46) \<longrightarrow> frac_part (p @ t) = (f, t))"
proof (cases "\<exists>u. s = 46 # u \<and> takeWhile is_digit u \<noteq> []")
  case True
  then obtain u where u: "s = 46 # u" "takeWhile is_digit u \<noteq> []" by blast
  with assms have "f = takeWhile is_digit u" "r = dropWhile is_digit u" by (simp_all add: frac_part_def)
  with u show ?thesis
    by (intro exI[of _ "46 # takeWhile is_digit u"]) (auto simp: frac_part_def digits_then)
next
  case False
  with assms have fr: "f = []" "r = s" by (cases s; auto simp: frac_part_def split: if_splits)+
  have "frac_part t = ([], t)" if "t = [] \<or> hd t \<noteq> 46" for t
    using that by (cases t) (auto simp: frac_part_def)
  with fr show ?thesis by (intro exI[of _ "[]"]) simp
qed

lemma exp_sign_prefix:
  assumes "exp_sign s = (b, d)" "takeWhile is_digit d \<noteq> []"
  shows "\<exists>p. s = p @ d \<and> (\<forall>t. exp_sign (p @ takeWhile is_digit d @ t) = (b, takeWhile is_digit d @ t))"
proof (cases s)
  case (Cons c u)
  show ?thesis
  proof (cases "c = 45 \<or> c = 43")
    case True
    with assms Cons show ?thesis by (intro exI[of _ "[c]"]) (auto simp: exp_sign_def)
  next
    case False
    with assms Cons have d: "d = s" "b = False" by (auto simp: exp_sign_def)
    from assms(2) d Cons False have "takeWhile is_digit d = c # takeWhile is_digit u" by (auto split: if_splits)
    with d False show ?thesis by (intro exI[of _ "[]"]) (simp add: exp_sign_def)
  qed
qed (use assms in \<open>simp add: exp_sign_def\<close>)

lemma exp_part_prefix:
  assumes "exp_part s = (e, r)"
  shows "\<exists>p. s = p @ r \<and> (p = [] \<or> hd p = 101 \<or> hd p = 69) \<and> (\<forall>t. ends_number t \<longrightarrow> exp_part (p @ t) = (e, t))"
proof (cases "e = None")
  case True
  with assms have r: "r = s" by (auto simp: exp_part_def split: list.splits if_splits prod.splits)
  have "exp_part t = (None, t)" if "ends_number t" for t
    using that by (auto simp: exp_part_def ends_number_def split: list.splits)
  with r True show ?thesis by (intro exI[of _ "[]"]) simp
next
  case False
  then obtain c u b d where s: "s = c # u" "c = 101 \<or> c = 69" "exp_sign u = (b, d)" "takeWhile is_digit d \<noteq> []"
    and e: "e = Some (if b then - digits_value (takeWhile is_digit d) else digits_value (takeWhile is_digit d))"
      "r = dropWhile is_digit d"
    using assms by (auto simp: exp_part_def split: list.splits if_splits prod.splits)
  from exp_sign_prefix[OF s(3,4)] obtain p where p: "u = p @ d"
    "\<And>t. exp_sign (p @ takeWhile is_digit d @ t) = (b, takeWhile is_digit d @ t)" by blast
  have "exp_part ((c # p @ takeWhile is_digit d) @ t) = (e, t)" if t: "ends_number t" for t
  proof -
    have "no_digit t" using t by (auto simp: ends_number_def no_digit_def split: list.splits)
    then show ?thesis using s e p by (auto simp: exp_part_def digits_then)
  qed
  with s p e show ?thesis by (intro exI[of _ "c # p @ takeWhile is_digit d"]) auto
qed

definition is_number :: "json \<Rightarrow> bool" where
  "is_number v \<longleftrightarrow> (case v of JInt i \<Rightarrow> True | JFloat q \<Rightarrow> True | JInf b \<Rightarrow> True | _ \<Rightarrow> False)"

lemma number_value_is_number: "number_value P b i f e = Some v \<Longrightarrow> is_number v"
  by (auto simp: number_value_def json_float_def is_number_def split: if_splits)

lemma scan_number_prefix:
  assumes "scan_number P s = Some (v, r)"
  shows "is_number v \<and> (\<exists>p. decided ends_number (scan_number P) s v p r
    \<and> (is_digit (hd p) \<or> (hd p = 45 \<and> tl p \<noteq> [] \<and> is_digit (hd (tl p)))))"
proof -
  define b where "b = (case eat 45 s of None \<Rightarrow> False | Some r \<Rightarrow> True)"
  define u where "u = (case eat 45 s of None \<Rightarrow> s | Some r \<Rightarrow> r)"
  have bu: "(case eat 45 s of None \<Rightarrow> (False, s) | Some r \<Rightarrow> (True, r)) = (b, u)"
    by (simp add: b_def u_def split: option.splits)
  have s: "s = (if b then [45] else []) @ u" by (auto simp: b_def u_def eat_Some split: option.splits)
  from assms obtain i s1 f s2 e where
    i: "int_part u = Some (i, s1)" and f: "frac_part s1 = (f, s2)" and e: "exp_part s2 = (e, r)"
    and v: "number_value P b i f e = Some v"
    unfolding scan_number_def bu Let_def by (auto split: bind_splits prod.splits)
  from int_part_prefix[OF i] have ip: "u = i @ s1" "i \<noteq> []" "is_digit (hd i)"
    "\<And>t. no_digit t \<Longrightarrow> int_part (i @ t) = Some (i, t)" by auto
  from frac_part_prefix[OF f] obtain pf where fp: "s1 = pf @ s2" "pf = [] \<or> hd pf = 46"
    "\<And>t. no_digit t \<Longrightarrow> t = [] \<or> hd t \<noteq> 46 \<Longrightarrow> frac_part (pf @ t) = (f, t)" by blast
  from exp_part_prefix[OF e] obtain pe where ep: "s2 = pe @ r" "pe = [] \<or> hd pe = 101 \<or> hd pe = 69"
    "\<And>t. ends_number t \<Longrightarrow> exp_part (pe @ t) = (e, t)" by blast
  let ?p = "(if b then [45] else []) @ i @ pf @ pe"
  have run: "scan_number P (?p @ t) = Some (v, t)" if t: "ends_number t" for t
  proof -
    have hd: "no_digit (pe @ t)" "pe @ t = [] \<or> hd (pe @ t) \<noteq> 46"
      using ep(2) t by (cases pe; auto simp: no_digit_def ends_number_def is_digit_def split: list.splits)+
    have "no_digit (pf @ pe @ t)"
      using fp(2) hd(1) by (cases pf) (auto simp: no_digit_def is_digit_def)
    from ip(4)[OF this] fp(3)[OF hd] ep(3)[OF t]
    have parts: "int_part (i @ pf @ pe @ t) = Some (i, pf @ pe @ t)" "frac_part (pf @ pe @ t) = (f, pe @ t)"
      "exp_part (pe @ t) = (e, t)" by simp_all
    have sign: "(case eat 45 (?p @ t) of None \<Rightarrow> (False, ?p @ t) | Some r \<Rightarrow> (True, r)) = (b, i @ pf @ pe @ t)"
      using ip(2,3) by (cases i) (auto simp: is_digit_def)
    show ?thesis unfolding scan_number_def sign Let_def by (simp add: parts v)
  qed
  have "decided ends_number (scan_number P) s v ?p r"
    unfolding decided_def using s ip(1,2) fp(1) ep(1) run by auto
  moreover have "is_digit (hd ?p) \<or> (hd ?p = 45 \<and> tl ?p \<noteq> [] \<and> is_digit (hd (tl ?p)))"
    using ip(2,3) by (cases i) auto
  ultimately show ?thesis using number_value_is_number[OF v] by blast
qed

lemma scan_word_prefix: "scan_word s = Some (v, r) \<Longrightarrow> \<exists>p. decided (\<lambda>t. True) scan_word s v p r"
  unfolding scan_word_def
  by (auto split: option.splits simp: eat_word_Some)
    (rule exI, rule decided_def[THEN iffD2], intro conjI, rule refl, simp add: asc_def,
      simp add: scan_word_def eat_word_def asc_def)+

lemma scan_word_digit:
  "is_digit (hd p) \<or> (hd p = 45 \<and> tl p \<noteq> [] \<and> is_digit (hd (tl p))) \<Longrightarrow> p \<noteq> [] \<Longrightarrow> scan_word (p @ t) = None"
  by (cases p; cases "tl p") (auto simp: scan_word_def eat_word_def asc_def is_digit_def)

definition follows :: "json \<Rightarrow> ustr \<Rightarrow> bool" where
  "follows v t \<longleftrightarrow> is_number v \<longrightarrow> ends_number t"

lemma scan_atom_prefix:
  assumes "scan_atom P s = Some (v, r)"
  shows "\<exists>p. decided (follows v) (scan_atom P) s v p r \<and> hd p \<noteq> 34 \<and> hd p \<noteq> 123 \<and> hd p \<noteq> 91"
proof (cases "scan_word s")
  case None
  with assms have "scan_number P s = Some (v, r)" by (simp add: scan_atom_def)
  from scan_number_prefix[OF this] obtain p where v: "is_number v" and p: "decided ends_number (scan_number P) s v p r"
    and hd: "is_digit (hd p) \<or> (hd p = 45 \<and> tl p \<noteq> [] \<and> is_digit (hd (tl p)))" by blast
  have "decided (follows v) (scan_atom P) s v p r"
    using p v scan_word_digit[OF hd] by (auto simp: decided_def follows_def scan_atom_def)
  moreover have "hd p \<noteq> 34 \<and> hd p \<noteq> 123 \<and> hd p \<noteq> 91" using hd by (auto simp: is_digit_def)
  ultimately show ?thesis by blast
next
  case (Some a)
  with assms have w: "scan_word s = Some (v, r)" by (simp add: scan_atom_def)
  from scan_word_prefix[OF this] obtain p where p: "decided (\<lambda>t. True) scan_word s v p r" by blast
  then have "decided (follows v) (scan_atom P) s v p r" by (auto simp: decided_def scan_atom_def)
  moreover have "hd p \<noteq> 34 \<and> hd p \<noteq> 123 \<and> hd p \<noteq> 91"
  proof -
    from p have "p \<noteq> []" "scan_word (p @ []) = Some (v, [])" unfolding decided_def by blast+
    then show ?thesis by (cases p) (auto simp: scan_word_def eat_word_def asc_def)
  qed
  ultimately show ?thesis by blast
qed

lemma eat_ws:
  assumes "eat c (skip_ws s) = Some r"
  shows "\<exists>p. s = p @ r \<and> p \<noteq> [] \<and> (hd p = c \<or> json_space (hd p)) \<and> (\<forall>t. skip_ws (p @ t) = c # t)"
proof -
  from assms have "skip_ws s = c # r" by (simp add: eat_Some)
  from skip_ws_Cons[OF this] obtain w where "s = w @ c # r" "\<And>t. skip_ws (w @ c # t) = c # t"
    "w = [] \<or> json_space (hd w)" by blast
  then show ?thesis by (intro exI[of _ "w @ [c]"]) (cases w; auto)
qed

lemma decided_ws:
  assumes "decided Q f (skip_ws s) v p r"
  shows "\<exists>w. decided Q (\<lambda>s. f (skip_ws s)) s v (w @ p) r \<and> (\<forall>t. skip_ws ((w @ p) @ t) = p @ t)"
proof -
  from assms obtain c q where p: "p = c # q" and s: "skip_ws s = c # q @ r" by (cases p) (auto simp: decided_def)
  from skip_ws_Cons[OF s] obtain w where w: "s = w @ c # q @ r" "\<And>t. skip_ws (w @ c # t) = c # t" by blast
  have skip: "\<forall>t. skip_ws ((w @ p) @ t) = p @ t" using w(2) by (simp add: p)
  then have "decided Q (\<lambda>s. f (skip_ws s)) s v (w @ p) r"
    using assms w(1) p by (simp add: decided_def)
  with skip show ?thesis by blast
qed

lemma ends_number_stop: "c = 125 \<or> c = 44 \<or> c = 93 \<or> json_space c \<Longrightarrow> ends_number (c # t)"
  by (auto simp: ends_number_def is_digit_def json_space_def)

lemma stop_follows:
  "p \<noteq> [] \<Longrightarrow> hd p = c \<or> json_space (hd p) \<Longrightarrow> c = 125 \<or> c = 44 \<or> c = 93 \<Longrightarrow> follows v (p @ t)"
  using ends_number_stop[of "hd p" "tl p @ t"] by (cases p) (auto simp: follows_def)

definition decides_values :: "platform \<Rightarrow> nat \<Rightarrow> bool" where
  "decides_values P n \<longleftrightarrow> (\<forall>s v r. scan_value P n s = Some (v, r) \<longrightarrow>
     (\<exists>p. decided (follows v) (scan_value P n) s v p r))"

definition decides_members :: "platform \<Rightarrow> nat \<Rightarrow> bool" where
  "decides_members P n \<longleftrightarrow> (\<forall>s ms r. scan_members P n s = Some (ms, r) \<longrightarrow>
     (\<exists>p. decided (\<lambda>t. True) (scan_members P n) s ms p r \<and> hd p = 34))"

definition decides_elements :: "platform \<Rightarrow> nat \<Rightarrow> bool" where
  "decides_elements P n \<longleftrightarrow> (\<forall>s vs r. scan_elements P n s = Some (vs, r) \<longrightarrow>
     (\<exists>p. decided (\<lambda>t. True) (scan_elements P n) s vs p r))"

lemma scan_value_step:
  assumes IHm: "decides_members P n" and IHe: "decides_elements P n"
    and a: "scan_value P (Suc n) s = Some (v, r)"
  shows "\<exists>p. decided (follows v) (scan_value P (Suc n)) s v p r"
proof -
  consider (str) u where "s = 34 # u" | (obj) u where "s = 123 # u" | (arr) u where "s = 91 # u"
    | (atom) "eat 34 s = None" "eat 123 s = None" "eat 91 s = None"
    by (cases "eat 34 s"; cases "eat 123 s"; cases "eat 91 s") (auto simp: eat_Some)
  then show ?thesis
  proof cases
    case str
    with a obtain w where w: "scan_str u = Some (w, r)" "v = JStr w" by (auto split: bind_splits)
    from scan_str_prefix[OF w(1)] obtain p where "decided (\<lambda>t. True) scan_str u w p r" by blast
    with str w show ?thesis by (intro exI[of _ "34 # p"]) (simp add: decided_def)
  next
    case obj
    show ?thesis
    proof (cases "eat 125 (skip_ws u)")
      case (Some r')
      with obj a have "r' = r" "v = JObj []" by auto
      with eat_ws[OF Some] obj show ?thesis by (fastforce intro: exI[of _ "123 # _"] simp: decided_def)
    next
      case None
      with obj a obtain ms where ms: "scan_members P n (skip_ws u) = Some (ms, r)" "v = JObj (update_members [] ms)"
        by (auto split: bind_splits)
      from IHm[unfolded decides_members_def, rule_format, OF ms(1)] obtain p where p: "decided (\<lambda>t. True) (scan_members P n) (skip_ws u) ms p r" "hd p = 34" by blast
      from decided_ws[OF p(1)] obtain w where w: "decided (\<lambda>t. True) (\<lambda>s. scan_members P n (skip_ws s)) u ms (w @ p) r"
        "\<And>t. skip_ws ((w @ p) @ t) = p @ t" by blast
      from p have "eat 125 (p @ t) = None" for t by (cases p) (auto simp: decided_def)
      with w ms(2) obj show ?thesis by (intro exI[of _ "123 # w @ p"]) (simp add: decided_def)
    qed
  next
    case arr
    show ?thesis
    proof (cases "eat 93 (skip_ws u)")
      case (Some r')
      with arr a have "r' = r" "v = JArr []" by auto
      with eat_ws[OF Some] arr show ?thesis by (fastforce intro: exI[of _ "91 # _"] simp: decided_def)
    next
      case None
      with arr a obtain vs where vs: "scan_elements P n (skip_ws u) = Some (vs, r)" "v = JArr vs"
        by (auto split: bind_splits)
      from IHe[unfolded decides_elements_def, rule_format, OF vs(1)] obtain p where p: "decided (\<lambda>t. True) (scan_elements P n) (skip_ws u) vs p r" by blast
      from decided_ws[OF p(1)] obtain w where w: "decided (\<lambda>t. True) (\<lambda>s. scan_elements P n (skip_ws s)) u vs (w @ p) r"
        "\<And>t. skip_ws ((w @ p) @ t) = p @ t" by blast
      from p None have "eat 93 (p @ t) = None" for t by (cases p) (auto simp: decided_def split: if_splits)
      with w vs(2) arr show ?thesis by (intro exI[of _ "91 # w @ p"]) (simp add: decided_def)
    qed
  next
    case atom
    with a have "scan_atom P s = Some (v, r)" by simp
    from scan_atom_prefix[OF this] obtain p where p: "decided (follows v) (scan_atom P) s v p r"
      "hd p \<noteq> 34" "hd p \<noteq> 123" "hd p \<noteq> 91" by blast
    then have "scan_value P (Suc n) (p @ t) = scan_atom P (p @ t)" for t
      by (cases p) (auto simp: decided_def)
    with p(1) show ?thesis by (auto simp: decided_def)
  qed
qed
lemma scan_members_step:
  assumes IHv: "decides_values P n" and IHm: "decides_members P n"
    and a: "scan_members P (Suc n) s = Some (ms, r)"
  shows "\<exists>p. decided (\<lambda>t. True) (scan_members P (Suc n)) s ms p r \<and> hd p = 34"
proof -
  from a obtain s1 k s2 s3 v s4 where s1: "s = 34 # s1" and k: "scan_str s1 = Some (k, s2)"
    and colon: "eat 58 (skip_ws s2) = Some s3" and v: "scan_value P n (skip_ws s3) = Some (v, s4)"
    and tail: "(case eat 125 (skip_ws s4) of Some r \<Rightarrow> Some ([(k, v)], r)
      | None \<Rightarrow> do { r \<leftarrow> eat 44 (skip_ws s4); (ms, r) \<leftarrow> scan_members P n (skip_ws r); Some ((k, v) # ms, r) })
      = Some (ms, r)"
    by (auto split: bind_splits simp: eat_Some)
  from scan_str_prefix[OF k] obtain pk where pk: "s1 = pk @ s2" "\<And>t. scan_str (pk @ t) = Some (k, t)"
    by (auto simp: decided_def)
  from eat_ws[OF colon] obtain pc where pc: "s2 = pc @ s3" "\<And>t. skip_ws (pc @ t) = 58 # t" by blast
  from IHv[unfolded decides_values_def, rule_format, OF v] obtain pv where "decided (follows v) (scan_value P n) (skip_ws s3) v pv s4" by blast
  from decided_ws[OF this] obtain w where pv: "s3 = (w @ pv) @ s4"
    "\<And>t. follows v t \<Longrightarrow> scan_value P n (skip_ws ((w @ pv) @ t)) = Some (v, t)"
    unfolding decided_def by blast
  have run: "scan_members P (Suc n) ((34 # pk @ pc @ w @ pv) @ t) =
      (case eat 125 (skip_ws t) of Some r \<Rightarrow> Some ([(k, v)], r)
      | None \<Rightarrow> do { r \<leftarrow> eat 44 (skip_ws t); (ms, r) \<leftarrow> scan_members P n (skip_ws r); Some ((k, v) # ms, r) })"
    if "follows v t" for t
    using pk(2)[of "pc @ w @ pv @ t"] pc(2)[of "w @ pv @ t"] pv(2)[OF that] by simp
  show ?thesis
  proof (cases "eat 125 (skip_ws s4)")
    case (Some r')
    with tail have ms: "r' = r" "ms = [(k, v)]" by auto
    from eat_ws[OF Some] obtain q where q: "s4 = q @ r'" "q \<noteq> []" "hd q = 125 \<or> json_space (hd q)"
      "\<And>t. skip_ws (q @ t) = 125 # t" by blast
    have "scan_members P (Suc n) ((34 # pk @ pc @ w @ pv @ q) @ t) = Some (ms, t)" for t
      using run[of "q @ t"] stop_follows[OF q(2,3)] q(4)[of t] ms by simp
    with s1 pk pc pv q ms show ?thesis
      by (intro exI[of _ "34 # pk @ pc @ w @ pv @ q"]) (simp add: decided_def)
  next
    case None
    with tail obtain s5 ms' where comma: "eat 44 (skip_ws s4) = Some s5"
      and rest: "scan_members P n (skip_ws s5) = Some (ms', r)" "ms = (k, v) # ms'"
      by (auto split: bind_splits)
    from eat_ws[OF comma] obtain q where q: "s4 = q @ s5" "q \<noteq> []" "hd q = 44 \<or> json_space (hd q)"
      "\<And>t. skip_ws (q @ t) = 44 # t" by blast
    from IHm[unfolded decides_members_def, rule_format, OF rest(1)] obtain pm where "decided (\<lambda>t. True) (scan_members P n) (skip_ws s5) ms' pm r" by blast
    from decided_ws[OF this] obtain x where pm: "s5 = (x @ pm) @ r"
      "\<And>t. scan_members P n (skip_ws ((x @ pm) @ t)) = Some (ms', t)"
      unfolding decided_def by blast
    have "scan_members P (Suc n) ((34 # pk @ pc @ w @ pv @ q @ x @ pm) @ t) = Some (ms, t)" for t
      using run[of "q @ x @ pm @ t"] stop_follows[OF q(2,3), of v "x @ pm @ t"] q(4)[of "x @ pm @ t"] pm(2)[of t] rest(2)
      by simp
    with s1 pk pc pv q pm show ?thesis
      by (intro exI[of _ "34 # pk @ pc @ w @ pv @ q @ x @ pm"]) (simp add: decided_def)
  qed
qed
lemma scan_elements_step:
  assumes IHv: "decides_values P n" and IHe: "decides_elements P n"
    and a: "scan_elements P (Suc n) s = Some (vs, r)"
  shows "\<exists>p. decided (\<lambda>t. True) (scan_elements P (Suc n)) s vs p r"
proof -
  from a obtain v s4 where v: "scan_value P n s = Some (v, s4)"
    and tail: "(case eat 93 (skip_ws s4) of Some r \<Rightarrow> Some ([v], r)
      | None \<Rightarrow> do { r \<leftarrow> eat 44 (skip_ws s4); (vs, r) \<leftarrow> scan_elements P n (skip_ws r); Some (v # vs, r) })
      = Some (vs, r)"
    by (auto split: bind_splits)
  from IHv[unfolded decides_values_def, rule_format, OF v] obtain pv where pv: "s = pv @ s4" "pv \<noteq> []"
    "\<And>t. follows v t \<Longrightarrow> scan_value P n (pv @ t) = Some (v, t)" by (auto simp: decided_def)
  show ?thesis
  proof (cases "eat 93 (skip_ws s4)")
    case (Some r')
    with tail have vs: "r' = r" "vs = [v]" by auto
    from eat_ws[OF Some] obtain q where q: "s4 = q @ r'" "q \<noteq> []" "hd q = 93 \<or> json_space (hd q)"
      "\<And>t. skip_ws (q @ t) = 93 # t" by blast
    have "scan_elements P (Suc n) ((pv @ q) @ t) = Some (vs, t)" for t
      using pv(3)[of "q @ t"] stop_follows[OF q(2,3)] q(4)[of t] vs by simp
    with pv q vs show ?thesis by (intro exI[of _ "pv @ q"]) (simp add: decided_def)
  next
    case None
    with tail obtain s5 vs' where comma: "eat 44 (skip_ws s4) = Some s5"
      and rest: "scan_elements P n (skip_ws s5) = Some (vs', r)" "vs = v # vs'"
      by (auto split: bind_splits)
    from eat_ws[OF comma] obtain q where q: "s4 = q @ s5" "q \<noteq> []" "hd q = 44 \<or> json_space (hd q)"
      "\<And>t. skip_ws (q @ t) = 44 # t" by blast
    from IHe[unfolded decides_elements_def, rule_format, OF rest(1)] obtain pe where "decided (\<lambda>t. True) (scan_elements P n) (skip_ws s5) vs' pe r" by blast
    from decided_ws[OF this] obtain x where pe: "s5 = (x @ pe) @ r"
      "\<And>t. scan_elements P n (skip_ws ((x @ pe) @ t)) = Some (vs', t)"
      unfolding decided_def by blast
    have "scan_elements P (Suc n) ((pv @ q @ x @ pe) @ t) = Some (vs, t)" for t
      using pv(3)[of "q @ x @ pe @ t"] stop_follows[OF q(2,3), of v "x @ pe @ t"] q(4)[of "x @ pe @ t"] pe(2)[of t] rest(2)
      by simp
    with pv q pe show ?thesis by (intro exI[of _ "pv @ q @ x @ pe"]) (simp add: decided_def)
  qed
qed
lemma scan_decides: "decides_values P n \<and> decides_members P n \<and> decides_elements P n"
proof (induction n)
  case 0
  show ?case by (simp add: decides_values_def decides_members_def decides_elements_def)
next
  case (Suc n)
  then show ?case using scan_value_step scan_members_step scan_elements_step
    unfolding decides_values_def[of P "Suc n"] decides_members_def[of P "Suc n"] decides_elements_def[of P "Suc n"] by blast
qed

lemma scan_value_prefix: "scan_value P n s = Some (v, r) \<Longrightarrow> \<exists>p. decided (follows v) (scan_value P n) s v p r"
  and scan_members_prefix: "scan_members P n s = Some (ms, r) \<Longrightarrow> \<exists>p. decided (\<lambda>t. True) (scan_members P n) s ms p r \<and> hd p = 34"
  and scan_elements_prefix: "scan_elements P n s = Some (vs, r) \<Longrightarrow> \<exists>p. decided (\<lambda>t. True) (scan_elements P n) s vs p r"
  using scan_decides[of P n] unfolding decides_values_def decides_members_def decides_elements_def by blast+

section \<open>Fuel\<close>

lemma decided_length: "decided Q f s v p r \<Longrightarrow> length r < length s"
  by (simp add: decided_def)

lemma skip_ws_length: "length (skip_ws s) \<le> length s"
  by (simp add: skip_ws_def length_dropWhile_le)

lemma eat_length: "eat c s = Some r \<Longrightarrow> length s = Suc (length r)"
  by (simp add: eat_Some)

lemma eat_ws_length: "eat c (skip_ws s) = Some r \<Longrightarrow> length r < length s"
  using skip_ws_length[of s] by (auto dest: eat_length)

lemma scan_str_length: "scan_str s = Some (v, r) \<Longrightarrow> length r < length s"
  by (drule scan_str_prefix) (auto dest: decided_length)

lemma scan_value_length: "scan_value P n s = Some (v, r) \<Longrightarrow> length r < length s"
  by (drule scan_value_prefix) (auto dest: decided_length)

lemmas scan_lengths = eat_ws_length eat_length scan_str_length scan_value_length

lemma scan_fuel:
  "(2 * length s < n \<longrightarrow> 2 * length s < m \<longrightarrow> scan_value P n s = scan_value P m s)
   \<and> (2 * length s < n \<longrightarrow> 2 * length s < m \<longrightarrow> scan_members P n s = scan_members P m s)
   \<and> (2 * length s + 1 < n \<longrightarrow> 2 * length s + 1 < m \<longrightarrow> scan_elements P n s = scan_elements P m s)"
proof (induction n arbitrary: s m)
  case (Suc n)
  note IHv = Suc[THEN conjunct1, rule_format]
    and IHm = Suc[THEN conjunct2, THEN conjunct1, rule_format]
    and IHe = Suc[THEN conjunct2, THEN conjunct2, rule_format]
  show ?case
  proof (cases m)
    case (Suc k)
    have ws: "length (skip_ws r) \<le> length r" for r by (rule skip_ws_length)
    have "scan_value P (Suc n) s = scan_value P (Suc k) s" if "2 * length s < Suc n" "2 * length s < Suc k"
    proof -
      have "scan_members P n (skip_ws r) = scan_members P k (skip_ws r)" if "eat 123 s = Some r" for r
        using IHm[of "skip_ws r" k] ws[of r] eat_length[OF that] \<open>2 * length s < Suc n\<close> \<open>2 * length s < Suc k\<close> by simp
      moreover have "scan_elements P n (skip_ws r) = scan_elements P k (skip_ws r)" if "eat 91 s = Some r" for r
        using IHe[of "skip_ws r" k] ws[of r] eat_length[OF that] \<open>2 * length s < Suc n\<close> \<open>2 * length s < Suc k\<close> by simp
      ultimately show ?thesis by (simp cong: option.case_cong)
    qed
    moreover have "scan_members P (Suc n) s = scan_members P (Suc k) s" if b: "2 * length s < Suc n" "2 * length s < Suc k"
    proof -
      have v: "scan_value P n (skip_ws s3) = scan_value P k (skip_ws s3)"
        if "eat 34 s = Some s1" "scan_str s1 = Some (x, s2)" "eat 58 (skip_ws s2) = Some s3" for s1 x s2 s3
        using IHv[of "skip_ws s3" k] ws[of s3] scan_lengths(2)[OF that(1)] scan_lengths(3)[OF that(2)] scan_lengths(1)[OF that(3)] b
        by simp
      have m: "scan_members P n (skip_ws s5) = scan_members P k (skip_ws s5)"
        if "eat 34 s = Some s1" "scan_str s1 = Some (x, s2)" "eat 58 (skip_ws s2) = Some s3"
          "scan_value P k (skip_ws s3) = Some (v, s4)" "eat 44 (skip_ws s4) = Some s5" for s1 x s2 s3 v s4 s5
        using IHm[of "skip_ws s5" k] ws[of s5] ws[of s3] scan_lengths(2)[OF that(1)] scan_lengths(3)[OF that(2)]
          scan_lengths(1)[OF that(3)] scan_lengths(4)[OF that(4)] scan_lengths(1)[OF that(5)] b
        by simp
      show ?thesis unfolding scan_members.simps
        by (intro Option.bind_cong option.case_cong refl) (auto simp: v m split: option.split intro!: Option.bind_cong)
    qed
    moreover have "scan_elements P (Suc n) s = scan_elements P (Suc k) s" if b: "2 * length s + 1 < Suc n" "2 * length s + 1 < Suc k"
    proof -
      have v: "scan_value P n s = scan_value P k s" using IHv[of s k] b by simp
      have e: "scan_elements P n (skip_ws s5) = scan_elements P k (skip_ws s5)"
        if "scan_value P k s = Some (v, s4)" "eat 44 (skip_ws s4) = Some s5" for v s4 s5
        using IHe[of "skip_ws s5" k] ws[of s5] scan_lengths(4)[OF that(1)] scan_lengths(1)[OF that(2)] b by simp
      show ?thesis unfolding scan_elements.simps v
        by (intro Option.bind_cong refl) (auto simp: e split: option.split intro!: Option.bind_cong)
    qed
    ultimately show ?thesis using Suc by simp
  qed simp
qed simp

lemma raw_decode_fuel: "2 * length s < n \<Longrightarrow> scan_value P n s = raw_decode P s"
  using scan_fuel[of s n "2 * length s + 2" P] by (simp add: raw_decode_def)

lemma raw_decode_length: "raw_decode P s = Some (v, r) \<Longrightarrow> length r < length s"
  unfolding raw_decode_def by (rule scan_value_length)

text \<open>A container, once read, stays the same whatever follows it.\<close>

lemma raw_decode_extend:
  assumes "raw_decode P s = Some (v, r)" "\<not> is_number v"
  shows "raw_decode P (s @ t) = Some (v, r @ t)"
proof -
  define n where "n = 2 * length (s @ t) + 2"
  have "scan_value P n s = Some (v, r)" using assms(1) raw_decode_fuel[of s n P] by (simp add: n_def)
  from scan_value_prefix[OF this] obtain p where "s = p @ r" "\<And>t. follows v t \<Longrightarrow> scan_value P n (p @ t) = Some (v, t)"
    unfolding decided_def by blast
  with assms(2) have "scan_value P n (s @ t) = Some (v, r @ t)" by (simp add: follows_def)
  then show ?thesis by (simp only: raw_decode_def n_def)
qed

text \<open>Rules by which \<open>simp\<close> reads a concrete text.\<close>

lemmas scan_numeral = scan_value.simps(2)[of P "pred_numeral k" for P k, folded numeral_eq_Suc]
  scan_members.simps(2)[of P "pred_numeral k" for P k, folded numeral_eq_Suc]
  scan_elements.simps(2)[of P "pred_numeral k" for P k, folded numeral_eq_Suc]

lemmas scan_eval = scan_numeral loads_def raw_decode_def asc_def skip_ws_def json_space_def scan_atom_def
  scan_word_def eat_word_def scan_number_def int_part_def frac_part_def exp_part_def number_value_def
  is_digit_def undec_nat_def update_members_def

end
