(* ===== verification/Listing.thy ===== *)
theory Listing
  imports JsonText Staging
begin

text \<open>
  \<open>src/tg2cloud/storage/rclone.py\<close>, the readers of a running \<open>rclone\<close> process: the bounded tails
  of its output streams, the progress lines on its error stream, and the listing of staging
  objects, which is decoded item by item while it arrives.

  A process hands its output over in chunks. \<open>reader_event\<close> is what one \<open>read(8192)\<close> of the listing
  gives: the text the incremental UTF-8 decoder makes of the bytes, bytes that are no UTF-8, or
  the end of the time limit. The theorems show that the way a stream is cut into chunks
  does not matter: a listing accepted as complete is the whole array, and its candidates are
  exactly the staging names in it.
\<close>

section \<open>Bounded tails\<close>

definition take_tail :: "nat \<Rightarrow> 'a list \<Rightarrow> 'a list" where
  "take_tail n xs = drop (length xs - n) xs"

definition TAIL :: nat where
  "TAIL = 65536"

text \<open>\<open>_read_process_tail\<close>, on the chunks of the stream.\<close>

definition tail_feed :: "nat list \<Rightarrow> nat list \<Rightarrow> nat list" where
  "tail_feed tail chunk = take_tail TAIL (tail @ chunk)"

definition process_tail :: "nat list list \<Rightarrow> nat list" where
  "process_tail chunks = foldl tail_feed [] chunks"

section \<open>Progress lines\<close>

text \<open>
  \<open>parse_progress\<close> on the text of one line, \<open>None\<close> when the bytes are no text. \<open>read_int\<close> and
  \<open>read_float\<close> are \<open>int(str)\<close> and \<open>float(str)\<close>, \<open>None\<close> standing for the ValueError.
\<close>

record readers =
  read_int :: "ustr \<Rightarrow> int option"
  read_float :: "ustr \<Rightarrow> json option"
  line_text :: "nat list \<Rightarrow> ustr option"

definition trunc :: "rat \<Rightarrow> int" where
  "trunc q = (if 0 \<le> q then \<lfloor>q\<rfloor> else - \<lfloor>- q\<rfloor>)"

definition py_int :: "readers \<Rightarrow> json \<Rightarrow> exc + int" where
  "py_int R j = (case j of JInt i \<Rightarrow> Inr i | JBool b \<Rightarrow> Inr (if b then 1 else 0) | JFloat q \<Rightarrow> Inr (trunc q)
     | JNan \<Rightarrow> Inl (ValueError []) | JInf n \<Rightarrow> Inl (OverflowError [])
     | JStr s \<Rightarrow> (case read_int R s of None \<Rightarrow> Inl (ValueError []) | Some i \<Rightarrow> Inr i)
     | _ \<Rightarrow> Inl (TypeError []))"

text \<open>The finite float a value converts to: an integer may be too large.\<close>

definition finite_float :: "platform \<Rightarrow> readers \<Rightarrow> json \<Rightarrow> json option" where
  "finite_float P R j = (case j of JFloat q \<Rightarrow> Some (JFloat q) | JNan \<Rightarrow> Some JNan | JInf n \<Rightarrow> Some (JInf n)
     | JInt i \<Rightarrow> (case json_float P (i < 0) (of_int \<bar>i\<bar>) of JFloat q \<Rightarrow> Some (JFloat q) | _ \<Rightarrow> None)
     | JStr s \<Rightarrow> read_float R s | _ \<Rightarrow> None)"

text \<open>The loop over the candidates for the speed: the first usable one; \<open>None\<close> when none is.\<close>

fun first_speed :: "platform \<Rightarrow> readers \<Rightarrow> json list \<Rightarrow> rat option" where
  "first_speed P R [] = None"
| "first_speed P R (j # js) =
    (if j = JNull \<or> as_bool j \<noteq> None then first_speed P R js
     else case finite_float P R j of
       Some (JFloat q) \<Rightarrow> if 0 \<le> q then Some q else first_speed P R js
     | _ \<Rightarrow> first_speed P R js)"

text \<open>\<open>json.loads(line).get("stats", {})\<close>; \<open>None\<close> where an exception ends the parse.\<close>

definition progress_stats :: "platform \<Rightarrow> ustr option \<Rightarrow> (ustr \<times> json) list option" where
  "progress_stats P line = do {
     text \<leftarrow> line; v \<leftarrow> loads P text; ms \<leftarrow> as_obj v;
     (case map_of ms (asc ''stats'') of None \<Rightarrow> Some [] | Some (JObj stats) \<Rightarrow> Some stats | Some _ \<Rightarrow> None) }"

text \<open>\<open>active[0] if active else stats\<close>: only a false value or a list with an object first leads on.\<close>

fun first_active :: "(ustr \<times> json) list \<Rightarrow> json \<Rightarrow> json option" where
  "first_active stats (JArr (JObj ms # js)) = Some (JObj ms)"
| "first_active stats (JArr []) = Some (JObj stats)"
| "first_active stats (JObj []) = Some (JObj stats)"
| "first_active stats JNull = Some (JObj stats)"
| "first_active stats (JBool False) = Some (JObj stats)"
| "first_active stats (JStr []) = Some (JObj stats)"
| "first_active stats (JInt i) = (if i = 0 then Some (JObj stats) else None)"
| "first_active stats (JFloat q) = (if q = 0 then Some (JObj stats) else None)"
| "first_active stats j = None"

text \<open>A malformed rate is refused; without any rate the caller derives one.\<close>

definition progress_speed :: "platform \<Rightarrow> readers \<Rightarrow> json list \<Rightarrow> int \<Rightarrow> (int \<times> rat option) option" where
  "progress_speed P R candidates n =
    (case first_speed P R candidates of Some q \<Rightarrow> Some (n, Some q)
     | None \<Rightarrow> if list_ex (\<lambda>c. c \<noteq> JNull) candidates then None else Some (n, None))"

definition progress_item :: "platform \<Rightarrow> readers \<Rightarrow> (ustr \<times> json) list \<Rightarrow> json \<Rightarrow> json \<Rightarrow> (int \<times> rat option) option" where
  "progress_item P R stats bytes item =
    (let raw = (case jfind item (asc ''bytes'') of None \<Rightarrow> bytes | Some b \<Rightarrow> b) in
     case (if as_bool raw \<noteq> None then Inl (TypeError []) else py_int R raw) of
       Inl e \<Rightarrow> None
     | Inr n \<Rightarrow> if n < 0 then None else progress_speed P R
         [jget item (asc ''speedAvg''), jget item (asc ''speed''), jget (JObj stats) (asc ''speed'')] n)"

definition parse_progress :: "platform \<Rightarrow> readers \<Rightarrow> ustr option \<Rightarrow> (int \<times> rat option) option" where
  "parse_progress P R line = do {
     stats \<leftarrow> progress_stats P line;
     bytes \<leftarrow> map_of stats (asc ''bytes'');
     item \<leftarrow> first_active stats (jget (JObj stats) (asc ''transferring''));
     progress_item P R stats bytes item }"

text \<open>
  \<open>_read_progress_tail\<close>: the tail for the error message, the bytes of the unfinished line, and
  what was reported. A line longer than the limit is dropped as far as it was read.
\<close>

record progress_reader =
  q_tail :: "nat list"
  q_pending :: "nat list"
  q_reports :: "(int \<times> rat option) list"

definition report_line :: "platform \<Rightarrow> readers \<Rightarrow> nat list \<Rightarrow> (int \<times> rat option) list" where
  "report_line P R line = (case parse_progress P R (line_text R line) of None \<Rightarrow> [] | Some r \<Rightarrow> [r])"

definition progress_feed :: "platform \<Rightarrow> readers \<Rightarrow> progress_reader \<Rightarrow> nat list \<Rightarrow> progress_reader" where
  "progress_feed P R s chunk =
    (let lines = split_on 10 (q_pending s @ chunk); pending = last lines in
     \<lparr>q_tail = tail_feed (q_tail s) chunk,
      q_pending = (if TAIL < length pending then [] else pending),
      q_reports = q_reports s @ concat (map (report_line P R) (butlast lines))\<rparr>)"

definition progress_read :: "platform \<Rightarrow> readers \<Rightarrow> nat list list \<Rightarrow> progress_reader" where
  "progress_read P R chunks =
    (let s = foldl (progress_feed P R) \<lparr>q_tail = [], q_pending = [], q_reports = []\<rparr> chunks in
     if q_pending s = [] then s else s\<lparr>q_reports := q_reports s @ report_line P R (q_pending s)\<rparr>)"

section \<open>The staging listing\<close>

record staging_listing =
  c_objects :: "(int \<times> ustr) list"
  c_checked :: nat
  c_found :: nat
  c_complete :: bool
  c_reason :: ustr

definition new_listing :: staging_listing where
  "new_listing = \<lparr>c_objects = [], c_checked = 0, c_found = 0, c_complete = True, c_reason = []\<rparr>"

datatype phase = Start | First | Item | Separator | Finished

text \<open>One element of the array; the exception leaves what was counted before it.\<close>

definition candidate :: "(ustr \<times> json) list \<Rightarrow> ustr \<Rightarrow> int option" where
  "candidate ms name = (case staging_match name of None \<Rightarrow> None
     | Some i \<Rightarrow> if map_of ms (asc ''IsDir'') \<noteq> Some (JBool True)
           \<and> (case map_of ms (asc ''Path'') of None \<Rightarrow> True | Some p \<Rightarrow> p = JStr name)
         then Some i else None)"

definition item_name :: "json \<Rightarrow> ((ustr \<times> json) list \<times> ustr) option" where
  "item_name v = (case v of JObj ms \<Rightarrow> (case map_of ms (asc ''Name'') of Some (JStr name) \<Rightarrow> Some (ms, name) | _ \<Rightarrow> None)
     | _ \<Rightarrow> None)"

definition MAX_CANDIDATES :: nat where
  "MAX_CANDIDATES = 20000"

definition MAX_ITEMS :: nat where
  "MAX_ITEMS = 1000000"

definition take_item :: "json \<Rightarrow> staging_listing \<Rightarrow> (exc + unit) \<times> staging_listing" where
  "take_item v c = (case item_name v of
     None \<Rightarrow> (Inl (ValueError (asc ''invalid item'')), c)
   | Some (ms, name) \<Rightarrow>
      (let c = c\<lparr>c_checked := Suc (c_checked c)\<rparr> in
       case candidate ms name of
         None \<Rightarrow> (if MAX_ITEMS < c_checked c then Inl (ValueError (asc ''listing limit'')) else Inr (), c)
       | Some i \<Rightarrow>
          (let c = c\<lparr>c_found := Suc (c_found c)\<rparr> in
           if MAX_CANDIDATES \<le> length (c_objects c) then (Inl (ValueError (asc ''candidate limit'')), c)
           else let c = c\<lparr>c_objects := c_objects c @ [(i, name)]\<rparr> in
             (if MAX_ITEMS < c_checked c then Inl (ValueError (asc ''listing limit'')) else Inr (), c))))"

definition lstrip_space :: "platform \<Rightarrow> ustr \<Rightarrow> ustr" where
  "lstrip_space P s = dropWhile (space_char P) s"

lemma lstrip_length: "lstrip_space P s = c # r \<Longrightarrow> length r < length s"
  using length_dropWhile_le[of "space_char P" s] by (simp add: lstrip_space_def)

lemma decode_length: "lstrip_space P s = c # r \<Longrightarrow> raw_decode P (c # r) = Some (v, t) \<Longrightarrow> length t < length s"
  using lstrip_length[of P s c r] raw_decode_length[of P "c # r" v t] by simp

text \<open>The inner loop: everything of the buffer that can be decided now.\<close>

function drain :: "platform \<Rightarrow> ustr \<Rightarrow> phase \<Rightarrow> staging_listing \<Rightarrow> (exc + ustr \<times> phase) \<times> staging_listing" where
  "drain P buffer phase c =
    (case lstrip_space P buffer of
       [] \<Rightarrow> (Inr ([], phase), c)
     | x # r \<Rightarrow> (case phase of
         Start \<Rightarrow> if x \<noteq> 91 then (Inl (ValueError (asc ''array required'')), c) else drain P r First c
       | Separator \<Rightarrow> if x = 44 then drain P r Item c else if x = 93 then drain P r Finished c
           else (Inl (ValueError (asc ''invalid separator'')), c)
       | Finished \<Rightarrow> (Inl (ValueError (asc ''trailing content'')), c)
       | _ \<Rightarrow> if phase = First \<and> x = 93 then drain P r Finished c
           else (case raw_decode P (x # r) of
               None \<Rightarrow> (Inr (x # r, phase), c)
             | Some (v, rest) \<Rightarrow> (case take_item v c of
                 (Inl e, c) \<Rightarrow> (Inl e, c)
               | (Inr u, c) \<Rightarrow> drain P rest Separator c))))"
  by pat_completeness auto
termination by (relation "measure (\<lambda>(P, buffer, phase, c). length buffer)")
    (auto dest: lstrip_length decode_length)

declare drain.simps [simp del]

text \<open>
  The reader: text, bytes that do not decode, or the time limit. At the end of the stream the array
  must be closed, the buffer empty and the exit code zero.
\<close>

datatype reader_event = Text ustr | BadText | Cut exc

definition MAX_BUFFER :: nat where
  "MAX_BUFFER = 1048576"

fun read_staging :: "platform \<Rightarrow> int \<Rightarrow> reader_event list \<Rightarrow> ustr \<Rightarrow> phase \<Rightarrow> staging_listing
    \<Rightarrow> (exc + unit) \<times> staging_listing" where
  "read_staging P code [] buffer phase c = (case drain P buffer phase c of
     (Inl e, c) \<Rightarrow> (Inl e, c)
   | (Inr (buffer, phase), c) \<Rightarrow>
      (if MAX_BUFFER < length buffer then Inl (ValueError (asc ''entry limit''))
       else if phase \<noteq> Finished \<or> lstrip_space P buffer \<noteq> [] \<or> code \<noteq> 0 then Inl (ValueError (asc ''incomplete listing''))
       else Inr (), c))"
| "read_staging P code (Text t # es) buffer phase c = (case drain P (buffer @ t) phase c of
     (Inl e, c) \<Rightarrow> (Inl e, c)
   | (Inr (buffer, phase), c) \<Rightarrow>
      (if MAX_BUFFER < length buffer then (Inl (ValueError (asc ''entry limit'')), c)
       else read_staging P code es buffer phase c))"
| "read_staging P code (BadText # es) buffer phase c = (Inl (ValueError []), c)"
| "read_staging P code (Cut e # es) buffer phase c = (Inl e, c)"

text \<open>
  \<open>list_staging_objects\<close>: \<open>code\<close> is the exit code, the events those of the 40 seconds. Only a
  TimeoutError or a ValueError makes the listing incomplete; anything else is raised.
\<close>

definition msg_scan_reason :: ustr where
  "msg_scan_reason = [25195, 25551, 36229, 26102, 12289, 36229, 36807, 36164, 28304, 19978, 38480, 25110,
      28165, 21333, 19981, 23436, 25972]"

definition list_staging_objects :: "platform \<Rightarrow> int \<Rightarrow> reader_event list \<Rightarrow> exc + staging_listing" where
  "list_staging_objects P code es = (case read_staging P code es [] Start new_listing of
     (Inr u, c) \<Rightarrow> Inr c
   | (Inl TimeoutError, c) \<Rightarrow> Inr (c\<lparr>c_complete := False, c_reason := msg_scan_reason\<rparr>)
   | (Inl (ValueError t), c) \<Rightarrow> Inr (c\<lparr>c_complete := False, c_reason := msg_scan_reason\<rparr>)
   | (Inl e, c) \<Rightarrow> Inl e)"

section \<open>Lemmas on the tails\<close>

lemma take_tail_append: "take_tail n (take_tail n xs @ ys) = take_tail n (xs @ ys)"
  by (cases "n \<le> length xs") (auto simp: take_tail_def add.commute)

lemma process_tail_is: "foldl tail_feed (take_tail TAIL xs) chunks = take_tail TAIL (xs @ concat chunks)"
  by (induction chunks arbitrary: xs) (simp_all add: tail_feed_def take_tail_append)

lemma process_tail: "process_tail chunks = take_tail TAIL (concat chunks)"
  using process_tail_is[of "[]"] by (simp add: process_tail_def take_tail_def)

lemma take_tail_length: "length (take_tail n xs) \<le> n"
  by (simp add: take_tail_def)

section \<open>Lemmas on progress lines\<close>

lemma split_on_append_full:
  "split_on d (xs @ ys) = butlast (split_on d xs) @ (last (split_on d xs) @ hd (split_on d ys)) # tl (split_on d ys)"
proof (induction xs)
  case (Cons c cs)
  obtain q qs where "split_on d cs = q # qs" by (cases "split_on d cs") auto
  with Cons show ?case by (cases qs) auto
qed simp

lemma last_line: "d \<notin> set (last (split_on d xs))"
  by (rule split_on_parts[of _ d xs]) simp

lemma split_on_extend:
  "split_on d (xs @ ys) = butlast (split_on d xs) @ split_on d (last (split_on d xs) @ ys)"
  using split_on_append_full[of d xs ys] split_on_append_full[of d "last (split_on d xs)" ys]
  by (simp add: split_on_no_sep[OF last_line])

definition short_lines :: "nat list \<Rightarrow> bool" where
  "short_lines xs \<longleftrightarrow> (\<forall>l \<in> set (split_on 10 xs). length l \<le> TAIL)"

lemma set_split_on: "set (split_on d xs) = insert (last (split_on d xs)) (set (butlast (split_on d xs)))"
proof -
  have "split_on d xs = butlast (split_on d xs) @ [last (split_on d xs)]" by simp
  then show ?thesis by (metis list.set(1) list.simps(15) set_append Un_insert_right sup_bot.right_neutral)
qed

lemma short_lines_prefix:
  assumes "short_lines (xs @ ys)"
  shows "short_lines xs"
proof -
  have "length (last (split_on 10 xs) @ hd (split_on 10 ys)) \<le> TAIL"
    and bl: "\<forall>l \<in> set (butlast (split_on 10 xs)). length l \<le> TAIL"
    using assms unfolding short_lines_def split_on_append_full[of 10 xs ys] by simp_all
  then have "length (last (split_on 10 xs)) \<le> TAIL" by simp
  with bl show ?thesis unfolding short_lines_def set_split_on[of 10 xs] by simp
qed

text \<open>One chunk: what was reported so far are the finished lines, and the last line is kept.\<close>

definition read_so_far :: "platform \<Rightarrow> readers \<Rightarrow> nat list \<Rightarrow> progress_reader \<Rightarrow> bool" where
  "read_so_far P R xs s \<longleftrightarrow> q_tail s = take_tail TAIL xs \<and> q_pending s = last (split_on 10 xs)
     \<and> q_reports s = concat (map (report_line P R) (butlast (split_on 10 xs)))"

lemma progress_feed_so_far:
  assumes "read_so_far P R xs s" "short_lines (xs @ chunk)"
  shows "read_so_far P R (xs @ chunk) (progress_feed P R s chunk)"
proof -
  let ?l = "last (split_on 10 xs)"
  have lines: "split_on 10 (xs @ chunk) = butlast (split_on 10 xs) @ split_on 10 (?l @ chunk)" by (rule split_on_extend)
  have "length (last (split_on 10 (xs @ chunk))) \<le> TAIL"
    using assms(2) unfolding short_lines_def by simp
  then show ?thesis using assms(1)
    by (simp add: read_so_far_def progress_feed_def Let_def lines butlast_append tail_feed_def take_tail_append)
qed

lemma progress_chunks:
  assumes "read_so_far P R xs s" "short_lines (xs @ concat chunks)"
  shows "read_so_far P R (xs @ concat chunks) (foldl (progress_feed P R) s chunks)"
  using assms
proof (induction chunks arbitrary: xs s)
  case (Cons chunk chunks)
  have "short_lines (xs @ chunk)" using Cons.prems(2) short_lines_prefix[of "xs @ chunk" "concat chunks"] by simp
  from progress_feed_so_far[OF Cons.prems(1) this] Cons.IH[of "xs @ chunk"] Cons.prems(2) show ?case by simp
qed simp

lemma progress_bounds:
  "length (q_tail (foldl (progress_feed P R) s chunks)) \<le> max TAIL (length (q_tail s))
   \<and> length (q_pending (foldl (progress_feed P R) s chunks)) \<le> max TAIL (length (q_pending s))"
proof (induction chunks arbitrary: s)
  case (Cons chunk chunks)
  have "length (q_tail (progress_feed P R s chunk)) \<le> TAIL" "length (q_pending (progress_feed P R s chunk)) \<le> TAIL"
    by (simp_all add: progress_feed_def Let_def tail_feed_def take_tail_length)
  then show ?case using Cons[of "progress_feed P R s chunk"] by (simp add: le_max_iff_disj)
qed simp

text \<open>
  Progress does not depend on how the error stream is cut into chunks: as long as no line is
  longer than the limit, the reports are those of the lines of the whole stream, in order, a last
  unfinished line included. Whatever the lines are, at most 64 KiB of them and of the tail are kept.
\<close>

theorem progress_lines:
  "length (q_tail (progress_read P R chunks)) \<le> TAIL
   \<and> length (q_pending (progress_read P R chunks)) \<le> TAIL
   \<and> (short_lines (concat chunks) \<longrightarrow>
       (let lines = split_on 10 (concat chunks) in
        q_tail (progress_read P R chunks) = take_tail TAIL (concat chunks)
        \<and> q_reports (progress_read P R chunks) = concat (map (report_line P R) (butlast lines))
           @ (if last lines = [] then [] else report_line P R (last lines))))"
proof -
  let ?new = "\<lparr>q_tail = [], q_pending = [], q_reports = []\<rparr>" and ?s = "progress_read P R chunks"
  have new: "read_so_far P R [] ?new" by (simp add: read_so_far_def take_tail_def)
  have "length (q_tail ?s) \<le> TAIL" "length (q_pending ?s) \<le> TAIL"
    using progress_bounds[of P R ?new chunks] by (simp_all add: progress_read_def Let_def)
  moreover have "short_lines (concat chunks) \<Longrightarrow> read_so_far P R (concat chunks) (foldl (progress_feed P R) ?new chunks)"
    using progress_chunks[OF new, of chunks] by simp
  ultimately show ?thesis
    by (auto simp: Let_def progress_read_def read_so_far_def)
qed

definition ex_readers :: readers where
  "ex_readers = \<lparr>read_int = (\<lambda>s. None), read_float = (\<lambda>s. None), line_text = Some\<rparr>"

definition ex_line :: "nat list" where
  "ex_line = asc ''{\"stats\":{\"bytes\":5}}''"

theorem progress_lines_witness:
  "q_reports (progress_read ascii_platform ex_readers [take 9 ex_line, drop 9 ex_line @ [10]]) = [(5, None)]"
proof -
  let ?cs = "[take 9 ex_line, drop 9 ex_line @ [10]]"
  let ?v = "JObj [(asc ''stats'', JObj [(asc ''bytes'', JInt 5)])]"
  have "loads ascii_platform ex_line = Some ?v" by (simp add: scan_eval ex_line_def)
  then have one: "report_line ascii_platform ex_readers ex_line = [(5, None)]"
    by (simp add: report_line_def parse_progress_def progress_stats_def progress_item_def progress_speed_def
        ex_readers_def jget_def jfind_def asc_def py_int_def Let_def)
  have cut: "concat ?cs = ex_line @ [10]" by simp
  have lines: "split_on 10 (concat ?cs) = [ex_line, []]"
    unfolding cut by (simp add: ex_line_def asc_def)
  then have "short_lines (concat ?cs)" unfolding short_lines_def by (simp add: ex_line_def asc_def TAIL_def)
  then show ?thesis
    using progress_lines[of ascii_platform ex_readers ?cs] unfolding lines Let_def by (simp add: one)
qed

section \<open>Lemmas on the listing\<close>

text \<open>
  The text of an array as the reader accepts it: white space of any kind between the tokens, the
  elements read one by one. \<open>rest_text\<close> is what may follow in each phase.
\<close>

inductive rest_text :: "platform \<Rightarrow> phase \<Rightarrow> ustr \<Rightarrow> json list \<Rightarrow> bool" for P where
  rest_start: "lstrip_space P s = 91 # r \<Longrightarrow> rest_text P First r vs \<Longrightarrow> rest_text P Start s vs"
| rest_empty: "lstrip_space P s = 93 # r \<Longrightarrow> rest_text P Finished r vs \<Longrightarrow> rest_text P First s vs"
| rest_first: "rest_text P Item s vs \<Longrightarrow> rest_text P First s vs"
| rest_item: "lstrip_space P s \<noteq> [] \<Longrightarrow> raw_decode P (lstrip_space P s) = Some (v, t) \<Longrightarrow> rest_text P Separator t vs
    \<Longrightarrow> rest_text P Item s (v # vs)"
| rest_comma: "lstrip_space P s = 44 # r \<Longrightarrow> rest_text P Item r vs \<Longrightarrow> rest_text P Separator s vs"
| rest_close: "lstrip_space P s = 93 # r \<Longrightarrow> rest_text P Finished r vs \<Longrightarrow> rest_text P Separator s vs"
| rest_end: "lstrip_space P s = [] \<Longrightarrow> rest_text P Finished s []"

inductive_cases rest_startE: "rest_text P Start s vs"
inductive_cases rest_firstE: "rest_text P First s vs"
inductive_cases rest_itemE: "rest_text P Item s vs"
inductive_cases rest_separatorE: "rest_text P Separator s vs"
inductive_cases rest_finishedE: "rest_text P Finished s vs"

definition array_text :: "platform \<Rightarrow> ustr \<Rightarrow> json list \<Rightarrow> bool" where
  "array_text P s vs \<longleftrightarrow> rest_text P Start s vs"

definition candidates_of :: "json list \<Rightarrow> (int \<times> ustr) list" where
  "candidates_of vs = concat (map (\<lambda>v. case item_name v of None \<Rightarrow> []
     | Some (ms, name) \<Rightarrow> (case candidate ms name of None \<Rightarrow> [] | Some i \<Rightarrow> [(i, name)])) vs)"

definition counted :: "json list \<Rightarrow> staging_listing \<Rightarrow> staging_listing" where
  "counted vs c = c\<lparr>c_objects := c_objects c @ candidates_of vs, c_checked := c_checked c + length vs,
     c_found := c_found c + length (candidates_of vs)\<rparr>"

lemma counted_simps [simp]: "counted [] c = c" "counted vs (counted ws c) = counted (ws @ vs) c"
  by (simp_all add: counted_def candidates_of_def)

lemma take_item_ok:
  "take_item v c = (Inr (), c') \<longleftrightarrow> item_name v \<noteq> None \<and> c' = counted [v] c
     \<and> c_checked c < MAX_ITEMS \<and> (candidates_of [v] \<noteq> [] \<longrightarrow> length (c_objects c) < MAX_CANDIDATES)"
  by (cases c) (auto simp: take_item_def counted_def candidates_of_def Let_def split: option.splits)

lemma item_name_container: "item_name v \<noteq> None \<Longrightarrow> \<not> is_number v"
  by (cases v) (simp_all add: item_name_def is_number_def)

lemma lstrip_more:
  assumes "lstrip_space P s = c # r"
  shows "lstrip_space P (s @ t) = c # r @ t"
proof -
  let ?w = "takeWhile (space_char P) s"
  from assms have s: "s = ?w @ c # r" and c: "\<not> space_char P c"
    unfolding lstrip_space_def dropWhile_eq_Cons_conv by auto
  have "\<forall>x \<in> set ?w. space_char P x" by (meson set_takeWhileD)
  then have "lstrip_space P (?w @ c # r @ t) = c # r @ t"
    using c by (simp add: lstrip_space_def dropWhile_append2)
  then show ?thesis using s by (metis append.assoc append_Cons)
qed

lemma lstrip_blank: "lstrip_space P s = [] \<Longrightarrow> lstrip_space P (s @ t) = lstrip_space P t"
  by (simp add: lstrip_space_def dropWhile_append)

lemma lstrip_idem: "lstrip_space P (lstrip_space P s) = lstrip_space P s"
  by (simp add: lstrip_space_def)

lemma lstrip_id: "lstrip_space P s = c # r \<Longrightarrow> lstrip_space P (c # t) = c # t"
  using dropWhile_eq_Cons_conv[of "space_char P" s c r] by (simp add: lstrip_space_def)

lemma rest_text_lstrip: "rest_text P ph s vs \<Longrightarrow> lstrip_space P s = lstrip_space P s' \<Longrightarrow> rest_text P ph s' vs"
  by (induction arbitrary: s' rule: rest_text.induct) (auto intro: rest_text.intros)

text \<open>Draining the buffer reads a part of the array, whatever text follows.\<close>

definition named :: "json list \<Rightarrow> bool" where
  "named vs \<longleftrightarrow> list_all (\<lambda>v. item_name v \<noteq> None) vs"

lemma drain_item:
  assumes "drain P b ph c = (Inr (b', ph'), c')" "ph = Item \<or> ph = First" "lstrip_space P b = x # r" "ph = First \<longrightarrow> x \<noteq> 93"
  shows "(raw_decode P (x # r) = None \<and> b' = x # r \<and> ph' = ph \<and> c' = c)
    \<or> (\<exists>v t. raw_decode P (x # r) = Some (v, t) \<and> take_item v c = (Inr (), counted [v] c) \<and> item_name v \<noteq> None
        \<and> drain P t Separator (counted [v] c) = (Inr (b', ph'), c'))"
proof (cases "raw_decode P (x # r)")
  case None
  with assms show ?thesis by (auto simp: drain.simps[of P b])
next
  case (Some a)
  then obtain v t where vt: "raw_decode P (x # r) = Some (v, t)" by (cases a) auto
  obtain res d where res: "take_item v c = (res, d)" by (cases "take_item v c")
  from assms vt res obtain u where "res = Inr u" and dr: "drain P t Separator d = (Inr (b', ph'), c')"
    by (cases res) (auto simp: drain.simps[of P b])
  then have t: "take_item v c = (Inr (), d)" using res by simp
  with take_item_ok[of v c d] have "d = counted [v] c" "item_name v \<noteq> None" by auto
  with t dr vt show ?thesis by auto
qed

lemma drain_sound:
  assumes "drain P b ph c = (Inr (b', ph'), c')" "rest_text P ph' (b' @ later) vs'"
  shows "\<exists>vs. rest_text P ph (b @ later) (vs @ vs') \<and> c' = counted vs c \<and> named vs"
  using assms
proof (induction "length b" arbitrary: b ph c rule: less_induct)
  case less
  show ?case
  proof (cases "lstrip_space P b")
    case Nil
    with less.prems have "b' = []" "ph' = ph" "c' = c" by (auto simp: drain.simps[of P b])
    with less.prems(2) show ?thesis
      using rest_text_lstrip[of P ph later vs' "b @ later"] lstrip_blank[OF Nil, of later]
      by (intro exI[of _ "[]"]) (simp add: named_def)
  next
    case (Cons x r)
    note lmore = lstrip_more[OF Cons, of later] and len = lstrip_length[OF Cons]
    have item: "\<exists>vs. rest_text P Item (b @ later) (vs @ vs') \<and> c' = counted vs c \<and> named vs
        \<or> (ph' = ph \<and> b' = x # r \<and> c' = c)" if ph: "ph = Item \<or> ph = First" "ph = First \<longrightarrow> x \<noteq> 93"
      using drain_item[OF less.prems(1) ph(1) Cons ph(2)]
    proof
      assume "\<exists>v t. raw_decode P (x # r) = Some (v, t) \<and> take_item v c = (Inr (), counted [v] c) \<and> item_name v \<noteq> None
        \<and> drain P t Separator (counted [v] c) = (Inr (b', ph'), c')"
      then obtain v t where vt: "raw_decode P (x # r) = Some (v, t)" "item_name v \<noteq> None"
        and dr: "drain P t Separator (counted [v] c) = (Inr (b', ph'), c')" by blast
      from less.hyps[OF decode_length[OF Cons vt(1)] dr less.prems(2)] obtain vs where
        vs: "rest_text P Separator (t @ later) (vs @ vs')" "c' = counted vs (counted [v] c)" "named vs" by blast
      have "raw_decode P (x # r @ later) = Some (v, t @ later)"
        using raw_decode_extend[OF vt(1) item_name_container[OF vt(2)], of later] by simp
      with vs lmore have "rest_text P Item (b @ later) (v # vs @ vs')" by (intro rest_item) simp_all
      with vs vt(2) show ?thesis by (intro exI[of _ "v # vs"]) (simp add: named_def)
    qed simp
    show ?thesis
    proof (cases ph)
      case Start
      with less.prems(1) Cons have "x = 91" "drain P r First c = (Inr (b', ph'), c')"
        by (auto simp: drain.simps[of P b] split: if_splits)
      with less.hyps[OF len _ less.prems(2)] lmore Start show ?thesis by (fastforce intro: rest_start)
    next
      case First
      show ?thesis
      proof (cases "x = 93")
        case True
        with First less.prems(1) Cons have "drain P r Finished c = (Inr (b', ph'), c')" by (simp add: drain.simps[of P b])
        with less.hyps[OF len _ less.prems(2)] lmore First True show ?thesis by (fastforce intro: rest_empty)
      next
        case False
        with item First less.prems(2) rest_text_lstrip[of P First "x # r @ later" vs' "b @ later"]
        show ?thesis by (auto intro: rest_first exI[of _ "[]"] simp: lmore lstrip_id[OF Cons] named_def)
      qed
    next
      case Item
      with item less.prems(2) rest_text_lstrip[of P Item "x # r @ later" vs' "b @ later"]
      show ?thesis by (auto intro: exI[of _ "[]"] simp: lmore lstrip_id[OF Cons] named_def)
    next
      case Separator
      with less.prems(1) Cons consider "x = 44" "drain P r Item c = (Inr (b', ph'), c')"
        | "x = 93" "drain P r Finished c = (Inr (b', ph'), c')"
        by (auto simp: drain.simps[of P b] split: if_splits)
      then show ?thesis
        using less.hyps[OF len _ less.prems(2)] lmore Separator by cases (fastforce intro: rest_comma rest_close)+
    next
      case Finished
      with less.prems(1) Cons show ?thesis by (simp add: drain.simps[of P b])
    qed
  qed
qed

lemma read_staging_sound:
  assumes "read_staging P code es b ph c = (Inr (), c')"
  shows "\<exists>texts vs. es = map Text texts \<and> rest_text P ph (b @ concat texts) vs \<and> c' = counted vs c \<and> named vs
    \<and> code = 0"
  using assms
proof (induction es arbitrary: b ph c)
  case Nil
  then obtain b' ph' where d: "drain P b ph c = (Inr (b', ph'), c')" and ok: "ph' = Finished" "lstrip_space P b' = []" "code = 0"
    by (auto split: prod.splits sum.splits if_splits)
  have "rest_text P ph' (b' @ []) []" using ok by (auto intro: rest_end)
  from drain_sound[OF d this] obtain vs where "rest_text P ph b vs" "c' = counted vs c" "named vs" by auto
  with ok show ?case by (intro exI[of _ "[] :: ustr list"] exI[of _ vs]) simp
next
  case (Cons e es)
  then obtain t where e: "e = Text t" by (cases e) auto
  from Cons.prems e obtain b' ph' d where d: "drain P (b @ t) ph c = (Inr (b', ph'), d)"
    and go: "read_staging P code es b' ph' d = (Inr (), c')"
    by (auto split: prod.splits sum.splits if_splits)
  from Cons.IH[OF go] obtain texts vs where tv: "es = map Text texts" "rest_text P ph' (b' @ concat texts) vs"
    "c' = counted vs d" "named vs" "code = 0" by blast
  from drain_sound[OF d tv(2)] obtain ws where
    "rest_text P ph ((b @ t) @ concat texts) (ws @ vs)" "d = counted ws c" "named ws" by blast
  with tv e show ?case by (intro exI[of _ "t # texts"] exI[of _ "ws @ vs"]) (auto simp: named_def)
qed

text \<open>An object is read from an opening brace only, and nothing is read from a closing bracket.\<close>

lemma scan_word_kind: "scan_word s = Some (v, r) \<Longrightarrow> v = JNull \<or> (\<exists>b. v = JBool b) \<or> v = JNan \<or> (\<exists>b. v = JInf b)"
  by (auto simp: scan_word_def split: option.splits)

lemma raw_decode_object: "raw_decode P (x # s) = Some (JObj ms, t) \<Longrightarrow> x = 123"
  using scan_word_kind[of "x # s" "JObj ms" t] scan_number_prefix[of P "x # s" "JObj ms" t]
  by (auto simp: raw_decode_def scan_atom_def is_number_def split: if_splits bind_splits option.splits)

lemma raw_decode_brace: "raw_decode P (123 # s) = Some (v, t) \<Longrightarrow> \<exists>ms. v = JObj ms"
  by (auto simp: raw_decode_def split: bind_splits option.splits)

lemma raw_decode_bracket: "raw_decode P (93 # s) = None"
  by (simp add: raw_decode_def scan_atom_def scan_word_def eat_word_def asc_def scan_number_def int_part_def is_digit_def)

lemma item_name_object: "item_name v \<noteq> None \<Longrightarrow> \<exists>ms. v = JObj ms"
  by (cases v) (simp_all add: item_name_def)

text \<open>Where draining stops: the buffer is used up, or its first element is not complete.\<close>

definition waits :: "platform \<Rightarrow> ustr \<Rightarrow> phase \<Rightarrow> bool" where
  "waits P b ph \<longleftrightarrow> b = [] \<or> ((ph = Item \<or> ph = First \<and> hd b \<noteq> 93) \<and> lstrip_space P b = b \<and> raw_decode P b = None)"

lemma waits_end:
  assumes "waits P b ph" "rest_text P ph b vs"
  shows "ph = Finished \<and> lstrip_space P b = [] \<and> vs = []"
proof -
  have "\<not> rest_text P Item b vs" if "b = [] \<or> raw_decode P b = None \<and> lstrip_space P b = b"
    using that by (auto elim: rest_itemE simp: lstrip_space_def)
  with assms show ?thesis
    by (cases ph; auto simp: waits_def lstrip_space_def
        elim: rest_startE rest_firstE rest_itemE rest_separatorE rest_finishedE)
qed

definition fits :: "json list \<Rightarrow> staging_listing \<Rightarrow> bool" where
  "fits vs c \<longleftrightarrow> named vs \<and> c_checked c + length vs \<le> MAX_ITEMS
     \<and> length (c_objects c) + length (candidates_of vs) \<le> MAX_CANDIDATES"

lemma fits_Cons: "fits (v # vs) c \<longleftrightarrow> take_item v c = (Inr (), counted [v] c) \<and> fits vs (counted [v] c)"
  by (auto simp: fits_def take_item_ok named_def counted_def candidates_of_def split: option.splits)

text \<open>\<open>drains P b ph c later vs\<close>: draining succeeds, and the rest of the array is still to come.\<close>

definition drains :: "platform \<Rightarrow> ustr \<Rightarrow> phase \<Rightarrow> staging_listing \<Rightarrow> ustr \<Rightarrow> json list \<Rightarrow> bool" where
  "drains P b ph c later vs \<longleftrightarrow> (\<exists>b' ph' ws vs'. drain P b ph c = (Inr (b', ph'), counted ws c) \<and> vs = ws @ vs'
     \<and> rest_text P ph' (b' @ later) vs' \<and> length b' \<le> length b \<and> waits P b' ph')"

lemma drains_step:
  assumes "drain P b ph c = drain P t ph1 c" "drains P t ph1 c later vs" "length t < length b"
  shows "drains P b ph c later vs"
  using assms unfolding drains_def by fastforce

lemma drains_item:
  assumes b: "lstrip_space P b = x # r" and ph: "ph = Item \<or> ph = First \<and> x \<noteq> 93"
    and rest: "rest_text P Item (b @ later) vs" and lim: "fits vs c"
    and IH: "\<And>t vs v. length t < length b \<Longrightarrow> rest_text P Separator (t @ later) vs \<Longrightarrow> fits vs (counted [v] c)
      \<Longrightarrow> drains P t Separator (counted [v] c) later vs"
  shows "drains P b ph c later vs"
proof -
  from rest lstrip_more[OF b, of later] obtain v t ws where
    v: "raw_decode P (x # r @ later) = Some (v, t)" "rest_text P Separator t ws" "vs = v # ws" by (auto elim: rest_itemE)
  from lim v(3) have take: "take_item v c = (Inr (), counted [v] c)" "fits ws (counted [v] c)" by (simp_all add: fits_Cons)
  then have "item_name v \<noteq> None" by (simp add: take_item_ok)
  from item_name_object[OF this] v(1) have x: "x = 123" by (auto dest: raw_decode_object)
  show ?thesis
  proof (cases "raw_decode P (x # r)")
    case None
    with b ph have "drain P b ph c = (Inr (x # r, ph), counted [] c)" by (auto simp: drain.simps[of P b])
    moreover have "rest_text P ph ((x # r) @ later) vs"
      using rest_text_lstrip[OF rest, of "x # r @ later"] lstrip_more[OF b, of later] lstrip_id[OF b] ph
      by (auto intro: rest_first)
    moreover have "waits P (x # r) ph" using ph None lstrip_id[OF b] by (auto simp: waits_def)
    ultimately show ?thesis using lstrip_length[OF b] unfolding drains_def
      by (intro exI[of _ "x # r"] exI[of _ ph] exI[of _ "[]"] exI[of _ vs]) simp
  next
    case (Some a)
    then obtain v' t' where d: "raw_decode P (x # r) = Some (v', t')" by (cases a) auto
    with x have "\<not> is_number v'" by (auto simp: is_number_def dest: raw_decode_brace)
    from raw_decode_extend[OF d this, of later] v(1) have eq: "v' = v" "t = t' @ later" by auto
    have len: "length t' < length b" using decode_length[OF b d] .
    from d eq ph b take(1) have step: "drain P b ph c = drain P t' Separator (counted [v] c)"
      by (auto simp: drain.simps[of P b])
    from IH[OF len _ take(2)] v(2) eq have "drains P t' Separator (counted [v] c) later ws" by simp
    with step len v(3) show ?thesis unfolding drains_def by fastforce
  qed
qed

lemma drain_complete:
  assumes "rest_text P ph (b @ later) vs" "fits vs c"
  shows "drains P b ph c later vs"
  using assms
proof (induction "length b" arbitrary: b ph c vs rule: less_induct)
  case less
  show ?case
  proof (cases "lstrip_space P b")
    case Nil
    have "rest_text P ph ([] @ later) vs"
      using rest_text_lstrip[OF less.prems(1), of later] lstrip_blank[OF Nil, of later] by simp
    with Nil show ?thesis unfolding drains_def
      by (intro exI[of _ "[]"] exI[of _ ph] exI[of _ vs]) (simp add: drain.simps[of P b] waits_def)
  next
    case (Cons x r)
    note lmore = lstrip_more[OF Cons, of later] and len = lstrip_length[OF Cons]
    have item: "drains P b ph c later vs" if "rest_text P Item (b @ later) vs" "ph = Item \<or> ph = First \<and> x \<noteq> 93"
      using drains_item[OF Cons that(2,1) less.prems(2)] less.hyps by blast
    show ?thesis
    proof (cases ph)
      case Start
      with less.prems(1) lmore have 1: "x = 91" "rest_text P First (r @ later) vs" by (auto elim: rest_startE)
      from 1 Start Cons have "drain P b ph c = drain P r First c" by (simp add: drain.simps[of P b])
      from drains_step[OF this less.hyps[OF len _ less.prems(2)] len] 1(2) show ?thesis by blast
    next
      case First
      have "x \<noteq> 93" if "rest_text P Item (b @ later) vs"
        using that lmore by (auto elim: rest_itemE simp: raw_decode_bracket)
      with less.prems(1) First lmore consider "x = 93" "rest_text P Finished (r @ later) vs"
        | "rest_text P Item (b @ later) vs" "x \<noteq> 93"
        by (auto elim!: rest_firstE)
      then show ?thesis
      proof cases
        case 1
        with 1 First Cons have "drain P b ph c = drain P r Finished c" by (simp add: drain.simps[of P b])
        from drains_step[OF this less.hyps[OF len _ less.prems(2)] len] 1(2) show ?thesis by blast
      qed (use item First in blast)
    next
      case Item
      with less.prems(1) item show ?thesis by blast
    next
      case Separator
      with less.prems(1) lmore consider "x = 44" "rest_text P Item (r @ later) vs"
        | "x = 93" "rest_text P Finished (r @ later) vs" by (auto elim: rest_separatorE)
      then show ?thesis
      proof cases
        case 1
        with 1 Separator Cons have "drain P b ph c = drain P r Item c" by (simp add: drain.simps[of P b])
        from drains_step[OF this less.hyps[OF len _ less.prems(2)] len] 1(2) show ?thesis by blast
      next
        case 2
        with 2 Separator Cons have "drain P b ph c = drain P r Finished c" by (simp add: drain.simps[of P b])
        from drains_step[OF this less.hyps[OF len _ less.prems(2)] len] 2(2) show ?thesis by blast
      qed
    next
      case Finished
      with less.prems(1) lmore show ?thesis by (auto elim: rest_finishedE)
    qed
  qed
qed

lemma fits_append: "fits (ws @ vs) c \<Longrightarrow> fits vs (counted ws c)"
  by (auto simp: fits_def counted_def candidates_of_def named_def)

lemma read_staging_complete:
  assumes "rest_text P ph (b @ concat texts) vs" "fits vs c" "length (b @ concat texts) \<le> MAX_BUFFER"
  shows "read_staging P 0 (map Text texts) b ph c = (Inr (), counted vs c)"
  using assms
proof (induction texts arbitrary: b ph c vs)
  case Nil
  then have "drains P b ph c [] vs" by (intro drain_complete) simp_all
  then obtain b' ph' ws vs' where d: "drain P b ph c = (Inr (b', ph'), counted ws c)" "vs = ws @ vs'"
    and r: "rest_text P ph' b' vs'" and len: "length b' \<le> length b" and w: "waits P b' ph'"
    by (auto simp: drains_def)
  from waits_end[OF w r] d len Nil(3) show ?case by simp
next
  case (Cons t texts)
  then have "drains P (b @ t) ph c (concat texts) vs" by (intro drain_complete) simp_all
  then obtain b' ph' ws vs' where d: "drain P (b @ t) ph c = (Inr (b', ph'), counted ws c)" "vs = ws @ vs'"
    and r: "rest_text P ph' (b' @ concat texts) vs'" and len: "length b' \<le> length (b @ t)"
    unfolding drains_def by blast
  have "fits vs' (counted ws c)" using Cons.prems(2) d(2) by (simp add: fits_append)
  from Cons.IH[OF r this] len Cons.prems(3) d show ?case by simp
qed

text \<open>
  C17. A staging listing counts as complete only when the whole output is one JSON array, the exit
  code is zero, and the recorded objects are exactly the staging names among its elements; and a
  well-formed listing within the limits is read in full, with the same result however the
  output is cut into chunks.
\<close>

theorem listing_exact:
  "(list_staging_objects P code es = Inr c \<and> c_complete c \<longrightarrow>
     (\<exists>texts vs. es = map Text texts \<and> code = 0 \<and> array_text P (concat texts) vs \<and> named vs
        \<and> c_objects c = candidates_of vs \<and> c_checked c = length vs \<and> c_found c = length (c_objects c)))
   \<and> (array_text P (concat texts) vs \<and> fits vs new_listing \<and> length (concat texts) \<le> MAX_BUFFER \<longrightarrow>
       list_staging_objects P 0 (map Text texts) = Inr (counted vs new_listing))"
proof (intro conjI impI)
  assume a: "list_staging_objects P code es = Inr c \<and> c_complete c"
  then have "read_staging P code es [] Start new_listing = (Inr (), c)"
    by (auto simp: list_staging_objects_def split: prod.splits sum.splits exc.splits)
  from read_staging_sound[OF this] obtain texts vs where
    "es = map Text texts" "rest_text P Start (concat texts) vs" "c = counted vs new_listing" "named vs" "code = 0" by auto
  then show "\<exists>texts vs. es = map Text texts \<and> code = 0 \<and> array_text P (concat texts) vs \<and> named vs
        \<and> c_objects c = candidates_of vs \<and> c_checked c = length vs \<and> c_found c = length (c_objects c)"
    by (auto simp: array_text_def counted_def new_listing_def)
next
  assume a: "array_text P (concat texts) vs \<and> fits vs new_listing \<and> length (concat texts) \<le> MAX_BUFFER"
  then have "read_staging P 0 (map Text texts) [] Start new_listing = (Inr (), counted vs new_listing)"
    by (intro read_staging_complete) (simp_all add: array_text_def)
  then show "list_staging_objects P 0 (map Text texts) = Inr (counted vs new_listing)"
    by (simp add: list_staging_objects_def)
qed

definition ex_item :: ustr where
  "ex_item = asc ''{\"Name\":\".uploading-7-a\"}''"

lemma ex_item_text:
  "raw_decode ascii_platform (ex_item @ s) = Some (JObj [(asc ''Name'', JStr (asc ''.uploading-7-a''))], s)"
proof -
  have "raw_decode ascii_platform ex_item = Some (JObj [(asc ''Name'', JStr (asc ''.uploading-7-a''))], [])"
    by code_simp
  from raw_decode_extend[OF this, of s] show ?thesis by (simp add: is_number_def)
qed

theorem listing_exact_witness:
  "list_staging_objects ascii_platform 0 [Text [91], Text (take 3 ex_item), Text (drop 3 ex_item @ [93])]
    = Inr (new_listing\<lparr>c_objects := [(7, asc ''.uploading-7-a'')], c_checked := 1, c_found := 1\<rparr>)"
proof -
  let ?v = "JObj [(asc ''Name'', JStr (asc ''.uploading-7-a''))]" and ?texts = "[[91], take 3 ex_item, drop 3 ex_item @ [93]]"
  have strip: "lstrip_space ascii_platform (c # s) = c # s" if "32 < c" for c s
    using that by (simp add: lstrip_space_def ascii_platform_def)
  have name: "candidates_of [?v] = [(7, asc ''.uploading-7-a'')]" by code_simp
  obtain s where brace: "ex_item = 123 # s" by (simp add: ex_item_def asc_def)
  have "array_text ascii_platform (91 # ex_item @ [93]) [?v]" unfolding array_text_def
  proof (rule rest_start[OF strip], simp, rule rest_first)
    have l: "lstrip_space ascii_platform (ex_item @ [93]) = ex_item @ [93]" unfolding brace by (simp add: strip)
    show "rest_text ascii_platform Item (ex_item @ [93]) [?v]"
      by (rule rest_item[OF _ _ rest_close[OF strip rest_end]])
        (simp_all add: l ex_item_text, simp_all add: lstrip_space_def brace)
  qed
  moreover have "fits [?v] new_listing" using name
    by (simp add: fits_def named_def item_name_def asc_def new_listing_def MAX_ITEMS_def MAX_CANDIDATES_def)
  moreover have "length (91 # ex_item @ [93]) \<le> MAX_BUFFER" by (simp add: ex_item_def asc_def MAX_BUFFER_def)
  moreover have "concat ?texts = 91 # ex_item @ [93]" by simp
  ultimately have "list_staging_objects ascii_platform 0 (map Text ?texts) = Inr (counted [?v] new_listing)"
    using listing_exact[THEN conjunct2, of ascii_platform ?texts "[?v]"] by presburger
  then show ?thesis using name by (simp add: counted_def new_listing_def)
qed

end
