(* ===== verification/Rclone.thy ===== *)
theory Rclone
  imports Listing Windows
begin

text \<open>
  \<open>src/tg2cloud/storage/rclone.py\<close>: the client of the remote storage. Every operation starts
  \<open>rclone\<close> processes; what a process does is the environment: for the number of the call and its
  arguments it gives the exit code and the two outputs, the end of the time limit, or an
  exception (a cancellation, a missing program). The theorems hold for every environment.

  The state is the list of calls made, whether the configuration file has been written, and
  the content of that file, which others may change while a process runs (\<open>r_edit\<close>). The
  configuration parser of the standard library is \<open>r_ini\<close> and \<open>r_ini_text\<close>.
\<close>

section \<open>Environment, state and control\<close>

datatype process = Exited int ustr ustr | TimedOut | Failed exc

type_synonym ini = "(ustr \<times> (ustr \<times> ustr) list) list"

record rclone =
  r_P :: platform
  r_readers :: readers
  r_openlist :: bool
  r_name :: ustr
  r_label :: ustr
  r_target :: ustr
  r_url :: ustr
  r_user :: ustr
  r_password :: ustr
  r_run :: "nat \<Rightarrow> ustr list \<Rightarrow> process"
  r_cancel :: "nat \<Rightarrow> bool"
  r_edit :: "nat \<Rightarrow> ustr option \<Rightarrow> ustr option"
  r_private :: "nat \<Rightarrow> exc + unit"
  r_write :: "nat \<Rightarrow> exc + unit"
  r_ini :: "ustr \<Rightarrow> ini option"
  r_ini_text :: "ini \<Rightarrow> ustr"
  r_repr :: "ustr \<Rightarrow> ustr"
  r_str :: "json \<Rightarrow> ustr"

datatype call = Command "ustr list" | Pause nat

record rstate =
  rs_calls :: "call list"
  rs_ready :: bool
  rs_file :: "ustr option"

type_synonym 'a rc = "rstate \<Rightarrow> (exc + 'a) \<times> rstate"

definition returnR :: "'a \<Rightarrow> 'a rc" where
  "returnR a s = (Inr a, s)"

definition raiseR :: "exc \<Rightarrow> 'a rc" where
  "raiseR e s = (Inl e, s)"

definition bindR :: "'a rc \<Rightarrow> ('a \<Rightarrow> 'b rc) \<Rightarrow> 'b rc" where
  "bindR m f s = (case m s of (Inl e, s') \<Rightarrow> (Inl e, s') | (Inr a, s') \<Rightarrow> f a s')"

definition thenR :: "'a rc \<Rightarrow> 'b rc \<Rightarrow> 'b rc" where
  "thenR m n = bindR m (\<lambda>_. n)"

definition tryR :: "'a rc \<Rightarrow> (exc \<Rightarrow> 'a rc) \<Rightarrow> 'a rc" where
  "tryR m h s = (case m s of (Inl e, s') \<Rightarrow> h e s' | (Inr a, s') \<Rightarrow> (Inr a, s'))"

definition liftR :: "exc + 'a \<Rightarrow> 'a rc" where
  "liftR r s = (r, s)"

definition lookR :: "(rstate \<Rightarrow> 'a rc) \<Rightarrow> 'a rc" where
  "lookR f s = f s s"

text \<open>\<open>except RcloneError\<close> also takes its subclass; \<open>except Exception\<close> leaves a cancellation.\<close>

definition is_rclone_error :: "exc \<Rightarrow> bool" where
  "is_rclone_error e = (case e of RcloneError m \<Rightarrow> True | MoveUncertainError m \<Rightarrow> True | _ \<Rightarrow> False)"

section \<open>Processes\<close>

definition msg_rclone_timeout :: ustr where
  "msg_rclone_timeout = asc ''rclone '' @ [36229, 26102, 65306]"

definition msg_rclone_exit :: ustr where
  "msg_rclone_exit = asc ''rclone '' @ [36864, 20986, 30721, 32]"

definition msg_unknown_error :: ustr where
  "msg_unknown_error = [26410, 30693, 38169, 35823]"

definition msg_colon :: ustr where
  "msg_colon = [65306]"

text \<open>\<open>a or b or c\<close> on texts.\<close>

fun first_text :: "ustr list \<Rightarrow> ustr" where
  "first_text [] = []"
| "first_text [s] = s"
| "first_text (s # t # ts) = (if s \<noteq> [] then s else first_text (t # ts))"

text \<open>\<open>_run\<close> with \<open>check=False\<close>: the exit code and both outputs without outer white space.\<close>

definition run_raw :: "rclone \<Rightarrow> ustr list \<Rightarrow> (int \<times> ustr \<times> ustr) rc" where
  "run_raw R args s =
    (let k = length (rs_calls s); s' = s\<lparr>rs_calls := rs_calls s @ [Command args], rs_file := r_edit R k (rs_file s)\<rparr> in
     case r_run R k args of
       Exited code out err \<Rightarrow> (Inr (code, strip_space (r_P R) out, strip_space (r_P R) err), s')
     | TimedOut \<Rightarrow> (Inl (RcloneError (msg_rclone_timeout @ join_with [32] (take 2 args))), s')
     | Failed e \<Rightarrow> (Inl e, s'))"

definition run :: "rclone \<Rightarrow> ustr list \<Rightarrow> ustr rc" where
  "run R args = bindR (run_raw R args) (\<lambda>(code, out, err).
     if code \<noteq> 0
     then raiseR (RcloneError (msg_rclone_exit @ dec code @ msg_colon @ first_text [err, out, msg_unknown_error]))
     else returnR out)"

definition pauseR :: "rclone \<Rightarrow> nat \<Rightarrow> unit rc" where
  "pauseR R n s =
    (let k = length (rs_calls s) in
     (if r_cancel R k then Inl CancelledError else Inr (), s\<lparr>rs_calls := rs_calls s @ [Pause n], rs_file := r_edit R k (rs_file s)\<rparr>))"

section \<open>Paths\<close>

definition msg_remote_unsafe :: ustr where
  "msg_remote_unsafe = [36828, 31471, 30456, 23545, 36335, 24452, 19981, 23433, 20840]"

definition unsafe_relative :: "ustr \<Rightarrow> bool" where
  "unsafe_relative p \<longleftrightarrow> p \<noteq> [] \<and> (starts_with p [47] \<or> starts_with p [92]
     \<or> list_ex (\<lambda>q. q \<in> {DOT, DOTDOT}) (split_on 47 p) \<or> 92 \<in> set p \<or> list_ex (\<lambda>c. c < 32) p)"

definition remote_path :: "rclone \<Rightarrow> ustr \<Rightarrow> ustr" where
  "remote_path R p = join_with [47] (filter (\<lambda>q. q \<noteq> []) [strip_set [47] (r_target R), strip_set [47] p])"

definition remote :: "rclone \<Rightarrow> ustr \<Rightarrow> exc + ustr" where
  "remote R p = (if unsafe_relative p then Inl (ValueError msg_remote_unsafe)
     else Inr (r_name R @ [58] @ remote_path R p))"

section \<open>The configuration file\<close>

definition msg_config_value :: ustr where
  "msg_config_value = asc ''WebDAV '' @ [37197, 32622, 19981, 33021, 21547, 25442, 34892, 25110, 31354, 23383, 31526]"

definition msg_config_unreadable :: ustr where
  "msg_config_unreadable = asc ''rclone '' @ [37197, 32622, 26080, 27861, 23433, 20840, 35835, 21462, 65307,
      20445, 30041, 21407, 25991, 20214]"

definition msg_obscure_failed :: ustr where
  "msg_obscure_failed = asc ''rclone '' @ [20973, 25454, 22788, 29702, 22833, 36133, 65307, 20445, 30041,
      21407, 37197, 32622]"

definition msg_config_changed :: ustr where
  "msg_config_changed = asc ''rclone '' @ [37197, 32622, 24050, 21464, 21270, 65307, 20445, 30041, 29616,
      26377, 25991, 20214, 24182, 31245, 21518, 37325, 35797]"

definition config_values :: "rclone \<Rightarrow> (ustr \<times> ustr) list" where
  "config_values R = [(asc ''type'', asc ''webdav''), (asc ''url'', r_url R), (asc ''vendor'', asc ''other''),
     (asc ''user'', r_user R)]"

definition obscured_char :: "nat \<Rightarrow> bool" where
  "obscured_char c \<longleftrightarrow> (48 \<le> c \<and> c \<le> 57) \<or> (65 \<le> c \<and> c \<le> 90) \<or> (97 \<le> c \<and> c \<le> 122) \<or> c = 95 \<or> c = 45"

definition obscured_ok :: "ustr \<Rightarrow> bool" where
  "obscured_ok t \<longleftrightarrow> 22 \<le> length t \<and> list_all obscured_char t"

fun set_entry :: "ustr \<Rightarrow> 'a \<Rightarrow> (ustr \<times> 'a) list \<Rightarrow> (ustr \<times> 'a) list" where
  "set_entry k v [] = [(k, v)]"
| "set_entry k v ((l, w) # es) = (if l = k then (k, v) # es else (l, w) # set_entry k v es)"

definition set_section :: "ustr \<Rightarrow> (ustr \<times> ustr) list \<Rightarrow> ini \<Rightarrow> ini" where
  "set_section name values c =
    set_entry name (fold (\<lambda>(k, v). set_entry k v) values (case map_of c name of None \<Rightarrow> [] | Some es \<Rightarrow> es)) c"

definition read_config :: "rclone \<Rightarrow> ustr option \<Rightarrow> ini option" where
  "read_config R file = (case file of None \<Rightarrow> Some [] | Some [] \<Rightarrow> Some [] | Some t \<Rightarrow> r_ini R t)"

definition write_config :: "rclone \<Rightarrow> ustr option \<Rightarrow> ini \<Rightarrow> ustr \<Rightarrow> unit rc" where
  "write_config R original c obscured = lookR (\<lambda>s.
     thenR (liftR (r_write R (length (rs_calls s))))
       (thenR (liftR (r_private R (length (rs_calls s))))
         (lookR (\<lambda>s. if rs_file s \<noteq> original then raiseR (RcloneError msg_config_changed)
            else (\<lambda>s. (Inr (), s\<lparr>rs_file := Some (r_ini_text R (set_section (r_name R)
                    (config_values R @ [(asc ''pass'', obscured)]) c)), rs_ready := True\<rparr>))))))"

definition ensure_config :: "rclone \<Rightarrow> unit rc" where
  "ensure_config R = lookR (\<lambda>s.
     if rs_ready s then returnR ()
     else if list_ex (list_ex (\<lambda>c. c \<in> {13, 10, 0})) (r_password R # map snd (config_values R))
       then raiseR (RcloneError msg_config_value)
     else thenR (liftR (r_private R (length (rs_calls s))))
       (case read_config R (rs_file s) of
          None \<Rightarrow> raiseR (RcloneError msg_config_unreadable)
        | Some c \<Rightarrow> bindR (run_raw R [asc ''obscure'', asc ''-'']) (\<lambda>(code, obscured, err).
            if code \<noteq> 0 \<or> \<not> obscured_ok obscured then raiseR (RcloneError msg_obscure_failed)
            else write_config R (rs_file s) c obscured)))"

section \<open>Directories and probes\<close>

definition on_remote :: "rclone \<Rightarrow> ustr \<Rightarrow> (ustr \<Rightarrow> 'a rc) \<Rightarrow> 'a rc" where
  "on_remote R p f = bindR (liftR (remote R p)) f"

definition ignore :: "'a rc \<Rightarrow> unit rc" where
  "ignore m = bindR m (\<lambda>_. returnR ())"

abbreviation depth_one :: "ustr list" where
  "depth_one \<equiv> [asc ''--max-depth'', asc ''1'']"

definition verify_authentication :: "rclone \<Rightarrow> unit rc" where
  "verify_authentication R = thenR (ensure_config R) (ignore (run R ([asc ''lsd'', r_name R @ [58]] @ depth_one)))"

definition prepare_destination :: "rclone \<Rightarrow> unit rc" where
  "prepare_destination R = thenR (ensure_config R)
     (thenR (if strip_set [47] (r_target R) \<noteq> [] then on_remote R [] (\<lambda>q. ignore (run R [asc ''mkdir'', q])) else returnR ())
       (on_remote R [] (\<lambda>q. ignore (run R ([asc ''lsd'', q] @ depth_one)))))"

definition ensure_directory :: "rclone \<Rightarrow> ustr \<Rightarrow> unit rc" where
  "ensure_directory R p = bindR (liftR (safe_directory (r_P R) p)) (\<lambda>_. thenR (ensure_config R)
     (on_remote R p (\<lambda>q. ignore (run R [asc ''mkdir'', q]))))"

text \<open>A probe: whether the destination is accessible, the scope, the detail and the kind of failure.\<close>

type_synonym probe_answer = "bool \<times> ustr \<times> ustr \<times> ustr"

definition probe_failure :: "rclone \<Rightarrow> ustr \<Rightarrow> ustr \<Rightarrow> probe_answer option" where
  "probe_failure R output scope =
    (let P = r_P R in
     if search_word P (code3 52 50 57) None output \<or> search_ci (asc ''too many requests'') output
     then Some (False, scope, r_label R @ asc '' '' @ [36820, 22238] @ asc '' HTTP 429'' @ [65307, 35831,
         31561, 24453, 25506, 27979, 20919, 21364, 65292, 21247, 21453, 22797, 39564, 25910], asc ''rate_limited'')
     else if search_word P (code3 52 48 49) None output \<or> search_ci (asc ''unauthorized'') output
     then Some (False, scope, r_label R @ asc '' '' @ [36820, 22238] @ asc '' HTTP 401'' @ [65307, 35831,
         26680, 23545, 24403, 21069, 36816, 34892, 30340] @ asc '' WebDAV '' @ [20973, 25454],
       asc ''unauthorized'')
     else if search_word P (code3 52 48 51) None output \<or> search_ci (asc ''forbidden'') output
     then Some (False, scope, r_label R @ asc '' '' @ [36820, 22238] @ asc '' HTTP 403'' @ [65307, 35831,
         26680, 23545] @ asc '' WebDAV '' @ [30446, 24405, 26435, 38480], asc ''permission'')
     else None)"

definition probe_options :: "rclone \<Rightarrow> ustr list" where
  "probe_options R = (if r_openlist R
     then [asc ''--retries'', asc ''1'', asc ''--low-level-retries'', asc ''1'', asc ''--contimeout'', asc ''5s'',
       asc ''--timeout'', asc ''10s''] else [])"

definition exit_detail :: "ustr \<Rightarrow> int \<Rightarrow> ustr" where
  "exit_detail what code = what @ [35775, 38382, 22833, 36133, 65288, 36864, 20986, 30721, 32] @ dec code @ [65289]"

definition lbl_target_directory :: ustr where
  "lbl_target_directory = [30446, 26631, 30446, 24405]"

definition lbl_root_directory :: ustr where
  "lbl_root_directory = asc ''WebDAV '' @ [26681, 30446, 24405]"

definition probe_root :: "rclone \<Rightarrow> probe_answer rc" where
  "probe_root R = bindR (run_raw R ([asc ''lsd'', r_name R @ [58]] @ depth_one @ probe_options R)) (\<lambda>(code, out, err).
     let scope = asc ''root_fallback'' in
     if code = 0
     then returnR (True, scope, lbl_root_directory @ [21487, 35775, 38382, 65307, 37197, 32622, 30340, 30446,
         26631, 30446, 24405, 23578, 26410, 21019, 24314, 65292, 19981, 20195, 34920, 21487, 20889], [])
     else returnR (case probe_failure R (out @ [10] @ err) scope of Some f \<Rightarrow> f
       | None \<Rightarrow> (False, scope, exit_detail lbl_root_directory code, [])))"

definition probe_target :: "rclone \<Rightarrow> probe_answer rc" where
  "probe_target R = on_remote R [] (\<lambda>q. bindR (run_raw R ([asc ''lsd'', q] @ depth_one @ probe_options R)) (\<lambda>(code, out, err).
     case (if code \<noteq> 0 then probe_failure R (out @ [10] @ err) (asc ''target'') else None) of
       Some f \<Rightarrow> returnR f
     | None \<Rightarrow>
        if (code = 3 \<or> code = 4) \<and> r_target R \<noteq> [] then probe_root R
        else if code \<noteq> 0 then returnR (False, asc ''target'', exit_detail lbl_target_directory code, [])
        else returnR (True, if r_target R \<noteq> [] then asc ''target'' else asc ''root'',
          (if r_target R \<noteq> [] then lbl_target_directory else lbl_root_directory) @ [21487, 35775,
              38382, 65307, 21482, 35835, 25506, 27979, 19981, 20195, 34920, 21487, 20889], [])))"

definition probe :: "rclone \<Rightarrow> probe_answer rc" where
  "probe R = tryR (thenR (ensure_config R) (probe_target R))
     (\<lambda>e. if e = CancelledError then raiseR e
        else returnR (False, asc ''unknown'', [30446, 24405, 25506, 27979, 24322, 24120, 65307, 35831, 26597,
            30475] @ asc '' VPS '' @ [26368, 36817, 26085, 24535], []))"

section \<open>Listings and sizes\<close>

text \<open>\<open>posixpath.split\<close>.\<close>

definition posix_split :: "ustr \<Rightarrow> ustr \<times> ustr" where
  "posix_split p =
    (let tail = rev (takeWhile (\<lambda>c. c \<noteq> 47) (rev p)); head = take (length p - length tail) p in
     (if list_ex (\<lambda>c. c \<noteq> 47) head then rstrip_set [47] head else head, tail))"

text \<open>The wanted files by parent: \<open>grouped.setdefault(parent, {})[name] = relative_path\<close>.\<close>

definition group_path :: "ustr \<Rightarrow> (ustr \<times> (ustr \<times> ustr) list) list \<Rightarrow> (ustr \<times> (ustr \<times> ustr) list) list" where
  "group_path p g =
    (let (parent, name) = posix_split (strip_set [47] p) in
     if name = [] then g
     else set_entry parent (set_entry name p (case map_of g parent of None \<Rightarrow> [] | Some es \<Rightarrow> es)) g)"

definition str_of :: "rclone \<Rightarrow> json \<Rightarrow> ustr" where
  "str_of R j = (case j of JStr s \<Rightarrow> s | _ \<Rightarrow> r_str R j)"

text \<open>One element of a listing: a wanted file adds its size, everything else is passed over.\<close>

definition list_item :: "rclone \<Rightarrow> (ustr \<times> ustr) list \<Rightarrow> json \<Rightarrow> (ustr \<times> int) list \<Rightarrow> exc + (ustr \<times> int) list" where
  "list_item R wanted v found = (case as_obj v of
     None \<Rightarrow> Inr found
   | Some ms \<Rightarrow>
      if (case map_of ms (asc ''IsDir'') of None \<Rightarrow> False | Some d \<Rightarrow> json_true d) then Inr found
      else (case map_of wanted (case map_of ms (asc ''Name'') of None \<Rightarrow> [] | Some n \<Rightarrow> str_of R n) of
          None \<Rightarrow> Inr found
        | Some original \<Rightarrow> (case map_of ms (asc ''Size'') of
             None \<Rightarrow> Inl (KeyError (asc ''Size''))
           | Some n \<Rightarrow> bindE (py_int (r_readers R) n) (\<lambda>i. Inr (set_entry original i found)))))"

fun list_items :: "rclone \<Rightarrow> (ustr \<times> ustr) list \<Rightarrow> json list \<Rightarrow> (ustr \<times> int) list \<Rightarrow> exc + (ustr \<times> int) list" where
  "list_items R wanted [] found = Inr found"
| "list_items R wanted (v # vs) found = bindE (list_item R wanted v found) (list_items R wanted vs)"

definition is_parse_error :: "exc \<Rightarrow> bool" where
  "is_parse_error e = (case e of KeyError t \<Rightarrow> True | TypeError t \<Rightarrow> True | ValueError t \<Rightarrow> True | _ \<Rightarrow> False)"

definition msg_listing_unreadable :: ustr where
  "msg_listing_unreadable = [26080, 27861, 35299, 26512, 36828, 31471, 29238, 30446, 24405, 25991, 20214,
      28165, 21333]"

definition msg_parent_unreadable :: ustr where
  "msg_parent_unreadable = [26080, 27861, 35835, 21462, 36828, 31471, 29238, 30446, 24405,
      65288] @ asc ''rclone '' @ [36864, 20986, 30721, 32]"

definition parse_listing :: "rclone \<Rightarrow> (ustr \<times> ustr) list \<Rightarrow> ustr \<Rightarrow> (ustr \<times> int) list \<Rightarrow> exc + (ustr \<times> int) list" where
  "parse_listing R wanted out found =
    (case (case loads (r_P R) out of None \<Rightarrow> Inl (ValueError [])
       | Some j \<Rightarrow> (case as_arr j of None \<Rightarrow> Inl (TypeError []) | Some vs \<Rightarrow> list_items R wanted vs found)) of
       Inl e \<Rightarrow> Inl (if is_parse_error e then RcloneError msg_listing_unreadable else e)
     | Inr found \<Rightarrow> Inr found)"

definition failed_with :: "ustr \<Rightarrow> int \<Rightarrow> ustr \<Rightarrow> ustr \<Rightarrow> exc" where
  "failed_with what code out err =
    RcloneError (what @ dec code @ [65289] @ msg_colon @ first_text [err, out, msg_unknown_error])"

fun list_parents :: "rclone \<Rightarrow> (ustr \<times> (ustr \<times> ustr) list) list \<Rightarrow> (ustr \<times> int) list \<Rightarrow> (ustr \<times> int) list rc" where
  "list_parents R [] found = returnR found"
| "list_parents R ((parent, wanted) # g) found = on_remote R parent (\<lambda>q.
     bindR (run_raw R ([asc ''lsjson'', q, asc ''--files-only''] @ depth_one)) (\<lambda>(code, out, err).
       if code = 3 \<or> code = 4 then list_parents R g found
       else if code \<noteq> 0 then raiseR (failed_with msg_parent_unreadable code out err)
       else bindR (liftR (parse_listing R wanted out found)) (list_parents R g)))"

definition listed_file_sizes :: "rclone \<Rightarrow> ustr list \<Rightarrow> (ustr \<times> int) list rc" where
  "listed_file_sizes R paths = list_parents R (fold group_path paths []) []"

definition msg_size_unreadable :: ustr where
  "msg_size_unreadable = [26080, 27861, 35299, 26512, 36828, 31471, 22823, 23567, 65306]"

text \<open>\<open>int(json.loads(out)["bytes"])\<close>.\<close>

definition parse_size :: "rclone \<Rightarrow> ustr \<Rightarrow> exc + int" where
  "parse_size R out =
    (case (case loads (r_P R) out of None \<Rightarrow> Inl (ValueError [])
       | Some j \<Rightarrow> (case as_obj j of None \<Rightarrow> Inl (TypeError [])
           | Some ms \<Rightarrow> (case map_of ms (asc ''bytes'') of None \<Rightarrow> Inl (KeyError (asc ''bytes''))
               | Some n \<Rightarrow> py_int (r_readers R) n))) of
       Inl e \<Rightarrow> Inl (if is_parse_error e then RcloneError (msg_size_unreadable @ r_repr R out) else e)
     | Inr n \<Rightarrow> Inr n)"

definition size_fallback :: "rclone \<Rightarrow> ustr \<Rightarrow> exc \<Rightarrow> (ustr + int) rc" where
  "size_fallback R p e =
    (if \<not> is_rclone_error e then raiseR e
     else if r_openlist R then bindR (listed_file_sizes R [p]) (\<lambda>listed.
       case map_of listed p of Some n \<Rightarrow> returnR (Inr n) | None \<Rightarrow> raiseR e)
     else raiseR e)"

definition remote_size :: "rclone \<Rightarrow> ustr \<Rightarrow> int rc" where
  "remote_size R p =
    bindR (tryR (on_remote R p (\<lambda>q. bindR (run R [asc ''size'', q, asc ''--json'']) (\<lambda>out. returnR (Inl out))))
        (size_fallback R p)) (\<lambda>r. case r of
      Inr n \<Rightarrow> returnR n
    | Inl out \<Rightarrow> bindR (liftR (parse_size R out)) (\<lambda>n.
        if n = 0 \<and> r_openlist R then bindR (listed_file_sizes R [p]) (\<lambda>listed.
          returnR (case map_of listed p of None \<Rightarrow> n | Some m \<Rightarrow> m))
        else returnR n))"

definition msg_exists_unknown :: ustr where
  "msg_exists_unknown = [26080, 27861, 30830, 35748, 36828, 31471, 25991, 20214, 26159, 21542, 23384, 22312,
      65288] @ asc ''rclone '' @ [36864, 20986, 30721, 32]"

definition remote_exists :: "rclone \<Rightarrow> ustr \<Rightarrow> bool rc" where
  "remote_exists R p = on_remote R p (\<lambda>q. bindR (run_raw R [asc ''lsjson'', q, asc ''--stat'']) (\<lambda>(code, out, err).
     if code = 0 then returnR True
     else if code = 3 \<or> code = 4 then
       (if r_openlist R then bindR (listed_file_sizes R [p]) (\<lambda>listed. returnR (map_of listed p \<noteq> None))
        else returnR False)
     else raiseR (failed_with msg_exists_unknown code out err)))"

section \<open>Changes\<close>

definition msg_move_uncertain :: ustr where
  "msg_move_uncertain = asc ''MOVE_UNCERTAIN: OpenList '' @ [25913, 21517, 32467, 26524, 26080, 27861, 30830,
      35748, 65307, 24050, 20572, 27490, 33258, 21160, 25913, 21517, 37325, 35797, 12290, 35831, 20808,
          22312] @ asc '' OpenList ''
     @ [26680, 23545, 20020, 26102, 25991, 20214, 21644, 30446, 26631, 25991, 20214, 65292, 20877, 20915,
         23450, 26159, 21542, 25163, 21160, 37325, 35797, 12290]"

definition moveto :: "rclone \<Rightarrow> ustr \<Rightarrow> ustr \<Rightarrow> ustr list \<Rightarrow> unit rc" where
  "moveto R a b options = on_remote R a (\<lambda>qa. on_remote R b (\<lambda>qb. ignore (run R ([asc ''moveto'', qa, qb] @ options))))"

text \<open>The reconciliation after a failed rename: it only reads. \<open>True\<close> when the rename is seen to have happened.\<close>

definition moved :: "rclone \<Rightarrow> ustr \<Rightarrow> ustr \<Rightarrow> int \<Rightarrow> bool rc" where
  "moved R a b expected =
    tryR (bindR (listed_file_sizes R [a, b]) (\<lambda>listed. returnR (map_of listed b = Some expected \<and> map_of listed a = None)))
      (\<lambda>e. if is_rclone_error e then returnR False else raiseR e)"

fun reconcile :: "rclone \<Rightarrow> ustr \<Rightarrow> ustr \<Rightarrow> int \<Rightarrow> nat list \<Rightarrow> unit rc" where
  "reconcile R a b expected [] = raiseR (MoveUncertainError msg_move_uncertain)"
| "reconcile R a b expected (d # ds) =
    thenR (if d \<noteq> 0 then pauseR R d else returnR ())
      (bindR (moved R a b expected) (\<lambda>ok. if ok then returnR () else reconcile R a b expected ds))"

definition remote_move :: "rclone \<Rightarrow> ustr \<Rightarrow> ustr \<Rightarrow> unit rc" where
  "remote_move R a b =
    (if \<not> r_openlist R then moveto R a b [asc ''--retries'', asc ''3'']
     else bindR (remote_size R a) (\<lambda>expected.
       tryR (moveto R a b [asc ''--retries'', asc ''1'', asc ''--low-level-retries'', asc ''1''])
         (\<lambda>e. if is_rclone_error e then reconcile R a b expected [0, 2, 5] else raiseR e)))"

text \<open>\<open>remove\<close> only logs a refusal: its callers look whether the object is gone.\<close>

definition remote_remove :: "rclone \<Rightarrow> ustr \<Rightarrow> unit rc" where
  "remote_remove R p = on_remote R p (\<lambda>q. ignore (run_raw R [asc ''deletefile'', q]))"

definition low_retries :: "rclone \<Rightarrow> ustr" where
  "low_retries R = (if r_openlist R then asc ''1'' else asc ''5'')"

definition remote_upload :: "rclone \<Rightarrow> ustr \<Rightarrow> ustr \<Rightarrow> unit rc" where
  "remote_upload R local_path p = thenR (prepare_destination R) (on_remote R p (\<lambda>q. ignore (run R
     [asc ''copyto'', local_path, q, asc ''--transfers'', asc ''1'', asc ''--checkers'', asc ''2'',
      asc ''--retries'', if r_openlist R then asc ''1'' else asc ''2'', asc ''--low-level-retries'', low_retries R,
      asc ''--contimeout'', asc ''20s'', asc ''--timeout'', asc ''5m'', asc ''--stats'', asc ''1s'',
      asc ''--stats-log-level'', asc ''NOTICE'', asc ''--use-json-log''])))"

section \<open>The calls an operation makes\<close>

text \<open>\<open>calls ok m\<close>: \<open>m\<close> only adds calls that satisfy \<open>ok\<close> to the list of calls.\<close>

definition calls :: "(call \<Rightarrow> bool) \<Rightarrow> 'a rc \<Rightarrow> bool" where
  "calls ok m \<longleftrightarrow> (\<forall>s r s'. m s = (r, s') \<longrightarrow> (\<exists>new. rs_calls s' = rs_calls s @ new \<and> list_all ok new))"

lemma callsD: "calls ok m \<Longrightarrow> m s = (r, s') \<Longrightarrow> \<exists>new. rs_calls s' = rs_calls s @ new \<and> list_all ok new"
  by (simp add: calls_def)

named_theorems call_rules \<open>the calls an operation makes\<close>

lemma calls_return [call_rules]: "calls ok (returnR a)"
  by (simp add: calls_def returnR_def)

lemma calls_raise [call_rules]: "calls ok (raiseR e)"
  by (simp add: calls_def raiseR_def)

lemma calls_lift [call_rules]: "calls ok (liftR r)"
  by (simp add: calls_def liftR_def)

lemma calls_chain:
  assumes "calls ok m" "m s = (r, s1)" "\<exists>new. rs_calls s2 = rs_calls s1 @ new \<and> list_all ok new"
  shows "\<exists>new. rs_calls s2 = rs_calls s @ new \<and> list_all ok new"
proof -
  from assms obtain x y where "rs_calls s1 = rs_calls s @ x" "list_all ok x" "rs_calls s2 = rs_calls s1 @ y" "list_all ok y"
    unfolding calls_def by blast
  then show ?thesis by (intro exI[of _ "x @ y"]) simp
qed

lemma calls_bind [call_rules]: "calls ok m \<Longrightarrow> (\<And>a. calls ok (f a)) \<Longrightarrow> calls ok (bindR m f)"
  unfolding calls_def[of ok "bindR m f"]
proof (intro allI impI)
  fix s r s'
  assume m: "calls ok m" and f: "\<And>a. calls ok (f a)" and run: "bindR m f s = (r, s')"
  obtain x s1 where x: "m s = (x, s1)" by (cases "m s")
  have "\<exists>new. rs_calls s' = rs_calls s1 @ new \<and> list_all ok new"
  proof (cases x)
    case (Inl e)
    with run x show ?thesis by (auto simp: bindR_def)
  next
    case (Inr a)
    with run x have "f a s1 = (r, s')" by (simp add: bindR_def)
    with f[of a] show ?thesis by (auto simp: calls_def)
  qed
  with calls_chain[OF m x] show "\<exists>new. rs_calls s' = rs_calls s @ new \<and> list_all ok new" by blast
qed

lemma calls_then [call_rules]: "calls ok m \<Longrightarrow> calls ok n \<Longrightarrow> calls ok (thenR m n)"
  by (simp add: thenR_def calls_bind)

lemma calls_try [call_rules]: "calls ok m \<Longrightarrow> (\<And>e. calls ok (h e)) \<Longrightarrow> calls ok (tryR m h)"
  unfolding calls_def[of ok "tryR m h"]
proof (intro allI impI)
  fix s r s'
  assume m: "calls ok m" and h: "\<And>e. calls ok (h e)" and run: "tryR m h s = (r, s')"
  obtain x s1 where x: "m s = (x, s1)" by (cases "m s")
  have "\<exists>new. rs_calls s' = rs_calls s1 @ new \<and> list_all ok new"
  proof (cases x)
    case (Inl e)
    with run x have "h e s1 = (r, s')" by (simp add: tryR_def)
    with h[of e] show ?thesis by (auto simp: calls_def)
  next
    case (Inr a)
    with run x show ?thesis by (auto simp: tryR_def)
  qed
  with calls_chain[OF m x] show "\<exists>new. rs_calls s' = rs_calls s @ new \<and> list_all ok new" by blast
qed

lemma calls_look [call_rules]: "(\<And>s. calls ok (f s)) \<Longrightarrow> calls ok (lookR f)"
  by (auto simp: calls_def lookR_def)

lemma calls_if [call_rules]: "(b \<Longrightarrow> calls ok m) \<Longrightarrow> (\<not> b \<Longrightarrow> calls ok n) \<Longrightarrow> calls ok (if b then m else n)"
  by simp

lemma calls_option [call_rules]:
  "(r = None \<Longrightarrow> calls ok m) \<Longrightarrow> (\<And>a. r = Some a \<Longrightarrow> calls ok (f a)) \<Longrightarrow> calls ok (case r of None \<Rightarrow> m | Some a \<Rightarrow> f a)"
  by (cases r) auto

lemma calls_sum [call_rules]:
  "(\<And>a. r = Inl a \<Longrightarrow> calls ok (f a)) \<Longrightarrow> (\<And>a. r = Inr a \<Longrightarrow> calls ok (g a)) \<Longrightarrow>
    calls ok (case r of Inl a \<Rightarrow> f a | Inr a \<Rightarrow> g a)"
  by (cases r) auto

lemma calls_prod [call_rules]: "(\<And>a b. calls ok (f a b)) \<Longrightarrow> calls ok (case r of (a, b) \<Rightarrow> f a b)"
  by (cases r) auto

lemma calls_run_raw [call_rules]: "ok (Command args) \<Longrightarrow> calls ok (run_raw R args)"
  by (auto simp: calls_def run_raw_def Let_def split: process.splits)

lemma calls_run [call_rules]: "ok (Command args) \<Longrightarrow> calls ok (run R args)"
  unfolding run_def by (intro call_rules) auto

lemma calls_pause [call_rules]: "ok (Pause n) \<Longrightarrow> calls ok (pauseR R n)"
  by (auto simp: calls_def pauseR_def Let_def)

lemma calls_ignore [call_rules]: "calls ok m \<Longrightarrow> calls ok (ignore m)"
  unfolding ignore_def by (intro call_rules)

lemma calls_on_remote [call_rules]: "(\<And>q. remote R p = Inr q \<Longrightarrow> calls ok (f q)) \<Longrightarrow> calls ok (on_remote R p f)"
  unfolding on_remote_def
  by (cases "remote R p") (auto simp: calls_def bindR_def liftR_def)

text \<open>Calls that only look: listings, sizes, pauses.\<close>

definition looks :: "call \<Rightarrow> bool" where
  "looks c = (case c of Pause n \<Rightarrow> True | Command args \<Rightarrow> args \<noteq> [] \<and> hd args \<in> {asc ''lsjson'', asc ''size'', asc ''lsd''})"

lemma looks_simps [simp]:
  "looks (Pause n)" "looks (Command (a # args)) \<longleftrightarrow> a \<in> {asc ''lsjson'', asc ''size'', asc ''lsd''}"
  by (simp_all add: looks_def)

lemma calls_list_parents [call_rules]: "calls looks (list_parents R g found)"
  by (induction R g found rule: list_parents.induct) (auto intro!: call_rules)

lemma calls_listed [call_rules]: "calls looks (listed_file_sizes R ps)"
  unfolding listed_file_sizes_def by (rule calls_list_parents)

lemma calls_size [call_rules]: "calls looks (remote_size R p)"
  unfolding remote_size_def size_fallback_def by (intro call_rules) auto

lemma calls_exists [call_rules]: "calls looks (remote_exists R p)"
  unfolding remote_exists_def by (intro call_rules) auto

lemma calls_moved [call_rules]: "calls looks (moved R a b expected)"
  unfolding moved_def by (intro call_rules)

lemma calls_reconcile [call_rules]: "calls looks (reconcile R a b expected ds)"
  by (induction R a b expected ds rule: reconcile.induct) (auto intro!: call_rules)

section \<open>Renaming\<close>

lemma bindR_cases:
  assumes "bindR m f s = (r, s')"
  obtains (raised) e where "m s = (Inl e, s')" "r = Inl e" | (returned) a s1 where "m s = (Inr a, s1)" "f a s1 = (r, s')"
  using assms by (cases "m s"; cases "fst (m s)") (auto simp: bindR_def)

lemma tryR_cases:
  assumes "tryR m h s = (r, s')"
  obtains (returned) a where "m s = (Inr a, s')" "r = Inr a" | (caught) e s1 where "m s = (Inl e, s1)" "h e s1 = (r, s')"
  using assms by (cases "m s"; cases "fst (m s)") (auto simp: tryR_def)

lemma run_raw_step:
  "run_raw R args s = (r, s') \<Longrightarrow> rs_calls s' = rs_calls s @ [Command args]
     \<and> (r = Inr (code, out, err) \<longrightarrow> (\<exists>o' e'. r_run R (length (rs_calls s)) args = Exited code o' e'
          \<and> out = strip_space (r_P R) o' \<and> err = strip_space (r_P R) e'))"
  by (auto simp: run_raw_def Let_def split: process.splits)

lemma run_step:
  assumes "run R args s = (r, s')"
  shows "rs_calls s' = rs_calls s @ [Command args]
     \<and> (r = Inr out \<longrightarrow> (\<exists>o' e'. r_run R (length (rs_calls s)) args = Exited 0 o' e' \<and> out = strip_space (r_P R) o'))"
  using assms unfolding run_def
proof (cases rule: bindR_cases)
  case (raised e)
  with run_raw_step[of R args s] show ?thesis by simp
next
  case (returned x s1)
  obtain code o1 e1 where x: "x = (code, o1, e1)" by (cases x)
  with returned run_raw_step[OF returned(1), of code o1 e1] show ?thesis
    by (auto simp: raiseR_def returnR_def split: if_splits)
qed

definition move_args :: "rclone \<Rightarrow> ustr \<Rightarrow> ustr \<Rightarrow> ustr list \<Rightarrow> bool" where
  "move_args R a b args \<longleftrightarrow> (\<exists>qa qb opts. remote R a = Inr qa \<and> remote R b = Inr qb \<and> args = [asc ''moveto'', qa, qb] @ opts)"

lemma move_args_not_looks: "move_args R a b args \<Longrightarrow> \<not> looks (Command args)"
  by (auto simp: move_args_def asc_def)

lemma moveto_step:
  assumes "moveto R a b opts s = (r, s')"
  shows "(s' = s \<and> (\<exists>e. r = Inl e \<and> \<not> is_rclone_error e))
    \<or> (\<exists>args. move_args R a b args \<and> rs_calls s' = rs_calls s @ [Command args]
         \<and> (r = Inr () \<longrightarrow> (\<exists>o' e'. r_run R (length (rs_calls s)) args = Exited 0 o' e')))"
proof -
  have err: "remote R p = Inl e \<Longrightarrow> \<not> is_rclone_error e" for p e
    by (auto simp: remote_def is_rclone_error_def split: if_splits)
  show ?thesis
  proof (cases "remote R a")
    case (Inl e)
    with assms err show ?thesis by (auto simp: moveto_def on_remote_def bindR_def liftR_def)
  next
    case a: (Inr qa)
    show ?thesis
    proof (cases "remote R b")
      case (Inl e)
      with assms a err show ?thesis by (auto simp: moveto_def on_remote_def bindR_def liftR_def)
    next
      case b: (Inr qb)
      let ?args = "[asc ''moveto'', qa, qb] @ opts"
      from assms a b have "bindR (run R ?args) (\<lambda>_. returnR ()) s = (r, s')"
        by (simp add: moveto_def on_remote_def bindR_def liftR_def ignore_def)
      then have "rs_calls s' = rs_calls s @ [Command ?args]
          \<and> (r = Inr () \<longrightarrow> (\<exists>o' e'. r_run R (length (rs_calls s)) ?args = Exited 0 o' e'))"
        by (cases rule: bindR_cases) (auto simp: returnR_def dest: run_step)
      moreover have "move_args R a b ?args" using a b by (auto simp: move_args_def)
      ultimately show ?thesis by blast
    qed
  qed
qed

text \<open>
  After the calls \<open>cs\<close>, and as the last thing done, the listing of both parents showed the target
  with the expected size, and no source.
\<close>

definition seen_moved :: "rclone \<Rightarrow> ustr \<Rightarrow> ustr \<Rightarrow> int \<Rightarrow> call list \<Rightarrow> rstate \<Rightarrow> bool" where
  "seen_moved R a b expected cs s' \<longleftrightarrow> (\<exists>s mid listed. rs_calls s = cs @ mid
     \<and> listed_file_sizes R [a, b] s = (Inr listed, s')
     \<and> map_of listed b = Some expected \<and> map_of listed a = None)"

lemma seen_moved_later: "seen_moved R a b expected (cs @ new) s' \<Longrightarrow> seen_moved R a b expected cs s'"
  unfolding seen_moved_def by fastforce

lemma moved_true:
  assumes "moved R a b expected s = (Inr True, s')"
  shows "seen_moved R a b expected (rs_calls s) s'"
  using assms unfolding moved_def
proof (cases rule: tryR_cases)
  case (returned x)
  from returned(1) show ?thesis
    by (cases rule: bindR_cases) (use returned(2) in \<open>auto simp: returnR_def seen_moved_def\<close>)
qed (auto simp: returnR_def raiseR_def split: if_splits)

lemma moved_error: "moved R a b expected s = (Inl e, s') \<Longrightarrow> \<not> is_rclone_error e"
  unfolding moved_def by (erule tryR_cases) (auto simp: returnR_def raiseR_def split: if_splits)

lemma reconcile_result:
  "reconcile R a b expected ds s = (r, s') \<Longrightarrow>
     (r = Inr () \<longrightarrow> seen_moved R a b expected (rs_calls s) s')
     \<and> (\<forall>e. r = Inl e \<longrightarrow> is_rclone_error e \<longrightarrow> e = MoveUncertainError msg_move_uncertain)"
proof (induction ds arbitrary: s)
  case Nil
  then show ?case by (auto simp: raiseR_def)
next
  case (Cons d ds)
  let ?w = "if d \<noteq> 0 then pauseR R d else returnR ()"
  obtain p s1 where p: "?w s = (p, s1)" by force
  have "calls looks ?w" by (auto intro: call_rules)
  from callsD[OF this p] obtain n1 where n1: "rs_calls s1 = rs_calls s @ n1" by blast
  have pe: "p = Inl e \<Longrightarrow> \<not> is_rclone_error e" for e
    using p by (auto simp: pauseR_def returnR_def Let_def is_rclone_error_def split: if_splits)
  from Cons.prems show ?case unfolding reconcile.simps thenR_def
  proof (cases rule: bindR_cases)
    case (raised e)
    with p pe show ?thesis by auto
  next
    case (returned u s2)
    from returned(1) p have s2: "s2 = s1" by simp
    from returned(2) show ?thesis
    proof (cases rule: bindR_cases)
      case (raised e)
      with moved_error show ?thesis by blast
    next
      case (returned ok s3)
      show ?thesis
      proof (cases ok)
        case True
        with returned s2 have "moved R a b expected s1 = (Inr True, s3)" "(Inr (), s3) = (r, s')"
          by (simp_all add: returnR_def)
        with moved_true n1 seen_moved_later show ?thesis by fastforce
      next
        case False
        obtain n2 where "rs_calls s3 = rs_calls s1 @ n2"
          using callsD[OF calls_moved returned(1)] s2 by blast
        with n1 have n: "rs_calls s3 = rs_calls s @ n1 @ n2" by simp
        from False returned(2) have "reconcile R a b expected ds s3 = (r, s')" by simp
        from Cons.IH[OF this] n seen_moved_later[of R a b expected "rs_calls s" "n1 @ n2" s'] show ?thesis by auto
      qed
    qed
  qed
qed


section \<open>Looking for a file\<close>

lemma map_of_set_entry [simp]: "map_of (set_entry k v es) = (map_of es)(k \<mapsto> v)"
  by (induction es) auto

text \<open>An element of a listing that is a file of the given name, and its size.\<close>

definition file_named :: "rclone \<Rightarrow> ustr \<Rightarrow> json \<Rightarrow> bool" where
  "file_named R name v \<longleftrightarrow> (\<exists>ms. v = JObj ms
     \<and> \<not> (case map_of ms (asc ''IsDir'') of None \<Rightarrow> False | Some d \<Rightarrow> json_true d)
     \<and> (case map_of ms (asc ''Name'') of None \<Rightarrow> [] | Some n \<Rightarrow> str_of R n) = name)"

definition sized :: "rclone \<Rightarrow> json \<Rightarrow> int \<Rightarrow> bool" where
  "sized R v n \<longleftrightarrow> (\<exists>j. jfind v (asc ''Size'') = Some j \<and> py_int (r_readers R) j = Inr n)"

lemma list_item_one:
  assumes "list_item R [(name, p)] v found = Inr found'"
  shows "if file_named R name v then \<exists>n. sized R v n \<and> map_of found' = (map_of found)(p \<mapsto> n) else found' = found"
  using assms
  by (auto simp: list_item_def file_named_def sized_def jfind_def as_obj_Some bindE_Inr split: option.splits if_splits)

lemma list_items_one:
  "list_items R [(name, p)] vs found = Inr found' \<Longrightarrow>
     (map_of found' p = None \<longrightarrow> map_of found p = None \<and> (\<forall>v \<in> set vs. \<not> file_named R name v))
     \<and> (\<forall>n. map_of found' p = Some n \<longrightarrow> map_of found p = Some n \<or> (\<exists>v \<in> set vs. file_named R name v \<and> sized R v n))"
proof (induction vs arbitrary: found)
  case (Cons v vs)
  from Cons.prems obtain f1 where f1: "list_item R [(name, p)] v found = Inr f1"
    and f2: "list_items R [(name, p)] vs f1 = Inr found'" by (auto simp: bindE_Inr)
  from list_item_one[OF f1] Cons.IH[OF f2] show ?case by (cases "file_named R name v") auto
qed simp

text \<open>The parent of \<open>p\<close>, its name in it, and what call \<open>k\<close> listed there.\<close>

definition parent_of :: "ustr \<Rightarrow> ustr" where
  "parent_of p = fst (posix_split (strip_set [47] p))"

definition name_of :: "ustr \<Rightarrow> ustr" where
  "name_of p = snd (posix_split (strip_set [47] p))"

definition listing_at :: "rclone \<Rightarrow> nat \<Rightarrow> ustr \<Rightarrow> int \<Rightarrow> json list \<Rightarrow> bool" where
  "listing_at R k p code vs \<longleftrightarrow> (\<exists>q out err. remote R (parent_of p) = Inr q
     \<and> r_run R k ([asc ''lsjson'', q, asc ''--files-only''] @ depth_one) = Exited code out err
     \<and> (code = 0 \<longrightarrow> loads (r_P R) (strip_space (r_P R) out) = Some (JArr vs)))"

definition not_listed :: "rclone \<Rightarrow> nat \<Rightarrow> ustr \<Rightarrow> bool" where
  "not_listed R k p \<longleftrightarrow> name_of p = []
     \<or> (\<exists>code vs. listing_at R k p code vs \<and> (code = 3 \<or> code = 4 \<or> code = 0 \<and> (\<forall>v \<in> set vs. \<not> file_named R (name_of p) v)))"

definition listed_with :: "rclone \<Rightarrow> nat \<Rightarrow> ustr \<Rightarrow> int \<Rightarrow> bool" where
  "listed_with R k p n \<longleftrightarrow> (\<exists>vs. listing_at R k p 0 vs \<and> (\<exists>v \<in> set vs. file_named R (name_of p) v \<and> sized R v n))"

lemma parse_listing_Inr:
  "parse_listing R wanted out found = Inr found' \<longleftrightarrow>
     (\<exists>vs. loads (r_P R) out = Some (JArr vs) \<and> list_items R wanted vs found = Inr found')"
  by (auto simp: parse_listing_def as_arr_Some split: option.splits sum.splits)

lemma on_remote_cases:
  assumes "on_remote R p f s = (r, s')"
  obtains (unsafe) e where "remote R p = Inl e" "r = Inl e" "s' = s" | (safe) q where "remote R p = Inr q" "f q s = (r, s')"
  using assms by (cases "remote R p") (auto simp: on_remote_def bindR_def liftR_def)

lemma listed_one:
  assumes "listed_file_sizes R [p] s = (Inr listed, s')"
  shows "(map_of listed p = None \<longrightarrow> not_listed R (length (rs_calls s)) p)
    \<and> (\<forall>n. map_of listed p = Some n \<longrightarrow> listed_with R (length (rs_calls s)) p n)"
proof (cases "name_of p = []")
  case True
  with assms show ?thesis
    by (auto simp: listed_file_sizes_def group_path_def name_of_def not_listed_def returnR_def split: prod.splits)
next
  case False
  let ?w = "[(name_of p, p)]" and ?k = "length (rs_calls s)"
  have "fold group_path [p] [] = [(parent_of p, ?w)]"
    using False by (cases "posix_split (strip_set [47] p)") (simp add: group_path_def name_of_def parent_of_def)
  with assms have "list_parents R [(parent_of p, ?w)] [] s = (Inr listed, s')" by (simp add: listed_file_sizes_def)
  moreover have "list_parents R [] = returnR" by (rule ext) simp
  ultimately have run: "on_remote R (parent_of p) (\<lambda>q.
     bindR (run_raw R ([asc ''lsjson'', q, asc ''--files-only''] @ depth_one)) (\<lambda>(code, out, err).
       if code = 3 \<or> code = 4 then returnR []
       else if code \<noteq> 0 then raiseR (failed_with msg_parent_unreadable code out err)
       else bindR (liftR (parse_listing R ?w out [])) returnR)) s = (Inr listed, s')"
    by (simp cong: if_cong)
  then show ?thesis
  proof (cases rule: on_remote_cases)
    case (safe q)
    from safe(2) show ?thesis
    proof (cases rule: bindR_cases)
      case (returned x s1)
      obtain code out err where x: "x = (code, out, err)" by (cases x)
      with run_raw_step[OF returned(1), of code out err] obtain o' e' where
        ran: "r_run R ?k ([asc ''lsjson'', q, asc ''--files-only''] @ depth_one) = Exited code o' e'"
        and out: "out = strip_space (r_P R) o'" by auto
      show ?thesis
      proof (cases "code = 3 \<or> code = 4")
        case True
        with returned x have "listed = []" by (simp add: returnR_def)
        moreover have "listing_at R ?k p code []" using safe(1) ran True by (auto simp: listing_at_def)
        ultimately show ?thesis using True by (auto simp: not_listed_def)
      next
        case no: False
        with returned x have code: "code = 0" by (auto simp: raiseR_def split: if_splits)
        with no returned x have "parse_listing R ?w out [] = Inr listed"
          by (auto simp: bindR_def liftR_def returnR_def split: sum.splits)
        then obtain vs where vs: "loads (r_P R) out = Some (JArr vs)" "list_items R ?w vs [] = Inr listed"
          by (auto simp: parse_listing_Inr)
        have "listing_at R ?k p 0 vs" using safe(1) ran vs(1) out code by (auto simp: listing_at_def)
        with list_items_one[OF vs(2)] show ?thesis by (auto simp: not_listed_def listed_with_def)
      qed
    qed simp
  qed simp
qed

text \<open>
  Whether a remote file exists is answered only on evidence: "no" means that \<open>rclone\<close> said so
  with one of its not-found codes and, with OpenList, that the listing of the parent does not
  contain the name either; "yes" means that it found the object or listed the name. Every other
  outcome is an error.
\<close>

lemma existence_evidence:
  assumes "remote_exists R p s = (Inr b, s')"
  shows "\<exists>q code out err. remote R p = Inr q
     \<and> r_run R (length (rs_calls s)) [asc ''lsjson'', q, asc ''--stat''] = Exited code out err
     \<and> (if code = 0 then b
        else (code = 3 \<or> code = 4) \<and>
          (if r_openlist R then (if b then \<exists>n. listed_with R (Suc (length (rs_calls s))) p n
                                 else not_listed R (Suc (length (rs_calls s))) p)
           else \<not> b))"
  using assms unfolding remote_exists_def
proof (cases rule: on_remote_cases)
  case (safe q)
  from safe(2) show ?thesis
  proof (cases rule: bindR_cases)
    case (returned x s1)
    obtain code out err where x: "x = (code, out, err)" by (cases x)
    with run_raw_step[OF returned(1), of code out err] obtain o' e' where
      ran: "r_run R (length (rs_calls s)) [asc ''lsjson'', q, asc ''--stat''] = Exited code o' e'"
      and s1: "length (rs_calls s1) = Suc (length (rs_calls s))" by auto
    have code: "code = 0 \<or> code = 3 \<or> code = 4" using returned(2) x by (auto simp: raiseR_def split: if_splits)
    show ?thesis
    proof (cases "code = 0 \<or> \<not> r_openlist R")
      case True
      with returned(2) x code ran safe(1) show ?thesis by (auto simp: returnR_def split: if_splits)
    next
      case False
      with returned(2) x code have "bindR (listed_file_sizes R [p]) (\<lambda>listed. returnR (map_of listed p \<noteq> None)) s1 = (Inr b, s')"
        by auto
      then show ?thesis
      proof (cases rule: bindR_cases)
        case (returned listed s2)
        with listed_one[OF returned(1)] s1 ran safe(1) code False show ?thesis
          by (cases "map_of listed p") (auto simp: returnR_def)
      qed simp
    qed
  qed simp
qed simp

text \<open>A size is what \<open>rclone size\<close> printed or, with OpenList, what the listing of the parent shows.\<close>

definition size_printed :: "rclone \<Rightarrow> nat \<Rightarrow> ustr \<Rightarrow> int \<Rightarrow> bool" where
  "size_printed R k p n \<longleftrightarrow> (\<exists>q out err ms j. remote R p = Inr q \<and> r_run R k [asc ''size'', q, asc ''--json''] = Exited 0 out err
     \<and> loads (r_P R) (strip_space (r_P R) out) = Some (JObj ms) \<and> map_of ms (asc ''bytes'') = Some j
     \<and> py_int (r_readers R) j = Inr n)"

lemma parse_size_Inr: "parse_size R out = Inr n \<longleftrightarrow> (\<exists>ms j. loads (r_P R) out = Some (JObj ms)
    \<and> map_of ms (asc ''bytes'') = Some j \<and> py_int (r_readers R) j = Inr n)"
  by (auto simp: parse_size_def as_obj_Some split: option.splits sum.splits)

lemma size_evidence:
  assumes "remote_size R p s = (Inr n, s')"
  shows "size_printed R (length (rs_calls s)) p n \<or> (r_openlist R \<and> listed_with R (Suc (length (rs_calls s))) p n)"
  using assms unfolding remote_size_def
proof (cases rule: bindR_cases)
  case (returned x s1)
  from returned(1) show ?thesis
  proof (cases rule: tryR_cases)
    case r1: (returned y)
    from r1(1) show ?thesis
    proof (cases rule: on_remote_cases)
      case (safe q)
      from safe(2) show ?thesis
      proof (cases rule: bindR_cases)
        case r2: (returned out s2)
        then have s2: "s2 = s1" and x: "x = Inl out" using r1(2) by (auto simp: returnR_def)
        from run_step[OF r2(1), of out] obtain o' e' where
          ran: "r_run R (length (rs_calls s)) [asc ''size'', q, asc ''--json''] = Exited 0 o' e'"
          "out = strip_space (r_P R) o'" "rs_calls s1 = rs_calls s @ [Command [asc ''size'', q, asc ''--json'']]"
          using s2 by auto
        from returned(2) x have "bindR (liftR (parse_size R out)) (\<lambda>n. if n = 0 \<and> r_openlist R
            then bindR (listed_file_sizes R [p]) (\<lambda>listed. returnR (case map_of listed p of None \<Rightarrow> n | Some m \<Rightarrow> m))
            else returnR n) s1 = (Inr n, s')" by simp
        then show ?thesis
        proof (cases rule: bindR_cases)
          case r3: (returned m s3)
          then have m: "parse_size R out = Inr m" and s3: "s3 = s1" by (auto simp: liftR_def)
          then have printed: "size_printed R (length (rs_calls s)) p m"
            using ran safe(1) by (auto simp: size_printed_def parse_size_Inr)
          show ?thesis
          proof (cases "m = 0 \<and> r_openlist R")
            case False
            with r3(2) printed show ?thesis by (auto simp: returnR_def)
          next
            case True
            with r3(2) s3 have "bindR (listed_file_sizes R [p]) (\<lambda>listed. returnR (case map_of listed p of None \<Rightarrow> m | Some m \<Rightarrow> m)) s1
                = (Inr n, s')" by simp
            then show ?thesis
            proof (cases rule: bindR_cases)
              case (returned listed s4)
              with listed_one[OF returned(1)] printed True ran(3) show ?thesis
                by (cases "map_of listed p") (auto simp: returnR_def)
            qed simp
          qed
        qed simp
      qed (use r1 in simp)
    qed (use r1 in simp)
  next
    case (caught e s2)
    show ?thesis
    proof (cases "is_rclone_error e \<and> r_openlist R")
      case False
      with caught(2) returned(1) show ?thesis by (auto simp: size_fallback_def raiseR_def split: if_splits)
    next
      case True
      have "remote R p \<noteq> Inl e" using True by (auto simp: remote_def is_rclone_error_def split: if_splits)
      with caught(1) obtain q where "bindR (run R [asc ''size'', q, asc ''--json'']) (\<lambda>out. returnR (Inl out) :: (ustr + int) rc) s = (Inl e, s2)"
        by (cases rule: on_remote_cases) auto
      then have s2: "length (rs_calls s2) = Suc (length (rs_calls s))"
        by (cases rule: bindR_cases) (auto simp: returnR_def dest: run_step)
      from caught(2) True have "bindR (listed_file_sizes R [p]) (\<lambda>listed.
          case map_of listed p of Some n \<Rightarrow> returnR (Inr n) | None \<Rightarrow> raiseR e) s2 = (Inr x, s1)"
        by (simp add: size_fallback_def)
      then show ?thesis
      proof (cases rule: bindR_cases)
        case r3: (returned listed s3)
        with listed_one[OF r3(1)] s2 True returned(2) show ?thesis
          by (auto simp: returnR_def raiseR_def split: option.splits)
      qed simp
    qed
  qed
qed simp

section \<open>Paths stay below the target\<close>

definition no_dots :: "ustr list \<Rightarrow> bool" where
  "no_dots ps \<longleftrightarrow> (\<forall>q \<in> set ps. q \<noteq> DOT \<and> q \<noteq> DOTDOT)"

lemma walk_append: "walk dir (xs @ ys) = walk (walk dir xs) ys"
  by (induction dir xs rule: walk.induct) auto

lemma walk_plain: "no_dots ps \<Longrightarrow> walk dir ps = dir @ filter (\<lambda>q. q \<noteq> []) ps"
  by (induction ps arbitrary: dir) (auto simp: no_dots_def)

lemma rstrip_parts:
  assumes "no_dots (split_on 47 p)"
  shows "no_dots (split_on 47 (rstrip_set [47] p))"
proof -
  let ?q = "rstrip_set [47] p"
  obtain r where p: "p = ?q @ r" and r: "\<forall>c \<in> set r. c = 47"
  proof
    have "rev (rev p) = rev (dropWhile (\<lambda>c. c \<in> set [47]) (rev p)) @ rev (takeWhile (\<lambda>c. c \<in> set [47]) (rev p))"
      by (metis rev_append takeWhile_dropWhile_id)
    then show "p = ?q @ rev (takeWhile (\<lambda>c. c \<in> set [47]) (rev p))" by (simp add: rstrip_set_def)
    show "\<forall>c \<in> set (rev (takeWhile (\<lambda>c. c \<in> set [47]) (rev p))). c = 47"
      by (auto dest: set_takeWhileD)
  qed
  have hd: "hd (split_on 47 r) = []" using r by (cases r) auto
  from split_on_append_full[of 47 ?q r] hd have "split_on 47 p = butlast (split_on 47 ?q) @ last (split_on 47 ?q) # tl (split_on 47 r)"
    using p by simp
  then have "set (split_on 47 ?q) \<subseteq> set (split_on 47 p)"
    by (auto simp: set_split_on[of 47 ?q])
  with assms show ?thesis by (auto simp: no_dots_def)
qed

lemma strip_parts:
  assumes "\<not> unsafe_relative p"
  shows "no_dots (split_on 47 (strip_set [47] p))"
proof (cases p)
  case Nil
  then show ?thesis by (simp add: strip_set_def lstrip_set_def rstrip_set_def no_dots_def DOT_def DOTDOT_def)
next
  case (Cons c t)
  with assms have "c \<noteq> 47" "no_dots (split_on 47 p)"
    by (auto simp: unsafe_relative_def no_dots_def list_ex_iff)
  with Cons have "strip_set [47] p = rstrip_set [47] p" by (simp add: strip_set_def lstrip_set_def)
  with \<open>no_dots (split_on 47 p)\<close> show ?thesis by (simp add: rstrip_parts)
qed

text \<open>
  C35. No relative path can leave the configured target: what \<open>rclone\<close> gets is the remote's name, a colon
  and a path that, resolved component by component from any directory, ends in the target directory or
  below it. Paths with a dot component, a backslash, a control character or a leading slash are refused.
\<close>

theorem remote_below_target:
  "(\<forall>q. remote R p = Inr q \<longrightarrow> (\<exists>path below. q = r_name R @ 58 # path
      \<and> walk dir (split_on 47 path) = walk dir (split_on 47 (strip_set [47] (r_target R))) @ below))
   \<and> (unsafe_relative p \<longrightarrow> remote R p = Inl (ValueError msg_remote_unsafe))"
proof (intro conjI allI impI)
  fix q assume q: "remote R p = Inr q"
  then have safe: "\<not> unsafe_relative p" and q: "q = r_name R @ 58 # remote_path R p"
    by (auto simp: remote_def split: if_splits)
  let ?t = "strip_set [47] (r_target R)" and ?p = "strip_set [47] p"
  let ?below = "filter (\<lambda>q. q \<noteq> []) (split_on 47 ?p)"
  have plain: "walk d (split_on 47 ?p) = d @ ?below" for d by (rule walk_plain[OF strip_parts[OF safe]])
  have "walk dir (split_on 47 (remote_path R p)) = walk dir (split_on 47 ?t) @ ?below"
  proof (cases "?t = []"; cases "?p = []")
    assume "?t \<noteq> []" "?p \<noteq> []"
    then have "split_on 47 (remote_path R p) = split_on 47 ?t @ split_on 47 ?p"
      using split_on_append_full[of 47 ?t "47 # ?p"] by (simp add: remote_path_def)
    then show ?thesis by (simp add: walk_append plain)
  qed (use plain in \<open>simp_all add: remote_path_def\<close>)
  then show "\<exists>path below. q = r_name R @ 58 # path \<and> walk dir (split_on 47 path) = walk dir (split_on 47 ?t) @ below"
    using q by blast
qed (simp add: remote_def)

section \<open>The configuration file is kept\<close>

lemma set_section_other: "name' \<noteq> name \<Longrightarrow> map_of (set_section name values c) name' = map_of c name'"
  by (simp add: set_section_def)

text \<open>What becomes of the file while the password is obscured.\<close>

definition edited :: "rclone \<Rightarrow> rstate \<Rightarrow> ustr option" where
  "edited R s = r_edit R (length (rs_calls s)) (rs_file s)"

lemma write_config_result:
  assumes "write_config R original c obscured s = (r, s')"
  shows "(r \<noteq> Inr () \<and> s' = s)
    \<or> (r = Inr () \<and> rs_file s = original \<and> rs_ready s'
       \<and> rs_file s' = Some (r_ini_text R (set_section (r_name R) (config_values R @ [(asc ''pass'', obscured)]) c)))"
proof (cases "r_write R (length (rs_calls s))"; cases "r_private R (length (rs_calls s))")
qed (use assms in \<open>auto simp: write_config_def lookR_def thenR_def bindR_def liftR_def raiseR_def split: if_splits\<close>)

text \<open>
  C36. The configuration of \<open>rclone\<close> is never lost: an error leaves the file as it was or as others made it,
  and it is only replaced when it still has the content that was read, by a text in which every section
  but the client's own has its old entries.
\<close>

theorem config_is_kept:
  assumes "ensure_config R s = (r, s')" "\<not> rs_ready s"
  shows "(r \<noteq> Inr () \<and> \<not> rs_ready s' \<and> (rs_file s' = rs_file s \<or> rs_file s' = edited R s))
    \<or> (r = Inr () \<and> rs_ready s' \<and> edited R s = rs_file s \<and> (\<exists>c c'. read_config R (rs_file s) = Some c
       \<and> rs_file s' = Some (r_ini_text R c') \<and> (\<forall>name. name \<noteq> r_name R \<longrightarrow> map_of c' name = map_of c name)))"
proof (cases "list_ex (list_ex (\<lambda>c. c \<in> {13, 10, 0})) (r_password R # map snd (config_values R))
    \<or> r_private R (length (rs_calls s)) \<noteq> Inr () \<or> read_config R (rs_file s) = None")
  case True
  with assms show ?thesis
    by (auto simp: ensure_config_def lookR_def thenR_def bindR_def liftR_def raiseR_def split: if_splits sum.splits option.splits)
next
  case False
  then obtain c where c: "read_config R (rs_file s) = Some c" and ok: "r_private R (length (rs_calls s)) = Inr ()" by auto
  from assms False c have "bindR (run_raw R [asc ''obscure'', asc ''-'']) (\<lambda>(code, obscured, err).
            if code \<noteq> 0 \<or> \<not> obscured_ok obscured then raiseR (RcloneError msg_obscure_failed)
            else write_config R (rs_file s) c obscured) s = (r, s')"
    by (simp add: ensure_config_def lookR_def thenR_def bindR_def liftR_def)
  then show ?thesis
  proof (cases rule: bindR_cases)
    case (raised e)
    with assms(2) show ?thesis by (auto simp: run_raw_def Let_def edited_def split: process.splits)
  next
    case (returned x s1)
    have s1: "rs_file s1 = edited R s" "\<not> rs_ready s1"
      using returned(1) assms(2) by (auto simp: run_raw_def Let_def edited_def split: process.splits)
    obtain code obscured err where x: "x = (code, obscured, err)" by (cases x)
    show ?thesis
    proof (cases "code \<noteq> 0 \<or> \<not> obscured_ok obscured")
      case True
      with returned(2) x s1 show ?thesis by (auto simp: raiseR_def)
    next
      case False
      with returned(2) x have "write_config R (rs_file s) c obscured s1 = (r, s')" by simp
      from write_config_result[OF this] s1 c show ?thesis by (auto intro!: exI simp: set_section_other)
    qed
  qed
qed

section \<open>An example\<close>

text \<open>
  An OpenList whose MOVE reports a failure although it happened: the later listing shows the target.
\<close>

definition ex_size_text :: ustr where
  "ex_size_text = asc ''{\"bytes\":5}''"

definition ex_list_text :: ustr where
  "ex_list_text = asc ''[{\"Name\":\"a\",\"Size\":5}]''"

definition ex_run :: "nat \<Rightarrow> ustr list \<Rightarrow> process" where
  "ex_run k args = (if k = 0 then Exited 0 ex_size_text [] else if k = 1 then Exited 1 [] [120]
     else Exited 0 ex_list_text [])"

definition ex_rclone :: rclone where
  "ex_rclone = \<lparr>r_P = ascii_platform, r_readers = ex_readers, r_openlist = True, r_name = asc ''cd2'', r_label = [],
     r_target = [], r_url = [], r_user = [], r_password = [], r_run = ex_run, r_cancel = (\<lambda>k. False),
     r_edit = (\<lambda>k f. f), r_private = (\<lambda>k. Inr ()), r_write = (\<lambda>k. Inr ()), r_ini = (\<lambda>t. None),
     r_ini_text = (\<lambda>c. []), r_repr = (\<lambda>t. t), r_str = (\<lambda>j. [])\<rparr>"

definition fresh :: rstate where
  "fresh = \<lparr>rs_calls = [], rs_ready = True, rs_file = None\<rparr>"

lemma ex_selectors: "r_P ex_rclone = ascii_platform" "r_readers ex_rclone = ex_readers" "r_openlist ex_rclone"
  "r_run ex_rclone = ex_run" "r_edit ex_rclone k f = f" "r_name ex_rclone = asc ''cd2''" "r_target ex_rclone = []"
  by (simp_all add: ex_rclone_def)

lemma ex_texts: "loads ascii_platform ex_size_text = Some (JObj [(asc ''bytes'', JInt 5)])"
  "loads ascii_platform ex_list_text = Some (JArr [JObj [(asc ''Name'', JStr [97]), (asc ''Size'', JInt 5)]])"
  "strip_space ascii_platform ex_size_text = ex_size_text" "strip_space ascii_platform ex_list_text = ex_list_text"
  "strip_space ascii_platform [] = []" "strip_space ascii_platform [120] = [120]"
  by (simp_all add: ex_size_text_def ex_list_text_def strip_space_def ascii_platform_def scan_eval)

lemma ex_remote: "remote ex_rclone [98] = Inr (asc ''cd2:b'')" "remote ex_rclone [97] = Inr (asc ''cd2:a'')"
  "remote ex_rclone [] = Inr (asc ''cd2:'')"
  by (simp_all add: remote_def unsafe_relative_def DOT_def DOTDOT_def ex_selectors remote_path_def strip_set_def
      lstrip_set_def rstrip_set_def asc_def)

lemma ex_parse: "parse_size ex_rclone ex_size_text = Inr 5"
  "parse_listing ex_rclone [([98], [98]), ([97], [97])] ex_list_text [] = Inr [([97], 5)]"
  by (simp_all add: parse_size_def parse_listing_def ex_selectors ex_texts py_int_def list_item_def str_of_def asc_def)

lemma ex_listed: "listed_file_sizes ex_rclone [[98], [97]] = list_parents ex_rclone [([], [([98], [98]), ([97], [97])])] []"
  "listed_file_sizes ex_rclone [[98]] = list_parents ex_rclone [([], [([98], [98])])] []"
  by (simp_all add: listed_file_sizes_def group_path_def posix_split_def strip_set_def lstrip_set_def rstrip_set_def)

lemmas ex_eval = on_remote_def bindR_def liftR_def returnR_def tryR_def thenR_def ignore_def
  run_def run_raw_def Let_def ex_selectors ex_run_def ex_texts ex_remote fresh_def raiseR_def

lemma ex_size: "remote_size ex_rclone [98] fresh =
  (Inr 5, fresh\<lparr>rs_calls := [Command [asc ''size'', asc ''cd2:b'', asc ''--json'']]\<rparr>)"
  by (simp add: remote_size_def ex_eval ex_parse)

lemma ex_move: "\<exists>s'. remote_move ex_rclone [98] [97] fresh = (Inr (), s') \<and> length (rs_calls s') = 3"
  by (simp add: remote_move_def bindR_def ex_size ex_selectors(3),
      simp add: moveto_def ex_listed moved_def ex_eval ex_parse is_rclone_error_def)


text \<open>A file that \<open>rclone\<close> does not find and the listing does not show either.\<close>

definition ex_gone :: rclone where
  "ex_gone = ex_rclone\<lparr>r_run := \<lambda>k args. if k = 0 then Exited 3 [] [] else Exited 0 ex_list_text []\<rparr>"

lemma ex_gone_absent: "\<exists>s'. remote_exists ex_gone [98] fresh = (Inr False, s')"
proof -
  have "listed_file_sizes ex_gone [[98]] = list_parents ex_gone [([], [([98], [98])])] []"
    by (simp add: listed_file_sizes_def group_path_def posix_split_def strip_set_def lstrip_set_def rstrip_set_def)
  moreover have "parse_listing ex_gone [([98], [98])] ex_list_text [] = Inr []"
    by (simp add: parse_listing_def ex_gone_def ex_selectors ex_texts list_item_def str_of_def asc_def)
  moreover have "remote ex_gone p = remote ex_rclone p" for p
    by (simp add: remote_def remote_path_def ex_gone_def)
  ultimately show ?thesis
    by (simp add: remote_exists_def ex_eval ex_gone_def)
qed

theorem remote_below_target_witness:
  "\<exists>path below. asc ''cd2:b'' = asc ''cd2'' @ 58 # path \<and> walk [] (split_on 47 path) = [] @ below"
proof -
  from remote_below_target[of ex_rclone "[98]" "[]"] ex_remote(1) obtain path below where
    "asc ''cd2:b'' = asc ''cd2'' @ 58 # path" "walk [] (split_on 47 path) = walk [] (split_on 47 []) @ below"
    by (auto simp: ex_selectors strip_set_def lstrip_set_def rstrip_set_def)
  then show ?thesis by auto
qed

theorem config_is_kept_witness:
  "rs_file (snd (ensure_config ex_rclone (fresh\<lparr>rs_ready := False, rs_file := Some [91]\<rparr>))) = Some [91]"
proof -
  let ?s = "fresh\<lparr>rs_ready := False, rs_file := Some [91]\<rparr>"
  obtain r s' where run: "ensure_config ex_rclone ?s = (r, s')" by force
  from config_is_kept[OF run] have "rs_file s' = Some [91]"
    by (auto simp: edited_def ex_selectors fresh_def read_config_def ex_rclone_def)
  with run show ?thesis by simp
qed

end
