(* ===== verification/Acceptance.thy ===== *)
theory Acceptance
  imports Rclone
begin

text \<open>
  \<open>src/tg2cloud/storage/verify_destination.py\<close>, the acceptance test of a destination: it writes a
  small object under a random name, checks its size, renames it where the backend commits by a
  rename, deletes it, and looks that it is gone. And \<open>RcloneUploadStream\<close> of
  \<open>storage/rclone.py\<close>, the sink of a streaming upload.

  The theorem on the test: whatever happens, it touches nothing on the remote but its own
  objects; where it fails after the first write it tries to delete them, except when a rename is
  uncertain; where it succeeds the object is gone.
\<close>

section \<open>The sink of a streaming upload\<close>

record upload_stream =
  us_written :: int
  us_finished :: bool

definition msg_stream_over :: ustr where
  "msg_stream_over = asc ''rclone '' @ [27969, 24335, 20889, 20837, 24050, 32463, 32467, 26463]"

text \<open>\<open>write\<close>: \<open>pipe\<close> is what writing to the process and draining gives.\<close>

definition stream_write :: "exc + unit \<Rightarrow> nat list \<Rightarrow> upload_stream \<Rightarrow> (exc + int) \<times> upload_stream" where
  "stream_write pipe data u =
    (if us_finished u then (Inl (RcloneError msg_stream_over), u)
     else case pipe of Inl e \<Rightarrow> (Inl e, u)
       | Inr _ \<Rightarrow> (Inr (int (length data)), u\<lparr>us_written := us_written u + int (length data)\<rparr>))"

definition stream_tell :: "upload_stream \<Rightarrow> int" where
  "stream_tell u = us_written u"

definition msg_stream_exit :: ustr where
  "msg_stream_exit = asc ''rclone '' @ [27969, 24335, 19978, 20256, 36864, 20986, 30721, 32]"

text \<open>
  \<open>finish\<close>: \<open>ended\<close> is the exit code and both tails, or an exception while waiting; a broken
  pipe on closing has been swallowed.
\<close>

definition stream_finish :: "exc + (int \<times> ustr \<times> ustr) \<Rightarrow> upload_stream \<Rightarrow> (exc + unit) \<times> upload_stream" where
  "stream_finish ended u =
    (if us_finished u then (Inr (), u)
     else (case ended of Inl e \<Rightarrow> Inl e
         | Inr (code, out, err) \<Rightarrow>
             if code \<noteq> 0
             then Inl (RcloneError (msg_stream_exit @ dec code @ msg_colon @ first_text [err, out, msg_unknown_error]))
             else Inr (),
       u\<lparr>us_finished := True\<rparr>))"

definition stream_abort :: "upload_stream \<Rightarrow> upload_stream" where
  "stream_abort u = u\<lparr>us_finished := True\<rparr>"

lemma stream_over: "us_finished u \<Longrightarrow> fst (stream_write p d u) = Inl (RcloneError msg_stream_over)
    \<and> stream_finish e u = (Inr (), u)"
  by (simp add: stream_write_def stream_finish_def)

lemma stream_ends: "us_finished (snd (stream_finish e u)) \<and> us_finished (stream_abort u)"
  by (simp add: stream_finish_def stream_abort_def)

lemma stream_counts:
  "stream_tell (fold (\<lambda>d u. snd (stream_write (Inr ()) d u)) ds \<lparr>us_written = n, us_finished = False\<rparr>)
     = n + int (length (concat ds))"
  by (induction ds arbitrary: n) (simp_all add: stream_tell_def stream_write_def)

section \<open>The acceptance test\<close>

datatype stage = AUTH | LIST | WRITE | SIZE | MOVE | DELETE

text \<open>The outcome of the stages: the stage that failed with its exception, or success.\<close>

type_synonym staged = "(stage \<times> exc) + unit"

definition stage_run :: "stage \<Rightarrow> 'a rc \<Rightarrow> ('a \<Rightarrow> staged rc) \<Rightarrow> staged rc" where
  "stage_run st m f s = (case m s of (Inl e, s') \<Rightarrow> (Inr (Inl (st, e)), s') | (Inr a, s') \<Rightarrow> f a s')"

definition fail_at :: "stage \<Rightarrow> exc \<Rightarrow> staged rc" where
  "fail_at st e = returnR (Inl (st, e))"

definition test_temp :: "ustr \<Rightarrow> ustr" where
  "test_temp token = asc ''.tg2cloud-verify-'' @ token @ asc ''.uploading''"

definition test_final :: "ustr \<Rightarrow> ustr" where
  "test_final token = asc ''.tg2cloud-verify-'' @ token @ asc ''.ok''"

definition TEST_SIZE :: int where
  "TEST_SIZE = 256"

definition msg_test_size :: "rclone \<Rightarrow> ustr \<Rightarrow> int \<Rightarrow> ustr" where
  "msg_test_size R what n = r_label R @ asc '' WebDAV '' @ what @ [27979, 35797, 25991, 20214, 22823, 23567,
      38169, 35823, 65306] @ dec n @ asc '' != '' @ dec TEST_SIZE"

definition msg_test_left :: "rclone \<Rightarrow> ustr" where
  "msg_test_left R = r_label R @ asc '' WebDAV '' @ [20020, 26102, 27979, 35797, 25991, 20214, 25913, 21517,
      21518, 20173, 28982, 23384, 22312]"

definition msg_test_undeleted :: "rclone \<Rightarrow> ustr" where
  "msg_test_undeleted R = r_label R @ asc '' WebDAV '' @ [27979, 35797, 25991, 20214, 28165, 29702, 22833, 36133]"

definition test_delete :: "rclone \<Rightarrow> ustr \<Rightarrow> staged rc" where
  "test_delete R token = stage_run DELETE (remote_remove R (test_final token)) (\<lambda>_.
     stage_run DELETE (remote_exists R (test_final token)) (\<lambda>still.
       if still then fail_at DELETE (RuntimeError (msg_test_undeleted R)) else returnR (Inr ())))"

definition test_move :: "rclone \<Rightarrow> ustr \<Rightarrow> staged rc" where
  "test_move R token = stage_run MOVE (remote_move R (test_temp token) (test_final token)) (\<lambda>_.
     stage_run MOVE (remote_size R (test_final token)) (\<lambda>n.
       if n \<noteq> TEST_SIZE then fail_at MOVE (RuntimeError (msg_test_size R [26368, 32456] n))
       else stage_run MOVE (remote_exists R (test_temp token)) (\<lambda>left.
         if left then fail_at MOVE (RuntimeError (msg_test_left R)) else test_delete R token)))"

text \<open>With OpenList the object is written under its final name and never renamed.\<close>

definition test_stages :: "rclone \<Rightarrow> ustr \<Rightarrow> ustr \<Rightarrow> staged rc" where
  "test_stages R local_path token =
    (let target = (if r_openlist R then test_final token else test_temp token) in
     stage_run AUTH (verify_authentication R) (\<lambda>_.
     stage_run LIST (prepare_destination R) (\<lambda>_.
     stage_run WRITE (remote_upload R local_path target) (\<lambda>_.
     stage_run SIZE (remote_size R target) (\<lambda>n.
       if n \<noteq> TEST_SIZE then fail_at SIZE (RuntimeError (msg_test_size R [20020, 26102] n))
       else if r_openlist R then test_delete R token else test_move R token)))))"

text \<open>The \<open>finally\<close> clause: every removal is tried; only a cancellation stops it.\<close>

fun test_cleanup :: "rclone \<Rightarrow> ustr list \<Rightarrow> unit rc" where
  "test_cleanup R [] = returnR ()"
| "test_cleanup R (p # ps) = thenR (tryR (remote_remove R p) (\<lambda>e. if e = CancelledError then raiseR e else returnR ()))
     (test_cleanup R ps)"

definition test_objects :: "rclone \<Rightarrow> ustr \<Rightarrow> ustr list" where
  "test_objects R token = (if r_openlist R then [test_final token] else [test_temp token, test_final token])"

definition needs_cleanup :: "staged \<Rightarrow> bool" where
  "needs_cleanup r = (case r of Inr _ \<Rightarrow> False
     | Inl (st, e) \<Rightarrow> (case e of MoveUncertainError m \<Rightarrow> False | _ \<Rightarrow> st \<notin> {AUTH, LIST}))"

text \<open>
  \<open>verify_destination\<close>: the path of the test object, or the stage and the text of the error
  (\<open>DestinationVerificationError\<close>). A MoveUncertainError of the first two stages, which do not
  rename, is no case of its own.
\<close>

definition verify_destination :: "rclone \<Rightarrow> ustr \<Rightarrow> ustr \<Rightarrow> ((stage \<times> ustr) + ustr) rc" where
  "verify_destination R local_path token =
    bindR (test_stages R local_path token) (\<lambda>r.
      thenR (if needs_cleanup r then test_cleanup R (test_objects R token) else returnR ())
        (case r of Inr _ \<Rightarrow> returnR (Inr (test_final token))
         | Inl (st, e) \<Rightarrow> if e = CancelledError then raiseR e else returnR (Inl (st, exc_text e))))"

section \<open>The calls of the test\<close>

text \<open>What the test may call: it looks, makes the target directory, and works on its own objects.\<close>

definition own_call :: "rclone \<Rightarrow> ustr \<Rightarrow> ustr \<Rightarrow> call \<Rightarrow> bool" where
  "own_call R local_path token c \<longleftrightarrow> looks c \<or> c = Command [asc ''obscure'', asc ''-'']
     \<or> (\<exists>q. remote R [] = Inr q \<and> c = Command [asc ''mkdir'', q])
     \<or> (\<exists>p q args. p \<in> set (test_objects R token) \<and> remote R p = Inr q
          \<and> (c = Command ([asc ''copyto'', local_path, q] @ args) \<or> c = Command [asc ''deletefile'', q]))
     \<or> (\<exists>args. \<not> r_openlist R \<and> move_args R (test_temp token) (test_final token) args \<and> c = Command args)"

lemma calls_weaken: "calls ok m \<Longrightarrow> (\<And>c. ok c \<Longrightarrow> ok' c) \<Longrightarrow> calls ok' m"
  unfolding calls_def list_all_iff by blast

lemma calls_own_looks: "calls looks m \<Longrightarrow> calls (own_call R l token) m"
  by (erule calls_weaken) (simp add: own_call_def)

lemma calls_write_config: "calls ok (write_config R original c obscured)"
  unfolding write_config_def by (intro call_rules) (simp add: calls_def)

lemma calls_ensure_config: "ok (Command [asc ''obscure'', asc ''-'']) \<Longrightarrow> calls ok (ensure_config R)"
  unfolding ensure_config_def by (intro call_rules calls_write_config)

lemma calls_moveto: "calls (\<lambda>c. \<exists>args. move_args R a b args \<and> c = Command args) (moveto R a b opts)"
  unfolding moveto_def by (intro call_rules) (auto simp: move_args_def)

lemma calls_move: "calls (\<lambda>c. looks c \<or> (\<exists>args. move_args R a b args \<and> c = Command args)) (remote_move R a b)"
  unfolding remote_move_def
  by (intro call_rules calls_weaken[OF calls_moveto] calls_weaken[OF calls_size] calls_weaken[OF calls_reconcile]) auto

lemma calls_stage: "calls ok m \<Longrightarrow> (\<And>a. calls ok (f a)) \<Longrightarrow> calls ok (stage_run st m f)"
proof -
  assume m: "calls ok m" and f: "\<And>a. calls ok (f a)"
  have "stage_run st m f = bindR (tryR (bindR m (\<lambda>a. returnR (Inr a))) (\<lambda>e. returnR (Inl (st, e))))
      (\<lambda>x. case x of Inl e \<Rightarrow> returnR (Inl e) | Inr a \<Rightarrow> f a)"
    by (rule ext) (simp add: stage_run_def bindR_def tryR_def returnR_def split: prod.split sum.split)
  with m f show ?thesis by (simp only:) (intro call_rules)
qed

lemma calls_fail: "calls ok (fail_at st e)"
  unfolding fail_at_def by (rule calls_return)

lemma own_delete: "p \<in> set (test_objects R token) \<Longrightarrow> remote R p = Inr q \<Longrightarrow> own_call R l token (Command [asc ''deletefile'', q])"
  by (auto simp: own_call_def)

lemma own_copy: "p \<in> set (test_objects R token) \<Longrightarrow> remote R p = Inr q \<Longrightarrow>
    own_call R l token (Command (asc ''copyto'' # l # q # args))"
  unfolding own_call_def by fastforce

lemma own_basic: "own_call R l token (Command [asc ''obscure'', asc ''-''])"
  "looks c \<Longrightarrow> own_call R l token c" "remote R [] = Inr q \<Longrightarrow> own_call R l token (Command [asc ''mkdir'', q])"
  by (auto simp: own_call_def)

lemma calls_prepare: "calls (own_call R l token) (prepare_destination R)"
  unfolding prepare_destination_def
  by (intro call_rules calls_ensure_config) (auto simp: own_basic)

lemma calls_remove: "p \<in> set (test_objects R token) \<Longrightarrow> calls (own_call R l token) (remote_remove R p)"
  unfolding remote_remove_def by (intro call_rules) (auto intro: own_delete)

lemma final_object: "test_final token \<in> set (test_objects R token)"
  by (simp add: test_objects_def)

lemma calls_test_delete: "calls (own_call R l token) (test_delete R token)"
  unfolding test_delete_def
  by (intro calls_stage call_rules calls_fail calls_remove[OF final_object] calls_own_looks)

lemma calls_test_move: "\<not> r_openlist R \<Longrightarrow> calls (own_call R l token) (test_move R token)"
  unfolding test_move_def
  by (intro calls_stage calls_if calls_fail calls_test_delete calls_own_looks[OF calls_size] calls_own_looks[OF calls_exists]
      calls_weaken[OF calls_move]) (auto simp: own_call_def)

lemma calls_test_stages: "calls (own_call R l token) (test_stages R l token)"
proof -
  have auth: "calls (own_call R l token) (verify_authentication R)"
    unfolding verify_authentication_def by (intro call_rules calls_ensure_config) (auto simp: own_basic)
  have upload: "calls (own_call R l token) (remote_upload R l p)" if "p \<in> set (test_objects R token)" for p
    unfolding remote_upload_def using that by (intro call_rules calls_prepare) (auto intro: own_copy)
  show ?thesis unfolding test_stages_def Let_def
    by (intro calls_stage auth calls_prepare upload calls_if calls_fail calls_own_looks[OF calls_size] calls_test_delete
        calls_test_move) (auto simp: test_objects_def)
qed

lemma calls_cleanup: "set ps \<subseteq> set (test_objects R token) \<Longrightarrow> calls (own_call R l token) (test_cleanup R ps)"
  by (induction ps) (auto intro!: call_rules calls_remove)

section \<open>The test cleans up\<close>

lemma remove_step:
  assumes "remote_remove R p s = (r, s')" "remote R p = Inr q"
  shows "rs_calls s' = rs_calls s @ [Command [asc ''deletefile'', q]]"
proof -
  from assms have "bindR (run_raw R [asc ''deletefile'', q]) (\<lambda>_. returnR ()) s = (r, s')"
    by (simp add: remote_remove_def on_remote_def bindR_def liftR_def ignore_def)
  then show ?thesis by (cases rule: bindR_cases) (auto simp: returnR_def dest: run_raw_step)
qed

lemma cleanup_deletes:
  assumes "test_cleanup R ps s = (Inr (), s')" "p \<in> set ps" "remote R p = Inr q"
  shows "\<exists>new. rs_calls s' = rs_calls s @ new \<and> Command [asc ''deletefile'', q] \<in> set new"
  using assms
proof (induction ps arbitrary: s)
  case (Cons x ps)
  let ?once = "tryR (remote_remove R x) (\<lambda>e. if e = CancelledError then raiseR e else returnR ())"
  from Cons.prems(1) have "bindR ?once (\<lambda>_. test_cleanup R ps) s = (Inr (), s')" by (simp add: thenR_def)
  then show ?case
  proof (cases rule: bindR_cases)
    case (returned u s1)
    have "calls (\<lambda>c. True) ?once" unfolding remote_remove_def by (intro call_rules) auto
    from callsD[OF this returned(1)] obtain a where a: "rs_calls s1 = rs_calls s @ a" by blast
    have "calls (\<lambda>c. True) (test_cleanup R ps)"
      by (induction ps) (auto intro!: call_rules simp: remote_remove_def)
    from callsD[OF this returned(2)] obtain b where b: "rs_calls s' = rs_calls s1 @ b" by blast
    show ?thesis
    proof (cases "p = x")
      case True
      obtain r2 s2 where r2: "remote_remove R p s = (r2, s2)" by force
      have "s2 = s1" using returned(1) r2 True by (auto simp: tryR_def raiseR_def returnR_def split: sum.splits if_splits)
      with remove_step[OF r2 Cons.prems(3)] b show ?thesis by auto
    next
      case False
      with Cons.IH[OF returned(2)] Cons.prems(2,3) a show ?thesis by auto
    qed
  qed simp
qed simp

lemma stage_success:
  assumes "stage_run st m f s = (Inr (Inr ()), s')"
  obtains a s1 where "m s = (Inr a, s1)" "f a s1 = (Inr (Inr ()), s')"
  using assms by (auto simp: stage_run_def split: prod.splits sum.splits)

lemma delete_success: "test_delete R token s = (Inr (Inr ()), s') \<Longrightarrow> \<exists>s1. remote_exists R (test_final token) s1 = (Inr False, s')"
  unfolding test_delete_def
  by (elim stage_success) (auto simp: fail_at_def returnR_def split: if_splits)

lemma stages_success:
  assumes "test_stages R l token s = (Inr (Inr ()), s')"
  shows "\<exists>s1. remote_exists R (test_final token) s1 = (Inr False, s')"
proof -
  have move: "\<exists>s1. remote_exists R (test_final token) s1 = (Inr False, s')"
    if "test_move R token s = (Inr (Inr ()), s')" for s
    using that unfolding test_move_def
    by (elim stage_success) (auto simp: fail_at_def returnR_def split: if_splits elim!: stage_success dest: delete_success)
  from assms show ?thesis unfolding test_stages_def Let_def
    by (elim stage_success) (auto simp: fail_at_def returnR_def split: if_splits dest: move delete_success)
qed

text \<open>
  C37. The acceptance test touches nothing on the destination but its own objects. Where it succeeds, the
  last answer of the remote was that the object is gone. Where it fails once writing has begun, it
  ends by deleting every object it may have made, unless it is cancelled; where a rename is uncertain it
  does nothing more, so that both objects can be looked at.
\<close>

theorem acceptance_cleans_up:
  assumes run: "verify_destination R l token s = (r, s')" and stages: "test_stages R l token s = (x, s1)"
  shows "(\<exists>new. rs_calls s' = rs_calls s @ new \<and> list_all (own_call R l token) new)
    \<and> (\<forall>p. r = Inr (Inr p) \<longrightarrow> p = test_final token \<and> (\<exists>s2. remote_exists R p s2 = (Inr False, s')))
    \<and> (\<forall>y. x = Inr y \<longrightarrow> (if needs_cleanup y
          then r \<noteq> Inl CancelledError \<longrightarrow> (\<forall>p \<in> set (test_objects R token). \<forall>q. remote R p = Inr q \<longrightarrow>
             (\<exists>new. rs_calls s' = rs_calls s1 @ new \<and> Command [asc ''deletefile'', q] \<in> set new))
          else s' = s1))"
proof -
  let ?c = "\<lambda>y. if needs_cleanup y then test_cleanup R (test_objects R token) else returnR ()"
  let ?last = "\<lambda>y. case y of Inr _ \<Rightarrow> returnR (Inr (test_final token))
         | Inl (st, e) \<Rightarrow> if e = CancelledError then raiseR e else returnR (Inl (st, exc_text e))"
  have "calls (own_call R l token) (verify_destination R l token)" unfolding verify_destination_def
    by (intro call_rules calls_test_stages calls_cleanup) auto
  from callsD[OF this run] have own: "\<exists>new. rs_calls s' = rs_calls s @ new \<and> list_all (own_call R l token) new" .
  from run have "bindR (test_stages R l token) (\<lambda>y. thenR (?c y) (?last y)) s = (r, s')" by (simp add: verify_destination_def)
  then show ?thesis
  proof (cases rule: bindR_cases)
    case (raised e)
    with own stages show ?thesis by auto
  next
    case (returned y s2)
    with stages have y: "x = Inr y" "s2 = s1" by auto
    from returned(2) y have "bindR (?c y) (\<lambda>_. ?last y) s1 = (r, s')" by (simp add: thenR_def)
    then show ?thesis
    proof (cases rule: bindR_cases)
      case (raised e)
      then have clean: "needs_cleanup y" "test_cleanup R (test_objects R token) s1 = (Inl e, s')" "r = Inl e"
        by (auto simp: returnR_def split: if_splits)
      have "test_cleanup R ps t = (Inl d, t') \<Longrightarrow> d = CancelledError" for ps t d t'
        by (induction ps arbitrary: t)
          (auto simp: returnR_def thenR_def bindR_def tryR_def raiseR_def split: prod.splits sum.splits if_splits)
      with clean y own show ?thesis by auto
    next
      case (returned u s3)
      have done': "s' = s3" using returned(2) by (auto simp: returnR_def raiseR_def split: sum.splits prod.splits if_splits)
      have "p = test_final token \<and> (\<exists>s2. remote_exists R p s2 = (Inr False, s'))" if p: "r = Inr (Inr p)" for p
      proof -
        from p returned(2) have "y = Inr ()" "p = test_final token"
          by (auto simp: returnR_def raiseR_def split: sum.splits prod.splits if_splits)
        with stages_success[of R l token s s1] stages y returned(1) done' show ?thesis
          by (auto simp: needs_cleanup_def returnR_def)
      qed
      moreover have "if needs_cleanup y
          then r \<noteq> Inl CancelledError \<longrightarrow> (\<forall>p \<in> set (test_objects R token). \<forall>q. remote R p = Inr q \<longrightarrow>
             (\<exists>new. rs_calls s' = rs_calls s1 @ new \<and> Command [asc ''deletefile'', q] \<in> set new))
          else s' = s1"
        using returned(1) done' cleanup_deletes[of R "test_objects R token" s1 s'] by (auto simp: returnR_def)
      ultimately show ?thesis using own y by auto
    qed
  qed
qed

text \<open>A destination on which the first write fails.\<close>

definition ex_full :: rclone where
  "ex_full = ex_rclone\<lparr>r_run := \<lambda>k args. if k < 3 then Exited 0 [] [] else Exited 1 [] []\<rparr>"

lemma ex_full_remote: "remote ex_full (test_final [49]) = Inr (asc ''cd2:.tg2cloud-verify-1.ok'')" "remote ex_full [] = Inr (asc ''cd2:'')"
  by (simp_all add: remote_def unsafe_relative_def DOT_def DOTDOT_def ex_full_def ex_selectors remote_path_def strip_set_def
      lstrip_set_def rstrip_set_def asc_def test_final_def)

lemma ex_full_simps: "r_openlist ex_full" "r_P ex_full = ascii_platform" "r_target ex_full = []" "r_edit ex_full k f = f"
  "r_run ex_full k args = (if k < 3 then Exited 0 [] [] else Exited 1 [] [])" "r_name ex_full = asc ''cd2''"
  by (simp_all add: ex_full_def ex_selectors)

lemma ex_full_stages: "\<exists>e s1. test_stages ex_full [] [49] fresh = (Inr (Inl (WRITE, RcloneError e)), s1)"
  by (simp add: test_stages_def stage_run_def verify_authentication_def prepare_destination_def remote_upload_def ensure_config_def
      lookR_def on_remote_def bindR_def liftR_def returnR_def thenR_def ignore_def run_def run_raw_def Let_def ex_full_remote
      fresh_def raiseR_def ex_full_simps ex_texts strip_set_def lstrip_set_def rstrip_set_def)

theorem acceptance_cleans_up_witness:
  "\<exists>c s'. verify_destination ex_full [] [49] fresh = (c, s')
    \<and> (c \<noteq> Inl CancelledError \<longrightarrow> Command [asc ''deletefile'', asc ''cd2:.tg2cloud-verify-1.ok''] \<in> set (rs_calls s'))"
proof -
  obtain r s' where run: "verify_destination ex_full [] [49] fresh = (r, s')" by force
  from ex_full_stages obtain e s1 where st: "test_stages ex_full [] [49] fresh = (Inr (Inl (WRITE, RcloneError e)), s1)" by blast
  have clean: "needs_cleanup (Inl (WRITE, RcloneError e))" by (simp add: needs_cleanup_def)
  from acceptance_cleans_up[OF run st] have "r \<noteq> Inl CancelledError \<longrightarrow> (\<exists>new. rs_calls s' = rs_calls s1 @ new
      \<and> Command [asc ''deletefile'', asc ''cd2:.tg2cloud-verify-1.ok''] \<in> set new)"
    using ex_full_remote(1) final_object clean by metis
  then have "r \<noteq> Inl CancelledError \<longrightarrow>
      Command [asc ''deletefile'', asc ''cd2:.tg2cloud-verify-1.ok''] \<in> set (rs_calls s')" by fastforce
  with run show ?thesis by blast
qed

end
