(* ===== verification/RcloneEngine.thy ===== *)
theory RcloneEngine
  imports Rclone Safety
begin

text \<open>
  The transfer handlers on top of the client of \<open>storage/rclone.py\<close>: \<open>with_client\<close> plugs the model
  of the client into the environment of the handlers, so that an awaited \<open>exists\<close>, \<open>remote_size\<close>,
  \<open>remove\<close> or \<open>move\<close> is a run of \<open>rclone\<close> processes. The number of the event chooses the client, so
  that every event meets its own behaviour of the remote.

  The third interpretation of \<open>engine_invariant\<close> says that the answers in the trace of a handler
  are those the environment gave; with the theorems on the client this leads from what a handler
  relied on to what \<open>rclone\<close> itself reported.
\<close>

definition with_client :: "(nat \<Rightarrow> rclone) \<Rightarrow> env \<Rightarrow> env" where
  "with_client R E = E\<lparr>
     e_exists := \<lambda>n p. fst (remote_exists (R n) p fresh),
     e_size := \<lambda>n p. fst (remote_size (R n) p fresh),
     e_remove := \<lambda>n p. fst (remote_remove (R n) p fresh),
     e_move := \<lambda>n p q. fst (remote_move (R n) p q fresh)\<rparr>"

definition answers_given :: "env \<Rightarrow> action list \<Rightarrow> bool" where
  "answers_given E tr \<longleftrightarrow> (\<forall>a \<in> set tr. \<exists>n. genuine E n a)"

interpretation given: engine_invariant E i "\<lambda>t. True" "\<lambda>w. answers_given E (w_trace w)"
  by unfold_locales (auto simp: answers_given_def awaited_def synced_def genuine_def)

lemma handler_answers:
  assumes "h \<in> handlers E fuel i" "w_trace w = []"
  shows "answers_given E (w_trace (snd (h w)))"
proof -
  have "answers_given E (w_trace w)" using assms(2) by (simp add: answers_given_def)
  then show ?thesis
    using assms(1) given.on_upload given.on_stream given.on_download unfolding handlers_def by blast
qed

lemma known_in: "a \<in> known tr \<Longrightarrow> a \<in> set tr"
  by (induction tr rule: rev_induct) (auto split: if_splits simp: known_def)

lemma given_client:
  assumes "answers_given (with_client R E) tr"
  shows "Exists p (Inr b) \<in> set tr \<Longrightarrow> \<exists>n s'. remote_exists (R n) p fresh = (Inr b, s')"
    and "SizeOf p (Inr sz) \<in> set tr \<Longrightarrow> \<exists>n s'. remote_size (R n) p fresh = (Inr sz, s')"
    and "MoveTo p q r \<in> set tr \<Longrightarrow> \<exists>n. r = fst (remote_move (R n) p q fresh)"
  using assms by (fastforce simp: answers_given_def genuine_def with_client_def eq_fst_iff)+


section \<open>A sample run\<close>

text \<open>The sample run of theory Safety on an \<open>rclone\<close> that finds nothing and prints the size 100.\<close>

definition ex_hundred :: ustr where
  "ex_hundred = asc ''{\"bytes\":100}''"

definition ex_store :: rclone where
  "ex_store = ex_rclone\<lparr>r_openlist := False, r_run := \<lambda>k args.
     if hd args = asc ''lsjson'' then Exited 3 [] []
     else if hd args = asc ''size'' then Exited 0 ex_hundred [] else Exited 0 [] []\<rparr>"

lemma ex_store_simps: "r_P ex_store = ascii_platform" "r_openlist ex_store = False" "r_readers ex_store = ex_readers"
  "r_edit ex_store k f = f" "r_run ex_store k args = (if hd args = asc ''lsjson'' then Exited 3 [] []
     else if hd args = asc ''size'' then Exited 0 ex_hundred [] else Exited 0 [] [])"
  by (simp_all add: ex_store_def ex_selectors)

lemma ex_hundred_text: "loads ascii_platform ex_hundred = Some (JObj [(asc ''bytes'', JInt 100)])"
  "strip_space ascii_platform ex_hundred = ex_hundred"
  by (simp_all add: ex_hundred_def strip_space_def ascii_platform_def scan_eval)

lemma ex_store_remote: "\<exists>q. remote ex_store (asc ''a.mp4'') = Inr q" "\<exists>q. remote ex_store ex_staged = Inr q"
  by (simp_all add: remote_def unsafe_relative_def DOT_def DOTDOT_def asc_def ex_staged_def)

lemma ex_store_answers:
  assumes "\<exists>q. remote ex_store p = Inr q"
  shows "fst (remote_exists ex_store p fresh) = Inr False" "fst (remote_size ex_store p fresh) = Inr 100"
    "(\<exists>q. remote ex_store b = Inr q) \<Longrightarrow> fst (remote_move ex_store p b fresh) = Inr ()"
  using assms
  by (auto simp: remote_exists_def remote_size_def remote_move_def moveto_def ignore_def on_remote_def bindR_def liftR_def
      tryR_def run_def run_raw_def Let_def returnR_def ex_store_simps ex_texts ex_hundred_text parse_size_def py_int_def asc_def)

definition ex_client :: env where
  "ex_client = with_client (\<lambda>n. ex_store) (ex_env False)"

lemma ex_client_simps:
  "e_P ex_client = ascii_platform" "e_openlist ex_client = False" "e_target ex_client = []"
  "e_max_retries ex_client = 3" "e_dir ex_client = []" "e_time ex_client n = 5"
  "e_others ex_client n d = d" "e_upload ex_client n p q = ([40], Inr ())" "e_local ex_client n p = Some 100"
  "e_unlink ex_client n p = Inr ()" "e_notify ex_client n = Inr ()"
  "e_exists ex_client n (asc ''a.mp4'') = Inr False" "e_exists ex_client n ex_staged = Inr False"
  "e_size ex_client n (asc ''a.mp4'') = Inr 100" "e_size ex_client n ex_staged = Inr 100"
  "e_move ex_client n ex_staged (asc ''a.mp4'') = Inr ()"
  using ex_store_answers ex_store_remote by (simp_all add: ex_client_def with_client_def ex_env_def)

lemma ex_client_run:
  "\<exists>xs ys. w_trace (snd (upload_one ex_client 1 1 (ex_world ex_waiting)))
     = xs @ MoveTo ex_staged (asc ''a.mp4'') (Inr ()) # ys"
proof -
  have "w_trace (snd (upload_one ex_client 1 1 (ex_world ex_waiting))) =
    [Persist 1 Uploading [ARemote (Some ex_staged), ATemp (Some ex_staged)],
     UploadTo [120] ex_staged (Inr ()), Persist 1 Verifying [], SizeOf ex_staged (Inr 100),
     Exists (asc ''a.mp4'') (Inr False),
     Persist 1 Finalizing [ARemote (Some (asc ''a.mp4'')), ATemp (Some ex_staged), AFinal (Some (asc ''a.mp4''))]]
     @ MoveTo ex_staged (asc ''a.mp4'') (Inr ()) # [SizeOf (asc ''a.mp4'') (Inr 100),
     Exists ex_staged (Inr False),
     Persist 1 CleanupPending (cleanup_fields (asc ''a.mp4'') 100 5), Unlink [120] (Inr ()),
     Persist 1 Completed completed_fields, Notify]"
    by (simp add: ex_client_simps call_simps run_simps ex_world_def ex_get ex_waiting_def ex_scope ex_name ex_staging
        truthy_def transition_def sets_state_def get_upd_state can_transition_def cleanup_fields_def
        completed_fields_def assign_all_def keyed_def upto.simps joined_def
        remote_claimed_def protected_remote_def update_def check_scope_def row_simps)
  then show ?thesis by blast
qed


end
