(* ===== verification/Effects.thy ===== *)
theory Effects
  imports Main
begin

text \<open>
  Programs that change a state, return a value or raise: the control the coroutines of the listener
  are written in, with a partial-correctness logic. \<open>spec P m Q X\<close> says that from a state in \<open>P\<close>
  the program returns a value with \<open>Q\<close> or raises with \<open>X\<close>; its rules are in \<open>spec_rules\<close>.
\<close>

section \<open>Programs\<close>

type_synonym ('s, 'e, 'a) eff = "'s \<Rightarrow> ('e + 'a) \<times> 's"

definition returnL :: "'a \<Rightarrow> ('s, 'e, 'a) eff" where
  "returnL a s = (Inr a, s)"

definition raiseL :: "'e \<Rightarrow> ('s, 'e, 'a) eff" where
  "raiseL e s = (Inl e, s)"

definition bindL :: "('s, 'e, 'a) eff \<Rightarrow> ('a \<Rightarrow> ('s, 'e, 'b) eff) \<Rightarrow> ('s, 'e, 'b) eff" where
  "bindL m f s = (case m s of (Inl e, s') \<Rightarrow> (Inl e, s') | (Inr a, s') \<Rightarrow> f a s')"

definition thenL :: "('s, 'e, 'a) eff \<Rightarrow> ('s, 'e, 'b) eff \<Rightarrow> ('s, 'e, 'b) eff" where
  "thenL m n = bindL m (\<lambda>_. n)"

text \<open>\<open>except\<close>, and \<open>finally\<close>, whose own exception replaces the one on its way.\<close>

definition catchL :: "('s, 'e, 'a) eff \<Rightarrow> ('e \<Rightarrow> ('s, 'e, 'a) eff) \<Rightarrow> ('s, 'e, 'a) eff" where
  "catchL m h s = (case m s of (Inl e, s') \<Rightarrow> h e s' | (Inr a, s') \<Rightarrow> (Inr a, s'))"

definition finallyL :: "('s, 'e, 'a) eff \<Rightarrow> ('s, 'e, unit) eff \<Rightarrow> ('s, 'e, 'a) eff" where
  "finallyL m n = bindL (catchL m (\<lambda>e. thenL n (raiseL e))) (\<lambda>a. thenL n (returnL a))"

definition lookL :: "('s \<Rightarrow> ('s, 'e, 'a) eff) \<Rightarrow> ('s, 'e, 'a) eff" where
  "lookL f s = f s s"

definition stepL :: "('s \<Rightarrow> 's) \<Rightarrow> ('s, 'e, unit) eff" where
  "stepL f s = (Inr (), f s)"

definition whenL :: "bool \<Rightarrow> ('s, 'e, unit) eff \<Rightarrow> ('s, 'e, unit) eff" where
  "whenL b m = (if b then m else returnL ())"

section \<open>Their logic\<close>

named_theorems spec_rules \<open>rules of the logic\<close>

definition spec :: "('s \<Rightarrow> bool) \<Rightarrow> ('s, 'e, 'a) eff \<Rightarrow> ('a \<Rightarrow> 's \<Rightarrow> bool) \<Rightarrow> ('e \<Rightarrow> 's \<Rightarrow> bool) \<Rightarrow> bool" where
  "spec P m Q X \<longleftrightarrow> (\<forall>s. P s \<longrightarrow> (case m s of (Inl e, s') \<Rightarrow> X e s' | (Inr a, s') \<Rightarrow> Q a s'))"

lemma specI: "(\<And>s r s'. P s \<Longrightarrow> m s = (r, s') \<Longrightarrow> (case r of Inl e \<Rightarrow> X e s' | Inr a \<Rightarrow> Q a s')) \<Longrightarrow> spec P m Q X"
  by (fastforce simp: spec_def split: prod.split sum.split)

lemma specD: "spec P m Q X \<Longrightarrow> P s \<Longrightarrow> m s = (r, s') \<Longrightarrow> (case r of Inl e \<Rightarrow> X e s' | Inr a \<Rightarrow> Q a s')"
  by (fastforce simp: spec_def split: prod.splits sum.splits)

lemma spec_conseq:
  "spec P m Q X \<Longrightarrow> (\<And>s. P' s \<Longrightarrow> P s) \<Longrightarrow> (\<And>a s. Q a s \<Longrightarrow> Q' a s) \<Longrightarrow> (\<And>e s. X e s \<Longrightarrow> X' e s)
    \<Longrightarrow> spec P' m Q' X'"
  by (fastforce simp: spec_def split: prod.splits sum.splits)

lemma spec_return [spec_rules]: "spec (Q a) (returnL a) Q X"
  by (simp add: spec_def returnL_def)

lemma spec_raise [spec_rules]: "spec (X e) (raiseL e) Q X"
  by (simp add: spec_def raiseL_def)

lemma spec_bind: "spec P m R X \<Longrightarrow> (\<And>a. spec (R a) (f a) Q X) \<Longrightarrow> spec P (bindL m f) Q X"
  by (fastforce simp: spec_def bindL_def split: prod.splits sum.splits)

lemma spec_then: "spec P m (\<lambda>_. R) X \<Longrightarrow> spec R n Q X \<Longrightarrow> spec P (thenL m n) Q X"
  unfolding thenL_def by (rule spec_bind)

lemma spec_catch: "spec P m Q Y \<Longrightarrow> (\<And>e. spec (Y e) (h e) Q X) \<Longrightarrow> spec P (catchL m h) Q X"
  by (fastforce simp: spec_def catchL_def split: prod.splits sum.splits)

lemma spec_look: "(\<And>w. spec (\<lambda>s. P s \<and> s = w) (f w) Q X) \<Longrightarrow> spec P (lookL f) Q X"
  by (fastforce simp: spec_def lookL_def split: prod.splits sum.splits)

lemma spec_step [spec_rules]: "spec (\<lambda>s. Q () (f s)) (stepL f) Q X"
  by (simp add: spec_def stepL_def)

lemma spec_if: "(b \<Longrightarrow> spec P m Q X) \<Longrightarrow> (\<not> b \<Longrightarrow> spec P' n Q X) \<Longrightarrow>
    spec (\<lambda>s. if b then P s else P' s) (if b then m else n) Q X"
  by simp

text \<open>An assertion that holds throughout: after every return and every exception.\<close>

abbreviation remains :: "('s \<Rightarrow> bool) \<Rightarrow> ('s, 'e, 'a) eff \<Rightarrow> bool" where
  "remains I m \<equiv> spec I m (\<lambda>_. I) (\<lambda>_. I)"

lemma remains_return [intro, simp]: "remains I (returnL a)"
  and remains_raise [intro, simp]: "remains I (raiseL e)"
  by (simp_all add: spec_def returnL_def raiseL_def)

lemma remains_bind [intro]: "remains I m \<Longrightarrow> (\<And>a. remains I (f a)) \<Longrightarrow> remains I (bindL m f)"
  by (rule spec_bind)

lemma remains_then [intro]: "remains I m \<Longrightarrow> remains I n \<Longrightarrow> remains I (thenL m n)"
  by (rule spec_then)

lemma remains_catch [intro]: "remains I m \<Longrightarrow> (\<And>e. remains I (h e)) \<Longrightarrow> remains I (catchL m h)"
  by (rule spec_catch)

lemma remains_finally [intro]: "remains I m \<Longrightarrow> remains I n \<Longrightarrow> remains I (finallyL m n)"
  unfolding finallyL_def by (intro remains_bind remains_catch remains_then remains_return remains_raise)

lemma remains_look [intro]: "(\<And>w. remains I (f w)) \<Longrightarrow> remains I (lookL f)"
  by (fastforce simp: spec_def lookL_def split: prod.splits sum.splits)

lemma remains_step [intro]: "(\<And>s. I s \<Longrightarrow> I (f s)) \<Longrightarrow> remains I (stepL f)"
  by (simp add: spec_def stepL_def)

lemma remains_when [intro]: "remains I m \<Longrightarrow> remains I (whenL b m)"
  by (simp add: whenL_def)

lemma remains_run: "remains I m \<Longrightarrow> I s \<Longrightarrow> I (snd (m s))"
  using specD[of I m "\<lambda>_. I" "\<lambda>_. I" s "fst (m s)" "snd (m s)"] by (simp split: sum.splits)

end
