(* ===== verification/Listener.thy ===== *)
theory Listener
  imports Effects PlanLaws NamePlan Scheduler
begin

text \<open>
  The listening component, \<open>src/tg2cloud/listening/service.py\<close> (class \<open>Listener\<close>): it reads the
  sources of a personal Telegram account page by page, decides on every message by the rules of the
  source, and registers a plan for what matches.

  The state is the database, the client that is connected (a number for each client object) and the
  attributes of the object. Everything else is the environment \<open>link\<close>: clocks, Telegram, the stop
  event. Every observation has a number; \<open>k_others\<close> is what the other coroutines do to the state
  during the \<open>await\<close> with that number. An \<open>await\<close> may answer with any exception, a cancellation
  included, so the theorems hold for every point at which a request fails or is cancelled.
\<close>

section \<open>Exceptions\<close>

text \<open>
  Those of the program and of the standard library (\<open>Py\<close>), a flood wait of Telegram with its
  seconds, another error of Telegram with the name of its class, its server errors and time-outs,
  and the classes that the module declares.
\<close>

datatype lexc = Py exc | Flood int | Rpc ustr | ServerFault | SdkTimeout | ReceiveLimited ustr
  | ConnectionDown ustr | AttachmentUnavailable

definition AUTH_ERRORS :: "ustr list" where
  "AUTH_ERRORS = map asc [''AuthKeyUnregisteredError'', ''SessionRevokedError'', ''SessionExpiredError'',
     ''UserDeactivatedError'', ''UserDeactivatedBanError'', ''AuthKeyDuplicatedError'']"

definition ACCESS_ERRORS :: "ustr list" where
  "ACCESS_ERRORS = map asc [''ChannelPrivateError'', ''UserNotParticipantError'',
     ''ChatAdminRequiredError'', ''ChatForwardsRestrictedError'', ''MediaEmptyError'']"

definition is_auth :: "lexc \<Rightarrow> bool" where
  "is_auth e = (case e of Rpc n \<Rightarrow> n \<in> set AUTH_ERRORS | _ \<Rightarrow> False)"

definition is_access :: "lexc \<Rightarrow> bool" where
  "is_access e = (case e of Rpc n \<Rightarrow> n \<in> set ACCESS_ERRORS | _ \<Rightarrow> False)"

text \<open>\<open>isinstance\<close> along the class hierarchy.\<close>

definition is_read_error :: "lexc \<Rightarrow> bool" where
  "is_read_error e = (case e of Py x \<Rightarrow> is_listener_error x | AttachmentUnavailable \<Rightarrow> True | _ \<Rightarrow> False)"

definition is_value_error :: "lexc \<Rightarrow> bool" where
  "is_value_error e = (case e of
     Py x \<Rightarrow> (case x of ValueError t \<Rightarrow> True | QuotaExceeded t \<Rightarrow> True | PlanningError t \<Rightarrow> True | _ \<Rightarrow> False)
   | ReceiveLimited t \<Rightarrow> True | _ \<Rightarrow> False)"

definition is_runtime_error :: "lexc \<Rightarrow> bool" where
  "is_runtime_error e = (case e of
     Py x \<Rightarrow> (case x of RuntimeError t \<Rightarrow> True | NotImplementedError \<Rightarrow> True | RcloneError t \<Rightarrow> True
       | MoveUncertainError t \<Rightarrow> True | RemoteReviewRequired t \<Rightarrow> True | ListenerReadError t \<Rightarrow> True
       | ListenerRateLimited t n \<Rightarrow> True | _ \<Rightarrow> False)
   | AttachmentUnavailable \<Rightarrow> True | _ \<Rightarrow> False)"

definition is_io_error :: "lexc \<Rightarrow> bool" where
  "is_io_error e = (case e of
     Py x \<Rightarrow> (case x of OSError t \<Rightarrow> True | PermissionError t \<Rightarrow> True | FileNotFoundError t \<Rightarrow> True
       | TimeoutError \<Rightarrow> True | SourceTemporaryError k \<Rightarrow> True | _ \<Rightarrow> False)
   | ConnectionDown t \<Rightarrow> True | _ \<Rightarrow> False)"

definition is_exception :: "lexc \<Rightarrow> bool" where
  "is_exception e \<longleftrightarrow> e \<noteq> Py CancelledError"

section \<open>State and environment\<close>

record wait_record =
  w_task :: int
  w_source :: "int option"
  w_count :: nat
  w_seconds :: int
  w_until :: rat
  w_logged :: "rat option"

record listener =
  l_db :: plandb
  l_client :: "nat option"
  l_clients :: nat
  l_session :: bool
  l_notice :: "rat option"
  l_verified :: "int \<Rightarrow> rat"
  l_after :: int
  l_due :: "rat option"
  l_warned :: bool
  l_failures :: nat
  l_backoff :: backoff
  l_waits :: "wait_record list"
  l_gates :: "int \<Rightarrow> (rat \<times> bool) option"
  l_tick :: nat

text \<open>What Telegram tells: a chat, the membership in it, and a message of a page.\<close>

record chat_entity =
  ce_group :: bool
  ce_left :: "bool option"
  ce_deactivated :: bool
  ce_peer :: int
  ce_title :: ustr

record membership =
  me_typed :: bool
  me_left :: bool
  me_banned :: bool
  me_member_left :: "bool option"
  me_view :: "bool option"
  me_default :: bool
  me_admin :: bool

record post =
  po_message :: tg_message
  po_date :: rat
  po_entities :: "entity list"

record personal =
  us_bot :: "bool option"
  us_id :: int

datatype reference = ById int | ByText ustr | ByChat chat_entity

record link =
  k_P :: platform
  k_admin :: int
  k_target :: ustr
  k_classes :: "ustr \<Rightarrow> ustr \<Rightarrow> bool"
  k_wall :: "nat \<Rightarrow> rat"
  k_mono :: "nat \<Rightarrow> rat"
  k_stop :: "nat \<Rightarrow> bool"
  k_others :: "nat \<Rightarrow> listener \<Rightarrow> listener"
  k_entity :: "nat \<Rightarrow> reference \<Rightarrow> lexc + chat_entity"
  k_permissions :: "nat \<Rightarrow> chat_entity \<Rightarrow> lexc + membership"
  k_page :: "nat \<Rightarrow> int \<Rightarrow> int \<Rightarrow> rat \<Rightarrow> nat \<Rightarrow> lexc + post list"
  k_newest :: "nat \<Rightarrow> chat_entity \<Rightarrow> lexc + int list"
  k_invite :: "nat \<Rightarrow> ustr \<Rightarrow> lexc + chat_entity option"
  k_single :: "nat \<Rightarrow> int \<Rightarrow> int \<Rightarrow> lexc + post option"
  k_chunks :: "nat \<Rightarrow> post \<Rightarrow> int list"
  k_request :: "nat \<Rightarrow> int \<Rightarrow> lexc + unit"
  k_premium :: "nat \<Rightarrow> bool"
  k_saved :: "nat \<Rightarrow> lexc + ustr option"
  k_window :: "nat \<Rightarrow> int"
  k_notify :: "nat \<Rightarrow> lexc + unit"
  k_sleep :: "nat \<Rightarrow> lexc + unit"
  k_disconnect :: "nat \<Rightarrow> lexc + unit"
  k_connected :: "nat \<Rightarrow> bool"
  k_lock :: "nat \<Rightarrow> exc + unit"
  k_session_file :: "nat \<Rightarrow> bool"
  k_identity :: "nat \<Rightarrow> lexc + personal option"
  k_folder :: "nat \<Rightarrow> ustr \<Rightarrow> lexc + unit"
  k_timed_out :: "nat \<Rightarrow> bool"

type_synonym 'a lp = "(listener, lexc, 'a) eff"

definition ticked :: "listener \<Rightarrow> listener" where
  "ticked s = s\<lparr>l_tick := l_tick s + 1\<rparr>"

text \<open>An observation without \<open>await\<close>, and an \<open>await\<close>.\<close>

definition senseL :: "(nat \<Rightarrow> 'a) \<Rightarrow> 'a lp" where
  "senseL f s = (Inr (f (l_tick s)), ticked s)"

definition awaitL :: "link \<Rightarrow> (nat \<Rightarrow> lexc + 'a) \<Rightarrow> 'a lp" where
  "awaitL K f s = (f (l_tick s), (k_others K (l_tick s) s)\<lparr>l_tick := l_tick s + 1\<rparr>)"

definition errL :: "exc + 'a \<Rightarrow> lexc + 'a" where
  "errL r = (case r of Inl e \<Rightarrow> Inl (Py e) | Inr a \<Rightarrow> Inr a)"

text \<open>A reading of the database, and a transaction on it.\<close>

definition readL :: "(listener \<Rightarrow> exc + 'a) \<Rightarrow> 'a lp" where
  "readL f s = (errL (f s), s)"

definition dbL :: "(plandb \<Rightarrow> exc + 'a \<times> plandb) \<Rightarrow> 'a lp" where
  "dbL f s = (case f (l_db s) of Inl e \<Rightarrow> (Inl (Py e), s) | Inr (a, d) \<Rightarrow> (Inr a, s\<lparr>l_db := d\<rparr>))"

definition adminL :: "link \<Rightarrow> (plandb \<Rightarrow> plandb) \<Rightarrow> unit lp" where
  "adminL K f = dbL (\<lambda>d. bindE (authorize (k_admin K) (k_admin K) True d) (\<lambda>_. Inr ((), f d)))"

definition on_sources :: "(source_row \<Rightarrow> bool) \<Rightarrow> (source_row \<Rightarrow> source_row) \<Rightarrow> plandb \<Rightarrow> plandb" where
  "on_sources p f d = set_sources (upd_where p f (sources_of d)) d"

section \<open>The membership in a source\<close>

definition msg_not_group :: ustr where
  "msg_not_group = [26469, 28304, 19981, 26159, 24050, 21152, 20837, 19988, 21487, 35775, 38382, 30340, 39057,
      36947, 25110, 32676, 32452]"

definition msg_not_member :: ustr where
  "msg_not_member = [26080, 27861, 30830, 35748, 36134, 21495, 20173, 22312, 26469, 28304, 20013, 65307,
      20572, 27490, 25509, 25910]"

definition msg_no_reading :: ustr where
  "msg_no_reading = [36134, 21495, 24050, 36864, 20986, 25110, 19981, 33021, 35835, 21462, 27492, 26469, 28304]"

definition msg_no_rights :: ustr where
  "msg_no_rights = [26080, 27861, 30830, 35748, 26469, 28304, 25104, 21592, 26435, 38480]"

definition read_error :: "ustr \<Rightarrow> lexc" where
  "read_error t = Py (ListenerReadError t)"

definition verified_chat :: "link \<Rightarrow> reference \<Rightarrow> chat_entity lp" where
  "verified_chat K ref = bindL (awaitL K (\<lambda>k. k_entity K k ref)) (\<lambda>e.
     if \<not> ce_group e \<or> ce_left e \<noteq> Some False \<or> ce_deactivated e then raiseL (read_error msg_not_group)
     else bindL (awaitL K (\<lambda>k. k_permissions K k e)) (\<lambda>p.
       if \<not> me_typed p \<or> me_left p then raiseL (read_error msg_not_member)
       else if me_banned p
         then (if me_member_left p \<noteq> Some False \<or> me_view p \<noteq> Some False then raiseL (read_error msg_no_reading)
               else returnL e)
       else if \<not> (me_default p \<or> me_admin p) then raiseL (read_error msg_no_rights)
       else returnL e))"

section \<open>Captions of albums\<close>

definition post_text :: "post \<Rightarrow> ustr" where
  "post_text m = or_else (t_raw_text (po_message m)) (t_text (po_message m))"

definition post_id :: "post \<Rightarrow> int" where
  "post_id m = t_number (po_message m)"

text \<open>The first text of each album, in the order of the message numbers.\<close>

definition album_captions :: "post list \<Rightarrow> int \<times> int \<Rightarrow> ustr option" where
  "album_captions ms = fold (\<lambda>m captions.
     let key = (t_chat (po_message m), t_grouped (po_message m)) in
     if t_grouped (po_message m) \<noteq> 0 \<and> post_text m \<noteq> [] \<and> captions key = None then captions(key \<mapsto> post_text m)
     else captions) (sort_key post_id ms) (\<lambda>_. None)"

definition message_caption :: "platform \<Rightarrow> post \<Rightarrow> (int \<times> int \<Rightarrow> ustr option) \<Rightarrow> ustr option" where
  "message_caption P m captions =
    (if post_text m \<noteq> [] then Some (post_text m)
     else let original = name_facts P (case t_file (po_message m) of None \<Rightarrow> [] | Some f \<Rightarrow> f_name f) in
       if nf_episode original \<noteq> [] \<or> nf_chapter original \<noteq> [] then None
       else if t_grouped (po_message m) = 0 then None
       else captions (t_chat (po_message m), t_grouped (po_message m)))"

section \<open>Receiving a message\<close>

definition config_value :: "json \<Rightarrow> ustr \<Rightarrow> exc + json" where
  "config_value c k = (case jfind c k of None \<Rightarrow> Inl (KeyError k) | Some v \<Rightarrow> Inr v)"

definition fallback_name :: "item \<Rightarrow> ustr" where
  "fallback_name i = asc ''telegram-'' @ dec (i_message i) @ or_else (i_extension i) (asc ''.bin'')"

text \<open>The facts of a message, the decision of the rules and the naming plan.\<close>

definition preview :: "link \<Rightarrow> source_row \<Rightarrow> post \<Rightarrow> ustr option \<Rightarrow> exc + item \<times> bool \<times> ustr \<times> naming" where
  "preview K source m caption =
    (let i = facts (k_P K) (po_message m) caption in
     bindE (config_value (s_config source) (asc ''rules'')) (\<lambda>rules.
     bindE (evaluate (k_P K) (k_classes K) rules i True) (\<lambda>(matched, reason).
     bindE (config_value (s_config source) (asc ''profile'')) (\<lambda>prof.
     bindE (name_plan (k_P K) (i_original i) (i_caption i) (fallback_name i) (i_extension i)
         (if caption = None \<or> caption = Some (post_text m) then po_entities m else []) prof) (\<lambda>naming.
       Inr (i, matched, reason, naming))))))"

definition journalled :: "int \<Rightarrow> int \<Rightarrow> int \<Rightarrow> plandb \<Rightarrow> bool" where
  "journalled account chat message d \<longleftrightarrow>
     list_ex (\<lambda>e. jr_account e = account \<and> jr_chat e = chat \<and> jr_message e = message) (p_journal d)"

text \<open>\<open>INSERT OR IGNORE\<close>.\<close>

definition journal_insert :: "source_row \<Rightarrow> int \<Rightarrow> ustr \<Rightarrow> bool \<Rightarrow> rat \<Rightarrow> plandb \<Rightarrow> plandb" where
  "journal_insert source message result attachment now d =
    (if journalled (s_account source) (s_chat source) message d then d
     else d\<lparr>p_journal := p_journal d @ [\<lparr>jr_account = s_account source, jr_chat = s_chat source, jr_message = message,
         jr_source = s_id source, jr_result = result, jr_plan = None, jr_created = now, jr_attachment = attachment,
         jr_matched = False\<rparr>]\<rparr>)"

definition journal :: "link \<Rightarrow> source_row \<Rightarrow> int \<Rightarrow> ustr \<Rightarrow> bool \<Rightarrow> unit lp" where
  "journal K source message result attachment =
    bindL (senseL (k_wall K)) (\<lambda>now. adminL K (journal_insert source message result attachment now))"

definition msg_admin_revoked :: ustr where
  "msg_admin_revoked = [31649, 29702, 21592, 25480, 26435, 24050, 22833, 25928]"

definition require_admin :: "link \<Rightarrow> int \<Rightarrow> unit lp" where
  "require_admin K actor = readL (\<lambda>s. bindE (authorize (k_admin K) actor True (l_db s)) (\<lambda>_.
     if actor \<noteq> k_admin K \<or> \<not> authorized (k_admin K) (p_db (l_db s)) (Some actor)
     then Inl (PermissionError msg_admin_revoked) else Inr ()))"

definition admin_source :: "link \<Rightarrow> int \<Rightarrow> listener \<Rightarrow> exc + source_row" where
  "admin_source K i s = the_source (k_admin K) (k_admin K) i (l_db s)"

definition account_value :: "listener \<Rightarrow> exc + json" where
  "account_value s = account_state (p_db (l_db s))"

definition account_enabled :: "json \<Rightarrow> exc + bool" where
  "account_enabled a = bindE (config_value a (asc ''enabled'')) (\<lambda>v. Inr (json_true v))"

definition account_is :: "json \<Rightarrow> int \<Rightarrow> exc + bool" where
  "account_is a n = bindE (config_value a (asc ''account'')) (\<lambda>v. Inr (v = JInt n))"

text \<open>The verification of a source lasts ten seconds.\<close>

definition reverify :: "link \<Rightarrow> source_row \<Rightarrow> unit lp" where
  "reverify K source = bindL (senseL (k_mono K)) (\<lambda>now. lookL (\<lambda>s.
     whenL (l_verified s (s_chat source) < now)
      (thenL (bindL (verified_chat K (ById (s_chat source))) (\<lambda>_. returnL ()))
      (bindL (senseL (k_mono K)) (\<lambda>now.
        stepL (\<lambda>s. s\<lparr>l_verified := (l_verified s)(s_chat source := now + 10)\<rparr>))))))"

definition msg_account_changed :: ustr where
  "msg_account_changed = [30417, 21548, 36134, 21495, 36523, 20221, 21457, 29983, 21464, 21270]"

definition msg_journal_full :: ustr where
  "msg_journal_full = [25509, 25910, 35760, 24405, 36798, 21040, 19978, 38480, 65292, 26242, 20572, 25512,
      36827, 65307, 35831, 22788, 29702, 24453, 30830, 35748, 35760, 24405]"

definition msg_queue_full :: ustr where
  "msg_queue_full = [36164, 28304, 21463, 38480, 65306, 38431, 21015, 36798, 21040, 30417, 21548, 25509,
      25910, 19978, 38480, 65307, 20445, 30041, 36827, 24230, 65292, 20248, 20808, 22788, 29702, 25163, 21160,
          20219, 21153]"

definition res_held :: ustr where
  "res_held = [31561, 24453, 39069, 24230, 25110, 37197, 32622, 26680, 23545, 65288, 24453, 30830, 35748,
      20445, 30041, 65289]"

definition res_late :: ustr where
  "res_late = [36229, 36807] @ asc '' 6 '' @ [23567, 26102, 34917, 25289, 31383, 21475, 65292, 23384, 22312,
      32570, 21475]"

definition receiving_proposal :: "link \<Rightarrow> source_row \<Rightarrow> item \<Rightarrow> naming \<Rightarrow> ustr \<Rightarrow> proposal" where
  "receiving_proposal K source i naming alias = \<lparr>pr_chat = i_chat i, pr_message = i_message i, pr_kind = i_kind i,
     pr_mime = i_mime i, pr_extension = i_extension i, pr_original = i_original i, pr_size = i_size i,
     pr_media_key = i_media_key i, pr_name = nm_file_name naming, pr_basis = nm_basis naming,
     pr_profile = nm_profile naming, pr_identity = listener_identity (s_account source),
     pr_source = Some (s_id source),
     pr_batch = dec (s_id source) @ [58] @ or_else (i_group i) (dec (i_message i)), pr_alias = alias,
     pr_base = Some (k_target K), pr_created_at = None, pr_options = None\<rparr>"

definition alias_of :: "json \<Rightarrow> ustr" where
  "alias_of v = (case as_str v of None \<Rightarrow> [] | Some s \<Rightarrow> s)"

definition notice_due :: "link \<Rightarrow> bool lp" where
  "notice_due K = lookL (\<lambda>s. case l_notice s of None \<Rightarrow> returnL True
     | Some t \<Rightarrow> bindL (senseL (k_mono K)) (\<lambda>now. returnL (60 < now - t)))"

definition announce :: "link \<Rightarrow> bool \<Rightarrow> unit lp" where
  "announce K created = (if \<not> created then returnL () else bindL (notice_due K) (\<lambda>due.
     whenL due (bindL (senseL (k_mono K)) (\<lambda>now. thenL (stepL (\<lambda>s. s\<lparr>l_notice := Some now\<rparr>))
       (awaitL K (k_notify K))))))"

text \<open>A plan that needs no confirmation is submitted; an expected refusal leaves it pending.\<close>

definition submit_plan :: "link \<Rightarrow> plan_row \<Rightarrow> unit lp" where
  "submit_plan K p = catchL
     (bindL (senseL (k_wall K)) (\<lambda>now. bindL (dbL (submit (k_P K) (k_admin K) (k_admin K) (pl_id p) (pl_revision p) now))
       (\<lambda>_. returnL ())))
     (\<lambda>e. if is_value_error e \<or> is_runtime_error e
       then stepL (\<lambda>s. s\<lparr>l_db := (l_db s)\<lparr>p_journal := upd_where (\<lambda>e. jr_plan e = Some (pl_id p))
              (\<lambda>e. e\<lparr>jr_result := res_held\<rparr>) (p_journal (l_db s))\<rparr>\<rparr>)
       else raiseL e)"

definition register :: "link \<Rightarrow> source_row \<Rightarrow> item \<Rightarrow> naming \<Rightarrow> unit lp" where
  "register K source i naming =
    bindL (readL (\<lambda>_. config_value (s_config source) (asc ''directory''))) (\<lambda>dir.
    bindL (senseL (k_wall K)) (\<lambda>now.
    bindL (dbL (create_plan (k_P K) (k_admin K) (k_admin K) (receiving_proposal K source i naming (alias_of dir)) now))
      (\<lambda>(p, created).
    bindL (readL (\<lambda>_. config_value (s_config source) (asc ''confirmation''))) (\<lambda>confirm.
    thenL (whenL (\<not> json_true confirm) (submit_plan K p)) (announce K created)))))"

text \<open>The tests after the permission check: \<open>None\<close> when the message is not to be decided on now.\<close>

definition still_wanted :: "link \<Rightarrow> source_row \<Rightarrow> post \<Rightarrow> listener \<Rightarrow> exc + source_row option" where
  "still_wanted K previous m s =
    bindE (admin_source K (s_id previous) s) (\<lambda>source.
    if s_revision source \<noteq> s_revision previous then Inr None
    else bindE (account_value s) (\<lambda>current.
      bindE (account_enabled current) (\<lambda>on.
      if \<not> on then Inr None
      else bindE (account_is current (s_account source)) (\<lambda>same.
        if \<not> same then Inl (PermissionError msg_account_changed)
        else if \<not> s_enabled source \<or> s_deleted source \<or> post_id m \<le> s_cursor source then Inr None
        else if journalled (s_account source) (s_chat source) (post_id m) (l_db s) then Inr None
        else Inr (Some source)))))"

definition JOURNAL_LIMIT :: nat where "JOURNAL_LIMIT = 20000"
definition QUEUE_LIMIT :: nat where "QUEUE_LIMIT = 100"

definition decide_on :: "link \<Rightarrow> source_row \<Rightarrow> post \<Rightarrow> ustr option \<Rightarrow> unit lp" where
  "decide_on K source m caption = lookL (\<lambda>s.
     if JOURNAL_LIMIT \<le> length (p_journal (l_db s)) then raiseL (ReceiveLimited msg_journal_full)
     else bindL (readL (\<lambda>_. preview K source m caption)) (\<lambda>(i, matched, reason, naming).
       if \<not> matched then journal K source (post_id m) reason (i_attachment i)
       else if QUEUE_LIMIT \<le> count_states (p_db (l_db s)) [Queued, Reserved, Downloading, Streaming]
         then raiseL (ReceiveLimited msg_queue_full)
       else register K source i naming))"

definition receive :: "link \<Rightarrow> source_row \<Rightarrow> post \<Rightarrow> ustr option \<Rightarrow> unit lp" where
  "receive K source m caption =
    thenL (require_admin K (k_admin K))
    (bindL (readL (admin_source K (s_id source))) (\<lambda>previous.
    thenL (reverify K previous)
    (bindL (readL (still_wanted K previous m)) (\<lambda>wanted. case wanted of
      None \<Rightarrow> returnL () | Some source \<Rightarrow> decide_on K source m caption))))"

section \<open>Polling a source\<close>

definition BATCH :: nat where "BATCH = 100"
definition LOOKBACK :: rat where "LOOKBACK = 21600"

text \<open>Whether the source, the account and the client are still those the poll began with.\<close>

definition poll_current :: "link \<Rightarrow> source_row \<Rightarrow> nat option \<Rightarrow> listener \<Rightarrow> exc + bool" where
  "poll_current K source client s =
    bindE (admin_source K (s_id source) s) (\<lambda>current.
    bindE (account_value s) (\<lambda>account.
    if l_client s \<noteq> client \<or> s_revision current \<noteq> s_revision source \<or> \<not> s_enabled current \<or> s_deleted current
    then Inr False
    else bindE (account_enabled account) (\<lambda>on.
      if \<not> on then Inr False else account_is account (s_account source))))"

text \<open>A page of at most \<open>BATCH\<close> messages, with the rest of the album that the limit would cut.\<close>

definition batch_page :: "post list \<Rightarrow> post list" where
  "batch_page ms =
    (if length ms \<le> BATCH then ms
     else let tail = t_grouped (po_message (ms ! (BATCH - 1))) in
       take BATCH ms @ (if tail \<noteq> 0 then filter (\<lambda>m. t_grouped (po_message m) = tail) (drop BATCH ms) else []))"

definition st_gap :: ustr where
  "st_gap = [36229, 20986, 34917, 25289, 31383, 21475, 65292, 21487, 33021, 23384, 22312, 32570, 21475, 65307,
      35831, 26680, 23545, 21382, 21490]"

definition st_gap_outside :: ustr where
  "st_gap_outside = [34917, 25289, 31383, 21475, 22806, 21487, 33021, 23384, 22312, 32570, 21475, 65292,
      35831, 26680, 23545, 21382, 21490]"

definition st_outside :: ustr where
  "st_outside = [34917, 25289, 31383, 21475, 22806, 23384, 22312, 32570, 21475]"

definition st_listening :: ustr where
  "st_listening = [27491, 24120, 30417, 21548]"

text \<open>\<open>UPDATE listener_sources SET cursor=? ... AND cursor<?\<close>.\<close>

definition advance :: "int \<Rightarrow> int \<Rightarrow> ustr \<Rightarrow> plandb \<Rightarrow> plandb" where
  "advance i message status = on_sources (\<lambda>r. s_id r = i \<and> s_cursor r < message)
     (\<lambda>r. r\<lparr>s_cursor := message, s_status := status\<rparr>)"

text \<open>In one transaction: the test of \<open>poll_current\<close>, then the change; \<open>False\<close> when it no longer holds.\<close>

definition if_current :: "link \<Rightarrow> source_row \<Rightarrow> nat option \<Rightarrow> unit lp \<Rightarrow> bool lp" where
  "if_current K source client m =
    bindL (readL (\<lambda>s. bindE (authorize (k_admin K) (k_admin K) True (l_db s)) (\<lambda>_. poll_current K source client s)))
      (\<lambda>ok. if ok then thenL m (returnL True) else returnL False)"

definition advance_cursor :: "link \<Rightarrow> source_row \<Rightarrow> bool \<Rightarrow> post \<Rightarrow> unit lp" where
  "advance_cursor K source gap m =
    bindL (if gap then returnL st_gap_outside
      else bindL (senseL (k_wall K)) (\<lambda>now. returnL (if now - po_date m \<le> LOOKBACK then st_listening else st_outside)))
    (\<lambda>status. stepL (\<lambda>s. s\<lparr>l_db := advance (s_id source) (post_id m) status (l_db s)\<rparr>))"

text \<open>
  One message: \<open>None\<close> to go on with the next, \<open>Some False\<close> when the poll has to return,
  \<open>Some True\<close> at a message younger than two seconds, which ends the loop.
\<close>

definition take_post ::
  "link \<Rightarrow> source_row \<Rightarrow> nat option \<Rightarrow> bool \<Rightarrow> (int \<times> int \<Rightarrow> ustr option) \<Rightarrow> post \<Rightarrow> bool option lp" where
  "take_post K source client gap captions m =
    bindL (senseL (k_wall K)) (\<lambda>now.
    if now - po_date m < 2 then returnL (Some True)
    else bindL (readL (poll_current K source client)) (\<lambda>ok.
      if \<not> ok then returnL (Some False)
      else bindL (readL (admin_source K (s_id source))) (\<lambda>latest.
        bindL (senseL (k_wall K)) (\<lambda>now.
        thenL (if LOOKBACK < now - po_date m then journal K source (post_id m) res_late False
               else receive K latest m (message_caption (k_P K) m captions))
        (bindL (if_current K source client (advance_cursor K source gap m)) (\<lambda>ok.
          returnL (if ok then None else Some False)))))))"

fun take_posts ::
  "link \<Rightarrow> source_row \<Rightarrow> nat option \<Rightarrow> bool \<Rightarrow> (int \<times> int \<Rightarrow> ustr option) \<Rightarrow> post list \<Rightarrow> bool lp" where
  "take_posts K source client gap captions [] = returnL True"
| "take_posts K source client gap captions (m # ms) = bindL (take_post K source client gap captions m) (\<lambda>r.
     case r of None \<Rightarrow> take_posts K source client gap captions ms | Some b \<Rightarrow> returnL b)"

definition mark_gap :: "source_row \<Rightarrow> plandb \<Rightarrow> plandb" where
  "mark_gap source = on_sources (\<lambda>r. s_id r = s_id source) (\<lambda>r. r\<lparr>s_gap := True, s_status := st_gap\<rparr>)"

definition polled :: "source_row \<Rightarrow> rat \<Rightarrow> plandb \<Rightarrow> plandb" where
  "polled source now = on_sources (\<lambda>r. s_id r = s_id source)
     (\<lambda>r. r\<lparr>s_polled_at := now, s_status := (if s_gap r then st_gap else st_listening)\<rparr>)"

definition finish_poll :: "link \<Rightarrow> source_row \<Rightarrow> nat option \<Rightarrow> unit lp" where
  "finish_poll K source client = bindL (if_current K source client (bindL (senseL (k_wall K)) (\<lambda>now.
     stepL (\<lambda>s. s\<lparr>l_db := polled source now (l_db s)\<rparr>)))) (\<lambda>_. returnL ())"

definition gap_seen :: "link \<Rightarrow> source_row \<Rightarrow> bool lp" where
  "gap_seen K source = (if s_gap source then returnL True else if s_polled_at source = 0 then returnL False
     else bindL (senseL (k_wall K)) (\<lambda>now. returnL (LOOKBACK < now - s_polled_at source)))"

definition poll_page :: "link \<Rightarrow> source_row \<Rightarrow> nat option \<Rightarrow> unit lp" where
  "poll_page K source client =
    bindL (senseL (k_mono K)) (\<lambda>now.
    thenL (stepL (\<lambda>s. s\<lparr>l_verified := (l_verified s)(s_chat source := now + 10)\<rparr>))
    (bindL (gap_seen K source) (\<lambda>gap.
    thenL (whenL gap (stepL (\<lambda>s. s\<lparr>l_db := mark_gap source (l_db s)\<rparr>)))
    (bindL (senseL (k_wall K)) (\<lambda>now.
    bindL (awaitL K (\<lambda>k. k_page K k (s_chat source) (s_cursor source) (now - LOOKBACK) (BATCH + 10))) (\<lambda>ms.
    bindL (take_posts K source client gap (album_captions (batch_page ms)) (batch_page ms)) (\<lambda>go_on.
      whenL go_on (finish_poll K source client))))))))"

definition poll :: "link \<Rightarrow> source_row \<Rightarrow> unit lp" where
  "poll K source = lookL (\<lambda>s0.
    thenL (bindL (verified_chat K (ById (s_chat source))) (\<lambda>_. returnL ()))
    (bindL (readL (poll_current K source (l_client s0))) (\<lambda>ok.
      whenL ok (poll_page K source (l_client s0)))))"

section \<open>Failures of a source\<close>

definition lbl_cooling :: ustr where
  "lbl_cooling = asc ''Telegram '' @ [38480, 27969, 20919, 21364]"

definition lbl_download_cooling :: ustr where
  "lbl_download_cooling = asc ''Telegram '' @ [19979, 36733, 38480, 36895, 20919, 21364]"

definition st_login_again :: ustr where
  "st_login_again = [25480, 26435, 22833, 25928, 65292, 35831, 22312, 32456, 31471, 37325, 26032, 30331, 24405]"

definition st_refused :: ustr where
  "st_refused = [26469, 28304, 25110, 38468, 20214, 35835, 21462, 34987, 25298, 32477, 65292, 24050, 26242,
      20572, 65307, 26680, 23545, 26435, 38480, 21518, 25163, 21160, 21551, 29992]"

definition st_limited :: ustr where
  "st_limited = [36164, 28304, 21463, 38480, 65306, 38431, 21015, 25110, 24453, 30830, 35748, 36798, 21040,
      19978, 38480, 65292] @ asc ''60 '' @ [31186, 21518, 37325, 26597]"

definition st_slow :: ustr where
  "st_slow = [26469, 28304, 35835, 21462, 36229, 26102, 65292] @ asc ''60 '' @ [31186, 21518, 37325, 26597,
      65307, 20445, 30041, 24050, 30331, 35760, 36827, 24230, 65292, 20854, 20182, 26469, 28304, 32487, 32493]"

definition st_bad_rules :: ustr where
  "st_bad_rules = [35268, 21017, 25110, 35745, 21010, 37197, 32622, 26080, 25928, 65292, 24050, 26242, 20572,
      65307, 35831, 26680, 23545, 21518, 21551, 29992]"

definition st_network :: ustr where
  "st_network = [32593, 32476, 25110, 25509, 25910, 25345, 20037, 21270, 22833, 36133,
      65292] @ asc ''60 '' @ [31186, 21518, 37325, 26597, 65307, 26410, 25512, 36827, 22833, 36133, 28040, 24687]"

text \<open>\<open>max(value, q)\<close> of a stored number and a float.\<close>

fun json_less :: "json \<Rightarrow> rat \<Rightarrow> exc + bool" where
  "json_less (JBool b) q = Inr ((if b then 1 else 0) < q)"
| "json_less (JInt i) q = Inr (of_int i < q)"
| "json_less (JFloat r) q = Inr (r < q)"
| "json_less JNan q = Inr False"
| "json_less (JInf negative) q = Inr negative"
| "json_less j q = Inl (TypeError [])"

definition cooldown_of :: "json \<Rightarrow> json" where
  "cooldown_of a = (case jfind a (asc ''cooldown_until'') of None \<Rightarrow> JInt 0 | Some v \<Rightarrow> v)"

definition later_of :: "json \<Rightarrow> rat \<Rightarrow> exc + json" where
  "later_of v q = bindE (json_less v q) (\<lambda>less. Inr (if less then JFloat q else v))"

definition on_db :: "(taskdb \<Rightarrow> exc + 'a \<times> taskdb) \<Rightarrow> plandb \<Rightarrow> exc + 'a \<times> plandb" where
  "on_db f d = bindE (f (p_db d)) (\<lambda>(a, t). Inr (a, d\<lparr>p_db := t\<rparr>))"

definition writeL :: "link \<Rightarrow> json option \<Rightarrow> (ustr \<times> json) list \<Rightarrow> json option lp" where
  "writeL K expected changes = dbL (on_db (write_account (k_P K) expected changes))"

definition closeL :: "link \<Rightarrow> unit lp" where
  "closeL K = lookL (\<lambda>s. thenL (stepL (\<lambda>s. s\<lparr>l_client := None, l_session := False\<rparr>))
     (whenL (l_client s \<noteq> None) (awaitL K (k_disconnect K))))"

text \<open>A flood wait and a lost authorization concern the account, not the source.\<close>

definition cool_down :: "link \<Rightarrow> ustr \<Rightarrow> int \<Rightarrow> unit lp" where
  "cool_down K label seconds =
    bindL (readL account_value) (\<lambda>current.
    bindL (senseL (k_wall K)) (\<lambda>now.
    bindL (readL (\<lambda>_. later_of (cooldown_of current) (now + of_int seconds))) (\<lambda>until.
    bindL (writeL K (Some current) [(asc ''status'', JStr label), (asc ''cooldown_until'', until)]) (\<lambda>_. returnL ()))))"

definition lose_login :: "link \<Rightarrow> unit lp" where
  "lose_login K = thenL (bindL (writeL K None [(asc ''enabled'', JBool False), (asc ''status'', JStr st_login_again)])
     (\<lambda>_. returnL ())) (thenL (closeL K) (awaitL K (k_notify K)))"

definition failure_status :: "lexc \<Rightarrow> ustr \<times> bool" where
  "failure_status e =
    (if is_read_error e \<or> is_access e then (st_refused, True)
     else if (case e of ReceiveLimited t \<Rightarrow> True | Py x \<Rightarrow> is_value_error e \<and> exc_text x = msg_pending_full | _ \<Rightarrow> False)
       then (st_limited, False)
     else if e = Py TimeoutError then (st_slow, False)
     else if is_value_error e then (st_bad_rules, True)
     else (st_network, False))"

definition mark_failure :: "source_row \<Rightarrow> ustr \<times> bool \<Rightarrow> rat \<Rightarrow> plandb \<Rightarrow> plandb" where
  "mark_failure source f now = on_sources (\<lambda>r. s_id r = s_id source \<and> s_revision r = s_revision source \<and> \<not> s_deleted r)
     (\<lambda>r. r\<lparr>s_status := fst f, s_enabled := (if snd f then False else s_enabled r), s_next_retry := now + 60\<rparr>)"

text \<open>\<open>False\<close> when the account needs to cool down or to log in again.\<close>

definition source_failure :: "link \<Rightarrow> source_row \<Rightarrow> lexc \<Rightarrow> bool lp" where
  "source_failure K source e = (case e of
     Flood seconds \<Rightarrow> thenL (cool_down K lbl_cooling (max 5 seconds)) (returnL False)
   | _ \<Rightarrow> if is_auth e then thenL (lose_login K) (returnL False)
       else bindL (senseL (k_wall K)) (\<lambda>now.
         thenL (stepL (\<lambda>s. s\<lparr>l_db := mark_failure source (failure_status e) now (l_db s)\<rparr>)) (returnL True)))"

end
