(* ===== verification/ListenerLoop.thy ===== *)
theory ListenerLoop
  imports Listener
begin

text \<open>
  The main loop of the listener, \<open>src/tg2cloud/listening/service.py\<close>: connecting, one round over the
  sources within a time budget, the maintenance of the journal, and the handling of errors; and the
  operations of the administrator on sources: adding one and preparing its directory.
\<close>

section \<open>Waits of downloads\<close>

definition WAIT_RECORDS :: nat where "WAIT_RECORDS = 64"

text \<open>The record of a task moves to the end; only the last 64 are kept.\<close>

definition wait_of :: "int \<Rightarrow> int option \<Rightarrow> wait_record list \<Rightarrow> wait_record" where
  "wait_of i source ws = (case find (\<lambda>w. w_task w = i) ws of Some w \<Rightarrow> w
     | None \<Rightarrow> \<lparr>w_task = i, w_source = source, w_count = 0, w_seconds = 0, w_until = 0, w_logged = None\<rparr>)"

definition wait_logged :: "rat \<Rightarrow> wait_record \<Rightarrow> bool" where
  "wait_logged now w \<longleftrightarrow> (case w_logged w of None \<Rightarrow> True | Some t \<Rightarrow> 60 \<le> now - t)"

definition record_wait :: "int \<Rightarrow> int option \<Rightarrow> int \<Rightarrow> rat \<Rightarrow> wait_record list \<Rightarrow> bool \<times> wait_record list" where
  "record_wait i source seconds now ws =
    (let w = wait_of i source ws; due = wait_logged now w;
         w' = w\<lparr>w_count := w_count w + 1, w_seconds := w_seconds w + seconds,
                w_until := max (w_until w) (now + of_int seconds),
                w_logged := (if due then Some now else w_logged w)\<rparr>;
         ws = filter (\<lambda>w. w_task w \<noteq> i) ws @ [w']
     in (due, drop (length ws - WAIT_RECORDS) ws))"

definition finish_wait :: "int \<Rightarrow> wait_record list \<Rightarrow> wait_record list" where
  "finish_wait i = map (\<lambda>w. if w_task w = i then w\<lparr>w_until := 0\<rparr> else w)"

text \<open>The counts of \<open>wait_summary\<close>: waits, seconds, and waits that still last.\<close>

definition wait_summary :: "int option \<Rightarrow> int option \<Rightarrow> rat \<Rightarrow> wait_record list \<Rightarrow> (nat \<times> int \<times> nat) option" where
  "wait_summary source task now ws =
    (let rs = filter (\<lambda>w. (task = None \<or> Some (w_task w) = task) \<and> (source = None \<or> w_source w = source)) ws
     in if rs = [] then None
        else Some (sum_list (map w_count rs), sum_list (map w_seconds rs), length (filter (\<lambda>w. now < w_until w) rs)))"

section \<open>Maintenance\<close>

definition MAINTENANCE_INTERVAL :: rat where "MAINTENANCE_INTERVAL = 60"
definition MAINTENANCE_BACKLOG_INTERVAL :: rat where "MAINTENANCE_BACKLOG_INTERVAL = 5"

definition expire_now :: "link \<Rightarrow> bool lp" where
  "expire_now K = bindL (senseL (k_wall K)) (\<lambda>now.
     dbL (\<lambda>d. bindE (authorize (k_admin K) (k_admin K) True d) (\<lambda>_. Inr (expire now d))))"

definition maintain_if_due :: "link \<Rightarrow> unit lp" where
  "maintain_if_due K = bindL (senseL (k_mono K)) (\<lambda>now. lookL (\<lambda>s.
     if (case l_due s of None \<Rightarrow> False | Some t \<Rightarrow> now < t) then returnL ()
     else thenL (stepL (\<lambda>s. s\<lparr>l_due := Some (now + MAINTENANCE_INTERVAL)\<rparr>))
       (catchL
         (bindL (expire_now K) (\<lambda>backlog.
          thenL (whenL backlog (stepL (\<lambda>s. s\<lparr>l_due := Some (now + MAINTENANCE_BACKLOG_INTERVAL)\<rparr>)))
            (stepL (\<lambda>s. s\<lparr>l_warned := False\<rparr>))))
         (\<lambda>e. if is_exception e then stepL (\<lambda>s. s\<lparr>l_warned := True\<rparr>) else raiseL e))))"

section \<open>One round over the sources\<close>

definition POLL_ROUND_BUDGET :: rat where "POLL_ROUND_BUDGET = 30"

text \<open>\<open>wait_for\<close>: a cancellation that the time limit caused becomes \<open>TimeoutError\<close>.\<close>

definition within_limit :: "link \<Rightarrow> 'a lp \<Rightarrow> 'a lp" where
  "within_limit K m = catchL m (\<lambda>e. if e \<noteq> Py CancelledError then raiseL e
     else bindL (senseL (k_timed_out K)) (\<lambda>t. raiseL (if t then Py TimeoutError else Py CancelledError)))"

text \<open>\<open>except Exception\<close>: the exception, or none.\<close>

definition attemptL :: "unit lp \<Rightarrow> lexc option lp" where
  "attemptL m = catchL (thenL m (returnL None)) (\<lambda>e. if is_exception e then returnL (Some e) else raiseL e)"

definition rotated :: "int \<Rightarrow> source_row list \<Rightarrow> source_row list" where
  "rotated after_id ss = filter (\<lambda>s. after_id < s_id s) ss @ filter (\<lambda>s. s_id s \<le> after_id) ss"

definition budget_left :: "link \<Rightarrow> rat \<Rightarrow> bool lp" where
  "budget_left K started = bindL (senseL (k_mono K)) (\<lambda>now. returnL (now - started < POLL_ROUND_BUDGET))"

text \<open>Whether the round may go on: not stopped, enabled, not cooling down, the same client.\<close>

definition round_open :: "link \<Rightarrow> nat option \<Rightarrow> json \<Rightarrow> bool lp" where
  "round_open K client account =
    bindL (senseL (k_stop K)) (\<lambda>stop. if stop then returnL False
     else bindL (readL (\<lambda>_. account_enabled account)) (\<lambda>on. if \<not> on then returnL False
     else bindL (senseL (k_wall K)) (\<lambda>now.
       bindL (readL (\<lambda>_. json_greater (cooldown_of account) now)) (\<lambda>cool. if cool then returnL False
       else lookL (\<lambda>s. returnL (client \<noteq> None \<and> l_client s = client))))))"

definition source_due :: "link \<Rightarrow> json \<Rightarrow> source_row \<Rightarrow> bool lp" where
  "source_due K account source = (if \<not> s_enabled source \<or> s_deleted source then returnL False
     else bindL (senseL (k_wall K)) (\<lambda>now. if now < s_next_retry source then returnL False
       else readL (\<lambda>_. account_is account (s_account source))))"

text \<open>After a failed poll: an old request must not touch a new account or client.\<close>

definition poll_failed :: "link \<Rightarrow> nat option \<Rightarrow> rat \<Rightarrow> source_row \<Rightarrow> lexc \<Rightarrow> bool lp" where
  "poll_failed K client started source e = lookL (\<lambda>s.
     if l_client s \<noteq> client then returnL False
     else bindL (readL (\<lambda>s. bindE (account_value s) (\<lambda>a. account_is a (s_account source)))) (\<lambda>same.
       if \<not> same then returnL False
       else bindL (source_failure K source e) (\<lambda>ok. if ok then budget_left K started else returnL False)))"

text \<open>One source: whether the round goes on.\<close>

definition round_source :: "link \<Rightarrow> nat option \<Rightarrow> rat \<Rightarrow> source_row \<Rightarrow> bool lp" where
  "round_source K client started saved =
    bindL (readL account_value) (\<lambda>account.
    bindL (round_open K client account) (\<lambda>go.
    if \<not> go then returnL False
    else bindL (readL (admin_source K (s_id saved))) (\<lambda>source.
      bindL (source_due K account source) (\<lambda>due.
      if \<not> due then returnL True
      else thenL (stepL (\<lambda>s. s\<lparr>l_after := s_id source\<rparr>))
        (bindL (attemptL (within_limit K (poll K source))) (\<lambda>failed. case failed of
           None \<Rightarrow> budget_left K started
         | Some e \<Rightarrow> poll_failed K client started source e))))))"

fun round_sources :: "link \<Rightarrow> nat option \<Rightarrow> rat \<Rightarrow> source_row list \<Rightarrow> unit lp" where
  "round_sources K client started [] = returnL ()"
| "round_sources K client started (s # ss) = bindL (round_source K client started s) (\<lambda>go.
     if go then round_sources K client started ss else returnL ())"

definition poll_sources :: "link \<Rightarrow> unit lp" where
  "poll_sources K = bindL (senseL (k_mono K)) (\<lambda>started. lookL (\<lambda>s0.
     bindL (readL (\<lambda>s. sources (k_admin K) (k_admin K) (l_db s))) (\<lambda>ss.
       round_sources K (l_client s0) started (rotated (l_after s0) ss))))"

section \<open>Connecting\<close>

definition msg_connection_down :: ustr where
  "msg_connection_down = asc ''Telegram '' @ [36830, 25509, 26242, 19981, 21487, 29992]"

definition msg_no_login :: ustr where
  "msg_no_login = [26410, 30331, 24405, 65307, 35831, 20808, 22312] @ asc '' Linux '' @ [32456, 31471, 25480, 26435]"

definition msg_wrong_account :: ustr where
  "msg_wrong_account = [25480, 26435, 22833, 25928, 25110, 20010, 20154, 36134, 21495, 19981, 21305, 37197]"

definition connected_identity :: "link \<Rightarrow> personal option lp" where
  "connected_identity K = catchL (awaitL K (k_identity K)) (\<lambda>e. case e of
     Py (PermissionError t) \<Rightarrow> raiseL e
   | Py (FileNotFoundError t) \<Rightarrow> raiseL e
   | _ \<Rightarrow> if is_io_error e \<or> e = ServerFault \<or> e = SdkTimeout then raiseL (ConnectionDown msg_connection_down)
       else raiseL e)"

text \<open>A client that is connected; a cooldown that has passed is taken off the record.\<close>

definition end_cooldown :: "link \<Rightarrow> json \<Rightarrow> unit lp" where
  "end_cooldown K account = bindL (senseL (k_wall K)) (\<lambda>now.
     bindL (readL (\<lambda>_. json_greater (cooldown_of account) now)) (\<lambda>cool.
       whenL (\<not> cool \<and> str_in (jget account (asc ''status'')) [lbl_cooling, lbl_download_cooling])
        (bindL (writeL K (Some account) [(asc ''status'', JStr st_listening), (asc ''cooldown_until'', JInt 0)])
          (\<lambda>_. returnL ()))))"

definition new_client :: "listener \<Rightarrow> listener" where
  "new_client s = s\<lparr>l_client := Some (l_clients s), l_clients := l_clients s + 1, l_gates := (\<lambda>_. None)\<rparr>"

text \<open>A new connection: its identity has to be the personal account of the record.\<close>

definition open_client :: "link \<Rightarrow> json \<Rightarrow> bool lp" where
  "open_client K account =
    bindL (bindL (senseL (k_lock K)) (\<lambda>r. readL (\<lambda>_. r))) (\<lambda>_.
    bindL (senseL (k_session_file K)) (\<lambda>file.
    if \<not> file then raiseL (read_error msg_no_login)
    else thenL (stepL new_client)
      (bindL (connected_identity K) (\<lambda>me.
       bindL (readL account_value) (\<lambda>current.
       bindL (senseL (k_stop K)) (\<lambda>stop.
       if \<not> same_record current account \<or> stop then thenL (closeL K) (returnL False)
       else bindL (readL (\<lambda>_. config_value account (asc ''account''))) (\<lambda>expected.
         if (case me of None \<Rightarrow> True | Some u \<Rightarrow> us_bot u \<noteq> Some False \<or> expected \<noteq> JInt (us_id u))
         then raiseL (read_error msg_wrong_account)
         else thenL (stepL (\<lambda>s. s\<lparr>l_session := True\<rparr>))
           (bindL (writeL K (Some account) [(asc ''status'', JStr st_listening), (asc ''cooldown_until'', JInt 0)]) (\<lambda>w.
             case w of None \<Rightarrow> thenL (closeL K) (returnL False) | Some _ \<Rightarrow> returnL True))))))))) "

definition connect :: "link \<Rightarrow> bool lp" where
  "connect K =
    bindL (readL account_value) (\<lambda>account.
    bindL (readL (\<lambda>_. account_enabled account)) (\<lambda>on.
    if \<not> on then thenL (closeL K) (returnL False)
    else lookL (\<lambda>s.
      if l_client s = None then catchL (open_client K account) (\<lambda>e. thenL (closeL K) (raiseL e))
      else bindL (senseL (k_connected K)) (\<lambda>up.
        if up then thenL (end_cooldown K account) (returnL True)
        else thenL (closeL K) (catchL (open_client K account) (\<lambda>e. thenL (closeL K) (raiseL e)))))))"

section \<open>The main loop\<close>

definition st_reconnect :: "nat \<Rightarrow> ustr" where
  "st_reconnect delay = [36830, 25509, 26242, 19981, 21487, 29992,
      65292] @ dec_nat delay @ asc '' '' @ [31186, 21518, 33258, 21160, 37325, 35797]"

definition st_broken :: ustr where
  "st_broken = [25480, 26435, 25110, 37197, 32622, 24322, 24120, 65292, 35831, 22312, 32456, 31471, 26816,
      26597, 21518, 37325, 26032, 21551, 29992]"

definition reconnect_delay :: "nat \<Rightarrow> nat" where
  "reconnect_delay failures = min 300 (5 * 2 ^ (failures - 1))"

text \<open>
  The handler of one iteration: nothing is written over an account record that changed since it was
  read. The result is \<open>True\<close> for \<open>continue\<close>, which skips the pause.
\<close>

definition note_failure :: "link \<Rightarrow> json \<Rightarrow> lexc \<Rightarrow> unit lp" where
  "note_failure K account e = (case e of
     Flood seconds \<Rightarrow> bindL (senseL (k_wall K)) (\<lambda>now.
       bindL (writeL K (Some account) [(asc ''status'', JStr lbl_cooling),
          (asc ''cooldown_until'', JFloat (now + of_int (max 5 seconds)))]) (\<lambda>_. returnL ()))
   | ConnectionDown t \<Rightarrow>
       thenL (stepL (\<lambda>s. s\<lparr>l_failures := min 7 (l_failures s + 1)\<rparr>)) (lookL (\<lambda>s.
         let delay = reconnect_delay (l_failures s) in
         bindL (senseL (k_wall K)) (\<lambda>now.
         bindL (writeL K (Some account) [(asc ''status'', JStr (st_reconnect delay)),
            (asc ''cooldown_until'', JFloat (now + of_nat delay))]) (\<lambda>_. returnL ()))))
   | _ \<Rightarrow> bindL (writeL K (Some account) [(asc ''enabled'', JBool False), (asc ''status'', JStr st_broken)]) (\<lambda>changed.
       whenL (changed \<noteq> None) (awaitL K (k_notify K))))"

definition round_failed :: "link \<Rightarrow> json \<Rightarrow> lexc \<Rightarrow> bool lp" where
  "round_failed K account e =
    thenL (closeL K)
    (bindL (senseL (k_stop K)) (\<lambda>stop. if stop then returnL True
     else bindL (readL account_value) (\<lambda>current.
       if \<not> same_record current account then returnL True
       else thenL (note_failure K account e) (returnL False))))"

definition reset_failures :: "unit lp" where
  "reset_failures = stepL (\<lambda>s. s\<lparr>l_failures := 0\<rparr>)"

text \<open>The body of the \<open>try\<close>: whether the sources are to be polled.\<close>

definition ready :: "link \<Rightarrow> json \<Rightarrow> bool lp" where
  "ready K account = bindL (readL (\<lambda>_. account_enabled account)) (\<lambda>on.
     if \<not> on then thenL reset_failures (thenL (closeL K) (returnL False))
     else bindL (senseL (k_wall K)) (\<lambda>now.
       bindL (readL (\<lambda>_. json_greater (cooldown_of account) now)) (\<lambda>cool.
         if cool then returnL False else bindL (connect K) (\<lambda>up.
           if up then thenL reset_failures (returnL True) else returnL False))))"

text \<open>An exception of one iteration with the record it was read with, or none.\<close>

definition guarded :: "link \<Rightarrow> json \<Rightarrow> (json \<times> lexc) option lp" where
  "guarded K account = bindL
     (catchL (bindL (ready K account) (\<lambda>go. if go then bindL (readL account_value) (\<lambda>v. returnL (Inr (Some v)))
         else returnL (Inr None)))
       (\<lambda>e. if is_exception e then returnL (Inl e) else raiseL e))
     (\<lambda>r. case r of
        Inl e \<Rightarrow> returnL (Some (account, e))
      | Inr None \<Rightarrow> returnL None
      | Inr (Some v) \<Rightarrow> bindL (attemptL (poll_sources K)) (\<lambda>failed. returnL (map_option (Pair v) failed)))"

definition iteration :: "link \<Rightarrow> unit lp" where
  "iteration K =
    thenL (maintain_if_due K)
    (bindL (readL account_value) (\<lambda>account.
    bindL (guarded K account) (\<lambda>failed.
    bindL (case failed of None \<Rightarrow> returnL False | Some (v, e) \<Rightarrow> round_failed K v e) (\<lambda>skip.
      whenL (\<not> skip) (awaitL K (k_sleep K))))))"

text \<open>At most \<open>n\<close> iterations: \<open>True\<close> when the stop event ended the loop.\<close>

fun iterations :: "link \<Rightarrow> nat \<Rightarrow> bool lp" where
  "iterations K 0 = returnL False"
| "iterations K (Suc n) = bindL (senseL (k_stop K)) (\<lambda>stop.
     if stop then returnL True
     else bindL (senseL (k_mono K)) (\<lambda>_. thenL (iteration K) (iterations K n)))"

definition run_listener :: "link \<Rightarrow> nat \<Rightarrow> bool lp" where
  "run_listener K n = finallyL (iterations K n) (closeL K)"

section \<open>Sources of the administrator\<close>

definition msg_login_first :: ustr where
  "msg_login_first = [35831, 20808, 22312, 32456, 31471, 30331, 24405, 24182, 21551, 29992, 30417, 21548,
      36134, 21495]"

definition msg_source_gone :: ustr where
  "msg_source_gone = [26469, 28304, 24050, 21024, 38500]"

definition msg_base_moved :: ustr where
  "msg_base_moved = [26469, 28304, 20445, 23384, 26681, 30446, 24405, 24050, 21464, 21270, 65307, 26469,
      28304, 24050, 26242, 20572, 65292, 35831, 26680, 23545, 24182, 24674, 22797,
          21407] @ asc '' Bot '' @ [20445, 23384, 37197, 32622]"

definition msg_folder_failed :: ustr where
  "msg_folder_failed = [26469, 28304, 24050, 30331, 35760, 24182, 26242, 20572, 65307, 30446, 24405, 21019,
      24314, 26410, 23436, 25104, 65292, 35831, 26816, 26597, 32593, 20851, 36830, 25509, 12289, 26435, 38480,
          21644, 20445, 23384, 30446, 24405, 21518, 37325, 35797]"

definition msg_folder_stale :: ustr where
  "msg_folder_stale = [26469, 28304, 37197, 32622, 24050, 21464, 21270, 65292, 35831, 21047, 26032, 65307,
      24050, 21019, 24314, 30340, 31354, 30446, 24405, 20445, 30041]"

definition st_folder_open :: ustr where
  "st_folder_open = [30446, 24405, 21019, 24314, 26410, 23436, 25104, 65307]"

definition why_base :: ustr where
  "why_base = [20445, 23384, 26681, 30446, 24405, 24050, 21464, 21270, 65307, 35831, 24674, 22797, 21407,
      37197, 32622, 21518, 37325, 35797]"

definition why_gateway :: ustr where
  "why_gateway = [35831, 26816, 26597, 32593, 20851, 21518, 28857, 20987, 37325, 35797, 21019, 24314, 30446, 24405]"

definition st_await_check :: ustr where
  "st_await_check = [31561, 24453, 26816, 26597]"

definition st_folder_ready :: ustr where
  "st_folder_ready = [26242, 20572, 65307, 26469, 28304, 30446, 24405, 24050, 23601, 32490]"

definition msg_not_joined :: ustr where
  "msg_not_joined = [23578, 26410, 21152, 20837, 35813, 26469, 28304, 65307, 35831, 20808, 22312, 20010,
      20154] @ asc '' Telegram '' @ [20013, 30003, 35831, 21152, 20837]"

text \<open>The text for the administrator; every other exception gets a fixed one.\<close>

definition msg_flood :: "int \<Rightarrow> ustr" where
  "msg_flood seconds = asc ''Telegram '' @ [38480, 27969, 65292, 35831, 31561,
      24453] @ asc '' '' @ dec (max 5 seconds) @ asc '' ''
     @ [31186, 21518, 37325, 35797, 65307, 36134, 21495, 20919, 21364, 26399, 38388, 19981, 20250, 25509,
         25910, 26032, 20219, 21153]"

definition REFERENCE_ERRORS :: "ustr list" where
  "REFERENCE_ERRORS = map asc [''UsernameInvalidError'', ''UsernameNotOccupiedError'', ''InviteHashInvalidError'',
     ''InviteHashExpiredError'', ''PeerIdInvalidError'']"

definition source_error :: "lexc \<Rightarrow> ustr" where
  "source_error e = (case e of
     Flood seconds \<Rightarrow> msg_flood seconds
   | Rpc name \<Rightarrow>
      if name \<in> set AUTH_ERRORS then [20010, 20154, 30417, 21548, 36134, 21495, 25480, 26435, 22833,
          25928, 65307, 35831, 22312] @ asc '' tg2cloud '' @ [30340, 30417, 21548, 31649, 29702, 20013, 37325,
              26032, 30331, 24405]
      else if name \<in> set REFERENCE_ERRORS then [26469, 28304, 29992, 25143, 21517, 12289, 32842,
          22825] @ asc '' ID '' @ [25110, 36992, 35831, 38142, 25509, 26080, 25928, 25110, 24050, 22833,
              25928, 65307, 35831, 26680, 23545, 21518, 37325, 26032, 22635, 20889]
      else if name \<in> set (map asc [''ChatForwardsRestrictedError'', ''MediaEmptyError''])
        then asc ''Telegram '' @ [25298, 32477, 35835, 21462, 27492, 38468, 20214, 65307, 35831, 26680, 23545,
            26469, 28304, 26435, 38480, 65292, 26412, 31243, 24207, 19981, 20250, 32469, 36807, 26381, 21153,
                31471, 25298, 32477]
      else if name \<in> set (map asc [''ChannelPrivateError'', ''UserNotParticipantError'', ''ChatAdminRequiredError''])
        then [30417, 21548, 36134, 21495, 23578, 26410, 21152, 20837, 26469, 28304, 65292, 25110, 27809,
            26377, 35835, 21462, 26435, 38480, 65307, 35831, 20808, 22312, 35813, 20010, 20154, 36134, 21495,
                20013, 21152, 20837, 24182, 26680, 23545, 26435, 38480]
      else [26469, 28304, 26680, 39564, 26410, 23436, 25104, 65307, 35831, 26816, 26597, 30417, 21548, 36134,
          21495, 19982, 26469, 28304, 21518, 37325, 35797, 65292, 26410, 26174, 31034, 20869, 37096, 38169,
              35823, 25110, 20973, 25454]
   | Py (ListenerReadError t) \<Rightarrow> t
   | Py (ListenerRateLimited t n) \<Rightarrow> t
   | AttachmentUnavailable \<Rightarrow> [26469, 28304, 28040, 24687, 25110, 38468, 20214, 26242, 19981,
       21487, 35835, 65307, 21487, 33021, 24050, 21024, 38500, 25110, 19981, 20877, 21253, 21547, 38468,
           20214, 65292, 35831, 26680, 23545, 21407, 28040, 24687]
   | _ \<Rightarrow>
      if is_io_error e then [36830, 25509] @ asc '' Telegram '' @ [22833, 36133, 25110, 36229, 26102, 65307,
          35831, 26816, 26597] @ asc '' VPS '' @ [32593, 32476, 21518, 37325, 35797, 65292, 26469, 28304,
              23578, 26410, 28155, 21152]
      else if is_value_error e then [26080, 27861, 35299, 26512, 26469, 28304, 65307, 35831, 22635, 20889,
          24403, 21069, 20010, 20154, 36134, 21495, 24050, 21152, 20837, 30340] @ asc '' @'' @ [29992, 25143,
              21517, 12289, 32842, 22825] @ asc '' ID '' @ [25110, 26377, 25928, 38142, 25509]
      else [26469, 28304, 26680, 39564, 26410, 23436, 25104, 65307, 35831, 26816, 26597, 30417, 21548, 36134,
          21495, 19982, 26469, 28304, 21518, 37325, 35797, 65292, 26410, 26174, 31034, 20869, 37096, 38169,
              35823, 25110, 20973, 25454])"

text \<open>
  What the administrator typed: a number, an invite link or a name. Digits are the ASCII ones here;
  \<open>int\<close> takes one minus sign and raises for more.
\<close>

definition parsed_reference :: "platform \<Rightarrow> ustr \<Rightarrow> exc + (reference + ustr)" where
  "parsed_reference P text =
    (let ref = strip_space P text; body = lstrip_set [45] ref in
     if body \<noteq> [] \<and> list_all (\<lambda>c. 48 \<le> c \<and> c \<le> 57) body
     then (if ref = body then Inr (Inl (ById (int (number_of P body))))
           else if ref = 45 # body then Inr (Inl (ById (- int (number_of P body)))) else Inl (ValueError []))
     else if starts_with ref (asc ''https://t.me/+'') \<or> starts_with ref (asc ''https://t.me/joinchat/'')
       then Inr (Inr (lstrip_set [43] (last (split_on 47 ref))))
     else Inr (Inl (ByText ref)))"

definition resolve :: "link \<Rightarrow> ustr \<Rightarrow> (chat_entity \<times> int list) lp" where
  "resolve K text =
    bindL (readL (\<lambda>_. parsed_reference (k_P K) text)) (\<lambda>parsed.
    bindL (case parsed of Inl ref \<Rightarrow> returnL ref
      | Inr hash \<Rightarrow> bindL (awaitL K (\<lambda>k. k_invite K k hash)) (\<lambda>chat. case chat of
          None \<Rightarrow> raiseL (read_error msg_not_joined) | Some c \<Rightarrow> returnL (ByChat c))) (\<lambda>ref.
    bindL (verified_chat K ref) (\<lambda>e.
    bindL (awaitL K (\<lambda>k. k_newest K k e)) (\<lambda>latest. returnL (e, latest)))))"

definition directory_failed :: "link \<Rightarrow> source_row \<Rightarrow> ustr \<Rightarrow> unit lp" where
  "directory_failed K source why = adminL K (on_sources
     (\<lambda>r. s_id r = s_id source \<and> s_revision r = s_revision source \<and> \<not> s_deleted r)
     (\<lambda>r. r\<lparr>s_enabled := False, s_status := st_folder_open @ why\<rparr>))"

definition prepare_source :: "link \<Rightarrow> source_row \<Rightarrow> source_row lp" where
  "prepare_source K source =
    thenL (catchL (bindL (readL (\<lambda>_. media_directory (k_P K) (s_config source) [] [] []
        (JStr (k_target K)))) (\<lambda>_. returnL ()))
      (\<lambda>e. if is_value_error e then thenL (directory_failed K source why_base) (raiseL (read_error msg_base_moved))
        else raiseL e))
    (thenL (catchL (awaitL K (\<lambda>k. k_folder K k (source_folder (s_config source))))
      (\<lambda>e. thenL (directory_failed K source why_gateway)
         (raiseL (if is_exception e then read_error msg_folder_failed else e))))
    (bindL (readL (admin_source K (s_id source))) (\<lambda>current.
     if s_revision current \<noteq> s_revision source \<or> s_deleted current then raiseL (Py (PlanningError msg_folder_stale))
     else thenL (adminL K (on_sources
         (\<lambda>r. s_id r = s_id source \<and> s_revision r = s_revision source \<and> \<not> s_deleted r)
         (\<lambda>r. r\<lparr>s_status := (if s_enabled current then st_await_check else st_folder_ready)\<rparr>)))
       (readL (admin_source K (s_id source))))))"

definition prepare_directory :: "link \<Rightarrow> int \<Rightarrow> int \<Rightarrow> source_row lp" where
  "prepare_directory K actor i =
    thenL (require_admin K actor)
    (bindL (readL (\<lambda>s. the_source (k_admin K) actor i (l_db s))) (\<lambda>source.
     if s_deleted source then raiseL (Py (PlanningError msg_source_gone))
     else if jget_or (s_config source) (asc ''directory_mode'') (JStr (asc ''legacy'')) \<noteq> JStr (asc ''source_type'')
       then returnL source
     else prepare_source K source))"

text \<open>A flood wait or a lost login found while adding concerns the account.\<close>

definition account_failure :: "link \<Rightarrow> lexc \<Rightarrow> unit lp" where
  "account_failure K e = (case e of
     Flood seconds \<Rightarrow> cool_down K lbl_cooling (max 5 seconds)
   | _ \<Rightarrow> whenL (is_auth e) (lose_login K))"

definition add_source :: "link \<Rightarrow> int \<Rightarrow> ustr \<Rightarrow> json \<Rightarrow> source_row lp" where
  "add_source K actor text config =
    thenL (require_admin K actor)
    (bindL (readL (\<lambda>s. source_config (k_P K) (k_admin K) actor config (l_db s))) (\<lambda>_.
    lookL (\<lambda>s. if l_client s = None then raiseL (Py (PlanningError msg_login_first))
    else bindL (catchL (resolve K text)
         (\<lambda>e. if is_exception e then thenL (account_failure K e) (raiseL (read_error (source_error e))) else raiseL e))
      (\<lambda>(e, latest).
      bindL (readL account_value) (\<lambda>account.
      bindL (readL (\<lambda>_. config_value account (asc ''account''))) (\<lambda>n.
      bindL (senseL (k_wall K)) (\<lambda>now.
      bindL (readL (\<lambda>_. case as_int n of None \<Rightarrow> Inl (IntegrityError []) | Some i \<Rightarrow> Inr i)) (\<lambda>acc.
      bindL (dbL (save_source (k_P K) (k_admin K) actor acc (ce_peer e) (ce_title e)
         (case latest of [] \<Rightarrow> 0 | m # _ \<Rightarrow> m) config (Some (k_target K)) now)) (\<lambda>source.
      catchL (prepare_directory K actor (s_id source))
        (\<lambda>e. if is_read_error e then readL (\<lambda>s. the_source (k_admin K) actor (s_id source) (l_db s)) else raiseL e)))))))))) "

end
