(* ===== verification/ListenerLaws.thy ===== *)
theory ListenerLaws
  imports Listener
begin

text \<open>
  The cursor of a source never passes a message that was not decided on. The relation \<open>evolves\<close> is
  what the poll relies on of the other coroutines, and what its own steps other than the cursor
  update satisfy: decisions are not forgotten, and the cursor of a source moves only together with
  its revision.
\<close>

section \<open>What the other coroutines may do\<close>

text \<open>A message is decided on when the journal has it or a plan was made for it.\<close>

definition settled :: "int \<Rightarrow> int \<Rightarrow> int \<Rightarrow> plandb \<Rightarrow> bool" where
  "settled account chat message d \<longleftrightarrow> journalled account chat message d
     \<or> (\<exists>p \<in> set (p_plans d). pl_identity p = listener_identity account \<and> pl_chat p = chat \<and> pl_message p = message)"

definition row_evolves :: "source_row \<Rightarrow> source_row \<Rightarrow> bool" where
  "row_evolves r r' \<longleftrightarrow> s_account r' = s_account r \<and> s_chat r' = s_chat r \<and> s_revision r \<le> s_revision r'
     \<and> (s_revision r' = s_revision r \<longrightarrow> s_cursor r' = s_cursor r)"

definition evolves :: "plandb \<Rightarrow> plandb \<Rightarrow> bool" where
  "evolves d d' \<longleftrightarrow> (\<forall>i r. row_of s_id i (sources_of d) = Some r \<longrightarrow>
       (\<exists>r'. row_of s_id i (sources_of d') = Some r' \<and> row_evolves r r'))
     \<and> (\<forall>account chat message. settled account chat message d \<longrightarrow> settled account chat message d')"

definition polite :: "link \<Rightarrow> bool" where
  "polite K \<longleftrightarrow> (\<forall>k s. evolves (l_db s) (l_db (k_others K k s)))"

lemma row_evolves_refl [simp]: "row_evolves r r"
  by (simp add: row_evolves_def)

lemma row_evolves_trans: "row_evolves a b \<Longrightarrow> row_evolves b c \<Longrightarrow> row_evolves a c"
  by (auto simp: row_evolves_def)

lemma evolves_refl [simp]: "evolves d d"
  by (simp add: evolves_def)

lemma evolves_trans: "evolves a b \<Longrightarrow> evolves b c \<Longrightarrow> evolves a c"
  unfolding evolves_def by (meson row_evolves_trans)

text \<open>The steps of the poll itself.\<close>

lemma evolvesI:
  assumes "sources_of d' = sources_of d" "\<And>a c m. settled a c m d \<Longrightarrow> settled a c m d'"
  shows "evolves d d'"
  using assms by (auto simp: evolves_def)

lemma evolves_on_sources:
  assumes "\<And>r. p r \<Longrightarrow> s_id (f r) = s_id r \<and> row_evolves r (f r)"
  shows "evolves d (on_sources p f d)"
proof -
  have "row_of s_id i (upd_where p f rs) = map_option (\<lambda>r. if p r then f r else r) (row_of s_id i rs)" for i rs
    using assms by (induction rs) auto
  then have rows: "row_of s_id i (sources_of (on_sources p f d))
      = map_option (\<lambda>r. if p r then f r else r) (row_of s_id i (sources_of d))" for i
    by (simp add: on_sources_def)
  have "settled a c m (on_sources p f d) = settled a c m d" for a c m
    by (simp add: settled_def journalled_def on_sources_def set_sources_def)
  with rows assms show ?thesis by (auto simp: evolves_def)
qed

lemma list_ex_upd: "(\<And>r. P (f r) = P r) \<Longrightarrow> list_ex P (upd_where p f rs) = list_ex P rs"
  by (induction rs) auto

text \<open>Plans are only ever added, or changed in other columns.\<close>

definition plan_key :: "plan_row \<Rightarrow> ustr \<times> int \<times> int" where
  "plan_key p = (pl_identity p, pl_chat p, pl_message p)"

lemma settled_key: "settled a c m d \<longleftrightarrow> journalled a c m d \<or> (listener_identity a, c, m) \<in> plan_key ` set (p_plans d)"
  unfolding settled_def plan_key_def image_iff prod.inject by (metis (no_types))

lemma plan_key_same [simp]: "plan_key (expired_row p) = plan_key p" "plan_key (submitted_row i p) = plan_key p"
  by (simp_all add: plan_key_def expired_row_def submitted_row_def)

lemma plan_keys_upd: "(\<And>p. plan_key (f p) = plan_key p) \<Longrightarrow> plan_key ` set (upd_where q f ps) = plan_key ` set ps"
  using map_upd_where[of ps q plan_key f] by (metis set_map)

lemma evolvesK:
  assumes "sources_of d' = sources_of d" "plan_key ` set (p_plans d) \<subseteq> plan_key ` set (p_plans d')"
    and "\<And>a c m. journalled a c m d \<Longrightarrow> journalled a c m d'"
  shows "evolves d d'"
  using assms by (intro evolvesI) (auto simp: settled_key)

lemma evolves_expire_pending: "evolves d (expire_pending u now d)"
  by (rule evolvesK) (simp_all add: expire_pending_def sources_of_def journalled_def plan_keys_upd)

lemma evolves_journal: "evolves d (journal_insert r m res att now d)"
  by (rule evolvesI) (auto simp: journal_insert_def sources_of_def settled_def journalled_def)

lemma journal_insert_settled: "settled (s_account r) (s_chat r) m (journal_insert r m res att now d)"
  by (auto simp: journal_insert_def settled_def journalled_def)

lemma evolves_journal_upd:
  assumes "\<And>e. jr_account (f e) = jr_account e \<and> jr_chat (f e) = jr_chat e \<and> jr_message (f e) = jr_message e"
  shows "evolves d (d\<lparr>p_journal := upd_where q f (p_journal d)\<rparr>)"
  using assms by (intro evolvesI) (auto simp: sources_of_def settled_def journalled_def list_ex_upd)

lemma evolves_create_plan:
  assumes "create_plan P A actor r now d = Inr ((q, c), d')"
  shows "evolves d d' \<and> (\<exists>p \<in> set (p_plans d'). same_message r p)"
proof -
  let ?d = "expire_pending (Some actor) now d"
  from assms obtain saved where "(case find (same_message r) (p_plans ?d) of
      Some old \<Rightarrow> bindE (get_plan A actor (pl_id old) now ?d) (\<lambda>q. Inr ((q, False), ?d))
    | None \<Rightarrow> create_new P A actor r saved now ?d) = Inr ((q, c), d')"
    by (auto simp: create_plan_def bindE_Inr Let_def)
  then consider old where "find (same_message r) (p_plans ?d) = Some old" "d' = ?d"
    | "create_new P A actor r saved now ?d = Inr ((q, c), d')"
    by (auto simp: bindE_Inr split: option.splits)
  then show ?thesis
  proof cases
    case 1
    then show ?thesis using evolves_expire_pending by (auto simp: find_Some_iff)
  next
    case 2
    then obtain dir why options at_time where
      w: "write_journal saved r (next_id pl_id (p_plans ?d)) now
       (?d\<lparr>p_plans := p_plans ?d @ [new_plan (next_id pl_id (p_plans ?d)) actor r
          (new_payload r saved dir why options at_time) now]\<rparr>) = Inr d'"
      by (rule create_new_Inr)
    then have p: "p_plans d' = p_plans ?d @ [new_plan (next_id pl_id (p_plans ?d)) actor r
          (new_payload r saved dir why options at_time) now]" "sources_of d' = sources_of ?d"
      "\<And>a c m. journalled a c m ?d \<Longrightarrow> journalled a c m d'"
      by (auto simp: write_journal_def sources_of_def journalled_def split: option.splits if_splits)
    have "evolves ?d d'"
      by (rule evolvesK[OF p(2) _ p(3)]) (auto simp: p(1))
    then have "evolves d d'" using evolves_expire_pending evolves_trans by blast
    with p(1) show ?thesis by (auto simp: same_message_def new_plan_def)
  qed
qed

lemma evolves_submit:
  assumes "submit P A actor i rv now d = Inr (r, d')"
  shows "evolves d d'"
proof -
  obtain ot created where r: "r = (ot, created)" by (cases r)
  from assms show ?thesis
    unfolding r
  proof (cases rule: submit_cases)
    case (task p t db)
    have "sources_of d' = sources_of d" using task_of_plan_same[OF task(10)] task(12) by (simp add: sources_of_def)
    moreover have "journalled a c m d \<Longrightarrow> journalled a c m d'" for a c m
      using task(12) by (simp add: journalled_def journal_result_def list_ex_upd)
    ultimately show ?thesis
      using task(12) by (intro evolvesK) (simp_all add: plan_keys_upd)
  qed simp
qed

text \<open>
  All operations on plans, sources and tasks evolve the database, except the removal of expired
  rows, which only the listener itself runs, between its polls. So the other coroutines do what
  \<open>polite\<close> asks for.
\<close>

lemma evolves_rows:
  assumes "sources_of d' = upd_where p f (sources_of d)" "\<And>r. p r \<Longrightarrow> s_id (f r) = s_id r \<and> row_evolves r (f r)"
    and "plan_key ` set (p_plans d) \<subseteq> plan_key ` set (p_plans d')" "p_journal d' = p_journal d"
  shows "evolves d d'"
proof -
  have "evolves d (on_sources p f d)" using assms(2) by (rule evolves_on_sources)
  moreover have "evolves (on_sources p f d) d'"
    using assms by (intro evolvesK) (simp_all add: on_sources_def set_sources_def sources_of_def journalled_def)
  ultimately show ?thesis by (rule evolves_trans)
qed

lemma plan_key_ignored [simp]:
  "plan_key (p\<lparr>pl_status := x, pl_revision := y\<rparr>) = plan_key p" "plan_key (edited_row data b p) = plan_key p"
  by (simp_all add: plan_key_def edited_row_def)

lemma evolves_change:
  assumes "change_source P A actor i rv c now d = Inr (u, d')"
  shows "evolves d d'"
  using assms
proof (rule change_source_Inr)
  fix old v e
  assume "d' = set_sources (upd_where (\<lambda>s. s_id s = i) (changed_row v e (ch_delete c) (ch_cursor c) now) (sources_of d))
       (d\<lparr>p_revisions := keep_revision actor old now (p_revisions d),
          p_plans := (if ch_delete c then ignore_pending i (p_plans d) else p_plans d)\<rparr>)"
  then show ?thesis
    by (intro evolves_rows[where p = "\<lambda>s. s_id s = i" and f = "changed_row v e (ch_delete c) (ch_cursor c) now"])
      (auto simp: row_evolves_def ignore_pending_def plan_keys_upd set_sources_def sources_of_def)
qed

lemma evolves_save:
  assumes "save_source P A actor account chat title pos config base now d = Inr (s, d')"
  shows "evolves d d'"
proof (cases "find (\<lambda>s. s_account s = account \<and> s_chat s = chat) (sources_of d)")
  case (Some old)
  with assms obtain c1 where "d' = set_sources (upd_where (\<lambda>s. s_id s = s_id old) (again_source title c1 pos now) (sources_of d)) d"
    by (auto simp: save_source_def bindE_Inr Let_def split: if_splits)
  then show ?thesis
    by (intro evolves_rows[where p = "\<lambda>s. s_id s = s_id old" and f = "again_source title c1 pos now"])
      (auto simp: row_evolves_def again_source_def set_sources_def sources_of_def)
next
  case None
  let ?i = "next_id s_id (sources_of d)"
  from assms None obtain c0 c1 where d': "d' = set_sources (upd_where (\<lambda>s. s_id s = ?i) (\<lambda>s. s\<lparr>s_config := c1\<rparr>)
      (sources_of d @ [new_source ?i account chat title c0 pos now]))
        (set_sources (sources_of d @ [new_source ?i account chat title c0 pos now]) d)"
    by (auto simp: save_source_def bindE_Inr Let_def split: if_splits)
  have "row_of s_id i (sources_of d') = Some r" if r: "row_of s_id i (sources_of d) = Some r" for i r
  proof -
    have "?i \<noteq> i" using next_id_fresh[of s_id "sources_of d"] row_of_Some[OF r] by auto
    then show ?thesis using r by (simp add: d' row_of_upd row_of_append)
  qed
  moreover have "settled a c m d' = settled a c m d" for a c m
    by (simp add: d' settled_def journalled_def set_sources_def)
  ultimately show ?thesis by (auto simp: evolves_def)
qed

lemma edit_plan_journal:
  assumes "edit_plan P A actor i rv name short ignore now d = Inr (q, d')"
  shows "p_journal d' = p_journal d \<and> p_db d' = p_db d \<and> plan_key ` set (p_plans d') = plan_key ` set (p_plans d)"
proof -
  have "p_journal d' = p_journal d \<and> p_db d' = p_db d
    \<and> (\<exists>data. p_plans d' = upd_where (\<lambda>p. pl_id p = i) (edited_row data ignore) (p_plans d))"
    using assms
    by (auto simp: edit_plan_def bindE_Inr Let_def dest!: renamed_same split: if_splits option.splits) (rule exI, rule refl)
  then show ?thesis by (elim conjE exE) (simp add: plan_keys_upd)
qed

lemma plan_step_evolves:
  assumes "plan_step P A d d'"
  shows "evolves d d' \<or> (\<exists>now. d' = snd (expire now d))"
  using assms
proof (cases rule: plan_step.cases)
  case (ps_db db)
  with db_step_sources[OF ps_db(2)] show ?thesis by (auto simp: sources_of_def journalled_def intro!: evolvesK)
next
  case (ps_preferences actor us v)
  from preferences_db[OF ps_preferences] show ?thesis by (auto simp: sources_of_def journalled_def intro!: evolvesK)
next
  case (ps_directory actor short path owners u)
  then have "\<exists>x. d' = d\<lparr>p_dirs := x\<rparr>" by (auto simp: set_directory_def bindE_Inr split: if_splits option.splits)
  then show ?thesis by (auto simp: sources_of_def journalled_def intro!: evolvesK)
next
  case (ps_create actor r now qc)
  then show ?thesis using evolves_create_plan by (metis prod.exhaust)
next
  case (ps_edit actor i rv name short ignore now q)
  from edit_plan_journal[OF ps_edit] show ?thesis
    by (auto simp: sources_of_def journalled_def plan_keys_upd intro!: evolvesK)
next
  case (ps_feedback actor i rv now u)
  then obtain sid c d1 where c: "change_source P A actor sid rv c now d = Inr ((), d1)"
    and d': "\<exists>x. d' = d1\<lparr>p_feedback := x\<rparr>"
    by (auto simp: apply_feedback_def bindE_Inr Let_def split: option.splits if_splits)
  from d' have "evolves d1 d'" by (auto simp: sources_of_def journalled_def intro!: evolvesK)
  with evolves_change[OF c] show ?thesis using evolves_trans by blast
next
  case (ps_save actor account chat title pos config base now s)
  from evolves_save[OF ps_save(1)] show ?thesis ..
next
  case (ps_change actor i rv c now u)
  from evolves_change[OF ps_change] show ?thesis ..
next
  case (ps_submit actor i rv now tc)
  from evolves_submit[OF ps_submit] show ?thesis ..
next
  case (ps_expire now)
  then show ?thesis by blast
qed

section \<open>Quiet programs\<close>

text \<open>A program after which, however it ends, the database has evolved from the one before.\<close>

definition calm :: "'a lp \<Rightarrow> bool" where
  "calm m \<longleftrightarrow> (\<forall>d. remains (\<lambda>s. evolves d (l_db s)) m)"

named_theorems calm_intros \<open>programs that are calm\<close>

lemma calm_follows: "calm m \<Longrightarrow> m s = (r, s') \<Longrightarrow> evolves (l_db s) (l_db s')"
  using remains_run[of "\<lambda>t. evolves (l_db s) (l_db t)" m s] by (simp add: calm_def)

lemma calmI: "(\<And>s r s'. m s = (r, s') \<Longrightarrow> evolves (l_db s) (l_db s')) \<Longrightarrow> calm m"
  unfolding calm_def by (intro allI specI) (auto split: sum.splits intro: evolves_trans)

lemma calm_control [calm_intros]:
  "calm (returnL a)" "calm (raiseL e)"
  "calm m \<Longrightarrow> (\<And>a. calm (f a)) \<Longrightarrow> calm (bindL m f)"
  "calm m \<Longrightarrow> calm n \<Longrightarrow> calm (thenL m n)"
  "calm m \<Longrightarrow> (\<And>e. calm (h e)) \<Longrightarrow> calm (catchL m h)"
  "calm u \<Longrightarrow> calm (whenL b u)"
  by (auto simp: calm_def)

lemma calm_look [calm_intros]: "(\<And>w. calm (g w)) \<Longrightarrow> calm (lookL g)"
  by (auto simp: calm_def)

lemma calm_step [calm_intros]: "(\<And>s. evolves (l_db s) (l_db (f s))) \<Longrightarrow> calm (stepL f)"
  by (rule calmI) (auto simp: stepL_def)

lemma calm_sense [calm_intros]: "calm (senseL f)"
  by (rule calmI) (auto simp: senseL_def ticked_def)

lemma calm_await [calm_intros]: "polite K \<Longrightarrow> calm (awaitL K f)"
  by (rule calmI) (auto simp: awaitL_def polite_def)

lemma calm_read [calm_intros]: "calm (readL f)"
  by (rule calmI) (auto simp: readL_def)

lemma calm_db [calm_intros]: "(\<And>d a d'. f d = Inr (a, d') \<Longrightarrow> evolves d d') \<Longrightarrow> calm (dbL f)"
  by (rule calmI) (auto simp: dbL_def split: sum.splits)

lemma calm_admin [calm_intros]: "(\<And>d. evolves d (f d)) \<Longrightarrow> calm (adminL K f)"
  unfolding adminL_def by (rule calm_db) (auto simp: bindE_Inr)

lemma calm_if [calm_intros]: "(b \<Longrightarrow> calm m) \<Longrightarrow> (\<not> b \<Longrightarrow> calm n) \<Longrightarrow> calm (if b then m else n)"
  by simp

lemma calm_option [calm_intros]: "calm m \<Longrightarrow> (\<And>a. calm (f a)) \<Longrightarrow> calm (case x of None \<Rightarrow> m | Some a \<Rightarrow> f a)"
  by (cases x) auto

lemma calm_pair [calm_intros]: "(\<And>a b. calm (f a b)) \<Longrightarrow> calm (case x of (a, b) \<Rightarrow> f a b)"
  by (cases x) auto

lemma calm_verified [calm_intros]: "polite K \<Longrightarrow> calm (verified_chat K ref)"
  unfolding verified_chat_def by (intro calm_intros)

lemma calm_reverify [calm_intros]: "polite K \<Longrightarrow> calm (reverify K source)"
  unfolding reverify_def by (intro calm_intros) auto

lemma calm_journal [calm_intros]: "calm (journal K source m res att)"
  unfolding journal_def by (intro calm_intros evolves_journal)

lemma calm_announce [calm_intros]: "polite K \<Longrightarrow> calm (announce K c)"
  unfolding announce_def notice_due_def by (intro calm_intros) auto

lemma calm_submit [calm_intros]: "calm (submit_plan K p)"
proof -
  have "evolves (l_db s) (l_db (s\<lparr>l_db := (l_db s)\<lparr>p_journal := upd_where q (\<lambda>e. e\<lparr>jr_result := res_held\<rparr>)
      (p_journal (l_db s))\<rparr>\<rparr>))" for s :: listener and q
    by (simp add: evolves_journal_upd)
  then show ?thesis unfolding submit_plan_def by (intro calm_intros) (auto dest: evolves_submit)
qed

lemma calm_register [calm_intros]: "polite K \<Longrightarrow> calm (register K source i naming)"
  unfolding register_def by (intro calm_intros) (auto dest: evolves_create_plan)

lemma calm_decide [calm_intros]: "polite K \<Longrightarrow> calm (decide_on K source m caption)"
  unfolding decide_on_def by (intro calm_intros)

lemma calm_receive [calm_intros]: "polite K \<Longrightarrow> calm (receive K source m caption)"
  unfolding receive_def require_admin_def by (intro calm_intros)

section \<open>What a normal return tells\<close>

lemma bindL_Inr: "bindL m f s = (Inr b, s') \<longleftrightarrow> (\<exists>a s1. m s = (Inr a, s1) \<and> f a s1 = (Inr b, s'))"
  by (auto simp: bindL_def split: prod.splits sum.splits)

lemma thenL_Inr: "thenL m n s = (Inr b, s') \<longleftrightarrow> (\<exists>a s1. m s = (Inr a, s1) \<and> n s1 = (Inr b, s'))"
  by (simp add: thenL_def bindL_Inr)

lemma readL_Inr: "readL f s = (Inr a, s') \<longleftrightarrow> f s = Inr a \<and> s' = s"
  by (auto simp: readL_def errL_def split: sum.splits)

lemma dbL_Inr: "dbL f s = (Inr a, s') \<longleftrightarrow> (\<exists>d. f (l_db s) = Inr (a, d) \<and> s' = s\<lparr>l_db := d\<rparr>)"
  by (auto simp: dbL_def split: sum.splits)

lemma returnL_Inr: "returnL a s = (Inr b, s') \<longleftrightarrow> b = a \<and> s' = s"
  by (auto simp: returnL_def)

lemma raiseL_Inr: "raiseL e s \<noteq> (Inr b, s')"
  by (simp add: raiseL_def)

lemma senseL_Inr: "senseL f s = (Inr a, s') \<longleftrightarrow> a = f (l_tick s) \<and> s' = ticked s"
  by (auto simp: senseL_def)

lemma stepL_Inr: "stepL f s = (Inr a, s') \<longleftrightarrow> s' = f s"
  by (auto simp: stepL_def)

lemmas run_Inr = bindL_Inr thenL_Inr readL_Inr dbL_Inr returnL_Inr raiseL_Inr senseL_Inr stepL_Inr

lemma journal_settled: "journal K source m res att s = (Inr u, s') \<Longrightarrow> settled (s_account source) (s_chat source) m (l_db s')"
  by (auto simp: journal_def run_Inr adminL_def bindE_Inr journal_insert_settled)

lemma facts_fields [simp]: "i_message (facts P m c) = t_number m" "i_chat (facts P m c) = t_chat m"
  by (simp_all add: facts_def Let_def)

lemma register_settled:
  assumes "polite K" "register K source i naming s = (Inr u, s')"
  shows "settled (s_account source) (i_chat i) (i_message i) (l_db s')"
proof -
  from assms(2) obtain dir now p created d confirm where
    c: "create_plan (k_P K) (k_admin K) (k_admin K) (receiving_proposal K source i naming (alias_of dir)) now (l_db (ticked s))
        = Inr ((p, created), d)"
    and rest: "thenL (whenL (\<not> json_true confirm) (submit_plan K p)) (announce K created) ((ticked s)\<lparr>l_db := d\<rparr>) = (Inr u, s')"
    by (auto simp: register_def bindL_Inr readL_Inr dbL_Inr senseL_Inr)
  have "calm (thenL (whenL (\<not> json_true confirm) (submit_plan K p)) (announce K created))"
    by (intro calm_intros assms(1))
  from calm_follows[OF this rest] have "evolves d (l_db s')" by simp
  moreover have "settled (s_account source) (i_chat i) (i_message i) d"
    using evolves_create_plan[OF c] by (auto simp: settled_def same_message_def receiving_proposal_def)
  ultimately show ?thesis by (simp add: evolves_def)
qed

lemma decide_settled:
  assumes "polite K" "decide_on K source m caption s = (Inr u, s')" "t_chat (po_message m) = s_chat source"
  shows "settled (s_account source) (s_chat source) (post_id m) (l_db s')"
proof -
  from assms(2) obtain i matched reason naming where p: "preview K source m caption = Inr (i, matched, reason, naming)"
    and rest: "(if \<not> matched then journal K source (post_id m) reason (i_attachment i)
       else if QUEUE_LIMIT \<le> count_states (p_db (l_db s)) [Queued, Reserved, Downloading, Streaming]
         then raiseL (ReceiveLimited msg_queue_full)
       else register K source i naming) s = (Inr u, s')"
    by (auto simp: decide_on_def lookL_def run_Inr split: if_splits)
  from p have "i = facts (k_P K) (po_message m) caption" by (auto simp: preview_def Let_def bindE_Inr split: prod.splits)
  then have "i_chat i = s_chat source" "i_message i = post_id m" using assms(3) by (simp_all add: post_id_def)
  with rest show ?thesis
    using journal_settled register_settled[OF assms(1)] by (fastforce simp: raiseL_Inr split: if_splits)
qed

section \<open>Every message behind the cursor is decided on\<close>

text \<open>
  While the source remains its revision, the messages of the page that are behind the cursor, and
  those in \<open>D\<close>, are decided on.
\<close>

definition covered :: "source_row \<Rightarrow> post list \<Rightarrow> post set \<Rightarrow> plandb \<Rightarrow> bool" where
  "covered source ms D d \<longleftrightarrow> (\<exists>r. row_of s_id (s_id source) (sources_of d) = Some r
     \<and> s_account r = s_account source \<and> s_chat r = s_chat source \<and> s_revision source \<le> s_revision r
     \<and> (s_revision r = s_revision source \<longrightarrow> (\<forall>m \<in> set ms. s_cursor source < post_id m
          \<longrightarrow> m \<in> D \<or> post_id m \<le> s_cursor r \<longrightarrow> settled (s_account source) (s_chat source) (post_id m) d)))"

lemma covered_evolves: "covered source ms D d \<Longrightarrow> evolves d d' \<Longrightarrow> covered source ms D d'"
proof -
  assume c: "covered source ms D d" and f: "evolves d d'"
  from c obtain r where r: "row_of s_id (s_id source) (sources_of d) = Some r"
    "s_account r = s_account source" "s_chat r = s_chat source" "s_revision source \<le> s_revision r"
    "s_revision r = s_revision source \<longrightarrow> (\<forall>m \<in> set ms. s_cursor source < post_id m
          \<longrightarrow> m \<in> D \<or> post_id m \<le> s_cursor r \<longrightarrow> settled (s_account source) (s_chat source) (post_id m) d)"
    by (auto simp: covered_def)
  from f r(1) obtain r' where r': "row_of s_id (s_id source) (sources_of d') = Some r'" "row_evolves r r'"
    unfolding evolves_def by blast
  have "settled a c m d \<Longrightarrow> settled a c m d'" for a c m using f by (simp add: evolves_def)
  with r r' show ?thesis unfolding covered_def row_evolves_def by (intro exI[of _ r']) auto
qed

lemma covered_start: "row_of s_id (s_id source) (sources_of d) = Some source \<Longrightarrow> covered source ms {} d"
  by (auto simp: covered_def)

text \<open>Whether the poll still stands, as a fact about the state.\<close>

lemma admin_source_Inr: "admin_source K i s = Inr r \<longleftrightarrow> authorize (k_admin K) (k_admin K) True (l_db s) = Inr ()
    \<and> row_of s_id i (sources_of (l_db s)) = Some r"
  by (simp add: admin_source_def the_source_Inr)

lemma poll_current_True:
  "poll_current K source client s = Inr True \<longleftrightarrow> (\<exists>r a. admin_source K (s_id source) s = Inr r \<and> account_value s = Inr a
     \<and> l_client s = client \<and> s_revision r = s_revision source \<and> s_enabled r \<and> \<not> s_deleted r
     \<and> account_enabled a = Inr True \<and> account_is a (s_account source) = Inr True)"
  by (auto simp: poll_current_def bindE_Inr)

lemma receive_covers:
  assumes K: "polite K" and run: "receive K latest m caption s = (Inr u, s')"
    and cov: "covered source ms D (l_db s)" and m: "m \<in> set ms" "t_chat (po_message m) = s_chat source"
    and latest: "s_id latest = s_id source" and cur: "poll_current K source client s = Inr True"
    and now: "poll_current K source client s' = Inr True"
  shows "covered source ms (insert m D) (l_db s')"
proof -
  from run obtain previous s1 wanted where p: "admin_source K (s_id source) s = Inr previous"
    and v: "reverify K previous s = (Inr (), s1)" and w: "still_wanted K previous m s1 = Inr wanted"
    and rest: "(case wanted of None \<Rightarrow> returnL () | Some src \<Rightarrow> decide_on K src m caption) s1 = (Inr u, s')"
    by (auto simp: receive_def require_admin_def run_Inr latest)
  have id: "s_id previous = s_id source" using p row_of_Some by (fastforce simp: admin_source_Inr)
  have rev: "s_revision previous = s_revision source" using cur p by (auto simp: poll_current_True)
  have "evolves (l_db s) (l_db s1)" using calm_follows[OF calm_reverify[OF K] v] .
  with cov have c1: "covered source ms D (l_db s1)" by (rule covered_evolves)
  have "evolves (l_db s) (l_db s')" using calm_follows[OF calm_receive[OF K] run] .
  with cov have c2: "covered source ms D (l_db s')" by (rule covered_evolves)
  from w obtain src where src: "admin_source K (s_id source) s1 = Inr src"
    by (auto simp: still_wanted_def bindE_Inr id)
  then have row: "row_of s_id (s_id source) (sources_of (l_db s1)) = Some src" by (simp add: admin_source_Inr)
  with c1 have same: "s_account src = s_account source" "s_chat src = s_chat source" by (auto simp: covered_def)
  have reg: "covered source ms (insert m D) d" if "covered source ms D d" "settled (s_account source) (s_chat source) (post_id m) d" for d
    using that by (auto simp: covered_def)
  show ?thesis
  proof (cases wanted)
    case (Some src')
    then have "src' = src" using w src by (auto simp: still_wanted_def bindE_Inr id split: if_splits)
    with Some rest have "decide_on K src m caption s1 = (Inr u, s')" by simp
    from decide_settled[OF K this] m same have "settled (s_account source) (s_chat source) (post_id m) (l_db s')" by simp
    with c2 show ?thesis by (rule reg)
  next
    case None
    with rest have s': "s' = s1" by (simp add: returnL_Inr)
    with now src obtain a where "account_value s1 = Inr a" "s_revision src = s_revision source" "s_enabled src" "\<not> s_deleted src"
      "account_enabled a = Inr True" "account_is a (s_account source) = Inr True"
      by (auto simp: poll_current_True)
    with w src None same rev id have "post_id m \<le> s_cursor src \<or> journalled (s_account source) (s_chat source) (post_id m) (l_db s1)"
      by (auto simp: still_wanted_def split: if_splits)
    then show ?thesis
    proof
      assume "post_id m \<le> s_cursor src"
      with c1 row show ?thesis unfolding s' by (auto simp: covered_def)
    next
      assume "journalled (s_account source) (s_chat source) (post_id m) (l_db s1)"
      with reg[OF c1] show ?thesis unfolding s' by (simp add: settled_def)
    qed
  qed
qed

text \<open>The cursor update.\<close>

lemma advance_covers:
  assumes c: "covered source ms D d" and m: "m \<in> D"
    and all: "\<And>x. x \<in> set ms \<Longrightarrow> post_id x \<le> post_id m \<Longrightarrow> x \<in> D"
  shows "covered source ms D (advance (s_id source) (post_id m) status d)"
proof -
  let ?f = "\<lambda>r. r\<lparr>s_cursor := post_id m, s_status := status\<rparr>" and ?p = "\<lambda>r. s_id r = s_id source \<and> s_cursor r < post_id m"
  let ?d = "advance (s_id source) (post_id m) status d"
  have rows: "row_of s_id i (upd_where ?p ?f rs) = map_option (\<lambda>r. if ?p r then ?f r else r) (row_of s_id i rs)" for i rs
    by (induction rs) auto
  from c obtain r where r: "row_of s_id (s_id source) (sources_of d) = Some r"
    "s_account r = s_account source" "s_chat r = s_chat source" "s_revision source \<le> s_revision r"
    "s_revision r = s_revision source \<longrightarrow> (\<forall>m \<in> set ms. s_cursor source < post_id m
          \<longrightarrow> m \<in> D \<or> post_id m \<le> s_cursor r \<longrightarrow> settled (s_account source) (s_chat source) (post_id m) d)"
    by (auto simp: covered_def)
  have "settled a ch x ?d = settled a ch x d" for a ch x
    by (simp add: settled_def journalled_def advance_def on_sources_def set_sources_def)
  moreover have "row_of s_id (s_id source) (sources_of ?d) = Some (if ?p r then ?f r else r)"
    using r(1) by (simp add: advance_def on_sources_def rows)
  ultimately show ?thesis using r all unfolding covered_def by auto
qed

section \<open>One poll\<close>

text \<open>The request of the page is the fourth or fifth observation of a poll.\<close>

definition page_tick :: "source_row \<Rightarrow> nat \<Rightarrow> nat" where
  "page_tick source n = n + (if s_gap source \<or> s_polled_at source = 0 then 4 else 5)"

definition page_of :: "link \<Rightarrow> source_row \<Rightarrow> nat \<Rightarrow> post list" where
  "page_of K source n = (let k = page_tick source n in
     case k_page K k (s_chat source) (s_cursor source) (k_wall K (k - 1) - LOOKBACK) (BATCH + 10) of
       Inl e \<Rightarrow> [] | Inr ms \<Rightarrow> ms)"

text \<open>
  What the code relies on of Telegram: a page comes in ascending order, from the chat that was
  asked for, and the messages of an album are neighbours.
\<close>

definition page_ok :: "int \<Rightarrow> post list \<Rightarrow> bool" where
  "page_ok chat ms \<longleftrightarrow> sorted_wrt (\<lambda>a b. post_id a < post_id b) ms \<and> (\<forall>m \<in> set ms. t_chat (po_message m) = chat)
     \<and> (\<forall>a b c. a < b \<longrightarrow> b < c \<longrightarrow> c < length ms \<longrightarrow> t_grouped (po_message (ms ! a)) = t_grouped (po_message (ms ! c))
          \<longrightarrow> t_grouped (po_message (ms ! a)) \<noteq> 0 \<longrightarrow> t_grouped (po_message (ms ! b)) = t_grouped (po_message (ms ! a)))"

lemma filter_neighbours:
  assumes "\<And>b c. b < c \<Longrightarrow> c < length xs \<Longrightarrow> P (xs ! c) \<Longrightarrow> P (xs ! b)"
  shows "filter P xs = takeWhile P xs"
  using assms
proof (induction xs)
  case (Cons x xs)
  show ?case
  proof (cases "P x")
    case True
    have "filter P xs = takeWhile P xs"
      using Cons.prems[of "Suc b" "Suc c" for b c] by (intro Cons.IH) auto
    with True show ?thesis by simp
  next
    case False
    have "\<not> P y" if "y \<in> set xs" for y
    proof
      assume "P y"
      from that obtain c where "c < length xs" "xs ! c = y" by (auto simp: in_set_conv_nth)
      with Cons.prems[of 0 "Suc c"] \<open>P y\<close> False show False by simp
    qed
    with False show ?thesis by (simp add: filter_empty_conv)
  qed
qed simp

lemma batch_page_prefix:
  assumes "page_ok chat ms"
  shows "\<exists>rest. ms = batch_page ms @ rest"
proof (cases "length ms \<le> BATCH")
  case True
  then show ?thesis by (simp add: batch_page_def)
next
  case False
  let ?g = "\<lambda>m. t_grouped (po_message m)" and ?t = "t_grouped (po_message (ms ! (BATCH - 1)))"
  have B: "BATCH - 1 < BATCH" "BATCH < length ms" using False by (simp_all add: BATCH_def)
  have "filter (\<lambda>m. ?g m = ?t) (drop BATCH ms) = takeWhile (\<lambda>m. ?g m = ?t) (drop BATCH ms)" if t: "?t \<noteq> 0"
  proof (rule filter_neighbours)
    fix b c assume bc: "b < c" "c < length (drop BATCH ms)" "?g (drop BATCH ms ! c) = ?t"
    have all: "\<forall>a b c. a < b \<longrightarrow> b < c \<longrightarrow> c < length ms \<longrightarrow> ?g (ms ! a) = ?g (ms ! c)
        \<longrightarrow> ?g (ms ! a) \<noteq> 0 \<longrightarrow> ?g (ms ! b) = ?g (ms ! a)"
      using assms unfolding page_ok_def by blast
    have "BATCH - 1 < BATCH + b" "BATCH + b < BATCH + c" "BATCH + c < length ms" using B bc by auto
    moreover have "drop BATCH ms ! b = ms ! (BATCH + b)" "drop BATCH ms ! c = ms ! (BATCH + c)" using B by simp_all
    ultimately show "?g (drop BATCH ms ! b) = ?t"
      using all[rule_format, of "BATCH - 1" "BATCH + b" "BATCH + c"] t bc(3) by metis
  qed
  moreover have "\<exists>rest. ms = take BATCH ms @ takeWhile Q (drop BATCH ms) @ rest" for Q
    by (metis append_take_drop_id takeWhile_dropWhile_id)
  moreover have "\<exists>rest. ms = take BATCH ms @ rest" by (metis append_take_drop_id)
  ultimately show ?thesis using False by (auto simp: batch_page_def Let_def)
qed

lemma if_current_Inr:
  "if_current K source client m s = (Inr b, s') \<Longrightarrow>
    (if b then poll_current K source client s = Inr True \<and> (\<exists>u. m s = (Inr u, s'))
     else poll_current K source client s = Inr False \<and> s' = s)"
  by (auto simp: if_current_def run_Inr bindE_Inr split: if_splits)

lemma if_current_Inl:
  "if_current K source client m s = (Inl e, s') \<Longrightarrow> s' = s \<or> (poll_current K source client s = Inr True \<and> m s = (Inl e, s'))"
  by (auto simp: if_current_def bindL_def thenL_def readL_def errL_def returnL_def bindE_def
      split: sum.splits if_splits prod.splits)

lemma advance_cursor_db:
  "advance_cursor K source gap m s = (r, s') \<Longrightarrow> (\<exists>status. l_db s' = advance (s_id source) (post_id m) status (l_db s)) \<and> r = Inr ()"
  by (auto simp: advance_cursor_def bindL_def returnL_def senseL_def stepL_def ticked_def split: if_splits)

lemma take_post_covers:
  assumes K: "polite K" and run: "take_post K source client gap captions m s = (r, s')"
    and cov: "covered source ms D (l_db s)" and m: "m \<in> set ms" "t_chat (po_message m) = s_chat source"
    and all: "\<And>x. x \<in> set ms \<Longrightarrow> post_id x \<le> post_id m \<Longrightarrow> x \<in> insert m D"
  shows "covered source ms D (l_db s') \<and> (r = Inr None \<longrightarrow> covered source ms (insert m D) (l_db s'))"
proof -
  let ?now = "k_wall K (l_tick s)" and ?s1 = "ticked s"
  have weak: "covered source ms (insert m D) d \<Longrightarrow> covered source ms D d" for d
    by (auto simp: covered_def)
  have db: "l_db (ticked t) = l_db t" for t by (simp add: ticked_def)
  show ?thesis
  proof (cases "?now - po_date m < 2 \<or> poll_current K source client ?s1 \<noteq> Inr True")
    case True
    then have "l_db s' = l_db s \<and> r \<noteq> Inr None"
      using run by (auto simp: take_post_def bindL_def senseL_def returnL_def readL_def errL_def db split: sum.splits if_splits)
    with cov show ?thesis by simp
  next
    case False
    then have cur: "poll_current K source client ?s1 = Inr True" by simp
    then obtain latest where latest: "admin_source K (s_id source) ?s1 = Inr latest" by (auto simp: poll_current_True)
    let ?s2 = "ticked ?s1"
    define step where "step = (if LOOKBACK < k_wall K (l_tick ?s1) - po_date m then journal K source (post_id m) res_late False
               else receive K latest m (message_caption (k_P K) m captions))"
    define rest where "rest = bindL (if_current K source client (advance_cursor K source gap m)) (\<lambda>ok.
          returnL (if ok then None else Some False))"
    have eq: "thenL step rest ?s2 = (r, s')"
      using run False latest cur
      by (auto simp: take_post_def bindL_def senseL_def readL_def errL_def step_def rest_def)
    have cov2: "covered source ms D (l_db ?s2)" using cov by (simp add: db)
    have q: "calm step" unfolding step_def by (intro calm_intros K)
    obtain r3 s3 where run3: "step ?s2 = (r3, s3)" by fastforce
    from calm_follows[OF q run3] cov2 have cov3: "covered source ms D (l_db s3)" using covered_evolves by blast
    show ?thesis
    proof (cases r3)
      case (Inl e)
      with eq run3 cov3 show ?thesis by (auto simp: thenL_def bindL_def)
    next
      case (Inr u)
      with eq run3 have rest3: "rest s3 = (r, s')" by (simp add: thenL_def bindL_def)
      have ins: "covered source ms (insert m D) (l_db s3)" if now: "poll_current K source client s3 = Inr True"
      proof (cases "LOOKBACK < k_wall K (l_tick ?s1) - po_date m")
        case True
        with run3 Inr have "journal K source (post_id m) res_late False ?s2 = (Inr u, s3)" by (simp add: step_def)
        from journal_settled[OF this] cov3 show ?thesis by (auto simp: covered_def)
      next
        case False
        with run3 Inr have "receive K latest m (message_caption (k_P K) m captions) ?s2 = (Inr u, s3)" by (simp add: step_def)
        moreover have "s_id latest = s_id source" using latest row_of_Some by (fastforce simp: admin_source_Inr)
        moreover have "poll_current K source client ?s2 = Inr True"
          using cur by (simp add: poll_current_def admin_source_def account_value_def ticked_def)
        ultimately show ?thesis using receive_covers[OF K _ cov2 m] now by blast
      qed
      obtain r4 s4 where run4: "if_current K source client (advance_cursor K source gap m) s3 = (r4, s4)" by fastforce
      with rest3 have r: "s' = s4" "r = (case r4 of Inl e \<Rightarrow> Inl e | Inr ok \<Rightarrow> Inr (if ok then None else Some False))"
        by (auto simp: rest_def bindL_def returnL_def split: sum.splits)
      have adv: "covered source ms (insert m D) (l_db s4)"
        if "poll_current K source client s3 = Inr True" "advance_cursor K source gap m s3 = (x, s4)" for x
        using advance_cursor_db[OF that(2)] advance_covers[OF ins[OF that(1)] _ all] by auto
      show ?thesis
      proof (cases r4)
        case (Inl e)
        then have "l_db s4 = l_db s3"
          using if_current_Inl[of K source client _ s3 e s4] run4 advance_cursor_db[of K source gap m s3 "Inl e" s4] by auto
        with cov3 r Inl show ?thesis by simp
      next
        case (Inr ok)
        from if_current_Inr[OF run4[unfolded Inr]] adv cov3 weak r Inr show ?thesis by (auto split: if_splits)
      qed
    qed
  qed
qed

lemma covered_empty: "covered source ms D d \<Longrightarrow> covered source ms {} d"
  by (auto simp: covered_def)

lemma take_posts_covers:
  assumes K: "polite K" and ok: "page_ok (s_chat source) ms" and ms: "ms = pre @ xs @ tail"
    and cov: "covered source ms (set pre) (l_db s)" and run: "take_posts K source client gap captions xs s = (r, s')"
  shows "covered source ms {} (l_db s')"
  using ms cov run
proof (induction xs arbitrary: pre s)
  case Nil
  then show ?case using covered_empty by (auto simp: returnL_def)
next
  case (Cons m xs)
  have m: "m \<in> set ms" "t_chat (po_message m) = s_chat source" using Cons.prems(1) ok by (auto simp: page_ok_def)
  have "sorted_wrt (\<lambda>a b. post_id a < post_id b) (pre @ (m # xs) @ tail)"
    using ok unfolding page_ok_def Cons.prems(1) by blast
  then have above: "post_id m < post_id x" if "x \<in> set xs \<or> x \<in> set tail" for x
    using that by (auto simp: sorted_wrt_append)
  have all: "x \<in> insert m (set pre)" if "x \<in> set ms" "post_id x \<le> post_id m" for x
    using that above[of x] unfolding Cons.prems(1) by auto
  obtain r1 s1 where run1: "take_post K source client gap captions m s = (r1, s1)" by fastforce
  note c = take_post_covers[OF K run1 Cons.prems(2) m all]
  show ?case
  proof (cases "r1 = Inr None")
    case True
    then have "take_posts K source client gap captions xs s1 = (r, s')" using Cons.prems(3) run1 by (simp add: bindL_def)
    moreover have "covered source ms (set (pre @ [m])) (l_db s1)" using c True by simp
    ultimately show ?thesis using Cons.IH[of "pre @ [m]" s1] Cons.prems(1) by simp
  next
    case False
    then have "s' = s1" using Cons.prems(3) run1 by (auto simp: bindL_def returnL_def split: sum.splits option.splits)
    with c covered_empty show ?thesis by blast
  qed
qed

lemma calm_finish: "calm (finish_poll K source client)"
proof -
  have "evolves d (polled source now d)" for d now
    unfolding polled_def by (rule evolves_on_sources) (simp add: row_evolves_def)
  then show ?thesis unfolding finish_poll_def if_current_def by (intro calm_intros) auto
qed

lemma bindL_forward:
  "bindL (returnL a) f = f a" "bindL (stepL g) f s = f () (g s)" "bindL (senseL h) k t = k (h (l_tick t)) (ticked t)"
  by (auto simp: bindL_def returnL_def stepL_def senseL_def)

lemma poll_page_run:
  "\<exists>s1 gap. evolves (l_db s) (l_db s1) \<and> poll_page K source client s =
     (case k_page K (page_tick source (l_tick s) - 2) (s_chat source) (s_cursor source)
         (k_wall K (page_tick source (l_tick s) - 3) - LOOKBACK) (BATCH + 10) of
        Inl e \<Rightarrow> (Inl e, (k_others K (page_tick source (l_tick s) - 2) s1)\<lparr>l_tick := page_tick source (l_tick s) - 1\<rparr>)
      | Inr ms \<Rightarrow> bindL (take_posts K source client gap (album_captions (batch_page ms)) (batch_page ms))
           (\<lambda>go_on. whenL go_on (finish_poll K source client))
           ((k_others K (page_tick source (l_tick s) - 2) s1)\<lparr>l_tick := page_tick source (l_tick s) - 1\<rparr>))"
proof -
  define v where "v = s\<lparr>l_tick := l_tick s + 1, l_verified := (l_verified s)(s_chat source := k_mono K (l_tick s) + 10)\<rparr>"
  have "\<exists>gap g. gap_seen K source v = (Inr gap, g) \<and> l_db g = l_db s
      \<and> l_tick g = l_tick s + (if s_gap source \<or> s_polled_at source = 0 then 1 else 2)"
    by (auto simp: gap_seen_def v_def returnL_def bindL_def senseL_def ticked_def)
  then obtain gap g where gap: "gap_seen K source v = (Inr gap, g)" "l_db g = l_db s"
      "l_tick g = l_tick s + (if s_gap source \<or> s_polled_at source = 0 then 1 else 2)" by blast
  define w where "w = g\<lparr>l_db := (if gap then mark_gap source (l_db g) else l_db g), l_tick := l_tick g + 1\<rparr>"
  have "evolves (l_db s) (mark_gap source (l_db s))"
    unfolding mark_gap_def by (rule evolves_on_sources) (simp add: row_evolves_def)
  then have "evolves (l_db s) (l_db w)" using gap(2) by (simp add: w_def)
  moreover have "l_tick w = page_tick source (l_tick s) - 2" "l_tick g = page_tick source (l_tick s) - 3"
    using gap(3) by (simp_all add: w_def page_tick_def)
  moreover have "poll_page K source client s = bindL (awaitL K (\<lambda>k. k_page K k (s_chat source) (s_cursor source)
        (k_wall K (l_tick g) - LOOKBACK) (BATCH + 10))) (\<lambda>ms.
     bindL (take_posts K source client gap (album_captions (batch_page ms)) (batch_page ms)) (\<lambda>go_on.
      whenL go_on (finish_poll K source client))) w"
    using gap(1) by (cases gap) (simp_all add: poll_page_def bindL_def[of "gap_seen _ _"] thenL_def bindL_forward ticked_def
      v_def w_def whenL_def)
  moreover have "Suc (page_tick source n - 2) = page_tick source n - 1" for n by (simp add: page_tick_def)
  ultimately show ?thesis
    by (intro exI[of _ w] exI[of _ gap]) (simp add: bindL_def[of "awaitL _ _"] awaitL_def split: sum.split)
qed

lemma verified_chat_tick: "verified_chat K ref s = (Inr e, s') \<Longrightarrow> l_tick s' = l_tick s + 2"
  by (auto simp: verified_chat_def bindL_Inr awaitL_def returnL_Inr raiseL_Inr split: if_splits)


section \<open>A sample poll\<close>

text \<open>One message that is older than the window.\<close>

definition ex_post :: post where
  "ex_post = \<lparr>po_message = \<lparr>t_number = 3, t_chat = 5, t_video = False, t_photo = None, t_sound = False,
      t_document = None, t_file = None, t_media = False, t_raw_text = [], t_text = [], t_noforwards = None,
      t_grouped = 0\<rparr>, po_date = 0, po_entities = []\<rparr>"

definition ex_chat :: chat_entity where
  "ex_chat = \<lparr>ce_group = True, ce_left = Some False, ce_deactivated = False, ce_peer = 5, ce_title = asc ''Show''\<rparr>"

definition ex_net :: link where
  "ex_net = \<lparr>k_P = ascii_platform, k_admin = 9, k_target = [], k_classes = (\<lambda>_ _. False), k_wall = (\<lambda>_. 90000),
     k_mono = (\<lambda>_. 50), k_stop = (\<lambda>_. False), k_others = (\<lambda>_ s. s), k_entity = (\<lambda>_ _. Inr ex_chat),
     k_permissions = (\<lambda>_ _. Inr \<lparr>me_typed = True, me_left = False, me_banned = False, me_member_left = None,
        me_view = None, me_default = True, me_admin = False\<rparr>),
     k_page = (\<lambda>_ _ _ _ _. Inr [ex_post]), k_newest = (\<lambda>_ _. Inr []), k_invite = (\<lambda>_ _. Inr None),
     k_single = (\<lambda>_ _ _. Inr None), k_chunks = (\<lambda>_ _. []), k_request = (\<lambda>_ _. Inr ()),
     k_premium = (\<lambda>_. False), k_saved = (\<lambda>_. Inr None), k_window = (\<lambda>_. 1), k_notify = (\<lambda>_. Inr ()), k_sleep = (\<lambda>_. Inr ()),
     k_disconnect = (\<lambda>_. Inr ()), k_connected = (\<lambda>_. True), k_lock = (\<lambda>_. Inr ()), k_session_file = (\<lambda>_. True),
     k_identity = (\<lambda>_. Inr None), k_folder = (\<lambda>_ _. Inr ()), k_timed_out = (\<lambda>_. False)\<rparr>"

definition ex_account :: json where
  "ex_account = JObj [(asc ''enabled'', JBool True), (asc ''account'', JInt 7)]"

definition ex_listener :: listener where
  "ex_listener = \<lparr>l_db = (set_sources [ex_source] empty_plandb)\<lparr>p_db := empty_db\<lparr>d_sources := [ex_source],
       d_meta := [ACCOUNT_KEY \<mapsto> (0, Some ex_account)]\<rparr>\<rparr>, l_client = Some 0, l_clients = 1, l_session = True,
     l_notice = None, l_verified = (\<lambda>_. 0), l_after = 0, l_due = None, l_warned = False, l_failures = 0,
     l_backoff = new_backoff, l_waits = [], l_gates = (\<lambda>_. None), l_tick = 0\<rparr>"

lemma ex_polite: "polite ex_net"
  by (simp add: polite_def ex_net_def)

lemma ex_page: "page_of ex_net ex_source (l_tick ex_listener) = [ex_post]" "page_ok (s_chat ex_source) [ex_post]"
  by (simp_all add: page_of_def Let_def ex_net_def page_ok_def ex_source_def ex_post_def)

lemma ex_row: "row_of s_id (s_id ex_source) (sources_of (l_db ex_listener)) = Some ex_source"
  by (simp add: ex_listener_def sources_of_def ex_source_def)

lemma ex_poll: "row_of s_id (s_id ex_source) (sources_of (l_db (snd (poll ex_net ex_source ex_listener))))
    = Some (ex_source\<lparr>s_cursor := 3, s_status := st_listening, s_polled_at := 90000\<rparr>)"
  by (simp add: poll_def lookL_def thenL_def bindL_def awaitL_def verified_chat_def ex_net_def ex_chat_def
      returnL_def ex_listener_def readL_def errL_def poll_current_def admin_source_def the_source_def authorize_def
      sources_of_def ex_source_def account_value_def account_state_def ex_account_def account_enabled_def
      config_value_def jfind_def account_is_def whenL_def poll_page_def senseL_def ticked_def stepL_def gap_seen_def
      batch_page_def BATCH_def ex_post_def take_post_def LOOKBACK_def journal_def adminL_def dbL_def journal_insert_def
      journalled_def empty_plandb_def set_sources_def if_current_def advance_cursor_def advance_def on_sources_def
      finish_poll_def polled_def asc_def post_id_def res_late_def)


end
