(* ===== verification/Checked.thy ===== *)
theory Checked
  imports ListenerLoop ListenerLaws
begin

text \<open>
  Downloads through the personal account: \<open>CheckedSource\<close> of \<open>src/tg2cloud/listening/service.py\<close>, which
  checks the authorization again at every boundary, and \<open>ListeningClient._call\<close> of
  \<open>listening/transport.py\<close>, which waits a bounded time when Telegram limits the requests of a download.
\<close>

section \<open>The identity of a task\<close>

definition msg_no_identity :: ustr where
  "msg_no_identity = [30417, 21548, 36134, 21495, 26410, 36830, 25509, 25110, 20219, 21153, 24402, 23646,
      19981, 21305, 37197]"

definition msg_identity_gone :: ustr where
  "msg_identity_gone = [30417, 21548, 25480, 26435, 24050, 20572, 29992, 25110, 35835, 21462, 36523, 20221,
      21464, 21270, 65292, 35831, 37325, 26032, 25480, 26435, 21518, 25163, 21160, 37325, 35797]"

definition msg_wrong_source :: ustr where
  "msg_wrong_source = [26469, 28304, 36523, 20221, 19981, 19968, 33268]"

definition msg_client_changed :: ustr where
  "msg_client_changed = [30417, 21548, 36830, 25509, 24050, 21464, 21270, 65307, 35831, 37325, 26032, 26680,
      39564, 38468, 20214]"

definition msg_client_stopped :: ustr where
  "msg_client_stopped = [30417, 21548, 36830, 25509, 24050, 21464, 21270, 65307, 20572, 27490, 19979, 36733,
      65292, 19981, 20999, 25442, 35835, 21462, 36523, 20221]"

definition msg_client_old :: ustr where
  "msg_client_old = [30417, 21548, 36830, 25509, 24050, 21464, 21270, 65307, 24573, 30053, 26087, 35831,
      27714, 38169, 35823, 65292, 35831, 37325, 26032, 26680, 39564, 20219, 21153]"

definition msg_not_reachable :: ustr where
  "msg_not_reachable = [30417, 21548, 26469, 28304, 19981, 21487, 35775, 38382, 65292, 35831, 26816, 26597,
      26469, 28304, 25110, 36134, 21495, 29366, 24577]"

definition msg_attachment_changed :: ustr where
  "msg_attachment_changed = [26469, 28304, 38468, 20214, 24050, 21464, 21270, 65307, 20572, 27490, 21407,
      20219, 21153, 65292, 36991, 20813, 19979, 36733, 38169, 35823, 25991, 20214]"

definition msg_not_checked :: ustr where
  "msg_not_checked = [26410, 26680, 39564, 30340, 30417, 21548, 38468, 20214, 19981, 33021, 19979, 36733]"

definition msg_task_cancelled :: ustr where
  "msg_task_cancelled = [20219, 21153, 24050, 21462, 28040, 65307, 20572, 27490, 30417, 21548, 19979, 36733]"

definition msg_wait_at_least :: "int \<Rightarrow> ustr" where
  "msg_wait_at_least n = asc ''Telegram '' @ [38480, 27969, 65292, 38656, 31561, 24453, 33267,
      23569] @ asc '' '' @ dec n @ asc '' ''
     @ [31186, 65307, 24050, 35760, 24405, 36134, 21495, 20919, 21364]"

text \<open>\<open>"listener:" + str(account)\<close>.\<close>

definition identity_of :: "json \<Rightarrow> ustr" where
  "identity_of v = (case v of JInt i \<Rightarrow> listener_identity i | _ \<Rightarrow> asc ''listener:None'')"

text \<open>
  What \<open>CheckedSource\<close> reads of the dictionary it is given: a row of \<open>tasks\<close>, or one made up for a plan.
  \<open>None\<close> for the chat is a missing key.
\<close>

record reader =
  rd_sender :: int
  rd_identity :: ustr
  rd_source :: "int option"
  rd_chat :: "int option"
  rd_message :: int
  rd_media_key :: "ustr option"

definition reader_of :: "task \<Rightarrow> reader" where
  "reader_of t = \<lparr>rd_sender = t_sender_id t, rd_identity = t_read_identity t, rd_source = t_source_id t,
     rd_chat = Some (t_chat_id t), rd_message = t_message_id t, rd_media_key = t_media_key t\<rparr>"

lemma reader_of_fields [simp]:
  "rd_sender (reader_of t) = t_sender_id t" "rd_identity (reader_of t) = t_read_identity t"
  "rd_source (reader_of t) = t_source_id t" "rd_chat (reader_of t) = Some (t_chat_id t)"
  "rd_message (reader_of t) = t_message_id t" "rd_media_key (reader_of t) = t_media_key t"
  by (simp_all add: reader_of_def)

definition identity :: "link \<Rightarrow> reader \<Rightarrow> listener \<Rightarrow> exc + (nat \<times> source_row)" where
  "identity K t s = (case l_client s of
     None \<Rightarrow> Inl (ListenerReadError msg_no_identity)
   | Some client \<Rightarrow>
      if \<not> authorized (k_admin K) (p_db (l_db s)) (Some (k_admin K)) \<or> rd_sender t \<noteq> k_admin K
      then Inl (ListenerReadError msg_no_identity)
      else bindE (account_value s) (\<lambda>current.
        bindE (account_enabled current) (\<lambda>on.
        if \<not> on then Inl (ListenerReadError msg_identity_gone)
        else bindE (config_value current (asc ''account'')) (\<lambda>acc.
          if rd_identity t \<noteq> identity_of acc then Inl (ListenerReadError msg_identity_gone)
          else (case rd_source t of
            None \<Rightarrow> Inl (PlanningError msg_no_source)
          | Some i \<Rightarrow> bindE (admin_source K i s) (\<lambda>source.
             case rd_chat t of None \<Rightarrow> Inl (KeyError (asc ''chat_id''))
             | Some chat \<Rightarrow> if s_chat source \<noteq> chat \<or> acc \<noteq> JInt (s_account source)
                 then Inl (ListenerReadError msg_wrong_source) else Inr (client, source)))))))"

text \<open>The client is still the one that was asked.\<close>

definition recheck :: "link \<Rightarrow> reader \<Rightarrow> nat \<Rightarrow> ustr \<Rightarrow> unit lp" where
  "recheck K t client message = readL (\<lambda>s. bindE (identity K t s) (\<lambda>(now, source).
     if now \<noteq> client then Inl (ListenerReadError message) else Inr ()))"

definition msg_no_source_identity :: ustr where
  "msg_no_source_identity = [30417, 21548, 20219, 21153, 26080, 27861, 21462, 24471, 21305, 37197, 30340,
      31649, 29702, 21592, 35835, 21462, 36523, 20221]"

text \<open>Where a task is read from: \<open>False\<close> for the bot, \<open>True\<close> for the checked personal account.\<close>

definition task_source :: "int \<Rightarrow> bool \<Rightarrow> task \<Rightarrow> exc + bool" where
  "task_source admin listening t =
    (if t_read_identity t = BOT then Inr False
     else if \<not> listening \<or> t_sender_id t \<noteq> admin then Inl (ListenerReadError msg_no_source_identity)
     else Inr True)"

section \<open>Errors of a request\<close>

definition download_limited :: "link \<Rightarrow> unit lp" where
  "download_limited K = bindL (senseL (k_window K)) (\<lambda>window. bindL (senseL (k_mono K)) (\<lambda>now.
     stepL (\<lambda>s. s\<lparr>l_backoff := limited now window (l_backoff s)\<rparr>)))"

definition temporary_kind :: "lexc \<Rightarrow> tmp_kind option" where
  "temporary_kind e =
    (if e = Py TimeoutError \<or> e = SdkTimeout then Some TNetwork
     else if e = ServerFault then Some TServer
     else if is_io_error e \<and> (case e of Py (PermissionError m) \<Rightarrow> False | Py (FileNotFoundError m) \<Rightarrow> False | _ \<Rightarrow> True)
       then Some TNetwork else None)"

text \<open>Returns only for an error that none of the clauses knows.\<close>

definition classify_error :: "link \<Rightarrow> reader \<Rightarrow> nat \<Rightarrow> source_row \<Rightarrow> lexc \<Rightarrow> unit lp" where
  "classify_error K t client source e =
    thenL (recheck K t client msg_client_old)
    (case e of
       Flood seconds \<Rightarrow> thenL (download_limited K) (thenL (bindL (source_failure K source e) (\<lambda>_. returnL ()))
         (raiseL (Py (ListenerRateLimited (msg_wait_at_least (max 5 seconds)) (max 5 seconds)))))
     | _ \<Rightarrow>
       if is_auth e \<or> is_access e
       then thenL (bindL (source_failure K source e) (\<lambda>_. returnL ())) (raiseL (read_error (source_error e)))
       else (case temporary_kind e of Some k \<Rightarrow> raiseL (Py (SourceTemporaryError k)) | None \<Rightarrow> returnL ()))"

section \<open>The message of a task\<close>

definition has_attachment :: "platform \<Rightarrow> post \<Rightarrow> bool" where
  "has_attachment P m = i_attachment (facts P (po_message m) None)"

definition ask_message :: "link \<Rightarrow> reader \<Rightarrow> nat \<Rightarrow> int \<Rightarrow> int \<Rightarrow> post option lp" where
  "ask_message K t client chat number =
    thenL (bindL (verified_chat K (ById chat)) (\<lambda>_. returnL ()))
    (thenL (recheck K t client msg_client_changed)
    (bindL (awaitL K (\<lambda>k. k_single K k chat number)) (\<lambda>m.
     thenL (recheck K t client msg_client_changed) (returnL m))))"

definition present :: "platform \<Rightarrow> post option \<Rightarrow> bool" where
  "present P m = (case m of None \<Rightarrow> False | Some p \<Rightarrow> has_attachment P p)"

text \<open>An empty answer is asked for once more, a second later.\<close>

definition ask_twice :: "link \<Rightarrow> reader \<Rightarrow> nat \<Rightarrow> int \<Rightarrow> int \<Rightarrow> post option lp" where
  "ask_twice K t client chat number = bindL (ask_message K t client chat number) (\<lambda>m.
     if present (k_P K) m then returnL m
     else thenL (awaitL K (k_sleep K)) (thenL (recheck K t client msg_client_changed) (ask_message K t client chat number)))"

definition ask_failed :: "link \<Rightarrow> reader \<Rightarrow> nat \<Rightarrow> source_row \<Rightarrow> lexc \<Rightarrow> post option lp" where
  "ask_failed K t client source e =
    (if is_read_error e \<or> \<not> is_exception e then raiseL e
     else thenL (classify_error K t client source e)
       (raiseL (if is_io_error e then e else read_error msg_not_reachable)))"

text \<open>The checked message with the client that gave it.\<close>

definition get_checked :: "link \<Rightarrow> reader \<Rightarrow> int \<Rightarrow> int \<Rightarrow> (post \<times> nat) lp" where
  "get_checked K t chat number =
    bindL (readL (identity K t)) (\<lambda>(client, source).
    if s_chat source \<noteq> chat \<or> rd_message t \<noteq> number then raiseL (read_error msg_wrong_source)
    else bindL (catchL (ask_twice K t client chat number) (ask_failed K t client source)) (\<lambda>m.
      case m of
        None \<Rightarrow> raiseL AttachmentUnavailable
      | Some p \<Rightarrow>
         if \<not> has_attachment (k_P K) p then raiseL AttachmentUnavailable
         else if i_media_key (facts (k_P K) (po_message p) None) \<noteq> rd_media_key t
           then raiseL (read_error msg_attachment_changed)
         else returnL (p, client)))"

section \<open>Chunks of a download\<close>

definition MAX_CHUNK_WAITS :: nat where "MAX_CHUNK_WAITS = 5"
definition MAX_CHUNK_WAIT_SECONDS :: int where "MAX_CHUNK_WAIT_SECONDS = 60"

text \<open>Before every continued request: the same client, and a task that is not cancelled.\<close>

definition validate_download :: "link \<Rightarrow> task \<Rightarrow> nat \<Rightarrow> unit lp" where
  "validate_download K t client =
    thenL (recheck K (reader_of t) client msg_client_stopped)
    (readL (\<lambda>s. case get_task (p_db (l_db s)) (t_id t) of
       None \<Rightarrow> Inl (ListenerReadError msg_task_cancelled)
     | Some u \<Rightarrow> if t_cancel_requested u then Inl (ListenerReadError msg_task_cancelled) else Inr ()))"

definition note_wait :: "link \<Rightarrow> task \<Rightarrow> int \<Rightarrow> unit lp" where
  "note_wait K t seconds =
    thenL (download_limited K) (thenL (cool_down K lbl_download_cooling seconds)
    (bindL (senseL (k_mono K)) (\<lambda>now. stepL (\<lambda>s.
       s\<lparr>l_waits := snd (record_wait (t_id t) (t_source_id t) seconds now (l_waits s))\<rparr>))))"

text \<open>The deadline of a gate and the class of the error that set it.\<close>

definition gate_of :: "int \<Rightarrow> listener \<Rightarrow> rat \<times> bool" where
  "gate_of key s = (case l_gates s key of None \<Rightarrow> (0, True) | Some g \<Rightarrow> g)"

definition remaining_of :: "rat \<Rightarrow> rat \<Rightarrow> int" where
  "remaining_of deadline now = max 0 \<lceil>deadline - now\<rceil>"

definition drop_gate :: "int \<Rightarrow> rat \<times> bool \<Rightarrow> unit lp" where
  "drop_gate key g = stepL (\<lambda>s. if l_gates s key = Some g then s\<lparr>l_gates := (l_gates s)(key := None)\<rparr> else s)"

definition set_gate :: "int \<Rightarrow> rat \<Rightarrow> bool \<Rightarrow> unit lp" where
  "set_gate key candidate premium = stepL (\<lambda>s.
     if fst (gate_of key s) \<le> candidate then s\<lparr>l_gates := (l_gates s)(key \<mapsto> (candidate, premium))\<rparr> else s)"

text \<open>The request itself: its answer, or \<open>None\<close> after a flood wait, which sets the gate.\<close>

definition request_chunk :: "link \<Rightarrow> int \<Rightarrow> unit option lp" where
  "request_chunk K key = catchL (bindL (awaitL K (\<lambda>k. k_request K k key)) (\<lambda>a. returnL (Some a)))
     (\<lambda>e. case e of
        Flood seconds \<Rightarrow> bindL (senseL (\<lambda>k. (k_mono K k, k_premium K k))) (\<lambda>(now, premium).
          thenL (set_gate key (now + of_int (max 1 seconds)) premium) (returnL None))
      | _ \<Rightarrow> raiseL e)"

text \<open>The loop of \<open>_call\<close>, with fuel; \<open>None\<close> when it runs out.\<close>

fun call_chunk :: "link \<Rightarrow> task \<Rightarrow> nat \<Rightarrow> int \<Rightarrow> nat \<Rightarrow> nat \<Rightarrow> int \<Rightarrow> unit option lp" where
  "call_chunk K t client key 0 waits waited = returnL None"
| "call_chunk K t client key (Suc n) waits waited = lookL (\<lambda>s.
     bindL (senseL (k_mono K)) (\<lambda>now.
     let remaining = remaining_of (fst (gate_of key s)) now in
     thenL (whenL (0 < waits \<or> 0 < remaining) (validate_download K t client))
     (if 0 < remaining
      then (if MAX_CHUNK_WAITS \<le> waits \<or> MAX_CHUNK_WAIT_SECONDS < waited + remaining then raiseL (Flood remaining)
            else thenL (note_wait K t remaining) (thenL (awaitL K (k_sleep K)) (thenL (drop_gate key (gate_of key s))
              (call_chunk K t client key n (waits + 1) (waited + remaining)))))
      else bindL (request_chunk K key) (\<lambda>r. case r of
        Some a \<Rightarrow> returnL (Some a) | None \<Rightarrow> call_chunk K t client key n waits waited))))"

text \<open>The fuel that theorem \<open>chunk_ends\<close> shows to be enough.\<close>

definition CHUNK_FUEL :: nat where "CHUNK_FUEL = 12"

fun call_chunks :: "link \<Rightarrow> task \<Rightarrow> nat \<Rightarrow> int list \<Rightarrow> unit lp" where
  "call_chunks K t client [] = returnL ()"
| "call_chunks K t client (key # keys) =
     thenL (bindL (call_chunk K t client key CHUNK_FUEL 0 0) (\<lambda>_. returnL ())) (call_chunks K t client keys)"

text \<open>
  \<open>download_media\<close> of a checked message: the SDK asks for the chunks in turn, its result is
  \<open>k_saved\<close>. \<open>stored\<close> is what \<open>get_messages\<close> stored, nothing after a failed check.
\<close>

definition download_checked :: "link \<Rightarrow> task \<Rightarrow> (post \<times> nat) option \<Rightarrow> post \<Rightarrow> ustr option lp" where
  "download_checked K t stored m =
    bindL (readL (identity K (reader_of t))) (\<lambda>(client, source).
    if stored \<noteq> Some (m, client) then raiseL (read_error msg_not_checked)
    else finallyL
      (catchL
        (thenL (validate_download K t client)
          (bindL (senseL (\<lambda>k. k_chunks K k m)) (\<lambda>keys.
           thenL (call_chunks K t client keys) (awaitL K (k_saved K)))))
        (\<lambda>e. if \<not> is_exception e then raiseL e
          else bindL (readL (\<lambda>s. case t_source_id t of None \<Rightarrow> Inl (PlanningError msg_no_source)
              | Some i \<Rightarrow> admin_source K i s)) (\<lambda>source.
            thenL (classify_error K (reader_of t) client source e) (raiseL e))))
      (stepL (\<lambda>s. s\<lparr>l_waits := finish_wait (t_id t) (l_waits s)\<rparr>)))"

section \<open>Only the attachment of the task is downloaded\<close>

lemma recheck_Inr: "recheck K t client msg s = (Inr u, s') \<longleftrightarrow> s' = s \<and> (\<exists>source. identity K t s = Inr (client, source))"
  by (auto simp: recheck_def readL_Inr bindE_Inr split: if_splits)

lemma awaitL_Inr: "awaitL K f s = (Inr a, s') \<longleftrightarrow> f (l_tick s) = Inr a \<and> s' = (k_others K (l_tick s) s)\<lparr>l_tick := l_tick s + 1\<rparr>"
  by (auto simp: awaitL_def)

text \<open>Where an answer comes from, and that the identity still holds when it is handed over.\<close>

definition answered :: "link \<Rightarrow> reader \<Rightarrow> nat \<Rightarrow> int \<Rightarrow> int \<Rightarrow> post option \<Rightarrow> listener \<Rightarrow> bool" where
  "answered K t client chat number m s \<longleftrightarrow> (\<exists>k. k_single K k chat number = Inr m)
     \<and> (\<exists>source. identity K t s = Inr (client, source))"

lemma ask_message_Inr: "ask_message K t client chat number s = (Inr m, s') \<Longrightarrow> answered K t client chat number m s'"
  by (auto simp: ask_message_def answered_def thenL_Inr bindL_Inr returnL_Inr recheck_Inr awaitL_Inr)

lemma ask_twice_Inr: "ask_twice K t client chat number s = (Inr m, s') \<Longrightarrow> answered K t client chat number m s'"
  by (auto simp: ask_twice_def bindL_Inr thenL_Inr returnL_Inr dest: ask_message_Inr split: if_splits)

lemma ask_failed_Inl: "ask_failed K t client source e s \<noteq> (Inr m, s')"
  by (auto simp: ask_failed_def thenL_Inr raiseL_Inr)

lemma catchL_Inr: "catchL m h s = (Inr a, s') \<longleftrightarrow> m s = (Inr a, s') \<or> (\<exists>e s1. m s = (Inl e, s1) \<and> h e s1 = (Inr a, s'))"
  by (auto simp: catchL_def split: prod.splits sum.splits)

lemma get_checked_Inr:
  assumes "get_checked K t chat number s = (Inr (p, client), s')"
  shows "answered K t client chat number (Some p) s' \<and> rd_chat t = Some chat \<and> number = rd_message t
    \<and> has_attachment (k_P K) p \<and> i_media_key (facts (k_P K) (po_message p) None) = rd_media_key t"
proof -
  from assms obtain c source m s1 where i: "identity K t s = Inr (c, source)" "s_chat source = chat" "rd_message t = number"
    and m: "catchL (ask_twice K t c chat number) (ask_failed K t c source) s = (Inr m, s1)"
    and rest: "(case m of None \<Rightarrow> raiseL AttachmentUnavailable
      | Some p \<Rightarrow> if \<not> has_attachment (k_P K) p then raiseL AttachmentUnavailable
         else if i_media_key (facts (k_P K) (po_message p) None) \<noteq> rd_media_key t
           then raiseL (read_error msg_attachment_changed)
         else returnL (p, c)) s1 = (Inr (p, client), s')"
    by (auto simp: get_checked_def bindL_Inr readL_Inr raiseL_Inr split: if_splits)
  have "answered K t c chat number m s1" using m ask_twice_Inr by (auto simp: catchL_Inr ask_failed_Inl)
  moreover have "rd_chat t = Some chat"
    using i(1,2) by (auto simp: identity_def bindE_Inr split: option.splits if_splits)
  ultimately show ?thesis using i rest by (auto simp: raiseL_Inr returnL_Inr split: option.splits if_splits)
qed

lemma finallyL_Inr: "finallyL m n s = (Inr a, s') \<Longrightarrow> \<exists>s1. m s = (Inr a, s1)"
  by (auto simp: finallyL_def bindL_Inr thenL_Inr catchL_Inr returnL_Inr raiseL_Inr)

text \<open>
  C8. Through the personal account only the attachment a task was made for is ever downloaded. A message is
  handed out for a download only when Telegram gave it for the chat and number of the task, it has an
  attachment with the media key of the task, and at that moment the account is enabled, is the one of
  the task, and the client is the one that was asked. A download succeeds only for that very message, with
  the same client, while the identity still holds.
\<close>

theorem only_checked_downloads:
  assumes "get_checked K (reader_of t) chat number s = (Inr stored, s1)"
    and "download_checked K t (Some stored) m s2 = (Inr path, s3)"
  shows "m = fst stored \<and> chat = t_chat_id t \<and> number = t_message_id t
    \<and> i_media_key (facts (k_P K) (po_message m) None) = t_media_key t \<and> has_attachment (k_P K) m
    \<and> (\<exists>k. k_single K k (t_chat_id t) (t_message_id t) = Inr (Some m))
    \<and> (\<exists>source. identity K (reader_of t) s1 = Inr (snd stored, source))
    \<and> (\<exists>source. identity K (reader_of t) s2 = Inr (snd stored, source))"
proof -
  obtain p client where st: "stored = (p, client)" by (cases stored)
  from assms(2) obtain c source where "identity K (reader_of t) s2 = Inr (c, source)" "Some stored = Some (m, c)"
    by (auto simp: download_checked_def bindL_Inr readL_Inr raiseL_Inr split: if_splits)
  with get_checked_Inr[OF assms(1)[unfolded st]] show ?thesis by (auto simp: st answered_def)
qed

text \<open>A message with an attachment, its task, and the two calls.\<close>

definition ex_attached :: post where
  "ex_attached = ex_post\<lparr>po_message := (po_message ex_post)\<lparr>t_document := Some 4, t_media := True,
     t_file := Some \<lparr>f_name = [], f_ext = [], f_mime = [], f_size = Some 10\<rparr>\<rparr>\<rparr>"

definition ex_read :: task where
  "ex_read = (ex_task 1 Downloading)\<lparr>t_chat_id := 5, t_message_id := 3, t_sender_id := 9, t_source_id := Some 1,
     t_read_identity := listener_identity 7, t_media_key := i_media_key (facts ascii_platform (po_message ex_attached) None)\<rparr>"

definition ex_personal :: link where
  "ex_personal = ex_net\<lparr>k_single := (\<lambda>_ _ _. Inr (Some ex_attached)), k_chunks := (\<lambda>_ _. [1]), k_saved := (\<lambda>_. Inr (Some [97]))\<rparr>"

definition ex_reader :: listener where
  "ex_reader = ex_listener\<lparr>l_db := (l_db ex_listener)\<lparr>p_db := (p_db (l_db ex_listener))\<lparr>d_tasks := [ex_read]\<rparr>\<rparr>\<rparr>"

lemma ex_identity: "identity ex_personal (reader_of ex_read) (ex_reader\<lparr>l_tick := n\<rparr>) = Inr (0, ex_source)"
  by (simp add: identity_def ex_reader_def ex_listener_def ex_personal_def ex_net_def authorized_def ex_read_def
      account_value_def account_state_def ex_account_def account_enabled_def config_value_def jfind_def asc_def
      identity_of_def admin_source_def the_source_def authorize_def sources_of_def ex_source_def)

lemma ex_await: "awaitL ex_personal f (ex_reader\<lparr>l_tick := n\<rparr>) = (f n, ex_reader\<lparr>l_tick := Suc n\<rparr>)"
  by (simp add: awaitL_def ex_personal_def ex_net_def)

lemma ex_checked_chat: "verified_chat ex_personal (ById 5) (ex_reader\<lparr>l_tick := n\<rparr>)
    = (Inr ex_chat, ex_reader\<lparr>l_tick := Suc (Suc n)\<rparr>)"
proof -
  have "k_entity ex_personal n (ById 5) = Inr ex_chat"
    "k_permissions ex_personal (Suc n) ex_chat = Inr \<lparr>me_typed = True, me_left = False, me_banned = False,
        me_member_left = None, me_view = None, me_default = True, me_admin = False\<rparr>"
    "ce_group ex_chat" "ce_left ex_chat = Some False" "\<not> ce_deactivated ex_chat"
    by (simp_all add: ex_personal_def ex_net_def ex_chat_def)
  then show ?thesis by (simp add: verified_chat_def bindL_def ex_await returnL_def)
qed

lemma ex_recheck: "recheck ex_personal (reader_of ex_read) 0 msg (ex_reader\<lparr>l_tick := n\<rparr>) = (Inr (), ex_reader\<lparr>l_tick := n\<rparr>)"
  by (simp add: recheck_def readL_def ex_identity errL_def)

lemma ex_has: "k_P ex_personal = ascii_platform" "has_attachment ascii_platform ex_attached"
  by (simp_all add: has_attachment_def facts_def Let_def ex_attached_def ex_post_def ex_personal_def ex_net_def)

lemma ex_get_checked: "get_checked ex_personal (reader_of ex_read) 5 3 (ex_reader\<lparr>l_tick := 0\<rparr>)
    = (Inr (ex_attached, 0), ex_reader\<lparr>l_tick := 3\<rparr>)"
proof -
  have chat: "t_chat_id ex_read = 5" "t_message_id ex_read = 3" "s_chat ex_source = 5"
    "t_media_key ex_read = i_media_key (facts ascii_platform (po_message ex_attached) None)"
    by (simp_all add: ex_read_def ex_source_def)
  have single: "k_single ex_personal n 5 3 = Inr (Some ex_attached)" for n by (simp add: ex_personal_def)
  have "ask_message ex_personal (reader_of ex_read) 0 5 3 (ex_reader\<lparr>l_tick := 0\<rparr>) = (Inr (Some ex_attached), ex_reader\<lparr>l_tick := Suc 2\<rparr>)"
    using single by (simp add: ask_message_def thenL_def bindL_def chat ex_checked_chat ex_recheck ex_await returnL_def)
  then show ?thesis by (simp add: get_checked_def bindL_def readL_def ex_identity errL_def catchL_def ask_twice_def chat
        returnL_def present_def ex_has)
qed

lemma ex_downloaded: "download_checked ex_personal ex_read (Some (ex_attached, 0)) ex_attached (ex_reader\<lparr>l_tick := 3\<rparr>)
    = (Inr (Some [97]), ex_reader\<lparr>l_tick := 7\<rparr>)"
proof -
  have fields: "t_id ex_read = 1" "\<not> t_cancel_requested ex_read" by (simp_all add: ex_read_def ex_task_def new_task_def)
  have "d_tasks (p_db (l_db ex_reader)) = [ex_read]" by (simp add: ex_reader_def)
  then have task: "get_task (p_db (l_db ex_reader)) (t_id ex_read) = Some ex_read" "\<not> t_cancel_requested ex_read"
    using fields by (simp_all add: get_task_def row_of_def)
  have go: "validate_download ex_personal ex_read 0 (ex_reader\<lparr>l_tick := n\<rparr>) = (Inr (), ex_reader\<lparr>l_tick := n\<rparr>)" for n
    by (simp add: validate_download_def thenL_def bindL_def ex_recheck readL_def task errL_def)
  have net: "k_chunks ex_personal 3 ex_attached = [1]" "k_request ex_personal n 1 = Inr ()" "k_saved ex_personal n = Inr (Some [97])" for n
    by (simp_all add: ex_personal_def ex_net_def)
  have gate: "remaining_of (fst (gate_of 1 (ex_reader\<lparr>l_tick := 4\<rparr>))) (k_mono ex_personal 4) = 0"
    by (simp add: remaining_of_def gate_of_def ex_reader_def ex_listener_def ex_personal_def ex_net_def)
  have tick: "ticked (ex_reader\<lparr>l_tick := n\<rparr>) = ex_reader\<lparr>l_tick := Suc n\<rparr>" for n by (simp add: ticked_def)
  have over: "finish_wait (t_id ex_read) (l_waits ex_reader) = l_waits ex_reader"
    by (simp add: finish_wait_def ex_reader_def ex_listener_def)
  have fuel: "CHUNK_FUEL = Suc 11" by (simp add: CHUNK_FUEL_def)
  have "call_chunk ex_personal ex_read 0 1 CHUNK_FUEL 0 0 (ex_reader\<lparr>l_tick := 4\<rparr>) = (Inr (Some ()), ex_reader\<lparr>l_tick := 6\<rparr>)"
    unfolding fuel call_chunk.simps lookL_def bindL_def[of "senseL _"] senseL_def Let_def
    by (simp add: gate whenL_def thenL_def bindL_def returnL_def request_chunk_def catchL_def net tick ex_await)
  then show ?thesis
    by (simp add: download_checked_def bindL_def thenL_def readL_def ex_identity errL_def finallyL_def catchL_def go
        senseL_def net tick ex_await returnL_def stepL_def over)
qed

theorem only_checked_downloads_witness:
  "\<exists>stored s1. get_checked ex_personal (reader_of ex_read) 5 3 (ex_reader\<lparr>l_tick := 0\<rparr>) = (Inr stored, s1)
    \<and> fst stored = ex_attached \<and> has_attachment ascii_platform ex_attached
    \<and> (\<exists>source. identity ex_personal (reader_of ex_read) (ex_reader\<lparr>l_tick := 3\<rparr>) = Inr (0, source))"
  using only_checked_downloads[OF ex_get_checked ex_downloaded] ex_get_checked ex_has(1) by auto

section \<open>The waits of a chunk end\<close>

text \<open>Less than a second passes between a flood wait and the next look at the clock.\<close>

definition quick_clock :: "link \<Rightarrow> bool" where
  "quick_clock K \<longleftrightarrow> (\<forall>k key n. k_request K k key = Inl (Flood n) \<longrightarrow> k_mono K (k + 2) < k_mono K (k + 1) + 1)"

definition gate_closed :: "link \<Rightarrow> int \<Rightarrow> listener \<Rightarrow> bool" where
  "gate_closed K key s \<longleftrightarrow> 0 < remaining_of (fst (gate_of key s)) (k_mono K (l_tick s))"

lemma request_chunk_None:
  assumes "quick_clock K" "request_chunk K key s = (Inr None, s')"
  shows "gate_closed K key s'"
proof -
  from assms(2) obtain n where n: "k_request K (l_tick s) key = Inl (Flood n)"
    by (cases "k_request K (l_tick s) key")
      (auto simp: request_chunk_def catchL_def bindL_def awaitL_def returnL_def raiseL_def split: lexc.splits)
  let ?s1 = "(k_others K (l_tick s) s)\<lparr>l_tick := l_tick s + 1\<rparr>"
  let ?c = "k_mono K (l_tick s + 1) + of_int (max 1 n)"
  have s': "s' = (let u = ticked ?s1 in if fst (gate_of key u) \<le> ?c
      then u\<lparr>l_gates := (l_gates u)(key \<mapsto> (?c, k_premium K (l_tick s + 1)))\<rparr> else u)"
    using assms(2) n by (auto simp: request_chunk_def catchL_def bindL_def thenL_def awaitL_def senseL_def set_gate_def
        stepL_def returnL_def Let_def split: if_splits)
  have tick: "l_tick s' = l_tick s + 2" by (simp add: s' Let_def ticked_def)
  have "?c \<le> fst (gate_of key s')" by (auto simp: s' Let_def gate_of_def)
  moreover have "k_mono K (l_tick s + 2) < k_mono K (l_tick s + 1) + 1"
    using assms(1) n by (auto simp: quick_clock_def)
  moreover have "(1::rat) \<le> of_int (max 1 n)" by (metis max.cobounded1 of_int_1_le_iff)
  ultimately have "0 < fst (gate_of key s') - k_mono K (l_tick s')" unfolding tick by linarith
  then show ?thesis by (auto simp: gate_closed_def remaining_of_def)
qed

text \<open>The fuel a state needs: two rounds for each wait that is left, one less behind a closed gate.\<close>

lemma chunk_fuel:
  assumes "quick_clock K" "waits \<le> MAX_CHUNK_WAITS"
    and "2 * (6 - waits) \<le> n \<or> (2 * (6 - waits) \<le> n + 1 \<and> gate_closed K key s)"
  shows "call_chunk K t client key n waits waited s \<noteq> (Inr None, s')"
  using assms(2,3)
proof (induction n arbitrary: s waits waited)
  case 0
  then show ?case by (auto simp: MAX_CHUNK_WAITS_def)
next
  case (Suc n)
  let ?r = "remaining_of (fst (gate_of key s)) (k_mono K (l_tick s))"
  show ?case
  proof
    assume run: "call_chunk K t client key (Suc n) waits waited s = (Inr None, s')"
    then obtain s1 where rest: "(if 0 < ?r
      then (if MAX_CHUNK_WAITS \<le> waits \<or> MAX_CHUNK_WAIT_SECONDS < waited + ?r then raiseL (Flood ?r)
            else thenL (note_wait K t ?r) (thenL (awaitL K (k_sleep K)) (thenL (drop_gate key (gate_of key s))
              (call_chunk K t client key n (waits + 1) (waited + ?r)))))
      else bindL (request_chunk K key) (\<lambda>r. case r of
        Some a \<Rightarrow> returnL (Some a) | None \<Rightarrow> call_chunk K t client key n waits waited)) s1 = (Inr None, s')"
      unfolding call_chunk.simps lookL_def bindL_Inr senseL_Inr Let_def thenL_Inr by blast
    show False
    proof (cases "0 < ?r")
      case True
      with rest obtain s2 where w: "waits < MAX_CHUNK_WAITS"
        and again: "call_chunk K t client key n (waits + 1) (waited + ?r) s2 = (Inr None, s')"
        by (auto simp: raiseL_Inr thenL_Inr split: if_splits)
      have "2 * (6 - (waits + 1)) \<le> n" using Suc.prems w by (auto simp: MAX_CHUNK_WAITS_def)
      with Suc.IH[of "waits + 1" s2 "waited + ?r"] w again show False by simp
    next
      case False
      have "bindL (request_chunk K key) (\<lambda>r. case r of
        Some a \<Rightarrow> returnL (Some a) | None \<Rightarrow> call_chunk K t client key n waits waited) s1 = (Inr None, s')"
        using rest unfolding if_not_P[OF False] .
      then obtain r s2 where r: "request_chunk K key s1 = (Inr r, s2)"
        and b: "(case r of Some a \<Rightarrow> returnL (Some a) | None \<Rightarrow> call_chunk K t client key n waits waited) s2 = (Inr None, s')"
        unfolding bindL_Inr by blast
      have "r = None" using b by (cases r) (auto simp: returnL_Inr)
      with r b have "request_chunk K key s1 = (Inr None, s2)"
        and again: "call_chunk K t client key n waits waited s2 = (Inr None, s')" by simp_all
      then have "gate_closed K key s2" using request_chunk_None[OF assms(1)] by blast
      moreover have "2 * (6 - waits) \<le> n + 1" using Suc.prems False by (auto simp: gate_closed_def)
      ultimately show False using Suc.IH[of waits s2 waited] Suc.prems(1) again by blast
    qed
  qed
qed

text \<open>
  C25. A chunk of a download never waits for ever: whatever Telegram answers, whatever the other downloads do
  to the shared gates, and however long the waits last, after at most six requests and five waits the
  chunk has its answer or an exception is raised, provided that less than a second passes between a
  flood wait and the next look at the clock.
\<close>

theorem chunk_ends:
  assumes "quick_clock K"
  shows "fst (call_chunk K t client key CHUNK_FUEL 0 0 s) \<noteq> Inr None"
  using chunk_fuel[OF assms, of 0 CHUNK_FUEL key s t client 0 "snd (call_chunk K t client key CHUNK_FUEL 0 0 s)"]
  by (auto simp: CHUNK_FUEL_def prod_eq_iff)

text \<open>A gate that Telegram never opens.\<close>

definition ex_flood :: link where
  "ex_flood = ex_personal\<lparr>k_request := (\<lambda>_ _. Inl (Flood 20)), k_mono := (\<lambda>n. of_nat n / 3)\<rparr>"

theorem chunk_ends_witness: "fst (call_chunk ex_flood ex_read 0 1 CHUNK_FUEL 0 0 ex_reader) \<noteq> Inr None"
proof (rule chunk_ends)
  show "quick_clock ex_flood" by (simp add: quick_clock_def ex_flood_def field_simps)
qed

end
