(* ===== verification/LoopLaws.thy ===== *)
theory LoopLaws
  imports Checked
begin

text \<open>
  Laws of the loop of the listener: a round that is cut short by its budget is continued by the next
  one where it stopped, so that no source starves; and an error of an iteration is only ever
  answered on the account record the iteration had read.
\<close>

section \<open>The place of the next round is moved by the round alone\<close>

definition level :: "'a lp \<Rightarrow> bool" where
  "level m \<longleftrightarrow> (\<forall>a. remains (\<lambda>s. l_after s = a) m)"

definition steady :: "link \<Rightarrow> bool" where
  "steady K \<longleftrightarrow> (\<forall>n s. l_after (k_others K n s) = l_after s)"

named_theorems level_intros \<open>programs that keep the place of the next round\<close>

lemma level_after: "level m \<Longrightarrow> m s = (r, s') \<Longrightarrow> l_after s' = l_after s"
  using remains_run[of "\<lambda>t. l_after t = l_after s" m s] by (simp add: level_def)

lemma levelI: "(\<And>s r s'. m s = (r, s') \<Longrightarrow> l_after s' = l_after s) \<Longrightarrow> level m"
  unfolding level_def by (intro allI specI) (auto split: sum.splits)

lemma level_control [level_intros]:
  "level (returnL a)" "level (raiseL e)"
  "level m \<Longrightarrow> (\<And>a. level (f a)) \<Longrightarrow> level (bindL m f)"
  "level m \<Longrightarrow> level n \<Longrightarrow> level (thenL m n)"
  "level m \<Longrightarrow> (\<And>e. level (h e)) \<Longrightarrow> level (catchL m h)"
  "level u \<Longrightarrow> level (whenL b u)"
  by (auto simp: level_def)

lemma level_look [level_intros]: "(\<And>w. level (g w)) \<Longrightarrow> level (lookL g)"
  by (auto simp: level_def)

lemma level_step [level_intros]: "(\<And>s. l_after (f s) = l_after s) \<Longrightarrow> level (stepL f)"
  by (rule levelI) (auto simp: stepL_def)

lemma level_basic [level_intros]: "level (senseL g)" "level (readL f)" "level (dbL h)"
  by (auto intro!: levelI simp: senseL_def ticked_def readL_def dbL_def split: sum.splits)

lemma level_await [level_intros]: "steady K \<Longrightarrow> level (awaitL K f)"
  by (rule levelI) (auto simp: awaitL_def steady_def)

lemma level_admin [level_intros]: "level (adminL K f)" "level (writeL K e c)"
  by (simp_all add: adminL_def writeL_def level_basic)

lemma level_if [level_intros]: "(b \<Longrightarrow> level m) \<Longrightarrow> (\<not> b \<Longrightarrow> level n) \<Longrightarrow> level (if b then m else n)"
  by simp

lemma level_option [level_intros]: "level m \<Longrightarrow> (\<And>a. level (f a)) \<Longrightarrow> level (case x of None \<Rightarrow> m | Some a \<Rightarrow> f a)"
  by (cases x) auto

lemma level_pair [level_intros]: "(\<And>a b. level (f a b)) \<Longrightarrow> level (case x of (a, b) \<Rightarrow> f a b)"
  by (cases x) auto

lemma level_receive: "steady K \<Longrightarrow> level (receive K source m caption)"
  unfolding receive_def require_admin_def reverify_def verified_chat_def decide_on_def journal_def register_def
    submit_plan_def announce_def notice_due_def
  by (intro level_intros) simp_all

lemma level_take_posts: "steady K \<Longrightarrow> level (take_posts K source client gap captions ms)"
proof (induction ms)
  case (Cons m ms)
  have "level (take_post K source client gap captions m)"
    unfolding take_post_def if_current_def advance_cursor_def journal_def
    by (intro level_intros level_receive Cons.prems) simp_all
  with Cons show ?case by (auto intro!: level_intros)
qed (simp add: level_intros)

lemma level_poll: "steady K \<Longrightarrow> level (poll K source)"
  unfolding poll_def poll_page_def verified_chat_def gap_seen_def finish_poll_def if_current_def
  by (intro level_intros level_take_posts) simp_all

lemma level_failure: "steady K \<Longrightarrow> level (source_failure K source e)"
  by (cases e) (auto simp: source_failure_def cool_down_def lose_login_def closeL_def intro!: level_intros)

section \<open>One source of a round\<close>

lemma level_in: "level m \<Longrightarrow> remains (\<lambda>t. l_after t \<in> S) m"
  by (rule specI) (auto dest: level_after split: sum.splits)

lemma admin_source_spec:
  "spec P (readL (admin_source K i)) (\<lambda>source t. P t \<and> s_id source = i) (\<lambda>_. P)"
  by (rule specI) (auto simp: readL_def errL_def admin_source_def the_source_def bindE_def row_of_def find_Some_iff
      split: sum.splits option.splits if_splits)

lemma attempt_level: "level m \<Longrightarrow> level (attemptL m)"
  unfolding attemptL_def by (intro level_intros)

lemma within_level: "level m \<Longrightarrow> level (within_limit K m)"
  unfolding within_limit_def by (intro level_intros)

lemma round_source_after:
  assumes K: "steady K" and run: "round_source K client started x s = (r, s')"
  shows "l_after s' = l_after s \<or> l_after s' = s_id x"
proof -
  let ?S = "\<lambda>t. l_after t \<in> {l_after s, s_id x}"
  have open_level: "level (round_open K client account)" for account
    unfolding round_open_def by (intro level_intros)
  have due: "level (source_due K account source)" for account source
    unfolding source_due_def by (intro level_intros)
  have failed: "level (poll_failed K client started source e)" for source e
    unfolding poll_failed_def budget_left_def by (intro level_intros level_failure K)
  have budget: "level (budget_left K started)" unfolding budget_left_def by (intro level_intros)
  have attempt: "remains ?S (bindL (attemptL (within_limit K (poll K source))) (\<lambda>failed. case failed of
           None \<Rightarrow> budget_left K started | Some e \<Rightarrow> poll_failed K client started source e))" for source
    by (intro level_in level_intros attempt_level within_level level_poll failed budget K)
  have body: "spec (\<lambda>t. ?S t \<and> s_id source = s_id x) (bindL (source_due K account source) (\<lambda>due.
      if \<not> due then returnL True
      else thenL (stepL (\<lambda>s. s\<lparr>l_after := s_id source\<rparr>))
        (bindL (attemptL (within_limit K (poll K source))) (\<lambda>failed. case failed of
           None \<Rightarrow> budget_left K started | Some e \<Rightarrow> poll_failed K client started source e)))) (\<lambda>_. ?S) (\<lambda>_. ?S)" for account source
  proof (cases "s_id source = s_id x")
    case True
    have "remains ?S (source_due K account source)" by (rule level_in[OF due])
    moreover have "remains ?S (thenL (stepL (\<lambda>s. s\<lparr>l_after := s_id source\<rparr>)) (bindL (attemptL (within_limit K (poll K source)))
        (\<lambda>failed. case failed of None \<Rightarrow> budget_left K started | Some e \<Rightarrow> poll_failed K client started source e)))"
      by (intro remains_then remains_step attempt) (simp add: True)
    ultimately show ?thesis using True by (auto intro!: remains_bind)
  qed (simp add: spec_def)
  have "remains ?S (round_source K client started x)"
    unfolding round_source_def
  proof (intro remains_bind)
    fix account go
    show "remains ?S (readL account_value)" "remains ?S (round_open K client account)"
      by (intro level_in level_intros open_level)+
    show "remains ?S (if \<not> go then returnL False else bindL (readL (admin_source K (s_id x))) (\<lambda>source.
      bindL (source_due K account source) (\<lambda>due. if \<not> due then returnL True
      else thenL (stepL (\<lambda>s. s\<lparr>l_after := s_id source\<rparr>))
        (bindL (attemptL (within_limit K (poll K source))) (\<lambda>failed. case failed of
           None \<Rightarrow> budget_left K started | Some e \<Rightarrow> poll_failed K client started source e)))))"
      using spec_bind[OF admin_source_spec body] by (cases go) auto
  qed
  from remains_run[OF this, of s] run show ?thesis by auto
qed

section \<open>Where a round stops\<close>

text \<open>The sources of a list whose turn a round reaches.\<close>

fun reached :: "link \<Rightarrow> nat option \<Rightarrow> rat \<Rightarrow> source_row list \<Rightarrow> listener \<Rightarrow> source_row list" where
  "reached K client started [] s = []"
| "reached K client started (x # xs) s = x # (case round_source K client started x s of
     (Inr True, s') \<Rightarrow> reached K client started xs s' | _ \<Rightarrow> [])"

lemma reached_prefix: "\<exists>n. reached K client started xs s = take n xs"
proof (induction xs arbitrary: s)
  case (Cons x xs)
  then obtain f where f: "\<And>s. reached K client started xs s = take (f s) xs" by metis
  obtain q s1 where run: "round_source K client started x s = (q, s1)" by fastforce
  show ?case
  proof (cases "q = Inr True")
    case True
    then have "reached K client started (x # xs) s = take (Suc (f s1)) (x # xs)" by (simp add: run f)
    then show ?thesis by blast
  next
    case False
    then have "reached K client started (x # xs) s = take 1 (x # xs)" by (cases q) (auto simp: run)
    then show ?thesis by blast
  qed
qed simp

lemma round_sources_after:
  assumes "steady K" "round_sources K client started xs s = (r, s')"
  shows "l_after s' = l_after s \<or> l_after s' \<in> s_id ` set (reached K client started xs s)"
  using assms(2)
proof (induction xs arbitrary: s)
  case (Cons x xs)
  obtain q s1 where run: "round_source K client started x s = (q, s1)" by fastforce
  have step: "l_after s1 = l_after s \<or> l_after s1 = s_id x" by (rule round_source_after[OF assms(1) run])
  show ?case
  proof (cases "q = Inr True")
    case True
    with run Cons.prems have "round_sources K client started xs s1 = (r, s')" by (simp add: bindL_def)
    from Cons.IH[OF this] step show ?thesis by (auto simp: run True)
  next
    case False
    with run Cons.prems have "s' = s1" by (cases q) (auto simp: bindL_def returnL_def)
    with step show ?thesis by auto
  qed
qed (simp add: returnL_def)

section \<open>The next round goes on where the last one stopped\<close>

abbreviation by_id :: "source_row list \<Rightarrow> bool" where
  "by_id ss \<equiv> sorted_wrt (<) (map s_id ss)"

lemma filter_upto:
  "by_id ss \<Longrightarrow> a \<le> b \<Longrightarrow>
    filter (\<lambda>s. s_id s \<le> b) ss = filter (\<lambda>s. s_id s \<le> a) ss @ filter (\<lambda>s. a < s_id s \<and> s_id s \<le> b) ss"
proof (induction ss)
  case (Cons y ys)
  have "a < s_id y \<Longrightarrow> filter (\<lambda>s. s_id s \<le> a) ys = []" using Cons.prems by (auto simp: filter_empty_conv)
  with Cons show ?case by auto
qed simp

lemma filter_beyond:
  "by_id ss \<Longrightarrow> a \<le> b \<Longrightarrow>
    filter (\<lambda>s. a < s_id s) ss = filter (\<lambda>s. a < s_id s \<and> s_id s \<le> b) ss @ filter (\<lambda>s. b < s_id s) ss"
proof (induction ss)
  case (Cons y ys)
  have "b < s_id y \<Longrightarrow> filter (\<lambda>s. a < s_id s \<and> s_id s \<le> b) ys = []" using Cons.prems by (auto simp: filter_empty_conv)
  with Cons show ?case by auto
qed simp

lemma last_by_id: "by_id ys \<Longrightarrow> x \<in> set ys \<Longrightarrow> (\<And>y. y \<in> set ys \<Longrightarrow> s_id y \<le> s_id x) \<Longrightarrow> ys \<noteq> [] \<and> last ys = x"
proof (induction ys)
  case (Cons y ys)
  show ?case
  proof (cases "x \<in> set ys")
    case True
    with Cons show ?thesis by simp
  next
    case False
    with Cons.prems have "y = x" by simp
    with Cons.prems have "ys = []" by (cases ys) fastforce+
    with \<open>y = x\<close> show ?thesis by simp
  qed
qed simp

lemma by_id_filter: "by_id ss \<Longrightarrow> by_id (filter p ss)"
  by (induction ss) auto

lemma rotated_step:
  assumes ss: "by_id ss" and x: "x \<in> set ss"
  obtains P Q where "rotated a ss = P @ Q" "rotated (s_id x) ss = Q @ P" "P \<noteq> []" "last P = x"
proof (cases "a < s_id x")
  case True
  let ?P = "filter (\<lambda>s. a < s_id s \<and> s_id s \<le> s_id x) ss"
  let ?Q = "filter (\<lambda>s. s_id x < s_id s) ss @ filter (\<lambda>s. s_id s \<le> a) ss"
  have "?P \<noteq> [] \<and> last ?P = x" using True x by (intro last_by_id by_id_filter ss) auto
  moreover have "rotated a ss = ?P @ ?Q" using filter_beyond[OF ss, of a "s_id x"] True by (simp add: rotated_def)
  moreover have "rotated (s_id x) ss = ?Q @ ?P" using filter_upto[OF ss, of a "s_id x"] True by (simp add: rotated_def)
  ultimately show thesis using that by blast
next
  case False
  let ?L = "filter (\<lambda>s. s_id s \<le> s_id x) ss"
  let ?P = "filter (\<lambda>s. a < s_id s) ss @ ?L"
  let ?Q = "filter (\<lambda>s. s_id x < s_id s \<and> s_id s \<le> a) ss"
  have "?L \<noteq> [] \<and> last ?L = x" using x by (intro last_by_id by_id_filter ss) auto
  then have "?P \<noteq> [] \<and> last ?P = x" by (metis append_is_Nil_conv last_appendR)
  moreover have "rotated a ss = ?P @ ?Q" using filter_upto[OF ss, of "s_id x" a] False by (simp only: rotated_def append_assoc)
  moreover have "rotated (s_id x) ss = ?Q @ ?P" using filter_beyond[OF ss, of "s_id x" a] False by (simp only: rotated_def append_assoc)
  ultimately show thesis using that by blast
qed

text \<open>How many turns come before the one of a source.\<close>

definition turns_before :: "source_row \<Rightarrow> source_row list \<Rightarrow> nat" where
  "turns_before x xs = length (takeWhile (\<lambda>y. y \<noteq> x) xs)"

lemma turns_before_later: "x \<notin> set P \<Longrightarrow> x \<in> set Q \<Longrightarrow> turns_before x (P @ Q) = length P + turns_before x (Q @ P)"
proof -
  assume P: "x \<notin> set P" and Q: "x \<in> set Q"
  have "takeWhile (\<lambda>y. y \<noteq> x) (P @ Q) = P @ takeWhile (\<lambda>y. y \<noteq> x) Q" using P by (intro takeWhile_append2) auto
  moreover have "takeWhile (\<lambda>y. y \<noteq> x) (Q @ P) = takeWhile (\<lambda>y. y \<noteq> x) Q" using Q by (intro takeWhile_append1) auto
  ultimately show ?thesis by (simp add: turns_before_def)
qed


text \<open>The sample listener has one source.\<close>

lemma ex_steady: "steady ex_net" "by_id [ex_source]"
  by (simp_all add: steady_def ex_net_def)

lemma ex_sources: "sources (k_admin ex_net) (k_admin ex_net) (l_db ex_listener) = Inr [ex_source]"
  by (simp add: sources_def authorize_def ex_net_def ex_listener_def sources_of_def ex_source_def bindE_def)


section \<open>An error of an iteration\<close>

text \<open>Nothing else runs while the listener disconnects and notifies.\<close>

definition alone :: "link \<Rightarrow> bool" where
  "alone K \<longleftrightarrow> (\<forall>n s. k_others K n s = s)"

definition passing :: "lexc \<Rightarrow> bool" where
  "passing e = (case e of Flood n \<Rightarrow> True | ConnectionDown t \<Rightarrow> True | _ \<Rightarrow> False)"

lemma reconnect_delay_bounds: "5 \<le> reconnect_delay n" "reconnect_delay n \<le> 300"
  by (simp_all add: reconnect_delay_def)

lemma writeL_Inr:
  assumes "account_value s = Inr (JObj ms)" "same_record (JObj ms) account"
  shows "writeL K (Some account) changes s = (Inr (Some (JObj (update_members ms changes))),
    s\<lparr>l_db := (l_db s)\<lparr>p_db := write_meta (k_P K) ACCOUNT_KEY (JObj (update_members ms changes)) (p_db (l_db s))\<rparr>\<rparr>)"
  using assms by (simp add: writeL_def dbL_def on_db_def write_account_def account_value_def bindE_def Let_def)

text \<open>What closing leaves: only the client, the session flag and the tick change.\<close>

lemma closeL_Inr:
  assumes "alone K" "closeL K s = (Inr u, s1)"
  shows "l_db s1 = l_db s \<and> l_failures s1 = l_failures s"
  using assms by (auto simp: closeL_def lookL_def thenL_Inr stepL_Inr whenL_def awaitL_def alone_def returnL_Inr split: if_splits)

definition changes_for :: "link \<Rightarrow> lexc \<Rightarrow> rat \<Rightarrow> nat \<Rightarrow> (ustr \<times> json) list" where
  "changes_for K e now n = (case e of
     Flood seconds \<Rightarrow> [(asc ''status'', JStr lbl_cooling), (asc ''cooldown_until'', JFloat (now + of_int (max 5 seconds)))]
   | ConnectionDown t \<Rightarrow> [(asc ''status'', JStr (st_reconnect (reconnect_delay n))),
       (asc ''cooldown_until'', JFloat (now + of_nat (reconnect_delay n)))]
   | _ \<Rightarrow> [(asc ''enabled'', JBool False), (asc ''status'', JStr st_broken)])"

text \<open>What the record is after a write, and after a write that is followed by nothing that touches it.\<close>

lemma value_simps:
  "account_value (ticked s) = account_value s" "account_value (s\<lparr>l_failures := n\<rparr>) = account_value s"
  by (simp_all add: account_value_def ticked_def)

lemma written_then:
  assumes s: "account_value s = Inr (JObj ms)" "same_record (JObj ms) account"
    and run: "bindL (writeL K (Some account) changes) f s = (Inr u, s')"
    and f: "\<And>v t t'. f v t = (Inr u, t') \<Longrightarrow> account_value t' = account_value t"
  shows "account_value s' = Inr (JObj (update_members ms changes))"
proof -
  let ?t = "s\<lparr>l_db := (l_db s)\<lparr>p_db := write_meta (k_P K) ACCOUNT_KEY (JObj (update_members ms changes)) (p_db (l_db s))\<rparr>\<rparr>"
  from run have "f (Some (JObj (update_members ms changes))) ?t = (Inr u, s')" by (simp add: bindL_def writeL_Inr[OF s])
  from f[OF this] show ?thesis by (simp add: account_value_def account_state_def write_meta_def)
qed

lemma note_failure_writes:
  assumes K: "alone K" and s: "account_value s = Inr (JObj ms)" and account: "same_record (JObj ms) account"
    and run: "note_failure K account e s = (Inr u, s')"
  shows "\<exists>k n. account_value s' = Inr (JObj (update_members ms (changes_for K e (k_wall K k) n)))"
proof (cases "passing e")
  case True
  then consider n where "e = Flood n" | t where "e = ConnectionDown t" by (cases e) (auto simp: passing_def)
  then show ?thesis
  proof cases
    case 1
    with run have "bindL (writeL K (Some account) (changes_for K e (k_wall K (l_tick s)) 0)) (\<lambda>_. returnL ()) (ticked s) = (Inr u, s')"
      by (simp add: note_failure_def changes_for_def bindL_def senseL_def)
    from written_then[OF _ account this] s show ?thesis by (auto simp: value_simps returnL_def)
  next
    case 2
    let ?n = "min 7 (l_failures s + 1)"
    from 2 run have "bindL (writeL K (Some account) (changes_for K e (k_wall K (l_tick s)) ?n)) (\<lambda>_. returnL ())
        (ticked (s\<lparr>l_failures := ?n\<rparr>)) = (Inr u, s')"
      by (simp add: note_failure_def changes_for_def bindL_def thenL_def stepL_def lookL_def senseL_def Let_def)
    from written_then[OF _ account this] s show ?thesis by (auto simp: value_simps returnL_def)
  qed
next
  case False
  with run have written: "bindL (writeL K (Some account) (changes_for K e 0 0)) (\<lambda>changed. whenL (changed \<noteq> None) (awaitL K (k_notify K))) s
      = (Inr u, s')"
    by (cases e) (simp_all add: note_failure_def changes_for_def passing_def)
  have "account_value t' = account_value t" if "whenL b (awaitL K (k_notify K)) t = (Inr u, t')" for b t t'
    using that K by (auto simp: whenL_def awaitL_def alone_def returnL_def account_value_def split: if_splits)
  from written_then[OF s account written this]
  have "account_value s' = Inr (JObj (update_members ms (changes_for K e 0 0)))" .
  moreover have "changes_for K e 0 0 = changes_for K e (k_wall K 0) 0" using False by (cases e) (simp_all add: changes_for_def passing_def)
  ultimately show ?thesis by metis
qed


lemma ex_alone: "alone ex_net"
  by (simp add: alone_def ex_net_def)

definition ex_members :: "(ustr \<times> json) list" where
  "ex_members = [(asc ''enabled'', JBool True), (asc ''account'', JInt 7)]"

lemma ex_value: "account_value ex_listener = Inr (JObj ex_members)" "same_record (JObj ex_members) ex_account"
  by (simp_all add: account_value_def account_state_def ex_listener_def ex_account_def ex_members_def same_record_def asc_def)

lemma ex_value_db: "l_db t = l_db ex_listener \<Longrightarrow> account_value t = Inr (JObj ex_members)"
  using ex_value by (simp add: account_value_def)

lemma ex_round_failed: "fst (round_failed ex_net ex_account (Flood 7) ex_listener) = Inr False"
proof -
  have net: "k_stop ex_net n = False" "k_disconnect ex_net n = Inr ()" "k_others ex_net n s = s" for n s
    by (simp_all add: ex_net_def)
  have start: "l_client ex_listener = Some 0" "l_tick ex_listener = 0" by (simp_all add: ex_listener_def)
  have close: "closeL ex_net ex_listener = (Inr (), ex_listener\<lparr>l_client := None, l_session := False, l_tick := Suc 0\<rparr>)"
    by (simp add: closeL_def lookL_def thenL_def bindL_def stepL_def whenL_def awaitL_def net start)
  have v: "account_value (ticked s) = account_value s" for s by (simp add: account_value_def ticked_def)
  have e: "account_value (ex_listener\<lparr>l_client := None, l_session := False, l_tick := Suc 0\<rparr>) = Inr (JObj ex_members)"
    by (rule ex_value_db) simp
  have "fst (note_failure ex_net ex_account (Flood 7) s) = Inr ()" if "account_value s = Inr (JObj ex_members)" for s
  proof -
    have "account_value (ticked s) = Inr (JObj ex_members)" using that v by simp
    from writeL_Inr[OF this ex_value(2)] show ?thesis
      by (simp add: note_failure_def bindL_def senseL_def returnL_def)
  qed
  from this[of "ticked (ex_listener\<lparr>l_client := None, l_session := False, l_tick := Suc 0\<rparr>)"] show ?thesis
    by (simp add: round_failed_def thenL_def bindL_def close senseL_def net readL_def errL_def v e ex_value(2) returnL_def
        split: prod.splits sum.splits) (metis Inl_Inr_False fst_conv)
qed


end
