(* ===== verification/Intake.thy ===== *)
theory Intake
  imports LoopLaws
begin

text \<open>
  Files sent to the bot: \<open>src/tg2cloud/telegram/handlers.py\<close>, from the event of a message or of a media
  group to the row of the task, and \<open>manual\<close> of \<open>telegram/planning.py\<close>, the plan made instead of a task when the
  sender wants to confirm or has a naming profile. Commands and other texts are handed to the dialogue, which is not part
  of the model; of a reply only the \<open>await\<close> and its possible exception are kept.
\<close>

section \<open>Facts of a message\<close>

definition media_key :: "tg_message \<Rightarrow> ustr option" where
  "media_key m = (case t_document m of Some d \<Rightarrow> Some (asc ''document:'' @ dec d)
     | None \<Rightarrow> (case t_photo m of Some p \<Rightarrow> Some (asc ''photo:'' @ dec p) | None \<Rightarrow> None))"

definition file_name_of :: "tg_message \<Rightarrow> ustr" where
  "file_name_of m = (case t_file m of None \<Rightarrow> [] | Some f \<Rightarrow> f_name f)"

definition file_ext_of :: "tg_message \<Rightarrow> ustr" where
  "file_ext_of m = (case t_file m of None \<Rightarrow> [] | Some f \<Rightarrow> f_ext f)"

definition file_mime_of :: "tg_message \<Rightarrow> ustr" where
  "file_mime_of m = (case t_file m of None \<Rightarrow> [] | Some f \<Rightarrow> f_mime f)"

definition media_kind :: "tg_message \<Rightarrow> ustr" where
  "media_kind m =
    (if t_video m \<or> starts_with (file_mime_of m) (asc ''video/'') then lbl_video
     else if t_photo m \<noteq> None \<or> starts_with (file_mime_of m) (asc ''image/'') then lbl_image else [])"

definition album_extension :: "platform \<Rightarrow> tg_message \<Rightarrow> ustr \<Rightarrow> ustr" where
  "album_extension P m kind = (case t_file m of None \<Rightarrow> asc ''.bin''
     | Some f \<Rightarrow>
        let extension = (if kind = lbl_video then video_extension P (f_name f) (f_ext f) (asc ''.bin'')
            else or_else (f_ext f) (or_else (path_suffix (f_name f)) (asc ''.jpg'')))
        in path_suffix (album_name P (asc ''media'') kind None extension))"

text \<open>The first text that is not blank; only what came with the message.\<close>

definition media_caption :: "platform \<Rightarrow> tg_message \<Rightarrow> ustr \<Rightarrow> ustr" where
  "media_caption P m fallback =
    (if strip_space P (t_raw_text m) \<noteq> [] then take 8192 (t_raw_text m)
     else if strip_space P (t_text m) \<noteq> [] then take 8192 (t_text m)
     else take 8192 fallback)"

section \<open>Names of the members of a media group\<close>

record member =
  am_post :: post
  am_sender :: "int option"
  am_out :: bool

abbreviation member_message :: "member \<Rightarrow> tg_message" where
  "member_message m \<equiv> po_message (am_post m)"

text \<open>By number, the last one of those with the same number.\<close>

definition by_number :: "member list \<Rightarrow> member list" where
  "by_number ms = map (\<lambda>i. last (filter (\<lambda>m. t_number (member_message m) = i) ms))
     (sort (remdups (map (\<lambda>m. t_number (member_message m)) ms)))"

definition group_title :: "platform \<Rightarrow> member list \<Rightarrow> ustr" where
  "group_title P ms = (if length ms \<le> 1 then []
     else case map (\<lambda>m. caption_candidate P (media_caption P (member_message m) []) (po_entities (am_post m))) ms of
       [] \<Rightarrow> [] | c # cs \<Rightarrow> fst (best_of c cs))"

text \<open>A cover with its video: two files whose suffixes tell them apart.\<close>

definition cover_pair :: "platform \<Rightarrow> member list \<Rightarrow> ustr list \<Rightarrow> bool" where
  "cover_pair P ms extensions \<longleftrightarrow> length ms = 2
     \<and> set (map (\<lambda>m. media_kind (member_message m)) ms) = {lbl_video, lbl_image}
     \<and> list_all (\<lambda>m. t_file (member_message m) \<noteq> None) ms
     \<and> distinct (map (casefold P) extensions)"

definition numbered_part :: "platform \<Rightarrow> tg_message \<Rightarrow> bool" where
  "numbered_part P m = (let tokens = name_facts P (file_name_of m @ [32] @ media_caption P m []) in
     nf_episode tokens \<noteq> [] \<or> nf_chapter tokens \<noteq> [])"

text \<open>The counters of the two kinds; a member with an episode or a chapter keeps its own name.\<close>

fun group_names ::
  "platform \<Rightarrow> ustr \<Rightarrow> bool \<Rightarrow> (ustr \<Rightarrow> nat) \<Rightarrow> (member \<times> ustr) list \<Rightarrow> (member \<times> ustr option) list" where
  "group_names P title pair numbers [] = []"
| "group_names P title pair numbers ((m, extension) # ms) =
    (let kind = media_kind (member_message m) in
     if title \<noteq> [] \<and> kind \<noteq> [] \<and> t_file (member_message m) \<noteq> None \<and> \<not> numbered_part P (member_message m)
     then (m, Some (album_name P title kind (if pair then None else Some (Suc (numbers kind))) extension))
       # group_names P title pair (numbers(kind := Suc (numbers kind))) ms
     else (m, None) # group_names P title pair numbers ms)"

definition group_plan :: "platform \<Rightarrow> member list \<Rightarrow> (member \<times> ustr option) list" where
  "group_plan P received =
    (let ms = by_number received; title = group_title P ms;
         extensions = map (\<lambda>m. let kind = media_kind (member_message m) in
           if title \<noteq> [] \<and> kind \<noteq> [] then album_extension P (member_message m) kind else []) ms
     in group_names P title (cover_pair P ms extensions) (\<lambda>_. 0) (zip ms extensions))"

section \<open>A plan instead of a task\<close>

text \<open>A reply: only its \<open>await\<close>.\<close>

definition replyL :: "link \<Rightarrow> unit lp" where
  "replyL K = awaitL K (k_notify K)"

definition manual_name :: "json \<Rightarrow> ustr \<Rightarrow> naming \<Rightarrow> ustr" where
  "manual_name prof file_name naming =
    (if jget prof (asc ''mode'') = JStr (asc ''compatible'')
        \<and> \<not> list_ex (\<lambda>k. json_true (jget prof k)) [asc ''prefixes'', asc ''suffixes'', asc ''label'']
     then file_name else nm_file_name naming)"

definition manual_proposal :: "link \<Rightarrow> int \<Rightarrow> item \<Rightarrow> ustr \<Rightarrow> naming \<Rightarrow> rat option \<Rightarrow> json option \<Rightarrow> proposal" where
  "manual_proposal K chat i file_name naming created_at options = \<lparr>pr_chat = i_chat i, pr_message = i_message i,
     pr_kind = i_kind i, pr_mime = i_mime i, pr_extension = i_extension i, pr_original = i_original i,
     pr_size = i_size i, pr_media_key = i_media_key i, pr_name = file_name, pr_basis = nm_basis naming,
     pr_profile = nm_profile naming, pr_identity = BOT, pr_source = None,
     pr_batch = asc ''bot:'' @ dec chat @ [58] @ or_else (i_group i) (dec (i_message i)), pr_alias = [],
     pr_base = Some (k_target K), pr_created_at = created_at, pr_options = options\<rparr>"

text \<open>The saved plan is shown for confirmation or submitted at once.\<close>

definition manual_submit :: "link \<Rightarrow> int \<Rightarrow> plan_row \<Rightarrow> unit lp" where
  "manual_submit K actor p = bindL (senseL (k_wall K)) (\<lambda>now.
     bindL (dbL (submit (k_P K) (k_admin K) actor (pl_id p) (pl_revision p) now)) (\<lambda>(t, created).
       case t of None \<Rightarrow> raiseL (Py (TypeError [])) | Some t \<Rightarrow> replyL K))"

text \<open>Whether the sender wants to confirm, his profile, and whether that is the standard one.\<close>

definition manual_choice :: "link \<Rightarrow> int \<Rightarrow> listener \<Rightarrow> exc + bool \<times> json \<times> bool" where
  "manual_choice K actor s =
    bindE (preferences (k_P K) (k_admin K) actor None (l_db s)) (\<lambda>(prefs, d).
    bindE (config_value prefs (asc ''confirmation'')) (\<lambda>c.
    bindE (config_value prefs (asc ''profile'')) (\<lambda>prof.
    bindE (profile (k_P K) JNull) (\<lambda>std. Inr (json_true c, prof, same_record prof std)))))"

definition manual_plan :: "link \<Rightarrow> int \<Rightarrow> int \<Rightarrow> post \<Rightarrow> ustr \<Rightarrow> rat option \<Rightarrow> json option \<Rightarrow> bool \<Rightarrow> json \<Rightarrow> unit lp" where
  "manual_plan K actor chat m file_name created_at options confirm prof =
    (let i = facts (k_P K) (po_message m) None in
      bindL (readL (\<lambda>_. name_plan (k_P K) (i_original i) (i_caption i) file_name (i_extension i) (po_entities m) prof))
        (\<lambda>naming.
      bindL (senseL (k_wall K)) (\<lambda>now.
      bindL (dbL (create_plan (k_P K) (k_admin K) actor
          (manual_proposal K chat i (manual_name prof file_name naming) naming created_at options) now)) (\<lambda>(p, created).
      if confirm then replyL K else manual_submit K actor p))))"

definition manual :: "link \<Rightarrow> int \<Rightarrow> int \<Rightarrow> post \<Rightarrow> ustr \<Rightarrow> rat option \<Rightarrow> json option \<Rightarrow> bool lp" where
  "manual K actor chat m file_name created_at options =
    bindL (readL (manual_choice K actor)) (\<lambda>(confirm, prof, standard).
    if \<not> confirm \<and> standard then returnL False
    else thenL (manual_plan K actor chat m file_name created_at options confirm prof) (returnL True))"

section \<open>A message\<close>

record delivery =
  ev_sender :: "int option"
  ev_chat :: int
  ev_private :: bool
  ev_message :: post
  ev_text :: ustr

text \<open>The limit of free disk space, and the last sample of the scheduler.\<close>

record bot =
  b_min_free :: int
  b_snapshot :: "nat \<Rightarrow> snapshot option"

definition disk_low :: "int \<Rightarrow> snapshot option \<Rightarrow> bool" where
  "disk_low least s = (case s of None \<Rightarrow> False
     | Some s \<Rightarrow> sn_disk s \<le> least \<or> list_ex (\<lambda>free. free \<le> least) (sn_filesystems s))"

text \<open>What became of a message; a text is left to the dialogue.\<close>

datatype outcome = Ignored_event | Repeated | Command_text ustr | Plain_text ustr | Refused | Planned | Known task
  | Registered task

definition downloadable :: "tg_message \<Rightarrow> bool" where
  "downloadable m \<longleftrightarrow> t_media m \<and> t_file m \<noteq> None"

definition bot_fallback :: "tg_message \<Rightarrow> ustr" where
  "bot_fallback m = asc ''telegram-'' @ dec (t_number m) @ or_else (file_ext_of m) (asc ''.bin'')"

definition chosen_name :: "platform \<Rightarrow> post \<Rightarrow> ustr \<Rightarrow> ustr option \<Rightarrow> ustr" where
  "chosen_name P p text album = (let m = po_message p; kind = media_kind m; fallback = bot_fallback m in
     case album of
       Some (c # cs) \<Rightarrow> c # cs
     | _ \<Rightarrow>
        if kind = lbl_video
        then video_file_name P (file_name_of m) (media_caption P m text) fallback (po_entities p) (file_ext_of m)
        else if kind \<noteq> []
          then media_file_name P (file_name_of m) (media_caption P m text) fallback (po_entities p) []
        else safe_file_name P (clean_promotional_affixes P True (file_name_of m)) fallback)"

definition bot_intake :: "link \<Rightarrow> int \<Rightarrow> delivery \<Rightarrow> ustr \<Rightarrow> int \<Rightarrow> json option \<Rightarrow> intake" where
  "bot_intake K actor e file_name file_size options = (let m = po_message (ev_message e) in
     \<lparr>n_chat = ev_chat e, n_message = t_number m, n_sender = actor, n_media_key = media_key m, n_name = file_name,
      n_size = file_size, n_original = Some (safe_file_name (k_P K) (file_name_of m) (bot_fallback m)),
      n_kind = media_kind m, n_mime = file_mime_of m, n_ext = or_else (file_ext_of m) (path_suffix file_name),
      n_base = Some (k_target K), n_options = options, n_override = None, n_identity = BOT, n_source = None\<rparr>)"

text \<open>The plan or the task; a quota, a rule or a setting that refuses is answered.\<close>

definition save_file :: "link \<Rightarrow> int \<Rightarrow> delivery \<Rightarrow> ustr \<Rightarrow> int \<Rightarrow> rat option \<Rightarrow> json option \<Rightarrow> outcome lp" where
  "save_file K actor e file_name file_size created_at options = bindL (senseL (k_wall K)) (\<lambda>now.
     bindL (dbL (on_db (create_task (k_P K) (bot_intake K actor e file_name file_size options)
         (case created_at of None \<Rightarrow> now | Some t \<Rightarrow> t)))) (\<lambda>(t, created).
       returnL (if created then Registered t else Known t)))"

definition store_file :: "link \<Rightarrow> int \<Rightarrow> delivery \<Rightarrow> ustr \<Rightarrow> int \<Rightarrow> rat option \<Rightarrow> json option \<Rightarrow> outcome lp" where
  "store_file K actor e file_name file_size created_at options = catchL
     (bindL (manual K actor (ev_chat e) (ev_message e) file_name created_at options) (\<lambda>planned.
        if planned then returnL Planned else save_file K actor e file_name file_size created_at options))
     (\<lambda>x. if is_value_error x \<or> is_runtime_error x then thenL (replyL K) (returnL Refused) else raiseL x)"

definition accept_file :: "link \<Rightarrow> bot \<Rightarrow> int \<Rightarrow> delivery \<Rightarrow> ustr option \<Rightarrow> rat option \<Rightarrow> json option \<Rightarrow> outcome lp" where
  "accept_file K B actor e album created_at options =
    (let m = po_message (ev_message e);
         size = (case t_file m of None \<Rightarrow> 0 | Some f \<Rightarrow> (case tg_file.f_size f of None \<Rightarrow> 0 | Some n \<Rightarrow> n)) in
     if size \<le> 0 then thenL (replyL K) (returnL Refused)
     else bindL (senseL (b_snapshot B)) (\<lambda>sample.
       if disk_low (b_min_free B) sample then thenL (replyL K) (returnL Refused)
       else bindL (store_file K actor e (chosen_name (k_P K) (ev_message e) (strip_space (k_P K) (ev_text e)) album)
           size created_at options) (\<lambda>out. case out of
             Registered t \<Rightarrow> thenL (replyL K) (returnL out)
           | Known t \<Rightarrow> thenL (replyL K) (returnL out)
           | _ \<Rightarrow> returnL out)))"

text \<open>Where a message of an authorized sender goes, after the pause for the rest of its group.\<close>

definition route_message ::
  "link \<Rightarrow> bot \<Rightarrow> int \<Rightarrow> delivery \<Rightarrow> ustr option \<Rightarrow> bool \<Rightarrow> rat option \<Rightarrow> json option \<Rightarrow> outcome lp" where
  "route_message K B actor e album album_delivery created_at options = lookL (\<lambda>s.
     let m = po_message (ev_message e); text = strip_space (k_P K) (ev_text e) in
     if t_grouped m \<noteq> 0 \<and> has_message (p_db (l_db s)) (ev_chat e) (t_number m) then returnL Repeated
     else if starts_with text [47] \<and> \<not> album_delivery \<and> \<not> downloadable m then returnL (Command_text text)
     else if \<not> downloadable m then returnL (Plain_text text)
     else accept_file K B actor e album created_at options)"

definition on_message ::
  "link \<Rightarrow> bot \<Rightarrow> delivery \<Rightarrow> ustr option \<Rightarrow> bool \<Rightarrow> rat option \<Rightarrow> json option \<Rightarrow> outcome lp" where
  "on_message K B e album album_delivery created_at options = lookL (\<lambda>s.
     case ev_sender e of None \<Rightarrow> returnL Ignored_event
     | Some actor \<Rightarrow>
        if \<not> authorized (k_admin K) (p_db (l_db s)) (Some actor) \<or> \<not> ev_private e then returnL Ignored_event
        else thenL (whenL (t_grouped (po_message (ev_message e)) \<noteq> 0 \<and> \<not> album_delivery) (awaitL K (k_sleep K)))
          (route_message K B actor e album album_delivery created_at options))"

section \<open>A media group\<close>

record group_event =
  ge_sender :: "int option"
  ge_chat :: int
  ge_private :: bool
  ge_group :: int
  ge_members :: "member list"

definition members_ok :: "group_event \<Rightarrow> bool" where
  "members_ok g \<longleftrightarrow> ge_members g \<noteq> [] \<and> ge_group g \<noteq> 0
     \<and> list_all (\<lambda>m. am_sender m = ge_sender g \<and> t_chat (member_message m) = ge_chat g
         \<and> t_grouped (member_message m) = ge_group g \<and> \<not> am_out m) (ge_members g)"

definition member_event :: "platform \<Rightarrow> member \<Rightarrow> delivery" where
  "member_event P m = \<lparr>ev_sender = am_sender m, ev_chat = t_chat (member_message m), ev_private = True,
     ev_message = am_post m, ev_text = media_caption P (member_message m) []\<rparr>"

text \<open>
  The deliveries, one after the other: each one stores its row before its first \<open>await\<close>, and what the others
  do during an \<open>await\<close> is part of \<open>k_others\<close>. An exception is only logged.
\<close>

fun deliver_group :: "link \<Rightarrow> bot \<Rightarrow> rat \<Rightarrow> json \<Rightarrow> (member \<times> ustr option) list \<Rightarrow> unit lp" where
  "deliver_group K B created_at options [] = returnL ()"
| "deliver_group K B created_at options ((m, name) # ms) =
     thenL (catchL (bindL (on_message K B (member_event (k_P K) m) name True (Some created_at) (Some options)) (\<lambda>_. returnL ()))
         (\<lambda>x. returnL ()))
       (deliver_group K B created_at options ms)"

definition on_album :: "link \<Rightarrow> bot \<Rightarrow> group_event \<Rightarrow> unit lp" where
  "on_album K B g = lookL (\<lambda>s.
     if \<not> authorized (k_admin K) (p_db (l_db s)) (ge_sender g) \<or> \<not> ge_private g \<or> ge_sender g \<noteq> Some (ge_chat g)
       \<or> \<not> members_ok g then returnL ()
     else if 100 < length (ge_members g) then replyL K
     else bindL (senseL (k_wall K)) (\<lambda>now.
       bindL (readL (\<lambda>s. features_read (k_P K) (p_db (l_db s)))) (\<lambda>options.
         deliver_group K B now options (group_plan (k_P K) (ge_members g)))))"

end
