(* ===== verification/IntakeLaws.thy ===== *)
theory IntakeLaws
  imports Intake
begin

text \<open>
  Laws of the intake: the names of a media group never collide, and a file sent to the bot adds at most
  one task, which belongs to its sender.
\<close>

section \<open>Reading a numbered name from its end\<close>

lemma plain_extension_dot: "plain_extension P e \<Longrightarrow> \<exists>r. e = 46 # r \<and> 46 \<notin> set r \<and> 47 \<notin> set r \<and> r \<noteq> []"
proof -
  assume "plain_extension P e"
  then obtain r where r: "e = 46 # r" "list_all (ext_char P) r" "r \<noteq> []"
    by (cases e; cases "tl e") (auto simp: plain_extension_def)
  have "\<not> ext_char P 46" "\<not> ext_char P 47" by (simp_all add: ext_char_def is_udigit_def is_digit_def)
  with r show ?thesis by (auto simp: list_all_iff)
qed

lemma last_split: "xs @ d # e = ys @ d # e' \<Longrightarrow> d \<notin> set e \<Longrightarrow> d \<notin> set e' \<Longrightarrow> xs = ys \<and> e = e'"
proof (induction xs arbitrary: ys)
  case Nil
  then show ?case by (cases ys) auto
next
  case (Cons x xs)
  then show ?case by (cases ys) auto
qed

text \<open>The normalised extension of an album name.\<close>

definition album_suffix :: "platform \<Rightarrow> ustr \<Rightarrow> ustr" where
  "album_suffix P extension = (let e = truncate_utf8 extension 24 in if plain_extension P e then e else asc ''.bin'')"

lemma album_suffix_dot: "\<exists>r. album_suffix P extension = 46 # r \<and> 46 \<notin> set r \<and> 47 \<notin> set r \<and> r \<noteq> []"
  using plain_extension_dot[of P "truncate_utf8 extension 24"] by (simp add: album_suffix_def Let_def asc_def)

lemma album_name_shape:
  obtains c where "album_name P title kind number extension =
    c @ (case number of None \<Rightarrow> [] | Some n \<Rightarrow> 45 # kind @ dec02 n) @ album_suffix P extension"
  by (cases number) (simp_all add: album_name_def album_file_name_def album_suffix_def Let_def)

lemma dec02_digits: "list_all is_digit (dec02 n)"
  using dec_nat_all_digits by (simp add: dec02_def is_digit_def)

lemma dec02_inj: "dec02 m = dec02 n \<Longrightarrow> m = n"
proof -
  have "undec_nat (dec02 k) = k" for k
    using undec_dec_nat[of k] by (simp add: dec02_def undec_nat_def)
  then show "dec02 m = dec02 n \<Longrightarrow> m = n" by metis
qed

lemma trailing_digits:
  assumes "xs @ ds = ys @ es" "list_all is_digit ds" "list_all is_digit es"
    and "xs \<noteq> []" "ys \<noteq> []" "\<not> is_digit (last xs)" "\<not> is_digit (last ys)"
  shows "xs = ys \<and> ds = es"
proof -
  have tw: "takeWhile is_digit (rev (zs @ fs)) = rev fs" if "list_all is_digit fs" "zs \<noteq> []" "\<not> is_digit (last zs)" for zs fs
  proof -
    have "takeWhile is_digit (rev fs @ rev zs) = rev fs @ takeWhile is_digit (rev zs)"
      using that(1) by (intro takeWhile_append2) (auto simp: list_all_iff)
    also have "takeWhile is_digit (rev zs) = []" using that(2,3) by (cases zs rule: rev_cases) auto
    finally show ?thesis by simp
  qed
  from tw[of ds xs] tw[of es ys] assms have "rev ds = rev es" by metis
  with assms(1) show ?thesis by simp
qed

text \<open>The labels of the two kinds end in different characters, none of them a digit.\<close>

lemma kind_labels: "kind \<in> {lbl_video, lbl_image} \<Longrightarrow> kind' \<in> {lbl_video, lbl_image} \<Longrightarrow>
    \<not> is_digit (last kind) \<and> kind \<noteq> [] \<and> (last kind = last kind' \<longrightarrow> kind = kind')"
  by (auto simp: lbl_video_def lbl_image_def is_digit_def)

lemma numbered_names_differ:
  assumes "kind \<in> {lbl_video, lbl_image}" "kind' \<in> {lbl_video, lbl_image}"
    and "album_name P title kind (Some n) e = album_name P title' kind' (Some n') e'"
  shows "kind = kind' \<and> n = n'"
proof -
  obtain c where c: "album_name P title kind (Some n) e = c @ (45 # kind @ dec02 n) @ album_suffix P e"
    using album_name_shape[of P title kind "Some n" e] by auto
  obtain c' where c': "album_name P title' kind' (Some n') e' = c' @ (45 # kind' @ dec02 n') @ album_suffix P e'"
    using album_name_shape[of P title' kind' "Some n'" e'] by auto
  obtain r r' where r: "album_suffix P e = 46 # r" "album_suffix P e' = 46 # r'" "46 \<notin> set r" "46 \<notin> set r'"
    using album_suffix_dot by metis
  have "(c @ 45 # kind @ dec02 n) @ 46 # r = (c' @ 45 # kind' @ dec02 n') @ 46 # r'"
    using assms(3) unfolding c c' r(1,2) by simp
  from last_split[OF this r(3,4)] have "(c @ 45 # kind) @ dec02 n = (c' @ 45 # kind') @ dec02 n'" by simp
  from trailing_digits[OF this dec02_digits dec02_digits] kind_labels[OF assms(1,2)] kind_labels[OF assms(2,1)]
  have "c @ 45 # kind = c' @ 45 # kind'" "dec02 n = dec02 n'" by auto
  moreover from this(1) have "last kind = last kind'"
    using kind_labels[OF assms(1,2)] kind_labels[OF assms(2,1)] by (metis last_ConsR last_append list.distinct(1))
  ultimately show ?thesis using kind_labels[OF assms(1,2)] dec02_inj by blast
qed

section \<open>The suffixes of a pair\<close>

lemma media_kind_label: "media_kind m \<noteq> [] \<Longrightarrow> media_kind m \<in> {lbl_video, lbl_image}"
  unfolding media_kind_def by (auto split: if_splits)

lemma safe_file_name_start:
  assumes "\<And>c. is_surrogate c \<Longrightarrow> category P c = UCs"
  shows "\<exists>c r. safe_file_name P name fallback = c # r \<and> c \<notin> {32, 46, 47} \<and> 47 \<notin> set r \<and> \<not> list_ex is_surrogate (c # r)"
proof -
  obtain cand where cand: "plain_name cand" and eq: "safe_file_name P name fallback =
       (let suffix = truncate_utf8 (path_suffix cand) 24;
            stem = truncate_utf8 (path_stem cand) (max 1 (180 - utf8_len suffix))
        in (if stem = [] then asc ''file'' else stem) @ suffix)"
    using safe_file_name_candidate[OF assms] by metis
  have h: "harmless (safe_file_name P name fallback)" by (rule safe_file_name_harmless[OF assms])
  define stem where "stem = truncate_utf8 (path_stem cand) (max 1 (180 - utf8_len (truncate_utf8 (path_suffix cand) 24)))"
  have "hd stem \<noteq> 32" if "stem \<noteq> []"
  proof -
    have sur: "\<not> list_ex is_surrogate (path_stem cand)"
      using cand stem_suffix[of cand] plain_name_path[OF cand] by (auto simp: plain_name_def list_all_iff list_ex_iff)
        (metis UnI1 set_append)
    obtain q where q: "path_stem cand = stem @ q" using truncate_set[OF sur] unfolding stem_def by blast
    have "path_stem cand @ path_suffix cand = cand" using stem_suffix[of cand] plain_name_path[OF cand] by auto
    with q that have "hd stem = hd cand" by (metis append_is_Nil_conv hd_append2)
    with cand show ?thesis by (simp add: plain_name_def)
  qed
  then have "hd (safe_file_name P name fallback) \<noteq> 32"
    unfolding eq Let_def stem_def[symmetric] by (cases "stem = []") (simp_all add: asc_def)
  moreover have "hd (safe_file_name P name fallback) \<noteq> 46"
    using bounded_name[OF cand] unfolding eq by (simp add: Let_def)
  ultimately show ?thesis using h
    by (cases "safe_file_name P name fallback") (auto simp: harmless_def forbidden_def list_all_iff list_ex_iff)
qed

lemma path_suffix_join:
  assumes "c \<noteq> []" "47 \<notin> set c" "46 \<notin> set r" "47 \<notin> set r" "r \<noteq> []"
  shows "path_suffix (c @ 46 # r) = 46 # r"
proof -
  let ?s = "c @ 46 # r"
  have n: "path_name ?s = ?s"
  proof (rule path_name_plain)
    show "47 \<notin> set ?s" "?s \<noteq> []" using assms(2,4) by auto
    show "?s \<noteq> DOT" using assms(1) by (cases c) (auto simp: DOT_def asc_def)
  qed
  have out: "\<And>x. x \<in> set (rev r) \<Longrightarrow> x \<noteq> 46" using assms(3) by auto
  have "takeWhile (\<lambda>c. c \<noteq> 46) (rev r @ 46 # rev c) = rev r @ takeWhile (\<lambda>c. c \<noteq> 46) (46 # rev c)"
    by (rule takeWhile_append2) (rule out)
  moreover have "dropWhile (\<lambda>c. c \<noteq> 46) (rev r @ 46 # rev c) = dropWhile (\<lambda>c. c \<noteq> 46) (46 # rev c)"
    by (rule dropWhile_append2) (rule out)
  ultimately have "takeWhile (\<lambda>c. c \<noteq> 46) (rev ?s) = rev r" "dropWhile (\<lambda>c. c \<noteq> 46) (rev ?s) = 46 # rev c" by simp_all
  moreover have "last r \<noteq> 46" using assms(3) last_in_set[OF assms(5)] by metis
  then have "last ?s \<noteq> 46" using assms(5) by simp
  ultimately show ?thesis using assms(1) by (simp add: path_suffix_def n Let_def has_suffix_def before_dot_def from_dot_def)
qed

lemma rstrip_start: "c \<notin> set cs \<Longrightarrow> \<exists>r. rstrip_set cs (c # s) = c # r \<and> set r \<subseteq> set s"
proof -
  assume c: "c \<notin> set cs"
  let ?p = "\<lambda>c. c \<in> set cs"
  have "rstrip_set cs (c # s) = c # rstrip_set cs s"
  proof (cases "\<forall>x \<in> set (rev s). ?p x")
    case True
    then have "dropWhile ?p (rev s) = []" by (simp add: dropWhile_eq_Nil_conv)
    moreover have "dropWhile ?p (rev s @ [c]) = dropWhile ?p [c]" using True by (intro dropWhile_append2) simp
    ultimately show ?thesis using c by (simp add: rstrip_set_def)
  next
    case False
    then obtain x where "x \<in> set (rev s)" "\<not> ?p x" by blast
    then show ?thesis unfolding rstrip_set_def by (simp add: dropWhile_append1[of x])
  qed
  moreover have "set (rstrip_set cs s) \<subseteq> set s" using set_dropWhileD by (fastforce simp: rstrip_set_def)
  ultimately show ?thesis by blast
qed

lemma album_suffix_short: "utf8_len (album_suffix P e) \<le> 24"
  using truncate_bound[of e 24] by (simp add: album_suffix_def Let_def asc_def utf8_size_def)

lemma album_suffix_again: "album_suffix P (album_suffix P e) = album_suffix P e"
proof -
  have "set (take_bytes n v) \<subseteq> set v" for n v using take_bytes_prefix[of v n] by (metis set_append Un_upper1)
  then have "set (truncate_utf8 e 24) \<subseteq> set (map (\<lambda>c. if is_surrogate c then 63 else c) e)"
    unfolding truncate_utf8_def Let_def by (simp only: split: if_splits) blast
  moreover have "\<not> is_surrogate x" if mem: "x \<in> set (map (\<lambda>c. if is_surrogate c then 63 else c) e)" for x
  proof -
    obtain c where "x = (if is_surrogate c then 63 else c)" using mem unfolding set_map by (rule imageE)
    moreover have "\<not> is_surrogate 63" by (simp add: is_surrogate_def)
    ultimately show ?thesis by simp
  qed
  ultimately have "\<not> list_ex is_surrogate (truncate_utf8 e 24)" unfolding list_ex_iff by blast
  then have sur: "\<not> list_ex is_surrogate (album_suffix P e)"
  proof -
    have "\<not> list_ex is_surrogate (asc ''.bin'')" by (simp add: asc_def is_surrogate_def)
    with \<open>\<not> list_ex is_surrogate (truncate_utf8 e 24)\<close> show ?thesis unfolding album_suffix_def Let_def by simp
  qed
  from truncate_same[OF sur album_suffix_short]
  have "truncate_utf8 (album_suffix P e) 24 = album_suffix P e" .
  moreover have "plain_extension P (album_suffix P e)"
    by (auto simp: album_suffix_def Let_def asc_def plain_extension_def ext_char_def)
  ultimately show ?thesis by (simp add: album_suffix_def[of P "album_suffix P e"] Let_def)
qed

lemma album_name_suffix:
  assumes "\<And>c. is_surrogate c \<Longrightarrow> category P c = UCs"
  shows "path_suffix (album_name P title kind None e) = album_suffix P e"
proof -
  let ?clean = "safe_file_name P (title_path_separators P (re_sub P True CAPTION_SUFFIX (\<lambda>m. []) title)) (asc ''media'')"
  obtain c r where cr: "?clean = c # r" "c \<notin> {32, 46, 47}" "47 \<notin> set r" "\<not> list_ex is_surrogate (c # r)"
    using safe_file_name_start[OF assms] by metis
  let ?t = "truncate_utf8 ?clean (180 - utf8_len (album_suffix P e))"
  have "?t \<noteq> []" using album_suffix_short[of P e] by (intro truncate_nonempty) (auto simp: cr(1))
  moreover obtain q where "?clean = ?t @ q" using truncate_set[of ?clean] cr(1,4) by metis
  ultimately obtain r' where t: "?t = c # r'" "set r' \<subseteq> set r" using cr(1) by (cases ?t) auto
  obtain r2 where r2: "rstrip_set [32, 46] ?t = c # r2" "set r2 \<subseteq> set r'" using rstrip_start[of c "[32, 46]" r'] cr(2) t by auto
  obtain x where x: "album_suffix P e = 46 # x" "46 \<notin> set x" "47 \<notin> set x" "x \<noteq> []" using album_suffix_dot by metis
  have "album_name P title kind None e = rstrip_set [32, 46] ?t @ album_suffix P e"
    by (simp only: album_name_def album_file_name_def Let_def album_suffix_def option.case)
  then have "album_name P title kind None e = (c # r2) @ 46 # x" unfolding r2(1) by (simp only: x(1))
  with path_suffix_join[of "c # r2" x] x cr(2,3) r2(2) t(2) show ?thesis by auto
qed

lemma album_extension_suffix:
  assumes "\<And>c. is_surrogate c \<Longrightarrow> category P c = UCs" "t_file m \<noteq> None"
  shows "\<exists>e. album_extension P m kind = album_suffix P e"
proof -
  obtain f where "t_file m = Some f" using assms(2) by blast
  then show ?thesis by (simp add: album_extension_def Let_def album_name_suffix[OF assms(1)] del: if_split) blast
qed

section \<open>Names of a media group\<close>

text \<open>The names given to a list of members.\<close>

definition given :: "(member \<times> ustr option) list \<Rightarrow> ustr list" where
  "given ms = List.map_filter snd ms"

lemma given_simps [simp]: "given [] = []" "given ((m, None) # ms) = given ms" "given ((m, Some x) # ms) = x # given ms"
  by (simp_all add: given_def List.map_filter_simps)

lemma group_names_numbered:
  "x \<in> set (given (group_names P title False numbers ms)) \<Longrightarrow>
    \<exists>kind n e. kind \<in> {lbl_video, lbl_image} \<and> numbers kind < n \<and> x = album_name P title kind (Some n) e"
proof (induction P title "False" numbers ms rule: group_names.induct)
  case (2 P title numbers m extension ms)
  let ?kind = "media_kind (member_message m)"
  let ?take = "title \<noteq> [] \<and> ?kind \<noteq> [] \<and> t_file (member_message m) \<noteq> None \<and> \<not> numbered_part P (member_message m)"
  show ?case
  proof (cases ?take)
    case True
    with "2.prems" consider "x = album_name P title ?kind (Some (Suc (numbers ?kind))) extension"
      | "x \<in> set (given (group_names P title False (numbers(?kind := Suc (numbers ?kind))) ms))"
      by (auto simp: Let_def)
    then show ?thesis
    proof cases
      case 1
      with True media_kind_label show ?thesis by blast
    next
      case 2
      from "2.hyps"(1)[OF refl True this] obtain k n e where
        "k \<in> {lbl_video, lbl_image}" "(numbers(?kind := Suc (numbers ?kind))) k < n" "x = album_name P title k (Some n) e" by blast
      moreover from this(2) have "numbers k < n" by (auto split: if_splits)
      ultimately show ?thesis by blast
    qed
  next
    case False
    with "2.prems" have "x \<in> set (given (group_names P title False numbers ms))" by (auto simp: Let_def)
    from "2.hyps"(2)[OF refl False this] show ?thesis .
  qed
qed simp

lemma group_names_distinct: "distinct (given (group_names P title False numbers ms))"
proof (induction P title "False" numbers ms rule: group_names.induct)
  case (2 P title numbers m extension ms)
  let ?kind = "media_kind (member_message m)"
  let ?next = "numbers(?kind := Suc (numbers ?kind))"
  let ?x = "album_name P title ?kind (Some (Suc (numbers ?kind))) extension"
  let ?take = "title \<noteq> [] \<and> ?kind \<noteq> [] \<and> t_file (member_message m) \<noteq> None \<and> \<not> numbered_part P (member_message m)"
  show ?case
  proof (cases ?take)
    case True
    have "?x \<notin> set (given (group_names P title False ?next ms))"
    proof
      assume "?x \<in> set (given (group_names P title False ?next ms))"
      from group_names_numbered[OF this] obtain k n e where k: "k \<in> {lbl_video, lbl_image}" "?next k < n"
        "?x = album_name P title k (Some n) e" by (elim exE conjE)
      have "?kind \<in> {lbl_video, lbl_image}" by (rule media_kind_label) (use True in blast)
      from numbered_names_differ[OF this k(1,3)] have "k = ?kind \<and> n = Suc (numbers ?kind)" by metis
      with k(2) show False by (simp only: fun_upd_same less_irrefl)
    qed
    with "2.hyps"(1)[OF refl True] True show ?thesis by (simp add: Let_def)
  next
    case False
    have "given (group_names P title False numbers ((m, extension) # ms)) = given (group_names P title False numbers ms)"
      using False by (auto simp: Let_def)
    with "2.hyps"(2)[OF refl False] show ?thesis by simp
  qed
qed simp

text \<open>In a pair the two suffixes tell the names apart.\<close>

lemma group_names_step:
  "\<exists>named later. group_names P title True numbers ((m, e) # ms) =
    (m, if named then Some (album_name P title (media_kind (member_message m)) None e) else None)
      # group_names P title True later ms"
proof (cases "title \<noteq> [] \<and> media_kind (member_message m) \<noteq> [] \<and> t_file (member_message m) \<noteq> None
    \<and> \<not> numbered_part P (member_message m)")
  case True
  then show ?thesis by (intro exI[of _ True] exI[of _ "numbers(media_kind (member_message m) := Suc (numbers (media_kind (member_message m))))"])
      (simp add: Let_def)
next
  case False
  then show ?thesis by (intro exI[of _ False] exI[of _ numbers]) (simp only: group_names.simps Let_def if_False)
qed

lemma given_pair:
  assumes "album_name P title (media_kind (member_message m)) None e \<noteq> album_name P title (media_kind (member_message m')) None e'"
  shows "distinct (given (group_names P title True numbers [(m, e), (m', e')]))"
proof -
  obtain b n where 1: "group_names P title True numbers [(m, e), (m', e')] =
    (m, if b then Some (album_name P title (media_kind (member_message m)) None e) else None)
      # group_names P title True n [(m', e')]" using group_names_step by blast
  obtain b' n' where 2: "group_names P title True n [(m', e')] =
    (m', if b' then Some (album_name P title (media_kind (member_message m')) None e') else None)
      # group_names P title True n' []" using group_names_step by blast
  from assms show ?thesis unfolding 1 2 by (cases b; cases b') simp_all
qed

lemma given_untitled: "given (group_names P [] pair numbers ms) = []"
  by (induction ms arbitrary: numbers) (auto simp: Let_def)

text \<open>
  C27. The names of a media group never collide. Whatever Telegram delivers, in whatever order and with
  whatever repetitions, the names chosen for the members of a group are pairwise different: members of a kind are
  numbered, and the number survives the cutting of a long title; the two of a cover pair without numbers have
  different suffixes.
\<close>

theorem album_names_distinct:
  assumes sur: "\<And>c. is_surrogate c \<Longrightarrow> category P c = UCs"
  shows "distinct (List.map_filter snd (group_plan P ms))"
proof -
  define bs where "bs = by_number ms"
  define title where "title = group_title P bs"
  define ext where "ext = (\<lambda>m. let kind = media_kind (member_message m) in
    if title \<noteq> [] \<and> kind \<noteq> [] then album_extension P (member_message m) kind else [])"
  have plan: "group_plan P ms = group_names P title (cover_pair P bs (map ext bs)) (\<lambda>_. 0) (zip bs (map ext bs))"
    unfolding group_plan_def Let_def bs_def[symmetric] title_def[symmetric] ext_def by (rule refl)
  have "distinct (given (group_plan P ms))"
  proof (cases "cover_pair P bs (map ext bs) \<and> title \<noteq> []")
    case False
    then show ?thesis using group_names_distinct given_untitled unfolding plan by (cases "title = []") auto
  next
    case True
    then obtain m m' where bs: "bs = [m, m']" by (auto simp: cover_pair_def numeral_2_eq_2 length_Suc_conv)
    have kinds: "{media_kind (member_message m), media_kind (member_message m')} = {lbl_video, lbl_image}"
      and files: "t_file (member_message m) \<noteq> None" "t_file (member_message m') \<noteq> None"
      and differ: "ext m \<noteq> ext m'" using True by (auto simp: cover_pair_def bs)
    have labels: "x \<in> {lbl_video, lbl_image} \<Longrightarrow> x \<noteq> []" for x by (auto simp: lbl_video_def lbl_image_def)
    have named: "media_kind (member_message m) \<noteq> []" "media_kind (member_message m') \<noteq> []"
      by (rule labels, unfold kinds[symmetric], blast)+
    have suffix: "album_suffix P (ext q) = ext q" if q: "media_kind (member_message q) \<noteq> []" "t_file (member_message q) \<noteq> None" for q
    proof -
      obtain e where "ext q = album_suffix P e"
        using q True album_extension_suffix[OF sur] by (auto simp: ext_def Let_def)
      then show ?thesis by (simp add: album_suffix_again)
    qed
    have "path_suffix (album_name P title (media_kind (member_message m)) None (ext m)) = ext m"
      "path_suffix (album_name P title (media_kind (member_message m')) None (ext m')) = ext m'"
      using suffix[OF named(1) files(1)] suffix[OF named(2) files(2)] by (simp_all add: album_name_suffix[OF sur])
    with differ have "album_name P title (media_kind (member_message m)) None (ext m)
        \<noteq> album_name P title (media_kind (member_message m')) None (ext m')" by metis
    note given_pair[OF this]
    moreover have "given (group_plan P ms) = given (group_names P title True (\<lambda>_. 0) [(m, ext m), (m', ext m')])"
      using True by (simp only: plan bs list.map zip_Cons_Cons zip_Nil)
    ultimately show ?thesis by simp
  qed
  then show ?thesis by (simp add: given_def)
qed

text \<open>A group of two.\<close>

definition ex_member :: "int \<Rightarrow> member" where
  "ex_member n = \<lparr>am_post = ex_post\<lparr>po_message := (po_message ex_post)\<lparr>t_number := n, t_video := True,
     t_raw_text := asc ''Way Home'', t_file := Some \<lparr>f_name = [], f_ext = asc ''.mp4'', f_mime = [], f_size = Some 10\<rparr>\<rparr>\<rparr>,
     am_sender = Some 9, am_out = False\<rparr>"

theorem album_names_distinct_witness:
  "distinct (List.map_filter snd (group_plan ascii_platform [ex_member 4, ex_member 3, ex_member 4]))"
  using album_names_distinct[OF ex_platform_surrogates] .

section \<open>A file adds at most one task\<close>

abbreviation tasks_of :: "listener \<Rightarrow> task list" where
  "tasks_of s \<equiv> d_tasks (p_db (l_db s))"

text \<open>At most one task more, which belongs to the sender and names the message.\<close>

definition one_more :: "int \<Rightarrow> int \<Rightarrow> int \<Rightarrow> task list \<Rightarrow> task list \<Rightarrow> bool" where
  "one_more actor chat message ts us \<longleftrightarrow> us = ts \<or> (\<exists>t. us = ts @ [t] \<and> t_sender_id t = actor \<and> t_chat_id t = chat
     \<and> t_message_id t = message \<and> t_read_identity t = BOT \<and> t_state t = Queued)"

lemma create_task_one_more:
  assumes "create_task P n now d = Inr ((t, c), d')" "n_identity n = BOT"
  shows "one_more (n_sender n) (n_chat n) (n_message n) (d_tasks d) (d_tasks d')"
  using assms(1)
proof (cases rule: create_task_cases)
  case (new dir)
  with assms(2) show ?thesis by (auto simp: insert_task_Some one_more_def new_task_def)
qed (simp add: one_more_def)

lemma create_plan_row:
  assumes wf: "distinct (map pl_id (p_plans d))" and c: "create_plan P A actor r now d = Inr ((q, cr), d')"
  shows "p_db d' = p_db d \<and> (\<exists>p. row_of pl_id (pl_id q) (p_plans d') = Some p \<and> same_message r p)"
proof -
  let ?d = "expire_pending (Some actor) now d"
  have db: "p_db ?d = p_db d" by (simp add: expire_pending_def)
  have ids: "map pl_id (p_plans ?d) = map pl_id (p_plans d)"
    by (simp add: expire_pending_def upd_where_def expired_row_def comp_def if_distrib cong: if_cong)
  from c obtain saved where rest: "(case find (same_message r) (p_plans ?d) of
      Some old \<Rightarrow> bindE (get_plan A actor (pl_id old) now ?d) (\<lambda>q. Inr ((q, False), ?d))
    | None \<Rightarrow> create_new P A actor r saved now ?d) = Inr ((q, cr), d')"
    by (auto simp: create_plan_def bindE_Inr Let_def)
  show ?thesis
  proof (cases "find (same_message r) (p_plans ?d)")
    case (Some old)
    then have old: "old \<in> set (p_plans ?d)" "same_message r old" by (auto simp: find_Some_iff)
    have "row_of pl_id (pl_id old) (p_plans ?d) = Some old" using old(1) wf ids by (intro row_of_unique) simp_all
    with rest Some old(2) db show ?thesis by (auto simp: bindE_Inr get_plan_Inr)
  next
    case None
    with rest have "create_new P A actor r saved now ?d = Inr ((q, cr), d')" by simp
    then obtain dir why options at_time where
      w: "write_journal saved r (next_id pl_id (p_plans ?d)) now (?d\<lparr>p_plans := p_plans ?d @
        [new_plan (next_id pl_id (p_plans ?d)) actor r (new_payload r saved dir why options at_time) now]\<rparr>) = Inr d'"
      and g: "get_plan A actor (next_id pl_id (p_plans ?d)) now d' = Inr q"
      by (auto simp: create_new_def bindE_Inr Let_def split: if_splits prod.splits)
    let ?p = "new_plan (next_id pl_id (p_plans ?d)) actor r (new_payload r saved dir why options at_time) now"
    have plans: "p_plans d' = p_plans ?d @ [?p]" "p_db d' = p_db d" using write_journal_same[OF w] db by simp_all
    have "row_of pl_id (next_id pl_id (p_plans ?d)) (p_plans ?d) = None" using next_id_fresh by (simp add: row_of_None)
    then have row: "row_of pl_id (next_id pl_id (p_plans ?d)) (p_plans d') = Some ?p"
      by (simp add: plans(1) row_of_append new_plan_def)
    with g have "q = shown now ?p" by (auto simp: get_plan_Inr)
    then have "pl_id q = next_id pl_id (p_plans ?d)" by (simp add: new_plan_def)
    with row plans(2) show ?thesis by (simp add: same_message_def new_plan_def)
  qed
qed

lemma submit_one_more:
  assumes "submit P A actor i revision now d = Inr ((ot, c), d')" "row_of pl_id i (p_plans d) = Some p"
    and "pl_identity p = BOT"
  shows "one_more actor (pl_chat p) (pl_message p) (d_tasks (p_db d)) (d_tasks (p_db d'))"
  using assms(1)
proof (cases rule: submit_cases)
  case (task q t db)
  with assms(2) have q: "q = p" by simp
  from task(10) show ?thesis
  proof (cases rule: task_of_plan_cases)
    case (1 n)
    from create_task_one_more[OF 1] assms(3) task(12) show ?thesis by (simp add: q plan_intake_def Let_def)
  qed (simp add: one_more_def task(12))
qed (simp add: one_more_def)

section \<open>From programs to tasks\<close>

text \<open>A program that leaves the database, and one that adds at most the one task.\<close>

definition still :: "'a lp \<Rightarrow> bool" where
  "still m \<longleftrightarrow> (\<forall>d. remains (\<lambda>s. l_db s = d) m)"

lemma stillI: "(\<And>s r s'. m s = (r, s') \<Longrightarrow> l_db s' = l_db s) \<Longrightarrow> still m"
  unfolding still_def by (intro allI specI) (auto split: sum.splits)

lemma still_basic: "still (returnL a)" "still (raiseL e)" "still (senseL f)" "still (readL g)"
  by (auto intro!: stillI simp: returnL_def raiseL_def senseL_def ticked_def readL_def)

lemma still_await: "alone K \<Longrightarrow> still (awaitL K f)" "alone K \<Longrightarrow> still (replyL K)"
  by (auto intro!: stillI simp: replyL_def awaitL_def alone_def)

lemma still_in: "still m \<Longrightarrow> remains (\<lambda>s. Q (l_db s)) m"
  by (rule specI) (auto simp: still_def spec_def split: prod.splits sum.splits)

definition adds :: "int \<Rightarrow> int \<Rightarrow> int \<Rightarrow> plandb \<Rightarrow> plandb \<Rightarrow> bool" where
  "adds actor chat message d d' \<longleftrightarrow> one_more actor chat message (d_tasks (p_db d)) (d_tasks (p_db d'))"

lemma adds_refl [simp]: "adds actor chat message d d"
  by (simp add: adds_def one_more_def)

lemma db_spec:
  assumes "\<And>a d'. f d = Inr (a, d') \<Longrightarrow> Q a d'" "X d"
  shows "spec (\<lambda>s. l_db s = d) (dbL f) (\<lambda>a s. Q a (l_db s)) (\<lambda>_ s. X (l_db s))"
  by (rule specI) (use assms in \<open>auto simp: dbL_def split: sum.splits\<close>)

lemma spec_weaken: "spec P m Q X \<Longrightarrow> (\<And>s. P' s \<Longrightarrow> P s) \<Longrightarrow> spec P' m Q X"
  by (rule spec_conseq)

lemma manual_submit_adds:
  assumes K: "alone K" and row: "row_of pl_id (pl_id p) (p_plans d) = Some q" "pl_identity q = BOT"
  shows "spec (\<lambda>s. l_db s = d) (manual_submit K actor p)
    (\<lambda>_ s. adds actor (pl_chat q) (pl_message q) d (l_db s)) (\<lambda>_ s. adds actor (pl_chat q) (pl_message q) d (l_db s))"
    (is "spec _ _ (\<lambda>_. ?I) (\<lambda>_. ?I)")
  unfolding manual_submit_def
proof (rule spec_bind[where R = "\<lambda>_ s. l_db s = d"])
  show "spec (\<lambda>s. l_db s = d) (senseL (k_wall K)) (\<lambda>_ s. l_db s = d) (\<lambda>_. ?I)"
    by (rule spec_conseq[OF still_in[OF still_basic(3), of "\<lambda>x. x = d"]]) auto
  fix now
  have sub: "spec (\<lambda>s. l_db s = d) (dbL (submit (k_P K) (k_admin K) actor (pl_id p) (pl_revision p) now)) (\<lambda>_. ?I) (\<lambda>_. ?I)"
    by (rule db_spec[where Q = "\<lambda>_. adds actor (pl_chat q) (pl_message q) d"])
      (auto simp: adds_def dest: submit_one_more[OF _ row(1,2)])
  have tail: "spec ?I (case t of None \<Rightarrow> raiseL (Py (TypeError [])) | Some t \<Rightarrow> replyL K) (\<lambda>_. ?I) (\<lambda>_. ?I)" for t :: "task option"
    by (cases t) (auto intro: still_in still_await K)
  show "spec (\<lambda>s. l_db s = d) (bindL (dbL (submit (k_P K) (k_admin K) actor (pl_id p) (pl_revision p) now)) (\<lambda>(t, created).
       case t of None \<Rightarrow> raiseL (Py (TypeError [])) | Some t \<Rightarrow> replyL K)) (\<lambda>_. ?I) (\<lambda>_. ?I)"
    by (rule spec_bind[OF sub]) (auto intro: tail split: prod.splits)
qed

text \<open>A still program in front of one that starts from the same database.\<close>

lemma spec_still_bind:
  assumes "still m" "\<And>a. spec (\<lambda>s. l_db s = d) (f a) Q (\<lambda>_ s. X (l_db s))" "X d"
  shows "spec (\<lambda>s. l_db s = d) (bindL m f) Q (\<lambda>_ s. X (l_db s))"
  by (rule spec_bind[OF _ assms(2)], rule spec_conseq[OF still_in[OF assms(1), of "\<lambda>x. x = d"]]) (use assms(3) in auto)

lemma manual_plan_adds:
  assumes K: "alone K" and ids: "distinct (map pl_id (p_plans d))"
  shows "spec (\<lambda>s. l_db s = d) (manual_plan K actor chat m file_name created_at options confirm prof)
    (\<lambda>_ s. adds actor (t_chat (po_message m)) (t_number (po_message m)) d (l_db s))
    (\<lambda>_ s. adds actor (t_chat (po_message m)) (t_number (po_message m)) d (l_db s))"
    (is "spec _ _ (\<lambda>_ s. ?A d (l_db s)) _")
  unfolding manual_plan_def Let_def
proof (rule spec_still_bind[OF still_basic(4) _ adds_refl], rule spec_still_bind[OF still_basic(3) _ adds_refl])
  fix naming now
  let ?r = "manual_proposal K chat (facts (k_P K) (po_message m) None) (manual_name prof file_name naming) naming created_at options"
  have chat: "pr_chat ?r = t_chat (po_message m)" "pr_message ?r = t_number (po_message m)" "pr_identity ?r = BOT"
    by (simp_all add: manual_proposal_def facts_def Let_def)
  define R where "R = (\<lambda>(p :: plan_row, created :: bool) (d' :: plandb). p_db d' = p_db d \<and> (\<exists>q. row_of pl_id (pl_id p) (p_plans d') = Some q \<and> same_message ?r q))"
  have step: "spec (\<lambda>s. l_db s = d) (dbL (create_plan (k_P K) (k_admin K) actor ?r now)) (\<lambda>a s. R a (l_db s)) (\<lambda>_ s. ?A d (l_db s))"
    by (rule db_spec) (auto simp: R_def dest!: create_plan_row[OF ids])
  have "spec (\<lambda>s. R (p, created) (l_db s)) (if confirm then replyL K else manual_submit K actor p) (\<lambda>_ s. ?A d (l_db s)) (\<lambda>_ s. ?A d (l_db s))"
    for p created
  proof (rule specI)
    fix s x s'
    assume R: "R (p, created) (l_db s)" and run: "(if confirm then replyL K else manual_submit K actor p) s = (x, s')"
    from R obtain q where q: "p_db (l_db s) = p_db d" "row_of pl_id (pl_id p) (p_plans (l_db s)) = Some q" "same_message ?r q"
      by (auto simp: R_def)
    have "?A (l_db s) (l_db s')"
    proof (cases confirm)
      case True
      with run specD[OF still_in[OF still_await(2)[OF K], of "\<lambda>x. x = l_db s"] refl, of x s'] show ?thesis
        by (cases x) auto
    next
      case False
      with run specD[OF manual_submit_adds[OF K q(2), of actor] refl, of x s'] q(3) chat show ?thesis
        by (cases x) (auto simp: same_message_def)
    qed
    then have "?A d (l_db s')" by (simp add: adds_def q(1))
    then show "case x of Inl e \<Rightarrow> ?A d (l_db s') | Inr a \<Rightarrow> ?A d (l_db s')" by (cases x) auto
  qed
  then show "spec (\<lambda>s. l_db s = d) (bindL (dbL (create_plan (k_P K) (k_admin K) actor ?r now)) (\<lambda>(p, created).
      if confirm then replyL K else manual_submit K actor p)) (\<lambda>_ s. ?A d (l_db s)) (\<lambda>_ s. ?A d (l_db s))"
    by (intro spec_bind[OF step]) (auto split: prod.splits)
qed

lemma manual_adds:
  assumes K: "alone K" and ids: "distinct (map pl_id (p_plans d))"
  shows "spec (\<lambda>s. l_db s = d) (manual K actor chat m file_name created_at options)
    (\<lambda>planned s. adds actor (t_chat (po_message m)) (t_number (po_message m)) d (l_db s) \<and> (\<not> planned \<longrightarrow> l_db s = d))
    (\<lambda>_ s. adds actor (t_chat (po_message m)) (t_number (po_message m)) d (l_db s))"
    (is "spec _ _ ?Q (\<lambda>_ s. ?A (l_db s))")
  unfolding manual_def
proof (rule spec_still_bind[OF still_basic(4) _ adds_refl])
  fix a :: "bool \<times> json \<times> bool"
  obtain confirm prof standard where a: "a = (confirm, prof, standard)" by (cases a)
  have yes: "spec (\<lambda>s. l_db s = d) (thenL (manual_plan K actor chat m file_name created_at options confirm prof) (returnL True)) ?Q (\<lambda>_ s. ?A (l_db s))"
    by (rule spec_then[OF manual_plan_adds[OF K ids]]) (auto simp: spec_def returnL_def)
  have no: "spec (\<lambda>s. l_db s = d) (returnL False :: bool lp) ?Q (\<lambda>_ s. ?A (l_db s))" by (auto simp: spec_def returnL_def)
  show "spec (\<lambda>s. l_db s = d) (case a of (confirm, prof, standard) \<Rightarrow> if \<not> confirm \<and> standard then returnL False
    else thenL (manual_plan K actor chat m file_name created_at options confirm prof) (returnL True)) ?Q (\<lambda>_ s. ?A (l_db s))"
    using yes no unfolding a by simp
qed

lemma save_file_adds:
  "spec (\<lambda>s. l_db s = d) (save_file K actor e file_name file_size created_at options)
    (\<lambda>_ s. adds actor (ev_chat e) (t_number (po_message (ev_message e))) d (l_db s))
    (\<lambda>_ s. adds actor (ev_chat e) (t_number (po_message (ev_message e))) d (l_db s))"
    (is "spec _ _ (\<lambda>_ s. ?A (l_db s)) _")
  unfolding save_file_def
proof (rule spec_still_bind[OF still_basic(3) _ adds_refl])
  fix now
  let ?n = "bot_intake K actor e file_name file_size options"
  have n: "n_identity ?n = BOT" "n_sender ?n = actor" "n_chat ?n = ev_chat e" "n_message ?n = t_number (po_message (ev_message e))"
    by (simp_all add: bot_intake_def Let_def)
  have "spec (\<lambda>s. l_db s = d) (dbL (on_db (create_task (k_P K) ?n (case created_at of None \<Rightarrow> now | Some t \<Rightarrow> t)))) (\<lambda>_ s. ?A (l_db s)) (\<lambda>_ s. ?A (l_db s))"
    by (rule db_spec[where Q = "\<lambda>_. ?A"]) (auto simp: on_db_def bindE_Inr adds_def dest!: create_task_one_more[OF _ n(1)] simp: n)
  then show "spec (\<lambda>s. l_db s = d) (bindL (dbL (on_db (create_task (k_P K) ?n (case created_at of None \<Rightarrow> now | Some t \<Rightarrow> t))))
      (\<lambda>(t, created). returnL (if created then Registered t else Known t))) (\<lambda>_ s. ?A (l_db s)) (\<lambda>_ s. ?A (l_db s))"
    by (rule spec_bind) (auto simp: spec_def returnL_def)
qed

lemma store_file_adds:
  assumes K: "alone K" and ids: "distinct (map pl_id (p_plans d))" and chat: "t_chat (po_message (ev_message e)) = ev_chat e"
  shows "remains (\<lambda>s. adds actor (ev_chat e) (t_number (po_message (ev_message e))) d (l_db s)) (replyL K)"
    and "spec (\<lambda>s. l_db s = d) (store_file K actor e file_name file_size created_at options)
      (\<lambda>_ s. adds actor (ev_chat e) (t_number (po_message (ev_message e))) d (l_db s))
      (\<lambda>_ s. adds actor (ev_chat e) (t_number (po_message (ev_message e))) d (l_db s))"
    (is "spec _ _ (\<lambda>_ s. ?A (l_db s)) _")
proof -
  show reply: "remains (\<lambda>s. ?A (l_db s)) (replyL K)" by (rule still_in[OF still_await(2)[OF K]])
  have body: "spec (\<lambda>s. l_db s = d) (bindL (manual K actor (ev_chat e) (ev_message e) file_name created_at options) (\<lambda>planned.
        if planned then returnL Planned else save_file K actor e file_name file_size created_at options))
      (\<lambda>_ s. ?A (l_db s)) (\<lambda>_ s. ?A (l_db s))"
  proof (rule spec_bind[OF manual_adds[OF K ids, of actor "ev_chat e" "ev_message e", unfolded chat]])
    fix planned
    show "spec (\<lambda>s. ?A (l_db s) \<and> (\<not> planned \<longrightarrow> l_db s = d)) (if planned then returnL Planned
        else save_file K actor e file_name file_size created_at options) (\<lambda>_ s. ?A (l_db s)) (\<lambda>_ s. ?A (l_db s))"
      using save_file_adds[of d K actor e file_name file_size created_at options]
      by (cases planned) (auto simp: spec_def returnL_def)
  qed
  show "spec (\<lambda>s. l_db s = d) (store_file K actor e file_name file_size created_at options) (\<lambda>_ s. ?A (l_db s)) (\<lambda>_ s. ?A (l_db s))"
    unfolding store_file_def by (rule spec_catch[OF body]) (auto intro!: remains_then reply)
qed

lemma accept_file_adds:
  assumes K: "alone K" and ids: "distinct (map pl_id (p_plans d))" and chat: "t_chat (po_message (ev_message e)) = ev_chat e"
  shows "spec (\<lambda>s. l_db s = d) (accept_file K B actor e album created_at options)
      (\<lambda>_ s. adds actor (ev_chat e) (t_number (po_message (ev_message e))) d (l_db s))
      (\<lambda>_ s. adds actor (ev_chat e) (t_number (po_message (ev_message e))) d (l_db s))"
    (is "spec _ _ (\<lambda>_ s. ?A (l_db s)) _")
proof -
  note reply = store_file_adds(1)[OF K ids chat, of actor]
  have refuse: "spec (\<lambda>s. l_db s = d) (thenL (replyL K) (returnL Refused)) (\<lambda>_ s. ?A (l_db s)) (\<lambda>_ s. ?A (l_db s))"
    by (rule spec_weaken[OF remains_then[OF reply remains_return]]) simp
  have answer: "remains (\<lambda>s. ?A (l_db s)) (case out of Registered t \<Rightarrow> thenL (replyL K) (returnL out)
      | Known t \<Rightarrow> thenL (replyL K) (returnL out) | _ \<Rightarrow> returnL out)" for out
    by (cases out) (auto intro!: remains_then reply)
  show ?thesis unfolding accept_file_def Let_def
    using refuse by (auto intro!: spec_still_bind[OF still_basic(3)] spec_bind[OF store_file_adds(2)[OF K ids chat] answer])
qed


text \<open>A video in the private chat of the administrator.\<close>

definition ex_bot :: bot where
  "ex_bot = \<lparr>b_min_free = 5, b_snapshot = (\<lambda>_. None)\<rparr>"

definition ex_event :: delivery where
  "ex_event = \<lparr>ev_sender = Some 9, ev_chat = 5, ev_private = True, ev_message = am_post (ex_member 3), ev_text = []\<rparr>"

lemma ex_plans: "distinct (map pl_id (p_plans (l_db ex_listener)))"
  by (simp add: ex_listener_def set_sources_def empty_plandb_def)

lemma ex_event_chat: "t_chat (po_message (ev_message ex_event)) = ev_chat ex_event"
  by (simp add: ex_event_def ex_member_def ex_post_def)

lemma ex_no_tasks: "tasks_of ex_listener = []"
  by (simp add: ex_listener_def empty_db_def)


end
