(* ===== verification/Approval.thy ===== *)
theory Approval
  imports IntakeLaws
begin

text \<open>
  The approval of a plan in the dialogue, \<open>submit\<close> of \<open>src/tg2cloud/telegram/planning.py\<close>, with the approval
  of a batch by \<open>callback\<close>: the source of a listened plan is read again before the plan becomes a task.
\<close>

section \<open>Approving a plan\<close>

definition msg_base_differs :: ustr where
  "msg_base_differs = asc ''Bot '' @ [19978, 20256, 26681, 30446, 24405, 24050, 21464, 21270, 65307, 35831,
      37325, 26032, 24314, 31435, 35745, 21010, 65292, 19981, 33258, 21160, 20999, 25442, 30446, 24405]"

text \<open>The dictionary that stands for the task to be; it has no entry for the chat.\<close>

definition plan_reader :: "int \<Rightarrow> plan_row \<Rightarrow> reader" where
  "plan_reader actor p = \<lparr>rd_sender = actor, rd_identity = pl_identity p, rd_source = pl_source p, rd_chat = None,
     rd_message = pl_message p, rd_media_key = pa_media_key (pl_payload p)\<rparr>"

definition read_again :: "link \<Rightarrow> int \<Rightarrow> plan_row \<Rightarrow> unit lp" where
  "read_again K actor p = thenL (require_admin K actor)
     (bindL (get_checked K (plan_reader actor p) (pl_chat p) (pl_message p)) (\<lambda>_. returnL ()))"

definition approve :: "link \<Rightarrow> int \<Rightarrow> int \<Rightarrow> int \<Rightarrow> (task option \<times> bool) lp" where
  "approve K actor i revision = bindL (senseL (k_wall K)) (\<lambda>now.
     bindL (readL (\<lambda>s. get_plan (k_admin K) actor i now (l_db s))) (\<lambda>p.
     if pa_base (pl_payload p) \<noteq> Some (k_target K) then raiseL (Py (ValueError msg_base_differs))
     else thenL (whenL (pl_source p \<noteq> None \<and> pl_status p = Pending) (read_again K actor p))
       (bindL (senseL (k_wall K)) (\<lambda>now. dbL (submit (k_P K) (k_admin K) actor i revision now)))))"

text \<open>A batch goes on after the refusals it expects; the result is how many plans were approved.\<close>

fun approve_batch :: "link \<Rightarrow> int \<Rightarrow> (int \<times> int) list \<Rightarrow> nat lp" where
  "approve_batch K actor [] = returnL 0"
| "approve_batch K actor ((i, revision) # plans) =
     bindL (catchL (bindL (approve K actor i revision) (\<lambda>_. returnL 1))
       (\<lambda>e. if is_value_error e \<or> is_runtime_error e then returnL 0 else raiseL e)) (\<lambda>n.
     bindL (approve_batch K actor plans) (\<lambda>m. returnL (n + m)))"

section \<open>A plan of a source cannot be approved\<close>

lemma no_chat: "rd_chat r = None \<Longrightarrow> identity K r s \<noteq> Inr x"
  by (auto simp: identity_def bindE_Inr split: option.splits if_splits)

lemma checked_without_chat:
  assumes "rd_chat r = None"
  shows "\<exists>e. identity K r s = Inl e \<and> get_checked K r chat number s = (Inl (Py e), s)"
proof (cases "identity K r s")
  case (Inl e)
  then show ?thesis by (simp add: get_checked_def bindL_def readL_def errL_def)
qed (use no_chat[OF assms] in blast)

lemma read_again_fails: "\<exists>e. read_again K actor p s = (Inl e, s)"
proof (cases "require_admin K actor s")
  case (Pair r t)
  then have t: "t = s" by (simp add: require_admin_def readL_def)
  have "rd_chat (plan_reader actor p) = None" by (simp add: plan_reader_def)
  then obtain e where "get_checked K (plan_reader actor p) (pl_chat p) (pl_message p) s = (Inl (Py e), s)"
    using checked_without_chat by blast
  with Pair t show ?thesis by (cases r) (auto simp: read_again_def thenL_def bindL_def)
qed

text \<open>
  The approval of a pending plan of a source always fails and changes nothing, whatever the account, the client and
  Telegram say: the check reads the chat of a task from a dictionary that does not have it.
\<close>

theorem approval_of_source_fails:
  assumes "get_plan (k_admin K) actor i (k_wall K (l_tick s)) (l_db s) = Inr p" "pl_source p \<noteq> None" "pl_status p = Pending"
  shows "\<exists>e. approve K actor i revision s = (Inl e, ticked s)"
proof -
  have "get_plan (k_admin K) actor i (k_wall K (l_tick s)) (l_db (ticked s)) = Inr p" using assms(1) by (simp add: ticked_def)
  moreover obtain e where "read_again K actor p (ticked s) = (Inl e, ticked s)" using read_again_fails by blast
  ultimately show ?thesis using assms(2,3)
    by (auto simp: approve_def bindL_def senseL_def readL_def errL_def thenL_def whenL_def raiseL_def)
qed

text \<open>With everything in order the exception is a \<open>KeyError\<close>, which a batch does not catch.\<close>

lemma key_error:
  assumes "identity K (r\<lparr>rd_chat := Some chat\<rparr>) s = Inr x" "rd_chat r = None"
  shows "identity K r s = Inl (KeyError (asc ''chat_id''))"
  using assms by (auto simp: identity_def bindE_Inr split: option.split_asm if_split_asm)

text \<open>A plan of a listened video of the administrator 9, still pending; the account, the source and the client are in order.\<close>

definition ex_listened :: plan_row where
  "ex_listened = ex_plan\<lparr>pl_source := Some 1, pl_identity := listener_identity 7, pl_message := 3, pl_expires := 100000,
     pl_payload := (pl_payload ex_plan)\<lparr>pa_base := Some []\<rparr>\<rparr>"

definition ex_approver :: listener where
  "ex_approver = ex_listener\<lparr>l_db := p_plans_update (\<lambda>_. [ex_listened]) (l_db ex_listener)\<rparr>"

lemma ex_get_listened: "get_plan (k_admin ex_net) 9 1 (k_wall ex_net n) (l_db ex_approver) = Inr ex_listened"
  by (simp add: get_plan_def ex_approver_def ex_listener_def ex_net_def authorize_def authorized_def ex_listened_def
      ex_plan_def new_plan_def shown_def)

lemma ex_listened_identity: "identity ex_net (plan_reader 9 ex_listened) (ex_approver\<lparr>l_tick := n\<rparr>) = Inl (KeyError (asc ''chat_id''))"
proof (rule key_error)
  show "rd_chat (plan_reader 9 ex_listened) = None" by (simp add: plan_reader_def)
  show "identity ex_net ((plan_reader 9 ex_listened)\<lparr>rd_chat := Some 5\<rparr>) (ex_approver\<lparr>l_tick := n\<rparr>) = Inr (0, ex_source)"
    by (simp add: identity_def ex_approver_def ex_listener_def ex_net_def authorized_def plan_reader_def ex_listened_def
        account_value_def account_state_def ex_account_def account_enabled_def config_value_def jfind_def asc_def
        identity_of_def admin_source_def the_source_def authorize_def sources_of_def ex_source_def)
qed

lemma approval_fails_sample: "fst (approve ex_net 9 1 0 ex_approver) = Inl (Py (KeyError (asc ''chat_id'')))"
proof -
  have "fst (read_again ex_net 9 ex_listened (ex_approver\<lparr>l_tick := Suc 0\<rparr>)) = Inl (Py (KeyError (asc ''chat_id'')))"
    using ex_listened_identity[of "Suc 0"]
    by (simp add: read_again_def thenL_def bindL_def get_checked_def readL_def errL_def require_admin_def ex_net_def
        ex_approver_def ex_listener_def authorize_def authorized_def)
  then obtain t where again: "read_again ex_net 9 ex_listened (ex_approver\<lparr>l_tick := Suc 0\<rparr>) = (Inl (Py (KeyError (asc ''chat_id''))), t)"
    by (metis prod.collapse)
  have tick: "ticked ex_approver = ex_approver\<lparr>l_tick := Suc 0\<rparr>" by (simp add: ticked_def ex_approver_def ex_listener_def)
  have plan: "pa_base (pl_payload ex_listened) = Some (k_target ex_net)" "pl_source ex_listened \<noteq> None" "pl_status ex_listened = Pending"
    by (simp_all add: ex_listened_def ex_net_def ex_plan_def new_plan_def)
  show ?thesis
    by (simp add: approve_def bindL_def senseL_def readL_def errL_def tick ex_get_listened plan thenL_def whenL_def again)
qed

text \<open>The batch stops at it.\<close>

lemma batch_stops_sample: "fst (approve_batch ex_net 9 ((1, 0) # plans) ex_approver) = Inl (Py (KeyError (asc ''chat_id'')))"
proof -
  obtain t where "approve ex_net 9 1 0 ex_approver = (Inl (Py (KeyError (asc ''chat_id''))), t)"
    using approval_fails_sample by (metis prod.collapse)
  then show ?thesis by (simp add: bindL_def catchL_def raiseL_def is_value_error_def is_runtime_error_def)
qed

end
