(* ===== verification/Spec2Isabelle.thy ===== *)
theory Spec2Isabelle
  imports Actions Findings NamePlan Rules PlanLaws Acceptance RcloneEngine Approval
begin

text \<open>
  A verification development for TG2Cloud, a service that takes files from Telegram messages and
  stores them on a remote drive. It models the core of \<open>src/src/tg2cloud\<close>: the task database, the
  handlers that move a file, the client of the remote drive, the scheduler, the listener of the personal
  account with its rules, and the plans, sources and names.

  \<^bold>\<open>How the program works.\<close> A message or an approved plan becomes a row of \<open>tasks\<close>
  (\<open>TaskDB.create_task\<close>, \<open>Plans.submit\<close>). The scheduler (\<open>transfer/scheduler.py\<close>) reserves rows
  within the disk budget and the windows and starts one coroutine per task: download then upload, or
  a stream straight to the remote. The handlers store every step in the database before or after the
  call it is about; at a restart \<open>recover\<close> reads what they left. Users cancel, retry and confirm.
  The listener polls the sources of a personal account in rounds, decides on every message by the rules
  of its source and makes a plan of what matches, which is submitted at once or approved by the administrator.

  \<^bold>\<open>The theories.\<close>
  \<^item> \<open>Prelude\<close>: text as code points, decimals, \<open>bindE\<close> for results that may be an exception, tables as
    lists of rows with \<open>UPDATE\<close>, and \<open>platform\<close>, what Python's Unicode tables and the clock's time
    zones supply. \<open>Messages\<close>: the texts of the program as code points. \<open>Patterns\<close>: regular expressions
    as terms with a backtracking matcher.
  \<^item> \<open>States\<close> (\<open>domain/states.py\<close>), \<open>Errors\<close> (\<open>domain/errors.py\<close>), \<open>Json\<close>, \<open>JsonText\<close> (Python's \<open>json\<close>
    module on text), \<open>Classification\<close> (\<open>domain/classification.py\<close>, \<open>domain/source_directories.py\<close>),
    \<open>Naming\<close>, \<open>Titles\<close>, \<open>TitleLaws\<close> (\<open>domain/naming.py\<close>), \<open>NamePlan\<close> (\<open>domain/planning.py\<close>).
  \<^item> \<open>Store\<close>: the tables and triggers as one record; \<open>Settings\<close> (\<open>persistence/features.py\<close>,
    \<open>users.py\<close>), \<open>Quotas\<close> (\<open>quotas.py\<close>, \<open>control.py\<close>), \<open>TaskDB\<close> and \<open>Recovery\<close>
    (\<open>persistence/sqlite.py\<close>): one function per method, \<open>Inl\<close> an exception that rolls back.
    \<open>TaskLaws\<close>, \<open>Steps\<close>, \<open>Histories\<close>, \<open>Admission\<close>: the step relation \<open>db_step\<close> of all methods and its
    invariants; the locale \<open>db_invariant\<close> is the interface between an invariant and the methods.
  \<^item> \<open>Staging\<close> (staging names and orphans), \<open>Prog\<close> (programs over an environment that answers every
    \<open>await\<close>), \<open>Commit\<close>, \<open>Upload\<close>, \<open>Streaming\<close>, \<open>Download\<close> (\<open>transfer/\<close>, \<open>storage/\<close>): the
    handlers whole, with their except clauses. \<open>Engine\<close> states laws of programs as locales and proves
    them for the handlers; \<open>Safety\<close> holds the properties.
  \<^item> \<open>Rclone\<close> and \<open>Listing\<close> (\<open>storage/rclone.py\<close>): the client that runs rclone, its configuration and the
    reading of its listings; \<open>RcloneEngine\<close> puts it under the handlers; \<open>Acceptance\<close>
    (\<open>storage/verify_destination.py\<close>).
  \<^item> \<open>Windows\<close> (\<open>monitoring/resources.py\<close>, \<open>listening/transport.py\<close>, \<open>transfer/destination.py\<close>),
    \<open>Rules\<close> (\<open>listening/rules.py\<close>), \<open>Actions\<close> (\<open>transfer/actions.py\<close>, \<open>transfer/recovery.py\<close>),
    \<open>Scheduler\<close> (\<open>transfer/scheduler.py\<close>, \<open>monitoring/progress.py\<close>, the record of
    \<open>listening/account.py\<close>).
  \<^item> \<open>Profiles\<close> (\<open>domain/planning.py\<close>), \<open>Plans\<close> (\<open>persistence/plans.py\<close>) and \<open>PlanLaws\<close>.
  \<^item> \<open>Effects\<close>: state, exceptions and a Hoare logic for coroutines. \<open>Listener\<close>, \<open>ListenerLoop\<close>, \<open>Checked\<close>
    (\<open>listening/service.py\<close>, the request gate of \<open>listening/transport.py\<close>): receiving and polling, the
    main loop with connecting and adding sources, and checked downloads. The state is the database with the
    attributes of the object; \<open>link\<close> is the environment, and what the other coroutines do during an
    \<open>await\<close> is its function \<open>k_others\<close>. \<open>ListenerLaws\<close> and \<open>LoopLaws\<close> hold the properties.
  \<^item> \<open>Intake\<close> (\<open>telegram/handlers.py\<close> from the event of a message or a media group to the row of its task,
    \<open>manual\<close> of \<open>telegram/planning.py\<close>) with \<open>IntakeLaws\<close>; \<open>Approval\<close> (\<open>submit\<close> of \<open>telegram/planning.py\<close> and
    the approval of a batch).
  \<^item> \<open>Findings\<close>: what the model shows to go wrong; \<open>Approval\<close> shows that the pending plan of a source is never approved.

  \<^bold>\<open>What is shown.\<close> Pure functions: paths stay below their base, names are harmless components, rules decide
  the formula they stand for, hidden text never names a file, texts round-trip. Database: the schema holds in
  every history, the log explains every state, quotas, slots and the disk budget are kept, recovery
  settles and protects. Handlers, for every answer of the environment and every
  cancellation: each only performs operations of the database, the local copy goes last, no object is
  overwritten, every remote write is recorded first; with the modelled client each destructive step rests
  on what rclone answered. Control: windows and back-off are
  bounded and recover, cancellation and clean-up touch only what is recorded, scheduling rounds are bounded and end.
  Plans: the search for a folder ends, all tables stay consistent, a plan
  becomes at most one task in an allowed directory. Listener: no message of a page is passed without a
  decision, whatever fails or is edited in between; only the checked attachment of a task is downloaded; the waits of a
  download end; rounds rotate over the sources; an error is only written over the record it is about. Intake: a
  message adds at most one task, for its own authorized sender; the names of a media group never collide.

  \<^bold>\<open>Bounds and fuel.\<close> Loops without a bound in the code take fuel: the choice of a free remote path
  (the handlers are \<open>Stuck\<close> without it, and the safety properties hold for every fuel), the pages of a
  scheduling round (the largest task number plus one is enough, \<open>rounds_terminate\<close>), the search for a source folder
  (three more than the names in use are enough, \<open>folder_search_ends\<close>), and the waits of a chunk
  (\<open>CHUNK_FUEL\<close>, twelve rounds, enough by \<open>chunk_ends\<close>). The main loop of the listener runs for a number of
  iterations that is an argument. Clock readings are rationals, sizes and
  numbers unbounded integers as in Python; text lengths count code points.

  \<^bold>\<open>Not modelled.\<close> The environment: Telegram and its SDK, the rclone program, the disk, and SQLite beyond the
  schema and the triggers; logging in and the session files (\<open>listening/account.py\<close>); the other dialogues of the bot
  (\<open>telegram/\<close>, \<open>listening/management.py\<close>) and the preview of a source (\<open>Listener.test\<close>), which turn buttons
  and texts into the operations modelled here; notifications and health reports (\<open>monitoring/\<close>); copies of the database
  (\<open>persistence/backup.py\<close> and others); and everything that installs or configures a host
  (\<open>deployment/\<close>, \<open>compose/\<close>, \<open>cli/\<close>, \<open>addons/\<close>), which is work on files, processes and systemd.
\<close>

end
